(* ===== verification/Prelude.thy ===== *)
theory Prelude
  imports Complex_Main "HOL-Library.Multiset"
begin

text \<open>
  Shared vocabulary of the development: the error values the code throws, the identifiers and
  amounts of the data model, the JavaScript notions of a truthy string, and the generic list and
  sum-type lemmas that the components use.  The collections \<open>model_simps\<close> and
  \<open>invariant_intros\<close> gather the unfolding rules and the preservation lemmas of the components.
\<close>

named_theorems model_simps \<open>unfolding rules of the model's operations\<close>
named_theorems invariant_intros \<open>preservation lemmas of the invariants\<close>

section \<open>Errors as values\<close>

text \<open>
  The classes of \<open>src/use_cases/errors.ts\<close>, plus what the code can raise besides them:
  \<open>JsError\<close> for \<open>throw new Error(...)\<close>, \<open>JsTypeError\<close> for reading a property
  of \<open>undefined\<close>, and the two Prisma exceptions that the code catches and translates:
  a known request error with its code and an unknown request error whose message names the
  violated check constraint.
\<close>

datatype use_case_error =
    NotFoundUseCaseError string string
  | IllegalStateUseCaseError string
  | ConflictUseCaseError string
  | InternalServerUseCaseError string
  | InvalidArgumentUseCaseError string
  | UnhandledUseCaseError string
  | PermissionDeniedUseCaseError
  | TokenExpiredUseCaseError
  | TokenLockedUseCaseError
  | TokenInvalidUseCaseErrorr
  | SameEmailUserExistsUseCaseError
  | TokenClaimUpdatedUseCaseError
  | StateChangeUseCaseError
  | ExtractItemInsufficientUseCaseError
  | RefreshTokenInvalidUseCaseError
  | JsError string
  | JsTypeError
  | PrismaKnownRequestError string
  | PrismaUnknownRequestError string

type_synonym 'a res = "use_case_error + 'a"

fun bind_res :: "'e + 'a \<Rightarrow> ('a \<Rightarrow> 'e + 'b) \<Rightarrow> 'e + 'b" where
  "bind_res (Inl e) k = Inl e"
| "bind_res (Inr x) k = k x"

lemma bind_res_Inr_iff: "bind_res m k = Inr y \<longleftrightarrow> (\<exists>x. m = Inr x \<and> k x = Inr y)"
  by (cases m) auto

lemma bind_res_Inl_iff:
  "bind_res m k = Inl e \<longleftrightarrow> m = Inl e \<or> (\<exists>x. m = Inr x \<and> k x = Inl e)"
  by (cases m) auto

lemma bind_res_assoc: "bind_res (bind_res m f) g = bind_res m (\<lambda>x. bind_res (f x) g)"
  by (cases m) auto

text \<open>A list of fallible computations, the first error wins (as an \<open>await\<close> in a loop).\<close>

fun map_res :: "('a \<Rightarrow> 'e + 'b) \<Rightarrow> 'a list \<Rightarrow> 'e + 'b list" where
  "map_res f [] = Inr []"
| "map_res f (x # xs) =
     (case f x of Inl e \<Rightarrow> Inl e
      | Inr y \<Rightarrow> (case map_res f xs of Inl e \<Rightarrow> Inl e | Inr ys \<Rightarrow> Inr (y # ys)))"

lemma map_res_length: "map_res f xs = Inr ys \<Longrightarrow> length ys = length xs"
  by (induction xs arbitrary: ys) (auto split: sum.splits)

lemma map_res_nth: "map_res f xs = Inr ys \<Longrightarrow> i < length xs \<Longrightarrow> f (xs ! i) = Inr (ys ! i)"
proof (induction xs arbitrary: ys i)
  case Nil
  then show ?case by simp
next
  case (Cons x xs)
  then show ?case by (cases i) (auto split: sum.splits)
qed

lemma map_res_total: "(\<And>x. x \<in> set xs \<Longrightarrow> f x = Inr (g x)) \<Longrightarrow> map_res f xs = Inr (map g xs)"
  by (induction xs) auto

lemma map_res_set: "map_res f xs = Inr ys \<Longrightarrow> y \<in> set ys \<Longrightarrow> \<exists>x \<in> set xs. f x = Inr y"
  by (induction xs arbitrary: ys) (auto split: sum.splits)

lemma find_in: "find P xs = Some x \<Longrightarrow> x \<in> set xs \<and> P x"
  by (induction xs) (auto split: if_splits)

section \<open>Identifiers, times and amounts\<close>

text \<open>
  Row identifiers and wallet addresses are strings; a \<open>Date\<close> is its number of milliseconds.
  A \<open>Prisma.Decimal\<close> is a rational: the client is configured with 78 significant digits,
  which no amount of the modelled code exceeds.  The balance columns are \<open>Decimal(78,0)\<close>,
  so a stored balance is an integer.
\<close>

type_synonym user_id = string
type_synonym nft_id = string
type_synonym wallet = string
type_synonym date = int
type_synonym decimal = rat

text \<open>\<open>if (x)\<close> on a nullable string: neither null nor empty.\<close>

definition truthy :: "string option \<Rightarrow> bool" where
  "truthy x = (case x of None \<Rightarrow> False | Some s \<Rightarrow> s \<noteq> [])"

lemma truthy_simps [simp]: "\<not> truthy None" "truthy (Some s) \<longleftrightarrow> s \<noteq> []"
  by (simp_all add: truthy_def)

lemma truthy_iff: "truthy x \<longleftrightarrow> (\<exists>s. x = Some s \<and> s \<noteq> [])"
  by (cases x) auto

end
