(* ===== verification/Metadata.thy ===== *)
theory Metadata
  imports Prelude
begin

text \<open>
  The master data of \<open>src/metadata/\<close>: games, ROMs, accumulators, cabinets, arcade machine
  recipes and game center sizes.  The database stores plain strings which the code casts to the
  id types and looks up, so each table is keyed by string and a lookup of an unknown id is
  \<open>None\<close> (JavaScript's \<open>undefined\<close>).  Left out of the rows are the presentation-only
  fields: image, animation and external URLs, descriptions and help texts.  The tables are
  written out entry by entry; a cabinet row carries the fields its
  \<open>...cabinetAbilities.X\<close> spread copies in.
\<close>

section \<open>Games\<close>

datatype WinCondition = CHALLENGE | BATTLE

record game_type =
  game_id :: string
  game_name :: string
  winCondition :: WinCondition
  enabled :: bool
  sparkedEmitTerasSelf :: decimal
  sparkedEmitTerasOther :: decimal
  hotGame :: bool
  minUpperCabinetGrade :: nat
  minLowerCabinetGrade :: nat
  rom_rarity :: nat
  junk_rarity :: nat
  publisherId :: string
  game_order :: nat
  onlyTournament :: bool
  game_category :: string
  gamePath :: string

definition games_1 :: "(string \<times> game_type) list" where
  "games_1 = [
     (''BUBBLE_ATTACK'', \<lparr>game_id = ''BUBBLE_ATTACK'', game_name = ''Bubble Attack'',
       winCondition = BATTLE, enabled = True, sparkedEmitTerasSelf = 40, sparkedEmitTerasOther = 40,
       hotGame = False, minUpperCabinetGrade = 1, minLowerCabinetGrade = 1, rom_rarity = 1, junk_rarity = 1,
       publisherId = ''AKIVERSE'', game_order = 1, onlyTournament = False, game_category = ''Puzzle'',
       gamePath = ''/games/bubble-attack/index.html''\<rparr>),
     (''STAR_GUARDIAN'', \<lparr>game_id = ''STAR_GUARDIAN'', game_name = ''Star Guardian'',
       winCondition = CHALLENGE, enabled = True, sparkedEmitTerasSelf = 40, sparkedEmitTerasOther = 40,
       hotGame = False, minUpperCabinetGrade = 1, minLowerCabinetGrade = 1, rom_rarity = 1, junk_rarity = 1,
       publisherId = ''AKIVERSE'', game_order = 2, onlyTournament = False, game_category = ''Shooting'',
       gamePath = ''/games/star-guardian/index.html''\<rparr>),
     (''CURVE_BALL_3D'', \<lparr>game_id = ''CURVE_BALL_3D'', game_name = ''Retired Game'',
       winCondition = CHALLENGE, enabled = False, sparkedEmitTerasSelf = 0, sparkedEmitTerasOther = 0,
       hotGame = False, minUpperCabinetGrade = 1, minLowerCabinetGrade = 1, rom_rarity = 1, junk_rarity = 1,
       publisherId = ''AKIVERSE'', game_order = 3, onlyTournament = False, game_category = ''Sports'',
       gamePath = ''/games/curve-ball-3d/index.html''\<rparr>),
     (''YUMMY_JUMP'', \<lparr>game_id = ''YUMMY_JUMP'', game_name = ''Yummy Jump'', winCondition = CHALLENGE,
       enabled = True, sparkedEmitTerasSelf = 40, sparkedEmitTerasOther = 40, hotGame = False,
       minUpperCabinetGrade = 1, minLowerCabinetGrade = 1, rom_rarity = 1, junk_rarity = 1,
       publisherId = ''AKIVERSE'', game_order = 4, onlyTournament = False, game_category = ''Action'',
       gamePath = ''/games/yummy-jump/index.html''\<rparr>),
     (''CYBER_PINBALL'', \<lparr>game_id = ''CYBER_PINBALL'', game_name = ''Cyber Pinball'',
       winCondition = CHALLENGE, enabled = True, sparkedEmitTerasSelf = 40, sparkedEmitTerasOther = 40,
       hotGame = False, minUpperCabinetGrade = 1, minLowerCabinetGrade = 1, rom_rarity = 1, junk_rarity = 1,
       publisherId = ''AKIVERSE'', game_order = 5, onlyTournament = False, game_category = ''Action'',
       gamePath = ''/games/cyber-pinball/index.html''\<rparr>)]"

definition games_2 :: "(string \<times> game_type) list" where
  "games_2 = [
     (''NEON_BLITZ'', \<lparr>game_id = ''NEON_BLITZ'', game_name = ''Neon Blitz'', winCondition = CHALLENGE,
       enabled = True, sparkedEmitTerasSelf = 40, sparkedEmitTerasOther = 40, hotGame = False,
       minUpperCabinetGrade = 1, minLowerCabinetGrade = 1, rom_rarity = 1, junk_rarity = 1,
       publisherId = ''AKIVERSE'', game_order = 6, onlyTournament = False, game_category = ''Puzzle'',
       gamePath = ''/games/neon-blitz/index.html''\<rparr>),
     (''SUPER_SNAKE'', \<lparr>game_id = ''SUPER_SNAKE'', game_name = ''Super Snake'', winCondition = BATTLE,
       enabled = True, sparkedEmitTerasSelf = 40, sparkedEmitTerasOther = 40, hotGame = False,
       minUpperCabinetGrade = 1, minLowerCabinetGrade = 1, rom_rarity = 1, junk_rarity = 1,
       publisherId = ''AKIVERSE'', game_order = 7, onlyTournament = False, game_category = ''Action'',
       gamePath = ''/games/super-snake/index.html''\<rparr>),
     (''NEON_PONG'', \<lparr>game_id = ''NEON_PONG'', game_name = ''Neon Pong'', winCondition = BATTLE,
       enabled = True, sparkedEmitTerasSelf = 40, sparkedEmitTerasOther = 40, hotGame = False,
       minUpperCabinetGrade = 1, minLowerCabinetGrade = 1, rom_rarity = 1, junk_rarity = 1,
       publisherId = ''AKIVERSE'', game_order = 8, onlyTournament = False, game_category = ''Sports'',
       gamePath = ''/games/neon-pong/index.html''\<rparr>),
     (''MYTHIC_MATCH'', \<lparr>game_id = ''MYTHIC_MATCH'', game_name = ''Mythic Match'',
       winCondition = BATTLE, enabled = True, sparkedEmitTerasSelf = 40, sparkedEmitTerasOther = 40,
       hotGame = False, minUpperCabinetGrade = 2, minLowerCabinetGrade = 1, rom_rarity = 2, junk_rarity = 2,
       publisherId = ''AKIVERSE'', game_order = 9, onlyTournament = False, game_category = ''Puzzle'',
       gamePath = ''/games/mythic-match/index.html''\<rparr>),
     (''AKIBA_FC'', \<lparr>game_id = ''AKIBA_FC'', game_name = ''AKIBA FC'', winCondition = CHALLENGE,
       enabled = True, sparkedEmitTerasSelf = 40, sparkedEmitTerasOther = 40, hotGame = False,
       minUpperCabinetGrade = 1, minLowerCabinetGrade = 2, rom_rarity = 2, junk_rarity = 2,
       publisherId = ''AKIVERSE'', game_order = 10, onlyTournament = False, game_category = ''Sports'',
       gamePath = ''/games/akiba-fc/index.html''\<rparr>)]"

definition games_3 :: "(string \<times> game_type) list" where
  "games_3 = [
     (''NEON_SNAP'', \<lparr>game_id = ''NEON_SNAP'', game_name = ''Neon Snap'', winCondition = CHALLENGE,
       enabled = True, sparkedEmitTerasSelf = 40, sparkedEmitTerasOther = 40, hotGame = True,
       minUpperCabinetGrade = 1, minLowerCabinetGrade = 2, rom_rarity = 2, junk_rarity = 2,
       publisherId = ''AKIVERSE'', game_order = 11, onlyTournament = False, game_category = ''Puzzle'',
       gamePath = ''/games/neon-snap/index.html''\<rparr>),
     (''NINJA_GO_GO'', \<lparr>game_id = ''NINJA_GO_GO'', game_name = ''Ninja GoGo'', winCondition = BATTLE,
       enabled = True, sparkedEmitTerasSelf = 40, sparkedEmitTerasOther = 40, hotGame = True,
       minUpperCabinetGrade = 2, minLowerCabinetGrade = 1, rom_rarity = 2, junk_rarity = 2,
       publisherId = ''TORNYADE_GAMES'', game_order = 12, onlyTournament = False, game_category = ''Action'',
       gamePath = ''/games/ninja-go-go/index.html''\<rparr>),
     (''MYTHIC_SWING'', \<lparr>game_id = ''MYTHIC_SWING'', game_name = ''Mythic Swing'',
       winCondition = CHALLENGE, enabled = True, sparkedEmitTerasSelf = 40, sparkedEmitTerasOther = 40,
       hotGame = True, minUpperCabinetGrade = 2, minLowerCabinetGrade = 1, rom_rarity = 2, junk_rarity = 2,
       publisherId = ''AKIVERSE'', game_order = 13, onlyTournament = True, game_category = ''Action'',
       gamePath = ''/games/mythic-swing/index.html''\<rparr>)]"

definition games_table :: "(string \<times> game_type) list" where
  "games_table = games_1 @ games_2 @ games_3"

definition games :: "string \<Rightarrow> game_type option" where
  "games = map_of games_table"

section \<open>Arcade parts\<close>

datatype ArcadePartCategory = ROM | ACCUMULATOR | UPPER_CABINET | LOWER_CABINET

record junk_info =
  junksPerPart :: int
  junk_rarity_of :: nat

record arcade_part_type =
  part_subCategory :: string
  part_category :: ArcadePartCategory
  part_name :: string
  part_junk :: junk_info
  part_order :: int
  part_rarity :: nat

record accumulator = arcade_part_type +
  tankCapacity :: int
  extractableEnergy :: int
  acc_group :: nat

record cabinet_ability =
  cabinet_name :: string
  cabinet_grade :: nat
  cabinet_order :: int
  cabinet_rarity :: nat
  gradeUp_next :: string
  gradeUp_percentage :: int

record cabinet = arcade_part_type +
  uc_grade :: nat
  uc_gradeUp_next :: string
  uc_gradeUp_percentage :: int

definition roms_1 :: "(string \<times> arcade_part_type) list" where
  "roms_1 = [
     (''BUBBLE_ATTACK'', \<lparr>part_subCategory = ''BUBBLE_ATTACK'', part_category = ROM,
       part_name = ''Bubble Attack'', part_junk = \<lparr>junksPerPart = 10, junk_rarity_of = 1\<rparr>,
       part_order = 1, part_rarity = 1\<rparr>),
     (''STAR_GUARDIAN'', \<lparr>part_subCategory = ''STAR_GUARDIAN'', part_category = ROM,
       part_name = ''Star Guardian'', part_junk = \<lparr>junksPerPart = 10, junk_rarity_of = 1\<rparr>,
       part_order = 2, part_rarity = 1\<rparr>),
     (''CURVE_BALL_3D'', \<lparr>part_subCategory = ''CURVE_BALL_3D'', part_category = ROM,
       part_name = ''Retired Game'', part_junk = \<lparr>junksPerPart = 10, junk_rarity_of = 1\<rparr>,
       part_order = 3, part_rarity = 1\<rparr>),
     (''YUMMY_JUMP'', \<lparr>part_subCategory = ''YUMMY_JUMP'', part_category = ROM,
       part_name = ''Yummy Jump'', part_junk = \<lparr>junksPerPart = 10, junk_rarity_of = 1\<rparr>,
       part_order = 4, part_rarity = 1\<rparr>),
     (''CYBER_PINBALL'', \<lparr>part_subCategory = ''CYBER_PINBALL'', part_category = ROM,
       part_name = ''Cyber Pinball'', part_junk = \<lparr>junksPerPart = 10, junk_rarity_of = 1\<rparr>,
       part_order = 5, part_rarity = 1\<rparr>),
     (''NEON_BLITZ'', \<lparr>part_subCategory = ''NEON_BLITZ'', part_category = ROM,
       part_name = ''Neon Blitz'', part_junk = \<lparr>junksPerPart = 10, junk_rarity_of = 1\<rparr>,
       part_order = 6, part_rarity = 1\<rparr>),
     (''SUPER_SNAKE'', \<lparr>part_subCategory = ''SUPER_SNAKE'', part_category = ROM,
       part_name = ''Super Snake'', part_junk = \<lparr>junksPerPart = 10, junk_rarity_of = 1\<rparr>,
       part_order = 7, part_rarity = 1\<rparr>),
     (''NEON_PONG'', \<lparr>part_subCategory = ''NEON_PONG'', part_category = ROM,
       part_name = ''Neon Pong'', part_junk = \<lparr>junksPerPart = 10, junk_rarity_of = 1\<rparr>,
       part_order = 8, part_rarity = 1\<rparr>),
     (''MYTHIC_MATCH'', \<lparr>part_subCategory = ''MYTHIC_MATCH'', part_category = ROM,
       part_name = ''Mythic Match'', part_junk = \<lparr>junksPerPart = 10, junk_rarity_of = 2\<rparr>,
       part_order = 9, part_rarity = 2\<rparr>),
     (''AKIBA_FC'', \<lparr>part_subCategory = ''AKIBA_FC'', part_category = ROM, part_name = ''AKIBA FC'',
       part_junk = \<lparr>junksPerPart = 10, junk_rarity_of = 2\<rparr>, part_order = 10,
       part_rarity = 2\<rparr>)]"

definition roms_2 :: "(string \<times> arcade_part_type) list" where
  "roms_2 = [
     (''NEON_SNAP'', \<lparr>part_subCategory = ''NEON_SNAP'', part_category = ROM,
       part_name = ''Neon Snap'', part_junk = \<lparr>junksPerPart = 10, junk_rarity_of = 2\<rparr>,
       part_order = 10, part_rarity = 2\<rparr>),
     (''NINJA_GO_GO'', \<lparr>part_subCategory = ''NINJA_GO_GO'', part_category = ROM,
       part_name = ''Ninja GoGo'', part_junk = \<lparr>junksPerPart = 10, junk_rarity_of = 2\<rparr>,
       part_order = 11, part_rarity = 2\<rparr>),
     (''MYTHIC_SWING'', \<lparr>part_subCategory = ''MYTHIC_SWING'', part_category = ROM,
       part_name = ''Mythic Swing'', part_junk = \<lparr>junksPerPart = 10, junk_rarity_of = 2\<rparr>,
       part_order = 12, part_rarity = 2\<rparr>)]"

definition roms_table :: "(string \<times> arcade_part_type) list" where
  "roms_table = roms_1 @ roms_2"

definition accumulators_1 :: "(string \<times> accumulator) list" where
  "accumulators_1 = [
     (''HOKUTO_100_LX'', \<lparr>part_subCategory = ''HOKUTO_100_LX'', part_category = ACCUMULATOR,
       part_name = ''Hokuto100LX'', part_junk = \<lparr>junksPerPart = 10, junk_rarity_of = 1\<rparr>,
       part_order = 1, part_rarity = 1, tankCapacity = 100000, extractableEnergy = 20000,
       acc_group = 1\<rparr>),
     (''HOKUTO_120_LX'', \<lparr>part_subCategory = ''HOKUTO_120_LX'', part_category = ACCUMULATOR,
       part_name = ''Hokuto120LX'', part_junk = \<lparr>junksPerPart = 10, junk_rarity_of = 1\<rparr>,
       part_order = 2, part_rarity = 1, tankCapacity = 120000, extractableEnergy = 20000,
       acc_group = 1\<rparr>),
     (''HOKUTO_140_LX'', \<lparr>part_subCategory = ''HOKUTO_140_LX'', part_category = ACCUMULATOR,
       part_name = ''Hokuto140LX'', part_junk = \<lparr>junksPerPart = 10, junk_rarity_of = 1\<rparr>,
       part_order = 3, part_rarity = 1, tankCapacity = 140000, extractableEnergy = 20000,
       acc_group = 1\<rparr>),
     (''RYGEN_NA_1'', \<lparr>part_subCategory = ''RYGEN_NA_1'', part_category = ACCUMULATOR,
       part_name = ''Rygen NA1'', part_junk = \<lparr>junksPerPart = 10, junk_rarity_of = 1\<rparr>,
       part_order = 4, part_rarity = 1, tankCapacity = 100000, extractableEnergy = 30000,
       acc_group = 2\<rparr>),
     (''RYGEN_NA_2'', \<lparr>part_subCategory = ''RYGEN_NA_2'', part_category = ACCUMULATOR,
       part_name = ''Rygen NA2'', part_junk = \<lparr>junksPerPart = 10, junk_rarity_of = 1\<rparr>,
       part_order = 5, part_rarity = 1, tankCapacity = 120000, extractableEnergy = 30000,
       acc_group = 2\<rparr>),
     (''RYGEN_NA_3'', \<lparr>part_subCategory = ''RYGEN_NA_3'', part_category = ACCUMULATOR,
       part_name = ''Rygen NA3'', part_junk = \<lparr>junksPerPart = 10, junk_rarity_of = 1\<rparr>,
       part_order = 6, part_rarity = 1, tankCapacity = 150000, extractableEnergy = 30000,
       acc_group = 2\<rparr>),
     (''RYGEN_NB_1'', \<lparr>part_subCategory = ''RYGEN_NB_1'', part_category = ACCUMULATOR,
       part_name = ''Rygen NB1'', part_junk = \<lparr>junksPerPart = 10, junk_rarity_of = 1\<rparr>,
       part_order = 7, part_rarity = 1, tankCapacity = 80000, extractableEnergy = 30000,
       acc_group = 2\<rparr>),
     (''YAMABIKO_2200'', \<lparr>part_subCategory = ''YAMABIKO_2200'', part_category = ACCUMULATOR,
       part_name = ''Yamabiko 2200'', part_junk = \<lparr>junksPerPart = 10, junk_rarity_of = 1\<rparr>,
       part_order = 8, part_rarity = 1, tankCapacity = 110000, extractableEnergy = 40000,
       acc_group = 3\<rparr>)]"

definition accumulators_2 :: "(string \<times> accumulator) list" where
  "accumulators_2 = [
     (''YAMABIKO_4400'', \<lparr>part_subCategory = ''YAMABIKO_4400'', part_category = ACCUMULATOR,
       part_name = ''Yamabiko 4400'', part_junk = \<lparr>junksPerPart = 10, junk_rarity_of = 1\<rparr>,
       part_order = 9, part_rarity = 1, tankCapacity = 130000, extractableEnergy = 40000,
       acc_group = 3\<rparr>),
     (''YAMABIKO_6600'', \<lparr>part_subCategory = ''YAMABIKO_6600'', part_category = ACCUMULATOR,
       part_name = ''Yamabiko 6600'', part_junk = \<lparr>junksPerPart = 10, junk_rarity_of = 1\<rparr>,
       part_order = 10, part_rarity = 1, tankCapacity = 150000, extractableEnergy = 40000,
       acc_group = 3\<rparr>)]"

definition accumulators_table :: "(string \<times> accumulator) list" where
  "accumulators_table = accumulators_1 @ accumulators_2"

definition cabinetAbilities_table :: "(string \<times> cabinet_ability) list" where
  "cabinetAbilities_table = [
     (''PLAIN'', \<lparr>cabinet_name = ''Plain'', cabinet_grade = 1, cabinet_order = 1, cabinet_rarity = 1,
       gradeUp_next = ''MERCURY'', gradeUp_percentage = 50\<rparr>),
     (''MERCURY'', \<lparr>cabinet_name = ''Mercury'', cabinet_grade = 2, cabinet_order = 2,
       cabinet_rarity = 2, gradeUp_next = ''VENUS'', gradeUp_percentage = 0\<rparr>),
     (''VENUS'', \<lparr>cabinet_name = ''Venus'', cabinet_grade = 3, cabinet_order = 3, cabinet_rarity = 3,
       gradeUp_next = ''EARTH'', gradeUp_percentage = 0\<rparr>),
     (''EARTH'', \<lparr>cabinet_name = ''Earth'', cabinet_grade = 4, cabinet_order = 4, cabinet_rarity = 4,
       gradeUp_next = ''MARS'', gradeUp_percentage = 0\<rparr>),
     (''MARS'', \<lparr>cabinet_name = ''Mars'', cabinet_grade = 5, cabinet_order = 5, cabinet_rarity = 5,
       gradeUp_next = ''JUPITER'', gradeUp_percentage = 0\<rparr>),
     (''JUPITER'', \<lparr>cabinet_name = ''Jupiter'', cabinet_grade = 6, cabinet_order = 6,
       cabinet_rarity = 6, gradeUp_next = ''SATURN'', gradeUp_percentage = 0\<rparr>),
     (''SATURN'', \<lparr>cabinet_name = ''Saturn'', cabinet_grade = 7, cabinet_order = 7,
       cabinet_rarity = 7, gradeUp_next = ''URANUS'', gradeUp_percentage = 0\<rparr>),
     (''URANUS'', \<lparr>cabinet_name = ''Uranus'', cabinet_grade = 8, cabinet_order = 8,
       cabinet_rarity = 8, gradeUp_next = ''NEPTUNE'', gradeUp_percentage = 0\<rparr>),
     (''NEPTUNE'', \<lparr>cabinet_name = ''Neptune'', cabinet_grade = 9, cabinet_order = 9,
       cabinet_rarity = 9, gradeUp_next = ''PLUTO'', gradeUp_percentage = 0\<rparr>),
     (''PLUTO'', \<lparr>cabinet_name = ''Pluto'', cabinet_grade = 10, cabinet_order = 10,
       cabinet_rarity = 10, gradeUp_next = ''PLUTO'', gradeUp_percentage = 0\<rparr>)]"

definition upperCabinets_table :: "(string \<times> cabinet) list" where
  "upperCabinets_table = [
     (''PLAIN'', \<lparr>part_subCategory = ''PLAIN'', part_category = UPPER_CABINET, part_name = ''Plain'',
       part_junk = \<lparr>junksPerPart = 10, junk_rarity_of = 1\<rparr>, part_order = 1, part_rarity = 1,
       uc_grade = 1, uc_gradeUp_next = ''MERCURY'', uc_gradeUp_percentage = 50\<rparr>),
     (''MERCURY'', \<lparr>part_subCategory = ''MERCURY'', part_category = UPPER_CABINET,
       part_name = ''Mercury'', part_junk = \<lparr>junksPerPart = 10, junk_rarity_of = 1\<rparr>,
       part_order = 2, part_rarity = 2, uc_grade = 2, uc_gradeUp_next = ''VENUS'',
       uc_gradeUp_percentage = 0\<rparr>),
     (''VENUS'', \<lparr>part_subCategory = ''VENUS'', part_category = UPPER_CABINET, part_name = ''Venus'',
       part_junk = \<lparr>junksPerPart = 10, junk_rarity_of = 1\<rparr>, part_order = 3, part_rarity = 3,
       uc_grade = 3, uc_gradeUp_next = ''EARTH'', uc_gradeUp_percentage = 0\<rparr>),
     (''EARTH'', \<lparr>part_subCategory = ''EARTH'', part_category = UPPER_CABINET, part_name = ''Earth'',
       part_junk = \<lparr>junksPerPart = 10, junk_rarity_of = 1\<rparr>, part_order = 4, part_rarity = 4,
       uc_grade = 4, uc_gradeUp_next = ''MARS'', uc_gradeUp_percentage = 0\<rparr>),
     (''MARS'', \<lparr>part_subCategory = ''MARS'', part_category = UPPER_CABINET, part_name = ''Mars'',
       part_junk = \<lparr>junksPerPart = 10, junk_rarity_of = 1\<rparr>, part_order = 5, part_rarity = 5,
       uc_grade = 5, uc_gradeUp_next = ''JUPITER'', uc_gradeUp_percentage = 0\<rparr>),
     (''JUPITER'', \<lparr>part_subCategory = ''JUPITER'', part_category = UPPER_CABINET,
       part_name = ''Jupiter'', part_junk = \<lparr>junksPerPart = 10, junk_rarity_of = 1\<rparr>,
       part_order = 6, part_rarity = 6, uc_grade = 6, uc_gradeUp_next = ''SATURN'',
       uc_gradeUp_percentage = 0\<rparr>),
     (''SATURN'', \<lparr>part_subCategory = ''SATURN'', part_category = UPPER_CABINET,
       part_name = ''Saturn'', part_junk = \<lparr>junksPerPart = 10, junk_rarity_of = 1\<rparr>,
       part_order = 7, part_rarity = 7, uc_grade = 7, uc_gradeUp_next = ''URANUS'',
       uc_gradeUp_percentage = 0\<rparr>),
     (''URANUS'', \<lparr>part_subCategory = ''URANUS'', part_category = UPPER_CABINET,
       part_name = ''Uranus'', part_junk = \<lparr>junksPerPart = 10, junk_rarity_of = 1\<rparr>,
       part_order = 8, part_rarity = 8, uc_grade = 8, uc_gradeUp_next = ''NEPTUNE'',
       uc_gradeUp_percentage = 0\<rparr>),
     (''NEPTUNE'', \<lparr>part_subCategory = ''NEPTUNE'', part_category = UPPER_CABINET,
       part_name = ''Neptune'', part_junk = \<lparr>junksPerPart = 10, junk_rarity_of = 1\<rparr>,
       part_order = 9, part_rarity = 9, uc_grade = 9, uc_gradeUp_next = ''PLUTO'',
       uc_gradeUp_percentage = 0\<rparr>),
     (''PLUTO'', \<lparr>part_subCategory = ''PLUTO'', part_category = UPPER_CABINET, part_name = ''Pluto'',
       part_junk = \<lparr>junksPerPart = 10, junk_rarity_of = 1\<rparr>, part_order = 10, part_rarity = 10,
       uc_grade = 10, uc_gradeUp_next = ''PLUTO'', uc_gradeUp_percentage = 0\<rparr>)]"

definition lowerCabinets_table :: "(string \<times> cabinet) list" where
  "lowerCabinets_table = [
     (''PLAIN'', \<lparr>part_subCategory = ''PLAIN'', part_category = LOWER_CABINET, part_name = ''Plain'',
       part_junk = \<lparr>junksPerPart = 10, junk_rarity_of = 1\<rparr>, part_order = 1, part_rarity = 1,
       uc_grade = 1, uc_gradeUp_next = ''MERCURY'', uc_gradeUp_percentage = 50\<rparr>),
     (''MERCURY'', \<lparr>part_subCategory = ''MERCURY'', part_category = LOWER_CABINET,
       part_name = ''Mercury'', part_junk = \<lparr>junksPerPart = 10, junk_rarity_of = 1\<rparr>,
       part_order = 2, part_rarity = 2, uc_grade = 2, uc_gradeUp_next = ''VENUS'',
       uc_gradeUp_percentage = 0\<rparr>),
     (''VENUS'', \<lparr>part_subCategory = ''VENUS'', part_category = LOWER_CABINET, part_name = ''Venus'',
       part_junk = \<lparr>junksPerPart = 10, junk_rarity_of = 1\<rparr>, part_order = 3, part_rarity = 3,
       uc_grade = 3, uc_gradeUp_next = ''EARTH'', uc_gradeUp_percentage = 0\<rparr>),
     (''EARTH'', \<lparr>part_subCategory = ''EARTH'', part_category = LOWER_CABINET, part_name = ''Earth'',
       part_junk = \<lparr>junksPerPart = 10, junk_rarity_of = 1\<rparr>, part_order = 4, part_rarity = 4,
       uc_grade = 4, uc_gradeUp_next = ''MARS'', uc_gradeUp_percentage = 0\<rparr>),
     (''MARS'', \<lparr>part_subCategory = ''MARS'', part_category = LOWER_CABINET, part_name = ''Mars'',
       part_junk = \<lparr>junksPerPart = 10, junk_rarity_of = 1\<rparr>, part_order = 5, part_rarity = 5,
       uc_grade = 5, uc_gradeUp_next = ''JUPITER'', uc_gradeUp_percentage = 0\<rparr>),
     (''JUPITER'', \<lparr>part_subCategory = ''JUPITER'', part_category = LOWER_CABINET,
       part_name = ''Jupiter'', part_junk = \<lparr>junksPerPart = 10, junk_rarity_of = 1\<rparr>,
       part_order = 6, part_rarity = 6, uc_grade = 6, uc_gradeUp_next = ''SATURN'',
       uc_gradeUp_percentage = 0\<rparr>),
     (''SATURN'', \<lparr>part_subCategory = ''SATURN'', part_category = LOWER_CABINET,
       part_name = ''Saturn'', part_junk = \<lparr>junksPerPart = 10, junk_rarity_of = 1\<rparr>,
       part_order = 7, part_rarity = 7, uc_grade = 7, uc_gradeUp_next = ''URANUS'',
       uc_gradeUp_percentage = 0\<rparr>),
     (''URANUS'', \<lparr>part_subCategory = ''URANUS'', part_category = LOWER_CABINET,
       part_name = ''Uranus'', part_junk = \<lparr>junksPerPart = 10, junk_rarity_of = 1\<rparr>,
       part_order = 8, part_rarity = 8, uc_grade = 8, uc_gradeUp_next = ''NEPTUNE'',
       uc_gradeUp_percentage = 0\<rparr>),
     (''NEPTUNE'', \<lparr>part_subCategory = ''NEPTUNE'', part_category = LOWER_CABINET,
       part_name = ''Neptune'', part_junk = \<lparr>junksPerPart = 10, junk_rarity_of = 1\<rparr>,
       part_order = 9, part_rarity = 9, uc_grade = 9, uc_gradeUp_next = ''PLUTO'',
       uc_gradeUp_percentage = 0\<rparr>),
     (''PLUTO'', \<lparr>part_subCategory = ''PLUTO'', part_category = LOWER_CABINET, part_name = ''Pluto'',
       part_junk = \<lparr>junksPerPart = 10, junk_rarity_of = 1\<rparr>, part_order = 10, part_rarity = 10,
       uc_grade = 10, uc_gradeUp_next = ''PLUTO'', uc_gradeUp_percentage = 0\<rparr>)]"

definition roms :: "string \<Rightarrow> arcade_part_type option" where
  "roms = map_of roms_table"

definition accumulators :: "string \<Rightarrow> accumulator option" where
  "accumulators = map_of accumulators_table"

definition upperCabinets :: "string \<Rightarrow> cabinet option" where
  "upperCabinets = map_of upperCabinets_table"

definition lowerCabinets :: "string \<Rightarrow> cabinet option" where
  "lowerCabinets = map_of lowerCabinets_table"


section \<open>Arcade machine recipes\<close>

record arcade_machine_type =
  am_id :: string
  am_name :: string
  usable_rom :: "arcade_part_type \<Rightarrow> bool"
  usable_accumulator :: "accumulator \<Rightarrow> bool"
  usable_upperCabinet :: "cabinet \<Rightarrow> bool"
  usable_lowerCabinet :: "cabinet \<Rightarrow> bool"

definition arcadeMachines_1 :: "(string \<times> arcade_machine_type) list" where
  "arcadeMachines_1 = [
     (''BUBBLE_ATTACK'', \<lparr>am_id = ''BUBBLE_ATTACK'', am_name = ''Bubble Attack'',
       usable_rom = (\<lambda>r. part_subCategory r = ''BUBBLE_ATTACK''),
       usable_accumulator = (\<lambda>_. True), usable_upperCabinet = (\<lambda>_. True),
       usable_lowerCabinet = (\<lambda>_. True)\<rparr>),
     (''STAR_GUARDIAN'', \<lparr>am_id = ''STAR_GUARDIAN'', am_name = ''Star Guardian'',
       usable_rom = (\<lambda>r. part_subCategory r = ''STAR_GUARDIAN''),
       usable_accumulator = (\<lambda>_. True), usable_upperCabinet = (\<lambda>_. True),
       usable_lowerCabinet = (\<lambda>_. True)\<rparr>),
     (''CURVE_BALL_3D'', \<lparr>am_id = ''CURVE_BALL_3D'', am_name = ''Retired Game'',
       usable_rom = (\<lambda>_. False), usable_accumulator = (\<lambda>_. False),
       usable_upperCabinet = (\<lambda>_. False), usable_lowerCabinet = (\<lambda>_. False)\<rparr>),
     (''YUMMY_JUMP'', \<lparr>am_id = ''YUMMY_JUMP'', am_name = ''Yummy Jump'',
       usable_rom = (\<lambda>r. part_subCategory r = ''YUMMY_JUMP''),
       usable_accumulator = (\<lambda>_. True), usable_upperCabinet = (\<lambda>_. True),
       usable_lowerCabinet = (\<lambda>_. True)\<rparr>),
     (''CYBER_PINBALL'', \<lparr>am_id = ''CYBER_PINBALL'', am_name = ''Cyber Pinball'',
       usable_rom = (\<lambda>r. part_subCategory r = ''CYBER_PINBALL''),
       usable_accumulator = (\<lambda>_. True), usable_upperCabinet = (\<lambda>_. True),
       usable_lowerCabinet = (\<lambda>_. True)\<rparr>),
     (''NEON_BLITZ'', \<lparr>am_id = ''NEON_BLITZ'', am_name = ''Neon Blitz'',
       usable_rom = (\<lambda>r. part_subCategory r = ''NEON_BLITZ''),
       usable_accumulator = (\<lambda>_. True), usable_upperCabinet = (\<lambda>_. True),
       usable_lowerCabinet = (\<lambda>_. True)\<rparr>),
     (''SUPER_SNAKE'', \<lparr>am_id = ''SUPER_SNAKE'', am_name = ''Super Snake'',
       usable_rom = (\<lambda>r. part_subCategory r = ''SUPER_SNAKE''),
       usable_accumulator = (\<lambda>_. True), usable_upperCabinet = (\<lambda>_. True),
       usable_lowerCabinet = (\<lambda>_. True)\<rparr>),
     (''NEON_PONG'', \<lparr>am_id = ''NEON_PONG'', am_name = ''Neon Pong'',
       usable_rom = (\<lambda>r. part_subCategory r = ''NEON_PONG''),
       usable_accumulator = (\<lambda>_. True), usable_upperCabinet = (\<lambda>_. True),
       usable_lowerCabinet = (\<lambda>_. True)\<rparr>),
     (''MYTHIC_MATCH'', \<lparr>am_id = ''MYTHIC_MATCH'', am_name = ''Mythic Match'',
       usable_rom = (\<lambda>r. part_subCategory r = ''MYTHIC_MATCH''),
       usable_accumulator = (\<lambda>_. True), usable_upperCabinet = (\<lambda>uc. uc_grade uc \<ge> 2),
       usable_lowerCabinet = (\<lambda>_. True)\<rparr>)]"

definition arcadeMachines_2 :: "(string \<times> arcade_machine_type) list" where
  "arcadeMachines_2 = [
     (''AKIBA_FC'', \<lparr>am_id = ''AKIBA_FC'', am_name = ''AKIBA FC'',
       usable_rom = (\<lambda>r. part_subCategory r = ''AKIBA_FC''), usable_accumulator = (\<lambda>_. True),
       usable_upperCabinet = (\<lambda>_. True),
       usable_lowerCabinet = (\<lambda>lc. uc_grade lc \<ge> 2)\<rparr>),
     (''NEON_SNAP'', \<lparr>am_id = ''NEON_SNAP'', am_name = ''Neon Snap'',
       usable_rom = (\<lambda>r. part_subCategory r = ''NEON_SNAP''),
       usable_accumulator = (\<lambda>_. True), usable_upperCabinet = (\<lambda>_. True),
       usable_lowerCabinet = (\<lambda>lc. uc_grade lc \<ge> 2)\<rparr>),
     (''NINJA_GO_GO'', \<lparr>am_id = ''NINJA_GO_GO'', am_name = ''Ninja GoGo'',
       usable_rom = (\<lambda>r. part_subCategory r = ''NINJA_GO_GO''),
       usable_accumulator = (\<lambda>_. True), usable_upperCabinet = (\<lambda>uc. uc_grade uc \<ge> 2),
       usable_lowerCabinet = (\<lambda>_. True)\<rparr>),
     (''MYTHIC_SWING'', \<lparr>am_id = ''MYTHIC_SWING'', am_name = ''Mythic Swing'',
       usable_rom = (\<lambda>r. part_subCategory r = ''MYTHIC_SWING''),
       usable_accumulator = (\<lambda>_. True), usable_upperCabinet = (\<lambda>uc. uc_grade uc \<ge> 2),
       usable_lowerCabinet = (\<lambda>_. True)\<rparr>)]"

definition arcadeMachines_table :: "(string \<times> arcade_machine_type) list" where
  "arcadeMachines_table = arcadeMachines_1 @ arcadeMachines_2"

definition arcadeMachines :: "string \<Rightarrow> arcade_machine_type option" where
  "arcadeMachines = map_of arcadeMachines_table"

definition getArcadeMachineMetadata :: "string \<Rightarrow> arcade_machine_type res" where
  "getArcadeMachineMetadata gameId =
     (case arcadeMachines gameId of
        None \<Rightarrow> Inl (NotFoundUseCaseError ''ArcadeMachine metadata not found'' ''ArcadeMachine'')
      | Some am \<Rightarrow> Inr am)"

section \<open>Metadata of parts and junk\<close>

record part_metadata =
  md_name :: string
  md_rarity :: nat

fun getArcadePartMetadata :: "ArcadePartCategory \<Rightarrow> string \<Rightarrow> part_metadata res" where
  "getArcadePartMetadata ROM subCategory =
     (case roms subCategory of
        None \<Rightarrow> Inl (NotFoundUseCaseError ''ArcadePart metadata not found'' ''ArcadePart'')
      | Some rom \<Rightarrow> Inr \<lparr>md_name = part_name rom @ '' ROM'', md_rarity = part_rarity rom\<rparr>)"
| "getArcadePartMetadata ACCUMULATOR subCategory =
     (case accumulators subCategory of
        None \<Rightarrow> Inl (NotFoundUseCaseError ''ArcadePart metadata not found'' ''ArcadePart'')
      | Some acc \<Rightarrow> Inr \<lparr>md_name = part_name acc @ '' Accumulator'', md_rarity = part_rarity acc\<rparr>)"
| "getArcadePartMetadata UPPER_CABINET subCategory =
     (case upperCabinets subCategory of
        None \<Rightarrow> Inl (NotFoundUseCaseError ''ArcadePart metadata not found'' ''ArcadePart'')
      | Some uc \<Rightarrow> Inr \<lparr>md_name = part_name uc @ '' Upper Cabinet'', md_rarity = part_rarity uc\<rparr>)"
| "getArcadePartMetadata LOWER_CABINET subCategory =
     (case lowerCabinets subCategory of
        None \<Rightarrow> Inl (NotFoundUseCaseError ''ArcadePart metadata not found'' ''ArcadePart'')
      | Some lc \<Rightarrow> Inr \<lparr>md_name = part_name lc @ '' Lower Cabinet'', md_rarity = part_rarity lc\<rparr>)"

record junk_metadata =
  jm_name :: string
  jm_junksPerPart :: int
  jm_rarity :: nat

text \<open>Reading \<open>metadata.name\<close> of an unknown part is a \<open>TypeError\<close>.\<close>

definition junk_metadata_of :: "string \<Rightarrow> ('a arcade_part_type_scheme) option \<Rightarrow> junk_metadata res" where
  "junk_metadata_of suffix part =
     (case part of
        None \<Rightarrow> Inl JsTypeError
      | Some p \<Rightarrow> Inr \<lparr>jm_name = ''junk '' @ part_name p @ suffix,
          jm_junksPerPart = junksPerPart (part_junk p), jm_rarity = part_rarity p\<rparr>)"

fun getJunkMetadata :: "ArcadePartCategory \<Rightarrow> string \<Rightarrow> junk_metadata res" where
  "getJunkMetadata ROM s = junk_metadata_of '' ROM'' (roms s)"
| "getJunkMetadata ACCUMULATOR s = junk_metadata_of '' Accumulator'' (accumulators s)"
| "getJunkMetadata UPPER_CABINET s = junk_metadata_of '' Upper Cabinet'' (upperCabinets s)"
| "getJunkMetadata LOWER_CABINET s = junk_metadata_of '' Lower Cabinet'' (lowerCabinets s)"

section \<open>Game centers\<close>

datatype GameCenterSize = SMALL | MEDIUM | LARGE

fun getCapacity :: "GameCenterSize \<Rightarrow> nat" where
  "getCapacity SMALL = 4"
| "getCapacity MEDIUM = 16"
| "getCapacity LARGE = 64"

section \<open>Facts about the tables\<close>

lemmas accumulators_table_unfold = accumulators_table_def accumulators_1_def accumulators_2_def
lemmas roms_table_unfold = roms_table_def roms_1_def roms_2_def
lemmas games_table_unfold = games_table_def games_1_def games_2_def games_3_def
lemmas arcadeMachines_table_unfold =
  arcadeMachines_table_def arcadeMachines_1_def arcadeMachines_2_def

text \<open>A property of every row of a table is a property of every successful lookup.\<close>

lemma map_of_list_all: "list_all (\<lambda>(k, v). P k v) t \<Longrightarrow> map_of t k = Some v \<Longrightarrow> P k v"
  by (auto simp: list_all_iff dest: map_of_SomeD)

lemma accumulator_energy:
  assumes "accumulators s = Some a"
  shows "10000 dvd extractableEnergy a" and "20000 \<le> extractableEnergy a"
    and "extractableEnergy a \<le> tankCapacity a" and "tankCapacity a \<le> 150000"
proof -
  have "list_all (\<lambda>(k, v). 10000 dvd extractableEnergy v \<and> 20000 \<le> extractableEnergy v \<and>
      extractableEnergy v \<le> tankCapacity v \<and> tankCapacity v \<le> 150000) accumulators_table"
    by (simp add: accumulators_table_unfold)
  from map_of_list_all [OF this assms [unfolded accumulators_def]]
  show "10000 dvd extractableEnergy a" and "20000 \<le> extractableEnergy a"
    and "extractableEnergy a \<le> tankCapacity a" and "tankCapacity a \<le> 150000" by auto
qed

lemma accumulator_key: "accumulators s = Some a \<Longrightarrow> part_subCategory a = s"
  unfolding accumulators_def
  by (erule map_of_list_all [rotated]) (simp add: accumulators_table_unfold)

lemma rom_key: "roms s = Some r \<Longrightarrow> part_subCategory r = s"
  unfolding roms_def
  by (erule map_of_list_all [rotated]) (simp add: roms_table_unfold)

lemma upperCabinet_key: "upperCabinets s = Some c \<Longrightarrow> part_subCategory c = s"
  unfolding upperCabinets_def
  by (erule map_of_list_all [rotated]) (simp add: upperCabinets_table_def)

lemma lowerCabinet_key: "lowerCabinets s = Some c \<Longrightarrow> part_subCategory c = s"
  unfolding lowerCabinets_def
  by (erule map_of_list_all [rotated]) (simp add: lowerCabinets_table_def)

lemma game_emission:
  "games g = Some gi \<Longrightarrow> sparkedEmitTerasSelf gi \<in> {0, 40} \<and> sparkedEmitTerasOther gi \<in> {0, 40}"
  unfolding games_def
  by (erule map_of_list_all [rotated]) (simp add: games_table_unfold)

end
