(* ===== verification/Extract_Table.thy ===== *)
theory Extract_Table
  imports Metadata
begin

text \<open>
  The extraction tables of \<open>src/models/extract_table.ts\<close>: how many items an extraction of
  a given code delivers for the season's base count, and the priority by which drawn items are
  ranked.  A row of \<open>extractTableRecords\<close> lists the counts for the codes 1 to 24; the two
  priority maps are keyed by category and sub category (the source joins them with a dash).
\<close>

section \<open>Item counts\<close>

definition extractTableRecords_1 :: "(int \<times> int list) list" where
  "extractTableRecords_1 = [
     (4, [1, 1, 1, 1, 1, 2, 2, 3, 3, 4, 5, 6, 7, 8, 9, 10, 11, 12, 12, 12, 12, 12, 12, 12]),
     (5, [1, 1, 1, 1, 2, 2, 3, 3, 4, 5, 6, 7, 8, 9, 10, 11, 12, 12, 12, 12, 12, 12, 12, 12]),
     (6, [1, 1, 1, 2, 2, 3, 3, 4, 5, 6, 7, 8, 9, 10, 11, 12, 12, 12, 12, 12, 12, 12, 12, 12]),
     (7, [1, 1, 2, 2, 3, 3, 4, 5, 6, 7, 8, 9, 10, 11, 12, 12, 12, 12, 12, 12, 12, 12, 12, 12]),
     (8, [1, 1, 2, 2, 3, 4, 5, 6, 7, 8, 9, 10, 11, 12, 12, 12, 12, 12, 12, 12, 12, 12, 12, 12])]"

definition extractTableRecords_2 :: "(int \<times> int list) list" where
  "extractTableRecords_2 = [
     (9, [1, 1, 2, 3, 4, 5, 6, 7, 8, 9, 10, 11, 12, 12, 12, 12, 12, 12, 12, 12, 12, 12, 12, 12]),
     (10, [1, 2, 3, 4, 5, 6, 7, 8, 9, 10, 11, 12, 12, 12, 12, 12, 12, 12, 12, 12, 12, 12, 12, 12]),
     (11, [2, 3, 4, 5, 6, 7, 8, 9, 10, 11, 12, 12, 12, 12, 12, 12, 12, 12, 12, 12, 12, 12, 12, 12]),
     (12, [3, 4, 5, 6, 7, 8, 9, 10, 11, 12, 12, 12, 12, 12, 12, 12, 12, 12, 12, 12, 12, 12, 12, 12])]"


definition extractTableRecords :: "(int \<times> int list) list" where
  "extractTableRecords = extractTableRecords_1 @ extractTableRecords_2"

text \<open>Reading a missing base row is a \<open>TypeError\<close>, a missing code is \<open>undefined\<close>.\<close>

definition getExtractItemCount :: "int \<Rightarrow> int \<Rightarrow> int option res" where
  "getExtractItemCount code base =
     (case map_of extractTableRecords base of
        None \<Rightarrow> Inl JsTypeError
      | Some bases \<Rightarrow>
          Inr (if 1 \<le> code \<and> code \<le> 24 then Some (bases ! nat (code - 1)) else None))"

section \<open>Priorities\<close>

definition ExtractPriorityOfArcadePartMap :: "((ArcadePartCategory \<times> string) \<times> int) list" where
  "ExtractPriorityOfArcadePartMap = [
     ((ROM, ''BUBBLE_ATTACK''), 510),
     ((ROM, ''CURVE_BALL_3D''), 511),
     ((ROM, ''STAR_GUARDIAN''), 512),
     ((ROM, ''YUMMY_JUMP''), 513),
     ((ROM, ''CYBER_PINBALL''), 514),
     ((ROM, ''NEON_BLITZ''), 515),
     ((ROM, ''SUPER_SNAKE''), 516),
     ((ROM, ''NEON_PONG''), 517),
     ((ROM, ''MYTHIC_MATCH''), 518),
     ((ROM, ''AKIBA_FC''), 519),
     ((ROM, ''NEON_SNAP''), 520),
     ((ROM, ''NINJA_GO_GO''), 521),
     ((ROM, ''MYTHIC_SWING''), 522),
     ((ACCUMULATOR, ''HOKUTO_100_LX''), 100),
     ((ACCUMULATOR, ''HOKUTO_120_LX''), 110),
     ((ACCUMULATOR, ''HOKUTO_140_LX''), 120),
     ((ACCUMULATOR, ''RYGEN_NA_1''), 101),
     ((ACCUMULATOR, ''RYGEN_NA_2''), 111),
     ((ACCUMULATOR, ''RYGEN_NA_3''), 121),
     ((ACCUMULATOR, ''RYGEN_NB_1''), 130),
     ((ACCUMULATOR, ''YAMABIKO_2200''), 102),
     ((ACCUMULATOR, ''YAMABIKO_4400''), 112),
     ((ACCUMULATOR, ''YAMABIKO_6600''), 122),
     ((UPPER_CABINET, ''PLAIN''), 50),
     ((UPPER_CABINET, ''MERCURY''), 52),
     ((UPPER_CABINET, ''VENUS''), 54),
     ((UPPER_CABINET, ''EARTH''), 56),
     ((UPPER_CABINET, ''MARS''), 58),
     ((UPPER_CABINET, ''JUPITER''), 60),
     ((UPPER_CABINET, ''SATURN''), 62),
     ((UPPER_CABINET, ''URANUS''), 64),
     ((UPPER_CABINET, ''NEPTUNE''), 66),
     ((UPPER_CABINET, ''PLUTO''), 68),
     ((LOWER_CABINET, ''PLAIN''), 51),
     ((LOWER_CABINET, ''MERCURY''), 53),
     ((LOWER_CABINET, ''VENUS''), 55),
     ((LOWER_CABINET, ''EARTH''), 57),
     ((LOWER_CABINET, ''MARS''), 59),
     ((LOWER_CABINET, ''JUPITER''), 61),
     ((LOWER_CABINET, ''SATURN''), 63),
     ((LOWER_CABINET, ''URANUS''), 65),
     ((LOWER_CABINET, ''NEPTUNE''), 67),
     ((LOWER_CABINET, ''PLUTO''), 69)]"

definition ExtractPriorityOfJunkPartMap :: "((ArcadePartCategory \<times> string) \<times> int) list" where
  "ExtractPriorityOfJunkPartMap = [
     ((ROM, ''BUBBLE_ATTACK''), 20),
     ((ROM, ''CURVE_BALL_3D''), 21),
     ((ROM, ''STAR_GUARDIAN''), 22),
     ((ROM, ''YUMMY_JUMP''), 23),
     ((ROM, ''CYBER_PINBALL''), 24),
     ((ROM, ''NEON_BLITZ''), 25),
     ((ROM, ''SUPER_SNAKE''), 26),
     ((ROM, ''NEON_PONG''), 27),
     ((ROM, ''MYTHIC_MATCH''), 28),
     ((ROM, ''AKIBA_FC''), 29),
     ((ROM, ''NEON_SNAP''), 30),
     ((ROM, ''NINJA_GO_GO''), 31),
     ((ROM, ''MYTHIC_SWING''), 32),
     ((ACCUMULATOR, ''HOKUTO_100_LX''), 3),
     ((UPPER_CABINET, ''PLAIN''), 2),
     ((LOWER_CABINET, ''PLAIN''), 1)]"


definition getExtractPriority :: "bool \<Rightarrow> ArcadePartCategory \<Rightarrow> string \<Rightarrow> int res" where
  "getExtractPriority isJunk category subCategory =
     (if isJunk then
        (case map_of ExtractPriorityOfJunkPartMap (category, subCategory) of
           None \<Rightarrow> Inl (InternalServerUseCaseError ''Extract priority not exists. type: Junk'')
         | Some n \<Rightarrow> Inr n)
      else
        (case map_of ExtractPriorityOfArcadePartMap (category, subCategory) of
           None \<Rightarrow> Inl (InternalServerUseCaseError ''Extract priority not exists. type: ArcadePart'')
         | Some n \<Rightarrow> Inr n))"

section \<open>Facts about the tables\<close>

lemmas extractTableRecords_unfold =
  extractTableRecords_def extractTableRecords_1_def extractTableRecords_2_def

text \<open>The shape every row has: 24 counts between 1 and 12, growing by at most one per code.\<close>

fun slow_growth :: "int list \<Rightarrow> bool" where
  "slow_growth (x # y # ys) = (x \<le> y \<and> y \<le> x + 1 \<and> slow_growth (y # ys))"
| "slow_growth _ = True"

definition good_row :: "int list \<Rightarrow> bool" where
  "good_row r \<longleftrightarrow> length r = 24 \<and> list_all (\<lambda>n. 1 \<le> n \<and> n \<le> 12) r \<and> slow_growth r"

lemma slow_growth_nth: "slow_growth r \<Longrightarrow> Suc i < length r \<Longrightarrow> r ! i \<le> r ! Suc i \<and> r ! Suc i \<le> r ! i + 1"
proof (induction r arbitrary: i rule: slow_growth.induct)
  case (1 x y ys)
  then show ?case by (cases i) auto
qed auto

lemma slow_growth_mono: "slow_growth r \<Longrightarrow> i \<le> j \<Longrightarrow> j < length r \<Longrightarrow> r ! i \<le> r ! j"
proof (induction j)
  case 0
  then show ?case by simp
next
  case (Suc j)
  show ?case
  proof (cases "i = Suc j")
    case False
    with Suc.prems have "r ! i \<le> r ! j" by (intro Suc.IH) auto
    also have "\<dots> \<le> r ! Suc j" using slow_growth_nth Suc.prems by blast
    finally show ?thesis .
  qed simp
qed

lemma table_rows_good: "map_of extractTableRecords base = Some r \<Longrightarrow> good_row r"
  by (erule map_of_list_all [rotated]) (simp add: extractTableRecords_unfold good_row_def)

lemma table_base: "map_of extractTableRecords base = Some r \<longleftrightarrow>
    4 \<le> base \<and> base \<le> 12 \<and> r = the (map_of extractTableRecords base)"
  by (auto simp: extractTableRecords_unfold split: if_splits)

lemma getExtractItemCount_Inr:
  "getExtractItemCount code base = Inr (Some n) \<longleftrightarrow>
     (\<exists>r. map_of extractTableRecords base = Some r \<and> 1 \<le> code \<and> code \<le> 24 \<and> n = r ! nat (code - 1))"
  by (auto simp: getExtractItemCount_def split: option.splits)

lemma getExtractItemCount_total:
  assumes "4 \<le> base" and "base \<le> 12" and "1 \<le> code" and "code \<le> 24"
  shows "\<exists>n. getExtractItemCount code base = Inr (Some n)"
proof -
  have "map_of extractTableRecords base \<noteq> None"
    unfolding map_of_eq_None_iff using assms(1,2)
    by (simp add: extractTableRecords_unfold) presburger
  with assms show ?thesis by (auto simp: getExtractItemCount_Inr)
qed

lemma getExtractItemCount_bounds:
  assumes "getExtractItemCount code base = Inr (Some n)"
  shows "1 \<le> n" and "n \<le> 12"
proof -
  from assms obtain r where r: "map_of extractTableRecords base = Some r"
    and c: "1 \<le> code" "code \<le> 24" and n: "n = r ! nat (code - 1)"
    by (auto simp: getExtractItemCount_Inr)
  have "nat (code - 1) < length r" using table_rows_good [OF r] c by (simp add: good_row_def)
  then have "1 \<le> r ! nat (code - 1) \<and> r ! nat (code - 1) \<le> 12"
    using table_rows_good [OF r] by (simp add: good_row_def list_all_length)
  with n show "1 \<le> n" and "n \<le> 12" by simp_all
qed

lemma getExtractItemCount_mono:
  assumes "getExtractItemCount c base = Inr (Some m)"
    and "getExtractItemCount c' base = Inr (Some n)" and "c \<le> c'"
  shows "m \<le> n"
  using assms table_rows_good [of base]
  by (auto simp: getExtractItemCount_Inr good_row_def intro!: slow_growth_mono)

text \<open>
  For a base of at most 10 the counts stay within the number of draws; that fails for 11 and 12.
\<close>

lemma getExtractItemCount_le_code:
  assumes "getExtractItemCount code base = Inr (Some n)" and "base \<le> 10"
  shows "n \<le> code"
proof -
  have le: "list_all (\<lambda>(b, r). b \<le> 10 \<longrightarrow> list_all (\<lambda>i. r ! i \<le> int i + 1) [0..<24]) extractTableRecords"
    by (simp add: extractTableRecords_unfold upt_conv_Cons)
  from assms obtain r where r: "map_of extractTableRecords base = Some r"
    and c: "1 \<le> code" "code \<le> 24" and n: "n = r ! nat (code - 1)"
    by (auto simp: getExtractItemCount_Inr)
  from map_of_list_all [OF le r] assms(2) have "\<forall>i < 24. r ! i \<le> int i + 1"
    by (simp add: list_all_iff)
  moreover have "nat (code - 1) < 24" using c by simp
  ultimately have "r ! nat (code - 1) \<le> int (nat (code - 1)) + 1" by blast
  with n c show ?thesis by simp
qed

lemma priority_keys:
  assumes "getExtractPriority isJunk category s = Inr n"
  shows "0 < n"
proof -
  have a: "list_all (\<lambda>(k, v). 0 < v) ExtractPriorityOfArcadePartMap"
    by (simp add: ExtractPriorityOfArcadePartMap_def)
  have j: "list_all (\<lambda>(k, v). 0 < v) ExtractPriorityOfJunkPartMap"
    by (simp add: ExtractPriorityOfJunkPartMap_def)
  from assms show ?thesis
    by (auto simp: getExtractPriority_def split: if_splits option.splits
        dest: map_of_list_all [OF a] map_of_list_all [OF j])
qed

text \<open>Two different items never share a priority, and every arcade part outranks every junk.\<close>

lemma priority_tables_distinct:
  "distinct (map snd (ExtractPriorityOfJunkPartMap @ ExtractPriorityOfArcadePartMap))"
  by (simp add: ExtractPriorityOfArcadePartMap_def ExtractPriorityOfJunkPartMap_def)

lemma arcade_part_priority:
  assumes "getExtractPriority False c s = Inr n" shows "50 \<le> n"
proof -
  have a: "list_all (\<lambda>(k, v). 50 \<le> v) ExtractPriorityOfArcadePartMap"
    by (simp add: ExtractPriorityOfArcadePartMap_def)
  from assms show ?thesis
    by (auto simp: getExtractPriority_def split: option.splits dest: map_of_list_all [OF a])
qed

lemma junk_priority:
  assumes "getExtractPriority True c s = Inr n" shows "n \<le> 32"
proof -
  have j: "list_all (\<lambda>(k, v). v \<le> 32) ExtractPriorityOfJunkPartMap"
    by (simp add: ExtractPriorityOfJunkPartMap_def)
  from assms show ?thesis
    by (auto simp: getExtractPriority_def split: option.splits dest: map_of_list_all [OF j])
qed

lemma map_of_values_inj:
  "distinct (map snd t) \<Longrightarrow> map_of t k = Some v \<Longrightarrow> map_of t k' = Some v \<Longrightarrow> k = k'"
  by (induction t) (force dest: map_of_SomeD split: if_splits)+

lemma priority_inj:
  assumes "getExtractPriority j c s = Inr n" and "getExtractPriority j' c' s' = Inr n"
  shows "j = j' \<and> c = c' \<and> s = s'"
proof -
  have da: "distinct (map snd ExtractPriorityOfArcadePartMap)"
    and dj: "distinct (map snd ExtractPriorityOfJunkPartMap)"
    using priority_tables_distinct by simp_all
  have "j = j'"
    using assms arcade_part_priority junk_priority by (cases j; cases j') force+
  with assms map_of_values_inj [OF da] map_of_values_inj [OF dj] show ?thesis
    by (cases j) (auto simp: getExtractPriority_def split: option.splits)
qed

end
