(* ===== verification/Utils.thy ===== *)
theory Utils
  imports Prelude "HOL-Library.Sublist"
begin

text \<open>
  The shared helpers of \<open>src/utils.ts\<close>: array comparison and comparators, \<open>groupBy\<close>,
  random choice and shuffling, wallet address equality.  A draw of \<open>Math.random()\<close> is a
  rational in \<open>[0, 1)\<close>; a function that draws repeatedly takes the sequence of its draws.
  JavaScript's \<open>Array.prototype.sort\<close> (stable for a consistent comparator) is
  \<open>js_sort\<close>; the locale \<open>comparator\<close> states what consistency means and proves the
  facts every caller of \<open>sort\<close> uses.
\<close>

section \<open>Comparing arrays\<close>

text \<open>The loop of \<open>compareArrays\<close>: \<open>Some\<close> is an early return.\<close>

fun compare_loop :: "int list \<Rightarrow> int list \<Rightarrow> int option" where
  "compare_loop (x # xs) (y # ys) =
     (if x < y then Some (-1) else if x > y then Some 1 else compare_loop xs ys)"
| "compare_loop _ _ = None"

definition compareArrays :: "int list \<Rightarrow> int list \<Rightarrow> int" where
  "compareArrays a b =
     (case compare_loop a b of
        Some r \<Rightarrow> r
      | None \<Rightarrow> int (length a) - int (length b))"

definition makeCompare :: "('a \<Rightarrow> int list) \<Rightarrow> 'a \<Rightarrow> 'a \<Rightarrow> int" where
  "makeCompare toArray a b = compareArrays (toArray a) (toArray b)"

lemma compareArrays_Nil [simp]:
  "compareArrays [] ys = - int (length ys)" "compareArrays xs [] = int (length xs)"
  by (simp_all add: compareArrays_def)

lemma compareArrays_Cons [simp]:
  "compareArrays (x # xs) (y # ys) = (if x < y then -1 else if x > y then 1 else compareArrays xs ys)"
  by (simp add: compareArrays_def split: option.splits)

lemma compareArrays_refl [simp]: "compareArrays xs xs = 0"
  by (induction xs) auto

lemma compareArrays_sum_0: "compareArrays xs ys + compareArrays ys xs = 0"
  by (induction xs ys rule: compare_loop.induct) simp_all

lemma compareArrays_swap: "compareArrays ys xs = - compareArrays xs ys"
  using compareArrays_sum_0 [of xs ys] by linarith

lemma compareArrays_eq_0_iff: "compareArrays xs ys = 0 \<longleftrightarrow> xs = ys"
  by (induction xs ys rule: compare_loop.induct) auto

lemma compareArrays_trans:
  "compareArrays xs ys \<le> 0 \<Longrightarrow> compareArrays ys zs \<le> 0 \<Longrightarrow> compareArrays xs zs \<le> 0"
proof (induction xs ys arbitrary: zs rule: compare_loop.induct)
  case (1 x xs y ys)
  show ?case
  proof (cases zs)
    case Nil
    with "1.prems" show ?thesis by simp
  next
    case (Cons z zs')
    show ?thesis
    proof (cases "x = y \<and> y = z")
      case True
      with Cons "1.prems" have a: "compareArrays xs ys \<le> 0" and b: "compareArrays ys zs' \<le> 0"
        by simp_all
      from True have "\<not> x < y" and "\<not> y < x" by simp_all
      from "1.IH" [OF this a b] have "compareArrays xs zs' \<le> 0" .
      with True Cons show ?thesis by simp
    next
      case False
      with Cons "1.prems"(1,2) have "x < z" by (auto split: if_splits)
      with Cons show ?thesis by simp
    qed
  qed
next
  case "2_1"
  then show ?case by simp
next
  case "2_2"
  then show ?case by (cases zs) auto
qed

text \<open>The order decided by the first difference is the lexicographic order.\<close>

lemma compareArrays_neg_iff: "compareArrays xs ys < 0 \<longleftrightarrow> ord_class.lexordp xs ys"
  by (induction xs ys rule: compare_loop.induct) auto

section \<open>Comparators and sorting\<close>

fun js_insort :: "('a \<Rightarrow> 'a \<Rightarrow> int) \<Rightarrow> 'a \<Rightarrow> 'a list \<Rightarrow> 'a list" where
  "js_insort cmp x [] = [x]"
| "js_insort cmp x (y # ys) = (if cmp x y \<le> 0 then x # y # ys else y # js_insort cmp x ys)"

fun js_sort :: "('a \<Rightarrow> 'a \<Rightarrow> int) \<Rightarrow> 'a list \<Rightarrow> 'a list" where
  "js_sort cmp [] = []"
| "js_sort cmp (x # xs) = js_insort cmp x (js_sort cmp xs)"

lemma mset_js_insort [simp]: "mset (js_insort cmp x ys) = add_mset x (mset ys)"
  by (induction ys) auto

lemma mset_js_sort [simp]: "mset (js_sort cmp xs) = mset xs"
  by (induction xs) auto

lemma set_js_sort [simp]: "set (js_sort cmp xs) = set xs"
  by (metis mset_js_sort set_mset_mset)

lemma length_js_sort [simp]: "length (js_sort cmp xs) = length xs"
  by (metis mset_js_sort size_mset)

locale comparator =
  fixes cmp :: "'a \<Rightarrow> 'a \<Rightarrow> int"
  assumes swap: "cmp x y \<le> 0 \<or> cmp y x \<le> 0"
    and eq_sym: "cmp x y = 0 \<Longrightarrow> cmp y x = 0"
    and trans: "cmp x y \<le> 0 \<Longrightarrow> cmp y z \<le> 0 \<Longrightarrow> cmp x z \<le> 0"
    and eq_left: "cmp x y = 0 \<Longrightarrow> cmp x z = 0 \<longleftrightarrow> cmp y z = 0"
begin

definition le :: "'a \<Rightarrow> 'a \<Rightarrow> bool" where
  "le x y \<longleftrightarrow> cmp x y \<le> 0"

lemma le_insort: "sorted_wrt le ys \<Longrightarrow> sorted_wrt le (js_insort cmp x ys)"
proof (induction ys)
  case Nil
  then show ?case by simp
next
  case (Cons y ys)
  show ?case
  proof (cases "cmp x y \<le> 0")
    case True
    with Cons.prems show ?thesis by (auto simp: le_def intro: trans)
  next
    case False
    with swap have "le y x" by (auto simp: le_def)
    moreover have "set (js_insort cmp x ys) = insert x (set ys)"
      by (metis mset_js_insort set_mset_add_mset_insert set_mset_mset)
    ultimately show ?thesis using False Cons by simp
  qed
qed

lemma sort_sorted: "sorted_wrt le (js_sort cmp xs)"
  by (induction xs) (auto intro: le_insort)

lemma insort_stable:
  "filter (\<lambda>y. cmp z y = 0) (js_insort cmp x ys) =
     (if cmp z x = 0 then x # filter (\<lambda>y. cmp z y = 0) ys else filter (\<lambda>y. cmp z y = 0) ys)"
proof (induction ys)
  case Nil
  then show ?case by simp
next
  case (Cons y ys)
  show ?case
  proof (cases "cmp x y \<le> 0")
    case True
    then show ?thesis by simp
  next
    case False
    then have "\<not> (cmp z x = 0 \<and> cmp z y = 0)"
      using eq_left [of z x y] by auto
    with False Cons show ?thesis by auto
  qed
qed

text \<open>Items that compare as equal keep their order.\<close>

lemma sort_stable: "filter (\<lambda>y. cmp z y = 0) (js_sort cmp xs) = filter (\<lambda>y. cmp z y = 0) xs"
  by (induction xs) (simp_all add: insort_stable)

end

interpretation arrays: comparator compareArrays
proof unfold_locales
  fix x y z :: "int list"
  show "compareArrays x y \<le> 0 \<or> compareArrays y x \<le> 0"
    using compareArrays_swap [of x y] by linarith
  show "compareArrays x y = 0 \<Longrightarrow> compareArrays y x = 0"
    by (simp add: compareArrays_eq_0_iff)
  show "compareArrays x y \<le> 0 \<Longrightarrow> compareArrays y z \<le> 0 \<Longrightarrow> compareArrays x z \<le> 0"
    by (rule compareArrays_trans)
  show "compareArrays x y = 0 \<Longrightarrow> compareArrays x z = 0 \<longleftrightarrow> compareArrays y z = 0"
    by (simp add: compareArrays_eq_0_iff)
qed

interpretation compare_by: comparator "makeCompare toArray" for toArray :: "'a \<Rightarrow> int list"
proof unfold_locales
  fix x y z :: 'a
  show "makeCompare toArray x y \<le> 0 \<or> makeCompare toArray y x \<le> 0"
    unfolding makeCompare_def by (rule arrays.swap)
  show "makeCompare toArray x y = 0 \<Longrightarrow> makeCompare toArray y x = 0"
    unfolding makeCompare_def by (rule arrays.eq_sym)
  show "makeCompare toArray x y \<le> 0 \<Longrightarrow> makeCompare toArray y z \<le> 0 \<Longrightarrow> makeCompare toArray x z \<le> 0"
    unfolding makeCompare_def by (rule arrays.trans)
  show "makeCompare toArray x y = 0 \<Longrightarrow> makeCompare toArray x z = 0 \<longleftrightarrow> makeCompare toArray y z = 0"
    unfolding makeCompare_def by (rule arrays.eq_left)
qed

section \<open>Grouping and filtering\<close>

text \<open>
  The loop of \<open>groupBy\<close> with its three variables \<open>groups\<close>, \<open>key\<close> and
  \<open>currentGroup\<close> (empty for \<open>null\<close>).
\<close>

fun groupBy_loop ::
  "('a \<Rightarrow> 'k) \<Rightarrow> 'a list \<Rightarrow> 'a list list \<Rightarrow> 'k option \<Rightarrow> 'a list \<Rightarrow> 'a list list" where
  "groupBy_loop keyFn [] groups key cur = (if cur \<noteq> [] then groups @ [cur] else groups)"
| "groupBy_loop keyFn (item # items) groups key cur =
     (if cur \<noteq> [] \<and> key = Some (keyFn item)
      then groupBy_loop keyFn items groups key (cur @ [item])
      else groupBy_loop keyFn items (if cur \<noteq> [] then groups @ [cur] else groups)
             (Some (keyFn item)) [item])"

definition groupBy :: "'a list \<Rightarrow> ('a \<Rightarrow> 'k) \<Rightarrow> 'a list list" where
  "groupBy items keyFn = groupBy_loop keyFn items [] None []"

lemma concat_groupBy_loop:
  "concat (groupBy_loop f items groups key cur) = concat groups @ cur @ items"
  by (induction f items groups key cur rule: groupBy_loop.induct) auto

text \<open>What holds between the variables of the loop: full groups, one key each, neighbours differ.\<close>

definition same_key :: "('a \<Rightarrow> 'k) \<Rightarrow> 'k \<Rightarrow> 'a list \<Rightarrow> bool" where
  "same_key f k g \<longleftrightarrow> g \<noteq> [] \<and> (\<forall>x \<in> set g. f x = k)"

fun keys_change :: "('a \<Rightarrow> 'k) \<Rightarrow> 'a list list \<Rightarrow> bool" where
  "keys_change f (g # h # gs) = (f (hd g) \<noteq> f (hd h) \<and> keys_change f (h # gs))"
| "keys_change f _ = True"

lemma same_key_hd: "same_key f k g \<Longrightarrow> f (hd g) = k"
  by (auto simp: same_key_def)

lemma same_key_snoc: "same_key f k g \<Longrightarrow> f x = k \<Longrightarrow> same_key f k (g @ [x])"
  by (auto simp: same_key_def)

lemma keys_change_snoc:
  "keys_change f (gs @ [g]) \<longleftrightarrow> keys_change f gs \<and> (gs \<noteq> [] \<longrightarrow> f (hd (last gs)) \<noteq> f (hd g))"
  by (induction f gs rule: keys_change.induct) auto

definition groupBy_inv :: "('a \<Rightarrow> 'k) \<Rightarrow> 'a list list \<Rightarrow> 'k option \<Rightarrow> 'a list \<Rightarrow> bool" where
  "groupBy_inv f groups key cur \<longleftrightarrow>
     (\<forall>g \<in> set groups. \<exists>k. same_key f k g) \<and>
     (if cur = [] then groups = [] else (\<exists>k. key = Some k \<and> same_key f k cur)) \<and>
     keys_change f (groups @ (if cur = [] then [] else [cur]))"

lemma groupBy_inv_more:
  "groupBy_inv f groups key cur \<Longrightarrow> cur \<noteq> [] \<Longrightarrow> key = Some (f x) \<Longrightarrow> groupBy_inv f groups key (cur @ [x])"
  by (auto simp: groupBy_inv_def keys_change_snoc same_key_snoc)

lemma groupBy_inv_new:
  "groupBy_inv f groups key cur \<Longrightarrow> \<not> (cur \<noteq> [] \<and> key = Some (f x)) \<Longrightarrow>
     groupBy_inv f (if cur \<noteq> [] then groups @ [cur] else groups) (Some (f x)) [x]"
  by (auto simp: groupBy_inv_def keys_change_snoc dest: same_key_hd) (auto simp: same_key_def)

lemma groupBy_loop_inv:
  "groupBy_inv f groups key cur \<Longrightarrow>
     (\<forall>g \<in> set (groupBy_loop f items groups key cur). \<exists>k. same_key f k g) \<and>
     keys_change f (groupBy_loop f items groups key cur)"
proof (induction f items groups key cur rule: groupBy_loop.induct)
  case (1 f groups key cur)
  then show ?case by (cases "cur = []") (auto simp: groupBy_inv_def)
next
  case (2 f item items groups key cur)
  show ?case
  proof (cases "cur \<noteq> [] \<and> key = Some (f item)")
    case True
    then show ?thesis using "2.IH"(1) [OF True] groupBy_inv_more [OF "2.prems"] by simp
  next
    case False
    then have "groupBy_loop f (item # items) groups key cur =
        groupBy_loop f items (if cur \<noteq> [] then groups @ [cur] else groups) (Some (f item)) [item]"
      by (simp only: groupBy_loop.simps if_False)
    then show ?thesis using "2.IH"(2) [OF False groupBy_inv_new [OF "2.prems" False]] by simp
  qed
qed

text \<open>The specification of \<open>groupBy\<close>, Python's \<open>itertools.groupby\<close>: the groups are the
  maximal runs of equal keys, in order.\<close>

lemma groupBy_concat: "concat (groupBy items f) = items"
  by (simp add: groupBy_def concat_groupBy_loop)

lemma groupBy_runs:
  "(\<forall>g \<in> set (groupBy items f). \<exists>k. same_key f k g) \<and> keys_change f (groupBy items f)"
  unfolding groupBy_def by (rule groupBy_loop_inv) (simp add: groupBy_inv_def)

lemma groupBy_set: "g \<in> set (groupBy items f) \<Longrightarrow> set g \<subseteq> set items"
  using groupBy_concat [of items f] by (metis UN_upper set_concat)

fun serialFilter :: "('a \<Rightarrow> bool) \<Rightarrow> 'a list \<Rightarrow> 'a list" where
  "serialFilter fn [] = []"
| "serialFilter fn (item # items) =
     (if fn item then item # serialFilter fn items else serialFilter fn items)"

lemma serialFilter_filter: "serialFilter fn items = filter fn items"
  by (induction items) auto

section \<open>Random choice\<close>

text \<open>A draw of \<open>Math.random()\<close>.\<close>

definition draw :: "rat \<Rightarrow> bool" where
  "draw r \<longleftrightarrow> 0 \<le> r \<and> r < 1"

definition getRandomInt :: "rat \<Rightarrow> int \<Rightarrow> int \<Rightarrow> int" where
  "getRandomInt r lo hi =
     (let diff = hi - lo + 1; random = \<lfloor>r * of_int diff\<rfloor> in lo + random)"

lemma draw_floor:
  assumes "draw r" and "0 < n"
  shows "0 \<le> \<lfloor>r * of_int n\<rfloor>" and "\<lfloor>r * of_int n\<rfloor> < n"
proof -
  from assms have "0 \<le> r * of_int n" by (simp add: draw_def)
  then show "0 \<le> \<lfloor>r * of_int n\<rfloor>" by simp
  from assms have "r * of_int n < 1 * of_int n"
    by (intro mult_strict_right_mono) (simp_all add: draw_def)
  then show "\<lfloor>r * of_int n\<rfloor> < n" by (simp add: floor_less_iff)
qed

lemma getRandomInt_bounds:
  assumes "draw r" and "lo \<le> hi"
  shows "lo \<le> getRandomInt r lo hi" and "getRandomInt r lo hi \<le> hi"
  using draw_floor [of r "hi - lo + 1"] assms by (simp_all add: getRandomInt_def Let_def)

definition choice :: "rat \<Rightarrow> 'a list \<Rightarrow> 'a option" where
  "choice r items =
     (let i = nat \<lfloor>r * of_int (int (length items))\<rfloor> in
      if i < length items then Some (items ! i) else None)"

text \<open>
  Selection sampling: item \<open>i\<close> is taken when the \<open>i\<close>-th draw is below the number still
  wanted over the number still to come (counting item \<open>i\<close>).
\<close>

fun choice_loop :: "(nat \<Rightarrow> rat) \<Rightarrow> int \<Rightarrow> nat \<Rightarrow> 'a list \<Rightarrow> 'a list \<Rightarrow> 'a list" where
  "choice_loop random n i [] result = result"
| "choice_loop random n i (item # items) result =
     choice_loop random n (Suc i) items
       (if random i < of_int (n - int (length result)) / of_int (int (length (item # items)))
        then result @ [item] else result)"

definition choiceMultiple :: "(nat \<Rightarrow> rat) \<Rightarrow> 'a list \<Rightarrow> nat \<Rightarrow> 'a list res" where
  "choiceMultiple random items n =
     (if n > length items then Inl (JsError ''array is too short'')
      else Inr (choice_loop random (int n) 0 items []))"

lemma choice_loop_spec:
  assumes "\<And>i. draw (random i)"
    and "int (length result) \<le> n" and "n \<le> int (length result) + int (length items)"
  shows "\<exists>ys. choice_loop random n i items result = result @ ys \<and> subseq ys items \<and>
    int (length result) + int (length ys) = n"
  using assms(2,3)
proof (induction items arbitrary: i result)
  case Nil
  then show ?case by auto
next
  case (Cons item items)
  let ?k = "n - int (length result)" and ?m = "int (length (item # items))"
  show ?case
  proof (cases "random i < of_int ?k / of_int ?m")
    case True
    have "0 \<le> random i" using assms(1) by (simp add: draw_def)
    with True have "(0::rat) < of_int ?k / of_int ?m" by linarith
    then have "?k > 0" by (simp add: zero_less_divide_iff)
    with Cons.prems Cons.IH [of "result @ [item]" "Suc i"] obtain ys
      where "choice_loop random n (Suc i) items (result @ [item]) = result @ item # ys"
        and "subseq ys items" and "int (length result) + int (length (item # ys)) = n"
      by auto
    with True show ?thesis by (intro exI [of _ "item # ys"]) simp
  next
    case False
    have "?k < ?m"
    proof (rule ccontr)
      assume "\<not> ?k < ?m"
      with Cons.prems have "?k = ?m" by simp
      then have "of_int ?k / of_int ?m = (1::rat)" by simp
      with False assms(1) [of i] show False by (simp add: draw_def)
    qed
    with Cons.prems Cons.IH [of result "Suc i"] obtain ys
      where "choice_loop random n (Suc i) items result = result @ ys"
        and "subseq ys items" and "int (length result) + int (length ys) = n"
      by auto
    with False show ?thesis by (intro exI [of _ ys]) (simp add: list_emb_Cons)
  qed
qed

lemma choiceMultiple_spec:
  assumes "\<And>i. draw (random i)" and "n \<le> length items"
  shows "\<exists>ys. choiceMultiple random items n = Inr ys \<and> subseq ys items \<and> length ys = n"
  using choice_loop_spec [where random = random and result = "[]" and n = "int n" and items = items and i = 0] assms
  by (auto simp: choiceMultiple_def)

text \<open>
  The loop of \<open>shuffle\<close> from the last index down to 1; the draw of the round for index
  \<open>i\<close> is \<open>random i\<close>.
\<close>

fun shuffle_loop :: "(nat \<Rightarrow> rat) \<Rightarrow> nat \<Rightarrow> 'a list \<Rightarrow> 'a list" where
  "shuffle_loop random 0 items = items"
| "shuffle_loop random (Suc i) items =
     (let j = nat \<lfloor>random (Suc i) * of_int (int (Suc i) + 1)\<rfloor>; tmp = items ! Suc i in
      shuffle_loop random i (items[Suc i := items ! j, j := tmp]))"

definition shuffle :: "(nat \<Rightarrow> rat) \<Rightarrow> 'a list \<Rightarrow> 'a list" where
  "shuffle random items = shuffle_loop random (length items - 1) items"

lemma shuffle_loop_mset:
  assumes "\<And>i. draw (random i)"
  shows "i < length items \<or> i = 0 \<Longrightarrow> mset (shuffle_loop random i items) = mset items"
proof (induction i arbitrary: items)
  case 0
  then show ?case by simp
next
  case (Suc i)
  define j where "j = nat \<lfloor>random (Suc i) * of_int (int (Suc i) + 1)\<rfloor>"
  have "j < Suc i + 1"
    using draw_floor [OF assms, of "int (Suc i) + 1" "Suc i"] by (simp add: j_def nat_less_iff)
  with Suc.prems have j: "j < length items" and i: "Suc i < length items" by simp_all
  have "mset (shuffle_loop random (Suc i) items) =
      mset (shuffle_loop random i (items[Suc i := items ! j, j := items ! Suc i]))"
    by (simp add: j_def Let_def)
  also have "\<dots> = mset (items[Suc i := items ! j, j := items ! Suc i])"
    using i by (intro Suc.IH) simp
  also have "\<dots> = mset items" using j i by (rule mset_swap)
  finally show ?case .
qed

lemma shuffle_mset: "(\<And>i. draw (random i)) \<Longrightarrow> mset (shuffle random items) = mset items"
  unfolding shuffle_def by (rule shuffle_loop_mset) auto

definition sum_items :: "int list \<Rightarrow> int" where
  "sum_items items = foldl (\<lambda>x y. x + y) 0 items"

lemma sum_items_sum_list: "sum_items items = sum_list items"
proof -
  have "foldl (\<lambda>x y. x + y) a items = a + sum_list items" for a :: int
    by (induction items arbitrary: a) auto
  then show ?thesis by (simp add: sum_items_def)
qed

section \<open>Strings\<close>

definition toLowerCase :: "string \<Rightarrow> string" where
  "toLowerCase s =
     map (\<lambda>c. let n = (of_char c :: nat) in if 65 \<le> n \<and> n \<le> 90 then char_of (n + 32) else c) s"

fun isWalletAddressEqual :: "wallet option \<Rightarrow> wallet option \<Rightarrow> bool" where
  "isWalletAddressEqual None None = True"
| "isWalletAddressEqual (Some a) (Some b) = (toLowerCase a = toLowerCase b)"
| "isWalletAddressEqual _ _ = False"

lemma isWalletAddressEqual_iff:
  "isWalletAddressEqual a b \<longleftrightarrow> map_option toLowerCase a = map_option toLowerCase b"
  by (cases a; cases b) auto

lemma isWalletAddressEqual_refl [simp]: "isWalletAddressEqual a a"
  by (simp add: isWalletAddressEqual_iff)

definition parseBoolean :: "string option \<Rightarrow> bool option" where
  "parseBoolean s =
     (if \<not> truthy s then None
      else let lower = toLowerCase (the s) in
        if lower = ''true'' then Some True
        else if lower = ''false'' then Some False
        else None)"

end
