(* ===== verification/Database.thy ===== *)
theory Database
  imports Metadata Utils "HOL-Library.AList"
begin

text \<open>
  The database of \<open>prisma/schema.prisma\<close>: one record of tables, the query operations of the
  Prisma client that the code uses, the check and unique constraints of \<open>prisma/migrations\<close>,
  and all-or-nothing transactions.  A table is an association list from primary key to row, in
  the order in which a query without \<open>orderBy\<close> would return the rows; every statement about
  it is quantified over all lists, so over every such order.  A row keeps the columns the
  modelled code reads or writes.  A query that finds no row to update fails with Prisma's
  \<open>P2025\<close>, a violated unique index with \<open>P2002\<close>, a violated check constraint with an
  unknown request error naming the constraint.  Foreign keys are not modelled.  The sorted sets that
  the rankings keep in Redis are one more table, from ranking key and user to score.
\<close>

section \<open>Rows\<close>

datatype NftState = IN_AKIVERSE | MOVING_TO_WALLET | IN_WALLET | MOVING_TO_AKIVERSE | BURNING | BURNED
datatype NftType = ARCADE_PART | ARCADE_MACHINE | GAME_CENTER
datatype PlaySessionState = READY | PLAYING | FINISHED
datatype PlayResult = WIN | LOSS | DISCONNECTED
datatype WithdrawalState = W_UNPROCESSED | W_PENDING | W_CONFIRMED | W_ERROR
datatype DepositState = D_UNPROCESSED | D_PENDING | D_CONFIRMED | D_INVALIDATED
datatype BurnState = B_UNPROCESSED | B_PENDING | B_CONFIRMED | B_ERROR
datatype WithdrawalType = TRANSFER | MINT
datatype TransferState = T_CONFIRMED | T_PENDING | T_INVALIDATED | T_FROZEN
datatype BlockState = BLOCK_CONFIRMED | BLOCK_PENDING | BLOCK_INVALIDATED
datatype BlockScanState = MISSED | WATCHED | SCANNED
datatype CurrencyType = AKIR | AKV | USDC
datatype ExtractableItemType = ITEM_ARCADE_PART | ITEM_JUNK_PART

text \<open>
  Integer columns have 32 bits in the database; they are unbounded here, so the errors of an overflow do not occur.
  Amounts of currencies are whole numbers, also the prices of the quest chains, whose column would hold fractions.
\<close>

record user_row =
  u_walletAddress :: "wallet option"
  akirBalance :: int
  akvBalance :: int
  terasBalance :: int
  tickets :: int
  u_lockedAt :: "date option"

text \<open>The columns the three NFT tables share.\<close>

record nft =
  nft_userId :: "user_id option"
  nft_ownerWallet :: "wallet option"
  nft_physicalWallet :: "wallet option"
  nft_state :: NftState
  nft_lastBlock :: int
  nft_lastTransactionIndex :: int
  nft_updatedAt :: date

record game_center_row = nft +
  gc_size :: GameCenterSize
  gc_placementAllowed :: bool

record arcade_machine_row = nft +
  am_game :: string
  am_energy :: int
  am_maxEnergy :: int
  am_extractedEnergy :: int
  am_autoRenewLease :: bool
  am_gameCenterId :: "nft_id option"
  am_position :: "int option"
  am_installedAt :: "date option"
  am_accumulator :: string
  am_upperCabinet :: string
  am_lowerCabinet :: string
  am_feverSparkRemain :: "int option"
  am_destroyedAt :: "date option"

record arcade_part_row = nft +
  ap_category :: ArcadePartCategory
  ap_subCategory :: string
  ap_destroyedAt :: "date option"
  ap_craftId :: "string option"
  ap_createDismantleId :: "string option"

record play_session_row =
  ps_playerId :: user_id
  ps_arcadeMachineId :: nft_id
  ps_arcadeMachineOwnerId :: user_id
  ps_gameCenterId :: "nft_id option"
  ps_gameCenterOwnerId :: "user_id option"
  ps_difficulty :: "int option"
  ps_targetScore :: "int option"
  ps_maxPlayCount :: "int option"
  ps_authToken :: string
  ps_state :: PlaySessionState
  ps_fever :: bool
  ps_endedAt :: "date option"
  ps_createdAt :: date
  ps_updatedAt :: date

record play_row =
  pl_playSessionId :: string
  pl_endedAt :: "date option"
  pl_score :: "int option"
  pl_result :: "PlayResult option"
  pl_ownerTerasReward :: "int option"
  pl_playerTerasReward :: "int option"
  pl_megaSpark :: bool
  pl_terasBoosterRatio :: "decimal option"
  pl_createdAt :: date
  pl_updatedAt :: date

record game_setting_row =
  gs_dailyMaxPlayCount :: int
  gs_difficulty :: "int option"
  gs_targetScore :: "int option"
  gs_easyDifficulty :: "int option"
  gs_easyTargetScore :: "int option"

text \<open>
  The key of an active booster is its unique triple of user, category and sub-category, with the
  tournament in between for the boosters of a tournament; the row is the end of its effect.
\<close>

type_synonym booster_key = "user_id \<times> string \<times> string"
type_synonym tournament_booster_key = "user_id \<times> string \<times> string \<times> string"

record booster_master_row =
  bm_category :: string
  bm_subCategory :: string
  bm_variant :: string
  bm_feeTickets :: int
  bm_effectiveMinutes :: int
  bm_requireTournament :: bool

record withdrawal_row =
  wd_tokenId :: nft_id
  wd_nftType :: NftType
  wd_userId :: "user_id option"
  wd_walletAddress :: wallet
  wd_state :: WithdrawalState
  wd_type :: "WithdrawalType option"
  wd_hash :: "string option"

record currency_withdrawal_row =
  cw_userId :: "user_id option"
  cw_walletAddress :: wallet
  cw_currencyType :: CurrencyType
  cw_amount :: int
  cw_state :: WithdrawalState
  cw_type :: "WithdrawalType option"
  cw_hash :: "string option"

record deposit_row =
  dp_tokenId :: nft_id
  dp_nftType :: NftType
  dp_userId :: "user_id option"
  dp_walletAddress :: "wallet option"
  dp_state :: DepositState
  dp_hash :: "string option"

record currency_deposit_row =
  cd_userId :: user_id
  cd_walletAddress :: wallet
  cd_currencyType :: CurrencyType
  cd_amount :: int
  cd_state :: DepositState
  cd_hash :: string

record burn_row =
  bn_tokenId :: nft_id
  bn_nftType :: NftType
  bn_userId :: "user_id option"
  bn_state :: BurnState

record craft_row =
  cr_userId :: user_id
  cr_craftedArcadeMachineId :: nft_id
  cr_usedTerasBalance :: int
  cr_usedAkvBalance :: int
  cr_createdAt :: date

record dismantle_row =
  dm_userId :: user_id
  dm_arcadeMachineId :: nft_id
  dm_feverSparkRemain :: int

record season_row =
  sn_id :: string
  sn_startAt :: date
  sn_endAt :: "date option"
  sn_baseExtractItemCount :: int

record initial_inventory_row =
  ii_seasonId :: string
  ii_itemType :: ExtractableItemType
  ii_category :: ArcadePartCategory
  ii_subCategory :: string
  ii_initialAmount :: int
  ii_featuredItem :: bool

datatype extract_detail =
    ArcadePartDetail ArcadePartCategory string nft_id
  | JunkPartDetail ArcadePartCategory string nat

record extract_row =
  ex_userId :: user_id
  ex_arcadeMachineId :: nft_id
  ex_arcadePartsCount :: int
  ex_junkPartsCount :: int
  ex_detail :: "extract_detail list"

datatype PaidTournamentType = T_SPARK_COUNT | T_SPARK_TERAS

record tournament_row =
  tn_entryFeeTickets :: int
  tn_title :: string
  tn_prizeTerasAmount :: "decimal option"
  tn_startAt :: date
  tn_endAt :: date
  tn_resultRecorded :: bool
  tn_prizeTerasOnly :: bool
  tn_prizeSent :: bool
  tn_gameId :: "string option"
  tn_type :: PaidTournamentType

datatype PrizeSendStatus = P_UNPROCESSED | P_PENDING | P_CONFIRMED | P_ERROR

text \<open>The key of an entry is its unique pair of tournament and user.\<close>

record tournament_entry_row =
  te_id :: string
  te_createdAt :: date
  te_usedTickets :: int
  te_countryFromIp :: "string option"
  te_prizeClaimed :: bool
  te_walletAddress :: "wallet option"
  te_phoneNumber :: "string option"
  te_prizeSendStatus :: "PrizeSendStatus option"

record tournament_result_row =
  tr_userId :: user_id
  tr_tournamentId :: string
  tr_createdAt :: date
  tr_rank :: int
  tr_score :: int
  tr_prizeTerasAmount :: decimal
  tr_prizeTicketAmount :: "int option"
  tr_prizeUsdcAmount :: "decimal option"
  tr_prizeIdrAmount :: "decimal option"

datatype RewardItemType = R_TERAS | R_TICKET | R_ARCADE_PART | R_JUNK_PART | R_COLLECTIBLE_ITEM

datatype reward_category = PartCategory ArcadePartCategory | TERAS_CATEGORY | TICKET_CATEGORY |
  ItemCategory string

record reward_row =
  rw_userId :: user_id
  rw_title :: string
  rw_itemType :: RewardItemType
  rw_category :: reward_category
  rw_subCategory :: "string option"
  rw_amount :: int
  rw_availableUntil :: "date option"
  rw_acceptedAt :: "date option"

record ticket_transaction_row =
  tt_userId :: user_id
  tt_changeAmount :: int
  tt_balance :: int
  tt_transactionType :: string
  tt_detail :: "(string \<times> string option) list"

datatype QuestRewardType = Q_TERAS | Q_ARCADE_PART | Q_ARCADE_PART_RANDOM | Q_JUNK_PART |
  Q_JUNK_PART_RANDOM | Q_COLLECTIBLE_ITEM

datatype QuestProgressType = PLAY_COUNT | SPARK_COUNT | CONSECUTIVE_SPARK_COUNT |
  UNIQUE_GAME_PLAY_COUNT | UNIQUE_GAME_SPARK_COUNT | CONSECUTIVE_SPARK_DAYS | CONNECT_WALLET |
  CONSECUTIVE_PLAY_DAYS_IN_DIFFERENT_GAME | UNIQUE_PLAY_DAYS | TOURNAMENT_WINS |
  TOURNAMENT_PLACEMENTS | TOURNAMENT_PARTICIPATION

record quest_reward_master =
  qr_itemType :: QuestRewardType
  qr_category :: reward_category
  qr_subCategory :: string
  qr_amount :: int

record quest_master =
  qm_id :: string
  qm_title :: string
  qm_progressGoal :: int
  qm_progressType :: QuestProgressType
  qm_progressParams :: "string option"
  qm_itemType :: "QuestRewardType option"
  qm_category :: "reward_category option"
  qm_subCategory :: "string option"
  qm_amount :: "int option"
  qm_beforeQuestIds :: "string option"

record quest_chain_master_row =
  qc_startAt :: "date option"
  qc_endAt :: "date option"
  qc_terasRequired :: "int option"
  qc_akvRequired :: "int option"
  qc_ticketRequired :: "int option"
  qc_beforeQuestChainId :: "string option"
  qc_rewards :: "quest_reward_master list"
  qc_quests :: "quest_master list"

text \<open>
  The key of a quest chain is its unique pair of user and master, that of a quest the chain and
  the quest's master; both stand for the generated ids.
\<close>

type_synonym chain_key = "user_id \<times> string"

record quest_chain_row =
  ch_completed :: bool
  ch_acceptedAt :: date
  ch_expiredAt :: "date option"

record quest_row =
  qu_startAt :: date
  qu_completedAt :: "date option"

datatype CollectState = C_UNPROCESSED | C_COLLECTED | C_UNINSTALLED
datatype PaymentState = PAY_UNPROCESSED | PAY_PAID

text \<open>The key of a rental fee is its date and its machine.\<close>

record rental_fee_row =
  rf_arcadeMachineOwnerId :: user_id
  rf_gameCenterOwnerId :: user_id
  rf_gameCenterId :: nft_id
  rf_fee :: int
  rf_collectState :: CollectState
  rf_collectDate :: "date option"
  rf_paymentState :: PaymentState
  rf_paymentDate :: "date option"

text \<open>The key of a block is its unique hash.\<close>

record block_row =
  bl_number :: int
  bl_parentHash :: string
  bl_state :: BlockState
  bl_scanState :: BlockScanState

record transfer_row =
  tf_blockNumber :: int
  tf_blockHash :: string
  tf_transactionIndex :: int
  tf_transactionHash :: string
  tf_state :: TransferState
  tf_nftType :: NftType
  tf_from :: wallet
  tf_to :: wallet
  tf_tokenId :: nft_id

record currency_transfer_row =
  ctf_blockNumber :: int
  ctf_blockHash :: string
  ctf_transactionIndex :: int
  ctf_transactionHash :: string
  ctf_state :: TransferState
  ctf_currencyType :: CurrencyType
  ctf_from :: wallet
  ctf_to :: wallet
  ctf_amount :: int

text \<open>
  Calls that a use case makes, after its transaction, to components that are not part of the
  model; they are recorded in the order in which they are made.  The notification helpers catch
  every exception of their own.
\<close>

datatype external_call =
    NotifyAmInstall user_id user_id nft_id nft_id
  | NotifyAmUninstall user_id user_id nft_id nft_id
  | NotifyMegaSpark nft_id user_id user_id int
  | NotifyMegaSparkUpcoming nft_id user_id user_id
  | NotifyDeposit NftType nft_id
  | NotifyWithdraw NftType nft_id
  | NotifyStartRentOut user_id nft_id
  | NotifyStopRentingReserve user_id nft_id
  | NotifyCraft user_id nft_id
  | QuestCheckAndUpdate user_id
  | RankingFinishPlaySession string
  | RankingCraft string
  | RewardPlayCount user_id
  | RewardSparkCount user_id
  | RewardCraftCount user_id
  | NotifyAutoRenewDisabled "nft_id list"
  | NotifyStopRenting "nft_id list"
  | NotifyRentalFeeCollect string user_id
  | NotifyRentalFeePayment string user_id

section \<open>The database\<close>

type_synonym ('k, 'v) table = "('k \<times> 'v) list"

record db =
  t_users :: "(user_id, user_row) table"
  t_gameCenters :: "(nft_id, game_center_row) table"
  t_arcadeMachines :: "(nft_id, arcade_machine_row) table"
  t_arcadeParts :: "(nft_id, arcade_part_row) table"
  t_playSessions :: "(string, play_session_row) table"
  t_plays :: "(string, play_row) table"
  t_gameSettings :: "(string, game_setting_row) table"
  t_activeBoosters :: "(booster_key, date) table"
  t_withdrawals :: "(string, withdrawal_row) table"
  t_currencyWithdrawals :: "(string, currency_withdrawal_row) table"
  t_deposits :: "(string, deposit_row) table"
  t_currencyDeposits :: "(string, currency_deposit_row) table"
  t_burns :: "(string, burn_row) table"
  t_crafts :: "(string, craft_row) table"
  t_dismantles :: "(string, dismantle_row) table"
  t_junks :: "(user_id \<times> ArcadePartCategory \<times> string, int) table"
  t_extractJunkInventories :: "(ArcadePartCategory \<times> string, int) table"
  t_initialInventories :: "initial_inventory_row list"
  t_seasons :: "season_row list"
  t_extracts :: "extract_row list"
  t_tournaments :: "(string, tournament_row) table"
  t_tournamentEntries :: "(string \<times> user_id, tournament_entry_row) table"
  t_tournamentResults :: "(string, tournament_result_row) table"
  t_prizeIgnoreUsers :: "user_id list"
  t_rewards :: "(string, reward_row) table"
  t_ticketTransactions :: "(string, ticket_transaction_row) table"
  t_boosterMasters :: "(string, booster_master_row) table"
  t_boosterAvailables :: "(string \<times> string) list"
  t_tournamentBoosters :: "(tournament_booster_key, date) table"
  t_chainMasters :: "(string, quest_chain_master_row) table"
  t_questChains :: "(chain_key, quest_chain_row) table"
  t_quests :: "(chain_key \<times> string, quest_row) table"
  t_collectibleItems :: "(user_id \<times> string \<times> string, unit) table"
  t_rentalFees :: "(string \<times> nft_id, rental_fee_row) table"
  t_blocks :: "(string, block_row) table"
  t_transfers :: "(string, transfer_row) table"
  t_currencyTransfers :: "(string, currency_transfer_row) table"
  t_scores :: "(string \<times> user_id, int) table"
  t_calls :: "external_call list"

definition put_users :: "(user_id, user_row) table \<Rightarrow> db \<Rightarrow> db" where
  "put_users t d = d\<lparr>t_users := t\<rparr>"
definition put_gameCenters :: "(nft_id, game_center_row) table \<Rightarrow> db \<Rightarrow> db" where
  "put_gameCenters t d = d\<lparr>t_gameCenters := t\<rparr>"
definition put_arcadeMachines :: "(nft_id, arcade_machine_row) table \<Rightarrow> db \<Rightarrow> db" where
  "put_arcadeMachines t d = d\<lparr>t_arcadeMachines := t\<rparr>"
definition put_arcadeParts :: "(nft_id, arcade_part_row) table \<Rightarrow> db \<Rightarrow> db" where
  "put_arcadeParts t d = d\<lparr>t_arcadeParts := t\<rparr>"
definition put_playSessions :: "(string, play_session_row) table \<Rightarrow> db \<Rightarrow> db" where
  "put_playSessions t d = d\<lparr>t_playSessions := t\<rparr>"
definition put_plays :: "(string, play_row) table \<Rightarrow> db \<Rightarrow> db" where
  "put_plays t d = d\<lparr>t_plays := t\<rparr>"
definition put_withdrawals :: "(string, withdrawal_row) table \<Rightarrow> db \<Rightarrow> db" where
  "put_withdrawals t d = d\<lparr>t_withdrawals := t\<rparr>"
definition put_currencyWithdrawals :: "(string, currency_withdrawal_row) table \<Rightarrow> db \<Rightarrow> db" where
  "put_currencyWithdrawals t d = d\<lparr>t_currencyWithdrawals := t\<rparr>"
definition put_deposits :: "(string, deposit_row) table \<Rightarrow> db \<Rightarrow> db" where
  "put_deposits t d = d\<lparr>t_deposits := t\<rparr>"
definition put_currencyDeposits :: "(string, currency_deposit_row) table \<Rightarrow> db \<Rightarrow> db" where
  "put_currencyDeposits t d = d\<lparr>t_currencyDeposits := t\<rparr>"
definition put_burns :: "(string, burn_row) table \<Rightarrow> db \<Rightarrow> db" where
  "put_burns t d = d\<lparr>t_burns := t\<rparr>"
definition put_crafts :: "(string, craft_row) table \<Rightarrow> db \<Rightarrow> db" where
  "put_crafts t d = d\<lparr>t_crafts := t\<rparr>"
definition put_dismantles :: "(string, dismantle_row) table \<Rightarrow> db \<Rightarrow> db" where
  "put_dismantles t d = d\<lparr>t_dismantles := t\<rparr>"
definition put_junks :: "(user_id \<times> ArcadePartCategory \<times> string, int) table \<Rightarrow> db \<Rightarrow> db" where
  "put_junks t d = d\<lparr>t_junks := t\<rparr>"
definition put_extractJunkInventories :: "(ArcadePartCategory \<times> string, int) table \<Rightarrow> db \<Rightarrow> db" where
  "put_extractJunkInventories t d = d\<lparr>t_extractJunkInventories := t\<rparr>"
definition put_tournaments :: "(string, tournament_row) table \<Rightarrow> db \<Rightarrow> db" where
  "put_tournaments t d = d\<lparr>t_tournaments := t\<rparr>"
definition put_tournamentEntries :: "(string \<times> user_id, tournament_entry_row) table \<Rightarrow> db \<Rightarrow> db" where
  "put_tournamentEntries t d = d\<lparr>t_tournamentEntries := t\<rparr>"
definition put_tournamentResults :: "(string, tournament_result_row) table \<Rightarrow> db \<Rightarrow> db" where
  "put_tournamentResults t d = d\<lparr>t_tournamentResults := t\<rparr>"
definition put_rewards :: "(string, reward_row) table \<Rightarrow> db \<Rightarrow> db" where
  "put_rewards t d = d\<lparr>t_rewards := t\<rparr>"
definition put_ticketTransactions :: "(string, ticket_transaction_row) table \<Rightarrow> db \<Rightarrow> db" where
  "put_ticketTransactions t d = d\<lparr>t_ticketTransactions := t\<rparr>"
definition put_activeBoosters :: "(booster_key, date) table \<Rightarrow> db \<Rightarrow> db" where
  "put_activeBoosters t d = d\<lparr>t_activeBoosters := t\<rparr>"
definition put_tournamentBoosters :: "(tournament_booster_key, date) table \<Rightarrow> db \<Rightarrow> db" where
  "put_tournamentBoosters t d = d\<lparr>t_tournamentBoosters := t\<rparr>"
definition put_questChains :: "(chain_key, quest_chain_row) table \<Rightarrow> db \<Rightarrow> db" where
  "put_questChains t d = d\<lparr>t_questChains := t\<rparr>"
definition put_quests :: "(chain_key \<times> string, quest_row) table \<Rightarrow> db \<Rightarrow> db" where
  "put_quests t d = d\<lparr>t_quests := t\<rparr>"
definition put_collectibleItems :: "(user_id \<times> string \<times> string, unit) table \<Rightarrow> db \<Rightarrow> db" where
  "put_collectibleItems t d = d\<lparr>t_collectibleItems := t\<rparr>"
definition put_rentalFees :: "(string \<times> nft_id, rental_fee_row) table \<Rightarrow> db \<Rightarrow> db" where
  "put_rentalFees t d = d\<lparr>t_rentalFees := t\<rparr>"
definition put_blocks :: "(string, block_row) table \<Rightarrow> db \<Rightarrow> db" where
  "put_blocks t d = d\<lparr>t_blocks := t\<rparr>"
definition put_transfers :: "(string, transfer_row) table \<Rightarrow> db \<Rightarrow> db" where
  "put_transfers t d = d\<lparr>t_transfers := t\<rparr>"
definition put_currencyTransfers :: "(string, currency_transfer_row) table \<Rightarrow> db \<Rightarrow> db" where
  "put_currencyTransfers t d = d\<lparr>t_currencyTransfers := t\<rparr>"
definition put_scores :: "(string \<times> user_id, int) table \<Rightarrow> db \<Rightarrow> db" where
  "put_scores t d = d\<lparr>t_scores := t\<rparr>"

definition call :: "external_call \<Rightarrow> db \<Rightarrow> db" where
  "call c d = d\<lparr>t_calls := t_calls d @ [c]\<rparr>"

lemmas put_defs = put_users_def put_gameCenters_def put_arcadeMachines_def put_arcadeParts_def
  put_playSessions_def put_plays_def put_withdrawals_def put_currencyWithdrawals_def
  put_deposits_def put_currencyDeposits_def put_burns_def put_crafts_def put_dismantles_def
  put_junks_def put_extractJunkInventories_def put_tournaments_def put_tournamentEntries_def
  put_tournamentResults_def put_rewards_def put_ticketTransactions_def put_scores_def
  put_activeBoosters_def put_tournamentBoosters_def put_questChains_def
  put_quests_def put_collectibleItems_def put_rentalFees_def
  put_blocks_def put_transfers_def put_currencyTransfers_def

end
