(* ===== verification/Queries.thy ===== *)
theory Queries
  imports Database
begin

text \<open>
  The Prisma query operations and the constraints, over any table of the database.  The locale
  \<open>table_store\<close> states what a table is (a component of the database that can be read and
  replaced) and proves what each query does on success and on failure; the locale
  \<open>checked_table\<close> adds a row predicate that the table's check constraints guarantee and proves
  that no query can break it.  Both are interpreted for every table.  A transaction is a list of
  queries, run in order, none of which has an effect when one of them fails.
\<close>

section \<open>The request\<close>

text \<open>
  What an operation receives besides its arguments: the clock (\<open>new Date()\<close>) and how the
  database rounds a fractional amount written to an integer column.
\<close>

record env =
  env_now :: date
  env_rnd :: "rat \<Rightarrow> int"

definition rounds :: "(rat \<Rightarrow> int) \<Rightarrow> bool" where
  "rounds rnd \<longleftrightarrow> (\<forall>x i. \<bar>x - of_int i\<bar> < 1 / 2 \<longrightarrow> rnd x = i)"

lemma rounds_eq: "rounds rnd \<Longrightarrow> \<bar>x - of_int i\<bar> < 1 / 2 \<Longrightarrow> rnd x = i"
  by (simp add: rounds_def)

lemma rounds_int [simp]: "rounds rnd \<Longrightarrow> rnd (of_int i) = i"
  by (rule rounds_eq) simp_all

lemma rounds_round: "rounds round"
  unfolding rounds_def
proof (intro allI impI)
  fix x :: rat and i assume a: "\<bar>x - of_int i\<bar> < 1 / 2"
  have "\<bar>of_int (round x) - x\<bar> \<le> 1 / 2" by (rule of_int_round_abs_le)
  with a have "\<bar>of_int (round x) - (of_int i :: rat)\<bar> < 1" by linarith
  then have "of_int \<bar>round x - i\<bar> < (of_int 1 :: rat)" by simp
  then have "\<bar>round x - i\<bar> < 1" unfolding of_int_less_iff .
  then show "round x = i" by simp
qed

record ctx =
  ctx_userId :: "user_id option"
  ctx_walletAddress :: "wallet option"
  ctx_country :: "string option"

text \<open>
  \<open>currentUserOwns\<close> of \<open>src/context.ts\<close>: without a user nothing is owned, and every
  item must have the user's id.
\<close>

fun currentUserOwns :: "ctx \<Rightarrow> user_id option list \<Rightarrow> bool" where
  "currentUserOwns ctx [] = truthy (ctx_userId ctx)"
| "currentUserOwns ctx (owner # items) =
     (if \<not> truthy (ctx_userId ctx) then False
      else if \<not> truthy owner then False
      else if ctx_userId ctx \<noteq> owner then False
      else currentUserOwns ctx items)"

lemma currentUserOwns_iff:
  "currentUserOwns ctx items \<longleftrightarrow> (\<exists>u. ctx_userId ctx = Some u \<and> u \<noteq> [] \<and> (\<forall>i \<in> set items. i = Some u))"
  by (induction items) (auto simp: truthy_iff)

section \<open>Queries\<close>

type_synonym query = "db \<Rightarrow> db res"

fun apply_row :: "('v \<Rightarrow> 'v) \<Rightarrow> 'k \<Rightarrow> ('k, 'v) table \<Rightarrow> ('k, 'v) table" where
  "apply_row f k [] = []"
| "apply_row f k ((k', r) # t) = (if k' = k then (k', f r) # t else (k', r) # apply_row f k t)"

lemma map_of_apply_row: "map_of (apply_row f k t) k' = (if k' = k then map_option f (map_of t k) else map_of t k')"
  by (induction f k t rule: apply_row.induct) auto

lemma keys_apply_row [simp]: "map fst (apply_row f k t) = map fst t"
  by (induction f k t rule: apply_row.induct) auto

lemma set_apply_row: "(k', r') \<in> set (apply_row f k t) \<Longrightarrow>
    (k', r') \<in> set t \<or> (\<exists>r. k' = k \<and> r' = f r \<and> map_of t k = Some r)"
  by (induction f k t rule: apply_row.induct) (auto split: if_splits)

lemma apply_row_sum:
  fixes g :: "'v \<Rightarrow> int"
  shows "map_of t k = Some r \<Longrightarrow>
    sum_list (map (g \<circ> snd) (apply_row f k t)) = sum_list (map (g \<circ> snd) t) + (g (f r) - g r)"
  by (induction f k t rule: apply_row.induct) (auto split: if_splits)

text \<open>
  A constraint sees the key, the new row and the table after the change.
  \<open>update\<close> touches the row with the given key if it also meets the further conditions
  of its \<open>where\<close>.
\<close>

definition update_where ::
  "(db \<Rightarrow> ('k, 'v) table) \<Rightarrow> (('k, 'v) table \<Rightarrow> db \<Rightarrow> db) \<Rightarrow>
   ('k \<Rightarrow> 'v \<Rightarrow> ('k, 'v) table \<Rightarrow> use_case_error option) \<Rightarrow> 'k \<Rightarrow> ('v \<Rightarrow> bool) \<Rightarrow> ('v \<Rightarrow> 'v) \<Rightarrow> query" where
  "update_where get put chk k cond f d =
     (case map_of (get d) k of
        None \<Rightarrow> Inl (PrismaKnownRequestError ''P2025'')
      | Some r \<Rightarrow>
          if \<not> cond r then Inl (PrismaKnownRequestError ''P2025'')
          else (case chk k (f r) (apply_row f k (get d)) of
                  Some e \<Rightarrow> Inl e
                | None \<Rightarrow> Inr (put (apply_row f k (get d)) d)))"

definition create_row ::
  "(db \<Rightarrow> ('k, 'v) table) \<Rightarrow> (('k, 'v) table \<Rightarrow> db \<Rightarrow> db) \<Rightarrow>
   ('k \<Rightarrow> 'v \<Rightarrow> ('k, 'v) table \<Rightarrow> use_case_error option) \<Rightarrow> 'k \<Rightarrow> 'v \<Rightarrow> query" where
  "create_row get put chk k r d =
     (if map_of (get d) k \<noteq> None then Inl (PrismaKnownRequestError ''P2002'')
      else (case chk k r (get d @ [(k, r)]) of
              Some e \<Rightarrow> Inl e
            | None \<Rightarrow> Inr (put (get d @ [(k, r)]) d)))"

text \<open>\<open>upsert\<close>: update the row with the key if there is one, create it otherwise.\<close>

definition upsert_row ::
  "(db \<Rightarrow> ('k, 'v) table) \<Rightarrow> (('k, 'v) table \<Rightarrow> db \<Rightarrow> db) \<Rightarrow>
   ('k \<Rightarrow> 'v \<Rightarrow> ('k, 'v) table \<Rightarrow> use_case_error option) \<Rightarrow> 'k \<Rightarrow> ('v \<Rightarrow> 'v) \<Rightarrow> 'v \<Rightarrow> query" where
  "upsert_row get put chk k f r d =
     (if map_of (get d) k = None then create_row get put chk k r d
      else update_where get put chk k (\<lambda>_. True) f d)"

definition update_rows :: "('k \<Rightarrow> 'v \<Rightarrow> bool) \<Rightarrow> ('v \<Rightarrow> 'v) \<Rightarrow> ('k, 'v) table \<Rightarrow> ('k, 'v) table" where
  "update_rows P f t = map (\<lambda>(k, r). (k, if P k r then f r else r)) t"

fun first_error :: "('a \<Rightarrow> 'e option) \<Rightarrow> 'a list \<Rightarrow> 'e option" where
  "first_error c [] = None"
| "first_error c (x # xs) = (case c x of Some e \<Rightarrow> Some e | None \<Rightarrow> first_error c xs)"

text \<open>\<open>updateMany\<close> changes every row that meets its \<open>where\<close>; none is no error.\<close>

definition update_many ::
  "(db \<Rightarrow> ('k, 'v) table) \<Rightarrow> (('k, 'v) table \<Rightarrow> db \<Rightarrow> db) \<Rightarrow>
   ('k \<Rightarrow> 'v \<Rightarrow> ('k, 'v) table \<Rightarrow> use_case_error option) \<Rightarrow> ('k \<Rightarrow> 'v \<Rightarrow> bool) \<Rightarrow> ('v \<Rightarrow> 'v) \<Rightarrow> query" where
  "update_many get put chk P f d =
     (let t = update_rows P f (get d);
          changed = filter (\<lambda>(k, r). P k r) (get d)
      in case first_error (\<lambda>(k, r). chk k (f r) t) changed of
           Some e \<Rightarrow> Inl e
         | None \<Rightarrow> Inr (put t d))"

definition count_rows :: "('k \<Rightarrow> 'v \<Rightarrow> bool) \<Rightarrow> ('k, 'v) table \<Rightarrow> nat" where
  "count_rows P t = length (filter (\<lambda>(k, r). P k r) t)"

lemma first_error_None: "first_error c xs = None \<longleftrightarrow> (\<forall>x \<in> set xs. c x = None)"
  by (induction xs) (auto split: option.splits)

lemma map_of_update_rows:
  "map_of (update_rows P f t) k = map_option (\<lambda>r. if P k r then f r else r) (map_of t k)"
  unfolding update_rows_def by (induction t) auto

lemma keys_update_rows [simp]: "map fst (update_rows P f t) = map fst t"
  by (simp add: update_rows_def case_prod_beta o_def)

section \<open>Transactions\<close>

fun run_tx :: "('d \<Rightarrow> 'e + 'd) list \<Rightarrow> 'd \<Rightarrow> 'e + 'd" where
  "run_tx [] d = Inr d"
| "run_tx (q # qs) d = (case q d of Inl e \<Rightarrow> Inl e | Inr d' \<Rightarrow> run_tx qs d')"

lemma run_tx_append:
  "run_tx (qs @ rs) d = (case run_tx qs d of Inl e \<Rightarrow> Inl e | Inr d' \<Rightarrow> run_tx rs d')"
  by (induction qs arbitrary: d) (auto split: sum.splits)

lemma run_tx_Inr_Cons:
  "run_tx (q # qs) d = Inr d' \<longleftrightarrow> (\<exists>d1. q d = Inr d1 \<and> run_tx qs d1 = Inr d')"
  by (auto split: sum.splits)

lemma run_tx_pair: "run_tx [q, q'] d = Inr d' \<longleftrightarrow> (\<exists>d1. q d = Inr d1 \<and> q' d1 = Inr d')"
  by (auto split: sum.splits)

text \<open>An invariant that every query of a transaction keeps is kept by the transaction.\<close>

definition preserves :: "('d \<Rightarrow> bool) \<Rightarrow> ('d \<Rightarrow> 'e + 'd) \<Rightarrow> bool" where
  "preserves I q \<longleftrightarrow> (\<forall>d d'. I d \<longrightarrow> q d = Inr d' \<longrightarrow> I d')"

lemma preservesI: "(\<And>d d'. I d \<Longrightarrow> q d = Inr d' \<Longrightarrow> I d') \<Longrightarrow> preserves I q"
  by (auto simp: preserves_def)

lemma preservesD: "preserves I q \<Longrightarrow> I d \<Longrightarrow> q d = Inr d' \<Longrightarrow> I d'"
  by (auto simp: preserves_def)

lemma run_tx_preserves:
  "(\<And>q. q \<in> set qs \<Longrightarrow> preserves I q) \<Longrightarrow> I d \<Longrightarrow> run_tx qs d = Inr d' \<Longrightarrow> I d'"
  by (induction qs arbitrary: d) (auto split: sum.splits dest: preservesD)

lemma preserves_conj:
  "preserves I q \<Longrightarrow> preserves J q \<Longrightarrow> preserves (\<lambda>d. I d \<and> J d) q"
  by (auto simp: preserves_def)

section \<open>Tables\<close>

locale table_store =
  fixes get :: "db \<Rightarrow> ('k, 'v) table" and put :: "('k, 'v) table \<Rightarrow> db \<Rightarrow> db"
  assumes get_put [simp]: "get (put t d) = t"
    and put_put [simp]: "put t (put t' d) = put t d"
begin

lemma update_Inr:
  "update_where get put chk k cond f d = Inr d' \<longleftrightarrow>
     (\<exists>r. map_of (get d) k = Some r \<and> cond r \<and> chk k (f r) (apply_row f k (get d)) = None \<and>
       d' = put (apply_row f k (get d)) d)"
  by (auto simp: update_where_def split: option.splits if_splits)

lemma update_missed:
  "map_of (get d) k = None \<or> (\<exists>r. map_of (get d) k = Some r \<and> \<not> cond r) \<Longrightarrow>
     update_where get put chk k cond f d = Inl (PrismaKnownRequestError ''P2025'')"
  by (auto simp: update_where_def)

lemma update_find:
  assumes "update_where get put chk k cond f d = Inr d'"
  shows "map_of (get d') k' = (if k' = k then map_option f (map_of (get d) k) else map_of (get d) k')"
    and "map fst (get d') = map fst (get d)"
  using assms by (auto simp: update_Inr map_of_apply_row)

lemma create_Inr:
  "create_row get put chk k r d = Inr d' \<longleftrightarrow>
     map_of (get d) k = None \<and> chk k r (get d @ [(k, r)]) = None \<and> d' = put (get d @ [(k, r)]) d"
  by (auto simp: create_row_def split: option.splits if_splits)

lemma create_find:
  assumes "create_row get put chk k r d = Inr d'"
  shows "map_of (get d') k' = (if k' = k then Some r else map_of (get d) k')"
  using assms by (auto simp: create_Inr map_add_def split: option.splits)

lemma update_many_Inr:
  "update_many get put chk P f d = Inr d' \<longleftrightarrow>
     (\<forall>(k, r) \<in> set (get d). P k r \<longrightarrow> chk k (f r) (update_rows P f (get d)) = None) \<and>
     d' = put (update_rows P f (get d)) d"
proof -
  let ?t = "update_rows P f (get d)"
  let ?e = "first_error (\<lambda>(k, r). chk k (f r) ?t) (filter (\<lambda>(k, r). P k r) (get d))"
  have "?e = None \<longleftrightarrow> (\<forall>(k, r) \<in> set (get d). P k r \<longrightarrow> chk k (f r) ?t = None)"
    by (auto simp: first_error_None)
  then show ?thesis by (cases ?e) (auto simp: update_many_def Let_def)
qed

lemma distinct_keys_update:
  "preserves (\<lambda>d. distinct (map fst (get d))) (update_where get put chk k cond f)"
  by (rule preservesI) (auto simp: update_Inr)

lemma distinct_keys_create:
  "preserves (\<lambda>d. distinct (map fst (get d))) (create_row get put chk k r)"
  by (rule preservesI) (auto simp: create_Inr map_of_eq_None_iff)

text \<open>
  A sequence of conditional updates of which none could follow another on the same row: it touches
  distinct rows, each of which met its condition at the start.
\<close>

definition updated_each :: "('v \<Rightarrow> 'v) \<Rightarrow> ('k \<times> ('v \<Rightarrow> bool)) list \<Rightarrow> db \<Rightarrow> db \<Rightarrow> bool" where
  "updated_each f items d d' \<longleftrightarrow> distinct (map fst items) \<and>
     (\<forall>(k, c) \<in> set items. \<exists>r. map_of (get d) k = Some r \<and> c r) \<and>
     (\<forall>k. map_of (get d') k = (if k \<in> set (map fst items) then map_option f (map_of (get d) k)
                             else map_of (get d) k))"

lemma updated_each_Nil: "get d' = get d \<Longrightarrow> updated_each f [] d d'"
  by (simp add: updated_each_def)

lemma updated_each_Cons:
  assumes "update_where get put chk k c f d = Inr d1" and "get d2 = get d1"
    and "updated_each f items d2 d'" and "\<And>k c r. (k, c) \<in> set items \<Longrightarrow> \<not> c (f r)"
  shows "updated_each f ((k, c) # items) d d'"
proof -
  from assms(1) obtain r where r: "map_of (get d) k = Some r" "c r" by (auto simp: update_Inr)
  have find: "map_of (get d2) k' = (if k' = k then Some (f r) else map_of (get d) k')" for k'
    using update_find(1) [OF assms(1), of k'] r assms(2) by simp
  have "k \<notin> set (map fst items)"
  proof
    assume "k \<in> set (map fst items)"
    then obtain c' where c': "(k, c') \<in> set items" by auto
    with assms(3) obtain r' where "map_of (get d2) k = Some r'" "c' r'"
      unfolding updated_each_def by blast
    with find [of k] assms(4) [OF c'] show False by auto
  qed
  moreover have "\<exists>r. map_of (get d) k' = Some r \<and> c' r" if "(k', c') \<in> set ((k, c) # items)" for k' c'
  proof (cases "(k', c') = (k, c)")
    case True
    with r show ?thesis by simp
  next
    case False
    with that have i: "(k', c') \<in> set items" by auto
    with assms(3) obtain r' where r': "map_of (get d2) k' = Some r'" "c' r'"
      unfolding updated_each_def by blast
    from i \<open>k \<notin> set (map fst items)\<close> have "k' \<noteq> k" by force
    with find [of k'] r' show ?thesis by metis
  qed
  moreover have "map_of (get d') k' = (if k' \<in> set (map fst ((k, c) # items)) then map_option f (map_of (get d) k')
      else map_of (get d) k')" for k'
    using assms(3) r \<open>k \<notin> set (map fst items)\<close> find [of k']
    by (cases "k' = k") (simp_all add: updated_each_def)
  ultimately show ?thesis using assms(3) unfolding updated_each_def by auto
qed

end

locale checked_table = table_store get put
  for get :: "db \<Rightarrow> ('k, 'v) table" and put :: "('k, 'v) table \<Rightarrow> db \<Rightarrow> db" +
  fixes chk :: "'k \<Rightarrow> 'v \<Rightarrow> ('k, 'v) table \<Rightarrow> use_case_error option" and ok :: "'v \<Rightarrow> bool"
  assumes chk_ok: "chk k r t = None \<Longrightarrow> ok r"
begin

definition all_ok :: "db \<Rightarrow> bool" where
  "all_ok d \<longleftrightarrow> (\<forall>(k, r) \<in> set (get d). ok r)"

lemma all_okD: "all_ok d \<Longrightarrow> map_of (get d) k = Some r \<Longrightarrow> ok r"
  by (auto simp: all_ok_def dest: map_of_SomeD)

lemma update_ok: "preserves all_ok (update_where get put chk k cond f)"
  by (rule preservesI) (auto simp: update_Inr all_ok_def dest!: set_apply_row chk_ok)

lemma create_ok: "preserves all_ok (create_row get put chk k r)"
  by (rule preservesI) (auto simp: create_Inr all_ok_def dest!: chk_ok)

lemma upsert_ok: "preserves all_ok (upsert_row get put chk k f r)"
  using update_ok create_ok unfolding preserves_def upsert_row_def by (metis (full_types))

lemma update_many_ok: "preserves all_ok (update_many get put chk P f)"
proof (rule preservesI)
  fix d d' assume I: "all_ok d" and d': "update_many get put chk P f d = Inr d'"
  show "all_ok d'"
    unfolding all_ok_def
  proof clarify
    fix k r assume "(k, r) \<in> set (get d')"
    with d' obtain r0 where r0: "(k, r0) \<in> set (get d)" "r = (if P k r0 then f r0 else r0)"
      by (auto simp: update_many_Inr update_rows_def)
    with d' I show "ok r"
      by (cases "P k r0") (auto simp: update_many_Inr all_ok_def dest!: chk_ok)
  qed
qed

end

end
