(* ===== verification/Tables.thy ===== *)
theory Tables
  imports Queries
begin

text \<open>
  The constraints of each table (\<open>prisma/migrations\<close> and the \<open>@@unique\<close> entries of
  \<open>schema.prisma\<close>), the queries on each table, and the interpretations of
  \<open>table_store\<close> and \<open>checked_table\<close> for them.  A null in a unique index never collides.
  The invariant \<open>db_ok\<close> is what the check constraints guarantee of every reachable
  database.
\<close>

section \<open>Constraints\<close>

definition no_check :: "'k \<Rightarrow> 'v \<Rightarrow> ('k, 'v) table \<Rightarrow> use_case_error option" where
  "no_check k r t = None"

definition violated :: "string \<Rightarrow> use_case_error option" where
  "violated name = Some (PrismaUnknownRequestError name)"

definition collides :: "('v \<Rightarrow> 'u option) \<Rightarrow> 'k \<Rightarrow> 'v \<Rightarrow> ('k, 'v) table \<Rightarrow> bool" where
  "collides key k r t \<longleftrightarrow> key r \<noteq> None \<and> list_ex (\<lambda>(k', r'). k' \<noteq> k \<and> key r' = key r) t"

definition check_user :: "user_id \<Rightarrow> user_row \<Rightarrow> (user_id, user_row) table \<Rightarrow> use_case_error option" where
  "check_user k r t =
     (if akirBalance r < 0 then violated ''akir_balance_over_zero''
      else if akvBalance r < 0 then violated ''akv_balance_over_zero''
      else if terasBalance r < 0 then violated ''teras_balance_over_zero''
      else if tickets r < 0 then violated ''user_tickets_value_positive''
      else None)"

definition user_ok :: "user_row \<Rightarrow> bool" where
  "user_ok r \<longleftrightarrow> 0 \<le> akirBalance r \<and> 0 \<le> akvBalance r \<and> 0 \<le> terasBalance r \<and> 0 \<le> tickets r"

text \<open>The slot a machine occupies: the unique index on game center and position.\<close>

definition slot :: "'a arcade_machine_row_scheme \<Rightarrow> (nft_id \<times> int) option" where
  "slot r = (case (am_gameCenterId r, am_position r) of (Some g, Some p) \<Rightarrow> Some (g, p) | _ \<Rightarrow> None)"

lemma slot_Some: "slot r = Some (g, p) \<longleftrightarrow> am_gameCenterId r = Some g \<and> am_position r = Some p"
  by (auto simp: slot_def split: option.splits)

definition check_arcadeMachine ::
  "nft_id \<Rightarrow> arcade_machine_row \<Rightarrow> (nft_id, arcade_machine_row) table \<Rightarrow> use_case_error option" where
  "check_arcadeMachine k r t =
     (if (case am_position r of None \<Rightarrow> False | Some p \<Rightarrow> p < 1)
      then violated ''arcade_machines_check_position_value_positive''
      else if \<not> (am_gameCenterId r = None \<and> am_position r = None \<or> nft_state r = IN_AKIVERSE)
      then violated ''can_only_place_deposited_arcade_machines''
      else if (case am_feverSparkRemain r of None \<Rightarrow> False | Some n \<Rightarrow> n < 0 \<or> n > 30)
      then violated ''fever_spark_remain_over_0_to_under_30''
      else if collides slot k r t then Some (PrismaKnownRequestError ''P2002'')
      else None)"

definition arcade_machine_ok :: "arcade_machine_row \<Rightarrow> bool" where
  "arcade_machine_ok r \<longleftrightarrow>
     (\<forall>p. am_position r = Some p \<longrightarrow> 1 \<le> p) \<and>
     (am_gameCenterId r = None \<and> am_position r = None \<or> nft_state r = IN_AKIVERSE) \<and>
     (\<forall>n. am_feverSparkRemain r = Some n \<longrightarrow> 0 \<le> n \<and> n \<le> 30)"

definition check_gameCenter ::
  "nft_id \<Rightarrow> game_center_row \<Rightarrow> (nft_id, game_center_row) table \<Rightarrow> use_case_error option" where
  "check_gameCenter k r t =
     (if gc_placementAllowed r \<and> nft_state r \<noteq> IN_AKIVERSE
      then violated ''can_only_place_in_deposited_game_centers'' else None)"

definition game_center_ok :: "game_center_row \<Rightarrow> bool" where
  "game_center_ok r \<longleftrightarrow> (gc_placementAllowed r \<longrightarrow> nft_state r = IN_AKIVERSE)"

text \<open>The partial unique indexes: one session that is not finished per machine and per player.\<close>

definition active_of :: "(play_session_row \<Rightarrow> string) \<Rightarrow> play_session_row \<Rightarrow> string option" where
  "active_of key r = (if ps_state r \<noteq> FINISHED then Some (key r) else None)"

definition check_playSession ::
  "string \<Rightarrow> play_session_row \<Rightarrow> (string, play_session_row) table \<Rightarrow> use_case_error option" where
  "check_playSession k r t =
     (if collides (Some \<circ> ps_authToken) k r t \<or> collides (active_of ps_arcadeMachineId) k r t \<or>
         collides (active_of ps_playerId) k r t
      then Some (PrismaKnownRequestError ''P2002'') else None)"

text \<open>One play without a result per session.\<close>

definition open_play :: "play_row \<Rightarrow> string option" where
  "open_play r = (if pl_result r = None then Some (pl_playSessionId r) else None)"

definition check_play :: "string \<Rightarrow> play_row \<Rightarrow> (string, play_row) table \<Rightarrow> use_case_error option" where
  "check_play k r t =
     (if collides open_play k r t then Some (PrismaKnownRequestError ''P2002'') else None)"

definition check_junk :: "'k \<Rightarrow> int \<Rightarrow> ('k, int) table \<Rightarrow> use_case_error option" where
  "check_junk k amount t = (if amount < 0 then violated ''junks_amount_over_zero'' else None)"

definition check_extractJunkInventory :: "'k \<Rightarrow> int \<Rightarrow> ('k, int) table \<Rightarrow> use_case_error option" where
  "check_extractJunkInventory k amount t =
     (if amount < 0 then violated ''extract_junk_inventories_amount_over_zero'' else None)"

definition check_craft :: "string \<Rightarrow> craft_row \<Rightarrow> (string, craft_row) table \<Rightarrow> use_case_error option" where
  "check_craft k r t =
     (if collides (Some \<circ> cr_craftedArcadeMachineId) k r t
      then Some (PrismaKnownRequestError ''P2002'') else None)"

definition check_dismantle ::
  "string \<Rightarrow> dismantle_row \<Rightarrow> (string, dismantle_row) table \<Rightarrow> use_case_error option" where
  "check_dismantle k r t =
     (if collides (Some \<circ> dm_arcadeMachineId) k r t
      then Some (PrismaKnownRequestError ''P2002'') else None)"

definition check_tournamentResult ::
  "string \<Rightarrow> tournament_result_row \<Rightarrow> (string, tournament_result_row) table \<Rightarrow> use_case_error option" where
  "check_tournamentResult k r t =
     (if collides (\<lambda>r. Some (tr_userId r, tr_tournamentId r)) k r t \<or>
         collides (\<lambda>r. Some (tr_tournamentId r, tr_rank r)) k r t
      then Some (PrismaKnownRequestError ''P2002'') else None)"

definition transfer_key :: "transfer_row \<Rightarrow> (string \<times> int \<times> wallet \<times> wallet \<times> nft_id) option" where
  "transfer_key r = Some (tf_blockHash r, tf_transactionIndex r, tf_from r, tf_to r, tf_tokenId r)"

definition check_transfer ::
  "string \<Rightarrow> transfer_row \<Rightarrow> (string, transfer_row) table \<Rightarrow> use_case_error option" where
  "check_transfer k r t =
     (if collides transfer_key k r t then Some (PrismaKnownRequestError ''P2002'') else None)"

definition currency_transfer_key ::
  "currency_transfer_row \<Rightarrow> (string \<times> int \<times> wallet \<times> wallet \<times> int) option" where
  "currency_transfer_key r = Some (ctf_blockHash r, ctf_transactionIndex r, ctf_from r, ctf_to r, ctf_amount r)"

definition check_currencyTransfer ::
  "string \<Rightarrow> currency_transfer_row \<Rightarrow> (string, currency_transfer_row) table \<Rightarrow> use_case_error option" where
  "check_currencyTransfer k r t =
     (if collides currency_transfer_key k r t then Some (PrismaKnownRequestError ''P2002'') else None)"

section \<open>Unique indexes\<close>

locale unique_index = table_store get put
  for get :: "db \<Rightarrow> ('k, 'v) table" and put :: "('k, 'v) table \<Rightarrow> db \<Rightarrow> db" +
  fixes chk :: "'k \<Rightarrow> 'v \<Rightarrow> ('k, 'v) table \<Rightarrow> use_case_error option" and key :: "'v \<Rightarrow> 'u option"
  assumes chk_unique: "chk k r t = None \<Longrightarrow> \<not> collides key k r t"
begin

definition indexed :: "db \<Rightarrow> bool" where
  "indexed d \<longleftrightarrow> distinct (map fst (get d)) \<and>
     (\<forall>k r k' r'. map_of (get d) k = Some r \<longrightarrow> map_of (get d) k' = Some r' \<longrightarrow> k \<noteq> k' \<longrightarrow>
        key r \<noteq> None \<longrightarrow> key r \<noteq> key r')"

lemma indexed_eq: "indexed d \<Longrightarrow> map_of (get d) k = Some r \<Longrightarrow> map_of (get d) k' = Some r' \<Longrightarrow>
    key r = Some x \<Longrightarrow> key r' = Some x \<Longrightarrow> k = k'"
  unfolding indexed_def by (metis option.distinct(1))

lemma not_collides: "\<not> collides key k r t \<Longrightarrow> map_of t k' = Some r' \<Longrightarrow> k' \<noteq> k \<Longrightarrow> key r \<noteq> None \<Longrightarrow>
    key r \<noteq> key r'"
  by (auto simp: collides_def list_ex_iff dest: map_of_SomeD)

lemma update_indexed: "preserves indexed (update_where get put chk k cond f)"
proof (rule preservesI)
  fix d d' assume I: "indexed d" and q: "update_where get put chk k cond f d = Inr d'"
  then obtain r0 where r0: "map_of (get d) k = Some r0"
    and d': "d' = put (apply_row f k (get d)) d"
    and c: "chk k (f r0) (apply_row f k (get d)) = None"
    by (auto simp: update_Inr)
  note nc = not_collides [OF chk_unique [OF c]]
  show "indexed d'"
    unfolding indexed_def
  proof (intro conjI allI impI)
    show "distinct (map fst (get d'))" using I d' by (simp add: indexed_def)
  next
    fix k1 r1 k2 r2
    assume m: "map_of (get d') k1 = Some r1" "map_of (get d') k2 = Some r2" "k1 \<noteq> k2" "key r1 \<noteq> None"
    consider "k1 = k" | "k2 = k" | "k1 \<noteq> k" "k2 \<noteq> k" by blast
    then show "key r1 \<noteq> key r2"
    proof cases
      case 1
      with m r0 d' show ?thesis using nc [of k2 r2] by (simp add: map_of_apply_row)
    next
      case 2
      with m r0 d' show ?thesis using nc [of k1 r1] by (auto simp: map_of_apply_row)
    next
      case 3
      with m d' I show ?thesis by (auto simp: map_of_apply_row indexed_def)
    qed
  qed
qed

lemma update_keeps_key:
  assumes "indexed d" and "map_of (get d) k = Some r" and "key (f r) = key r"
  shows "\<not> collides key k (f r) (apply_row f k (get d))"
proof
  assume "collides key k (f r) (apply_row f k (get d))"
  then obtain k' r' x where r': "k' \<noteq> k" "(k', r') \<in> set (apply_row f k (get d))" "key r' = Some x" "key r = Some x"
    unfolding collides_def assms(3) by (auto simp: list_ex_iff)
  from set_apply_row [OF r'(2)] r'(1) have "(k', r') \<in> set (get d)" by auto
  with assms(1) have "map_of (get d) k' = Some r'" by (simp add: indexed_def)
  from indexed_eq [OF assms(1) this assms(2) r'(3,4)] r'(1) show False by simp
qed

lemma create_indexed: "preserves indexed (create_row get put chk k r)"
proof (rule preservesI)
  fix d d' assume I: "indexed d" and q: "create_row get put chk k r d = Inr d'"
  then have k: "map_of (get d) k = None" and d': "d' = put (get d @ [(k, r)]) d"
    and c: "chk k r (get d @ [(k, r)]) = None"
    by (auto simp: create_Inr)
  note nc = not_collides [OF chk_unique [OF c]]
  have find: "map_of (get d') k' = (if k' = k then Some r else map_of (get d) k')" for k'
    using create_find [OF q] .
  have t: "map_of (get d @ [(k, r)]) k' = map_of (get d') k'" for k'
    using d' by simp
  show "indexed d'"
    unfolding indexed_def
  proof (intro conjI allI impI)
    show "distinct (map fst (get d'))"
      using I d' k by (auto simp: indexed_def map_of_eq_None_iff)
  next
    fix k1 r1 k2 r2
    assume m: "map_of (get d') k1 = Some r1" "map_of (get d') k2 = Some r2" "k1 \<noteq> k2" "key r1 \<noteq> None"
    consider "k1 = k" | "k2 = k" | "k1 \<noteq> k" "k2 \<noteq> k" by blast
    then show "key r1 \<noteq> key r2"
    proof cases
      case 1
      with m show ?thesis using nc [unfolded t, of k2 r2] by (simp add: find)
    next
      case 2
      with m show ?thesis using nc [unfolded t, of k1 r1] by (auto simp: find)
    next
      case 3
      with m I show ?thesis by (auto simp: find indexed_def)
    qed
  qed
qed

lemma update_many_indexed: "preserves indexed (update_many get put chk P f)"
proof (rule preservesI)
  fix d d' assume I: "indexed d" and q: "update_many get put chk P f d = Inr d'"
  then have d': "get d' = update_rows P f (get d)"
    and c: "\<And>k r. map_of (get d) k = Some r \<Longrightarrow> P k r \<Longrightarrow> chk k (f r) (update_rows P f (get d)) = None"
    by (auto simp: update_many_Inr dest: map_of_SomeD)
  show "indexed d'"
    unfolding indexed_def
  proof (intro conjI allI impI)
    show "distinct (map fst (get d'))" using I d' by (simp add: indexed_def)
  next
    fix k1 r1 k2 r2
    assume m: "map_of (get d') k1 = Some r1" "map_of (get d') k2 = Some r2" "k1 \<noteq> k2" "key r1 \<noteq> None"
    from m d' obtain s1 s2 where s: "map_of (get d) k1 = Some s1" "map_of (get d) k2 = Some s2"
      and r: "r1 = (if P k1 s1 then f s1 else s1)" "r2 = (if P k2 s2 then f s2 else s2)"
      by (auto simp: map_of_update_rows)
    consider "P k1 s1" | "P k2 s2" | "\<not> P k1 s1" "\<not> P k2 s2" by blast
    then show "key r1 \<noteq> key r2"
    proof cases
      case 1
      with m r d' show ?thesis using not_collides [OF chk_unique [OF c [OF s(1)]], of k2 r2] by simp
    next
      case 2
      with m r d' show ?thesis using not_collides [OF chk_unique [OF c [OF s(2)]], of k1 r1] by auto
    next
      case 3
      with m r s I show ?thesis by (auto simp: indexed_def)
    qed
  qed
qed

end

section \<open>Queries on each table\<close>

abbreviation "update_user \<equiv> update_where t_users put_users check_user"
abbreviation "update_gameCenter \<equiv> update_where t_gameCenters put_gameCenters check_gameCenter"
abbreviation "update_arcadeMachine \<equiv>
  update_where t_arcadeMachines put_arcadeMachines check_arcadeMachine"
abbreviation "create_arcadeMachine \<equiv>
  create_row t_arcadeMachines put_arcadeMachines check_arcadeMachine"
abbreviation "update_arcadePart \<equiv> update_where t_arcadeParts put_arcadeParts no_check"
abbreviation "create_arcadePart \<equiv> create_row t_arcadeParts put_arcadeParts no_check"
abbreviation "update_playSession \<equiv> update_where t_playSessions put_playSessions check_playSession"
abbreviation "create_playSession \<equiv> create_row t_playSessions put_playSessions check_playSession"
abbreviation "update_play \<equiv> update_where t_plays put_plays check_play"
abbreviation "create_play \<equiv> create_row t_plays put_plays check_play"
abbreviation "create_withdrawal \<equiv> create_row t_withdrawals put_withdrawals no_check"
abbreviation "create_deposit \<equiv> create_row t_deposits put_deposits no_check"
abbreviation "create_burn \<equiv> create_row t_burns put_burns no_check"
abbreviation "create_craft \<equiv> create_row t_crafts put_crafts check_craft"
abbreviation "create_dismantle \<equiv> create_row t_dismantles put_dismantles check_dismantle"
abbreviation "update_junk \<equiv> update_where t_junks put_junks check_junk"
abbreviation "upsert_junk \<equiv> upsert_row t_junks put_junks check_junk"
abbreviation "update_extractJunkInventory \<equiv>
  update_where t_extractJunkInventories put_extractJunkInventories check_extractJunkInventory"
abbreviation "update_tournament \<equiv> update_where t_tournaments put_tournaments no_check"
abbreviation "create_tournamentEntry \<equiv> create_row t_tournamentEntries put_tournamentEntries no_check"
abbreviation "update_tournamentEntry \<equiv> update_where t_tournamentEntries put_tournamentEntries no_check"
abbreviation "create_tournamentResult \<equiv>
  create_row t_tournamentResults put_tournamentResults check_tournamentResult"
abbreviation "create_reward \<equiv> create_row t_rewards put_rewards no_check"
abbreviation "update_reward \<equiv> update_where t_rewards put_rewards no_check"
abbreviation "create_ticketTransaction \<equiv> create_row t_ticketTransactions put_ticketTransactions no_check"
abbreviation "create_currencyWithdrawal \<equiv> create_row t_currencyWithdrawals put_currencyWithdrawals no_check"
abbreviation "upsert_activeBooster \<equiv> upsert_row t_activeBoosters put_activeBoosters no_check"
abbreviation "upsert_tournamentBooster \<equiv> upsert_row t_tournamentBoosters put_tournamentBoosters no_check"
abbreviation "create_questChain \<equiv> create_row t_questChains put_questChains no_check"
abbreviation "update_questChain \<equiv> update_where t_questChains put_questChains no_check"
abbreviation "create_quest \<equiv> create_row t_quests put_quests no_check"
abbreviation "update_quest \<equiv> update_where t_quests put_quests no_check"
abbreviation "upsert_collectibleItem \<equiv> upsert_row t_collectibleItems put_collectibleItems no_check"
abbreviation "update_rentalFee \<equiv> update_where t_rentalFees put_rentalFees no_check"
abbreviation "update_rentalFees \<equiv> update_many t_rentalFees put_rentalFees no_check"

abbreviation "update_arcadeMachines \<equiv>
  update_many t_arcadeMachines put_arcadeMachines check_arcadeMachine"
abbreviation "update_gameCenters \<equiv> update_many t_gameCenters put_gameCenters check_gameCenter"
abbreviation "update_arcadeParts \<equiv> update_many t_arcadeParts put_arcadeParts no_check"
abbreviation "create_block \<equiv> create_row t_blocks put_blocks no_check"
abbreviation "update_blocks \<equiv> update_many t_blocks put_blocks no_check"
abbreviation "create_transfer \<equiv> create_row t_transfers put_transfers check_transfer"
abbreviation "update_transfers \<equiv> update_many t_transfers put_transfers check_transfer"
abbreviation "create_currencyTransfer \<equiv>
  create_row t_currencyTransfers put_currencyTransfers check_currencyTransfer"
abbreviation "update_currencyTransfer \<equiv>
  update_where t_currencyTransfers put_currencyTransfers check_currencyTransfer"
abbreviation "update_withdrawal \<equiv> update_where t_withdrawals put_withdrawals no_check"
abbreviation "update_currencyWithdrawal \<equiv>
  update_where t_currencyWithdrawals put_currencyWithdrawals no_check"
abbreviation "update_currencyWithdrawals \<equiv>
  update_many t_currencyWithdrawals put_currencyWithdrawals no_check"
abbreviation "update_currencyDeposits \<equiv> update_many t_currencyDeposits put_currencyDeposits no_check"

section \<open>Interpretations\<close>

text \<open>
  The ids of the interpretations end in \<open>_tab\<close>; each table of the record satisfies the laws
  of a store.
\<close>

interpretation user_tab: checked_table t_users put_users check_user user_ok
  by unfold_locales (auto simp: put_defs check_user_def user_ok_def violated_def split: if_splits)

interpretation gameCenter_tab: checked_table t_gameCenters put_gameCenters check_gameCenter game_center_ok
  by unfold_locales
    (auto simp: put_defs check_gameCenter_def game_center_ok_def violated_def split: if_splits)

interpretation arcadeMachine_tab:
  checked_table t_arcadeMachines put_arcadeMachines check_arcadeMachine arcade_machine_ok
  by unfold_locales
    (auto simp: put_defs check_arcadeMachine_def arcade_machine_ok_def violated_def
      split: if_splits option.splits)

interpretation junk_tab: checked_table t_junks put_junks check_junk "\<lambda>n. 0 \<le> n"
  by unfold_locales (auto simp: put_defs check_junk_def violated_def split: if_splits)

interpretation extractJunkInventory_tab: checked_table t_extractJunkInventories
  put_extractJunkInventories check_extractJunkInventory "\<lambda>n. 0 \<le> n"
  by unfold_locales (auto simp: put_defs check_extractJunkInventory_def violated_def split: if_splits)

interpretation arcadePart_tab: table_store t_arcadeParts put_arcadeParts
  by unfold_locales (simp_all add: put_defs)
interpretation playSession_tab: table_store t_playSessions put_playSessions
  by unfold_locales (simp_all add: put_defs)
interpretation play_tab: table_store t_plays put_plays
  by unfold_locales (simp_all add: put_defs)
interpretation withdrawal_tab: table_store t_withdrawals put_withdrawals
  by unfold_locales (simp_all add: put_defs)
interpretation currencyWithdrawal_tab: table_store t_currencyWithdrawals put_currencyWithdrawals
  by unfold_locales (simp_all add: put_defs)
interpretation deposit_tab: table_store t_deposits put_deposits
  by unfold_locales (simp_all add: put_defs)
interpretation currencyDeposit_tab: table_store t_currencyDeposits put_currencyDeposits
  by unfold_locales (simp_all add: put_defs)
interpretation burn_tab: table_store t_burns put_burns
  by unfold_locales (simp_all add: put_defs)
interpretation craft_tab: table_store t_crafts put_crafts
  by unfold_locales (simp_all add: put_defs)
interpretation dismantle_tab: table_store t_dismantles put_dismantles
  by unfold_locales (simp_all add: put_defs)
interpretation tournament_tab: table_store t_tournaments put_tournaments
  by unfold_locales (simp_all add: put_defs)
interpretation tournamentEntry_tab: table_store t_tournamentEntries put_tournamentEntries
  by unfold_locales (simp_all add: put_defs)
interpretation tournamentResult_tab: table_store t_tournamentResults put_tournamentResults
  by unfold_locales (simp_all add: put_defs)
interpretation reward_tab: table_store t_rewards put_rewards
  by unfold_locales (simp_all add: put_defs)
interpretation ticketTransaction_tab: table_store t_ticketTransactions put_ticketTransactions
  by unfold_locales (simp_all add: put_defs)
interpretation activeBooster_tab: table_store t_activeBoosters put_activeBoosters
  by unfold_locales (simp_all add: put_defs)
interpretation tournamentBooster_tab: table_store t_tournamentBoosters put_tournamentBoosters
  by unfold_locales (simp_all add: put_defs)
interpretation questChain_tab: table_store t_questChains put_questChains
  by unfold_locales (simp_all add: put_defs)
interpretation quest_tab: table_store t_quests put_quests
  by unfold_locales (simp_all add: put_defs)
interpretation collectibleItem_tab: table_store t_collectibleItems put_collectibleItems
  by unfold_locales (simp_all add: put_defs)
interpretation rentalFee_tab: table_store t_rentalFees put_rentalFees
  by unfold_locales (simp_all add: put_defs)
interpretation block_tab: table_store t_blocks put_blocks
  by unfold_locales (simp_all add: put_defs)
interpretation transfer_tab: table_store t_transfers put_transfers
  by unfold_locales (simp_all add: put_defs)
interpretation currencyTransfer_tab: table_store t_currencyTransfers put_currencyTransfers
  by unfold_locales (simp_all add: put_defs)
interpretation score_tab: table_store t_scores put_scores
  by unfold_locales (simp_all add: put_defs)

interpretation slot_index: unique_index t_arcadeMachines put_arcadeMachines check_arcadeMachine slot
  by unfold_locales (auto simp: check_arcadeMachine_def violated_def split: if_splits)

interpretation machine_session: unique_index t_playSessions put_playSessions check_playSession
  "active_of ps_arcadeMachineId"
  by unfold_locales (auto simp: check_playSession_def split: if_splits)

interpretation player_session: unique_index t_playSessions put_playSessions check_playSession
  "active_of ps_playerId"
  by unfold_locales (auto simp: check_playSession_def split: if_splits)

interpretation play_index: unique_index t_plays put_plays check_play open_play
  by unfold_locales (auto simp: check_play_def split: if_splits)

interpretation dismantle_index: unique_index t_dismantles put_dismantles check_dismantle
  "Some \<circ> dm_arcadeMachineId"
  by unfold_locales (auto simp: check_dismantle_def split: if_splits)

interpretation transfer_index: unique_index t_transfers put_transfers check_transfer transfer_key
  by unfold_locales (auto simp: check_transfer_def split: if_splits)

interpretation currencyTransfer_index: unique_index t_currencyTransfers put_currencyTransfers
  check_currencyTransfer currency_transfer_key
  by unfold_locales (auto simp: check_currencyTransfer_def split: if_splits)

interpretation craft_index: unique_index t_crafts put_crafts check_craft
  "Some \<circ> cr_craftedArcadeMachineId"
  by unfold_locales (auto simp: check_craft_def split: if_splits)

section \<open>What the constraints guarantee\<close>

definition db_ok :: "db \<Rightarrow> bool" where
  "db_ok d \<longleftrightarrow> user_tab.all_ok d \<and> gameCenter_tab.all_ok d \<and> arcadeMachine_tab.all_ok d \<and>
     junk_tab.all_ok d \<and> extractJunkInventory_tab.all_ok d"

lemma all_ok_frame [simp]:
  "t_users d' = t_users d \<Longrightarrow> user_tab.all_ok d' = user_tab.all_ok d"
  "t_gameCenters d' = t_gameCenters d \<Longrightarrow> gameCenter_tab.all_ok d' = gameCenter_tab.all_ok d"
  "t_arcadeMachines d' = t_arcadeMachines d \<Longrightarrow> arcadeMachine_tab.all_ok d' = arcadeMachine_tab.all_ok d"
  "t_junks d' = t_junks d \<Longrightarrow> junk_tab.all_ok d' = junk_tab.all_ok d"
  "t_extractJunkInventories d' = t_extractJunkInventories d \<Longrightarrow>
     extractJunkInventory_tab.all_ok d' = extractJunkInventory_tab.all_ok d"
  by (simp_all add: user_tab.all_ok_def gameCenter_tab.all_ok_def arcadeMachine_tab.all_ok_def
      junk_tab.all_ok_def extractJunkInventory_tab.all_ok_def)

end
