(* ===== verification/Extract_Box.thy ===== *)
theory Extract_Box
  imports Extract_Table Tables
begin

text \<open>
  The pure part of \<open>src/use_cases/extract_usecase.ts\<close>: the extract code that an arcade
  machine's energy gives, the box of items, the weighted draw from the box, the ranking of the
  drawn items and their totals.  The draw of a round is \<open>random n\<close> where \<open>n\<close> is
  the number of rounds that follow it.
\<close>

section \<open>The extract code\<close>

definition EXTRACT_BASE_ENERGY :: int where
  "EXTRACT_BASE_ENERGY = 10000"

text \<open>
  The operands of \<open>%\<close> are not negative here, so it is \<open>mod\<close>; the division is exact,
  since every accumulator's extractable energy is a multiple of the base energy.
\<close>

definition getDefaultExtractCode :: "string \<Rightarrow> int \<Rightarrow> int \<Rightarrow> int res" where
  "getDefaultExtractCode accumulatorSubCategory energy extractedEnergy =
     (case accumulators accumulatorSubCategory of
        None \<Rightarrow> Inl (InternalServerUseCaseError ''unknown accumulator'')
      | Some metadata \<Rightarrow>
          let unusedEnergy = energy - extractedEnergy in
          if unusedEnergy < extractableEnergy metadata
          then Inl (IllegalStateUseCaseError ''energy insufficient'')
          else
            let reminder = unusedEnergy mod extractableEnergy metadata;
                extractTargetEnergy = unusedEnergy - reminder
            in Inr (extractTargetEnergy div EXTRACT_BASE_ENERGY))"

definition getNowSeason :: "env \<Rightarrow> db \<Rightarrow> season_row res" where
  "getNowSeason env d =
     (case find (\<lambda>s. sn_startAt s \<le> env_now env \<and>
                     (case sn_endAt s of None \<Rightarrow> True | Some e \<Rightarrow> env_now env \<le> e)) (t_seasons d) of
        None \<Rightarrow> Inl (InternalServerUseCaseError ''season record not found'')
      | Some s \<Rightarrow> Inr s)"

text \<open>A count that is \<open>undefined\<close> or zero is an internal error.\<close>

definition required_count :: "string \<Rightarrow> int option res \<Rightarrow> int res" where
  "required_count msg c =
     bind_res c (\<lambda>n. case n of
        None \<Rightarrow> Inl (InternalServerUseCaseError msg)
      | Some n \<Rightarrow> if n = 0 then Inl (InternalServerUseCaseError msg) else Inr n)"

record min_extract_items =
  me_extractCode :: "int option"
  me_count :: int

definition minNumberOfExtractItems :: "env \<Rightarrow> db \<Rightarrow> string \<Rightarrow> int \<Rightarrow> int \<Rightarrow> min_extract_items res" where
  "minNumberOfExtractItems env d accumulatorSubCategory energy extractedEnergy =
     (case getDefaultExtractCode accumulatorSubCategory energy extractedEnergy of
        Inl (IllegalStateUseCaseError m) \<Rightarrow> Inr \<lparr>me_extractCode = None, me_count = 0\<rparr>
      | Inl e \<Rightarrow> Inl e
      | Inr extractCode \<Rightarrow>
          bind_res (getNowSeason env d) (\<lambda>season.
          bind_res (required_count ''unknown extract item count''
                     (getExtractItemCount extractCode (sn_baseExtractItemCount season))) (\<lambda>count.
          Inr \<lparr>me_extractCode = Some extractCode, me_count = count\<rparr>)))"

lemma getDefaultExtractCode_Inr:
  assumes "getDefaultExtractCode s energy extracted = Inr c"
  obtains m q where "accumulators s = Some m" and "c * EXTRACT_BASE_ENERGY = q * extractableEnergy m"
    and "1 \<le> q" and "q * extractableEnergy m \<le> energy - extracted"
    and "energy - extracted < (q + 1) * extractableEnergy m"
proof -
  from assms obtain m where m: "accumulators s = Some m"
    and ge: "extractableEnergy m \<le> energy - extracted"
    and c: "c = (energy - extracted - (energy - extracted) mod extractableEnergy m) div 10000"
    by (auto simp: getDefaultExtractCode_def Let_def EXTRACT_BASE_ENERGY_def split: option.splits if_splits)
  define q where "q = (energy - extracted) div extractableEnergy m"
  have pos: "0 < extractableEnergy m" and dvd: "10000 dvd extractableEnergy m"
    using accumulator_energy [OF m] by simp_all
  have split: "energy - extracted - (energy - extracted) mod extractableEnergy m = q * extractableEnergy m"
    unfolding q_def by (simp add: minus_mod_eq_div_mult)
  have "c * EXTRACT_BASE_ENERGY = q * extractableEnergy m"
    unfolding c split EXTRACT_BASE_ENERGY_def using dvd by (simp add: dvd_div_mult_self)
  moreover have "1 \<le> q" unfolding q_def using ge pos by (simp add: pos_imp_zdiv_pos_iff int_one_le_iff_zero_less)
  moreover have "q * extractableEnergy m \<le> energy - extracted"
    using split pos pos_mod_sign [OF pos, of "energy - extracted"] by linarith
  moreover have "energy - extracted < (q + 1) * extractableEnergy m"
    unfolding distrib_right using split pos_mod_bound [OF pos, of "energy - extracted"] by linarith
  ultimately show thesis using m that by blast
qed

lemma default_code_bounds:
  assumes "getDefaultExtractCode s energy extracted = Inr c"
    and "accumulators s = Some m" and "energy - extracted \<le> tankCapacity m"
  shows "2 \<le> c" and "c \<le> 15"
proof -
  obtain m' q where "accumulators s = Some m'"
    and eq: "c * EXTRACT_BASE_ENERGY = q * extractableEnergy m'" and "1 \<le> q"
    and le: "q * extractableEnergy m' \<le> energy - extracted"
    using getDefaultExtractCode_Inr [OF assms(1)] by blast
  with assms(2) have m': "m' = m" by simp
  note acc = accumulator_energy [OF assms(2)]
  have "1 * extractableEnergy m \<le> q * extractableEnergy m"
    using \<open>1 \<le> q\<close> acc(2) by (intro mult_right_mono) auto
  with eq acc(2) show "2 \<le> c" unfolding EXTRACT_BASE_ENERGY_def m' by linarith
  from eq le acc(4) assms(3) show "c \<le> 15" unfolding EXTRACT_BASE_ENERGY_def m' by linarith
qed

lemma getNowSeason_in: "getNowSeason env d = Inr s \<Longrightarrow> s \<in> set (t_seasons d)"
  using find_in [of _ "t_seasons d" s] by (simp add: getNowSeason_def split: option.splits)

lemma required_count_Inr: "required_count msg c = Inr n \<longleftrightarrow> c = Inr (Some n) \<and> n \<noteq> 0"
proof (cases c)
  case (Inr x)
  then show ?thesis by (cases x) (auto simp: required_count_def)
qed (simp add: required_count_def)

section \<open>The box\<close>

record box_item =
  bi_category :: ArcadePartCategory
  bi_subCategory :: string
  bi_amount :: int
  bi_initialAmount :: int
  bi_isFeaturedItem :: bool
  bi_isJunk :: bool
  bi_name :: string

text \<open>An arcade part is in the box when no user has it and it has not left the world.\<close>

definition in_box :: "ArcadePartCategory \<Rightarrow> string \<Rightarrow> nft_id \<Rightarrow> arcade_part_row \<Rightarrow> bool" where
  "in_box c s k r \<longleftrightarrow> nft_userId r = None \<and> nft_state r = IN_AKIVERSE \<and> ap_category r = c \<and>
     ap_subCategory r = s"

definition box_item_of :: "db \<Rightarrow> initial_inventory_row \<Rightarrow> box_item res" where
  "box_item_of d iv =
     (case ii_itemType iv of
        ITEM_ARCADE_PART \<Rightarrow>
          let amount = int (count_rows (in_box (ii_category iv) (ii_subCategory iv)) (t_arcadeParts d)) in
          bind_res (getArcadePartMetadata (ii_category iv) (ii_subCategory iv)) (\<lambda>metadata.
          Inr \<lparr>bi_category = ii_category iv, bi_subCategory = ii_subCategory iv, bi_amount = amount,
            bi_initialAmount = ii_initialAmount iv, bi_isFeaturedItem = ii_featuredItem iv,
            bi_isJunk = False, bi_name = md_name metadata\<rparr>)
      | ITEM_JUNK_PART \<Rightarrow>
          (case map_of (t_extractJunkInventories d) (ii_category iv, ii_subCategory iv) of
             None \<Rightarrow> Inl (PrismaKnownRequestError ''P2025'')
           | Some amount \<Rightarrow>
               bind_res (getJunkMetadata (ii_category iv) (ii_subCategory iv)) (\<lambda>metadata.
               Inr \<lparr>bi_category = ii_category iv, bi_subCategory = ii_subCategory iv,
                 bi_amount = amount, bi_initialAmount = ii_initialAmount iv,
                 bi_isFeaturedItem = ii_featuredItem iv, bi_isJunk = True,
                 bi_name = jm_name metadata\<rparr>)))"

text \<open>The order of a part within its category; \<open>None\<close> for a part without metadata.\<close>

fun subCategoryOrder :: "ArcadePartCategory \<Rightarrow> string \<Rightarrow> int option" where
  "subCategoryOrder ROM s = map_option part_order (roms s)"
| "subCategoryOrder ACCUMULATOR s = map_option part_order (accumulators s)"
| "subCategoryOrder UPPER_CABINET s = map_option part_order (upperCabinets s)"
| "subCategoryOrder LOWER_CABINET s = map_option part_order (lowerCabinets s)"

fun categorySortOrders :: "ArcadePartCategory \<Rightarrow> int" where
  "categorySortOrders ROM = 1"
| "categorySortOrders ACCUMULATOR = 2"
| "categorySortOrders UPPER_CABINET = 3"
| "categorySortOrders LOWER_CABINET = 4"

fun itemTypeSortOrders :: "ExtractableItemType \<Rightarrow> int" where
  "itemTypeSortOrders ITEM_ARCADE_PART = 1"
| "itemTypeSortOrders ITEM_JUNK_PART = 2"

text \<open>A box item always has metadata (lemma \<open>box_item_order\<close>), so the default is never used.\<close>

definition toArray :: "box_item \<Rightarrow> int list" where
  "toArray item =
     [itemTypeSortOrders (if bi_isJunk item then ITEM_JUNK_PART else ITEM_ARCADE_PART),
      categorySortOrders (bi_category item),
      (case subCategoryOrder (bi_category item) (bi_subCategory item) of None \<Rightarrow> 0 | Some n \<Rightarrow> n)]"

definition listBoxItems :: "env \<Rightarrow> db \<Rightarrow> box_item list res" where
  "listBoxItems env d =
     bind_res (getNowSeason env d) (\<lambda>season.
     bind_res (map_res (box_item_of d)
                (filter (\<lambda>iv. ii_seasonId iv = sn_id season) (t_initialInventories d))) (\<lambda>boxItems.
     Inr (js_sort (makeCompare toArray) boxItems)))"

lemma box_item_order: "box_item_of d iv = Inr b \<Longrightarrow> subCategoryOrder (bi_category b) (bi_subCategory b) \<noteq> None"
  by (cases "ii_category iv")
    (auto simp: box_item_of_def bind_res_Inr_iff Let_def junk_metadata_of_def
      split: ExtractableItemType.splits option.splits)

lemma listBoxItems_sorted:
  assumes "listBoxItems env d = Inr box"
  shows "sorted_wrt (\<lambda>a b. compareArrays (toArray a) (toArray b) \<le> 0) box"
proof -
  have "compare_by.le toArray = (\<lambda>a b. compareArrays (toArray a) (toArray b) \<le> 0)"
    by (intro ext) (simp add: compare_by.le_def makeCompare_def)
  with assms show ?thesis
    using compare_by.sort_sorted [of toArray] by (auto simp: listBoxItems_def bind_res_Inr_iff)
qed

lemma box_item_amount:
  assumes "box_item_of d iv = Inr b" and "extractJunkInventory_tab.all_ok d"
  shows "0 \<le> bi_amount b"
proof (cases "ii_itemType iv")
  case ITEM_ARCADE_PART
  with assms(1) show ?thesis by (auto simp: box_item_of_def Let_def bind_res_Inr_iff)
next
  case ITEM_JUNK_PART
  with assms(1) obtain amount
    where "map_of (t_extractJunkInventories d) (ii_category iv, ii_subCategory iv) = Some amount"
      and "bi_amount b = amount"
    by (auto simp: box_item_of_def bind_res_Inr_iff split: option.splits)
  with extractJunkInventory_tab.all_okD [OF assms(2)] show ?thesis by blast
qed

lemma listBoxItems_from:
  assumes "listBoxItems env d = Inr box" and "b \<in> set box"
  shows "\<exists>iv. box_item_of d iv = Inr b"
proof -
  from assms(1) obtain season where "getNowSeason env d = Inr season"
    by (auto simp: listBoxItems_def bind_res_Inr_iff)
  with assms(1) obtain boxItems where
    m: "map_res (box_item_of d) (filter (\<lambda>iv. ii_seasonId iv = sn_id season) (t_initialInventories d)) =
      Inr boxItems" and "box = js_sort (makeCompare toArray) boxItems"
    by (auto simp: listBoxItems_def bind_res_Inr_iff)
  with assms(2) have "b \<in> set boxItems" by simp
  from map_res_set [OF m this] show ?thesis by blast
qed

lemma listBoxItems_amount:
  assumes "listBoxItems env d = Inr box" and "extractJunkInventory_tab.all_ok d" and "b \<in> set box"
  shows "0 \<le> bi_amount b"
  using listBoxItems_from [OF assms(1,3)] box_item_amount assms(2) by blast

end
