(* ===== verification/Extract_Draw.thy ===== *)
theory Extract_Draw
  imports Extract_Box
begin

text \<open>
  Drawing items from the box (\<open>extract\<close>, \<open>priorityCompare\<close> and \<open>countOfParts\<close>
  of \<open>src/use_cases/extract_usecase.ts\<close>).  The main invariant is that what is drawn of
  an item and what remains of it in the box always add up to its stock.
\<close>

record extracted_item =
  ei_isJunk :: bool
  ei_category :: ArcadePartCategory
  ei_subCategory :: string
  ei_priority :: int

definition priorityCompare :: "('a \<Rightarrow> int) \<Rightarrow> 'a \<Rightarrow> 'a \<Rightarrow> int" where
  "priorityCompare priority a b =
     (if priority a = priority b then 0 else if priority a > priority b then -1 else 1)"

interpretation by_priority: comparator "priorityCompare priority" for priority :: "'a \<Rightarrow> int"
  by unfold_locales (auto simp: priorityCompare_def split: if_splits)

text \<open>
  The inner loop: walk through the items that are not used up, adding their amounts, until the
  drawn number is reached; the item found loses one.  \<open>None\<close> when the loop ends without a
  hit.
\<close>

fun pick_item :: "int \<Rightarrow> int \<Rightarrow> box_item list \<Rightarrow> (box_item \<times> box_item list) option" where
  "pick_item currentNumber itemNumber [] = None"
| "pick_item currentNumber itemNumber (item # box) =
     (if bi_amount item = 0
      then (case pick_item currentNumber itemNumber box of
              None \<Rightarrow> None | Some (x, box') \<Rightarrow> Some (x, item # box'))
      else if currentNumber + bi_amount item \<ge> itemNumber
      then Some (item, item\<lparr>bi_amount := bi_amount item - 1\<rparr> # box)
      else (case pick_item (currentNumber + bi_amount item) itemNumber box of
              None \<Rightarrow> None | Some (x, box') \<Rightarrow> Some (x, item # box')))"

text \<open>The outer loop, once per round of the extract code; the box is the deep clone.\<close>

fun extract_loop ::
  "(nat \<Rightarrow> rat) \<Rightarrow> nat \<Rightarrow> box_item list \<Rightarrow> int \<Rightarrow> extracted_item list \<Rightarrow> extracted_item list res" where
  "extract_loop random 0 box totalLeft ret = Inr ret"
| "extract_loop random (Suc n) box totalLeft ret =
     (if totalLeft = 0 then Inr ret
      else
        (let itemNumber = getRandomInt (random n) 1 totalLeft in
         case pick_item 0 itemNumber box of
           None \<Rightarrow> extract_loop random n box totalLeft ret
         | Some (item, box') \<Rightarrow>
             (case getExtractPriority (bi_isJunk item) (bi_category item) (bi_subCategory item) of
                Inl e \<Rightarrow> Inl e
              | Inr p \<Rightarrow>
                  extract_loop random n box' (totalLeft - 1)
                    (ret @ [\<lparr>ei_isJunk = bi_isJunk item, ei_category = bi_category item,
                             ei_subCategory = bi_subCategory item, ei_priority = p\<rparr>]))))"

definition extract_items :: "(nat \<Rightarrow> rat) \<Rightarrow> int \<Rightarrow> box_item list \<Rightarrow> int \<Rightarrow> extracted_item list res" where
  "extract_items random extractCode box totalItems =
     bind_res (extract_loop random (nat extractCode) box totalItems []) (\<lambda>ret.
     Inr (js_sort (priorityCompare ei_priority) ret))"

text \<open>
  \<open>countOfParts\<close>: a \<open>Map\<close> in insertion order, here an association list keyed by
  category and sub category.
\<close>

type_synonym part_key = "ArcadePartCategory \<times> string"

definition part_key :: "extracted_item \<Rightarrow> part_key" where
  "part_key item = (ei_category item, ei_subCategory item)"

fun increment :: "part_key \<Rightarrow> (part_key \<times> nat) list \<Rightarrow> (part_key \<times> nat) list" where
  "increment key [] = [(key, 1)]"
| "increment key ((k, n) # m) = (if k = key then (k, Suc n) # m else (k, n) # increment key m)"

definition countOfParts :: "extracted_item list \<Rightarrow> (part_key \<times> nat) list" where
  "countOfParts items = foldl (\<lambda>m item. increment (part_key item) m) [] items"

section \<open>What is drawn\<close>

definition box_total :: "box_item list \<Rightarrow> int" where
  "box_total box = sum_list (map bi_amount box)"

definition box_nonneg :: "box_item list \<Rightarrow> bool" where
  "box_nonneg box \<longleftrightarrow> (\<forall>b \<in> set box. 0 \<le> bi_amount b)"

lemma box_total_simps [simp]: "box_total [] = 0" "box_total (b # box) = bi_amount b + box_total box"
  by (simp_all add: box_total_def)

lemma box_nonneg_simps [simp]:
  "box_nonneg []" "box_nonneg (b # box) \<longleftrightarrow> 0 \<le> bi_amount b \<and> box_nonneg box"
  by (auto simp: box_nonneg_def)

lemma box_total_nonneg: "box_nonneg box \<Longrightarrow> 0 \<le> box_total box"
  by (induction box) auto

type_synonym item_key = "bool \<times> ArcadePartCategory \<times> string"

definition box_key :: "box_item \<Rightarrow> item_key" where
  "box_key b = (bi_isJunk b, bi_category b, bi_subCategory b)"

definition item_key :: "extracted_item \<Rightarrow> item_key" where
  "item_key i = (ei_isJunk i, ei_category i, ei_subCategory i)"

definition stock :: "item_key \<Rightarrow> box_item list \<Rightarrow> int" where
  "stock k box = box_total (filter (\<lambda>b. box_key b = k) box)"

definition drawn :: "item_key \<Rightarrow> extracted_item list \<Rightarrow> int" where
  "drawn k items = int (length (filter (\<lambda>i. item_key i = k) items))"

lemma stock_nonneg: "box_nonneg box \<Longrightarrow> 0 \<le> stock k box"
  unfolding stock_def by (intro box_total_nonneg) (auto simp: box_nonneg_def)

lemma pick_item_finds:
  assumes "box_nonneg box" and "currentNumber < itemNumber" and "itemNumber \<le> currentNumber + box_total box"
  shows "pick_item currentNumber itemNumber box \<noteq> None"
  using assms
proof (induction box arbitrary: currentNumber)
  case Nil
  then show ?case by simp
next
  case (Cons b box)
  show ?case
  proof (cases "bi_amount b = 0")
    case True
    with Cons show ?thesis by (auto split: option.splits)
  next
    case False
    with Cons.prems Cons.IH [of "currentNumber + bi_amount b"] show ?thesis
      by (cases "currentNumber + bi_amount b \<ge> itemNumber") (auto split: option.splits)
  qed
qed

definition picked :: "box_item list \<Rightarrow> box_item \<Rightarrow> box_item list \<Rightarrow> bool" where
  "picked box item box' \<longleftrightarrow> item \<in> set box \<and> box_nonneg box' \<and> box_total box' = box_total box - 1 \<and>
     (\<forall>k. stock k box' = stock k box - (if box_key item = k then 1 else 0))"

lemma picked_Cons: "picked box item box' \<Longrightarrow> 0 \<le> bi_amount b \<Longrightarrow> picked (b # box) item (b # box')"
  by (auto simp: picked_def stock_def)

lemma picked_hit: "0 < bi_amount b \<Longrightarrow> box_nonneg box \<Longrightarrow>
    picked (b # box) b (b\<lparr>bi_amount := bi_amount b - 1\<rparr> # box)"
  by (auto simp: picked_def stock_def box_key_def)

lemma pick_item_spec:
  "pick_item c n box = Some (item, box') \<Longrightarrow> box_nonneg box \<Longrightarrow> picked box item box'"
proof (induction c n box arbitrary: box' rule: pick_item.induct)
  case (2 c n b box)
  consider "bi_amount b = 0" | "bi_amount b \<noteq> 0" "c + bi_amount b \<ge> n"
    | "bi_amount b \<noteq> 0" "\<not> c + bi_amount b \<ge> n" by blast
  then show ?case
  proof cases
    case 1
    with 2 show ?thesis by (auto split: option.splits intro!: picked_Cons)
  next
    case 2
    with "2.prems" show ?thesis by (auto intro!: picked_hit)
  next
    case 3
    with "2.IH"(2) "2.prems" show ?thesis by (auto split: option.splits intro!: picked_Cons)
  qed
qed simp

definition has_priority :: "box_item \<Rightarrow> bool" where
  "has_priority b \<longleftrightarrow> (\<exists>p. getExtractPriority (bi_isJunk b) (bi_category b) (bi_subCategory b) = Inr p)"

lemma pick_item_priority:
  "pick_item c n box = Some (item, box') \<Longrightarrow> \<forall>b \<in> set box. has_priority b \<Longrightarrow>
     \<forall>b \<in> set box'. has_priority b"
  by (induction c n box arbitrary: box' rule: pick_item.induct)
    (auto simp: has_priority_def split: if_splits option.splits)

lemma drawn_simps [simp]:
  "drawn k [] = 0" "drawn k (xs @ [i]) = drawn k xs + (if item_key i = k then 1 else 0)"
  by (simp_all add: drawn_def)

text \<open>
  The loop invariant, round by round: nothing is lost or duplicated, and every round draws one
  item until the box is empty.
\<close>

lemma extract_loop_spec:
  assumes "\<And>i. draw (random i)" and "box_nonneg box" and "\<forall>b \<in> set box. has_priority b"
  shows "\<exists>items. extract_loop random n box (box_total box) ret = Inr (ret @ items) \<and>
    int (length items) = min (int n) (box_total box) \<and>
    (\<forall>k. drawn k items \<le> stock k box) \<and>
    (\<forall>i \<in> set items. getExtractPriority (ei_isJunk i) (ei_category i) (ei_subCategory i) = Inr (ei_priority i))"
  using assms(2,3)
proof (induction n arbitrary: box ret)
  case 0
  then show ?case by (simp add: box_total_nonneg stock_nonneg)
next
  case (Suc n)
  show ?case
  proof (cases "box_total box = 0")
    case True
    with Suc.prems show ?thesis by (simp add: stock_nonneg)
  next
    case False
    with box_total_nonneg [OF Suc.prems(1)] have pos: "1 \<le> box_total box" by simp
    define itemNumber where "itemNumber = getRandomInt (random n) 1 (box_total box)"
    have "1 \<le> itemNumber" and "itemNumber \<le> box_total box"
      using getRandomInt_bounds [OF assms(1) pos] by (simp_all add: itemNumber_def)
    then obtain b box' where pick: "pick_item 0 itemNumber box = Some (b, box')"
      using pick_item_finds [OF Suc.prems(1), of 0 itemNumber] by fastforce
    from pick_item_spec [OF this Suc.prems(1)] have p: "picked box b box'" .
    then have "b \<in> set box" by (simp add: picked_def)
    with Suc.prems(2) obtain q
      where q: "getExtractPriority (bi_isJunk b) (bi_category b) (bi_subCategory b) = Inr q"
      unfolding has_priority_def by blast
    define it where "it = \<lparr>ei_isJunk = bi_isJunk b, ei_category = bi_category b,
      ei_subCategory = bi_subCategory b, ei_priority = q\<rparr>"
    have "\<forall>b \<in> set box'. has_priority b"
      using pick Suc.prems(2) by (rule pick_item_priority)
    with p have "box_nonneg box'" by (simp add: picked_def)
    then obtain items where items: "extract_loop random n box' (box_total box') (ret @ [it]) = Inr ((ret @ [it]) @ items)"
      and len: "int (length items) = min (int n) (box_total box')"
      and dr: "\<forall>k. drawn k items \<le> stock k box'"
      and pr: "\<forall>i \<in> set items. getExtractPriority (ei_isJunk i) (ei_category i) (ei_subCategory i) = Inr (ei_priority i)"
      using Suc.IH [of box' "ret @ [it]"] \<open>\<forall>b \<in> set box'. has_priority b\<close> by blast
    have tot: "box_total box' = box_total box - 1" using p by (simp add: picked_def)
    have "extract_loop random (Suc n) box (box_total box) ret = Inr (ret @ it # items)"
      using False pick q items unfolding tot by (simp add: Let_def itemNumber_def it_def)
    moreover have "int (length (it # items)) = min (int (Suc n)) (box_total box)"
      using len tot by simp
    moreover have "drawn k (it # items) \<le> stock k box" for k
    proof -
      have "item_key it = box_key b" by (simp add: it_def item_key_def box_key_def)
      then have "drawn k (it # items) = (if box_key b = k then 1 else 0) + drawn k items"
        by (simp add: drawn_def)
      moreover have "stock k box' = stock k box - (if box_key b = k then 1 else 0)"
        using p unfolding picked_def by blast
      ultimately show ?thesis using dr [rule_format, of k] by linarith
    qed
    moreover have "\<forall>i \<in> set (it # items). getExtractPriority (ei_isJunk i) (ei_category i) (ei_subCategory i) = Inr (ei_priority i)"
      using pr q by (simp add: it_def)
    ultimately show ?thesis by blast
  qed
qed

text \<open>The result is ranked, highest priority first; equal priorities keep their draw order.\<close>

lemma extract_items_spec:
  assumes "\<And>i. draw (random i)" and "box_nonneg box" and "\<forall>b \<in> set box. has_priority b" and "0 \<le> code"
  shows "\<exists>items. extract_items random code box (box_total box) = Inr items \<and>
    int (length items) = min code (box_total box) \<and>
    (\<forall>k. drawn k items \<le> stock k box) \<and>
    sorted_wrt (\<lambda>a b. ei_priority a \<ge> ei_priority b) items"
proof -
  from extract_loop_spec [where random = random and n = "nat code" and ret = "[]", OF assms(1-3)]
  obtain items where items: "extract_loop random (nat code) box (box_total box) [] = Inr items"
    and len: "int (length items) = min (int (nat code)) (box_total box)"
    and dr: "\<forall>k. drawn k items \<le> stock k box" by auto
  let ?s = "js_sort (priorityCompare ei_priority) items"
  have "drawn k ?s = drawn k items" for k
    unfolding drawn_def by (metis mset_filter mset_js_sort size_mset)
  moreover have le: "by_priority.le ei_priority = (\<lambda>a b. ei_priority a \<ge> ei_priority b)"
    by (intro ext) (auto simp: by_priority.le_def priorityCompare_def)
  moreover have "sorted_wrt (\<lambda>a b. ei_priority a \<ge> ei_priority b) ?s"
    using by_priority.sort_sorted [of ei_priority items] unfolding le .
  ultimately show ?thesis using items len dr assms(4) by (simp add: extract_items_def)
qed

section \<open>Totals per part\<close>

lemma map_of_increment:
  "map_of (increment key m) k = (if k = key then Some (case map_of m k of None \<Rightarrow> 1 | Some n \<Rightarrow> Suc n) else map_of m k)"
  by (induction key m rule: increment.induct) (auto split: option.splits)

lemma keys_increment: "distinct (map fst m) \<Longrightarrow> distinct (map fst (increment key m))"
proof (induction key m rule: increment.induct)
  case (2 key k n m)
  have "set (map fst (increment key m)) \<subseteq> insert key (set (map fst m))"
    by (induction key m rule: increment.induct) auto
  with 2 show ?case by auto
qed simp

lemma countOfParts_snoc:
  "countOfParts (items @ [i]) = increment (part_key i) (countOfParts items)"
  by (simp add: countOfParts_def)

text \<open>\<open>countOfParts\<close> counts: its value at a key is the number of items with that key.\<close>

lemma countOfParts_spec:
  "map_of (countOfParts items) k =
     (let n = length (filter (\<lambda>i. part_key i = k) items) in if n = 0 then None else Some n)"
proof (induction items rule: rev_induct)
  case Nil
  then show ?case by (simp add: countOfParts_def)
next
  case (snoc i items)
  then show ?case
    by (cases "filter (\<lambda>i. part_key i = k) items = []")
      (auto simp: countOfParts_snoc map_of_increment Let_def)
qed

lemma countOfParts_distinct: "distinct (map fst (countOfParts items))"
  by (induction items rule: rev_induct) (simp_all add: countOfParts_snoc keys_increment, simp add: countOfParts_def)

lemma sum_increment: "sum_list (map snd (increment key m)) = Suc (sum_list (map snd m))"
  by (induction key m rule: increment.induct) auto

lemma countOfParts_total: "sum_list (map snd (countOfParts items)) = length items"
  by (induction items rule: rev_induct) (simp_all add: countOfParts_snoc sum_increment, simp add: countOfParts_def)

end
