(* ===== verification/Extract_Usecase.thy ===== *)
theory Extract_Usecase
  imports Extract_Draw
begin

text \<open>
  \<open>ExtractUseCaseImpl.extract\<close> and \<open>execute\<close> of
  \<open>src/use_cases/extract_usecase.ts\<close>: everything read and decided before the transaction
  (\<open>extract_plan\<close>), the transaction with the translation of its errors and the history record
  (\<open>extract_commit\<close>), and the single retry after a conflict.  Between the reads and the
  transaction other requests may change the database; the parameter \<open>other\<close> is that change,
  and the identity when nothing interferes.
\<close>

datatype FeeCurrencyType = FEE_TERAS | FEE_AKV

definition AKV_UNIT :: int where
  "AKV_UNIT = 10 ^ 18"

fun EXTRACT_FEES :: "FeeCurrencyType \<Rightarrow> int" where
  "EXTRACT_FEES FEE_TERAS = 5000"
| "EXTRACT_FEES FEE_AKV = 16 * AKV_UNIT"

text \<open>The random draws of one execution.\<close>

record extract_draws =
  xd_code :: rat
  xd_items :: "nat \<Rightarrow> rat"
  xd_parts :: "part_key \<Rightarrow> nat \<Rightarrow> rat"

record extract_plan =
  xp_arcadePartIDs :: "nft_id list"
  xp_junks :: "(part_key \<times> nat) list"
  xp_arcadePartsCount :: int
  xp_extractedEnergy :: int

text \<open>
  The code and the item count that are used: the randomised code unless the box has too few
  items for it, then the default code, and an error when even that needs more than the box has.
\<close>

definition choose_code :: "int \<Rightarrow> int \<Rightarrow> int \<Rightarrow> int \<Rightarrow> (int \<times> int) res" where
  "choose_code addRandomExtractCode defaultExtractCode base totalItems =
     bind_res (required_count ''unknown ExtractCode'' (getExtractItemCount addRandomExtractCode base))
       (\<lambda>extractItemCount.
     if totalItems < extractItemCount then
       bind_res (required_count ''unknown ExtractCode'' (getExtractItemCount defaultExtractCode base))
         (\<lambda>extractItemCountFromBase.
       if totalItems < extractItemCountFromBase then Inl ExtractItemInsufficientUseCaseError
       else Inr (defaultExtractCode, extractItemCountFromBase))
     else Inr (addRandomExtractCode, extractItemCount))"

text \<open>The ids of unowned parts of a kind, and the random choice among them.\<close>

definition choose_part_ids :: "db \<Rightarrow> (part_key \<Rightarrow> nat \<Rightarrow> rat) \<Rightarrow> part_key \<times> nat \<Rightarrow> nft_id list res" where
  "choose_part_ids d random part =
     (case part of ((c, s), needed) \<Rightarrow>
        let ids = take (needed + 10) (map fst (filter (\<lambda>(k, r). in_box c s k r) (t_arcadeParts d))) in
        if length ids < needed then Inl (ConflictUseCaseError ''arcade parts insufficient'')
        else choiceMultiple (random (c, s)) ids needed)"

definition plan_items ::
  "db \<Rightarrow> extract_draws \<Rightarrow> arcade_machine_row \<Rightarrow> extracted_item list \<Rightarrow> extract_plan res" where
  "plan_items d rs am selectedItems =
     (let extractArcadeParts = filter (\<lambda>v. \<not> ei_isJunk v) selectedItems;
          extractJunkParts = filter ei_isJunk selectedItems in
      bind_res (map_res (choose_part_ids d (xd_parts rs)) (countOfParts extractArcadeParts)) (\<lambda>idss.
      Inr \<lparr>xp_arcadePartIDs = concat idss, xp_junks = countOfParts extractJunkParts,
        xp_arcadePartsCount = int (length extractArcadeParts),
        xp_extractedEnergy = am_extractedEnergy am\<rparr>))"

definition select_items ::
  "env \<Rightarrow> db \<Rightarrow> extract_draws \<Rightarrow> int \<Rightarrow> extracted_item list res" where
  "select_items env d rs defaultExtractCode =
     bind_res (getNowSeason env d) (\<lambda>season.
     bind_res (listBoxItems env d) (\<lambda>boxItems.
     let totalItems = sum_items (map bi_amount boxItems) in
     bind_res (choose_code (defaultExtractCode + getRandomInt (xd_code rs) 0 3) defaultExtractCode
                 (sn_baseExtractItemCount season) totalItems) (\<lambda>(code, extractItemCount).
     bind_res (extract_items (xd_items rs) code boxItems totalItems) (\<lambda>extractedItems.
     Inr (take (nat extractItemCount) extractedItems)))))"

definition extract_plan ::
  "env \<Rightarrow> ctx \<Rightarrow> nft_id \<Rightarrow> int \<Rightarrow> FeeCurrencyType \<Rightarrow> extract_draws \<Rightarrow> db \<Rightarrow> extract_plan res" where
  "extract_plan env ctx arcadeMachineId extractCode currencyType rs d =
     (case map_of (t_arcadeMachines d) arcadeMachineId of
        None \<Rightarrow> Inl (NotFoundUseCaseError ''arcade machine not found'' ''ArcadeMachine'')
      | Some am \<Rightarrow>
      if \<not> currentUserOwns ctx [nft_userId am] then Inl PermissionDeniedUseCaseError
      else
      bind_res (getDefaultExtractCode (am_accumulator am) (am_energy am) (am_extractedEnergy am))
        (\<lambda>defaultExtractCode.
      if extractCode \<noteq> defaultExtractCode then Inl StateChangeUseCaseError
      else
      (case map_of (t_users d) (the (ctx_userId ctx)) of
         None \<Rightarrow> Inl (PrismaKnownRequestError ''P2025'')
       | Some user \<Rightarrow>
       if currencyType = FEE_TERAS \<and> terasBalance user < EXTRACT_FEES FEE_TERAS
       then Inl (IllegalStateUseCaseError ''Teras insufficient'')
       else if currencyType \<noteq> FEE_TERAS \<and> akvBalance user < EXTRACT_FEES FEE_AKV
       then Inl (IllegalStateUseCaseError ''AKV insufficient'')
       else
       bind_res (select_items env d rs defaultExtractCode) (\<lambda>selectedItems.
       plan_items d rs am selectedItems))))"

section \<open>The transaction\<close>

definition on_error :: "('e \<Rightarrow> 'e) \<Rightarrow> ('d \<Rightarrow> 'e + 'd) \<Rightarrow> 'd \<Rightarrow> 'e + 'd" where
  "on_error f q d = (case q d of Inl e \<Rightarrow> Inl (f e) | Inr d' \<Rightarrow> Inr d')"

lemma on_error_Inr [simp]: "on_error f q d = Inr d' \<longleftrightarrow> q d = Inr d'"
  by (simp add: on_error_def split: sum.splits)

definition assign_part :: "env \<Rightarrow> user_id \<Rightarrow> nft_id \<Rightarrow> query" where
  "assign_part env u partId =
     update_arcadePart partId (\<lambda>r. nft_userId r = None)
       (\<lambda>r. r\<lparr>nft_userId := Some u, nft_updatedAt := env_now env\<rparr>)"

text \<open>A junk kind is taken from the box and added to the user's junk.\<close>

definition move_junk :: "user_id \<Rightarrow> part_key \<times> nat \<Rightarrow> query list" where
  "move_junk u p =
     (case p of ((c, s), n) \<Rightarrow>
        [update_extractJunkInventory (c, s) (\<lambda>_. True) (\<lambda>amount. amount - int n),
         upsert_junk (u, c, s) (\<lambda>amount. amount + int n) (int n)])"

text \<open>
  The error of the machine's update is told apart by the query that the message names, so it is
  translated at the query.
\<close>

definition translate_machine_error :: "use_case_error \<Rightarrow> use_case_error" where
  "translate_machine_error e =
     (if e = PrismaKnownRequestError ''P2025'' then IllegalStateUseCaseError ''Extract conflicted'' else e)"

definition consume_energy :: "env \<Rightarrow> nft_id \<Rightarrow> int \<Rightarrow> int \<Rightarrow> query" where
  "consume_energy env arcadeMachineId extractedEnergy extractCode =
     on_error translate_machine_error
       (update_arcadeMachine arcadeMachineId (\<lambda>r. am_extractedEnergy r = extractedEnergy)
         (\<lambda>r. r\<lparr>am_extractedEnergy := am_extractedEnergy r + extractCode * EXTRACT_BASE_ENERGY,
                nft_updatedAt := env_now env\<rparr>))"

definition pay_fee :: "user_id \<Rightarrow> FeeCurrencyType \<Rightarrow> query" where
  "pay_fee u currencyType =
     (let teras = (if currencyType = FEE_TERAS then EXTRACT_FEES FEE_TERAS else 0);
          akv = (if currencyType = FEE_TERAS then 0 else EXTRACT_FEES FEE_AKV) in
      update_user u (\<lambda>_. True)
        (\<lambda>r. r\<lparr>terasBalance := terasBalance r - teras, akvBalance := akvBalance r - akv\<rparr>))"

definition extract_queries ::
  "env \<Rightarrow> user_id \<Rightarrow> nft_id \<Rightarrow> int \<Rightarrow> FeeCurrencyType \<Rightarrow> extract_plan \<Rightarrow> query list" where
  "extract_queries env u arcadeMachineId extractCode currencyType p =
     map (assign_part env u) (xp_arcadePartIDs p) @
     concat (map (move_junk u) (xp_junks p)) @
     [consume_energy env arcadeMachineId (xp_extractedEnergy p) extractCode, pay_fee u currencyType]"

definition extract_error :: "use_case_error \<Rightarrow> use_case_error" where
  "extract_error e =
     (if e = PrismaUnknownRequestError ''teras_balance_over_zero''
      then IllegalStateUseCaseError ''Teras balance is insufficient''
      else if e = PrismaUnknownRequestError ''extract_junk_inventories_amount_over_zero''
      then ConflictUseCaseError ''Junk inventory is insufficient''
      else e)"

text \<open>An item of the answer; a junk row is repeated once per piece.\<close>

datatype extracted = ExtractedPart nft_id | ExtractedJunk ArcadePartCategory string

record ranked =
  rk_priority :: int
  rk_item :: extracted
  rk_copies :: nat

definition rank_part :: "db \<Rightarrow> nft_id \<Rightarrow> ranked res" where
  "rank_part d partId =
     (case map_of (t_arcadeParts d) partId of
        None \<Rightarrow> Inl JsTypeError
      | Some r \<Rightarrow> bind_res (getExtractPriority False (ap_category r) (ap_subCategory r)) (\<lambda>p.
          Inr \<lparr>rk_priority = p, rk_item = ExtractedPart partId, rk_copies = 1\<rparr>))"

definition rank_junk :: "part_key \<times> nat \<Rightarrow> ranked res" where
  "rank_junk p =
     (case p of ((c, s), n) \<Rightarrow> bind_res (getExtractPriority True c s) (\<lambda>p.
        Inr \<lparr>rk_priority = p, rk_item = ExtractedJunk c s, rk_copies = n\<rparr>))"

definition sorted_results :: "db \<Rightarrow> extract_plan \<Rightarrow> ranked list res" where
  "sorted_results d p =
     bind_res (map_res (rank_part d) (xp_arcadePartIDs p)) (\<lambda>parts.
     bind_res (map_res rank_junk (xp_junks p)) (\<lambda>junks.
     Inr (rev (js_sort (priorityCompare rk_priority) (parts @ junks)))))"

definition extract_answer :: "ranked list \<Rightarrow> extracted list" where
  "extract_answer results = concat (map (\<lambda>i. replicate (rk_copies i) (rk_item i)) results)"

definition makeExtractDetail :: "db \<Rightarrow> ranked list \<Rightarrow> (part_key \<times> nat) list \<Rightarrow> extract_detail list" where
  "makeExtractDetail d results junkParts =
     concat (map (\<lambda>i. case rk_item i of
         ExtractedPart partId \<Rightarrow>
           (case map_of (t_arcadeParts d) partId of
              None \<Rightarrow> [] | Some ap \<Rightarrow> [ArcadePartDetail (ap_category ap) (ap_subCategory ap) partId])
       | ExtractedJunk c s \<Rightarrow> []) results) @
     map (\<lambda>((c, s), n). JunkPartDetail c s n) junkParts"

definition extract_commit ::
  "env \<Rightarrow> user_id \<Rightarrow> nft_id \<Rightarrow> int \<Rightarrow> FeeCurrencyType \<Rightarrow> extract_plan \<Rightarrow> db \<Rightarrow> extracted list res \<times> db" where
  "extract_commit env u arcadeMachineId extractCode currencyType p d =
     (case run_tx (extract_queries env u arcadeMachineId extractCode currencyType p) d of
        Inl e \<Rightarrow> (Inl (extract_error e), d)
      | Inr d' \<Rightarrow>
          (case sorted_results d' p of
             Inl e \<Rightarrow> (Inl e, d')
           | Inr results \<Rightarrow>
               (Inr (extract_answer results),
                d'\<lparr>t_extracts := t_extracts d' @
                   [\<lparr>ex_userId = u, ex_arcadeMachineId = arcadeMachineId,
                     ex_arcadePartsCount = xp_arcadePartsCount p,
                     ex_junkPartsCount = int (sum_list (map snd (xp_junks p))),
                     ex_detail = makeExtractDetail d' results (xp_junks p)\<rparr>]\<rparr>)))"

definition execute_extract ::
  "env \<Rightarrow> ctx \<Rightarrow> nft_id \<Rightarrow> int \<Rightarrow> FeeCurrencyType \<Rightarrow> extract_draws \<Rightarrow> (db \<Rightarrow> db) \<Rightarrow> db \<Rightarrow>
   extracted list res \<times> db" where
  "execute_extract env ctx arcadeMachineId extractCode currencyType rs other d =
     (case extract_plan env ctx arcadeMachineId extractCode currencyType rs d of
        Inl e \<Rightarrow> (Inl e, d)
      | Inr p \<Rightarrow>
          extract_commit env (the (ctx_userId ctx)) arcadeMachineId extractCode currencyType p (other d))"

text \<open>One retry, with fresh reads and draws, and only for a conflict.\<close>

definition extract_usecase ::
  "env \<Rightarrow> ctx \<Rightarrow> nft_id \<Rightarrow> int \<Rightarrow> FeeCurrencyType \<Rightarrow> (nat \<Rightarrow> extract_draws) \<Rightarrow> (nat \<Rightarrow> db \<Rightarrow> db) \<Rightarrow> db \<Rightarrow>
   extracted list res \<times> db" where
  "extract_usecase env ctx arcadeMachineId extractCode currencyType rs other d =
     (case execute_extract env ctx arcadeMachineId extractCode currencyType (rs 0) (other 0) d of
        (Inl (ConflictUseCaseError m), d') \<Rightarrow>
          execute_extract env ctx arcadeMachineId extractCode currencyType (rs 1) (other 2) (other 1 d')
      | r \<Rightarrow> r)"

end
