(* ===== verification/Sample.thy ===== *)
theory Sample
  imports Tables
begin

text \<open>
  A small concrete database on which the general theorems are instantiated: two users, one game
  center, arcade machines, free and owned parts, junk, a season and a tournament.
\<close>

definition sample_user :: "wallet option \<Rightarrow> int \<Rightarrow> user_row" where
  "sample_user w teras = \<lparr>u_walletAddress = w, akirBalance = 0, akvBalance = 0, terasBalance = teras, tickets = 10,
     u_lockedAt = None\<rparr>"

definition sample_part :: "user_id option \<Rightarrow> ArcadePartCategory \<Rightarrow> string \<Rightarrow> arcade_part_row" where
  "sample_part u c s = \<lparr>nft_userId = u, nft_ownerWallet = None, nft_physicalWallet = None,
     nft_state = IN_AKIVERSE, nft_lastBlock = 0, nft_lastTransactionIndex = 0, nft_updatedAt = 1,
     ap_category = c, ap_subCategory = s, ap_destroyedAt = None, ap_craftId = None,
     ap_createDismantleId = None\<rparr>"

definition sample_machine :: "user_id \<Rightarrow> int \<Rightarrow> int option \<Rightarrow> arcade_machine_row" where
  "sample_machine u energy fever = \<lparr>nft_userId = Some u, nft_ownerWallet = Some ''0xAb'',
     nft_physicalWallet = None, nft_state = IN_AKIVERSE, nft_lastBlock = 0,
     nft_lastTransactionIndex = 0, nft_updatedAt = 1, am_game = ''BUBBLE_ATTACK'', am_energy = energy,
     am_maxEnergy = 100000, am_extractedEnergy = 0, am_autoRenewLease = False,
     am_gameCenterId = None, am_position = None, am_installedAt = None,
     am_accumulator = ''HOKUTO_100_LX'', am_upperCabinet = ''PLAIN'', am_lowerCabinet = ''PLAIN'',
     am_feverSparkRemain = fever, am_destroyedAt = None\<rparr>"

definition sample_center :: game_center_row where
  "sample_center = \<lparr>nft_userId = Some ''u2'', nft_ownerWallet = None, nft_physicalWallet = None,
     nft_state = IN_AKIVERSE, nft_lastBlock = 0, nft_lastTransactionIndex = 0, nft_updatedAt = 1,
     gc_size = SMALL, gc_placementAllowed = True\<rparr>"

definition sample_db :: db where
  "sample_db = \<lparr>
     t_users = [(''u1'', sample_user (Some ''0xab'') 20000), (''u2'', sample_user None 0)],
     t_gameCenters = [(''g1'', sample_center)],
     t_arcadeMachines =
       [(''a1'', sample_machine ''u1'' 20000 None),
        (''a2'', (sample_machine ''u2'' 100000 (Some 30))\<lparr>am_gameCenterId := Some ''g1'', am_position := Some 1\<rparr>)],
     t_arcadeParts =
       [(''p1'', sample_part None ROM ''BUBBLE_ATTACK''), (''p2'', sample_part None ROM ''BUBBLE_ATTACK'')],
     t_playSessions = [], t_plays = [],
     t_gameSettings = [(''BUBBLE_ATTACK'', \<lparr>gs_dailyMaxPlayCount = 3, gs_difficulty = Some 2,
       gs_targetScore = Some 100, gs_easyDifficulty = Some 1, gs_easyTargetScore = Some 50\<rparr>)],
     t_activeBoosters = [], t_withdrawals = [], t_currencyWithdrawals = [], t_deposits = [],
     t_currencyDeposits = [], t_burns = [], t_crafts = [], t_dismantles = [],
     t_junks = [],
     t_extractJunkInventories = [((ROM, ''BUBBLE_ATTACK''), 5)],
     t_initialInventories =
       [\<lparr>ii_seasonId = ''s1'', ii_itemType = ITEM_JUNK_PART, ii_category = ROM,
         ii_subCategory = ''BUBBLE_ATTACK'', ii_initialAmount = 5, ii_featuredItem = False\<rparr>,
        \<lparr>ii_seasonId = ''s1'', ii_itemType = ITEM_ARCADE_PART, ii_category = ROM,
         ii_subCategory = ''BUBBLE_ATTACK'', ii_initialAmount = 2, ii_featuredItem = True\<rparr>],
     t_seasons = [\<lparr>sn_id = ''s1'', sn_startAt = 0, sn_endAt = None, sn_baseExtractItemCount = 4\<rparr>],
     t_extracts = [],
     t_tournaments = [(''t1'', \<lparr>tn_entryFeeTickets = 3, tn_title = ''Cup'', tn_prizeTerasAmount = None,
       tn_startAt = 0, tn_endAt = 100, tn_resultRecorded = False, tn_prizeTerasOnly = False,
       tn_prizeSent = False, tn_gameId = None, tn_type = T_SPARK_COUNT\<rparr>)],
     t_tournamentEntries = [], t_tournamentResults = [], t_prizeIgnoreUsers = [], t_rewards = [],
     t_ticketTransactions = [], t_boosterMasters = [], t_boosterAvailables = [], t_tournamentBoosters = [],
     t_chainMasters = [], t_questChains = [], t_quests = [], t_collectibleItems = [], t_rentalFees = [],
     t_blocks = [], t_transfers = [], t_currencyTransfers = [],
     t_scores = [], t_calls = []\<rparr>"

definition sample_env :: env where
  "sample_env = \<lparr>env_now = 50, env_rnd = round\<rparr>"

definition sample_ctx :: ctx where
  "sample_ctx = \<lparr>ctx_userId = Some ''u1'', ctx_walletAddress = Some ''0xab'', ctx_country = None\<rparr>"

lemmas sample_defs = sample_db_def sample_user_def sample_part_def sample_machine_def
  sample_center_def sample_env_def sample_ctx_def

end
