(* ===== verification/Extract_Correct.thy ===== *)
theory Extract_Correct
  imports Extract_Usecase Sample
begin

text \<open>
  Correctness of extraction: how many items it delivers and how good they are, that the
  transaction moves exactly what it should and nothing when it fails, that an arcade machine's
  energy is never spent twice, and when a lost race is retried.
\<close>

section \<open>Items delivered\<close>

lemma choose_code_Inr:
  assumes "choose_code rc dc base n = Inr (c, cnt)"
  shows "getExtractItemCount c base = Inr (Some cnt)" and "cnt \<noteq> 0" and "cnt \<le> n" and "c = rc \<or> c = dc"
  using assms by (auto simp: choose_code_def bind_res_Inr_iff required_count_Inr split: if_splits)

lemma choose_code_defined:
  assumes "4 \<le> base" and "base \<le> 12" and "1 \<le> dc" and "dc \<le> 15" and "draw r"
  shows "\<exists>res. choose_code (dc + getRandomInt r 0 3) dc base n = res \<and>
    (res = Inl ExtractItemInsufficientUseCaseError \<or> (\<exists>c cnt. res = Inr (c, cnt)))"
proof -
  have "0 \<le> getRandomInt r 0 3" and "getRandomInt r 0 3 \<le> 3"
    using getRandomInt_bounds [OF assms(5), of 0 3] by simp_all
  then obtain x where x: "getExtractItemCount (dc + getRandomInt r 0 3) base = Inr (Some x)"
    using getExtractItemCount_total [OF assms(1,2), of "dc + getRandomInt r 0 3"] assms(3,4) by auto
  obtain y where y: "getExtractItemCount dc base = Inr (Some y)"
    using getExtractItemCount_total [OF assms(1,2), of dc] assms(3,4) by auto
  from getExtractItemCount_bounds [OF x] getExtractItemCount_bounds [OF y]
  show ?thesis by (auto simp: choose_code_def required_count_def x y)
qed

definition valid_draws :: "extract_draws \<Rightarrow> bool" where
  "valid_draws rs \<longleftrightarrow> draw (xd_code rs) \<and> (\<forall>i. draw (xd_items rs i)) \<and> (\<forall>k i. draw (xd_parts rs k i))"

definition priced_inventory :: "db \<Rightarrow> bool" where
  "priced_inventory d \<longleftrightarrow> (\<forall>iv \<in> set (t_initialInventories d).
     \<exists>p. getExtractPriority (ii_itemType iv = ITEM_JUNK_PART) (ii_category iv) (ii_subCategory iv) = Inr p)"

lemma box_item_kind:
  "box_item_of d iv = Inr b \<Longrightarrow> bi_isJunk b = (ii_itemType iv = ITEM_JUNK_PART) \<and>
     bi_category b = ii_category iv \<and> bi_subCategory b = ii_subCategory iv"
  by (cases "ii_itemType iv") (auto simp: box_item_of_def Let_def bind_res_Inr_iff split: option.splits)

lemma listBoxItems_from_inventory:
  assumes "listBoxItems env d = Inr box" and "b \<in> set box"
  shows "\<exists>iv \<in> set (t_initialInventories d). box_item_of d iv = Inr b"
proof -
  from assms(1) obtain season where "getNowSeason env d = Inr season"
    by (auto simp: listBoxItems_def bind_res_Inr_iff)
  with assms(1) obtain boxItems where
    m: "map_res (box_item_of d) (filter (\<lambda>iv. ii_seasonId iv = sn_id season) (t_initialInventories d)) =
      Inr boxItems" and "box = js_sort (makeCompare toArray) boxItems"
    by (auto simp: listBoxItems_def bind_res_Inr_iff)
  with assms(2) have "b \<in> set boxItems" by simp
  from map_res_set [OF m this] show ?thesis by auto
qed

lemma select_items_steps:
  assumes "select_items env d rs dc = Inr items"
  obtains season box code cnt all where "getNowSeason env d = Inr season" and "listBoxItems env d = Inr box"
    and "choose_code (dc + getRandomInt (xd_code rs) 0 3) dc (sn_baseExtractItemCount season) (box_total box)
      = Inr (code, cnt)"
    and "extract_items (xd_items rs) code box (box_total box) = Inr all" and "items = take (nat cnt) all"
  using assms by (auto simp: select_items_def bind_res_Inr_iff Let_def sum_items_sum_list box_total_def)

lemma select_items_all:
  assumes "select_items env d rs dc = Inr items"
    and "valid_draws rs" and "extractJunkInventory_tab.all_ok d" and "priced_inventory d" and "0 \<le> dc"
  obtains season box code cnt all where "getNowSeason env d = Inr season" and "listBoxItems env d = Inr box"
    and "getExtractItemCount code (sn_baseExtractItemCount season) = Inr (Some cnt)" and "cnt \<le> box_total box"
    and "dc \<le> code" and "items = take (nat cnt) all" and "int (length all) = min code (box_total box)"
    and "\<forall>k. drawn k all \<le> stock k box" and "sorted_wrt (\<lambda>a b. ei_priority a \<ge> ei_priority b) all"
    and "\<exists>draws. extract_loop (xd_items rs) (nat code) box (box_total box) [] = Inr draws \<and> mset draws = mset all"
proof -
  obtain season box code cnt all where a: "getNowSeason env d = Inr season" "listBoxItems env d = Inr box"
    and ch: "choose_code (dc + getRandomInt (xd_code rs) 0 3) dc (sn_baseExtractItemCount season) (box_total box)
      = Inr (code, cnt)"
    and ex: "extract_items (xd_items rs) code box (box_total box) = Inr all" and it: "items = take (nat cnt) all"
    using select_items_steps [OF assms(1)] .
  note c = choose_code_Inr [OF ch]
  have "0 \<le> getRandomInt (xd_code rs) 0 3"
    using getRandomInt_bounds(1) [of "xd_code rs" 0 3] assms(2) by (simp add: valid_draws_def)
  with c(4) have code: "dc \<le> code" by auto
  have nonneg: "box_nonneg box"
    using listBoxItems_amount [OF a(2) assms(3)] by (auto simp: box_nonneg_def)
  have pr: "\<forall>b \<in> set box. has_priority b"
  proof
    fix b assume "b \<in> set box"
    then obtain iv where iv: "iv \<in> set (t_initialInventories d)" "box_item_of d iv = Inr b"
      using listBoxItems_from_inventory [OF a(2)] by blast
    with assms(4) show "has_priority b"
      by (simp add: priced_inventory_def has_priority_def box_item_kind [OF iv(2)])
  qed
  have dr: "\<And>i. draw (xd_items rs i)" using assms(2) by (simp add: valid_draws_def)
  have "0 \<le> code" using code assms(5) by simp
  from extract_items_spec [where random = "xd_items rs", OF dr nonneg pr this] obtain all' where
    al: "extract_items (xd_items rs) code box (box_total box) = Inr all'"
    "int (length all') = min code (box_total box)" "\<forall>k. drawn k all' \<le> stock k box"
    "sorted_wrt (\<lambda>a b. ei_priority a \<ge> ei_priority b) all'" by blast
  with ex have "all' = all" by simp
  moreover have "\<exists>draws. extract_loop (xd_items rs) (nat code) box (box_total box) [] = Inr draws \<and> mset draws = mset all"
    using ex by (auto simp: extract_items_def bind_res_Inr_iff)
  ultimately show thesis using al by (intro that [OF a c(1) c(3) code it]) simp_all
qed

text \<open>Whatever is cut off a list that is ranked is ranked no higher than what is kept.\<close>

lemma best_kept:
  assumes "sorted_wrt (\<lambda>a b. f a \<ge> (f b :: int)) all" and "mset draws = mset all"
  shows "\<exists>rest. mset draws = mset (take n all @ rest) \<and> (\<forall>a \<in> set (take n all). \<forall>b \<in> set rest. f b \<le> f a)"
proof (intro exI conjI)
  have "sorted_wrt (\<lambda>a b. f a \<ge> f b) (take n all @ drop n all)" using assms(1) by simp
  then show "\<forall>a \<in> set (take n all). \<forall>b \<in> set (drop n all). f b \<le> f a"
    unfolding sorted_wrt_append by blast
  show "mset draws = mset (take n all @ drop n all)" using assms(2) by simp
qed

lemma drawn_take: "drawn k (take n items) \<le> drawn k items"
proof -
  have "length (filter P (take n items)) \<le> length (filter P items)" for P :: "extracted_item \<Rightarrow> bool"
    by (metis append_take_drop_id filter_append le_add1 length_append)
  then show ?thesis by (simp add: drawn_def)
qed

section \<open>The transaction\<close>

lemma extract_tx_steps:
  assumes "run_tx (extract_queries env u am code cur p) d = Inr d'"
  obtains d1 d2 d3 where "run_tx (map (assign_part env u) (xp_arcadePartIDs p)) d = Inr d1"
    and "run_tx (concat (map (move_junk u) (xp_junks p))) d1 = Inr d2"
    and "consume_energy env am (xp_extractedEnergy p) code d2 = Inr d3" and "pay_fee u cur d3 = Inr d'"
  using assms by (auto simp: extract_queries_def run_tx_append split: sum.splits)

text \<open>Assigning parts: only free parts are taken, each once, and no other table changes.\<close>

lemma assign_part_Inr:
  "assign_part env u k d = Inr d' \<longleftrightarrow> (\<exists>r. map_of (t_arcadeParts d) k = Some r \<and> nft_userId r = None \<and>
     d' = put_arcadeParts (apply_row (\<lambda>r. r\<lparr>nft_userId := Some u, nft_updatedAt := env_now env\<rparr>) k (t_arcadeParts d)) d)"
  by (auto simp: assign_part_def arcadePart_tab.update_Inr no_check_def)

definition other_tables_1 :: "db \<Rightarrow> db" where
  "other_tables_1 d = put_arcadeParts [] d"

lemma assign_parts_frame:
  "run_tx (map (assign_part env u) ks) d = Inr d' \<Longrightarrow> other_tables_1 d' = other_tables_1 d"
  by (induction ks arbitrary: d)
    (auto simp: assign_part_Inr other_tables_1_def split: sum.splits)

definition owned_by :: "env \<Rightarrow> user_id \<Rightarrow> arcade_part_row \<Rightarrow> arcade_part_row" where
  "owned_by env u r = r\<lparr>nft_userId := Some u, nft_updatedAt := env_now env\<rparr>"

definition assigned :: "env \<Rightarrow> user_id \<Rightarrow> nft_id list \<Rightarrow> db \<Rightarrow> db \<Rightarrow> bool" where
  "assigned env u ks d d' \<longleftrightarrow> distinct ks \<and>
     (\<forall>k \<in> set ks. \<exists>r. map_of (t_arcadeParts d) k = Some r \<and> nft_userId r = None) \<and>
     (\<forall>k. map_of (t_arcadeParts d') k =
        (if k \<in> set ks then map_option (owned_by env u) (map_of (t_arcadeParts d) k)
         else map_of (t_arcadeParts d) k))"

lemma assign_parts_each:
  "run_tx (map (assign_part env u) ks) d = Inr d' \<Longrightarrow>
     arcadePart_tab.updated_each (owned_by env u) (map (\<lambda>k. (k, \<lambda>r. nft_userId r = None)) ks) d d'"
proof (induction ks arbitrary: d)
  case Nil
  then show ?case by (simp add: arcadePart_tab.updated_each_Nil)
next
  case (Cons k ks)
  from Cons.prems obtain d1 where a: "assign_part env u k d = Inr d1"
    and 2: "run_tx (map (assign_part env u) ks) d1 = Inr d'"
    by (auto split: sum.splits)
  from a have 1: "update_arcadePart k (\<lambda>r. nft_userId r = None) (owned_by env u) d = Inr d1"
    by (simp add: assign_part_def owned_by_def [abs_def])
  have "arcadePart_tab.updated_each (owned_by env u)
      ((k, \<lambda>r. nft_userId r = None) # map (\<lambda>k. (k, \<lambda>r. nft_userId r = None)) ks) d d'"
    by (rule arcadePart_tab.updated_each_Cons [OF 1 refl Cons.IH [OF 2]]) (auto simp: owned_by_def)
  then show ?case by simp
qed

lemma assign_parts_find: "run_tx (map (assign_part env u) ks) d = Inr d' \<Longrightarrow> assigned env u ks d d'"
  using assign_parts_each unfolding arcadePart_tab.updated_each_def assigned_def
  by (fastforce simp: o_def)

text \<open>Moving junk: what leaves the box arrives at the user.\<close>

definition other_tables_2 :: "db \<Rightarrow> db" where
  "other_tables_2 d = put_junks [] (put_extractJunkInventories [] d)"

lemma upsert_junk_Inr:
  assumes "upsert_junk k f n d = Inr d'"
  shows "map_of (t_junks d') k' = (if k' = k then Some (case map_of (t_junks d) k of None \<Rightarrow> n | Some a \<Rightarrow> f a)
      else map_of (t_junks d) k')"
    and "d' = put_junks (t_junks d') d"
proof -
  show "map_of (t_junks d') k' = (if k' = k then Some (case map_of (t_junks d) k of None \<Rightarrow> n | Some a \<Rightarrow> f a)
      else map_of (t_junks d) k')"
  proof (cases "map_of (t_junks d) k")
    case None
    with assms junk_tab.create_find [of check_junk k n d d' k'] show ?thesis by (simp add: upsert_row_def)
  next
    case (Some a)
    with assms junk_tab.update_find(1) [of check_junk k _ f d d' k'] show ?thesis by (simp add: upsert_row_def)
  qed
  show "d' = put_junks (t_junks d') d"
    using assms by (auto simp: upsert_row_def junk_tab.create_Inr junk_tab.update_Inr split: if_splits)
qed

text \<open>The amounts in the box and in the hands of the user after the junk of a list was moved.\<close>

definition junk_left :: "(part_key \<times> nat) list \<Rightarrow> part_key \<Rightarrow> db \<Rightarrow> int option" where
  "junk_left ps k d = (case map_of ps k of None \<Rightarrow> map_of (t_extractJunkInventories d) k
     | Some n \<Rightarrow> map_option (\<lambda>a. a - int n) (map_of (t_extractJunkInventories d) k))"

definition junk_held :: "user_id \<Rightarrow> (part_key \<times> nat) list \<Rightarrow> user_id \<Rightarrow> part_key \<Rightarrow> db \<Rightarrow> int option" where
  "junk_held u ps v k d = (case map_of ps k of None \<Rightarrow> map_of (t_junks d) (v, k)
     | Some n \<Rightarrow> if v = u then Some (int n + (case map_of (t_junks d) (v, k) of None \<Rightarrow> 0 | Some a \<Rightarrow> a))
         else map_of (t_junks d) (v, k))"

definition junk_moved :: "user_id \<Rightarrow> (part_key \<times> nat) list \<Rightarrow> db \<Rightarrow> db \<Rightarrow> bool" where
  "junk_moved u ps d d' \<longleftrightarrow>
     (\<forall>k n. map_of ps k = Some n \<longrightarrow> (\<exists>a. map_of (t_extractJunkInventories d) k = Some a \<and> int n \<le> a)) \<and>
     (\<forall>k. map_of (t_extractJunkInventories d') k = junk_left ps k d) \<and>
     (\<forall>v k. map_of (t_junks d') (v, k) = junk_held u ps v k d)"

lemma move_junk_step:
  assumes "run_tx (move_junk u (k, n)) d = Inr d'"
  shows "junk_moved u [(k, n)] d d'" and "other_tables_2 d' = other_tables_2 d"
proof -
  obtain c s where k: "k = (c, s)" by (cases k)
  let ?upd = "update_extractJunkInventory (c, s) (\<lambda>_. True) (\<lambda>amount. amount - int n)"
  from assms obtain d1 where d1: "?upd d = Inr d1"
    and d': "upsert_junk (u, c, s) (\<lambda>amount. amount + int n) (int n) d1 = Inr d'"
    by (auto simp: k move_junk_def split: sum.splits)
  from d1 obtain a where a: "map_of (t_extractJunkInventories d) (c, s) = Some a" "int n \<le> a"
    and eq: "d1 = put_extractJunkInventories (t_extractJunkInventories d1) d"
    by (auto simp: extractJunkInventory_tab.update_Inr check_extractJunkInventory_def violated_def split: if_splits)
  have inv: "map_of (t_extractJunkInventories d1) k' =
      (if k' = (c, s) then Some (a - int n) else map_of (t_extractJunkInventories d) k')" for k'
    using extractJunkInventory_tab.update_find(1) [OF d1, of k'] a by auto
  have j1: "t_junks d1 = t_junks d" by (subst eq) (simp add: put_defs)
  note j = upsert_junk_Inr(1) [OF d'] upsert_junk_Inr(2) [OF d']
  have i2: "t_extractJunkInventories d' = t_extractJunkInventories d1"
    by (subst j(2)) (simp add: put_defs)
  show "junk_moved u [(k, n)] d d'"
    unfolding junk_moved_def junk_left_def junk_held_def i2 using a
    by (auto simp: inv j(1) j1 k split: option.splits)
  have "other_tables_2 d' = other_tables_2 d1" by (subst j(2)) (simp add: other_tables_2_def put_defs)
  also have "\<dots> = other_tables_2 d" by (subst eq) (simp add: other_tables_2_def put_defs)
  finally show "other_tables_2 d' = other_tables_2 d" .
qed

lemma junk_movedD:
  assumes "junk_moved u ps d d'"
  shows "map_of ps k = Some n \<Longrightarrow> \<exists>a. map_of (t_extractJunkInventories d) k = Some a \<and> int n \<le> a"
    and "map_of (t_extractJunkInventories d') k = junk_left ps k d"
    and "map_of (t_junks d') (v, k) = junk_held u ps v k d"
  using assms unfolding junk_moved_def by blast+

lemma junk_moved_Cons:
  assumes "junk_moved u [(k, n)] d d1" and "junk_moved u ps d1 d'" and "map_of ps k = None"
  shows "junk_moved u ((k, n) # ps) d d'"
  unfolding junk_moved_def
proof (intro conjI allI impI)
  note a = junk_movedD [OF assms(1)]
  note b = junk_movedD [OF assms(2)]
  show "map_of (t_extractJunkInventories d') k' = junk_left ((k, n) # ps) k' d" for k'
    by (cases "k' = k") (simp_all add: b(2) a(2) junk_left_def assms(3) split: option.split)
  show "map_of (t_junks d') (v, k') = junk_held u ((k, n) # ps) v k' d" for v k'
    by (cases "k' = k") (simp_all add: b(3) a(3) junk_held_def assms(3) split: option.split)
  show "\<exists>a. map_of (t_extractJunkInventories d) k' = Some a \<and> int m \<le> a"
    if "map_of ((k, n) # ps) k' = Some m" for k' m
    using a(1) [of k' m] b(1) [of k' m] that by (cases "k' = k") (simp_all add: a(2) junk_left_def)
qed

lemma move_junks_Cons:
  assumes "run_tx (concat (map (move_junk u) (p # ps))) d = Inr d'"
  obtains d1 where "run_tx (move_junk u (fst p, snd p)) d = Inr d1"
    and "run_tx (concat (map (move_junk u) ps)) d1 = Inr d'"
  using assms by (auto simp: run_tx_append split: sum.splits)

lemma move_junks:
  "run_tx (concat (map (move_junk u) ps)) d = Inr d' \<Longrightarrow> distinct (map fst ps) \<Longrightarrow> junk_moved u ps d d'"
proof (induction ps arbitrary: d)
  case Nil
  then show ?case by (simp add: junk_moved_def junk_left_def junk_held_def)
next
  case (Cons p ps)
  from move_junks_Cons [OF Cons.prems(1)] obtain d1 where d1: "run_tx (move_junk u (fst p, snd p)) d = Inr d1"
    "run_tx (concat (map (move_junk u) ps)) d1 = Inr d'" .
  have "junk_moved u ((fst p, snd p) # ps) d d'"
    using junk_moved_Cons [OF move_junk_step(1) [OF d1(1)] Cons.IH [OF d1(2)]] Cons.prems(2)
    by (simp add: map_of_eq_None_iff)
  then show ?case by simp
qed

lemma move_junks_frame:
  "run_tx (concat (map (move_junk u) ps)) d = Inr d' \<Longrightarrow> other_tables_2 d' = other_tables_2 d"
proof (induction ps arbitrary: d)
  case (Cons p ps)
  from move_junks_Cons [OF Cons.prems] show ?case using Cons.IH move_junk_step(2) by metis
qed simp

lemma other_tables_2_eq:
  assumes "other_tables_2 d' = other_tables_2 d"
  shows "d' = d\<lparr>t_junks := t_junks d', t_extractJunkInventories := t_extractJunkInventories d'\<rparr>"
proof -
  have "d' = (other_tables_2 d')\<lparr>t_junks := t_junks d', t_extractJunkInventories := t_extractJunkInventories d'\<rparr>"
    by (simp add: other_tables_2_def put_defs)
  then show ?thesis unfolding assms by (simp add: other_tables_2_def put_defs)
qed

lemma other_tables_1_eq:
  assumes "other_tables_1 d' = other_tables_1 d"
  shows "d' = d\<lparr>t_arcadeParts := t_arcadeParts d'\<rparr>"
proof -
  have "d' = (other_tables_1 d')\<lparr>t_arcadeParts := t_arcadeParts d'\<rparr>"
    by (simp add: other_tables_1_def put_defs)
  then show ?thesis unfolding assms by (simp add: other_tables_1_def put_defs)
qed

text \<open>The energy and the fee.\<close>

lemma consume_energy_Inr:
  "consume_energy env am e0 code d = Inr d' \<Longrightarrow>
     \<exists>r. map_of (t_arcadeMachines d) am = Some r \<and> am_extractedEnergy r = e0 \<and>
       d' = put_arcadeMachines (t_arcadeMachines d') d \<and>
       (\<forall>k. map_of (t_arcadeMachines d') k = (if k = am
          then Some (r\<lparr>am_extractedEnergy := e0 + code * EXTRACT_BASE_ENERGY, nft_updatedAt := env_now env\<rparr>)
          else map_of (t_arcadeMachines d) k))"
  by (auto simp: consume_energy_def arcadeMachine_tab.update_Inr map_of_apply_row)

definition fee_of :: "FeeCurrencyType \<Rightarrow> FeeCurrencyType \<Rightarrow> int" where
  "fee_of cur c = (if cur = c then EXTRACT_FEES c else 0)"

lemma pay_fee_Inr:
  assumes "pay_fee u cur d = Inr d'"
  shows "\<exists>r. map_of (t_users d) u = Some r \<and> fee_of cur FEE_TERAS \<le> terasBalance r \<and>
      fee_of cur FEE_AKV \<le> akvBalance r \<and> d' = put_users (t_users d') d \<and>
      (\<forall>k. map_of (t_users d') k = (if k = u
         then Some (r\<lparr>terasBalance := terasBalance r - fee_of cur FEE_TERAS,
                      akvBalance := akvBalance r - fee_of cur FEE_AKV\<rparr>)
         else map_of (t_users d) k))"
  using assms by (cases cur)
    (auto simp: pay_fee_def Let_def user_tab.update_Inr map_of_apply_row check_user_def violated_def
      fee_of_def split: if_splits)

section \<open>A failed extraction changes nothing\<close>

definition kinds_stable :: "db \<Rightarrow> db \<Rightarrow> bool" where
  "kinds_stable d d' \<longleftrightarrow> (\<forall>k r r'. map_of (t_arcadeParts d) k = Some r \<longrightarrow>
     map_of (t_arcadeParts d') k = Some r' \<longrightarrow>
     ap_category r' = ap_category r \<and> ap_subCategory r' = ap_subCategory r)"

definition ranked_item :: "extracted_item \<Rightarrow> bool" where
  "ranked_item i \<longleftrightarrow> getExtractPriority (ei_isJunk i) (ei_category i) (ei_subCategory i) = Inr (ei_priority i)"

lemma extract_loop_ranked:
  "extract_loop random n box t ret = Inr items \<Longrightarrow> \<forall>i \<in> set ret. ranked_item i \<Longrightarrow>
     \<forall>i \<in> set items. ranked_item i"
proof (induction random n box t ret rule: extract_loop.induct)
  case (2 random n box t ret)
  show ?case
  proof (cases "t = 0")
    case False
    define m where "m = getRandomInt (random n) 1 t"
    show ?thesis
    proof (cases "pick_item 0 m box")
      case None
      with 2 False show ?thesis by (simp add: m_def Let_def)
    next
      case (Some x)
      obtain b box' where x: "x = (b, box')" by (cases x)
      with 2 False Some m_def show ?thesis
        by (auto simp: Let_def ranked_item_def split: sum.splits)
    qed
  qed (use 2 in simp)
qed simp

lemma select_items_ranked: "select_items env d rs dc = Inr items \<Longrightarrow> i \<in> set items \<Longrightarrow> ranked_item i"
  by (elim select_items_steps)
    (auto simp: extract_items_def bind_res_Inr_iff dest!: in_set_takeD dest: extract_loop_ranked)

lemma countOfParts_key:
  assumes "((c, s), n) \<in> set (countOfParts items)"
  shows "\<exists>i \<in> set items. ei_category i = c \<and> ei_subCategory i = s"
proof -
  have "map_of (countOfParts items) (c, s) = Some n"
    using assms countOfParts_distinct by simp
  then have "filter (\<lambda>i. part_key i = (c, s)) items \<noteq> []"
    by (auto simp: countOfParts_spec Let_def split: if_splits)
  then show ?thesis by (auto simp: part_key_def filter_empty_conv)
qed

lemma choice_loop_subset: "set (choice_loop random n i items result) \<subseteq> set result \<union> set items"
proof (induction random n i items result rule: choice_loop.induct)
  case (2 random n i item items result)
  then show ?case by (auto split: if_splits)
qed simp

lemma choose_part_ids_in_box:
  assumes "choose_part_ids d random ((c, s), n) = Inr ids" and "k \<in> set ids"
    and "distinct (map fst (t_arcadeParts d))"
  shows "\<exists>r. map_of (t_arcadeParts d) k = Some r \<and> in_box c s k r"
proof -
  from assms(1,2) have "k \<in> set (map fst (filter (\<lambda>(k, r). in_box c s k r) (t_arcadeParts d)))"
    using choice_loop_subset
    by (fastforce simp: choose_part_ids_def Let_def choiceMultiple_def split: if_splits dest: in_set_takeD)
  with assms(3) show ?thesis by auto
qed

text \<open>The chosen parts are of the kinds of the selected items, each kind as often as it was selected.\<close>

lemma expand_increment:
  "mset (concat (map (\<lambda>(k, n). replicate n (f k)) (increment k m))) =
     add_mset (f k) (mset (concat (map (\<lambda>(k, n). replicate n (f k)) m)))"
  by (induction k m rule: increment.induct) auto

lemma countOfParts_expand:
  "mset (concat (map (\<lambda>(k, n). replicate n (f k)) (countOfParts items))) = mset (map (\<lambda>i. f (part_key i)) items)"
  by (induction items rule: rev_induct) (simp_all add: countOfParts_snoc expand_increment, simp add: countOfParts_def)

definition part_kind :: "db \<Rightarrow> nft_id \<Rightarrow> part_key option" where
  "part_kind d k = map_option (\<lambda>r. (ap_category r, ap_subCategory r)) (map_of (t_arcadeParts d) k)"

lemma choose_part_ids_kinds:
  assumes "choose_part_ids d random (ck, n) = Inr ids" and "\<And>k i. draw (random k i)"
    and "distinct (map fst (t_arcadeParts d))"
  shows "map (part_kind d) ids = replicate n (Some ck)"
proof (rule replicate_eqI)
  obtain c s where ck: "ck = (c, s)" by (cases ck)
  from assms(1) obtain xs where "choiceMultiple (random (c, s)) xs n = Inr ids" and "n \<le> length xs"
    by (auto simp: choose_part_ids_def Let_def ck split: if_splits)
  moreover from this(2) obtain ys where "choiceMultiple (random (c, s)) xs n = Inr ys" and "length ys = n"
    using choiceMultiple_spec [of "random (c, s)"] assms(2) by blast
  ultimately show "length (map (part_kind d) ids) = n" by simp
  show "y = Some ck" if y: "y \<in> set (map (part_kind d) ids)" for y
  proof -
    from y obtain k where k: "k \<in> set ids" "y = part_kind d k" by auto
    from choose_part_ids_in_box [OF assms(1) [unfolded ck] k(1) assms(3)]
    show ?thesis by (auto simp: k(2) part_kind_def in_box_def ck)
  qed
qed

lemma chosen_kinds:
  assumes "map_res (choose_part_ids d random) ps = Inr idss" and "\<And>k i. draw (random k i)"
    and "distinct (map fst (t_arcadeParts d))"
  shows "map (part_kind d) (concat idss) = concat (map (\<lambda>(k, n). replicate n (Some k)) ps)"
  using assms(1)
proof (induction ps arbitrary: idss)
  case (Cons p ps)
  then obtain ids idss' where a: "choose_part_ids d random (fst p, snd p) = Inr ids"
    and b: "map_res (choose_part_ids d random) ps = Inr idss'" and "idss = ids # idss'"
    by (auto split: sum.splits)
  with Cons.IH [OF b] choose_part_ids_kinds [OF a assms(2,3)] show ?case by (simp add: case_prod_unfold)
qed simp

lemma plan_kinds:
  assumes "plan_items d rs am items = Inr p" and "\<And>k i. draw (xd_parts rs k i)"
    and "distinct (map fst (t_arcadeParts d))"
  shows "mset (map (part_kind d) (xp_arcadePartIDs p)) =
      mset (map (\<lambda>i. Some (part_key i)) (filter (\<lambda>i. \<not> ei_isJunk i) items))"
    and "xp_junks p = countOfParts (filter ei_isJunk items)"
    and "xp_arcadePartsCount p = int (length (filter (\<lambda>i. \<not> ei_isJunk i) items))"
proof -
  let ?parts = "filter (\<lambda>i. \<not> ei_isJunk i) items"
  from assms(1) obtain idss where m: "map_res (choose_part_ids d (xd_parts rs)) (countOfParts ?parts) = Inr idss"
    and p: "xp_arcadePartIDs p = concat idss" "xp_junks p = countOfParts (filter ei_isJunk items)"
      "xp_arcadePartsCount p = int (length ?parts)"
    by (auto simp: plan_items_def Let_def bind_res_Inr_iff)
  show "mset (map (part_kind d) (xp_arcadePartIDs p)) = mset (map (\<lambda>i. Some (part_key i)) ?parts)"
    unfolding p(1) chosen_kinds [OF m assms(2,3)] by (rule countOfParts_expand)
  show "xp_junks p = countOfParts (filter ei_isJunk items)" "xp_arcadePartsCount p = int (length ?parts)"
    using p by simp_all
qed

text \<open>The answer and the line of the history, whatever their order, list the parts and the junk of the plan.\<close>

lemma mset_concat_map: "mset xs = mset ys \<Longrightarrow> mset (concat (map f xs)) = mset (concat (map f ys))"
  by (simp add: mset_concat sum_mset_sum_list [symmetric])

lemma rank_parts:
  "map_res (rank_part d) ids = Inr rs \<Longrightarrow> map rk_item rs = map ExtractedPart ids \<and>
     concat (map (\<lambda>i. replicate (rk_copies i) (rk_item i)) rs) = map ExtractedPart ids \<and>
     (\<forall>k \<in> set ids. map_of (t_arcadeParts d) k \<noteq> None)"
  by (induction ids arbitrary: rs) (auto simp: bind_res_Inr_iff rank_part_def split: option.splits sum.splits)

lemma rank_junks:
  "map_res rank_junk ps = Inr rs \<Longrightarrow> map rk_item rs = map (\<lambda>((c, s), n). ExtractedJunk c s) ps \<and>
     concat (map (\<lambda>i. replicate (rk_copies i) (rk_item i)) rs) =
       concat (map (\<lambda>((c, s), n). replicate n (ExtractedJunk c s)) ps)"
  by (induction ps arbitrary: rs) (auto simp: bind_res_Inr_iff rank_junk_def split: sum.splits)

definition part_detail :: "db \<Rightarrow> nft_id \<Rightarrow> extract_detail" where
  "part_detail d k = (let r = the (map_of (t_arcadeParts d) k) in ArcadePartDetail (ap_category r) (ap_subCategory r) k)"

lemma results_lists:
  assumes "sorted_results d p = Inr results"
  shows "mset (extract_answer results) = mset (map ExtractedPart (xp_arcadePartIDs p) @
      concat (map (\<lambda>((c, s), n). replicate n (ExtractedJunk c s)) (xp_junks p)))"
    and "mset (makeExtractDetail d results (xp_junks p)) = mset (map (part_detail d) (xp_arcadePartIDs p) @
      map (\<lambda>((c, s), n). JunkPartDetail c s n) (xp_junks p))"
proof -
  from assms obtain ps js where ps: "map_res (rank_part d) (xp_arcadePartIDs p) = Inr ps"
    and js: "map_res rank_junk (xp_junks p) = Inr js" and "results = rev (js_sort (priorityCompare rk_priority) (ps @ js))"
    by (auto simp: sorted_results_def bind_res_Inr_iff)
  then have ms: "mset results = mset (ps @ js)" by simp
  show "mset (extract_answer results) = mset (map ExtractedPart (xp_arcadePartIDs p) @
      concat (map (\<lambda>((c, s), n). replicate n (ExtractedJunk c s)) (xp_junks p)))"
    unfolding extract_answer_def mset_concat_map [OF ms] using rank_parts [OF ps] rank_junks [OF js] by simp
  define g where "g i = (case i of ExtractedPart partId \<Rightarrow>
           (case map_of (t_arcadeParts d) partId of
              None \<Rightarrow> [] | Some ap \<Rightarrow> [ArcadePartDetail (ap_category ap) (ap_subCategory ap) partId])
       | ExtractedJunk c s \<Rightarrow> [])" for i
  have "concat (map g (map ExtractedPart ks)) = map (part_detail d) ks"
    if "\<forall>k \<in> set ks. map_of (t_arcadeParts d) k \<noteq> None" for ks
    using that by (induction ks) (auto simp: g_def part_detail_def)
  moreover have "concat (map g (map (\<lambda>((c, s), n). ExtractedJunk c s) qs)) = []" for qs :: "(part_key \<times> nat) list"
    by (induction qs) (auto simp: g_def)
  ultimately have "concat (map (\<lambda>i. g (rk_item i)) (ps @ js)) = map (part_detail d) (xp_arcadePartIDs p)"
    using rank_parts [OF ps] rank_junks [OF js] by (simp flip: map_map [unfolded o_def])
  with mset_concat_map [OF ms, of "\<lambda>i. g (rk_item i)"]
  have "mset (concat (map (\<lambda>i. g (rk_item i)) results)) = mset (map (part_detail d) (xp_arcadePartIDs p))"
    by (simp only:)
  then show "mset (makeExtractDetail d results (xp_junks p)) = mset (map (part_detail d) (xp_arcadePartIDs p) @
      map (\<lambda>((c, s), n). JunkPartDetail c s n) (xp_junks p))"
    by (simp add: makeExtractDetail_def g_def)
qed

text \<open>What a plan has chosen: free parts whose kind has a priority, and junk that has one.\<close>

definition good_part :: "db \<Rightarrow> nft_id \<Rightarrow> bool" where
  "good_part d k \<longleftrightarrow> (\<exists>r p. map_of (t_arcadeParts d) k = Some r \<and> nft_userId r = None \<and>
     getExtractPriority False (ap_category r) (ap_subCategory r) = Inr p)"

definition good_junk :: "part_key \<times> nat \<Rightarrow> bool" where
  "good_junk j \<longleftrightarrow> (\<exists>p. getExtractPriority True (fst (fst j)) (snd (fst j)) = Inr p)"

lemma plan_items_good:
  assumes "plan_items d rs am items = Inr p" and "\<forall>i \<in> set items. ranked_item i"
    and "distinct (map fst (t_arcadeParts d))"
  shows "\<forall>k \<in> set (xp_arcadePartIDs p). good_part d k" and "\<forall>j \<in> set (xp_junks p). good_junk j"
    and "xp_extractedEnergy p = am_extractedEnergy am"
proof -
  let ?parts = "filter (\<lambda>v. \<not> ei_isJunk v) items"
  from assms(1) obtain idss where m: "map_res (choose_part_ids d (xd_parts rs)) (countOfParts ?parts) = Inr idss"
    and p: "xp_arcadePartIDs p = concat idss" "xp_junks p = countOfParts (filter ei_isJunk items)"
      "xp_extractedEnergy p = am_extractedEnergy am"
    by (auto simp: plan_items_def Let_def bind_res_Inr_iff)
  show "xp_extractedEnergy p = am_extractedEnergy am" by (rule p)
  show "\<forall>k \<in> set (xp_arcadePartIDs p). good_part d k"
  proof
    fix k assume "k \<in> set (xp_arcadePartIDs p)"
    then obtain ids where ids: "ids \<in> set idss" "k \<in> set ids" by (auto simp: p)
    from map_res_set [OF m ids(1)] obtain c s n where csn: "((c, s), n) \<in> set (countOfParts ?parts)"
      and ch: "choose_part_ids d (xd_parts rs) ((c, s), n) = Inr ids" by auto
    from choose_part_ids_in_box [OF ch ids(2) assms(3)] obtain r
      where r: "map_of (t_arcadeParts d) k = Some r" "in_box c s k r" by blast
    from countOfParts_key [OF csn] assms(2) obtain q where "getExtractPriority False c s = Inr q"
      by (auto simp: ranked_item_def)
    with r show "good_part d k" by (auto simp: good_part_def in_box_def)
  qed
  show "\<forall>j \<in> set (xp_junks p). good_junk j"
  proof
    fix j assume j: "j \<in> set (xp_junks p)"
    obtain c s n where "j = ((c, s), n)" by (metis surj_pair)
    with j countOfParts_key [of c s n "filter ei_isJunk items"] assms(2) show "good_junk j"
      by (auto simp: p good_junk_def ranked_item_def)
  qed
qed

lemma extract_plan_steps:
  assumes "extract_plan env ctx am code cur rs d = Inr p"
  obtains r u items where "map_of (t_arcadeMachines d) am = Some r" and "ctx_userId ctx = Some u"
    and "nft_userId r = Some u"
    and "getDefaultExtractCode (am_accumulator r) (am_energy r) (am_extractedEnergy r) = Inr code"
    and "map_of (t_users d) u \<noteq> None"
    and "select_items env d rs code = Inr items" and "plan_items d rs r items = Inr p"
proof -
  from assms obtain r where r: "map_of (t_arcadeMachines d) am = Some r"
    by (auto simp: extract_plan_def split: option.splits)
  with assms have own: "currentUserOwns ctx [nft_userId r]"
    by (auto simp: extract_plan_def split: if_splits)
  then obtain u where u: "ctx_userId ctx = Some u" "nft_userId r = Some u"
    by (auto simp: currentUserOwns_iff)
  from assms r own have code: "getDefaultExtractCode (am_accumulator r) (am_energy r) (am_extractedEnergy r) = Inr code"
    by (auto simp: extract_plan_def bind_res_Inr_iff split: if_splits)
  from assms r own code u(1) obtain user where user: "map_of (t_users d) u = Some user"
    by (auto simp: extract_plan_def simp del: currentUserOwns.simps split: option.splits)
  from assms r own code u(1) user obtain items
    where "select_items env d rs code = Inr items" and "plan_items d rs r items = Inr p"
    by (auto simp: extract_plan_def bind_res_Inr_iff simp del: currentUserOwns.simps split: if_splits)
  with r u code user that show thesis by simp
qed

lemma extract_plan_good:
  assumes "extract_plan env ctx am code cur rs d = Inr p" and "distinct (map fst (t_arcadeParts d))"
  shows "\<forall>k \<in> set (xp_arcadePartIDs p). good_part d k" and "\<forall>j \<in> set (xp_junks p). good_junk j"
  using extract_plan_steps [OF assms(1)] plan_items_good select_items_ranked assms(2) by metis+

lemma sorted_results_total:
  assumes "\<forall>k \<in> set (xp_arcadePartIDs p). good_part d k" and "\<forall>j \<in> set (xp_junks p). good_junk j"
    and "kinds_stable d d'" and "\<forall>k \<in> set (xp_arcadePartIDs p). map_of (t_arcadeParts d') k \<noteq> None"
  shows "\<exists>results. sorted_results d' p = Inr results"
proof -
  have "\<exists>y. rank_part d' k = Inr y" if k: "k \<in> set (xp_arcadePartIDs p)" for k
  proof -
    from assms(1) k obtain r q where r: "map_of (t_arcadeParts d) k = Some r"
      "getExtractPriority False (ap_category r) (ap_subCategory r) = Inr q" by (auto simp: good_part_def)
    from assms(4) k obtain r' where r': "map_of (t_arcadeParts d') k = Some r'" by blast
    from assms(3) r(1) r' have "ap_category r' = ap_category r \<and> ap_subCategory r' = ap_subCategory r"
      unfolding kinds_stable_def by blast
    with r r' show ?thesis by (simp add: rank_part_def)
  qed
  then obtain f where f: "\<And>k. k \<in> set (xp_arcadePartIDs p) \<Longrightarrow> rank_part d' k = Inr (f k)" by metis
  have "\<exists>y. rank_junk j = Inr y" if "j \<in> set (xp_junks p)" for j
    using assms(2) that by (auto simp: good_junk_def rank_junk_def split: prod.splits)
  then obtain g where g: "\<And>j. j \<in> set (xp_junks p) \<Longrightarrow> rank_junk j = Inr (g j)" by metis
  from map_res_total [of "xp_arcadePartIDs p" "rank_part d'" f, OF f]
    map_res_total [of "xp_junks p" rank_junk g, OF g] show ?thesis by (simp add: sorted_results_def)
qed

text \<open>The parts after a successful transaction are those before, with the chosen ones assigned.\<close>

lemma extract_tx_parts:
  assumes "run_tx (extract_queries env u am code cur p) d = Inr d'"
  shows "assigned env u (xp_arcadePartIDs p) d d'"
proof -
  from assms obtain d1 d2 d3 where 1: "run_tx (map (assign_part env u) (xp_arcadePartIDs p)) d = Inr d1"
    and 2: "run_tx (concat (map (move_junk u) (xp_junks p))) d1 = Inr d2"
    and 3: "consume_energy env am (xp_extractedEnergy p) code d2 = Inr d3" and 4: "pay_fee u cur d3 = Inr d'"
    by (rule extract_tx_steps)
  from pay_fee_Inr [OF 4] have "t_arcadeParts d' = t_arcadeParts d3" by (elim exE conjE) (metis db.select_convs(4) db.surjective put_users_def db.update_convs(1))
  moreover from consume_energy_Inr [OF 3] have "t_arcadeParts d3 = t_arcadeParts d2" by (elim exE conjE) (metis db.select_convs(4) db.surjective put_arcadeMachines_def db.update_convs(3))
  moreover have "t_arcadeParts (other_tables_2 d2) = t_arcadeParts (other_tables_2 d1)"
    using move_junks_frame [OF 2] by metis
  then have "t_arcadeParts d2 = t_arcadeParts d1" by (simp add: other_tables_2_def put_defs)
  ultimately show ?thesis using assign_parts_find [OF 1] by (simp add: assigned_def)
qed

lemma assigned_kinds: "assigned env u ks d d' \<Longrightarrow> kinds_stable d0 d \<Longrightarrow> kinds_stable d0 d'"
  unfolding kinds_stable_def assigned_def by (auto simp: owned_by_def split: if_splits)

end
