(* ===== verification/Extract_Props.thy ===== *)
theory Extract_Props
  imports Extract_Correct
begin

text \<open>The properties of extraction, each with an instance on the sample database.\<close>

definition zero_draws :: extract_draws where
  "zero_draws = \<lparr>xd_code = 0, xd_items = (\<lambda>_. 0), xd_parts = (\<lambda>_ _. 0)\<rparr>"

lemma zero_draws_valid: "valid_draws zero_draws"
  by (simp add: valid_draws_def zero_draws_def draw_def)

definition sample_plan :: extract_plan where
  "sample_plan = \<lparr>xp_arcadePartIDs = [''p1''], xp_junks = [], xp_arcadePartsCount = 1, xp_extractedEnergy = 0\<rparr>"

lemma sample_extract_plan:
  "extract_plan sample_env sample_ctx ''a1'' 2 FEE_TERAS zero_draws sample_db = Inr sample_plan"
  by code_simp

text \<open>
  (C1) An extraction delivers exactly as many items as the table gives for the code it settles
  on (and, for a base of 11 or 12, no more than the number of draws), never more of a kind than
  the box holds, and they are the best of what was drawn: the loop of the draws takes as many items as the
  code says, or the whole box, and every item it took is either delivered or has a priority no higher than
  any delivered one; the delivered items are in the order of priority, the highest first.
\<close>

theorem selected_items_spec:
  assumes "select_items env d rs dc = Inr items"
    and "valid_draws rs" and "extractJunkInventory_tab.all_ok d" and "priced_inventory d" and "0 \<le> dc"
  shows "\<exists>season box code cnt draws rest. getNowSeason env d = Inr season \<and> listBoxItems env d = Inr box \<and> dc \<le> code \<and>
    getExtractItemCount code (sn_baseExtractItemCount season) = Inr (Some cnt) \<and>
    int (length items) = min cnt code \<and>
    (sn_baseExtractItemCount season \<le> 10 \<longrightarrow> int (length items) = cnt) \<and>
    (\<forall>k. drawn k items \<le> stock k box) \<and>
    extract_loop (xd_items rs) (nat code) box (box_total box) [] = Inr draws \<and>
    int (length draws) = min code (box_total box) \<and>
    mset draws = mset (items @ rest) \<and>
    (\<forall>a \<in> set items. \<forall>b \<in> set rest. ei_priority b \<le> ei_priority a) \<and>
    sorted_wrt (\<lambda>a b. ei_priority a \<ge> ei_priority b) items"
proof -
  obtain season box code cnt all where f: "getNowSeason env d = Inr season" "listBoxItems env d = Inr box"
    and c: "getExtractItemCount code (sn_baseExtractItemCount season) = Inr (Some cnt)" "cnt \<le> box_total box"
      "dc \<le> code"
    and it: "items = take (nat cnt) all" and len: "int (length all) = min code (box_total box)"
    and dr: "\<forall>k. drawn k all \<le> stock k box" and so: "sorted_wrt (\<lambda>a b. ei_priority a \<ge> ei_priority b) all"
    and loop: "\<exists>draws. extract_loop (xd_items rs) (nat code) box (box_total box) [] = Inr draws \<and> mset draws = mset all"
    using select_items_all [OF assms] .
  from loop obtain draws where loop: "extract_loop (xd_items rs) (nat code) box (box_total box) [] = Inr draws"
    and ms: "mset draws = mset all" by blast
  have ld: "int (length draws) = min code (box_total box)" using len mset_eq_length [OF ms] by simp
  from best_kept [OF so ms, of "nat cnt"] obtain rest where rest: "mset draws = mset (items @ rest)"
    "\<forall>a \<in> set items. \<forall>b \<in> set rest. ei_priority b \<le> ei_priority a" unfolding it by blast
  have "1 \<le> cnt" using getExtractItemCount_bounds [OF c(1)] by simp
  then have l: "int (length items) = min cnt code" using it len c(2) by simp
  moreover have "drawn k items \<le> stock k box" for k
    using drawn_take [of k "nat cnt" all] dr [rule_format, of k] it by simp
  moreover have "sorted_wrt (\<lambda>a b. ei_priority a \<ge> ei_priority b) items"
    using so it by (simp add: sorted_wrt_take)
  moreover have "sn_baseExtractItemCount season \<le> 10 \<longrightarrow> int (length items) = cnt"
    using l getExtractItemCount_le_code [OF c(1)] by simp
  ultimately show ?thesis using f c loop ld rest by blast
qed

text \<open>
  An extraction that fails, before or in its transaction, leaves the database exactly as
  other requests left it: no part, junk, energy or fee is lost.
\<close>

lemma failed_extract_changes_nothing:
  assumes "execute_extract env ctx am code cur rs other d = (Inl e, d')"
    and "distinct (map fst (t_arcadeParts d))" and "kinds_stable d (other d)"
  shows "d' = d \<or> d' = other d"
proof (cases "extract_plan env ctx am code cur rs d")
  case (Inl e')
  with assms(1) show ?thesis by (simp add: execute_extract_def)
next
  case (Inr p)
  let ?u = "the (ctx_userId ctx)"
  show ?thesis
  proof (cases "run_tx (extract_queries env ?u am code cur p) (other d)")
    case (Inl e')
    with assms(1) Inr show ?thesis by (simp add: execute_extract_def extract_commit_def)
  next
    case tx: (Inr d2)
    note good = extract_plan_good [OF Inr assms(2)]
    note as = extract_tx_parts [OF tx]
    have "kinds_stable d d2" using assigned_kinds [OF as assms(3)] .
    moreover have "\<forall>k \<in> set (xp_arcadePartIDs p). map_of (t_arcadeParts d2) k \<noteq> None"
    proof
      fix k assume "k \<in> set (xp_arcadePartIDs p)"
      with as obtain r where "map_of (t_arcadeParts (other d)) k = Some r"
        and "map_of (t_arcadeParts d2) k = map_option (owned_by env ?u) (map_of (t_arcadeParts (other d)) k)"
        by (auto simp: assigned_def)
      then show "map_of (t_arcadeParts d2) k \<noteq> None" by simp
    qed
    ultimately obtain results where "sorted_results d2 p = Inr results"
      using sorted_results_total [OF good] by blast
    with assms(1) Inr tx show ?thesis by (simp add: execute_extract_def extract_commit_def)
  qed
qed

lemma sample_distinct_parts: "distinct (map fst (t_arcadeParts sample_db))"
  by (simp add: sample_defs)

lemma kinds_stable_refl: "kinds_stable d d"
  by (simp add: kinds_stable_def)

lemma sample_extract_stale:
  "execute_extract sample_env sample_ctx ''a1'' 3 FEE_TERAS zero_draws (\<lambda>d. d) sample_db =
     (Inl StateChangeUseCaseError, sample_db)"
proof -
  have "extract_plan sample_env sample_ctx ''a1'' 3 FEE_TERAS zero_draws sample_db = Inl StateChangeUseCaseError"
    by code_simp
  then show ?thesis by (simp add: execute_extract_def)
qed

lemma failed_extract_changes_nothing_witness:
  "snd (execute_extract sample_env sample_ctx ''a1'' 3 FEE_TERAS zero_draws (\<lambda>d. d) sample_db) = sample_db"
  using failed_extract_changes_nothing [OF sample_extract_stale sample_distinct_parts kinds_stable_refl]
    sample_extract_stale by simp

text \<open>
  The abstract specification of a successful extraction of \<open>items\<close>, between the database \<open>d\<close> that was
  read, \<open>d1\<close> at the time of the transaction and \<open>d'\<close> after it: the fee, the energy, the junk in the box and in
  everybody's hands, the parts \<open>ids\<close>, one for each selected part and of its kind, and the line of the history.
\<close>

definition junk_count :: "extracted_item list \<Rightarrow> part_key \<Rightarrow> nat" where
  "junk_count items k = length (filter (\<lambda>i. ei_isJunk i \<and> part_key i = k) items)"

definition paid_extract :: "user_id \<Rightarrow> FeeCurrencyType \<Rightarrow> db \<Rightarrow> db \<Rightarrow> bool" where
  "paid_extract u cur d1 d' \<longleftrightarrow>
     (\<exists>user. map_of (t_users d1) u = Some user \<and> fee_of cur FEE_TERAS \<le> terasBalance user \<and>
        fee_of cur FEE_AKV \<le> akvBalance user \<and>
        (\<forall>k. map_of (t_users d') k = (if k = u
           then Some (user\<lparr>terasBalance := terasBalance user - fee_of cur FEE_TERAS,
                           akvBalance := akvBalance user - fee_of cur FEE_AKV\<rparr>)
           else map_of (t_users d1) k)))"

definition spent_energy :: "env \<Rightarrow> user_id \<Rightarrow> nft_id \<Rightarrow> int \<Rightarrow> db \<Rightarrow> db \<Rightarrow> db \<Rightarrow> bool" where
  "spent_energy env u am code d d1 d' \<longleftrightarrow>
     (\<exists>r0 r. map_of (t_arcadeMachines d) am = Some r0 \<and> nft_userId r0 = Some u \<and>
        map_of (t_arcadeMachines d1) am = Some r \<and> am_extractedEnergy r = am_extractedEnergy r0 \<and>
        (\<forall>k. map_of (t_arcadeMachines d') k = (if k = am
           then Some (r\<lparr>am_extractedEnergy := am_extractedEnergy r0 + code * EXTRACT_BASE_ENERGY,
                        nft_updatedAt := env_now env\<rparr>)
           else map_of (t_arcadeMachines d1) k)))"

definition junk_delivered :: "user_id \<Rightarrow> extracted_item list \<Rightarrow> db \<Rightarrow> db \<Rightarrow> bool" where
  "junk_delivered u items d1 d' \<longleftrightarrow>
     (\<forall>k. 0 < junk_count items k \<longrightarrow>
        (\<exists>a. map_of (t_extractJunkInventories d1) k = Some a \<and> int (junk_count items k) \<le> a)) \<and>
     (\<forall>k. map_of (t_extractJunkInventories d') k =
        map_option (\<lambda>a. a - int (junk_count items k)) (map_of (t_extractJunkInventories d1) k)) \<and>
     (\<forall>v k. map_of (t_junks d') (v, k) = (if v = u \<and> 0 < junk_count items k
        then Some (int (junk_count items k) + (case map_of (t_junks d1) (v, k) of None \<Rightarrow> 0 | Some a \<Rightarrow> a))
        else map_of (t_junks d1) (v, k)))"

definition extract_row_of :: "user_id \<Rightarrow> nft_id \<Rightarrow> nft_id list \<Rightarrow> extracted_item list \<Rightarrow> db \<Rightarrow> extract_row \<Rightarrow> bool" where
  "extract_row_of u am ids items d row \<longleftrightarrow> ex_userId row = u \<and> ex_arcadeMachineId row = am \<and>
     ex_arcadePartsCount row = int (length (filter (\<lambda>i. \<not> ei_isJunk i) items)) \<and>
     ex_junkPartsCount row = int (length (filter ei_isJunk items)) \<and>
     mset (ex_detail row) = mset (map (part_detail d) ids @
       map (\<lambda>((c, s), n). JunkPartDetail c s n) (countOfParts (filter ei_isJunk items)))"

definition extract_spec ::
  "env \<Rightarrow> user_id \<Rightarrow> nft_id \<Rightarrow> int \<Rightarrow> FeeCurrencyType \<Rightarrow> extracted_item list \<Rightarrow> db \<Rightarrow> db \<Rightarrow> extracted list \<Rightarrow> db \<Rightarrow> bool" where
  "extract_spec env u am code cur items d d1 ret d' \<longleftrightarrow>
     paid_extract u cur d1 d' \<and> spent_energy env u am code d d1 d' \<and> junk_delivered u items d1 d' \<and>
     (\<exists>ids row. assigned env u ids d1 d' \<and>
        mset (map (part_kind d) ids) = mset (map (\<lambda>i. Some (part_key i)) (filter (\<lambda>i. \<not> ei_isJunk i) items)) \<and>
        mset ret = mset (map ExtractedPart ids @
          map (\<lambda>i. ExtractedJunk (ei_category i) (ei_subCategory i)) (filter ei_isJunk items)) \<and>
        t_extracts d' = t_extracts d1 @ [row] \<and> extract_row_of u am ids items d' row) \<and>
     d' = d1\<lparr>t_users := t_users d', t_arcadeMachines := t_arcadeMachines d', t_arcadeParts := t_arcadeParts d',
       t_junks := t_junks d', t_extractJunkInventories := t_extractJunkInventories d', t_extracts := t_extracts d'\<rparr>"

lemma extract_spec_machine:
  "extract_spec env u am code cur items d d1 ret d' \<Longrightarrow> map_of (t_arcadeMachines d) am = Some r0 \<Longrightarrow>
     \<exists>r. map_of (t_arcadeMachines d') am = Some r \<and>
       am_extractedEnergy r = am_extractedEnergy r0 + code * EXTRACT_BASE_ENERGY"
  unfolding extract_spec_def spent_energy_def by (elim exE conjE) simp

text \<open>The transaction of an extraction.\<close>

lemma junk_count_map_of:
  "map_of (countOfParts (filter ei_isJunk items)) k = (if junk_count items k = 0 then None else Some (junk_count items k))"
  by (simp add: countOfParts_spec junk_count_def Let_def conj_commute)

lemma junk_moved_delivered:
  assumes "junk_moved u (countOfParts (filter ei_isJunk items)) d d'"
  shows "junk_delivered u items d d'"
  unfolding junk_delivered_def
proof (intro conjI allI impI)
  note m = junk_movedD [OF assms]
  show "\<exists>a. map_of (t_extractJunkInventories d) k = Some a \<and> int (junk_count items k) \<le> a" if "0 < junk_count items k" for k
    using m(1) [of k "junk_count items k"] that by (simp add: junk_count_map_of)
  show "map_of (t_extractJunkInventories d') k =
      map_option (\<lambda>a. a - int (junk_count items k)) (map_of (t_extractJunkInventories d) k)" for k
    by (simp add: m(2) junk_left_def junk_count_map_of option.map_ident)
  show "map_of (t_junks d') (v, k) = (if v = u \<and> 0 < junk_count items k
      then Some (int (junk_count items k) + (case map_of (t_junks d) (v, k) of None \<Rightarrow> 0 | Some a \<Rightarrow> a))
      else map_of (t_junks d) (v, k))" for v k
    by (simp add: m(3) junk_held_def junk_count_map_of)
qed

lemma extract_tx_frame:
  assumes tx: "run_tx (extract_queries env u am code cur p) e = Inr d" and "distinct (map fst (xp_junks p))"
  shows "d = e\<lparr>t_users := t_users d, t_arcadeMachines := t_arcadeMachines d, t_arcadeParts := t_arcadeParts d,
       t_junks := t_junks d, t_extractJunkInventories := t_extractJunkInventories d\<rparr>"
    and "junk_moved u (xp_junks p) e d" and "paid_extract u cur e d"
    and "map_of (t_arcadeMachines e0) am = Some r0 \<Longrightarrow> nft_userId r0 = Some u \<Longrightarrow>
      xp_extractedEnergy p = am_extractedEnergy r0 \<Longrightarrow> spent_energy env u am code e0 e d"
proof -
  from tx obtain d1 d2 d3 where 1: "run_tx (map (assign_part env u) (xp_arcadePartIDs p)) e = Inr d1"
    and 2: "run_tx (concat (map (move_junk u) (xp_junks p))) d1 = Inr d2"
    and 3: "consume_energy env am (xp_extractedEnergy p) code d2 = Inr d3" and 4: "pay_fee u cur d3 = Inr d"
    by (rule extract_tx_steps)
  note e1 = other_tables_1_eq [OF assign_parts_frame [OF 1]]
  note e2 = other_tables_2_eq [OF move_junks_frame [OF 2]]
  from consume_energy_Inr [OF 3] have e3: "d3 = d2\<lparr>t_arcadeMachines := t_arcadeMachines d3\<rparr>" by (auto simp: put_defs)
  from pay_fee_Inr [OF 4] have e4: "d = d3\<lparr>t_users := t_users d\<rparr>" by (auto simp: put_defs)
  have t1: "t_users d1 = t_users e" "t_arcadeMachines d1 = t_arcadeMachines e" "t_junks d1 = t_junks e"
    "t_extractJunkInventories d1 = t_extractJunkInventories e"
    by (subst e1, simp)+
  have t2: "t_users d2 = t_users e" "t_arcadeMachines d2 = t_arcadeMachines e" "t_arcadeParts d2 = t_arcadeParts d1"
    by (subst e2, simp add: t1)+
  have t3: "t_users d3 = t_users e" "t_arcadeParts d3 = t_arcadeParts d1" "t_junks d3 = t_junks d2"
    "t_extractJunkInventories d3 = t_extractJunkInventories d2"
    by (subst e3, simp add: t2)+
  have t4: "t_arcadeMachines d = t_arcadeMachines d3" "t_arcadeParts d = t_arcadeParts d1" "t_junks d = t_junks d2"
    "t_extractJunkInventories d = t_extractJunkInventories d2"
    by (subst e4, simp add: t3)+
  note t3 = t1 t2 t3 t4
  show "d = e\<lparr>t_users := t_users d, t_arcadeMachines := t_arcadeMachines d, t_arcadeParts := t_arcadeParts d,
       t_junks := t_junks d, t_extractJunkInventories := t_extractJunkInventories d\<rparr>"
    unfolding t4 by (subst e4, subst e3, subst e2, subst e1) simp
  show "junk_moved u (xp_junks p) e d"
    using move_junks [OF 2 assms(2)] unfolding junk_moved_def junk_left_def junk_held_def t3 .
  show "paid_extract u cur e d" using pay_fee_Inr [OF 4] unfolding paid_extract_def t3 by blast
  show "spent_energy env u am code e0 e d" if "map_of (t_arcadeMachines e0) am = Some r0" "nft_userId r0 = Some u"
    "xp_extractedEnergy p = am_extractedEnergy r0"
    using consume_energy_Inr [OF 3] that unfolding spent_energy_def t3 by auto
qed

lemma extract_tx_spec:
  assumes tx: "run_tx (extract_queries env u am code cur p) e = Inr d0" and res: "sorted_results d0 p = Inr results"
    and r0: "map_of (t_arcadeMachines d) am = Some r0" "nft_userId r0 = Some u"
    and plan: "plan_items d rs r0 items = Inr p" and dr: "\<And>k i. draw (xd_parts rs k i)"
    and di: "distinct (map fst (t_arcadeParts d))"
  shows "extract_spec env u am code cur items d e (extract_answer results)
    (d0\<lparr>t_extracts := t_extracts d0 @ [\<lparr>ex_userId = u, ex_arcadeMachineId = am,
        ex_arcadePartsCount = xp_arcadePartsCount p, ex_junkPartsCount = int (sum_list (map snd (xp_junks p))),
        ex_detail = makeExtractDetail d0 results (xp_junks p)\<rparr>]\<rparr>)"
    (is "extract_spec _ _ _ _ _ _ _ _ _ ?d'")
proof -
  note k = plan_kinds [OF plan dr di]
  have e0: "xp_extractedEnergy p = am_extractedEnergy r0"
    using plan by (auto simp: plan_items_def Let_def bind_res_Inr_iff)
  have "distinct (map fst (xp_junks p))" unfolding k(2) by (rule countOfParts_distinct)
  note f = extract_tx_frame [OF tx this]
  note l = results_lists [OF res]
  have t: "t_extracts d0 = t_extracts e" by (subst f(1)) simp
  let ?row = "\<lparr>ex_userId = u, ex_arcadeMachineId = am,
        ex_arcadePartsCount = xp_arcadePartsCount p, ex_junkPartsCount = int (sum_list (map snd (xp_junks p))),
        ex_detail = makeExtractDetail d0 results (xp_junks p)\<rparr>"
  have "paid_extract u cur e ?d'" using f(3) by (simp add: paid_extract_def)
  moreover have "spent_energy env u am code d e ?d'" using f(4) [OF r0 e0] by (simp add: spent_energy_def)
  moreover have "junk_delivered u items e ?d'"
    using junk_moved_delivered [OF f(2) [unfolded k(2)]] by (simp add: junk_delivered_def)
  moreover have "assigned env u (xp_arcadePartIDs p) e ?d'" using extract_tx_parts [OF tx] by (simp add: assigned_def)
  moreover have "mset (extract_answer results) = mset (map ExtractedPart (xp_arcadePartIDs p) @
      map (\<lambda>i. ExtractedJunk (ei_category i) (ei_subCategory i)) (filter ei_isJunk items))"
    using l(1) countOfParts_expand [of "\<lambda>(c, s). ExtractedJunk c s" "filter ei_isJunk items"]
    unfolding k(2) by (simp add: part_key_def case_prod_unfold)
  moreover have "extract_row_of u am (xp_arcadePartIDs p) items ?d' ?row"
    using l(2) k(2,3) countOfParts_total [of "filter ei_isJunk items"]
    by (simp add: extract_row_of_def part_detail_def [abs_def])
  moreover have "t_extracts ?d' = t_extracts e @ [?row]" by (simp add: t)
  moreover have "?d' = e\<lparr>t_users := t_users ?d', t_arcadeMachines := t_arcadeMachines ?d', t_arcadeParts := t_arcadeParts ?d',
       t_junks := t_junks ?d', t_extractJunkInventories := t_extractJunkInventories ?d', t_extracts := t_extracts ?d'\<rparr>"
    by (subst f(1)) simp
  ultimately show ?thesis using k(1) unfolding extract_spec_def by blast
qed

text \<open>
  (C3) A successful extraction delivers exactly the selected items.  It takes the fee from the user and nothing
  else from anyone; adds the spent energy to the machine whose spent energy must be what it was when it was read;
  takes every selected piece of junk out of the box, which holds enough of it, and gives it to the user, and no
  other junk moves; gives the user parts that nobody had, as many of each kind as were selected, and touches no other
  part; answers with these parts and this junk; adds one line with them to the history; and changes no other table.
\<close>

theorem extract_success:
  assumes "execute_extract env ctx am code cur rs other d = (Inr ret, d')" and "ctx_userId ctx = Some u"
    and "valid_draws rs" and "distinct (map fst (t_arcadeParts d))"
  shows "\<exists>items. select_items env d rs code = Inr items \<and> extract_spec env u am code cur items d (other d) ret d'"
proof -
  from assms(1) obtain p where p: "extract_plan env ctx am code cur rs d = Inr p"
    by (auto simp: execute_extract_def split: sum.splits)
  with assms(1,2) obtain d0 results where tx: "run_tx (extract_queries env u am code cur p) (other d) = Inr d0"
    and res: "sorted_results d0 p = Inr results" and ret: "ret = extract_answer results"
    and d': "d' = d0\<lparr>t_extracts := t_extracts d0 @ [\<lparr>ex_userId = u, ex_arcadeMachineId = am,
        ex_arcadePartsCount = xp_arcadePartsCount p, ex_junkPartsCount = int (sum_list (map snd (xp_junks p))),
        ex_detail = makeExtractDetail d0 results (xp_junks p)\<rparr>]\<rparr>"
    by (auto simp: execute_extract_def extract_commit_def split: sum.splits)
  from extract_plan_steps [OF p] obtain r0 items where r0: "map_of (t_arcadeMachines d) am = Some r0"
    and own: "nft_userId r0 = Some u" and it: "select_items env d rs code = Inr items" "plan_items d rs r0 items = Inr p"
    using assms(2) by (metis option.inject)
  have dr: "\<And>k i. draw (xd_parts rs k i)" using assms(3) unfolding valid_draws_def by blast
  show ?thesis
    using extract_tx_spec [OF tx res r0 own it(2) dr assms(4)] it(1) unfolding d' ret by blast
qed

lemma sample_extract_success:
  "\<exists>d'. execute_extract sample_env sample_ctx ''a1'' 2 FEE_TERAS zero_draws (\<lambda>d. d) sample_db =
     (Inr [ExtractedPart ''p1''], d')"
proof -
  have "fst (execute_extract sample_env sample_ctx ''a1'' 2 FEE_TERAS zero_draws (\<lambda>d. d) sample_db) =
      Inr [ExtractedPart ''p1'']"
    by code_simp
  then show ?thesis by (metis prod.collapse)
qed

theorem extract_success_witness:
  "\<exists>d' r. execute_extract sample_env sample_ctx ''a1'' 2 FEE_TERAS zero_draws (\<lambda>d. d) sample_db =
     (Inr [ExtractedPart ''p1''], d') \<and>
     map_of (t_arcadeMachines d') ''a1'' = Some r \<and> am_extractedEnergy r = 20000"
proof -
  obtain d' where d': "execute_extract sample_env sample_ctx ''a1'' 2 FEE_TERAS zero_draws (\<lambda>d. d) sample_db =
     (Inr [ExtractedPart ''p1''], d')"
    using sample_extract_success by blast
  have "ctx_userId sample_ctx = Some ''u1''" by (simp add: sample_ctx_def)
  from extract_success [OF d' this zero_draws_valid sample_distinct_parts] obtain items where
    "extract_spec sample_env ''u1'' ''a1'' 2 FEE_TERAS items sample_db sample_db [ExtractedPart ''p1''] d'" by blast
  from extract_spec_machine [OF this] d' show ?thesis
    by (simp add: sample_defs EXTRACT_BASE_ENERGY_def)
qed

text \<open>
  (C7) Energy is never spent twice: if the machine's energy only grew while the extraction ran,
  then after a successful extraction the energy spent in total is still at most the energy earned,
  whatever other extractions did in between.
\<close>

theorem energy_never_overspent:
  assumes "execute_extract env ctx am code cur rs other d = (Inr ret, d')"
    and "map_of (t_arcadeMachines d) am = Some r0" and "map_of (t_arcadeMachines (other d)) am = Some r"
    and "am_energy r0 \<le> am_energy r"
  shows "\<exists>r'. map_of (t_arcadeMachines d') am = Some r' \<and> am_extractedEnergy r' \<le> am_energy r' \<and>
    am_extractedEnergy r0 + 20000 \<le> am_extractedEnergy r'"
proof -
  from assms(1) obtain p where p: "extract_plan env ctx am code cur rs d = Inr p"
    by (auto simp: execute_extract_def split: sum.splits)
  from assms(1) p obtain d0 where tx: "run_tx (extract_queries env (the (ctx_userId ctx)) am code cur p) (other d) = Inr d0"
    and d': "t_arcadeMachines d' = t_arcadeMachines d0"
    by (auto simp: execute_extract_def extract_commit_def split: sum.splits)
  from extract_plan_steps [OF p] assms(2) obtain items
    where code: "getDefaultExtractCode (am_accumulator r0) (am_energy r0) (am_extractedEnergy r0) = Inr code"
    and "plan_items d rs r0 items = Inr p"
    by (metis option.inject)
  then have e0: "xp_extractedEnergy p = am_extractedEnergy r0"
    by (auto simp: plan_items_def Let_def bind_res_Inr_iff)
  from getDefaultExtractCode_Inr [OF code] obtain m q where m: "accumulators (am_accumulator r0) = Some m"
    and q: "code * EXTRACT_BASE_ENERGY = q * extractableEnergy m" "1 \<le> q"
      "q * extractableEnergy m \<le> am_energy r0 - am_extractedEnergy r0" by metis
  have "1 * extractableEnergy m \<le> q * extractableEnergy m"
    using q(2) accumulator_energy(2) [OF m] by (intro mult_right_mono) auto
  with q accumulator_energy(2) [OF m]
  have spent: "20000 \<le> code * EXTRACT_BASE_ENERGY" "am_extractedEnergy r0 + code * EXTRACT_BASE_ENERGY \<le> am_energy r0"
    by linarith+
  from tx obtain d1 d2 d3 where 1: "run_tx (map (assign_part env (the (ctx_userId ctx))) (xp_arcadePartIDs p)) (other d) = Inr d1"
    and 2: "run_tx (concat (map (move_junk (the (ctx_userId ctx))) (xp_junks p))) d1 = Inr d2"
    and 3: "consume_energy env am (xp_extractedEnergy p) code d2 = Inr d3"
    and 4: "pay_fee (the (ctx_userId ctx)) cur d3 = Inr d0"
    by (rule extract_tx_steps)
  have o2: "other_tables_2 d2 = other_tables_2 d1" using move_junks_frame [OF 2] by blast
  have "t_arcadeMachines d2 = t_arcadeMachines (other d)"
    using arg_cong [OF o2, of t_arcadeMachines] arg_cong [OF assign_parts_frame [OF 1], of t_arcadeMachines]
    by (simp add: other_tables_1_def other_tables_2_def put_defs)
  with consume_energy_Inr [OF 3] assms(3)
  have "map_of (t_arcadeMachines d3) am = Some (r\<lparr>am_extractedEnergy := am_extractedEnergy r0 + code * EXTRACT_BASE_ENERGY,
      nft_updatedAt := env_now env\<rparr>)"
    unfolding e0 by (elim exE conjE) simp
  moreover from pay_fee_Inr [OF 4] have "t_arcadeMachines d0 = t_arcadeMachines d3"
    by (elim exE conjE) (metis db.select_convs(3) db.surjective put_users_def db.update_convs(1))
  ultimately show ?thesis using d' spent assms(4) by simp
qed

theorem energy_never_overspent_witness:
  "\<exists>d' r'. execute_extract sample_env sample_ctx ''a1'' 2 FEE_TERAS zero_draws (\<lambda>d. d) sample_db =
     (Inr [ExtractedPart ''p1''], d') \<and>
     map_of (t_arcadeMachines d') ''a1'' = Some r' \<and> am_extractedEnergy r' \<le> am_energy r'"
proof -
  obtain d' where d': "execute_extract sample_env sample_ctx ''a1'' 2 FEE_TERAS zero_draws (\<lambda>d. d) sample_db =
     (Inr [ExtractedPart ''p1''], d')"
    using sample_extract_success by blast
  have a: "map_of (t_arcadeMachines sample_db) ''a1'' = Some (sample_machine ''u1'' 20000 None)"
    by (simp add: sample_db_def)
  from energy_never_overspent [OF d' a a] d' show ?thesis by blast
qed

text \<open>
  A part that somebody else takes between the choice and the transaction makes the whole
  extraction fail with the database's own not-found error and without a retry: only an error that
  is translated to a conflict is retried, and this one is not.
\<close>

lemma taken_part_not_retried:
  assumes "extract_plan env ctx am code cur (rs 0) d = Inr p" and "xp_arcadePartIDs p = k # ks"
    and "map_of (t_arcadeParts (other 0 d)) k = Some r" and "nft_userId r \<noteq> None"
  shows "extract_usecase env ctx am code cur rs other d =
    (Inl (PrismaKnownRequestError ''P2025''), other 0 d)"
proof -
  have "assign_part env (the (ctx_userId ctx)) k (other 0 d) = Inl (PrismaKnownRequestError ''P2025'')"
    unfolding assign_part_def by (rule arcadePart_tab.update_missed) (use assms(3,4) in simp)
  then have "run_tx (extract_queries env (the (ctx_userId ctx)) am code cur p) (other 0 d) =
      Inl (PrismaKnownRequestError ''P2025'')"
    using assms(2) by (simp add: extract_queries_def)
  with assms(1) show ?thesis
    by (simp add: extract_usecase_def execute_extract_def extract_commit_def extract_error_def)
qed

definition sample_taken :: "nat \<Rightarrow> db \<Rightarrow> db" where
  "sample_taken n d = d\<lparr>t_arcadeParts := [(''p1'', sample_part (Some ''u2'') ROM ''BUBBLE_ATTACK'')]\<rparr>"

lemma taken_part_not_retried_witness:
  "extract_usecase sample_env sample_ctx ''a1'' 2 FEE_TERAS (\<lambda>_. zero_draws) sample_taken sample_db =
    (Inl (PrismaKnownRequestError ''P2025''), sample_taken 0 sample_db)"
  by (rule taken_part_not_retried [OF sample_extract_plan,
        where r = "sample_part (Some ''u2'') ROM ''BUBBLE_ATTACK''" and ks = "[]"])
    (simp_all add: sample_plan_def sample_taken_def sample_part_def)

text \<open>
  For every season base the table has, the randomised code of any default code an
  accumulator can give has an entry, so an extraction of a machine that holds at most its tank
  fails to find a count only when the box has too few items.
\<close>

lemma extract_code_always_in_table:
  assumes "accumulators s = Some m" and "getDefaultExtractCode s energy extracted = Inr dc"
    and "energy - extracted \<le> tankCapacity m" and "4 \<le> base" and "base \<le> 12" and "draw r"
  shows "choose_code (dc + getRandomInt r 0 3) dc base n = Inl ExtractItemInsufficientUseCaseError \<or>
    (\<exists>c cnt. choose_code (dc + getRandomInt r 0 3) dc base n = Inr (c, cnt) \<and> c \<in> {dc..dc + 3} \<and> cnt \<le> n)"
proof -
  from default_code_bounds [OF assms(2,1,3)] have dc: "1 \<le> dc" "dc \<le> 15" by simp_all
  have "0 \<le> getRandomInt r 0 3" and "getRandomInt r 0 3 \<le> 3"
    using getRandomInt_bounds [OF assms(6), of 0 3] by simp_all
  with choose_code_defined [OF assms(4,5) dc assms(6), of n] choose_code_Inr show ?thesis
    by fastforce
qed

lemma extract_code_always_in_table_witness:
  "choose_code (15 + getRandomInt 0 0 3) 15 12 40 = Inl ExtractItemInsufficientUseCaseError \<or>
    (\<exists>c cnt. choose_code (15 + getRandomInt 0 0 3) 15 12 40 = Inr (c, cnt) \<and> c \<in> {15..15 + 3} \<and> cnt \<le> 40)"
proof -
  obtain m where m: "accumulators ''RYGEN_NA_3'' = Some m" "tankCapacity m = 150000"
    by (simp add: accumulators_def accumulators_table_unfold)
  have "getDefaultExtractCode ''RYGEN_NA_3'' 150000 0 = Inr 15" by code_simp
  from extract_code_always_in_table [OF m(1) this, of 12 0 40] m(2) show ?thesis by (simp add: draw_def)
qed

theorem selected_items_spec_witness:
  "\<exists>items season box code cnt. select_items sample_env sample_db zero_draws 2 = Inr items \<and>
    getNowSeason sample_env sample_db = Inr season \<and> listBoxItems sample_env sample_db = Inr box \<and> 2 \<le> code \<and>
    getExtractItemCount code (sn_baseExtractItemCount season) = Inr (Some cnt) \<and>
    int (length items) = min cnt code"
proof -
  have "case select_items sample_env sample_db zero_draws 2 of Inl _ \<Rightarrow> False | Inr _ \<Rightarrow> True"
    by code_simp
  then obtain items where i: "select_items sample_env sample_db zero_draws 2 = Inr items"
    by (auto split: sum.splits)
  have j: "extractJunkInventory_tab.all_ok sample_db"
    by (simp add: extractJunkInventory_tab.all_ok_def sample_db_def)
  have "priced_inventory sample_db"
    by (simp add: priced_inventory_def sample_db_def getExtractPriority_def
        ExtractPriorityOfArcadePartMap_def ExtractPriorityOfJunkPartMap_def)
  from selected_items_spec [OF i zero_draws_valid j this] i show ?thesis by fastforce
qed

end
