(* ===== verification/Nft_Transfers.thy ===== *)
theory Nft_Transfers
  imports Tables
begin

text \<open>
  Moving NFTs and currencies between the world and the blockchain:
  \<open>src/helpers/validate_item_owner.ts\<close>, \<open>withdraw.ts\<close>, \<open>deposit.ts\<close> and
  \<open>burn.ts\<close>.  The rows passed in were read earlier (with their user), so every operation
  takes those rows and the database at the time of its writes.  \<open>newId\<close> gives the ids the
  database generates.  The life of an NFT is the step relation \<open>nft_step\<close>.
\<close>

section \<open>Ownership\<close>

type_synonym owner = "user_id \<times> wallet option"

definition user_of :: "db \<Rightarrow> 'a nft_scheme \<Rightarrow> owner option" where
  "user_of d r =
     (case nft_userId r of None \<Rightarrow> None
      | Some u \<Rightarrow> map_option (\<lambda>x. (u, u_walletAddress x)) (map_of (t_users d) u))"

definition validateItemOwner :: "user_id option \<Rightarrow> wallet option \<Rightarrow> owner option \<Rightarrow> (wallet \<times> user_id option) res" where
  "validateItemOwner userId ownerWalletAddress user =
     (case user of
        Some (uid, walletAddress) \<Rightarrow>
          if Some uid \<noteq> userId
          then Inl (IllegalStateUseCaseError ''User ID doesn't match userId of NFT.'')
          else if \<not> isWalletAddressEqual walletAddress ownerWalletAddress
          then Inl (IllegalStateUseCaseError ''User.walletAddress does not match ownerWalletAddress of NFT'')
          else if \<not> truthy ownerWalletAddress
          then Inl (IllegalStateUseCaseError ''User.walletAddress is not set.'')
          else Inr (the ownerWalletAddress, userId)
      | None \<Rightarrow>
          if truthy userId then Inl (IllegalStateUseCaseError ''User is missing.'')
          else if \<not> truthy ownerWalletAddress
          then Inl (IllegalStateUseCaseError ''User.walletAddress is not set.'')
          else Inr (the ownerWalletAddress, userId))"

lemma validateItemOwner_Inr:
  "validateItemOwner userId w user = Inr (a, u) \<Longrightarrow> w = Some a \<and> a \<noteq> [] \<and> u = userId \<and>
     (\<forall>uid wa. user = Some (uid, wa) \<longrightarrow> userId = Some uid \<and> map_option toLowerCase wa = Some (toLowerCase a))"
  by (cases w) (auto simp: validateItemOwner_def isWalletAddressEqual_iff split: option.splits if_splits)

section \<open>The NFT tables\<close>

definition set_state :: "env \<Rightarrow> NftState \<Rightarrow> 'a nft_scheme \<Rightarrow> 'a nft_scheme" where
  "set_state env s r = r\<lparr>nft_state := s, nft_updatedAt := env_now env\<rparr>"

text \<open>\<open>getDao\<close>: the table of an NFT type, here for the queries that the helpers make.\<close>

fun find_nft :: "NftType \<Rightarrow> nft_id \<Rightarrow> db \<Rightarrow> nft option" where
  "find_nft ARCADE_MACHINE k d = map_option nft.truncate (map_of (t_arcadeMachines d) k)"
| "find_nft GAME_CENTER k d = map_option nft.truncate (map_of (t_gameCenters d) k)"
| "find_nft ARCADE_PART k d = map_option nft.truncate (map_of (t_arcadeParts d) k)"

fun update_nft_state :: "env \<Rightarrow> NftType \<Rightarrow> nft_id \<Rightarrow> NftState \<Rightarrow> date \<Rightarrow> NftState \<Rightarrow> query" where
  "update_nft_state env ARCADE_MACHINE k s t s' =
     update_arcadeMachine k (\<lambda>r. nft_state r = s \<and> nft_updatedAt r = t) (set_state env s')"
| "update_nft_state env GAME_CENTER k s t s' =
     update_gameCenter k (\<lambda>r. nft_state r = s \<and> nft_updatedAt r = t) (set_state env s')"
| "update_nft_state env ARCADE_PART k s t s' =
     update_arcadePart k (\<lambda>r. nft_state r = s \<and> nft_updatedAt r = t) (set_state env s')"

fun revert_nft_state :: "env \<Rightarrow> NftType \<Rightarrow> nft_id \<Rightarrow> date \<Rightarrow> NftState \<Rightarrow> query" where
  "revert_nft_state env ARCADE_MACHINE k t s' =
     update_many t_arcadeMachines put_arcadeMachines check_arcadeMachine
       (\<lambda>k' r. k' = k \<and> nft_updatedAt r = t) (set_state env s')"
| "revert_nft_state env GAME_CENTER k t s' =
     update_many t_gameCenters put_gameCenters check_gameCenter
       (\<lambda>k' r. k' = k \<and> nft_updatedAt r = t) (set_state env s')"
| "revert_nft_state env ARCADE_PART k t s' =
     update_many t_arcadeParts put_arcadeParts no_check
       (\<lambda>k' r. k' = k \<and> nft_updatedAt r = t) (set_state env s')"

section \<open>Withdrawals\<close>

definition new_withdrawal :: "nft_id \<Rightarrow> NftType \<Rightarrow> user_id option \<Rightarrow> wallet \<Rightarrow> withdrawal_row" where
  "new_withdrawal k ty u w = \<lparr>wd_tokenId = k, wd_nftType = ty, wd_userId = u, wd_walletAddress = w,
     wd_state = W_UNPROCESSED, wd_type = None, wd_hash = None\<rparr>"

text \<open>The transaction that both withdraw functions end with.\<close>

definition withdraw_tx :: "query list \<Rightarrow> string list \<Rightarrow> db \<Rightarrow> string list res \<times> db" where
  "withdraw_tx queries ids d =
     (case run_tx queries d of
        Inl e \<Rightarrow>
          (Inl (if e = PrismaKnownRequestError ''P2025''
                then ConflictUseCaseError ''The data was updated during processing.'' else e), d)
      | Inr d' \<Rightarrow> (Inr ids, d'))"

definition check_machine_withdrawal :: "owner option \<Rightarrow> arcade_machine_row \<Rightarrow> unit res" where
  "check_machine_withdrawal user r =
     bind_res (validateItemOwner (nft_userId r) (nft_ownerWallet r) user) (\<lambda>_.
     if nft_state r \<noteq> IN_AKIVERSE
     then Inl (IllegalStateUseCaseError ''NFT cannot be withdrawn in this state'')
     else if truthy (am_gameCenterId r) \<or> am_position r \<noteq> None
     then Inl (IllegalStateUseCaseError ''Cannot withdraw Arcade Machine that is placed.'')
     else Inr ())"

definition machine_withdrawal_queries ::
  "env \<Rightarrow> string \<times> nft_id \<times> arcade_machine_row \<Rightarrow> query list" where
  "machine_withdrawal_queries env x =
     (case x of (wid, k, r) \<Rightarrow>
        [update_arcadeMachine k
           (\<lambda>r'. am_gameCenterId r' = am_gameCenterId r \<and> am_position r' = am_position r \<and>
                 nft_state r' = nft_state r \<and> nft_updatedAt r' = nft_updatedAt r)
           (set_state env MOVING_TO_WALLET),
         create_withdrawal wid
           (new_withdrawal k ARCADE_MACHINE (nft_userId r) (the (nft_ownerWallet r)))])"

definition withdrawArcadeMachines ::
  "env \<Rightarrow> (nat \<Rightarrow> string) \<Rightarrow> (nft_id \<times> arcade_machine_row \<times> owner option) list \<Rightarrow> db \<Rightarrow>
   string list res \<times> db" where
  "withdrawArcadeMachines env newId machines d =
     (case map_res (\<lambda>(k, r, user). check_machine_withdrawal user r) machines of
        Inl e \<Rightarrow> (Inl e, d)
      | Inr _ \<Rightarrow>
          let ids = map newId [0..<length machines] in
          withdraw_tx
            (concat (map (machine_withdrawal_queries env) (zip ids (map (\<lambda>(k, r, user). (k, r)) machines))))
            ids d)"

definition check_center_withdrawal :: "db \<Rightarrow> nft_id \<Rightarrow> owner option \<Rightarrow> game_center_row \<Rightarrow> unit res" where
  "check_center_withdrawal d k user r =
     bind_res (validateItemOwner (nft_userId r) (nft_ownerWallet r) user) (\<lambda>_.
     if nft_state r \<noteq> IN_AKIVERSE
     then Inl (IllegalStateUseCaseError ''NFT cannot be withdrawn in this state'')
     else if gc_placementAllowed r
     then Inl (IllegalStateUseCaseError ''A recruiting GC cannot be withdrawn'')
     else if find (\<lambda>(_, am). am_gameCenterId am = Some k) (t_arcadeMachines d) \<noteq> None
     then Inl (IllegalStateUseCaseError ''A GC with installed AMs cannot be withdrawn'')
     else Inr ())"

definition center_withdrawal_queries :: "env \<Rightarrow> string \<times> nft_id \<times> game_center_row \<Rightarrow> query list" where
  "center_withdrawal_queries env x =
     (case x of (wid, k, r) \<Rightarrow>
        [update_gameCenter k
           (\<lambda>r'. gc_placementAllowed r' = gc_placementAllowed r \<and> nft_state r' = nft_state r \<and>
                 nft_updatedAt r' = nft_updatedAt r)
           (set_state env MOVING_TO_WALLET),
         create_withdrawal wid
           (new_withdrawal k GAME_CENTER (nft_userId r) (the (nft_ownerWallet r)))])"

definition withdrawGameCenters ::
  "env \<Rightarrow> (nat \<Rightarrow> string) \<Rightarrow> (nft_id \<times> game_center_row \<times> owner option) list \<Rightarrow> db \<Rightarrow>
   string list res \<times> db" where
  "withdrawGameCenters env newId centers d =
     (case map_res (\<lambda>(k, r, user). check_center_withdrawal d k user r) centers of
        Inl e \<Rightarrow> (Inl e, d)
      | Inr _ \<Rightarrow>
          let ids = map newId [0..<length centers] in
          withdraw_tx
            (concat (map (center_withdrawal_queries env) (zip ids (map (\<lambda>(k, r, user). (k, r)) centers))))
            ids d)"

definition check_part_withdrawal :: "owner option \<Rightarrow> arcade_part_row \<Rightarrow> unit res" where
  "check_part_withdrawal user r =
     bind_res (validateItemOwner (nft_userId r) (nft_ownerWallet r) user) (\<lambda>_.
     if nft_state r \<noteq> IN_AKIVERSE
     then Inl (IllegalStateUseCaseError ''NFT cannot be withdrawn in this state'')
     else if ap_destroyedAt r \<noteq> None
     then Inl (IllegalStateUseCaseError ''A crafted NFT cannot be withdrawn'')
     else Inr ())"

definition part_withdrawal_queries :: "env \<Rightarrow> string \<times> nft_id \<times> arcade_part_row \<Rightarrow> query list" where
  "part_withdrawal_queries env x =
     (case x of (wid, k, r) \<Rightarrow>
        [update_arcadePart k
           (\<lambda>r'. nft_state r' = nft_state r \<and> nft_updatedAt r' = nft_updatedAt r \<and>
                 ap_destroyedAt r' = ap_destroyedAt r)
           (set_state env MOVING_TO_WALLET),
         create_withdrawal wid
           (new_withdrawal k ARCADE_PART (nft_userId r) (the (nft_ownerWallet r)))])"

definition withdrawArcadeParts ::
  "env \<Rightarrow> (nat \<Rightarrow> string) \<Rightarrow> (nft_id \<times> arcade_part_row \<times> owner option) list \<Rightarrow> db \<Rightarrow>
   string list res \<times> db" where
  "withdrawArcadeParts env newId parts d =
     (case map_res (\<lambda>(k, r, user). check_part_withdrawal user r) parts of
        Inl e \<Rightarrow> (Inl e, d)
      | Inr _ \<Rightarrow>
          let ids = map newId [0..<length parts] in
          withdraw_tx
            (concat (map (part_withdrawal_queries env) (zip ids (map (\<lambda>(k, r, user). (k, r)) parts))))
            ids d)"

text \<open>\<open>withdrawAkir\<close> and \<open>withdrawAkv\<close>; the amount is checked on the user row that was
  read earlier, the balance once more by the check constraint.\<close>

definition currency_withdrawal ::
  "string \<Rightarrow> user_id \<Rightarrow> wallet \<Rightarrow> CurrencyType \<Rightarrow> int \<Rightarrow> query" where
  "currency_withdrawal wid u w ty amount =
     create_row t_currencyWithdrawals put_currencyWithdrawals no_check wid
       \<lparr>cw_userId = Some u, cw_walletAddress = w, cw_currencyType = ty, cw_amount = amount,
        cw_state = W_UNPROCESSED, cw_type = None, cw_hash = None\<rparr>"

definition withdrawAkir :: "string \<Rightarrow> user_id \<Rightarrow> user_row \<Rightarrow> int \<Rightarrow> db \<Rightarrow> string res \<times> db" where
  "withdrawAkir wid u user amount d =
     (if \<not> truthy (u_walletAddress user)
      then (Inl (IllegalStateUseCaseError ''User.walletAddress is not set.''), d)
      else if amount \<le> 0
      then (Inl (IllegalStateUseCaseError ''Withdrawal amount must be positive.''), d)
      else if akirBalance user < amount
      then (Inl (IllegalStateUseCaseError ''AKIR insufficient''), d)
      else
        (case run_tx
           [update_user u (\<lambda>_. True) (\<lambda>r. r\<lparr>akirBalance := akirBalance r - amount\<rparr>),
            currency_withdrawal wid u (the (u_walletAddress user)) AKIR amount] d of
           Inl e \<Rightarrow> (Inl e, d)
         | Inr d' \<Rightarrow> (Inr wid, d')))"

definition withdrawAkv :: "string \<Rightarrow> user_id \<Rightarrow> user_row \<Rightarrow> int \<Rightarrow> db \<Rightarrow> string res \<times> db" where
  "withdrawAkv wid u user amount d =
     (if \<not> truthy (u_walletAddress user)
      then (Inl (IllegalStateUseCaseError ''User.walletAddress is not set.''), d)
      else if amount \<le> 0
      then (Inl (InvalidArgumentUseCaseError ''Withdrawal amount must be positive.''), d)
      else if akvBalance user < amount
      then (Inl (IllegalStateUseCaseError ''AKV insufficient''), d)
      else
        (case run_tx
           [update_user u (\<lambda>_. True) (\<lambda>r. r\<lparr>akvBalance := akvBalance r - amount\<rparr>),
            currency_withdrawal wid u (the (u_walletAddress user)) AKV amount] d of
           Inl e \<Rightarrow> (Inl e, d)
         | Inr d' \<Rightarrow> (Inr wid, d')))"

section \<open>Deposits\<close>

text \<open>
  \<open>deposit\<close>: the state change and the deposit record are two separate statements, not one
  transaction.
\<close>

definition deposit_nft ::
  "env \<Rightarrow> string \<Rightarrow> NftType \<Rightarrow> nft_id \<Rightarrow> 'a nft_scheme \<Rightarrow> owner option \<Rightarrow> string \<Rightarrow> db \<Rightarrow> string res \<times> db" where
  "deposit_nft env depositId nftType k r user hash d =
     (case validateItemOwner (nft_userId r) (nft_ownerWallet r) user of
        Inl e \<Rightarrow> (Inl e, d)
      | Inr (walletAddress, userId) \<Rightarrow>
          if nft_state r \<noteq> IN_WALLET
          then (Inl (IllegalStateUseCaseError ''NFT cannot be deposited in this state''), d)
          else
            (case update_nft_state env nftType k (nft_state r) (nft_updatedAt r) MOVING_TO_AKIVERSE d of
               Inl e \<Rightarrow>
                 (Inl (if e = PrismaKnownRequestError ''P2025''
                       then ConflictUseCaseError ''update operation conflicted'' else e), d)
             | Inr d1 \<Rightarrow>
                 (case create_deposit depositId
                         \<lparr>dp_tokenId = k, dp_nftType = nftType, dp_userId = userId,
                          dp_walletAddress = Some walletAddress, dp_state = D_UNPROCESSED,
                          dp_hash = Some hash\<rparr> d1 of
                    Inl e \<Rightarrow> (Inl e, d1)
                  | Inr d2 \<Rightarrow> (Inr depositId, d2))))"

definition currencyDeposit ::
  "string \<Rightarrow> user_id \<Rightarrow> user_row \<Rightarrow> CurrencyType \<Rightarrow> string \<Rightarrow> int \<Rightarrow> db \<Rightarrow> string res \<times> db" where
  "currencyDeposit depositId u user currencyType hash amount d =
     (if \<not> truthy (u_walletAddress user)
      then (Inl (IllegalStateUseCaseError ''User.walletAddress is not set.''), d)
      else if amount \<le> 0
      then (Inl (InvalidArgumentUseCaseError ''Amount must be a number greater than zero''), d)
      else
        (case create_row t_currencyDeposits put_currencyDeposits no_check depositId
                \<lparr>cd_userId = u, cd_walletAddress = the (u_walletAddress user),
                 cd_currencyType = currencyType, cd_amount = amount, cd_state = D_UNPROCESSED,
                  cd_hash = hash\<rparr> d of
           Inl e \<Rightarrow> (Inl e, d)
         | Inr d' \<Rightarrow> (Inr depositId, d')))"

section \<open>Block states\<close>

text \<open>
  The common shape of \<open>updateDepositState\<close> and \<open>updateWithdrawalState\<close>: when the block
  was invalidated and the item's last known transfer is older, the item's state is reverted, unless
  the item changed since it was read (\<open>d0\<close>).  Reverting a deposit also notifies.
\<close>

definition revert_item ::
  "env \<Rightarrow> NftType \<Rightarrow> nft_id \<Rightarrow> int \<Rightarrow> int \<Rightarrow> NftState \<Rightarrow> external_call option \<Rightarrow> db \<Rightarrow> db \<Rightarrow> db res" where
  "revert_item env nftType tokenId blockNumber transactionIndex s notify d0 d =
     (case find_nft nftType tokenId d0 of
        None \<Rightarrow> Inr d
      | Some item \<Rightarrow>
          if compareArrays [nft_lastBlock item, nft_lastTransactionIndex item] [blockNumber, transactionIndex] < 0
          then
            (case revert_nft_state env nftType tokenId (nft_updatedAt item) s d of
               Inl e \<Rightarrow> Inl e
             | Inr d' \<Rightarrow>
                 Inr (case (notify, find_nft nftType tokenId d) of
                        (Some c, Some item') \<Rightarrow>
                          if nft_updatedAt item' = nft_updatedAt item then call c d' else d'
                      | _ \<Rightarrow> d'))
          else Inr d)"

definition updateDepositState ::
  "env \<Rightarrow> NftType \<Rightarrow> nft_id \<Rightarrow> BlockState \<Rightarrow> string \<Rightarrow> int \<Rightarrow> int \<Rightarrow> db \<Rightarrow> db \<Rightarrow> db res" where
  "updateDepositState env nftType tokenId blockState hash blockNumber transactionIndex d0 d =
     (let state = (case blockState of BLOCK_INVALIDATED \<Rightarrow> D_INVALIDATED
                   | BLOCK_CONFIRMED \<Rightarrow> D_CONFIRMED | BLOCK_PENDING \<Rightarrow> D_PENDING) in
      bind_res (if blockState = BLOCK_INVALIDATED
                then revert_item env nftType tokenId blockNumber transactionIndex IN_WALLET
                       (Some (NotifyDeposit nftType tokenId)) d0 d
                else Inr d)
        (update_many t_deposits put_deposits no_check
          (\<lambda>_ r. dp_nftType r = nftType \<and> dp_tokenId r = tokenId \<and> dp_hash r = Some hash \<and>
                 dp_state r \<noteq> state)
          (\<lambda>r. r\<lparr>dp_state := state\<rparr>)))"

definition put_withdrawal_state :: "NftType \<Rightarrow> nft_id \<Rightarrow> string \<Rightarrow> WithdrawalState \<Rightarrow> query" where
  "put_withdrawal_state nftType tokenId hash state =
     update_many t_withdrawals put_withdrawals no_check
       (\<lambda>_ r. wd_nftType r = nftType \<and> wd_tokenId r = tokenId \<and> wd_hash r = Some hash \<and>
              wd_state r \<noteq> state)
       (\<lambda>r. r\<lparr>wd_state := state\<rparr>)"

definition updateWithdrawalState ::
  "env \<Rightarrow> NftType \<Rightarrow> nft_id \<Rightarrow> BlockState \<Rightarrow> string \<Rightarrow> int \<Rightarrow> int \<Rightarrow> db \<Rightarrow> db \<Rightarrow> db res" where
  "updateWithdrawalState env nftType tokenId blockState hash blockNumber transactionIndex d0 d =
     (let state = (case blockState of BLOCK_INVALIDATED \<Rightarrow> W_ERROR
                   | BLOCK_CONFIRMED \<Rightarrow> W_CONFIRMED | BLOCK_PENDING \<Rightarrow> W_PENDING) in
      bind_res (if blockState = BLOCK_INVALIDATED
                then revert_item env nftType tokenId blockNumber transactionIndex IN_AKIVERSE None d0 d
                else Inr d)
        (put_withdrawal_state nftType tokenId hash state))"

section \<open>Burning\<close>

definition burn_error :: use_case_error where
  "burn_error = ConflictUseCaseError ''Could not Burn because Arcade Machine was updated during processing''"

text \<open>The checks before the write, and which state the machine is to get.\<close>

definition check_burn :: "date option \<Rightarrow> owner option \<Rightarrow> 'a nft_scheme \<Rightarrow> NftState res" where
  "check_burn destroyedAt user r =
     (if nft_state r \<noteq> IN_AKIVERSE
      then Inl (IllegalStateUseCaseError ''Cannot burn Arcade Machine in this state'')
      else if destroyedAt = None
      then Inl (IllegalStateUseCaseError ''Cannot burn Arcade Machine that is not dismantled'')
      else if (case user of None \<Rightarrow> True | Some (uid, _) \<Rightarrow> nft_userId r \<noteq> Some uid)
      then Inl (IllegalStateUseCaseError ''user mismatch'')
      else if nft_physicalWallet r = None then Inr BURNED
      else bind_res (validateItemOwner (nft_userId r) (nft_ownerWallet r) user) (\<lambda>_. Inr BURNING))"

definition burnArcadeMachine ::
  "env \<Rightarrow> string \<Rightarrow> nft_id \<Rightarrow> arcade_machine_row \<Rightarrow> owner option \<Rightarrow> db \<Rightarrow> unit res \<times> db" where
  "burnArcadeMachine env burnId k r user d =
     (case check_burn (am_destroyedAt r) user r of
        Inl e \<Rightarrow> (Inl e, d)
      | Inr s \<Rightarrow>
          (case update_arcadeMachine k (\<lambda>r'. nft_updatedAt r' = nft_updatedAt r) (set_state env s) d of
             Inl e \<Rightarrow> (Inl (if s = BURNED then e else burn_error), d)
           | Inr d1 \<Rightarrow>
               if s = BURNED then (Inr (), d1)
               else
                 (case create_burn burnId \<lparr>bn_tokenId = k, bn_nftType = ARCADE_MACHINE,
                         bn_userId = nft_userId r, bn_state = B_UNPROCESSED\<rparr> d1 of
                    Inl e \<Rightarrow> (Inl e, d1)
                  | Inr d2 \<Rightarrow> (Inr (), d2))))"

definition burnArcadePart ::
  "env \<Rightarrow> string \<Rightarrow> nft_id \<Rightarrow> arcade_part_row \<Rightarrow> owner option \<Rightarrow> db \<Rightarrow> unit res \<times> db" where
  "burnArcadePart env burnId k r user d =
     (case check_burn (ap_destroyedAt r) user r of
        Inl e \<Rightarrow> (Inl e, d)
      | Inr s \<Rightarrow>
          (case update_arcadePart k (\<lambda>r'. nft_updatedAt r' = nft_updatedAt r) (set_state env s) d of
             Inl e \<Rightarrow> (Inl (if s = BURNED then e else burn_error), d)
           | Inr d1 \<Rightarrow>
               if s = BURNED then (Inr (), d1)
               else
                 (case create_burn burnId \<lparr>bn_tokenId = k, bn_nftType = ARCADE_PART,
                         bn_userId = nft_userId r, bn_state = B_UNPROCESSED\<rparr> d1 of
                    Inl e \<Rightarrow> (Inl e, d1)
                  | Inr d2 \<Rightarrow> (Inr (), d2))))"

section \<open>The life of an NFT\<close>

text \<open>
  The state changes the operations of this theory make on an item, as a relation; the operations
  refine it (the properties below).
\<close>

inductive nft_step :: "NftState \<Rightarrow> NftState \<Rightarrow> bool" where
  withdraw: "nft_step IN_AKIVERSE MOVING_TO_WALLET"
| deposit: "nft_step IN_WALLET MOVING_TO_AKIVERSE"
| burn: "nft_step IN_AKIVERSE BURNING"
| burn_unminted: "nft_step IN_AKIVERSE BURNED"

inductive_cases nft_step_from_burned: "nft_step BURNED s"
inductive_cases nft_step_from_moving: "nft_step MOVING_TO_WALLET s"
inductive_simps nft_step_simps [simp]: "nft_step s MOVING_TO_WALLET" "nft_step s MOVING_TO_AKIVERSE"
  "nft_step s BURNING" "nft_step s BURNED" "nft_step s IN_AKIVERSE" "nft_step s IN_WALLET"

code_pred nft_step .

text \<open>All machines keep their state or make a step, none disappears.\<close>

definition machines_step :: "db \<Rightarrow> db \<Rightarrow> bool" where
  "machines_step d d' \<longleftrightarrow> (\<forall>k r'. map_of (t_arcadeMachines d') k = Some r' \<longrightarrow>
     (\<exists>r. map_of (t_arcadeMachines d) k = Some r \<and>
        (nft_state r' = nft_state r \<or> nft_step (nft_state r) (nft_state r'))))"

lemma update_many_no_check: "table_store get put \<Longrightarrow>
    update_many get put no_check P f d = Inr (put (update_rows P f (get d)) d)"
  by (simp add: table_store.update_many_Inr no_check_def)

lemma check_burn_Inr:
  "check_burn t user r = Inr s \<Longrightarrow> nft_state r = IN_AKIVERSE \<and> t \<noteq> None \<and> (s = BURNED \<or> s = BURNING) \<and>
     (s = BURNED \<longleftrightarrow> nft_physicalWallet r = None) \<and> nft_userId r = map_option fst user"
  by (auto simp: check_burn_def bind_res_Inr_iff split: if_splits option.splits)

end
