(* ===== verification/Transfer_Props.thy ===== *)
theory Transfer_Props
  imports Nft_Transfers Sample "HOL-Library.Product_Lexorder"
begin

text \<open>
  Properties of withdrawals, deposits and burns: whole batches move or nothing does, a placed
  machine never leaves, every state change is a step of the life of an NFT, and a withdrawn
  currency amount leaves the balance exactly once.
\<close>

section \<open>Withdrawing machines\<close>

definition machine_cond :: "arcade_machine_row \<Rightarrow> arcade_machine_row \<Rightarrow> bool" where
  "machine_cond r r' \<longleftrightarrow> am_gameCenterId r' = am_gameCenterId r \<and> am_position r' = am_position r \<and>
     nft_state r' = nft_state r \<and> nft_updatedAt r' = nft_updatedAt r"

lemma machine_withdrawal_queries_eq:
  "machine_withdrawal_queries env (wid, k, r) =
     [update_arcadeMachine k (machine_cond r) (set_state env MOVING_TO_WALLET),
      create_withdrawal wid (new_withdrawal k ARCADE_MACHINE (nft_userId r) (the (nft_ownerWallet r)))]"
  by (simp add: machine_withdrawal_queries_def machine_cond_def [abs_def])

lemma machine_withdrawal_run:
  "run_tx (concat (map (machine_withdrawal_queries env) xs)) d = Inr d' \<Longrightarrow>
     \<forall>(wid, k, r) \<in> set xs. nft_state r = IN_AKIVERSE \<Longrightarrow>
     arcadeMachine_tab.updated_each (set_state env MOVING_TO_WALLET)
       (map (\<lambda>(wid, k, r). (k, machine_cond r)) xs) d d' \<and>
     t_withdrawals d' = t_withdrawals d @ map (\<lambda>(wid, k, r).
       (wid, new_withdrawal k ARCADE_MACHINE (nft_userId r) (the (nft_ownerWallet r)))) xs \<and>
     d' = d\<lparr>t_arcadeMachines := t_arcadeMachines d', t_withdrawals := t_withdrawals d'\<rparr>"
proof (induction xs arbitrary: d)
  case Nil
  then show ?case by (simp add: arcadeMachine_tab.updated_each_Nil)
next
  case (Cons x xs)
  obtain wid k r where x: "x = (wid, k, r)" by (cases x)
  from Cons.prems(1) obtain d1 d2
    where 1: "update_arcadeMachine k (machine_cond r) (set_state env MOVING_TO_WALLET) d = Inr d1"
    and 2: "create_withdrawal wid (new_withdrawal k ARCADE_MACHINE (nft_userId r) (the (nft_ownerWallet r))) d1 = Inr d2"
    and 3: "run_tx (concat (map (machine_withdrawal_queries env) xs)) d2 = Inr d'"
    by (auto simp: x machine_withdrawal_queries_eq run_tx_append split: sum.splits)
  have w1: "t_withdrawals d1 = t_withdrawals d" using 1 by (auto simp: arcadeMachine_tab.update_Inr put_defs)
  from 2 have d2: "d2 = put_withdrawals (t_withdrawals d1 @
      [(wid, new_withdrawal k ARCADE_MACHINE (nft_userId r) (the (nft_ownerWallet r)))]) d1"
    by (simp add: withdrawal_tab.create_Inr)
  then have a2: "t_arcadeMachines d2 = t_arcadeMachines d1" by (simp add: put_defs)
  note ih = Cons.IH [OF 3]
  have st: "\<forall>(wid, k, r) \<in> set xs. nft_state r = IN_AKIVERSE" using Cons.prems(2) by simp
  have "arcadeMachine_tab.updated_each (set_state env MOVING_TO_WALLET)
      ((k, machine_cond r) # map (\<lambda>(wid, k, r). (k, machine_cond r)) xs) d d'"
    by (rule arcadeMachine_tab.updated_each_Cons [OF 1 a2 conjunct1 [OF ih [OF st]]])
      (use st in \<open>auto simp: machine_cond_def set_state_def\<close>)
  moreover have "d' = d\<lparr>t_arcadeMachines := t_arcadeMachines d', t_withdrawals := t_withdrawals d'\<rparr>"
  proof -
    have e1: "d1 = d\<lparr>t_arcadeMachines := t_arcadeMachines d1\<rparr>" using 1 by (auto simp: arcadeMachine_tab.update_Inr put_defs)
    have "d1\<lparr>t_arcadeMachines := m, t_withdrawals := w\<rparr> = d\<lparr>t_arcadeMachines := m, t_withdrawals := w\<rparr>" for m w
      by (subst e1) simp
    then have e2: "d2\<lparr>t_arcadeMachines := m, t_withdrawals := w\<rparr> = d\<lparr>t_arcadeMachines := m, t_withdrawals := w\<rparr>" for m w
      by (simp add: d2 put_defs)
    show ?thesis by (rule trans [OF _ e2]) (use ih [OF st] in blast)
  qed
  ultimately show ?case using ih [OF st] w1 unfolding d2 put_defs by (simp add: x)
qed

text \<open>The user whose item it is, and whose wallet, up to the case of its letters, is the item's owner's wallet.\<close>

definition owner_matches :: "owner option \<Rightarrow> 'a nft_scheme \<Rightarrow> bool" where
  "owner_matches user r \<longleftrightarrow> (\<forall>uid wa. user = Some (uid, wa) \<longrightarrow> nft_userId r = Some uid \<and>
     map_option toLowerCase wa = map_option toLowerCase (nft_ownerWallet r))"

lemma check_machine_withdrawal_Inr:
  "check_machine_withdrawal user r = Inr y \<Longrightarrow> nft_state r = IN_AKIVERSE \<and> \<not> truthy (am_gameCenterId r) \<and>
     am_position r = None \<and> (\<exists>w. nft_ownerWallet r = Some w \<and> w \<noteq> []) \<and> owner_matches user r"
  by (auto simp: check_machine_withdrawal_def bind_res_Inr_iff owner_matches_def dest!: validateItemOwner_Inr split: if_splits)

text \<open>The transaction of a withdrawal whose machines passed the checks.\<close>

lemma machines_withdrawn:
  assumes checked: "map_res (\<lambda>(k, r, user). check_machine_withdrawal user r) ms = Inr ys"
    and tx: "run_tx (concat (map (machine_withdrawal_queries env) (zip ids (map (\<lambda>(k, r, user). (k, r)) ms)))) d = Inr d'"
    and len: "length ids = length ms"
  shows "distinct (map fst ms) \<and>
     (\<forall>(k, r, user) \<in> set ms. nft_state r = IN_AKIVERSE \<and> am_position r = None \<and>
        (\<exists>r0. map_of (t_arcadeMachines d) k = Some r0 \<and> machine_cond r r0 \<and>
              map_of (t_arcadeMachines d') k = Some (set_state env MOVING_TO_WALLET r0))) \<and>
     (\<forall>k. k \<notin> set (map fst ms) \<longrightarrow> map_of (t_arcadeMachines d') k = map_of (t_arcadeMachines d) k) \<and>
     (\<forall>(k, r, user) \<in> set ms. owner_matches user r \<and> (\<exists>w. nft_ownerWallet r = Some w \<and> w \<noteq> [])) \<and>
     t_withdrawals d' = t_withdrawals d @ map (\<lambda>(wid, k, r, user). (wid,
       \<lparr>wd_tokenId = k, wd_nftType = ARCADE_MACHINE, wd_userId = nft_userId r, wd_walletAddress = the (nft_ownerWallet r),
        wd_state = W_UNPROCESSED, wd_type = None, wd_hash = None\<rparr>)) (zip ids ms) \<and>
     d' = d\<lparr>t_arcadeMachines := t_arcadeMachines d', t_withdrawals := t_withdrawals d'\<rparr>"
proof -
  define xs where "xs = zip ids (map (\<lambda>(k, r, user). (k, r)) ms)"
  have chk: "nft_state r = IN_AKIVERSE \<and> am_position r = None \<and> owner_matches user r \<and>
      (\<exists>w. nft_ownerWallet r = Some w \<and> w \<noteq> [])" if "(k, r, user) \<in> set ms" for k r user
  proof -
    from that obtain i where "i < length ms" "ms ! i = (k, r, user)" by (metis in_set_conv_nth)
    with map_res_nth [OF checked, of i] show ?thesis by (auto dest: check_machine_withdrawal_Inr)
  qed
  have keys: "map (\<lambda>(wid, k, r). (k, machine_cond r)) xs = map (\<lambda>(k, r, user). (k, machine_cond r)) ms"
    unfolding xs_def using len by (intro nth_equalityI) (auto simp: case_prod_beta)
  have "\<forall>(wid, k, r) \<in> set xs. nft_state r = IN_AKIVERSE"
    unfolding xs_def using chk by (auto dest!: set_zip_rightD)
  note run = machine_withdrawal_run [OF tx [unfolded xs_def [symmetric]] this]
  then have u: "arcadeMachine_tab.updated_each (set_state env MOVING_TO_WALLET)
      (map (\<lambda>(k, r, user). (k, machine_cond r)) ms) d d'"
    by (simp add: keys)
  have "map (\<lambda>(wid, k, r). (wid, new_withdrawal k ARCADE_MACHINE (nft_userId r) (the (nft_ownerWallet r)))) xs =
      map (\<lambda>(wid, k, r, user). (wid,
       \<lparr>wd_tokenId = k, wd_nftType = ARCADE_MACHINE, wd_userId = nft_userId r, wd_walletAddress = the (nft_ownerWallet r),
        wd_state = W_UNPROCESSED, wd_type = None, wd_hash = None\<rparr>)) (zip ids ms)"
    unfolding xs_def using len by (intro nth_equalityI) (auto simp: case_prod_beta new_withdrawal_def)
  with run have wd: "t_withdrawals d' = t_withdrawals d @ map (\<lambda>(wid, k, r, user). (wid,
       \<lparr>wd_tokenId = k, wd_nftType = ARCADE_MACHINE, wd_userId = nft_userId r, wd_walletAddress = the (nft_ownerWallet r),
        wd_state = W_UNPROCESSED, wd_type = None, wd_hash = None\<rparr>)) (zip ids ms)"
    by (simp only:)
  have fr: "d' = d\<lparr>t_arcadeMachines := t_arcadeMachines d', t_withdrawals := t_withdrawals d'\<rparr>" using run by blast
  have fsts: "map fst (map (\<lambda>(k, r, user). (k, machine_cond r)) ms) = map fst ms"
    by (simp add: case_prod_beta o_def)
  have "\<exists>r0. map_of (t_arcadeMachines d) k = Some r0 \<and> machine_cond r r0 \<and>
      map_of (t_arcadeMachines d') k = Some (set_state env MOVING_TO_WALLET r0)"
    if m: "(k, r, user) \<in> set ms" for k r user
  proof -
    from m have "(k, machine_cond r) \<in> set (map (\<lambda>(k, r, user). (k, machine_cond r)) ms)" by force
    with u obtain r0 where r0: "map_of (t_arcadeMachines d) k = Some r0" "machine_cond r r0"
      unfolding arcadeMachine_tab.updated_each_def by blast
    from m have "k \<in> set (map fst ms)" by force
    with u r0 show ?thesis unfolding arcadeMachine_tab.updated_each_def fsts by auto
  qed
  moreover have "distinct (map fst ms)"
    and "\<forall>k. k \<notin> set (map fst ms) \<longrightarrow> map_of (t_arcadeMachines d') k = map_of (t_arcadeMachines d) k"
    using u unfolding arcadeMachine_tab.updated_each_def fsts by auto
  ultimately show ?thesis using wd fr chk by blast
qed

text \<open>
  (C26) A withdrawal of machines is all or nothing.  When it succeeds, the machines are distinct,
  each was in the world, not placed and unchanged since it was checked, and is now on its way to
  the wallet, and no other machine changes.  Exactly one withdrawal is added for each machine, in their order and with
  the returned ids: of this machine, for its user, to its owner's wallet, which is set and is that of the user, and
  unprocessed; nothing else changes.  When it fails, the database is unchanged.
\<close>

theorem withdraw_machines_all_or_nothing:
  assumes "withdrawArcadeMachines env newId ms d = (res, d')"
  shows "(\<exists>e. res = Inl e \<and> d' = d) \<or>
    (res = Inr (map newId [0..<length ms]) \<and> distinct (map fst ms) \<and>
     (\<forall>(k, r, user) \<in> set ms. nft_state r = IN_AKIVERSE \<and> am_position r = None \<and>
        (\<exists>r0. map_of (t_arcadeMachines d) k = Some r0 \<and> machine_cond r r0 \<and>
              map_of (t_arcadeMachines d') k = Some (set_state env MOVING_TO_WALLET r0))) \<and>
     (\<forall>k. k \<notin> set (map fst ms) \<longrightarrow> map_of (t_arcadeMachines d') k = map_of (t_arcadeMachines d) k) \<and>
     (\<forall>(k, r, user) \<in> set ms. owner_matches user r \<and> (\<exists>w. nft_ownerWallet r = Some w \<and> w \<noteq> [])) \<and>
     t_withdrawals d' = t_withdrawals d @ map (\<lambda>(wid, k, r, user). (wid,
       \<lparr>wd_tokenId = k, wd_nftType = ARCADE_MACHINE, wd_userId = nft_userId r, wd_walletAddress = the (nft_ownerWallet r),
        wd_state = W_UNPROCESSED, wd_type = None, wd_hash = None\<rparr>)) (zip (map newId [0..<length ms]) ms) \<and>
     d' = d\<lparr>t_arcadeMachines := t_arcadeMachines d', t_withdrawals := t_withdrawals d'\<rparr>)"
proof (cases "map_res (\<lambda>(k, r, user). check_machine_withdrawal user r) ms")
  case (Inl e)
  with assms show ?thesis by (auto simp: withdrawArcadeMachines_def)
next
  case (Inr ys)
  define ids where "ids = map newId [0..<length ms]"
  define xs where "xs = zip ids (map (\<lambda>(k, r, user). (k, r)) ms)"
  have w: "withdrawArcadeMachines env newId ms d =
      withdraw_tx (concat (map (machine_withdrawal_queries env) xs)) ids d"
    using Inr by (simp add: withdrawArcadeMachines_def ids_def xs_def Let_def)
  show ?thesis
  proof (cases "run_tx (concat (map (machine_withdrawal_queries env) xs)) d")
    case (Inl e)
    with assms w show ?thesis by (auto simp: withdraw_tx_def)
  next
    case tx: (Inr d2)
    with assms w have d': "d' = d2" and res: "res = Inr ids" by (simp_all add: withdraw_tx_def)
    have "length (map newId [0..<length ms]) = length ms" by simp
    with machines_withdrawn [OF Inr tx [unfolded xs_def ids_def]] show ?thesis
      unfolding res d' ids_def by blast
  qed
qed

lemma sample_withdraw_machines:
  "withdrawArcadeMachines sample_env (\<lambda>n. ''w'') [(''a1'', sample_machine ''u1'' 20000 None, Some (''u1'', Some ''0xab''))] sample_db =
     (Inr [''w''], snd (withdrawArcadeMachines sample_env (\<lambda>n. ''w'')
        [(''a1'', sample_machine ''u1'' 20000 None, Some (''u1'', Some ''0xab''))] sample_db))"
proof -
  have "fst (withdrawArcadeMachines sample_env (\<lambda>n. ''w'')
      [(''a1'', sample_machine ''u1'' 20000 None, Some (''u1'', Some ''0xab''))] sample_db) = Inr [''w'']"
    by code_simp
  then show ?thesis by (metis prod.collapse)
qed

theorem withdraw_machines_all_or_nothing_witness:
  "\<exists>r0 d'. withdrawArcadeMachines sample_env (\<lambda>n. ''w'') [(''a1'', sample_machine ''u1'' 20000 None, Some (''u1'', Some ''0xab''))]
       sample_db = (Inr [''w''], d') \<and>
     map_of (t_arcadeMachines sample_db) ''a1'' = Some r0 \<and>
     map_of (t_arcadeMachines d') ''a1'' = Some (set_state sample_env MOVING_TO_WALLET r0) \<and>
     t_withdrawals d' = [(''w'', \<lparr>wd_tokenId = ''a1'', wd_nftType = ARCADE_MACHINE, wd_userId = Some ''u1'',
       wd_walletAddress = ''0xAb'', wd_state = W_UNPROCESSED, wd_type = None, wd_hash = None\<rparr>)]"
  using withdraw_machines_all_or_nothing [OF sample_withdraw_machines] sample_withdraw_machines
  by (auto simp: sample_db_def sample_machine_def)

section \<open>Deposits\<close>

lemma truncate_set_state: "nft.truncate (set_state env s r) = set_state env s (nft.truncate r)"
  by (cases r) (simp add: set_state_def nft.defs)

lemma truncate_simps [simp]: "nft_state (nft.truncate r) = nft_state r"
  "nft_updatedAt (nft.truncate r) = nft_updatedAt r" "nft_userId (nft.truncate r) = nft_userId r"
  by (simp_all add: nft.defs)

lemma update_nft_state_find:
  assumes "update_nft_state env ty k s t s' d = Inr d'"
  shows "\<exists>r0. find_nft ty k d = Some r0 \<and> nft_state r0 = s \<and> nft_updatedAt r0 = t \<and>
      find_nft ty k d' = Some (set_state env s' r0)"
    and "(ty', k') \<noteq> (ty, k) \<Longrightarrow> find_nft ty' k' d' = find_nft ty' k' d"
    and "t_deposits d' = t_deposits d"
proof -
  show "\<exists>r0. find_nft ty k d = Some r0 \<and> nft_state r0 = s \<and> nft_updatedAt r0 = t \<and>
      find_nft ty k d' = Some (set_state env s' r0)"
    using assms by (cases ty) (auto simp: arcadeMachine_tab.update_Inr gameCenter_tab.update_Inr
        arcadePart_tab.update_Inr map_of_apply_row truncate_set_state)
  show "find_nft ty' k' d' = find_nft ty' k' d" if "(ty', k') \<noteq> (ty, k)"
    using assms that by (cases ty; cases ty') (auto simp: arcadeMachine_tab.update_Inr gameCenter_tab.update_Inr
        arcadePart_tab.update_Inr map_of_apply_row put_defs)
  show "t_deposits d' = t_deposits d"
    using assms by (cases ty) (auto simp: arcadeMachine_tab.update_Inr gameCenter_tab.update_Inr
        arcadePart_tab.update_Inr put_defs)
qed

text \<open>
  A deposit succeeds only for an item that is in the wallet and unchanged since it was read;
  the item, of whichever type, is then moving into the world, every other item is as before, and
  one unprocessed deposit of the owner's wallet with the transaction hash is recorded.
\<close>

lemma deposit_moves_the_item:
  assumes "deposit_nft env depositId ty k r user hash d = (Inr res, d')"
  shows "\<exists>r0 w. find_nft ty k d = Some r0 \<and> nft_state r0 = IN_WALLET \<and> nft_updatedAt r0 = nft_updatedAt r \<and>
    find_nft ty k d' = Some (set_state env MOVING_TO_AKIVERSE r0) \<and>
    nft_step (nft_state r0) MOVING_TO_AKIVERSE \<and>
    (\<forall>ty' k'. (ty', k') = (ty, k) \<or> find_nft ty' k' d' = find_nft ty' k' d) \<and>
    nft_ownerWallet r = Some w \<and>
    t_deposits d' = t_deposits d @ [(depositId, \<lparr>dp_tokenId = k, dp_nftType = ty, dp_userId = nft_userId r,
       dp_walletAddress = Some w, dp_state = D_UNPROCESSED, dp_hash = Some hash\<rparr>)]"
proof -
  from assms obtain w u where v: "validateItemOwner (nft_userId r) (nft_ownerWallet r) user = Inr (w, u)"
    by (auto simp: deposit_nft_def split: sum.splits)
  note vi = validateItemOwner_Inr [OF v]
  from assms v have st: "nft_state r = IN_WALLET" by (auto simp: deposit_nft_def split: if_splits)
  from assms v st obtain d1 where 1: "update_nft_state env ty k IN_WALLET (nft_updatedAt r) MOVING_TO_AKIVERSE d = Inr d1"
    and 2: "create_deposit depositId \<lparr>dp_tokenId = k, dp_nftType = ty, dp_userId = u,
       dp_walletAddress = Some w, dp_state = D_UNPROCESSED, dp_hash = Some hash\<rparr> d1 = Inr d'"
    by (auto simp: deposit_nft_def split: sum.splits)
  from 2 have d': "d' = put_deposits (t_deposits d1 @ [(depositId, \<lparr>dp_tokenId = k, dp_nftType = ty, dp_userId = u,
       dp_walletAddress = Some w, dp_state = D_UNPROCESSED, dp_hash = Some hash\<rparr>)]) d1"
    by (simp add: deposit_tab.create_Inr)
  have f: "find_nft ty' k' d' = find_nft ty' k' d1" for ty' k'
    unfolding d' by (cases ty') (simp_all add: put_defs)
  show ?thesis
    using update_nft_state_find(1) [OF 1] update_nft_state_find(2) [OF 1] update_nft_state_find(3) [OF 1] vi
    unfolding f by (auto simp: d' put_defs)
qed

definition sample_wallet_db :: db where
  "sample_wallet_db = sample_db\<lparr>t_arcadeMachines := [(''a3'', (sample_machine ''u1'' 0 None)\<lparr>nft_state := IN_WALLET\<rparr>)]\<rparr>"

lemma deposit_moves_the_item_witness:
  "\<exists>d'. deposit_nft sample_env ''dep'' ARCADE_MACHINE ''a3'' ((sample_machine ''u1'' 0 None)\<lparr>nft_state := IN_WALLET\<rparr>)
      (Some (''u1'', Some ''0xab'')) ''hash'' sample_wallet_db = (Inr ''dep'', d') \<and>
    (\<exists>r0. find_nft ARCADE_MACHINE ''a3'' d' = Some (set_state sample_env MOVING_TO_AKIVERSE r0))"
proof -
  let ?x = "deposit_nft sample_env ''dep'' ARCADE_MACHINE ''a3'' ((sample_machine ''u1'' 0 None)\<lparr>nft_state := IN_WALLET\<rparr>)
      (Some (''u1'', Some ''0xab'')) ''hash'' sample_wallet_db"
  have "fst ?x = Inr ''dep''" by code_simp
  then obtain d' where "?x = (Inr ''dep'', d')" by (metis prod.collapse)
  with deposit_moves_the_item [OF this] show ?thesis by blast
qed

section \<open>Burning\<close>

text \<open>
  Burning refines the life of an NFT: whatever its outcome, every machine keeps its state or
  takes a step of \<open>nft_step\<close>, and a success means that the machine was dismantled and in the
  world, and is burned at once exactly when it was never on the blockchain.
\<close>

lemma burn_is_a_step:
  assumes "burnArcadeMachine env burnId k r user d = (res, d')"
    and "\<And>r0. map_of (t_arcadeMachines d) k = Some r0 \<Longrightarrow> nft_updatedAt r0 = nft_updatedAt r \<Longrightarrow> r0 = r"
  shows "machines_step d d' \<and> (res = Inr () \<longrightarrow>
    am_destroyedAt r \<noteq> None \<and> nft_state r = IN_AKIVERSE \<and>
    map_of (t_arcadeMachines d') k = Some (set_state env (if nft_physicalWallet r = None then BURNED else BURNING) r))"
proof (cases "check_burn (am_destroyedAt r) user r")
  case (Inl e)
  with assms(1) show ?thesis by (auto simp: burnArcadeMachine_def machines_step_def)
next
  case (Inr s)
  note c = check_burn_Inr [OF Inr]
  show ?thesis
  proof (cases "update_arcadeMachine k (\<lambda>r'. nft_updatedAt r' = nft_updatedAt r) (set_state env s) d")
    case (Inl e)
    with assms(1) Inr show ?thesis by (auto simp: burnArcadeMachine_def machines_step_def)
  next
    case up: (Inr d1)
    then obtain r0 where r0: "map_of (t_arcadeMachines d) k = Some r0" "nft_updatedAt r0 = nft_updatedAt r"
      by (auto simp: arcadeMachine_tab.update_Inr)
    with assms(2) have r: "map_of (t_arcadeMachines d) k = Some r" by simp
    have find: "map_of (t_arcadeMachines d1) k' = (if k' = k then Some (set_state env s r) else map_of (t_arcadeMachines d) k')" for k'
      using arcadeMachine_tab.update_find(1) [OF up, of k'] r by simp
    have same: "t_arcadeMachines d' = t_arcadeMachines d1"
      using assms(1) Inr up
      by (auto simp: burnArcadeMachine_def burn_tab.create_Inr put_defs split: if_splits sum.splits)
    have "machines_step d d'"
      unfolding machines_step_def same using c r by (auto simp: find set_state_def split: if_splits)
    moreover have "map_of (t_arcadeMachines d') k = Some (set_state env s r)" by (simp add: same find)
    ultimately show ?thesis using c by auto
  qed
qed

definition sample_dismantled :: arcade_machine_row where
  "sample_dismantled = (sample_machine ''u1'' 100000 (Some 3))\<lparr>am_destroyedAt := Some 40\<rparr>"

lemma burn_is_a_step_witness:
  "\<exists>d'. burnArcadeMachine sample_env ''b'' ''a1'' sample_dismantled (Some (''u1'', Some ''0xab''))
      (sample_db\<lparr>t_arcadeMachines := [(''a1'', sample_dismantled)]\<rparr>) = (Inr (), d') \<and>
    map_of (t_arcadeMachines d') ''a1'' = Some (set_state sample_env BURNED sample_dismantled)"
proof -
  let ?d = "sample_db\<lparr>t_arcadeMachines := [(''a1'', sample_dismantled)]\<rparr>"
  let ?x = "burnArcadeMachine sample_env ''b'' ''a1'' sample_dismantled (Some (''u1'', Some ''0xab'')) ?d"
  have "fst ?x = Inr ()" by code_simp
  then obtain d' where d': "?x = (Inr (), d')" by (metis prod.collapse)
  have h: "\<And>r0. map_of (t_arcadeMachines ?d) ''a1'' = Some r0 \<Longrightarrow> nft_updatedAt r0 = nft_updatedAt sample_dismantled \<Longrightarrow>
      r0 = sample_dismantled"
    by simp
  from burn_is_a_step [OF d' h] d' show ?thesis
    by (simp add: sample_dismantled_def sample_machine_def)
qed

section \<open>Currencies\<close>

text \<open>
  A successful AKIR withdrawal takes exactly the requested positive amount from the user's
  balance, which stays non-negative whatever it was when it was checked, touches no other user,
  and records one withdrawal of that amount to the user's wallet; a failed one changes nothing.
\<close>

lemma withdraw_akir_exact:
  assumes "withdrawAkir wid u user amount d = (res, d')"
  shows "(\<exists>e. res = Inl e \<and> d' = d) \<or>
    (res = Inr wid \<and> 0 < amount \<and>
     (\<exists>r w. map_of (t_users d) u = Some r \<and> amount \<le> akirBalance r \<and> u_walletAddress user = Some w \<and>
        map_of (t_users d') u = Some (r\<lparr>akirBalance := akirBalance r - amount\<rparr>) \<and>
        (\<forall>k. k = u \<or> map_of (t_users d') k = map_of (t_users d) k) \<and>
        t_currencyWithdrawals d' = t_currencyWithdrawals d @
          [(wid, \<lparr>cw_userId = Some u, cw_walletAddress = w, cw_currencyType = AKIR, cw_amount = amount,
            cw_state = W_UNPROCESSED, cw_type = None, cw_hash = None\<rparr>)]))"
proof (cases "\<exists>e. res = Inl e")
  case True
  with assms show ?thesis by (auto simp: withdrawAkir_def split: if_splits sum.splits)
next
  case False
  then obtain x where res: "res = Inr x" by (cases res) auto
  with assms have g: "truthy (u_walletAddress user)" "0 < amount" "x = wid"
    by (auto simp: withdrawAkir_def split: if_splits sum.splits)
  from assms res obtain d1 where 1: "update_user u (\<lambda>_. True) (\<lambda>r. r\<lparr>akirBalance := akirBalance r - amount\<rparr>) d = Inr d1"
    and 2: "currency_withdrawal wid u (the (u_walletAddress user)) AKIR amount d1 = Inr d'"
    by (auto simp: withdrawAkir_def split: if_splits sum.splits)
  from 1 obtain r where r: "map_of (t_users d) u = Some r" and ok: "amount \<le> akirBalance r"
    and d1: "t_currencyWithdrawals d1 = t_currencyWithdrawals d"
    by (auto simp: user_tab.update_Inr check_user_def violated_def put_defs split: if_splits)
  from 2 have d': "d' = put_currencyWithdrawals (t_currencyWithdrawals d1 @ [(wid,
      \<lparr>cw_userId = Some u, cw_walletAddress = the (u_walletAddress user), cw_currencyType = AKIR, cw_amount = amount,
            cw_state = W_UNPROCESSED, cw_type = None, cw_hash = None\<rparr>)]) d1"
    by (simp add: currency_withdrawal_def currencyWithdrawal_tab.create_Inr)
  have f: "map_of (t_users d') k = (if k = u then Some (r\<lparr>akirBalance := akirBalance r - amount\<rparr>) else map_of (t_users d) k)" for k
    using user_tab.update_find(1) [OF 1, of k] r by (simp add: d' put_defs)
  from g(1) obtain w where "u_walletAddress user = Some w" by (auto simp: truthy_iff)
  with g r ok f d' d1 res show ?thesis by (auto simp: put_defs)
qed

lemma withdraw_akir_exact_witness:
  "\<exists>d'. withdrawAkir ''w'' ''u1'' ((sample_user (Some ''0xab'') 20000)\<lparr>akirBalance := 50\<rparr>) 40 sample_db = (Inl (PrismaUnknownRequestError ''akir_balance_over_zero''), d') \<and>
     d' = sample_db"
proof -
  let ?x = "withdrawAkir ''w'' ''u1'' ((sample_user (Some ''0xab'') 20000)\<lparr>akirBalance := 50\<rparr>) 40 sample_db"
  have "fst ?x = Inl (PrismaUnknownRequestError ''akir_balance_over_zero'')" by code_simp
  then obtain d' where d': "?x = (Inl (PrismaUnknownRequestError ''akir_balance_over_zero''), d')" by (metis prod.collapse)
  with withdraw_akir_exact [OF d'] show ?thesis by auto
qed

section \<open>Late block states\<close>

text \<open>
  When a block's state changes, the state of a withdrawn item is reverted only if the block
  was invalidated and the item's last recorded transfer is strictly older, in the order of block
  number and transaction index; in every other case no NFT changes.
\<close>

lemma withdrawal_revert_only_newer:
  assumes "updateWithdrawalState env ty k blockState hash bn ti d0 d = Inr d'"
    and "find_nft ty k d0 = Some item"
    and "blockState \<noteq> BLOCK_INVALIDATED \<or> (bn, ti) \<le> (nft_lastBlock item, nft_lastTransactionIndex item)"
  shows "find_nft ty' k' d' = find_nft ty' k' d"
proof -
  have "compareArrays [nft_lastBlock item, nft_lastTransactionIndex item] [bn, ti] < 0 \<longleftrightarrow>
      (nft_lastBlock item, nft_lastTransactionIndex item) < (bn, ti)"
    by (auto simp: less_prod_def)
  with assms(2,3) have "(if blockState = BLOCK_INVALIDATED
      then revert_item env ty k bn ti IN_AKIVERSE None d0 d else Inr d) = Inr d"
    by (auto simp: revert_item_def)
  with assms(1) obtain s where "put_withdrawal_state ty k hash s d = Inr d'"
    by (auto simp: updateWithdrawalState_def Let_def)
  then show ?thesis
    by (cases ty') (auto simp: put_withdrawal_state_def withdrawal_tab.update_many_Inr put_defs)
qed

lemma withdrawal_revert_only_newer_witness:
  "\<exists>d'. updateWithdrawalState sample_env ARCADE_MACHINE ''a1'' BLOCK_INVALIDATED ''h'' 0 0 sample_db sample_db = Inr d' \<and>
     find_nft ARCADE_MACHINE ''a1'' d' = find_nft ARCADE_MACHINE ''a1'' sample_db"
proof -
  let ?x = "updateWithdrawalState sample_env ARCADE_MACHINE ''a1'' BLOCK_INVALIDATED ''h'' 0 0 sample_db sample_db"
  have "case ?x of Inl _ \<Rightarrow> False | Inr _ \<Rightarrow> True" by code_simp
  then obtain d' where d': "?x = Inr d'" by (auto split: sum.splits)
  have i: "find_nft ARCADE_MACHINE ''a1'' sample_db = Some (nft.truncate (sample_machine ''u1'' 20000 None))"
    by (simp add: sample_db_def)
  have "BLOCK_INVALIDATED \<noteq> BLOCK_INVALIDATED \<or>
      (0, 0) \<le> (nft_lastBlock (nft.truncate (sample_machine ''u1'' 20000 None)),
        nft_lastTransactionIndex (nft.truncate (sample_machine ''u1'' 20000 None)))"
    by (simp add: sample_machine_def nft.defs)
  from withdrawal_revert_only_newer [OF d' i this] d' show ?thesis by blast
qed

end
