(* ===== verification/Fee.thy ===== *)
theory Fee
  imports Queries
begin

text \<open>
  The money helpers: \<open>src/helpers/fee.ts\<close>, \<open>src/helpers/mega_spark.ts\<close>,
  \<open>src/helpers/decimal.ts\<close> and the constants of \<open>src/constants.ts\<close> they use.  The
  hour of the day in the reference region is an argument.
\<close>

section \<open>The installing fee\<close>

definition INSTALLATION_FEE_OF_DAY :: decimal where
  "INSTALLATION_FEE_OF_DAY = 120"

text \<open>\<open>getCurrentHour1to24\<close>: midnight counts as hour 24.\<close>

definition getCurrentHour1to24 :: "int \<Rightarrow> int" where
  "getCurrentHour1to24 tokyoHour = (if tokyoHour \<le> 0 then 24 else tokyoHour)"

text \<open>
  The argument of \<open>Decimal.mul\<close> is the JavaScript number \<open>(24 - floorHour) / 24\<close>, a
  double; decimal arithmetic then starts from the shortest decimal that denotes it.  The list has
  those decimals for the hours 1 to 24.
\<close>

definition day_fractions :: "decimal list" where
  "day_fractions =
    [9583333333333334 / 10 ^ 16,
     9166666666666666 / 10 ^ 16,
     875 / 10 ^ 3,
     8333333333333334 / 10 ^ 16,
     7916666666666666 / 10 ^ 16,
     75 / 10 ^ 2,
     7083333333333334 / 10 ^ 16,
     6666666666666666 / 10 ^ 16,
     625 / 10 ^ 3,
     5833333333333334 / 10 ^ 16,
     5416666666666666 / 10 ^ 16,
     5 / 10 ^ 1,
     4583333333333333 / 10 ^ 16,
     4166666666666667 / 10 ^ 16,
     375 / 10 ^ 3,
     3333333333333333 / 10 ^ 16,
     2916666666666667 / 10 ^ 16,
     25 / 10 ^ 2,
     20833333333333334 / 10 ^ 17,
     16666666666666666 / 10 ^ 17,
     125 / 10 ^ 3,
     8333333333333333 / 10 ^ 17,
     41666666666666664 / 10 ^ 18,
     0 / 10 ^ 1]"

definition getInstallingFee :: "int \<Rightarrow> decimal" where
  "getInstallingFee tokyoHour =
     INSTALLATION_FEE_OF_DAY * (day_fractions ! nat (getCurrentHour1to24 tokyoHour - 1))"

text \<open>The fee the formula means: five Teras for every full hour that is left.\<close>

definition exact_fee :: "int \<Rightarrow> int" where
  "exact_fee tokyoHour = 5 * (24 - getCurrentHour1to24 tokyoHour)"

lemma hour_range: "0 \<le> h \<Longrightarrow> h < 24 \<Longrightarrow> h \<in> {0, 1, 2, 3, 4, 5, 6, 7, 8, 9, 10, 11, 12, 13, 14, 15, 16,
    17, 18, 19, 20, 21, 22, 23 :: int}"
  unfolding insert_iff empty_iff by presburger

lemma installing_fee_near:
  assumes "0 \<le> h" and "h < 24"
  shows "\<bar>getInstallingFee h - of_int (exact_fee h)\<bar> < 1 / 10 ^ 12"
  using hour_range [OF assms]
  by (elim insertE) (simp_all add: getInstallingFee_def exact_fee_def getCurrentHour1to24_def
      INSTALLATION_FEE_OF_DAY_def day_fractions_def eval_nat_numeral)

lemma exact_fee_range: "0 \<le> h \<Longrightarrow> h < 24 \<Longrightarrow> 0 \<le> exact_fee h \<and> exact_fee h \<le> 115"
  by (auto simp: exact_fee_def getCurrentHour1to24_def)

text \<open>Added to or taken from a stored balance, the fee is the exact fee after rounding.\<close>

lemma rounded_fee:
  assumes "rounds rnd" and "0 \<le> h" and "h < 24"
  shows "rnd (of_int b + getInstallingFee h) = b + exact_fee h"
    and "rnd (of_int b - getInstallingFee h) = b - exact_fee h"
proof -
  have "getInstallingFee h - of_int (exact_fee h) < 1 / 2" and "of_int (exact_fee h) - getInstallingFee h < 1 / 2"
    using installing_fee_near [OF assms(2,3)] unfolding abs_less_iff by simp_all
  then show "rnd (of_int b + getInstallingFee h) = b + exact_fee h"
    and "rnd (of_int b - getInstallingFee h) = b - exact_fee h"
    by (intro rounds_eq [OF assms(1)]; unfold abs_less_iff; simp)+
qed

section \<open>Amounts of USDC\<close>

definition USDC_DECIMAL_ALIGNMENT_FACTOR :: decimal where
  "USDC_DECIMAL_ALIGNMENT_FACTOR = 100"

section \<open>Spark rewards\<close>

definition SPARKED_ENERGY :: int where
  "SPARKED_ENERGY = 4000"

definition MEGA_SPARKED_REWARD :: decimal where
  "MEGA_SPARKED_REWARD = 500"

definition FEVER_SPARKED_REWARD_TOTAL :: decimal where
  "FEVER_SPARKED_REWARD_TOTAL = 200"

definition MEGA_SPARK_UPCOMING_COUNT :: int where
  "MEGA_SPARK_UPCOMING_COUNT = 1"

definition SPARKED_TERAS_DISTRIBUTION_RATIO_TO_PLAYER :: decimal where
  "SPARKED_TERAS_DISTRIBUTION_RATIO_TO_PLAYER = 1 / 2"

definition FEVER_SPARK_MAX_COUNT :: int where
  "FEVER_SPARK_MAX_COUNT = 30"

record calculated_rewards =
  emitOwnerReward :: decimal
  emitPlayerReward :: decimal

definition calculateEmitReward :: "bool \<Rightarrow> string \<Rightarrow> bool \<Rightarrow> calculated_rewards res" where
  "calculateEmitReward isSelfArcadeMachine game fever =
     (case games game of
        None \<Rightarrow> Inl (InternalServerUseCaseError ''unknown gameId'')
      | Some gameInfo \<Rightarrow>
          let emitRewardSummary =
                (if isSelfArcadeMachine then sparkedEmitTerasSelf gameInfo else sparkedEmitTerasOther gameInfo);
              feverRewardSummary = (if fever then FEVER_SPARKED_REWARD_TOTAL else 0);
              totalReward = emitRewardSummary + feverRewardSummary;
              player = totalReward * SPARKED_TERAS_DISTRIBUTION_RATIO_TO_PLAYER
          in Inr \<lparr>emitOwnerReward = totalReward - player, emitPlayerReward = player\<rparr>)"

definition isMegaSparkUpcoming :: "int \<Rightarrow> int \<Rightarrow> bool" where
  "isMegaSparkUpcoming energy maxEnergy =
     (if energy = maxEnergy then False
      else SPARKED_ENERGY * MEGA_SPARK_UPCOMING_COUNT + energy \<ge> maxEnergy)"

lemmas spark_constants = SPARKED_ENERGY_def MEGA_SPARKED_REWARD_def FEVER_SPARKED_REWARD_TOTAL_def
  MEGA_SPARK_UPCOMING_COUNT_def SPARKED_TERAS_DISTRIBUTION_RATIO_TO_PLAYER_def FEVER_SPARK_MAX_COUNT_def

lemma calculateEmitReward_split:
  assumes "calculateEmitReward self game fever = Inr c"
  shows "emitOwnerReward c = emitPlayerReward c" and "0 \<le> emitPlayerReward c"
    and "emitPlayerReward c \<le> 120" and "\<exists>i. emitPlayerReward c = of_int i"
    and "\<not> fever \<Longrightarrow> emitPlayerReward c \<le> 20"
proof -
  from assms obtain g where g: "games game = Some g"
    by (auto simp: calculateEmitReward_def split: option.splits)
  define t where "t = (if self then sparkedEmitTerasSelf g else sparkedEmitTerasOther g)"
  have t: "t = 0 \<or> t = 40" using game_emission [OF g] by (auto simp: t_def)
  have c: "c = \<lparr>emitOwnerReward = (t + (if fever then 200 else 0)) - (t + (if fever then 200 else 0)) * (1 / 2),
      emitPlayerReward = (t + (if fever then 200 else 0)) * (1 / 2)\<rparr>"
    using assms unfolding calculateEmitReward_def g spark_constants t_def Let_def
    by (cases fever) auto
  show "emitOwnerReward c = emitPlayerReward c" by (simp add: c field_simps)
  show "0 \<le> emitPlayerReward c" and "emitPlayerReward c \<le> 120" using t by (auto simp: c)
  show "\<not> fever \<Longrightarrow> emitPlayerReward c \<le> 20" using t by (auto simp: c)
  have "emitPlayerReward c = of_int ((if t = 0 then 0 else 20) + (if fever then 100 else 0))"
    using t by (auto simp: c)
  then show "\<exists>i. emitPlayerReward c = of_int i" by blast
qed

section \<open>Rounding down to a number of digits\<close>

text \<open>\<open>Decimal.trunc\<close> and the number of digits of its decimal representation (below
  \<open>10\<^sup>2\<^sup>1\<close>, where \<open>toString\<close> does not yet use an exponent).\<close>

definition js_trunc :: "decimal \<Rightarrow> int" where
  "js_trunc x = (if x < 0 then \<lceil>x\<rceil> else \<lfloor>x\<rfloor>)"

fun digit_count :: "nat \<Rightarrow> nat" where
  "digit_count n = (if n < 10 then 1 else Suc (digit_count (n div 10)))"

declare digit_count.simps [simp del]

definition toString_length :: "int \<Rightarrow> nat" where
  "toString_length i = (if i < 0 then Suc (digit_count (nat (- i))) else digit_count (nat i))"

definition floorDecimalToIntegerValue :: "decimal \<Rightarrow> int \<Rightarrow> decimal res" where
  "floorDecimalToIntegerValue value digits =
     (if digits < 0 then Inl (JsError ''digits must be greater than 0'')
      else
        let integerPart = js_trunc value;
            integerDigits = toString_length integerPart in
        if digits \<ge> int integerDigits
        then Inl (JsError ''Digits must be less than the number of integer digits.'')
        else
          let factor = (10 :: decimal) ^ nat digits in
          Inr (of_int (js_trunc (of_int integerPart / factor)) * factor))"

lemma digit_count_gt_1: "10 \<le> n \<Longrightarrow> 1 < digit_count n"
  by (subst digit_count.simps) (simp add: digit_count.simps [of "n div 10"])

lemma floorDecimal_tens:
  assumes "10 \<le> v"
  shows "floorDecimalToIntegerValue v 1 = Inr (of_int (10 * \<lfloor>v / 10\<rfloor>))"
proof -
  have f: "10 \<le> \<lfloor>v\<rfloor>" using assms by (simp add: le_floor_iff)
  then have "10 \<le> nat \<lfloor>v\<rfloor>" by (simp only: le_nat_iff)
  then have "1 < digit_count (nat \<lfloor>v\<rfloor>)" by (rule digit_count_gt_1)
  moreover have "\<lfloor>of_int \<lfloor>v\<rfloor> / (10 :: rat)\<rfloor> = \<lfloor>v / 10\<rfloor>"
  proof (rule floor_unique)
    have "of_int \<lfloor>v / 10\<rfloor> \<le> v / 10" by (rule of_int_floor_le)
    then have "of_int (10 * \<lfloor>v / 10\<rfloor>) \<le> v" 
      unfolding of_int_mult of_int_numeral by linarith
    then have "10 * \<lfloor>v / 10\<rfloor> \<le> \<lfloor>v\<rfloor>" unfolding le_floor_iff .
    then have "of_int (10 * \<lfloor>v / 10\<rfloor>) \<le> (of_int \<lfloor>v\<rfloor> :: rat)" unfolding of_int_le_iff .
    then show "of_int \<lfloor>v / 10\<rfloor> \<le> of_int \<lfloor>v\<rfloor> / (10 :: rat)"
      unfolding of_int_mult of_int_numeral by linarith
    have "v / 10 < of_int \<lfloor>v / 10\<rfloor> + 1" using floor_correct [of "v / 10"] by linarith
    moreover have "of_int \<lfloor>v\<rfloor> \<le> v" by (rule of_int_floor_le)
    ultimately show "of_int \<lfloor>v\<rfloor> / (10 :: rat) < of_int \<lfloor>v / 10\<rfloor> + 1" by linarith
  qed
  ultimately show ?thesis using f assms
    by (simp add: floorDecimalToIntegerValue_def js_trunc_def toString_length_def Let_def)
qed

end
