(* ===== verification/Arcade_Machines.thy ===== *)
theory Arcade_Machines
  imports Nft_Transfers Fee
begin

text \<open>
  \<open>src/use_cases/arcade_machine_usecase.ts\<close>: installing a machine in a game center and
  taking it out, withdrawing and depositing machines, the machines a player can be offered, and
  dismantling.  An operation that reads first and writes later takes the change that other
  requests make in between as \<open>other\<close>.
\<close>

section \<open>Installing\<close>

text \<open>
  The machines of a game center in the order of their position, those without one last (the order
  of PostgreSQL).
\<close>

definition machines_in :: "db \<Rightarrow> nft_id \<Rightarrow> (nft_id \<times> arcade_machine_row) list" where
  "machines_in d gc =
     (let ms = filter (\<lambda>(k, r). am_gameCenterId r = Some gc) (t_arcadeMachines d) in
      sort_key (\<lambda>(k, r). the (am_position r)) (filter (\<lambda>(k, r). am_position r \<noteq> None) ms) @
      filter (\<lambda>(k, r). am_position r = None) ms)"

text \<open>The search for the smallest free position over the sorted positions.\<close>

fun free_position :: "int \<Rightarrow> int option list \<Rightarrow> int" where
  "free_position position [] = position"
| "free_position position (None # ps) = free_position position ps"
| "free_position position (Some p # ps) =
     (if p = 0 then free_position position ps
      else if p \<noteq> position then position
      else free_position (position + 1) ps)"

record install_plan =
  ip_position :: int
  ip_fee :: decimal
  ip_centerOwner :: "user_id option"

definition install_read ::
  "ctx \<Rightarrow> nft_id \<Rightarrow> nft_id \<Rightarrow> int \<Rightarrow> db \<Rightarrow> install_plan res" where
  "install_read ctx arcadeMachineId gameCenterId tokyoHour d =
     (case map_of (t_arcadeMachines d) arcadeMachineId of
        None \<Rightarrow> Inl (NotFoundUseCaseError ''arcadeMachine is not found'' ''arcade machine'')
      | Some arcadeMachine \<Rightarrow>
      if \<not> currentUserOwns ctx [nft_userId arcadeMachine] then Inl PermissionDeniedUseCaseError
      else if nft_state arcadeMachine \<noteq> IN_AKIVERSE
      then Inl (IllegalStateUseCaseError ''ArcadeMachine not IN_AKIVERSE'')
      else if truthy (am_gameCenterId arcadeMachine)
      then Inl (IllegalStateUseCaseError ''already installed'')
      else
      (case games (am_game arcadeMachine) of
         None \<Rightarrow> Inl JsTypeError
       | Some metadata \<Rightarrow>
       if \<not> enabled metadata then Inl (InvalidArgumentUseCaseError ''invalid game title'')
       else if am_feverSparkRemain arcadeMachine = Some 0
       then Inl (IllegalStateUseCaseError
         ''ArcadeMachine cannot be installed due to no more Fever remaining'')
       else
       (case map_of (t_gameCenters d) gameCenterId of
          None \<Rightarrow> Inl (NotFoundUseCaseError ''GameCenter is not found'' ''game center'')
        | Some gameCenter \<Rightarrow>
        if nft_state gameCenter \<noteq> IN_AKIVERSE
        then Inl (IllegalStateUseCaseError ''GameCenter not IN_AKIVERSE'')
        else if \<not> gc_placementAllowed gameCenter
        then Inl (IllegalStateUseCaseError ''GameCenter is not recruiting arcadeMachine'')
        else if length (machines_in d gameCenterId) \<ge> getCapacity (gc_size gameCenter)
        then Inl (IllegalStateUseCaseError ''GameCenter is already full'')
        else
        let fee = getInstallingFee tokyoHour in
        (case map_of (t_users d) (the (ctx_userId ctx)) of
           None \<Rightarrow> Inl (NotFoundUseCaseError ''user not found'' ''User'')
         | Some user \<Rightarrow>
         if ctx_userId ctx \<noteq> nft_userId gameCenter \<and> of_int (terasBalance user) < fee
         then Inl (InvalidArgumentUseCaseError ''Teras balance is insufficient'')
         else
         Inr \<lparr>ip_position =
                free_position 1 (map (\<lambda>(k, r). am_position r) (machines_in d gameCenterId)),
              ip_fee = fee, ip_centerOwner = nft_userId gameCenter\<rparr>))))"

text \<open>A fractional amount written to the balance column is rounded by the database.\<close>

definition add_teras :: "env \<Rightarrow> user_id \<Rightarrow> decimal \<Rightarrow> query" where
  "add_teras env u x =
     update_user u (\<lambda>_. True) (\<lambda>r. r\<lparr>terasBalance := env_rnd env (of_int (terasBalance r) + x)\<rparr>)"

definition sub_teras :: "env \<Rightarrow> user_id \<Rightarrow> decimal \<Rightarrow> query" where
  "sub_teras env u x =
     update_user u (\<lambda>_. True) (\<lambda>r. r\<lparr>terasBalance := env_rnd env (of_int (terasBalance r) - x)\<rparr>)"

definition place_machine :: "env \<Rightarrow> nft_id \<Rightarrow> nft_id \<Rightarrow> int \<Rightarrow> bool \<Rightarrow> query" where
  "place_machine env arcadeMachineId gameCenterId position autoRenewLease =
     update_arcadeMachine arcadeMachineId (\<lambda>_. True)
       (\<lambda>r. r\<lparr>am_position := Some position, am_gameCenterId := Some gameCenterId,
              am_installedAt := Some (env_now env), am_autoRenewLease := autoRenewLease,
              nft_updatedAt := env_now env\<rparr>)"

definition install_error :: "use_case_error \<Rightarrow> use_case_error" where
  "install_error e =
     (case e of
        PrismaKnownRequestError code \<Rightarrow>
          if code = ''P2002'' then ConflictUseCaseError ''Specified position is already in use.'' else e
      | PrismaUnknownRequestError name \<Rightarrow>
          if name = ''teras_balance_over_zero''
          then ConflictUseCaseError ''Teras balance is insufficient'' else e
      | _ \<Rightarrow> UnhandledUseCaseError ''ArcadeMachine update failed'')"

text \<open>
  A game center without an owner makes the second query invalid (\<open>id: null\<close>), which the client
  rejects with an ordinary error before anything is written.
\<close>

definition install_queries ::
  "env \<Rightarrow> user_id \<Rightarrow> user_id \<Rightarrow> nft_id \<Rightarrow> nft_id \<Rightarrow> bool \<Rightarrow> install_plan \<Rightarrow> query list" where
  "install_queries env u owner arcadeMachineId gameCenterId autoRenewLease p =
     [place_machine env arcadeMachineId gameCenterId (ip_position p) autoRenewLease,
      add_teras env owner (ip_fee p), sub_teras env u (ip_fee p)]"

definition install_write ::
  "env \<Rightarrow> user_id \<Rightarrow> nft_id \<Rightarrow> nft_id \<Rightarrow> bool \<Rightarrow> install_plan \<Rightarrow> db \<Rightarrow> arcade_machine_row option res \<times> db" where
  "install_write env u arcadeMachineId gameCenterId autoRenewLease p d =
     (case ip_centerOwner p of
        None \<Rightarrow> (Inl (UnhandledUseCaseError ''ArcadeMachine update failed''), d)
      | Some owner \<Rightarrow>
          (case run_tx (install_queries env u owner arcadeMachineId gameCenterId autoRenewLease p) d of
             Inl e \<Rightarrow> (Inl (install_error e), d)
           | Inr d' \<Rightarrow>
               (Inr (map_of (t_arcadeMachines d') arcadeMachineId),
                call (NotifyAmInstall u owner arcadeMachineId gameCenterId) d')))"

definition installArcadeMachineToGameCenter ::
  "env \<Rightarrow> ctx \<Rightarrow> nft_id \<Rightarrow> nft_id \<Rightarrow> bool \<Rightarrow> int \<Rightarrow> (db \<Rightarrow> db) \<Rightarrow> db \<Rightarrow>
   arcade_machine_row option res \<times> db" where
  "installArcadeMachineToGameCenter env ctx arcadeMachineId gameCenterId autoRenewLease tokyoHour other d =
     (case install_read ctx arcadeMachineId gameCenterId tokyoHour d of
        Inl e \<Rightarrow> (Inl e, d)
      | Inr p \<Rightarrow>
          install_write env (the (ctx_userId ctx)) arcadeMachineId gameCenterId autoRenewLease p (other d))"

section \<open>Uninstalling\<close>

definition remove_machine :: "env \<Rightarrow> nft_id \<Rightarrow> query" where
  "remove_machine env arcadeMachineId =
     update_arcadeMachine arcadeMachineId (\<lambda>_. True)
       (\<lambda>r. r\<lparr>am_gameCenterId := None, am_position := None, am_installedAt := None,
              nft_updatedAt := env_now env\<rparr>)"

text \<open>
  The machine's owner and the game center's owner may uninstall.  A game center without an owner
  has no one to notify (the code passes its null owner on).
\<close>

definition uninstallArcadeMachineFromGameCenter ::
  "env \<Rightarrow> ctx \<Rightarrow> nft_id \<Rightarrow> (db \<Rightarrow> db) \<Rightarrow> db \<Rightarrow> arcade_machine_row option res \<times> db" where
  "uninstallArcadeMachineFromGameCenter env ctx arcadeMachineId other d =
     (case map_of (t_arcadeMachines d) arcadeMachineId of
        None \<Rightarrow> (Inl (NotFoundUseCaseError ''ArcadeMachine not found'' ''ArcadeMachine''), d)
      | Some arcadeMachine \<Rightarrow>
      let gameCenter = Option.bind (am_gameCenterId arcadeMachine) (map_of (t_gameCenters d)) in
      if \<not> currentUserOwns ctx [nft_userId arcadeMachine] \<and>
         (case gameCenter of None \<Rightarrow> True | Some gc \<Rightarrow> \<not> currentUserOwns ctx [nft_userId gc])
      then (Inl PermissionDeniedUseCaseError, d)
      else if \<not> truthy (am_gameCenterId arcadeMachine)
      then (Inl (IllegalStateUseCaseError ''ArcadeMachine is not installed''), d)
      else
      (case remove_machine env arcadeMachineId (other d) of
         Inl e \<Rightarrow> (Inl e, other d)
       | Inr d' \<Rightarrow>
           (Inr (map_of (t_arcadeMachines d') arcadeMachineId),
            (case gameCenter of
               None \<Rightarrow> d'
             | Some gc \<Rightarrow>
                 (case nft_userId gc of
                    None \<Rightarrow> d'
                  | Some owner \<Rightarrow>
                      call (NotifyAmUninstall (the (ctx_userId ctx)) owner arcadeMachineId
                              (the (am_gameCenterId arcadeMachine))) d')))))"

section \<open>Withdrawing, depositing, updating\<close>

definition find_machines :: "db \<Rightarrow> nft_id list \<Rightarrow> (nft_id \<times> arcade_machine_row) list" where
  "find_machines d ids = filter (\<lambda>(k, r). k \<in> set ids) (t_arcadeMachines d)"

text \<open>The game of every machine must be known (else a \<open>TypeError\<close>) and enabled.\<close>

fun first_game_error :: "string list \<Rightarrow> use_case_error option" where
  "first_game_error [] = None"
| "first_game_error (g # gs) =
     (case games g of
        None \<Rightarrow> Some JsTypeError
      | Some gi \<Rightarrow>
          if \<not> enabled gi then Some (IllegalStateUseCaseError ''Invalid game titles cannot be withdrawn'')
          else first_game_error gs)"

definition withdraw_machines ::
  "env \<Rightarrow> ctx \<Rightarrow> (nat \<Rightarrow> string) \<Rightarrow> nft_id list \<Rightarrow> (db \<Rightarrow> db) \<Rightarrow> db \<Rightarrow>
   (nft_id \<times> arcade_machine_row) list res \<times> db" where
  "withdraw_machines env ctx newId ids other d =
     (let ms = find_machines d ids in
      if length ms \<noteq> length ids
      then (Inl (NotFoundUseCaseError ''ArcadeMachine not found'' ''ArcadeMachine''), d)
      else if \<not> currentUserOwns ctx (map (\<lambda>(k, r). nft_userId r) ms)
      then (Inl PermissionDeniedUseCaseError, d)
      else
        (case first_game_error (remdups (map (\<lambda>(k, r). am_game r) ms)) of
           Some e \<Rightarrow> (Inl e, d)
         | None \<Rightarrow>
             (case withdrawArcadeMachines env newId (map (\<lambda>(k, r). (k, r, user_of d r)) ms) (other d) of
                (Inl e, d') \<Rightarrow> (Inl e, d')
              | (Inr _, d') \<Rightarrow> (Inr (find_machines d' ids), d'))))"

text \<open>
  \<open>Promise.all\<close> over the deposits: each runs to its end whatever the others do; the first
  failure is the answer.
\<close>

fun deposit_all ::
  "env \<Rightarrow> (nat \<Rightarrow> string) \<Rightarrow> string \<Rightarrow> (nft_id \<times> arcade_machine_row \<times> owner option) list \<Rightarrow> db \<Rightarrow>
   use_case_error option \<times> db" where
  "deposit_all env newId hash [] d = (None, d)"
| "deposit_all env newId hash ((k, r, user) # ms) d =
     (case deposit_nft env (newId (length ms)) ARCADE_MACHINE k r user hash d of
        (res, d') \<Rightarrow>
          (case deposit_all env newId hash ms d' of
             (err, d'') \<Rightarrow> (case res of Inl e \<Rightarrow> Some e | Inr _ \<Rightarrow> err, d'')))"

definition deposit_machines ::
  "env \<Rightarrow> ctx \<Rightarrow> (nat \<Rightarrow> string) \<Rightarrow> string \<Rightarrow> nft_id list \<Rightarrow> (db \<Rightarrow> db) \<Rightarrow> db \<Rightarrow>
   (nft_id \<times> arcade_machine_row) list res \<times> db" where
  "deposit_machines env ctx newId hash ids other d =
     (let ms = find_machines d ids in
      if length ms \<noteq> length ids
      then (Inl (NotFoundUseCaseError ''ArcadeMachine not found'' ''ArcadeMachine''), d)
      else if \<not> currentUserOwns ctx (map (\<lambda>(k, r). nft_userId r) ms)
      then (Inl PermissionDeniedUseCaseError, d)
      else
        (case deposit_all env newId hash (map (\<lambda>(k, r). (k, r, user_of d r)) ms) (other d) of
           (Some e, d') \<Rightarrow> (Inl e, d')
         | (None, d') \<Rightarrow> (Inr (find_machines d' ids), d')))"

definition update_machine ::
  "env \<Rightarrow> ctx \<Rightarrow> nft_id \<Rightarrow> bool \<Rightarrow> (db \<Rightarrow> db) \<Rightarrow> db \<Rightarrow> arcade_machine_row option res \<times> db" where
  "update_machine env ctx k autoRenewLease other d =
     (case map_of (t_arcadeMachines d) k of
        None \<Rightarrow> (Inl (NotFoundUseCaseError ''ArcadeMachine not found'' ''ArcadeMachine''), d)
      | Some arcadeMachine \<Rightarrow>
      if \<not> currentUserOwns ctx [nft_userId arcadeMachine] then (Inl PermissionDeniedUseCaseError, d)
      else
      (case update_arcadeMachine k (\<lambda>r. nft_updatedAt r = nft_updatedAt arcadeMachine)
              (\<lambda>r. r\<lparr>am_autoRenewLease := autoRenewLease, nft_updatedAt := env_now env\<rparr>) (other d) of
         Inl e \<Rightarrow> (Inl e, other d)
       | Inr d' \<Rightarrow> (Inr (map_of (t_arcadeMachines d') k), d')))"

definition playing :: "db \<Rightarrow> nft_id \<Rightarrow> bool" where
  "playing d k \<longleftrightarrow> map_of (t_arcadeMachines d) k \<noteq> None \<and>
     count_rows (\<lambda>_ s. ps_arcadeMachineId s = k \<and> ps_state s \<noteq> FINISHED) (t_playSessions d) \<noteq> 0"

end
