(* ===== verification/Machine_Lists.thy ===== *)
theory Machine_Lists
  imports Arcade_Machines
begin

text \<open>
  \<open>listPlayableAndRandomize\<close> and \<open>dismantle\<close> of
  \<open>src/use_cases/arcade_machine_usecase.ts\<close>.  The raw SQL query is translated clause by
  clause; its two \<open>random()\<close> orders are given by random keys per machine.
\<close>

section \<open>The machines offered to a player\<close>

record list_args =
  la_userId :: "user_id option"
  la_manager :: user_id
  la_start :: date
  la_end :: date

definition sql_eq :: "string option \<Rightarrow> string option \<Rightarrow> bool" where
  "sql_eq a b \<longleftrightarrow> a \<noteq> None \<and> a = b"

text \<open>Placed, or the player's own, or the operator's; with fever left.\<close>

definition is_open :: "list_args \<Rightarrow> string \<Rightarrow> arcade_machine_row \<Rightarrow> bool" where
  "is_open a game r \<longleftrightarrow> am_game r = game \<and> nft_state r = IN_AKIVERSE \<and>
     (am_gameCenterId r \<noteq> None \<or> sql_eq (nft_userId r) (la_userId a) \<or>
      nft_userId r = Some (la_manager a)) \<and>
     (case am_feverSparkRemain r of None \<Rightarrow> True | Some n \<Rightarrow> n > 0)"

definition now_playing :: "list_args \<Rightarrow> db \<Rightarrow> nft_id \<Rightarrow> bool" where
  "now_playing a d k \<longleftrightarrow> list_ex (\<lambda>(_, s). ps_arcadeMachineId s = k \<and>
     (ps_state s = PLAYING \<or> ps_state s = READY) \<and> ps_createdAt s \<ge> la_start a) (t_playSessions d)"

text \<open>The player's plays of a machine today, not counting plays of an own machine.\<close>

definition todays_plays :: "list_args \<Rightarrow> db \<Rightarrow> nft_id \<Rightarrow> nat" where
  "todays_plays a d k =
     (let sessions = map fst (filter (\<lambda>(_, s). ps_arcadeMachineId s = k \<and>
            sql_eq (Some (ps_playerId s)) (la_userId a) \<and>
            la_start a \<le> ps_createdAt s \<and> ps_createdAt s \<le> la_end a \<and>
            ps_playerId s \<noteq> ps_arcadeMachineOwnerId s) (t_playSessions d))
      in length (filter (\<lambda>(_, p). pl_playSessionId p \<in> set sessions) (t_plays d)))"

text \<open>A group without rows does not exist, so a machine never played is not excluded.\<close>

definition exceeded :: "list_args \<Rightarrow> db \<Rightarrow> int \<Rightarrow> nft_id \<Rightarrow> bool" where
  "exceeded a d daily k \<longleftrightarrow> todays_plays a d k \<noteq> 0 \<and> int (todays_plays a d k) \<ge> daily"

definition candidates :: "list_args \<Rightarrow> db \<Rightarrow> string \<Rightarrow> (nft_id \<times> arcade_machine_row) list" where
  "candidates a d game =
     (case map_of (t_gameSettings d) game of
        None \<Rightarrow> []
      | Some gs \<Rightarrow> filter (\<lambda>(k, r). is_open a game r \<and> \<not> exceeded a d (gs_dailyMaxPlayCount gs) k)
                    (t_arcadeMachines d))"

text \<open>\<open>ORDER BY (case user_id when manager then 1 else 0), random()\<close>\<close>

definition random_order :: "list_args \<Rightarrow> (nft_id \<Rightarrow> rat) \<Rightarrow> (nft_id \<times> arcade_machine_row) list \<Rightarrow>
    (nft_id \<times> arcade_machine_row) list" where
  "random_order a key ms =
     sort_key (\<lambda>(k, r). if nft_userId r = Some (la_manager a) then 1 else 0 :: nat)
       (sort_key (\<lambda>(k, r). key k) ms)"

text \<open>The rows of the query: the id and whether the machine is being played.\<close>

definition playable_query ::
  "list_args \<Rightarrow> (nft_id \<Rightarrow> rat) \<Rightarrow> (nft_id \<Rightarrow> rat) \<Rightarrow> db \<Rightarrow> string \<Rightarrow> nat \<Rightarrow> nat \<Rightarrow> (nft_id \<times> bool) list" where
  "playable_query a key1 key2 d game requestCount maxPlayingCount =
     (let cs = candidates a d game;
          playing_query = take maxPlayingCount (random_order a key1 (filter (\<lambda>(k, r). now_playing a d k) cs));
          finished_query = take requestCount (random_order a key2 (filter (\<lambda>(k, r). \<not> now_playing a d k) cs))
      in take requestCount
           (map (\<lambda>(k, r). (k, True)) playing_query @ map (\<lambda>(k, r). (k, False)) finished_query))"

fun pick_ids :: "nat \<Rightarrow> nat \<Rightarrow> nat \<Rightarrow> nft_id list \<Rightarrow> (nft_id \<times> bool) list \<Rightarrow> nft_id list" where
  "pick_ids requestCount maxPlayingCount playingCount ids [] = ids"
| "pick_ids requestCount maxPlayingCount playingCount ids ((k, isPlaying) # rows) =
     (let (playingCount', ids') =
            (if \<not> isPlaying then (playingCount, ids @ [k])
             else if playingCount < maxPlayingCount then (playingCount + 1, ids @ [k])
             else (playingCount, ids)) in
      if length ids' > requestCount then ids'
      else pick_ids requestCount maxPlayingCount playingCount' ids' rows)"

definition listPlayableAndRandomize ::
  "list_args \<Rightarrow> (nft_id \<Rightarrow> rat) \<Rightarrow> (nft_id \<Rightarrow> rat) \<Rightarrow> (nat \<Rightarrow> rat) \<Rightarrow> db \<Rightarrow> string \<Rightarrow> nat \<Rightarrow> nat \<Rightarrow>
   (nft_id \<times> arcade_machine_row) list res" where
  "listPlayableAndRandomize a key1 key2 random d game requestCount maxPlayingCount =
     (case getArcadeMachineMetadata game of
        Inl _ \<Rightarrow> Inl (InvalidArgumentUseCaseError ''Game doesn't exist'')
      | Inr _ \<Rightarrow>
          if requestCount \<le> maxPlayingCount
          then Inl (InvalidArgumentUseCaseError ''maxPlayingCount is greater than requestCount'')
          else
            let rows = playable_query a key1 key2 d game requestCount maxPlayingCount in
            if rows = [] then Inr []
            else
              let ids = pick_ids requestCount maxPlayingCount 0 [] rows in
              Inr (shuffle random (find_machines d ids)))"

lemma set_random_order [simp]: "set (random_order a key ms) = set ms"
  by (simp add: random_order_def)

lemma pick_ids_subset: "set (pick_ids n m c ids rows) \<subseteq> set ids \<union> fst ` set rows"
proof (induction n m c ids rows rule: pick_ids.induct)
  case (2 n m c ids k b rows)
  then show ?case by (auto simp: Let_def split: if_splits prod.splits) (fastforce+)?
qed simp

lemma length_pick_ids: "length (pick_ids n m c ids rows) \<le> length ids + length rows"
proof (induction n m c ids rows rule: pick_ids.induct)
  case (2 n m c ids k b rows)
  then show ?case by (fastforce simp: Let_def split: if_splits prod.splits)
qed simp

lemma playable_query_candidate:
  "(k, b) \<in> set (playable_query a key1 key2 d game n m) \<Longrightarrow>
     \<exists>r. (k, r) \<in> set (candidates a d game) \<and> b = now_playing a d k"
  by (fastforce simp: playable_query_def Let_def dest!: in_set_takeD)

lemma distinct_subset_filter:
  "distinct (map fst t) \<Longrightarrow> length (filter (\<lambda>(k, r). k \<in> set ids) t) \<le> length ids"
proof -
  assume d: "distinct (map fst t)"
  have "length (filter (\<lambda>(k, r). k \<in> set ids) t) = card (set (map fst (filter (\<lambda>(k, r). k \<in> set ids) t)))"
    using d by (metis (no_types, lifting) distinct_card distinct_map_filter length_map)
  also have "\<dots> \<le> card (set ids)" by (rule card_mono) auto
  also have "\<dots> \<le> length ids" by (rule card_length)
  finally show ?thesis .
qed

section \<open>Dismantling\<close>

fun DISMANTLE_FEES :: "bool \<Rightarrow> int" where
  "DISMANTLE_FEES True = 13000"
| "DISMANTLE_FEES False = 40 * 10 ^ 18"

text \<open>\<open>gradeUp\<close>: the cabinet that is created and whether its grade went up.\<close>

definition gradeUp :: "rat \<Rightarrow> string \<Rightarrow> cabinet \<Rightarrow> string \<times> bool" where
  "gradeUp random nowCabinetGrade info =
     (let choice = \<lfloor>random * 100\<rfloor> in
      if choice < uc_gradeUp_percentage info then (uc_gradeUp_next info, True)
      else (nowCabinetGrade, False))"

record dismantle_plan =
  dp_teras :: int
  dp_akv :: int
  dp_upper :: "string \<times> bool"
  dp_lower :: "string \<times> bool"
  dp_machine :: arcade_machine_row

definition dismantle_read ::
  "ctx \<Rightarrow> nft_id \<Rightarrow> bool \<Rightarrow> rat \<Rightarrow> rat \<Rightarrow> db \<Rightarrow> dismantle_plan res" where
  "dismantle_read ctx k payTeras r1 r2 d =
     (case map_of (t_arcadeMachines d) k of
        None \<Rightarrow> Inl (NotFoundUseCaseError ''arcadeMachine is not found'' ''arcade machine'')
      | Some am \<Rightarrow>
      if \<not> currentUserOwns ctx [nft_userId am] then Inl PermissionDeniedUseCaseError
      else if nft_state am \<noteq> IN_AKIVERSE
      then Inl (IllegalStateUseCaseError ''ArcadeMachine not IN_AKIVERSE'')
      else if count_rows (\<lambda>_ s. ps_arcadeMachineId s = k \<and> (ps_state s = PLAYING \<or> ps_state s = READY))
                (t_playSessions d) \<noteq> 0
      then Inl (IllegalStateUseCaseError ''now playing'')
      else if am_maxEnergy am \<noteq> am_energy am
      then Inl (IllegalStateUseCaseError ''no mega spark'')
      else
      (case map_of (t_users d) (the (ctx_userId ctx)) of
         None \<Rightarrow> Inl (NotFoundUseCaseError ''user not found'' ''User'')
       | Some user \<Rightarrow>
       let requiredTerasBalance = (if payTeras then DISMANTLE_FEES True else 0);
           requiredAkvBalance = (if payTeras then 0 else DISMANTLE_FEES False) in
       if terasBalance user < requiredTerasBalance
       then Inl (IllegalStateUseCaseError ''Teras balance is insufficient.'')
       else if akvBalance user < requiredAkvBalance
       then Inl (IllegalStateUseCaseError ''AKV balance is insufficient.'')
       else
       (case (upperCabinets (am_upperCabinet am), lowerCabinets (am_lowerCabinet am)) of
          (Some uc, Some lc) \<Rightarrow>
            Inr \<lparr>dp_teras = requiredTerasBalance, dp_akv = requiredAkvBalance,
              dp_upper = gradeUp r1 (am_upperCabinet am) uc,
              dp_lower = gradeUp r2 (am_lowerCabinet am) lc, dp_machine = am\<rparr>
        | _ \<Rightarrow> Inl JsTypeError)))"

definition dismantled_part :: "env \<Rightarrow> ctx \<Rightarrow> string \<Rightarrow> ArcadePartCategory \<Rightarrow> string \<Rightarrow> arcade_part_row" where
  "dismantled_part env ctx dismantleId c s = \<lparr>nft_userId = ctx_userId ctx,
     nft_ownerWallet = ctx_walletAddress ctx, nft_physicalWallet = None, nft_state = IN_AKIVERSE,
     nft_lastBlock = 0, nft_lastTransactionIndex = 0, nft_updatedAt = env_now env,
     ap_category = c, ap_subCategory = s, ap_destroyedAt = None, ap_craftId = None,
     ap_createDismantleId = Some dismantleId\<rparr>"

text \<open>
  The nested write of \<open>arcadeMachine.update\<close>: the machine under the optimistic lock, its
  user's balances, the dismantle record and the three parts; one statement, so all or nothing.
\<close>

definition dismantle_queries ::
  "env \<Rightarrow> ctx \<Rightarrow> string \<Rightarrow> (nat \<Rightarrow> nft_id) \<Rightarrow> nft_id \<Rightarrow> date \<Rightarrow> int \<Rightarrow> dismantle_plan \<Rightarrow> query list" where
  "dismantle_queries env ctx dismantleId newId k lastUpdatedAt fever p =
     (let u = the (ctx_userId ctx) in
      [update_arcadeMachine k (\<lambda>r. nft_updatedAt r = lastUpdatedAt)
         (\<lambda>r. r\<lparr>am_destroyedAt := Some (env_now env), nft_updatedAt := env_now env\<rparr>),
       update_user (the (nft_userId (dp_machine p))) (\<lambda>_. True)
         (\<lambda>r. r\<lparr>terasBalance := terasBalance r - dp_teras p, akvBalance := akvBalance r - dp_akv p\<rparr>),
       create_dismantle dismantleId
         \<lparr>dm_userId = u, dm_arcadeMachineId = k, dm_feverSparkRemain = fever\<rparr>,
       create_arcadePart (newId 0) (dismantled_part env ctx dismantleId ROM (am_game (dp_machine p))),
       create_arcadePart (newId 1) (dismantled_part env ctx dismantleId UPPER_CABINET (fst (dp_upper p))),
       create_arcadePart (newId 2) (dismantled_part env ctx dismantleId LOWER_CABINET (fst (dp_lower p)))])"

record dismantle_response =
  dr_rom :: nft_id
  dr_upperCabinet :: nft_id
  dr_upperCabinetGradeUp :: bool
  dr_lowerCabinet :: nft_id
  dr_lowerCabinetGradeUp :: bool

text \<open>
  The steps after the reads: uninstall when placed, then the nested write with the update time the
  uninstallation left, then the burn of the row as written.
\<close>

definition dismantle_write ::
  "env \<Rightarrow> ctx \<Rightarrow> string \<Rightarrow> string \<Rightarrow> (nat \<Rightarrow> nft_id) \<Rightarrow> nft_id \<Rightarrow> date \<Rightarrow> dismantle_plan \<Rightarrow>
   (nat \<Rightarrow> db \<Rightarrow> db) \<Rightarrow> db \<Rightarrow> dismantle_response res \<times> db" where
  "dismantle_write env ctx dismantleId burnId newId k lastUpdatedAt p other d =
     (case am_feverSparkRemain (dp_machine p) of
        None \<Rightarrow> (Inl (JsError ''feverSparkRemain must not be null''), d)
      | Some fever \<Rightarrow>
      (case run_tx (dismantle_queries env ctx dismantleId newId k lastUpdatedAt fever p) d of
         Inl e \<Rightarrow> (Inl e, d)
       | Inr d1 \<Rightarrow>
       (case map_of (t_arcadeMachines d1) k of
          None \<Rightarrow> (Inl JsTypeError, d1)
        | Some updated \<Rightarrow>
        (case burnArcadeMachine env burnId k updated (user_of d1 updated) (other 2 d1) of
           (Inl e, d2) \<Rightarrow> (Inl e, d2)
         | (Inr _, d2) \<Rightarrow>
             (Inr \<lparr>dr_rom = newId 0, dr_upperCabinet = newId 1,
                dr_upperCabinetGradeUp = snd (dp_upper p), dr_lowerCabinet = newId 2,
                dr_lowerCabinetGradeUp = snd (dp_lower p)\<rparr>, d2)))))"

definition dismantle ::
  "env \<Rightarrow> ctx \<Rightarrow> string \<Rightarrow> string \<Rightarrow> (nat \<Rightarrow> nft_id) \<Rightarrow> nft_id \<Rightarrow> bool \<Rightarrow> rat \<Rightarrow> rat \<Rightarrow>
   (nat \<Rightarrow> db \<Rightarrow> db) \<Rightarrow> db \<Rightarrow> dismantle_response res \<times> db" where
  "dismantle env ctx dismantleId burnId newId k payTeras r1 r2 other d =
     (case dismantle_read ctx k payTeras r1 r2 d of
        Inl e \<Rightarrow> (Inl e, d)
      | Inr p \<Rightarrow>
      if truthy (am_gameCenterId (dp_machine p)) then
        (case uninstallArcadeMachineFromGameCenter env ctx k (\<lambda>d. d) (other 0 d) of
           (Inl e, d') \<Rightarrow> (Inl e, d')
         | (Inr uninstalled, d') \<Rightarrow>
             dismantle_write env ctx dismantleId burnId newId k
               (nft_updatedAt (the uninstalled)) p other (other 1 d'))
      else
        dismantle_write env ctx dismantleId burnId newId k (nft_updatedAt (dp_machine p)) p other (other 0 d))"

end
