(* ===== verification/Machine_Props.thy ===== *)
theory Machine_Props
  imports Machine_Lists Sample
begin

text \<open>
  Properties of \<open>Arcade_Machines\<close> and \<open>Machine_Lists\<close>: slots, capacity, the money of an
  installation, who may uninstall, what a player is offered, and what a dismantling does.
\<close>

section \<open>The smallest free position\<close>

lemma free_position_spec:
  assumes "sorted_wrt (<) ps" and "\<forall>p \<in> set ps. n \<le> p" and "1 \<le> n"
  shows "n \<le> free_position n (map Some ps)" and "free_position n (map Some ps) \<le> n + int (length ps)"
    and "free_position n (map Some ps) \<notin> set ps"
    and "\<forall>q. n \<le> q \<longrightarrow> q < free_position n (map Some ps) \<longrightarrow> q \<in> set ps"
proof -
  have "n \<le> free_position n (map Some ps) \<and> free_position n (map Some ps) \<le> n + int (length ps) \<and>
      free_position n (map Some ps) \<notin> set ps \<and>
      (\<forall>q. n \<le> q \<longrightarrow> q < free_position n (map Some ps) \<longrightarrow> q \<in> set ps)"
    using assms
  proof (induction ps arbitrary: n)
    case Nil
    then show ?case by simp
  next
    case (Cons p ps)
    show ?case
    proof (cases "p = n")
      case True
      have "\<forall>q \<in> set ps. n + 1 \<le> q" using Cons.prems True by auto
      let ?fp = "free_position (n + 1) (map Some ps)"
      have "sorted_wrt (<) ps" and "1 \<le> n + 1" using Cons.prems by simp_all
      from Cons.IH [OF this(1) \<open>\<forall>q \<in> set ps. n + 1 \<le> q\<close> this(2)]
      have ih: "n + 1 \<le> ?fp" "?fp \<le> n + 1 + int (length ps)" "?fp \<notin> set ps"
        "\<forall>q. n + 1 \<le> q \<longrightarrow> q < ?fp \<longrightarrow> q \<in> set ps" by blast+
      have fp: "free_position n (map Some (p # ps)) = ?fp" using True Cons.prems(3) by simp
      have "q \<in> set (p # ps)" if "n \<le> q" "q < ?fp" for q
      proof (cases "q = n")
        case False
        with that ih(4) [rule_format, of q] show ?thesis by simp
      qed (use True in simp)
      moreover have "?fp \<notin> set (p # ps)" using ih(1,3) True by auto
      moreover have "n \<le> ?fp" and "?fp \<le> n + int (length (p # ps))" using ih(1,2) by simp_all
      ultimately show ?thesis unfolding fp by blast
    next
      case False
      with Cons.prems have "n < p" by auto
      with Cons.prems show ?thesis by auto
    qed
  qed
  then show "n \<le> free_position n (map Some ps)" and "free_position n (map Some ps) \<le> n + int (length ps)"
    and "free_position n (map Some ps) \<notin> set ps"
    and "\<forall>q. n \<le> q \<longrightarrow> q < free_position n (map Some ps) \<longrightarrow> q \<in> set ps" by blast+
qed

lemma free_position_none: "free_position n (xs @ replicate k None) = free_position n xs"
proof (induction n xs rule: free_position.induct)
  case (1 n)
  then show ?case by (induction k) auto
qed auto

text \<open>The positions of a game center's machines, when every slot is used at most once.\<close>

definition placed :: "db \<Rightarrow> nft_id \<Rightarrow> (nft_id \<times> arcade_machine_row) list" where
  "placed d gc = filter (\<lambda>(k, r). am_gameCenterId r = Some gc \<and> am_position r \<noteq> None) (t_arcadeMachines d)"

definition positions :: "db \<Rightarrow> nft_id \<Rightarrow> int list" where
  "positions d gc = map (\<lambda>(k, r). the (am_position r)) (sort_key (\<lambda>(k, r). the (am_position r)) (placed d gc))"

lemma machines_in_positions:
  "\<exists>m. map (\<lambda>(k, r). am_position r) (machines_in d gc) = map Some (positions d gc) @ replicate m None"
proof -
  define ms where "ms = filter (\<lambda>(k, r). am_gameCenterId r = Some gc) (t_arcadeMachines d)"
  have placed: "placed d gc = filter (\<lambda>(k, r). am_position r \<noteq> None) ms"
    unfolding placed_def ms_def filter_filter by (rule filter_cong) auto
  have "map (\<lambda>(k, r). am_position r) (sort_key (\<lambda>(k, r). the (am_position r)) (placed d gc)) = map Some (positions d gc)"
    unfolding positions_def by (auto simp: placed_def)
  moreover have "map (\<lambda>(k, r). am_position r) (filter (\<lambda>(k, r). am_position r = None) ms) =
      replicate (length (filter (\<lambda>(k, r). am_position r = None) ms)) None"
    by (auto simp: map_replicate_const [symmetric] intro!: map_cong)
  ultimately show ?thesis
    unfolding machines_in_def Let_def ms_def [symmetric] placed [symmetric] by auto
qed

lemma positions_set: "set (positions d gc) = {p. \<exists>(k, r) \<in> set (t_arcadeMachines d). slot r = Some (gc, p)}"
  unfolding positions_def placed_def
  by (force simp: slot_def split: option.splits)

lemma positions_strict:
  assumes "slot_index.indexed d"
  shows "sorted_wrt (<) (positions d gc)"
proof -
  have keys: "distinct (map fst (t_arcadeMachines d))" using assms by (simp add: slot_index.indexed_def)
  have inj: "inj_on (\<lambda>(k, r). the (am_position r)) (set (placed d gc))"
  proof (rule inj_onI, clarify)
    fix k r k' r'
    assume "(k, r) \<in> set (placed d gc)" "(k', r') \<in> set (placed d gc)"
      and eq: "the (am_position r) = the (am_position r')"
    then obtain p where p: "map_of (t_arcadeMachines d) k = Some r" "map_of (t_arcadeMachines d) k' = Some r'"
      "slot r = Some (gc, p)" "slot r' = Some (gc, p)"
      using keys by (auto simp: placed_def slot_def)
    from slot_index.indexed_eq [OF assms this] p show "k = k' \<and> r = r'" by simp
  qed
  have "distinct (placed d gc)" using keys by (simp add: placed_def distinct_map)
  then have "distinct (positions d gc)"
    using inj unfolding positions_def by (simp add: distinct_map)
  moreover have "sorted (positions d gc)"
    unfolding positions_def by (metis sorted_sort_key)
  ultimately show ?thesis by (simp add: strict_sorted_iff)
qed

lemma positions_length: "length (positions d gc) \<le> length (machines_in d gc)"
proof -
  obtain m where "map (\<lambda>(k, r). am_position r) (machines_in d gc) = map Some (positions d gc) @ replicate m None"
    using machines_in_positions by blast
  then have "length (machines_in d gc) = length (positions d gc) + m"
    by (metis length_append length_map length_replicate)
  then show ?thesis by simp
qed

lemma install_read_steps:
  assumes "install_read ctx am gc h d = Inr p"
  obtains r g u user where "map_of (t_arcadeMachines d) am = Some r" and "map_of (t_gameCenters d) gc = Some g"
    and "ctx_userId ctx = Some u" and "nft_userId r = Some u" and "nft_state r = IN_AKIVERSE"
    and "gc_placementAllowed g" and "length (machines_in d gc) < getCapacity (gc_size g)"
    and "map_of (t_users d) u = Some user"
    and "nft_userId g = Some u \<or> getInstallingFee h \<le> of_int (terasBalance user)"
    and "p = \<lparr>ip_position = free_position 1 (map (\<lambda>(k, r). am_position r) (machines_in d gc)),
              ip_fee = getInstallingFee h, ip_centerOwner = nft_userId g\<rparr>"
proof -
  from assms obtain r where r: "map_of (t_arcadeMachines d) am = Some r"
    by (auto simp: install_read_def split: option.splits)
  with assms have own: "currentUserOwns ctx [nft_userId r]"
    by (auto simp: install_read_def split: if_splits)
  then obtain u where u: "ctx_userId ctx = Some u" "nft_userId r = Some u"
    by (auto simp: currentUserOwns_iff)
  from assms r own obtain g where g: "map_of (t_gameCenters d) gc = Some g"
    by (auto simp: install_read_def simp del: currentUserOwns.simps split: if_splits option.splits)
  show thesis
    using assms r own u(1) g
    by (auto simp: install_read_def Let_def simp del: currentUserOwns.simps split: if_splits option.splits
        intro!: that [OF r g u])
qed

lemma install_position:
  assumes "install_read ctx am gc h d = Inr p" and "slot_index.indexed d" and "arcadeMachine_tab.all_ok d"
    and "map_of (t_gameCenters d) gc = Some g"
  shows "1 \<le> ip_position p" and "ip_position p \<le> int (getCapacity (gc_size g))"
    and "\<forall>(k, r) \<in> set (t_arcadeMachines d). slot r \<noteq> Some (gc, ip_position p)"
    and "\<forall>q. 1 \<le> q \<longrightarrow> q < ip_position p \<longrightarrow> (\<exists>(k, r) \<in> set (t_arcadeMachines d). slot r = Some (gc, q))"
proof -
  obtain m where m: "map (\<lambda>(k, r). am_position r) (machines_in d gc) = map Some (positions d gc) @ replicate m None"
    using machines_in_positions by blast
  from assms(1) have pos: "ip_position p = free_position 1 (map Some (positions d gc))"
    and cap: "length (machines_in d gc) < getCapacity (gc_size g)"
    using assms(4) by (auto elim!: install_read_steps simp: m free_position_none)
  have ge: "\<forall>q \<in> set (positions d gc). 1 \<le> q"
    using assms(3) by (auto simp: positions_set arcadeMachine_tab.all_ok_def arcade_machine_ok_def slot_Some)
  note fp = free_position_spec [OF positions_strict [OF assms(2), of gc] ge order_refl]
  show "1 \<le> ip_position p" using fp(1) pos by simp
  show "ip_position p \<le> int (getCapacity (gc_size g))"
    using fp(2) pos cap positions_length [of d gc] by simp
  show "\<forall>(k, r) \<in> set (t_arcadeMachines d). slot r \<noteq> Some (gc, ip_position p)"
    using fp(3) pos by (auto simp: positions_set)
  show "\<forall>q. 1 \<le> q \<longrightarrow> q < ip_position p \<longrightarrow> (\<exists>(k, r) \<in> set (t_arcadeMachines d). slot r = Some (gc, q))"
    using fp(4) pos by (auto simp: positions_set)
qed

section \<open>Slots and capacity\<close>

text \<open>
  The invariant of game centers: every machine in a center stands at a position between 1 and the
  center's capacity, and no two share one.  It is what keeps a center from ever being overfull.
\<close>

definition centers_fit :: "db \<Rightarrow> bool" where
  "centers_fit d \<longleftrightarrow> slot_index.indexed d \<and>
     (\<forall>(k, r) \<in> set (t_arcadeMachines d). \<forall>gc g. am_gameCenterId r = Some gc \<longrightarrow>
        map_of (t_gameCenters d) gc = Some g \<longrightarrow>
        (\<exists>p. am_position r = Some p \<and> 1 \<le> p \<and> p \<le> int (getCapacity (gc_size g))))"

text \<open>What other requests may change while an installation runs.\<close>

definition respects_centers :: "db \<Rightarrow> db \<Rightarrow> bool" where
  "respects_centers d d' \<longleftrightarrow> centers_fit d' \<and> t_gameCenters d' = t_gameCenters d"

lemma add_teras_frame: "add_teras env u x d = Inr d' \<Longrightarrow> d' = put_users (t_users d') d"
  by (auto simp: add_teras_def user_tab.update_Inr put_defs)

lemma sub_teras_frame: "sub_teras env u x d = Inr d' \<Longrightarrow> d' = put_users (t_users d') d"
  by (auto simp: sub_teras_def user_tab.update_Inr put_defs)

lemma install_tx_steps:
  assumes "run_tx (install_queries env u owner am gc renew p) d = Inr d'"
  obtains d1 d2 where "place_machine env am gc (ip_position p) renew d = Inr d1"
    and "add_teras env owner (ip_fee p) d1 = Inr d2" and "sub_teras env u (ip_fee p) d2 = Inr d'"
  using assms by (auto simp: install_queries_def split: sum.splits)

lemma install_tx_machines:
  assumes "run_tx (install_queries env u owner am gc renew p) d = Inr d'"
  shows "\<exists>d1. place_machine env am gc (ip_position p) renew d = Inr d1 \<and>
    t_arcadeMachines d' = t_arcadeMachines d1 \<and> t_gameCenters d' = t_gameCenters d"
proof -
  from assms obtain d1 d2 where 1: "place_machine env am gc (ip_position p) renew d = Inr d1"
    and 2: "add_teras env owner (ip_fee p) d1 = Inr d2" and 3: "sub_teras env u (ip_fee p) d2 = Inr d'"
    by (rule install_tx_steps)
  have "t_arcadeMachines d' = t_arcadeMachines d1" and "t_gameCenters d' = t_gameCenters d1"
    using arg_cong [OF add_teras_frame [OF 2], of t_arcadeMachines] arg_cong [OF sub_teras_frame [OF 3], of t_arcadeMachines]
      arg_cong [OF add_teras_frame [OF 2], of t_gameCenters] arg_cong [OF sub_teras_frame [OF 3], of t_gameCenters]
    by (simp_all add: put_defs)
  moreover have "t_gameCenters d1 = t_gameCenters d"
    using 1 by (auto simp: place_machine_def arcadeMachine_tab.update_Inr put_defs)
  ultimately show ?thesis using 1 by auto
qed

lemma place_machine_fit:
  assumes "place_machine env am gc pos renew d = Inr d1" and "centers_fit d"
    and "1 \<le> pos" and "\<forall>g. map_of (t_gameCenters d) gc = Some g \<longrightarrow> pos \<le> int (getCapacity (gc_size g))"
  shows "centers_fit d1"
proof -
  have ix: "slot_index.indexed d1"
    using preservesD [OF slot_index.update_indexed] assms(1,2) unfolding place_machine_def centers_fit_def by blast
  define f where "f = (\<lambda>r. r\<lparr>am_position := Some pos, am_gameCenterId := Some gc,
              am_installedAt := Some (env_now env), am_autoRenewLease := renew, nft_updatedAt := env_now env\<rparr> :: arcade_machine_row)"
  have d1: "d1 = put_arcadeMachines (apply_row f am (t_arcadeMachines d)) d"
    using assms(1) unfolding place_machine_def f_def [symmetric] arcadeMachine_tab.update_Inr by (elim exE conjE)
  have g1: "t_gameCenters d1 = t_gameCenters d" by (simp add: d1 put_defs)
  have f: "t_arcadeMachines d1 = apply_row f am (t_arcadeMachines d)"
    "\<And>r. am_gameCenterId (f r) = Some gc" "\<And>r. am_position (f r) = Some pos"
    by (simp_all add: d1 f_def put_defs)
  show ?thesis
    unfolding centers_fit_def g1
  proof (intro conjI ballI allI impI, rule ix, clarify)
    fix k r gc' g
    assume "(k, r) \<in> set (t_arcadeMachines d1)" and gc: "am_gameCenterId r = Some gc'"
      and g: "map_of (t_gameCenters d) gc' = Some g"
    then consider "(k, r) \<in> set (t_arcadeMachines d)" | r0 where "r = f r0"
      unfolding f(1) by (blast dest: set_apply_row)
    then show "\<exists>p. am_position r = Some p \<and> 1 \<le> p \<and> p \<le> int (getCapacity (gc_size g))"
    proof cases
      case 1
      with assms(2) gc g show ?thesis unfolding centers_fit_def by blast
    next
      case 2
      with gc g f assms(3,4) show ?thesis by simp
    qed
  qed
qed

lemma install_cases:
  assumes "installArcadeMachineToGameCenter env ctx am gc renew h other d = (res, d')"
  obtains e where "install_read ctx am gc h d = Inl e" and "res = Inl e" and "d' = d"
  | p e where "install_read ctx am gc h d = Inr p" and "res = Inl e" and "d' = other d"
  | p owner d2 where "install_read ctx am gc h d = Inr p" and "ip_centerOwner p = Some owner"
      and "run_tx (install_queries env (the (ctx_userId ctx)) owner am gc renew p) (other d) = Inr d2"
      and "res = Inr (map_of (t_arcadeMachines d2) am)"
      and "d' = call (NotifyAmInstall (the (ctx_userId ctx)) owner am gc) d2"
proof (cases "install_read ctx am gc h d")
  case (Inl e)
  then have "res = Inl e" "d' = d" using assms unfolding installArcadeMachineToGameCenter_def by simp_all
  then show ?thesis using that(1) Inl by blast
next
  case (Inr p)
  then have w: "install_write env (the (ctx_userId ctx)) am gc renew p (other d) = (res, d')"
    using assms unfolding installArcadeMachineToGameCenter_def by simp
  show ?thesis
  proof (cases "ip_centerOwner p")
    case None
    then have "res = Inl (UnhandledUseCaseError ''ArcadeMachine update failed'')" "d' = other d"
      using w unfolding install_write_def by simp_all
    then show ?thesis using that(2) Inr by blast
  next
    case (Some owner)
    show ?thesis
    proof (cases "run_tx (install_queries env (the (ctx_userId ctx)) owner am gc renew p) (other d)")
      case (Inl e)
      then have "res = Inl (install_error e)" "d' = other d" using w Some unfolding install_write_def by simp_all
      then show ?thesis using that(2) Inr by blast
    next
      case tx: (Inr d2)
      then have "res = Inr (map_of (t_arcadeMachines d2) am)"
        "d' = call (NotifyAmInstall (the (ctx_userId ctx)) owner am gc) d2"
        using w Some unfolding install_write_def by simp_all
      then show ?thesis using that(3) Inr Some tx by blast
    qed
  qed
qed

text \<open>
  (C5) Installing keeps the game centers in order: if what other requests do meanwhile respects
  the centers' invariant, so does the installation, whatever its outcome; in particular the
  position chosen from a stale reading can never put two machines on one slot.
\<close>

theorem install_keeps_centers:
  assumes "installArcadeMachineToGameCenter env ctx am gc renew h other d = (res, d')"
    and "centers_fit d" and "arcadeMachine_tab.all_ok d" and "respects_centers d (other d)"
  shows "centers_fit d'"
  using assms(1)
proof (cases rule: install_cases)
  case 1
  with assms(2) show ?thesis by (simp only:)
next
  case 2
  with assms(4) show ?thesis by (simp only: respects_centers_def)
next
  case (3 p owner d2)
  obtain g where g: "map_of (t_gameCenters d) gc = Some g" using 3(1) by (rule install_read_steps)
  have ix: "slot_index.indexed d" using assms(2) by (simp add: centers_fit_def)
  note pos = install_position [OF 3(1) ix assms(3) g]
  have fit: "centers_fit (other d)" and gcs: "t_gameCenters (other d) = t_gameCenters d"
    using assms(4) by (simp_all add: respects_centers_def)
  from install_tx_machines [OF 3(3)] obtain d1
    where 1: "place_machine env am gc (ip_position p) renew (other d) = Inr d1"
    and eq: "t_arcadeMachines d2 = t_arcadeMachines d1" "t_gameCenters d2 = t_gameCenters (other d)" by blast
  have "centers_fit d1"
    by (rule place_machine_fit [OF 1 fit pos(1)]) (use pos(2) g gcs in simp)
  moreover have "t_gameCenters d1 = t_gameCenters (other d)"
    using 1 by (auto simp: place_machine_def arcadeMachine_tab.update_Inr put_defs)
  ultimately show ?thesis
    using eq unfolding 3(5) by (simp add: centers_fit_def slot_index.indexed_def call_def)
qed

text \<open>
  A game center in order is never overfull: it holds at most as many machines as its size
  allows.
\<close>

lemma center_within_capacity:
  assumes "centers_fit d" and "map_of (t_gameCenters d) gc = Some g"
  shows "length (machines_in d gc) \<le> getCapacity (gc_size g)"
proof -
  let ?c = "int (getCapacity (gc_size g))"
  obtain m where m: "map (\<lambda>(k, r). am_position r) (machines_in d gc) = map Some (positions d gc) @ replicate m None"
    using machines_in_positions by blast
  have "None \<notin> set (map (\<lambda>(k, r). am_position r) (machines_in d gc))"
    using assms by (force simp: centers_fit_def machines_in_def Let_def)
  then have "m = 0" unfolding m by (cases m) auto
  then have "length (machines_in d gc) = length (positions d gc)"
    using m by (metis append_Nil2 length_map replicate_0)
  moreover have "set (positions d gc) \<subseteq> {1..?c}"
    using assms by (force simp: positions_set centers_fit_def slot_Some)
  then have "card (set (positions d gc)) \<le> card {1..?c}" by (intro card_mono) simp_all
  moreover have "distinct (positions d gc)"
    using positions_strict [of d gc] assms(1) by (simp add: centers_fit_def strict_sorted_iff)
  ultimately show ?thesis by (simp add: distinct_card)
qed

lemma centers_fit_sample: "centers_fit sample_db"
  by (simp add: centers_fit_def sample_defs slot_index.indexed_def slot_def)

lemma sample_machines_ok: "arcadeMachine_tab.all_ok sample_db"
  by (simp add: arcadeMachine_tab.all_ok_def sample_defs arcade_machine_ok_def)

definition sample_installed :: "arcade_machine_row option res \<times> db" where
  "sample_installed = installArcadeMachineToGameCenter sample_env sample_ctx ''a1'' ''g1'' True 17 (\<lambda>d. d) sample_db"

lemma sample_install_read: "install_read sample_ctx ''a1'' ''g1'' 17 sample_db =
    Inr \<lparr>ip_position = 2, ip_fee = getInstallingFee 17, ip_centerOwner = Some ''u2''\<rparr>"
  by code_simp

lemma sample_install: "\<exists>row. installArcadeMachineToGameCenter sample_env sample_ctx ''a1'' ''g1'' True 17 (\<lambda>d. d) sample_db
    = (Inr row, snd sample_installed)"
proof -
  have "rounds (env_rnd sample_env)" by (simp add: sample_env_def rounds_round)
  then have fee: "env_rnd sample_env (of_int b + getInstallingFee 17) = b + 35"
    "env_rnd sample_env (of_int b - getInstallingFee 17) = b - 35" for b
    using rounded_fee [of "env_rnd sample_env" 17 b] by (simp_all add: exact_fee_def getCurrentHour1to24_def)
  have "\<exists>d'. run_tx (install_queries sample_env ''u1'' ''u2'' ''a1'' ''g1'' True
      \<lparr>ip_position = 2, ip_fee = getInstallingFee 17, ip_centerOwner = Some ''u2''\<rparr>) sample_db = Inr d'"
    by (simp add: install_queries_def place_machine_def add_teras_def sub_teras_def update_where_def put_defs
        sample_db_def sample_user_def sample_machine_def fee fee [of 0, simplified] check_arcadeMachine_def check_user_def collides_def slot_def)
  then show ?thesis
    unfolding sample_installed_def installArcadeMachineToGameCenter_def sample_install_read
    by (auto simp: install_write_def sample_ctx_def)
qed

theorem install_keeps_centers_witness:
  "centers_fit (snd sample_installed)"
proof -
  obtain row where row: "installArcadeMachineToGameCenter sample_env sample_ctx ''a1'' ''g1'' True 17 (\<lambda>d. d) sample_db
    = (Inr row, snd sample_installed)" using sample_install by blast
  show ?thesis
    by (rule install_keeps_centers [OF row centers_fit_sample sample_machines_ok])
      (simp add: respects_centers_def centers_fit_sample)
qed

lemma center_within_capacity_witness:
  "length (machines_in sample_db ''g1'') \<le> getCapacity (gc_size sample_center)"
  by (rule center_within_capacity [OF centers_fit_sample]) (simp add: sample_db_def)

section \<open>The money of an installation\<close>

lemma add_teras_find:
  assumes "add_teras env u x d = Inr d'"
  shows "map_of (t_users d') k = (if k = u then map_option (\<lambda>r. r\<lparr>terasBalance := env_rnd env (of_int (terasBalance r) + x)\<rparr>)
    (map_of (t_users d) u) else map_of (t_users d) k)" and "map_of (t_users d) u \<noteq> None"
  using user_tab.update_find(1) [OF assms [unfolded add_teras_def], of k] assms
  by (auto simp: add_teras_def user_tab.update_Inr)

lemma sub_teras_find:
  assumes "sub_teras env u x d = Inr d'"
  shows "map_of (t_users d') k = (if k = u then map_option (\<lambda>r. r\<lparr>terasBalance := env_rnd env (of_int (terasBalance r) - x)\<rparr>)
    (map_of (t_users d) u) else map_of (t_users d) k)" and "map_of (t_users d) u \<noteq> None"
  using user_tab.update_find(1) [OF assms [unfolded sub_teras_def], of k] assms
  by (auto simp: sub_teras_def user_tab.update_Inr)

definition teras_of :: "db \<Rightarrow> user_id \<Rightarrow> int" where
  "teras_of d u = (case map_of (t_users d) u of None \<Rightarrow> 0 | Some r \<Rightarrow> terasBalance r)"

text \<open>
  (C9) A successful installation moves exactly the fee of the hour from the installing user to
  the owner of the game center: whatever the floating point quotient, the rounding of the balance
  column restores the whole amount, nobody else's balance changes, and an owner who installs in an
  own center pays nothing.
\<close>

theorem install_moves_exact_fee:
  assumes "installArcadeMachineToGameCenter env ctx am gc renew h other d = (Inr row, d')"
    and "rounds (env_rnd env)" and "0 \<le> h" and "h < 24" 
  shows "\<exists>u g owner. ctx_userId ctx = Some u \<and> map_of (t_gameCenters d) gc = Some g \<and>
    nft_userId g = Some owner \<and>
    (\<forall>k. teras_of d' k = teras_of (other d) k + (if k = owner then exact_fee h else 0) - (if k = u then exact_fee h else 0))"
  using assms(1)
proof (cases rule: install_cases)
  case (3 p owner d2)
  from 3(1) obtain u g where u: "ctx_userId ctx = Some u" and g: "map_of (t_gameCenters d) gc = Some g"
    and p: "p = \<lparr>ip_position = free_position 1 (map (\<lambda>(k, r). am_position r) (machines_in d gc)),
              ip_fee = getInstallingFee h, ip_centerOwner = nft_userId g\<rparr>"
    by (rule install_read_steps)
  from 3(3) obtain e1 e2 where 1: "place_machine env am gc (ip_position p) renew (other d) = Inr e1"
    and 2: "add_teras env owner (ip_fee p) e1 = Inr e2" and e3: "sub_teras env u (ip_fee p) e2 = Inr d2"
    using install_tx_steps [of env u owner am gc renew p "other d" d2] u by auto
  have users: "t_users e1 = t_users (other d)"
    using 1 by (auto simp: place_machine_def arcadeMachine_tab.update_Inr put_defs)
  note fee = rounded_fee [OF assms(2-4)]
  have rows: "map_of (t_users (other d)) owner \<noteq> None" "map_of (t_users (other d)) u \<noteq> None"
    using add_teras_find(2) [OF 2] sub_teras_find(2) [OF e3] add_teras_find(1) [OF 2, of u] users
    by (auto split: if_splits)
  have "teras_of d2 k = teras_of (other d) k + (if k = owner then exact_fee h else 0) - (if k = u then exact_fee h else 0)" for k
    unfolding teras_of_def sub_teras_find(1) [OF e3] add_teras_find(1) [OF 2] users
    using rows fee by (cases "k = owner"; cases "k = u") (auto simp: p)
  then show ?thesis using u g 3(2) p 3(5) by (simp add: teras_of_def call_def)
qed simp_all

theorem install_moves_exact_fee_witness:
  "teras_of (snd sample_installed) ''u2'' = 35"
proof -
  obtain row where row: "installArcadeMachineToGameCenter sample_env sample_ctx ''a1'' ''g1'' True 17 (\<lambda>d. d) sample_db
    = (Inr row, snd sample_installed)" using sample_install by blast
  have "rounds (env_rnd sample_env)" by (simp add: sample_env_def rounds_round)
  note th = install_moves_exact_fee [OF row this]
  have ctx: "ctx_userId sample_ctx = Some ''u1''" by (simp add: sample_ctx_def)
  have g: "map_of (t_gameCenters sample_db) ''g1'' = Some sample_center" "nft_userId sample_center = Some ''u2''"
    and t: "teras_of sample_db ''u2'' = 0" and fee: "exact_fee 17 = 35"
    by (simp_all add: sample_defs teras_of_def exact_fee_def getCurrentHour1to24_def)
  from th have "teras_of (snd sample_installed) ''u2'' = teras_of sample_db ''u2'' +
      (if ''u2'' = ''u2'' then exact_fee 17 else 0) - (if ''u2'' = ''u1'' then exact_fee 17 else 0)"
    using ctx g by fastforce
  then show ?thesis by (simp add: t fee)
qed

text \<open>
  The fee check compares the balance with the unrounded quotient: at seven hours of the day
  a user who has exactly the fee is turned away.
\<close>

lemma exact_fee_not_enough:
  assumes "h \<in> {1, 4, 7, 10, 14, 17, 19}" and "ctx_userId ctx = Some u"
    and "map_of (t_users d) u = Some user" and "terasBalance user = exact_fee h"
    and "map_of (t_gameCenters d) gc = Some g" and "nft_userId g \<noteq> Some u"
  shows "install_read ctx am gc h d \<noteq> Inr p"
proof
  assume "install_read ctx am gc h d = Inr p"
  then obtain g' u' user' where "map_of (t_gameCenters d) gc = Some g'" and "ctx_userId ctx = Some u'"
    and "map_of (t_users d) u' = Some user'"
    and "nft_userId g' = Some u' \<or> getInstallingFee h \<le> of_int (terasBalance user')"
    by (rule install_read_steps)
  then have "getInstallingFee h \<le> of_int (exact_fee h)"
    using assms(2-6) by simp
  with assms(1) show False
    by (auto simp: getInstallingFee_def exact_fee_def getCurrentHour1to24_def INSTALLATION_FEE_OF_DAY_def
        day_fractions_def eval_nat_numeral)
qed

definition sample_poor :: db where
  "sample_poor = put_users [(''u1'', sample_user None 35), (''u2'', sample_user None 0)] sample_db"

lemma exact_fee_not_enough_witness:
  "exact_fee 17 = 35 \<and>
   install_read sample_ctx ''a1'' ''g1'' 17 sample_poor = Inl (InvalidArgumentUseCaseError ''Teras balance is insufficient'') \<and>
   install_read sample_ctx ''a1'' ''g1'' 17 sample_poor \<noteq> Inr \<lparr>ip_position = 2, ip_fee = 35, ip_centerOwner = Some ''u2''\<rparr>"
proof (intro conjI)
  show "exact_fee 17 = 35" by code_simp
  show "install_read sample_ctx ''a1'' ''g1'' 17 sample_poor = Inl (InvalidArgumentUseCaseError ''Teras balance is insufficient'')"
    by code_simp
  show "install_read sample_ctx ''a1'' ''g1'' 17 sample_poor \<noteq> Inr \<lparr>ip_position = 2, ip_fee = 35, ip_centerOwner = Some ''u2''\<rparr>"
    by (rule exact_fee_not_enough [where u = "''u1''"])
      (simp_all add: sample_ctx_def sample_poor_def put_defs sample_db_def exact_fee_def
        getCurrentHour1to24_def, simp_all add: sample_user_def sample_center_def)
qed

section \<open>Uninstalling\<close>

lemma uninstall_steps:
  assumes "uninstallArcadeMachineFromGameCenter env ctx am other d = (Inr row, d')"
  shows "\<exists>u r gc. ctx_userId ctx = Some u \<and> map_of (t_arcadeMachines d) am = Some r \<and> am_gameCenterId r = Some gc \<and>
      (nft_userId r = Some u \<or> (\<exists>g. map_of (t_gameCenters d) gc = Some g \<and> nft_userId g = Some u))"
    and "\<exists>r. map_of (t_arcadeMachines d') am = Some r \<and> row = Some r \<and> slot r = None \<and> am_gameCenterId r = None"
    and "k \<noteq> am \<Longrightarrow> map_of (t_arcadeMachines d') k = map_of (t_arcadeMachines (other d)) k"
    and "t_users d' = t_users (other d)" and "t_gameCenters d' = t_gameCenters (other d)"
proof -
  from assms obtain r where r: "map_of (t_arcadeMachines d) am = Some r"
    by (auto simp: uninstallArcadeMachineFromGameCenter_def split: option.splits)
  let ?gc = "Option.bind (am_gameCenterId r) (map_of (t_gameCenters d))"
  have own: "currentUserOwns ctx [nft_userId r] \<or> (\<exists>g. ?gc = Some g \<and> currentUserOwns ctx [nft_userId g])"
    and inst: "truthy (am_gameCenterId r)"
    using assms r by (auto simp: uninstallArcadeMachineFromGameCenter_def Let_def
        simp del: currentUserOwns.simps split: if_splits option.splits)
  from inst obtain gc where gc: "am_gameCenterId r = Some gc" by (auto simp: truthy_iff)
  from own gc r show "\<exists>u r gc. ctx_userId ctx = Some u \<and> map_of (t_arcadeMachines d) am = Some r \<and> am_gameCenterId r = Some gc \<and>
      (nft_userId r = Some u \<or> (\<exists>g. map_of (t_gameCenters d) gc = Some g \<and> nft_userId g = Some u))"
    by (auto simp: currentUserOwns_iff simp del: currentUserOwns.simps)
  have step: "(case remove_machine env am (other d) of Inl e \<Rightarrow> (Inl e, other d)
      | Inr d1 \<Rightarrow> (Inr (map_of (t_arcadeMachines d1) am),
          case ?gc of None \<Rightarrow> d1 | Some g \<Rightarrow> (case nft_userId g of None \<Rightarrow> d1
            | Some owner \<Rightarrow> call (NotifyAmUninstall (the (ctx_userId ctx)) owner am (the (am_gameCenterId r))) d1))) = (Inr row, d')"
    using assms own inst unfolding uninstallArcadeMachineFromGameCenter_def Let_def r option.case
    by (cases ?gc) (auto simp del: currentUserOwns.simps split: if_splits)
  then obtain d1 where d1: "remove_machine env am (other d) = Inr d1" and row: "row = map_of (t_arcadeMachines d1) am"
    by (cases "remove_machine env am (other d)") auto
  have d': "d' = d1 \<or> (\<exists>c. d' = call c d1)"
    using step d1 by (auto split: option.splits)
  have f: "t_arcadeMachines d' = t_arcadeMachines d1" "t_users d' = t_users d1" "t_gameCenters d' = t_gameCenters d1"
    using d' by (auto simp: call_def)
  note find = arcadeMachine_tab.update_find(1) [OF d1 [unfolded remove_machine_def]]
  show "\<exists>r. map_of (t_arcadeMachines d') am = Some r \<and> row = Some r \<and> slot r = None \<and> am_gameCenterId r = None"
    using d1 find [of am] row f by (auto simp: remove_machine_def arcadeMachine_tab.update_Inr slot_def)
  show "k \<noteq> am \<Longrightarrow> map_of (t_arcadeMachines d') k = map_of (t_arcadeMachines (other d)) k"
    using find [of k] f by simp
  show "t_users d' = t_users (other d)" and "t_gameCenters d' = t_gameCenters (other d)"
    using d1 f by (auto simp: remove_machine_def arcadeMachine_tab.update_Inr put_defs)
qed

text \<open>
  Only the machine's owner or the owner of the center it stands in can take it out; after
  that it occupies no slot, and no other machine, center or balance has changed.
\<close>

lemma uninstall_authorized:
  assumes "uninstallArcadeMachineFromGameCenter env ctx am other d = (Inr row, d')"
  shows "(\<exists>u r gc. ctx_userId ctx = Some u \<and> map_of (t_arcadeMachines d) am = Some r \<and> am_gameCenterId r = Some gc \<and>
      (nft_userId r = Some u \<or> (\<exists>g. map_of (t_gameCenters d) gc = Some g \<and> nft_userId g = Some u))) \<and>
    (\<exists>r. map_of (t_arcadeMachines d') am = Some r \<and> row = Some r \<and> slot r = None \<and> am_gameCenterId r = None) \<and>
    (\<forall>k. k \<noteq> am \<longrightarrow> map_of (t_arcadeMachines d') k = map_of (t_arcadeMachines (other d)) k) \<and>
    t_users d' = t_users (other d) \<and> t_gameCenters d' = t_gameCenters (other d)"
  using uninstall_steps [OF assms] by blast

definition sample_center_ctx :: ctx where
  "sample_center_ctx = \<lparr>ctx_userId = Some ''u2'', ctx_walletAddress = None, ctx_country = None\<rparr>"

definition sample_uninstalled :: "arcade_machine_row option res \<times> db" where
  "sample_uninstalled = uninstallArcadeMachineFromGameCenter sample_env sample_center_ctx ''a2'' (\<lambda>d. d) sample_db"

lemma uninstall_authorized_witness:
  "map_of (t_arcadeMachines (snd sample_uninstalled)) ''a1'' = map_of (t_arcadeMachines sample_db) ''a1''"
proof -
  have "case fst sample_uninstalled of Inl _ \<Rightarrow> False | Inr _ \<Rightarrow> True" by code_simp
  then obtain row where "uninstallArcadeMachineFromGameCenter sample_env sample_center_ctx ''a2'' (\<lambda>d. d) sample_db
      = (Inr row, snd sample_uninstalled)"
    unfolding sample_uninstalled_def
    by (cases "uninstallArcadeMachineFromGameCenter sample_env sample_center_ctx ''a2'' (\<lambda>d. d) sample_db")
      (auto split: sum.splits)
  note uninstall_authorized [OF this]
  moreover have "''a1'' \<noteq> ''a2''" by simp
  ultimately show ?thesis by metis
qed

section \<open>The machines offered to a player\<close>

lemma offered_steps:
  assumes "listPlayableAndRandomize a key1 key2 rnd d game requestCount maxPlayingCount = Inr ms"
    and "distinct (map fst (t_arcadeMachines d))" and "\<And>i. draw (rnd i)"
  shows "length ms \<le> requestCount" and "distinct (map fst ms)"
    and "(k, r) \<in> set ms \<Longrightarrow> map_of (t_arcadeMachines d) k = Some r \<and> is_open a game r \<and>
      (\<exists>gs. map_of (t_gameSettings d) game = Some gs \<and> \<not> exceeded a d (gs_dailyMaxPlayCount gs) k)"
proof -
  let ?rows = "playable_query a key1 key2 d game requestCount maxPlayingCount"
  let ?ids = "pick_ids requestCount maxPlayingCount 0 [] ?rows"
  from assms(1) have ms: "ms = [] \<or> ms = shuffle rnd (find_machines d ?ids)"
    by (auto simp: listPlayableAndRandomize_def Let_def split: sum.splits if_splits)
  have sm: "mset (shuffle rnd xs) = mset xs" for xs :: "(nft_id \<times> arcade_machine_row) list"
    by (rule shuffle_mset) (rule assms(3))
  have "length ?ids \<le> length ?rows" using length_pick_ids [of requestCount maxPlayingCount 0 "[]" ?rows] by simp
  also have "\<dots> \<le> requestCount" by (simp add: playable_query_def Let_def)
  finally have "length (find_machines d ?ids) \<le> requestCount"
    using distinct_subset_filter [OF assms(2), of ?ids] by (simp add: find_machines_def)
  then show "length ms \<le> requestCount"
    using ms sm [of "find_machines d ?ids"] by (metis le0 list.size(3) mset_eq_length)
  have "distinct (map fst (find_machines d ?ids))"
    using assms(2) by (simp add: find_machines_def distinct_map_filter)
  moreover have "mset (map fst (shuffle rnd xs)) = mset (map fst xs)" for xs :: "(nft_id \<times> arcade_machine_row) list"
    unfolding mset_map sm ..
  ultimately show "distinct (map fst ms)" using ms by (metis distinct.simps(1) list.simps(8) mset_eq_imp_distinct_iff)
  assume "(k, r) \<in> set ms"
  then have "(k, r) \<in> set (find_machines d ?ids)"
    using ms sm [of "find_machines d ?ids"] by (metis empty_iff list.set(1) mset_eq_setD)
  then have k: "(k, r) \<in> set (t_arcadeMachines d)" "k \<in> set ?ids" by (auto simp: find_machines_def)
  from k(2) pick_ids_subset [of requestCount maxPlayingCount 0 "[]" ?rows] obtain b where "(k, b) \<in> set ?rows"
    by auto
  then obtain r' where r': "(k, r') \<in> set (candidates a d game)" by (auto dest: playable_query_candidate)
  then have "(k, r') \<in> set (t_arcadeMachines d)"
    by (auto simp: candidates_def split: option.splits)
  with k(1) assms(2) have "r' = r" by (metis eq_key_imp_eq_value)
  with r' k(1) assms(2) show "map_of (t_arcadeMachines d) k = Some r \<and> is_open a game r \<and>
      (\<exists>gs. map_of (t_gameSettings d) game = Some gs \<and> \<not> exceeded a d (gs_dailyMaxPlayCount gs) k)"
    by (cases "map_of (t_gameSettings d) game") (auto simp: candidates_def)
qed

text \<open>
  The list offered to a player never has more machines than asked for, names every machine
  once, and each of them is of the game, in Akiverse, open to the player (placed, or the player's
  own, or the operator's), has fever left if it is in fever, and has not been played by this
  player more than the daily limit.
\<close>

lemma offered_machines_playable:
  assumes "listPlayableAndRandomize a key1 key2 rnd d game requestCount maxPlayingCount = Inr ms"
    and "distinct (map fst (t_arcadeMachines d))" and "\<And>i. draw (rnd i)"
  shows "length ms \<le> requestCount \<and> distinct (map fst ms) \<and>
    (\<forall>k r. (k, r) \<in> set ms \<longrightarrow> map_of (t_arcadeMachines d) k = Some r \<and> is_open a game r \<and>
      (\<exists>gs. map_of (t_gameSettings d) game = Some gs \<and> \<not> exceeded a d (gs_dailyMaxPlayCount gs) k))"
  using offered_steps [OF assms] by blast

definition sample_list_args :: list_args where
  "sample_list_args = \<lparr>la_userId = Some ''u1'', la_manager = ''op'', la_start = 0, la_end = 100\<rparr>"

definition sample_offer :: "(nft_id \<times> arcade_machine_row) list res" where
  "sample_offer = listPlayableAndRandomize sample_list_args (\<lambda>_. 0) (\<lambda>_. 0) (\<lambda>_. 0) sample_db ''BUBBLE_ATTACK'' 3 1"

lemma offered_machines_playable_witness:
  "\<exists>ms. sample_offer = Inr ms \<and> ms \<noteq> [] \<and> distinct (map fst ms)"
proof -
  have "case sample_offer of Inl _ \<Rightarrow> False | Inr ms \<Rightarrow> ms \<noteq> []" by code_simp
  then obtain ms where ms: "sample_offer = Inr ms" "ms \<noteq> []" by (auto split: sum.splits)
  have "distinct (map fst (t_arcadeMachines sample_db))" by (simp add: sample_db_def)
  have "draw 0" by (simp add: draw_def)
  from offered_machines_playable [OF ms(1) [unfolded sample_offer_def] \<open>distinct _\<close> this] ms
  show ?thesis by blast
qed

end
