(* ===== verification/Js_Values.thy ===== *)
theory Js_Values
  imports Prelude
begin

text \<open>
  The parts of the JavaScript library that turn values into strings and back: an integer's
  \<open>toString\<close>, \<open>Date.toISOString\<close> on a time in milliseconds, \<open>Array.join\<close> and
  \<open>parseFloat\<close>.  \<open>parseFloat\<close> reads a sign, digits, a fraction and an exponent and
  ignores the rest; None is \<open>NaN\<close>; the literal \<open>Infinity\<close> is not represented.  Its
  result is the decimal that was written, which is what \<open>Decimal\<close> arithmetic makes of the
  double for up to 15 digits.
\<close>

section \<open>Numbers\<close>

definition digit_char :: "nat \<Rightarrow> char" where
  "digit_char n = char_of (48 + n)"

definition is_digit :: "char \<Rightarrow> bool" where
  "is_digit c \<longleftrightarrow> 48 \<le> (of_char c :: nat) \<and> (of_char c :: nat) \<le> 57"

definition digit_value :: "char \<Rightarrow> nat" where
  "digit_value c = of_char c - 48"

fun nat_string :: "nat \<Rightarrow> string" where
  "nat_string n = (if n < 10 then [digit_char n] else nat_string (n div 10) @ [digit_char (n mod 10)])"

declare nat_string.simps [simp del]

definition int_string :: "int \<Rightarrow> string" where
  "int_string i = (if i < 0 then ''-'' @ nat_string (nat (- i)) else nat_string (nat i))"

definition digits_value :: "string \<Rightarrow> nat" where
  "digits_value s = foldl (\<lambda>n c. 10 * n + digit_value c) 0 s"

lemma digit_char_value [simp]: "n < 10 \<Longrightarrow> digit_value (digit_char n) = n" "n < 10 \<Longrightarrow> is_digit (digit_char n)"
  by (simp_all add: digit_value_def digit_char_def is_digit_def)

lemma digits_value_snoc [simp]: "digits_value (s @ [c]) = 10 * digits_value s + digit_value c"
  by (simp add: digits_value_def)

lemma nat_string_digits: "list_all is_digit (nat_string n)"
  by (induction n rule: nat_string.induct) (subst nat_string.simps, simp)

lemma nat_string_nonempty: "nat_string n \<noteq> []"
  by (subst nat_string.simps) simp

lemma digits_value_nat_string [simp]: "digits_value (nat_string n) = n"
proof (induction n rule: nat_string.induct)
  case (1 n)
  then show ?case by (subst nat_string.simps) (simp add: digits_value_def)
qed

lemma nat_string_inj: "nat_string m = nat_string n \<Longrightarrow> m = n"
  by (metis digits_value_nat_string)

section \<open>parseFloat\<close>

definition is_space :: "char \<Rightarrow> bool" where
  "is_space c \<longleftrightarrow> c = CHR '' '' \<or> 9 \<le> (of_char c :: nat) \<and> (of_char c :: nat) \<le> 13"

fun split_sign :: "string \<Rightarrow> int \<times> string" where
  "split_sign [] = (1, [])"
| "split_sign (c # s) = (if c = CHR ''-'' then (-1, s) else if c = CHR ''+'' then (1, s) else (1, c # s))"

fun split_fraction :: "string \<Rightarrow> string \<times> string" where
  "split_fraction [] = ([], [])"
| "split_fraction (c # s) =
     (if c = CHR ''.'' then (takeWhile is_digit s, dropWhile is_digit s) else ([], c # s))"

text \<open>The exponent counts only with at least one digit.\<close>

fun exponent :: "string \<Rightarrow> int" where
  "exponent [] = 0"
| "exponent (c # s) =
     (if c = CHR ''e'' \<or> c = CHR ''E'' then
        (let (sgn, r) = split_sign s in sgn * int (digits_value (takeWhile is_digit r)))
      else 0)"

definition scale10 :: "int \<Rightarrow> decimal \<Rightarrow> decimal" where
  "scale10 e x = (if e < 0 then x / 10 ^ nat (- e) else x * 10 ^ nat e)"

definition parseFloat :: "string \<Rightarrow> decimal option" where
  "parseFloat s =
     (let (sgn, s1) = split_sign (dropWhile is_space s);
          whole = takeWhile is_digit s1;
          (frac, s2) = split_fraction (dropWhile is_digit s1)
      in if whole = [] \<and> frac = [] then None
         else Some (scale10 (exponent s2)
                (of_int (sgn * int (digits_value (whole @ frac))) / 10 ^ length frac)))"

lemma is_digit_not: "is_digit c \<Longrightarrow> \<not> is_space c \<and> c \<noteq> CHR ''-'' \<and> c \<noteq> CHR ''+''"
  by (auto simp: is_digit_def is_space_def)

lemma parseFloat_nat_string: "parseFloat (nat_string n) = Some (of_nat n)"
proof -
  obtain c s where s: "nat_string n = c # s" using nat_string_nonempty [of n] by (cases "nat_string n") auto
  have all: "\<forall>c \<in> set (nat_string n). is_digit c" using nat_string_digits [of n] by (simp add: list_all_iff)
  then have c: "is_digit c" by (simp add: s)
  have 1: "dropWhile is_space (nat_string n) = nat_string n" using is_digit_not [OF c] by (simp add: s)
  have 2: "split_sign (nat_string n) = (1, nat_string n)" using is_digit_not [OF c] by (simp add: s)
  have 3: "takeWhile is_digit (nat_string n) = nat_string n" using all by (simp add: takeWhile_eq_all_conv)
  have 4: "dropWhile is_digit (nat_string n) = []" using all by (simp add: dropWhile_eq_Nil_conv)
  show ?thesis
    unfolding parseFloat_def 1 2 Let_def prod.case 3 4 using nat_string_nonempty [of n]
    by (simp add: scale10_def)
qed

section \<open>Times and joined strings\<close>

definition pad_start :: "nat \<Rightarrow> string \<Rightarrow> string" where
  "pad_start w s = replicate (w - length s) (CHR ''0'') @ s"

text \<open>The proleptic Gregorian date of a day counted from 1970-01-01.\<close>

definition civil_date :: "int \<Rightarrow> int \<times> int \<times> int" where
  "civil_date days =
     (let z = days + 719468; era = z div 146097; doe = z mod 146097;
          yoe = (doe - doe div 1460 + doe div 36524 - doe div 146096) div 365;
          doy = doe - (365 * yoe + yoe div 4 - yoe div 100);
          mp = (5 * doy + 2) div 153;
          m = (if mp < 10 then mp + 3 else mp - 9)
      in (yoe + era * 400 + (if m \<le> 2 then 1 else 0), m, doy - (153 * mp + 2) div 5 + 1))"

definition year_string :: "int \<Rightarrow> string" where
  "year_string y =
     (if 0 \<le> y \<and> y \<le> 9999 then pad_start 4 (nat_string (nat y))
      else if y < 0 then ''-'' @ pad_start 6 (nat_string (nat (- y)))
      else ''+'' @ pad_start 6 (nat_string (nat y)))"

definition toISOString :: "date \<Rightarrow> string" where
  "toISOString ms =
     (let (y, m, d) = civil_date (ms div 86400000); t = ms mod 86400000;
          p = (\<lambda>w i. pad_start w (nat_string (nat i)))
      in year_string y @ ''-'' @ p 2 m @ ''-'' @ p 2 d @ ''T'' @ p 2 (t div 3600000) @ '':'' @
         p 2 (t div 60000 mod 60) @ '':'' @ p 2 (t div 1000 mod 60) @ ''.'' @ p 3 (t mod 1000) @ ''Z'')"

fun join :: "string \<Rightarrow> string list \<Rightarrow> string" where
  "join sep [] = []"
| "join sep [s] = s"
| "join sep (s # t # ss) = s @ sep @ join sep (t # ss)"

end
