(* ===== verification/Play_Game.thy ===== *)
theory Play_Game
  imports Arcade_Machines Js_Values
begin

text \<open>
  \<open>src/use_cases/play_game_usecase.ts\<close> and \<open>src/use_cases/play_manager_usecase.ts\<close>:
  the session of a player on a machine, the plays in it, the rewards and the machine's energy when
  a play is won, and the periodic clean-up.  The hash of a session token and SHA-256 are
  parameters.  Each operation reads a snapshot and writes later; the change by other requests in
  between is an argument.  An id in a \<open>where\<close> clause that is \<open>undefined\<close> is no condition
  (the documented behaviour of the Prisma client).
\<close>

section \<open>Starting a session\<close>

definition where_user :: "ctx \<Rightarrow> user_id \<Rightarrow> bool" where
  "where_user ctx u = (case ctx_userId ctx of None \<Rightarrow> True | Some v \<Rightarrow> u = v)"

definition plays_of :: "db \<Rightarrow> string \<Rightarrow> (string \<times> play_row) list" where
  "plays_of d sessionId = filter (\<lambda>(_, p). pl_playSessionId p = sessionId) (t_plays d)"

definition isPlayableArcadeMachine :: "ctx \<Rightarrow> user_id \<Rightarrow> arcade_machine_row \<Rightarrow> bool" where
  "isPlayableArcadeMachine ctx manager r =
     (if nft_state r \<noteq> IN_AKIVERSE then False
      else if (case am_feverSparkRemain r of None \<Rightarrow> False | Some n \<Rightarrow> n \<le> 0) then False
      else if currentUserOwns ctx [nft_userId r] then True
      else if nft_userId r = Some manager then True
      else if am_gameCenterId r \<noteq> None then True
      else False)"

text \<open>The plays of the user on the machine in the sessions created today.\<close>

definition today_played :: "ctx \<Rightarrow> date \<Rightarrow> date \<Rightarrow> nft_id \<Rightarrow> db \<Rightarrow> int" where
  "today_played ctx start fin arcadeMachineId d =
     sum_list (map (\<lambda>(k, _). int (length (plays_of d k)))
       (filter (\<lambda>(_, s). ps_arcadeMachineId s = arcadeMachineId \<and> where_user ctx (ps_playerId s) \<and>
                         start \<le> ps_createdAt s \<and> ps_createdAt s \<le> fin) (t_playSessions d)))"

definition discard_queries :: "env \<Rightarrow> ctx \<Rightarrow> query list" where
  "discard_queries env ctx =
     [\<lambda>d. update_many t_plays put_plays check_play
            (\<lambda>_ p. pl_result p = None \<and>
               (case map_of (t_playSessions d) (pl_playSessionId p) of
                  None \<Rightarrow> False | Some s \<Rightarrow> where_user ctx (ps_playerId s)))
            (\<lambda>p. p\<lparr>pl_result := Some DISCONNECTED, pl_updatedAt := env_now env\<rparr>) d,
      update_many t_playSessions put_playSessions check_playSession
        (\<lambda>_ s. where_user ctx (ps_playerId s) \<and> ps_state s \<noteq> FINISHED)
        (\<lambda>s. s\<lparr>ps_state := FINISHED, ps_updatedAt := env_now env\<rparr>)]"

record session_plan =
  sp_machine :: arcade_machine_row
  sp_setting :: game_setting_row
  sp_easy :: bool
  sp_maxPlayCount :: int
  sp_discard :: bool

definition session_read ::
  "env \<Rightarrow> ctx \<Rightarrow> user_id \<Rightarrow> date \<Rightarrow> date \<Rightarrow> nft_id \<Rightarrow> db \<Rightarrow> session_plan res" where
  "session_read env ctx manager start fin arcadeMachineId d =
     (case map_of (t_arcadeMachines d) arcadeMachineId of
        None \<Rightarrow> Inl (NotFoundUseCaseError ''arcade machine not found'' ''ArcadeMachine'')
      | Some am \<Rightarrow>
      if \<not> isPlayableArcadeMachine ctx manager am
      then Inl (IllegalStateUseCaseError ''this arcade machine is cannot play'')
      else
      (case games (am_game am) of
         None \<Rightarrow> Inl JsTypeError
       | Some metadata \<Rightarrow>
       if \<not> enabled metadata then Inl (IllegalStateUseCaseError ''this arcade machine is cannot play'')
       else
       (case map_of (t_gameSettings d) (am_game am) of
          None \<Rightarrow> Inl (NotFoundUseCaseError ''game setting not found'' ''GameSetting'')
        | Some gs \<Rightarrow>
        let easyModeCount = count_rows (\<lambda>(u, category, subCategory) endAt. where_user ctx u \<and>
              category = ''EASY_MODE'' \<and> subCategory = ''ALL'' \<and> endAt \<ge> env_now env) (t_activeBoosters d);
            owns = currentUserOwns ctx [nft_userId am];
            canPlayCount = (if owns then gs_dailyMaxPlayCount gs
              else gs_dailyMaxPlayCount gs - today_played ctx start fin arcadeMachineId d) in
        if \<not> owns \<and> canPlayCount \<le> 0
        then Inl (IllegalStateUseCaseError ''Already exceeded the number of times we can play today'')
        else
          Inr \<lparr>sp_machine = am, sp_setting = gs, sp_easy = easyModeCount > 0, sp_maxPlayCount = canPlayCount,
            sp_discard = count_rows (\<lambda>_ s. where_user ctx (ps_playerId s) \<and> ps_state s \<noteq> FINISHED)
              (t_playSessions d) > 0\<rparr>)))"

text \<open>
  The new row; without a user the client rejects the creation, and without an owner as well
  (\<open>arcadeMachine.userId!\<close>).
\<close>

definition new_session :: "env \<Rightarrow> user_id \<Rightarrow> user_id \<Rightarrow> user_id option \<Rightarrow> nft_id \<Rightarrow> string \<Rightarrow> session_plan \<Rightarrow>
    play_session_row" where
  "new_session env player owner centerOwner arcadeMachineId tokenHash p =
     \<lparr>ps_playerId = player, ps_arcadeMachineId = arcadeMachineId, ps_arcadeMachineOwnerId = owner,
      ps_gameCenterId = am_gameCenterId (sp_machine p), ps_gameCenterOwnerId = centerOwner,
      ps_difficulty = (if sp_easy p then gs_easyDifficulty (sp_setting p) else gs_difficulty (sp_setting p)),
      ps_targetScore = (if sp_easy p then gs_easyTargetScore (sp_setting p) else gs_targetScore (sp_setting p)),
      ps_maxPlayCount = Some (sp_maxPlayCount p), ps_authToken = tokenHash, ps_state = READY,
      ps_fever = (am_feverSparkRemain (sp_machine p) \<noteq> None), ps_endedAt = None,
      ps_createdAt = env_now env, ps_updatedAt = env_now env\<rparr>"

definition session_error :: "use_case_error \<Rightarrow> use_case_error" where
  "session_error e =
     (if e = PrismaKnownRequestError ''P2002''
      then ConflictUseCaseError ''Arcade machine is already playing other player. Or already playing session exists.''
      else e)"

definition create_session ::
  "env \<Rightarrow> ctx \<Rightarrow> user_id option \<Rightarrow> nft_id \<Rightarrow> string \<Rightarrow> string \<Rightarrow> session_plan \<Rightarrow> db \<Rightarrow> play_session_row res \<times> db" where
  "create_session env ctx centerOwner arcadeMachineId newId tokenHash p d =
     (case (ctx_userId ctx, nft_userId (sp_machine p)) of
        (Some player, Some owner) \<Rightarrow>
          let row = new_session env player owner centerOwner arcadeMachineId tokenHash p in
          (case create_playSession newId row d of
             Inl e \<Rightarrow> (Inl (session_error e), d)
           | Inr d' \<Rightarrow> (Inr row, d'))
      | _ \<Rightarrow> (Inl (JsError ''PrismaClientValidationError''), d))"

definition startPlaySession ::
  "env \<Rightarrow> ctx \<Rightarrow> user_id \<Rightarrow> date \<Rightarrow> date \<Rightarrow> (string \<Rightarrow> string) \<Rightarrow> nft_id \<Rightarrow> string \<Rightarrow> string \<Rightarrow>
   (nat \<Rightarrow> db \<Rightarrow> db) \<Rightarrow> db \<Rightarrow> play_session_row res \<times> db" where
  "startPlaySession env ctx manager start fin hash arcadeMachineId newId sessionToken other d =
     (case session_read env ctx manager start fin arcadeMachineId d of
        Inl e \<Rightarrow> (Inl e, d)
      | Inr p \<Rightarrow>
      let centerOwner = Option.bind (Option.bind (am_gameCenterId (sp_machine p)) (map_of (t_gameCenters d))) nft_userId;
          tokenHash = hash sessionToken;
          d1 = other 0 d in
      if sp_discard p then
        (case run_tx (discard_queries env ctx) d1 of
           Inl e \<Rightarrow> (Inl e, d1)
         | Inr d2 \<Rightarrow> create_session env ctx centerOwner arcadeMachineId newId tokenHash p (other 1 d2))
      else create_session env ctx centerOwner arcadeMachineId newId tokenHash p d1)"

section \<open>Ending a session, starting a play\<close>

definition find_session :: "(string \<Rightarrow> string) \<Rightarrow> string \<Rightarrow> db \<Rightarrow> (string \<times> play_session_row) option" where
  "find_session hash token d = find (\<lambda>(_, s). ps_authToken s = hash token) (t_playSessions d)"

text \<open>The quest and ranking updates that follow are recorded calls.\<close>

definition finishPlaySession ::
  "env \<Rightarrow> (string \<Rightarrow> string) \<Rightarrow> string \<Rightarrow> (db \<Rightarrow> db) \<Rightarrow> db \<Rightarrow> play_session_row res \<times> db" where
  "finishPlaySession env hash token other d =
     (case find_session hash token d of
        None \<Rightarrow> (Inl (NotFoundUseCaseError ''play session not found'' ''PlaySession''), d)
      | Some (k, s) \<Rightarrow>
      if ps_state s = PLAYING then (Inl (IllegalStateUseCaseError ''play session state mismatch''), d)
      else if ps_state s = FINISHED then (Inr s, d)
      else
      (case update_playSession k (\<lambda>_. True)
              (\<lambda>s. s\<lparr>ps_state := FINISHED, ps_endedAt := Some (env_now env), ps_updatedAt := env_now env\<rparr>) (other d) of
         Inl e \<Rightarrow> (Inl e, other d)
       | Inr d' \<Rightarrow>
           (Inr (the (map_of (t_playSessions d') k)),
            call (RankingFinishPlaySession k) (call (QuestCheckAndUpdate (ps_playerId s)) d'))))"

definition new_play :: "env \<Rightarrow> string \<Rightarrow> play_row" where
  "new_play env sessionId = \<lparr>pl_playSessionId = sessionId, pl_endedAt = None, pl_score = None, pl_result = None,
     pl_ownerTerasReward = None, pl_playerTerasReward = None, pl_megaSpark = False,
     pl_terasBoosterRatio = None, pl_createdAt = env_now env, pl_updatedAt = env_now env\<rparr>"

definition start_play_queries :: "env \<Rightarrow> string \<Rightarrow> string \<Rightarrow> query list" where
  "start_play_queries env sessionId newId =
     [update_playSession sessionId (\<lambda>s. ps_state s = READY)
        (\<lambda>s. s\<lparr>ps_state := PLAYING, ps_updatedAt := env_now env\<rparr>),
      create_play newId (new_play env sessionId)]"

definition startPlay ::
  "env \<Rightarrow> (string \<Rightarrow> string) \<Rightarrow> string \<Rightarrow> string \<Rightarrow> (db \<Rightarrow> db) \<Rightarrow> db \<Rightarrow> unit res \<times> db" where
  "startPlay env hash newId token other d =
     (case find_session hash token d of
        None \<Rightarrow> (Inl (NotFoundUseCaseError ''play session not found'' ''PlaySession''), d)
      | Some (k, s) \<Rightarrow>
      if ps_state s \<noteq> READY then (Inl (IllegalStateUseCaseError ''play session is already finished''), d)
      else if list_ex (\<lambda>(_, p). pl_endedAt p = None) (plays_of d k)
      then (Inl (IllegalStateUseCaseError ''playing session found''), d)
      else if (case ps_maxPlayCount s of None \<Rightarrow> False | Some m \<Rightarrow> m \<noteq> 0 \<and> m \<le> int (length (plays_of d k)))
      then (Inl (IllegalStateUseCaseError ''Already exceeded the number of times we can play today''), d)
      else
      (case run_tx (start_play_queries env k newId) (other d) of
         Inl e \<Rightarrow>
           (Inl (if e = PrismaKnownRequestError ''P2025'' then ConflictUseCaseError ''play is already started'' else e),
            other d)
       | Inr d' \<Rightarrow> (Inr (), call (RewardPlayCount (ps_playerId s)) d')))"

end
