(* ===== verification/Play_Finish.thy ===== *)
theory Play_Finish
  imports Play_Game
begin

text \<open>
  The running play (\<open>inProgress\<close>, \<open>finishPlay\<close>) of
  \<open>src/use_cases/play_game_usecase.ts\<close> and the clean-up of
  \<open>src/use_cases/play_manager_usecase.ts\<close>.
\<close>

section \<open>The current play\<close>

record current_play =
  cp_sessionId :: string
  cp_session :: play_session_row
  cp_playId :: string
  cp_play :: play_row
  cp_machine :: arcade_machine_row

text \<open>The foreign key guarantees the machine; a missing one is a \<open>TypeError\<close> later on.\<close>

definition getCurrentPlayWithSession :: "(string \<Rightarrow> string) \<Rightarrow> string \<Rightarrow> db \<Rightarrow> current_play res" where
  "getCurrentPlayWithSession hash token d =
     (case find_session hash token d of
        None \<Rightarrow> Inl (NotFoundUseCaseError ''play session not found'' ''PlaySession'')
      | Some (k, s) \<Rightarrow>
      (case filter (\<lambda>(_, p). pl_endedAt p = None) (plays_of d k) of
         [] \<Rightarrow> Inl (NotFoundUseCaseError ''play session not found'' ''PlaySession'')
       | (pk, p) # _ \<Rightarrow>
       if ps_state s \<noteq> PLAYING then Inl (IllegalStateUseCaseError ''illegal play session state'')
       else
       (case map_of (t_arcadeMachines d) (ps_arcadeMachineId s) of
          None \<Rightarrow> Inl JsTypeError
        | Some am \<Rightarrow> Inr \<lparr>cp_sessionId = k, cp_session = s, cp_playId = pk, cp_play = p, cp_machine = am\<rparr>)))"

definition SCORE_SIGN_KEY_1 :: string where
  "SCORE_SIGN_KEY_1 = ''00BWR_l2OkcYcnVl-kTQCO3Wc_K8n4H7S0dhEqnTbdc''"

definition SCORE_SIGN_KEY_2 :: string where
  "SCORE_SIGN_KEY_2 = ''Jk2IA9x9J_8F5QUv2PO5nXyFroy6s5HHEAb-AeRA290''"

definition isValidScore :: "(string \<Rightarrow> string) \<Rightarrow> date \<Rightarrow> int \<Rightarrow> string \<Rightarrow> string \<Rightarrow> current_play \<Rightarrow> bool" where
  "isValidScore sha256 timeStamp score salt signature cur =
     (if pl_createdAt (cp_play cur) > timeStamp then False
      else sha256 (join '','' [SCORE_SIGN_KEY_1,
             sha256 (join '','' [SCORE_SIGN_KEY_2, salt, cp_sessionId cur, toISOString timeStamp, int_string score])])
           = signature)"

text \<open>The signature is checked only when the time, the salt and the signature are all there.\<close>

definition score_rejected ::
  "(string \<Rightarrow> string) \<Rightarrow> date option \<Rightarrow> string option \<Rightarrow> string option \<Rightarrow> int \<Rightarrow> current_play \<Rightarrow> bool" where
  "score_rejected sha256 timeStamp salt signature score cur =
     (case timeStamp of
        None \<Rightarrow> False
      | Some t \<Rightarrow> truthy salt \<and> truthy signature \<and>
                  \<not> isValidScore sha256 t score (the salt) (the signature) cur)"

definition inProgress ::
  "env \<Rightarrow> (string \<Rightarrow> string) \<Rightarrow> (string \<Rightarrow> string) \<Rightarrow> string \<Rightarrow> int option \<Rightarrow> date option \<Rightarrow> string option \<Rightarrow>
   string option \<Rightarrow> (db \<Rightarrow> db) \<Rightarrow> db \<Rightarrow> unit res \<times> db" where
  "inProgress env hash sha256 token score timeStamp salt signature other d =
     (case getCurrentPlayWithSession hash token d of
        Inl e \<Rightarrow> (Inl e, d)
      | Inr cur \<Rightarrow>
      if (case score of None \<Rightarrow> False
          | Some n \<Rightarrow> n \<noteq> 0 \<and> score_rejected sha256 timeStamp salt signature n cur)
      then (Inl (InvalidArgumentUseCaseError ''invalid score''), d)
      else
      (case update_many t_plays put_plays check_play
              (\<lambda>k p. k = cp_playId cur \<and> pl_updatedAt p = pl_updatedAt (cp_play cur))
              (\<lambda>p. p\<lparr>pl_result := None, pl_score := (case score of None \<Rightarrow> pl_score p | Some n \<Rightarrow> Some n),
                     pl_updatedAt := env_now env\<rparr>) (other d) of
         Inl e \<Rightarrow> (Inl e, other d)
       | Inr d' \<Rightarrow> (Inr (), d')))"

section \<open>Finishing a play\<close>

datatype spark_state = UPCOMING | MEGA_SPARK | FEVER_TIME | NO_SPARK

text \<open>The machine's state after a win, and whether this spark is the last of the fever.\<close>

definition spark_of :: "arcade_machine_row \<Rightarrow> (spark_state \<times> bool) res" where
  "spark_of am =
     (let resultEnergy = am_energy am + SPARKED_ENERGY in
      if am_maxEnergy am \<noteq> am_energy am then
        (if resultEnergy \<ge> am_maxEnergy am then Inr (MEGA_SPARK, False)
         else if isMegaSparkUpcoming resultEnergy (am_maxEnergy am) then Inr (UPCOMING, False)
         else Inr (NO_SPARK, False))
      else
        (case am_feverSparkRemain am of
           None \<Rightarrow> Inl (InternalServerUseCaseError ''Data Mismatch'')
         | Some n \<Rightarrow> Inr (FEVER_TIME, n = 1)))"

text \<open>
  The ratio of an active booster of the user.  On this path the request carries only the session
  token, so \<open>ctx.userId\<close> may be undefined and then every user's boosters match.
\<close>

definition booster_ratio :: "env \<Rightarrow> ctx \<Rightarrow> db \<Rightarrow> decimal option" where
  "booster_ratio env ctx d =
     (case filter (\<lambda>((u, category, _), endAt). where_user ctx u \<and> category = ''SPARK_TERAS_UP'' \<and>
                            endAt \<ge> env_now env) (t_activeBoosters d) of
        [] \<Rightarrow> None
      | ((_, _, subCategory), _) # _ \<Rightarrow>
          Some (case parseFloat (drop 1 subCategory) of None \<Rightarrow> 1 | Some x \<Rightarrow> x))"

definition spark_update :: "spark_state \<Rightarrow> bool \<Rightarrow> int \<Rightarrow> arcade_machine_row \<Rightarrow> arcade_machine_row" where
  "spark_update st isLastFever maxEnergy r =
     (case st of
        FEVER_TIME \<Rightarrow>
          (let r' = r\<lparr>am_feverSparkRemain := map_option (\<lambda>n. n - 1) (am_feverSparkRemain r)\<rparr> in
           if isLastFever then r'\<lparr>am_gameCenterId := None, am_position := None, am_installedAt := None\<rparr> else r')
      | MEGA_SPARK \<Rightarrow> r\<lparr>am_feverSparkRemain := Some FEVER_SPARK_MAX_COUNT, am_energy := maxEnergy\<rparr>
      | _ \<Rightarrow> r\<lparr>am_energy := am_energy r + SPARKED_ENERGY\<rparr>)"

text \<open>The fields of the play's update and the queries that come before it.\<close>

record finish_plan =
  fp_queries :: "query list"
  fp_ownerReward :: "decimal option"
  fp_playerReward :: "decimal option"
  fp_ratio :: "decimal option"
  fp_megaSpark :: bool

definition machine_update :: "env \<Rightarrow> current_play \<Rightarrow> spark_state \<Rightarrow> bool \<Rightarrow> query" where
  "machine_update env cur st isLastFever =
     update_arcadeMachine (ps_arcadeMachineId (cp_session cur)) (\<lambda>r. am_energy r = am_energy (cp_machine cur))
       (\<lambda>r. (spark_update st isLastFever (am_maxEnergy (cp_machine cur)) r)\<lparr>nft_updatedAt := env_now env\<rparr>)"

definition notify_queries :: "current_play \<Rightarrow> spark_state \<Rightarrow> int \<Rightarrow> query list" where
  "notify_queries cur st totalMegaSpark =
     (let s = cp_session cur in
      case st of
        MEGA_SPARK \<Rightarrow> [\<lambda>d. Inr (call (NotifyMegaSpark (ps_arcadeMachineId s) (ps_playerId s)
                                  (ps_arcadeMachineOwnerId s) (totalMegaSpark + 1)) d)]
      | UPCOMING \<Rightarrow> [\<lambda>d. Inr (call (NotifyMegaSparkUpcoming (ps_arcadeMachineId s) (ps_playerId s)
                                  (ps_arcadeMachineOwnerId s)) d)]
      | _ \<Rightarrow> [])"

definition mega_sparks :: "db \<Rightarrow> user_id \<Rightarrow> int" where
  "mega_sparks d player =
     int (count_rows (\<lambda>_ p. pl_megaSpark p \<and>
            (case map_of (t_playSessions d) (pl_playSessionId p) of None \<Rightarrow> False | Some s \<Rightarrow> ps_playerId s = player))
          (t_plays d))"

definition win_plan :: "env \<Rightarrow> ctx \<Rightarrow> current_play \<Rightarrow> db \<Rightarrow> finish_plan res" where
  "win_plan env ctx cur d =
     (let s = cp_session cur; am = cp_machine cur in
      bind_res (spark_of am) (\<lambda>(st, isLastFever).
      bind_res (calculateEmitReward (ps_playerId s = ps_arcadeMachineOwnerId s) (am_game am) (st = FEVER_TIME)) (\<lambda>c.
        let ratio = booster_ratio env ctx d;
            boosted = (case ratio of None \<Rightarrow> emitPlayerReward c | Some x \<Rightarrow> emitPlayerReward c * x);
            player = (if st = MEGA_SPARK then MEGA_SPARKED_REWARD else boosted)
        in Inr \<lparr>fp_queries =
             [add_teras env (ps_playerId s) player,
              add_teras env (ps_arcadeMachineOwnerId s) (emitOwnerReward c),
              machine_update env cur st isLastFever] @
             notify_queries cur st (mega_sparks d (ps_playerId s)),
             fp_ownerReward = Some (emitOwnerReward c), fp_playerReward = Some player,
             fp_ratio = ratio, fp_megaSpark = (st = MEGA_SPARK)\<rparr>)))"

definition lose_plan :: finish_plan where
  "lose_plan = \<lparr>fp_queries = [], fp_ownerReward = None, fp_playerReward = None, fp_ratio = None, fp_megaSpark = False\<rparr>"

definition play_update :: "env \<Rightarrow> string \<Rightarrow> int \<Rightarrow> PlayResult \<Rightarrow> finish_plan \<Rightarrow> query" where
  "play_update env playId score result plan =
     update_play playId (\<lambda>p. pl_result p = None)
       (\<lambda>p. p\<lparr>pl_score := Some score, pl_endedAt := Some (env_now env), pl_result := Some result,
              pl_ownerTerasReward := map_option (env_rnd env) (fp_ownerReward plan),
              pl_playerTerasReward := map_option (env_rnd env) (fp_playerReward plan),
              pl_megaSpark := fp_megaSpark plan,
              pl_terasBoosterRatio := (case fp_ratio plan of None \<Rightarrow> pl_terasBoosterRatio p | Some x \<Rightarrow> Some x),
              pl_updatedAt := env_now env\<rparr>)"

definition session_update :: "env \<Rightarrow> string \<Rightarrow> bool \<Rightarrow> query" where
  "session_update env sessionId canRetry =
     update_playSession sessionId (\<lambda>_. True)
       (\<lambda>s. s\<lparr>ps_state := (if canRetry then READY else FINISHED),
              ps_endedAt := (if canRetry then None else Some (env_now env)), ps_updatedAt := env_now env\<rparr>)"

definition createFinishPlayTransactUpdates ::
  "env \<Rightarrow> ctx \<Rightarrow> current_play \<Rightarrow> int \<Rightarrow> PlayResult \<Rightarrow> db \<Rightarrow> query list res" where
  "createFinishPlayTransactUpdates env ctx cur score result d =
     (case map_of (t_plays d) (cp_playId cur) of
        None \<Rightarrow> Inl (PrismaKnownRequestError ''P2025'')
      | Some play \<Rightarrow>
      if pl_result play \<noteq> None then Inl (IllegalStateUseCaseError ''play already finished'')
      else
        let playCount = int (length (plays_of d (cp_sessionId cur)));
            canRetry = (case ps_maxPlayCount (cp_session cur) of None \<Rightarrow> True | Some m \<Rightarrow> m > playCount) in
        bind_res (if result = WIN then win_plan env ctx cur d else Inr lose_plan) (\<lambda>plan.
          Inr (fp_queries plan @ [play_update env (cp_playId cur) score result plan,
                                  session_update env (cp_sessionId cur) canRetry])))"

text \<open>\<open>targetScore! <= score\<close> on a null target compares 0.\<close>

definition play_result :: "play_session_row \<Rightarrow> int \<Rightarrow> PlayResult" where
  "play_result s score = (if (case ps_targetScore s of None \<Rightarrow> 0 | Some t \<Rightarrow> t) \<le> score then WIN else LOSS)"

definition finishPlay ::
  "env \<Rightarrow> ctx \<Rightarrow> (string \<Rightarrow> string) \<Rightarrow> (string \<Rightarrow> string) \<Rightarrow> string \<Rightarrow> int \<Rightarrow> date option \<Rightarrow> string option \<Rightarrow>
   string option \<Rightarrow> (nat \<Rightarrow> db \<Rightarrow> db) \<Rightarrow> db \<Rightarrow> unit res \<times> db" where
  "finishPlay env ctx hash sha256 token score timeStamp salt signature other d =
     (case getCurrentPlayWithSession hash token d of
        Inl e \<Rightarrow> (Inl e, d)
      | Inr cur \<Rightarrow>
      if score_rejected sha256 timeStamp salt signature score cur
      then (Inl (InvalidArgumentUseCaseError ''invalid score''), d)
      else
        let result = play_result (cp_session cur) score;
            d1 = other 0 d;
            done = (\<lambda>d. if result = WIN then call (RewardSparkCount (ps_playerId (cp_session cur))) d else d);
            failed = (\<lambda>e d. if e = PrismaKnownRequestError ''P2025'' then (Inr (), done d) else (Inl e, d)) in
        (case createFinishPlayTransactUpdates env ctx cur score result d1 of
           Inl e \<Rightarrow> failed e d1
         | Inr qs \<Rightarrow>
             (case run_tx qs (other 1 d1) of
                Inl e \<Rightarrow> failed e (other 1 d1)
              | Inr d' \<Rightarrow> (Inr (), done d'))))"

section \<open>The clean-up\<close>

definition manage_plays_queries :: "env \<Rightarrow> int \<Rightarrow> query list" where
  "manage_plays_queries env timeoutSeconds =
     [update_many t_plays put_plays check_play
        (\<lambda>_ p. pl_endedAt p = None \<and> pl_updatedAt p \<le> env_now env - 1000 * timeoutSeconds)
        (\<lambda>p. p\<lparr>pl_result := Some DISCONNECTED, pl_endedAt := Some (env_now env), pl_updatedAt := env_now env\<rparr>),
      \<lambda>d. update_many t_playSessions put_playSessions check_playSession
        (\<lambda>k s. list_ex (\<lambda>(_, p). pl_result p = Some DISCONNECTED) (plays_of d k) \<and> ps_state s = PLAYING)
        (\<lambda>s. s\<lparr>ps_endedAt := Some (env_now env), ps_state := FINISHED, ps_updatedAt := env_now env\<rparr>) d]"

definition manageForPlays :: "env \<Rightarrow> int \<Rightarrow> query" where
  "manageForPlays env timeoutSeconds d = run_tx (manage_plays_queries env timeoutSeconds) d"

text \<open>A failed update is logged and dropped.\<close>

definition manageForPlaySessions :: "env \<Rightarrow> int \<Rightarrow> db \<Rightarrow> db" where
  "manageForPlaySessions env timeoutSeconds d =
     (case update_many t_playSessions put_playSessions check_playSession
             (\<lambda>_ s. ps_updatedAt s \<le> env_now env - 1000 * timeoutSeconds \<and> ps_state s = READY)
             (\<lambda>s. s\<lparr>ps_endedAt := Some (env_now env), ps_state := FINISHED, ps_updatedAt := env_now env\<rparr>) d of
        Inl _ \<Rightarrow> d
      | Inr d' \<Rightarrow> d')"

definition play_manager :: "env \<Rightarrow> int \<Rightarrow> int \<Rightarrow> db \<Rightarrow> unit res \<times> db" where
  "play_manager env playTimeout readyTimeout d =
     (case manageForPlays env playTimeout d of
        Inl e \<Rightarrow> (Inl e, d)
      | Inr d' \<Rightarrow> (Inr (), manageForPlaySessions env readyTimeout d'))"

end
