(* ===== verification/Play_Props.thy ===== *)
theory Play_Props
  imports Play_Finish Machine_Props
begin

text \<open>
  Properties of \<open>Play_Game\<close> and \<open>Play_Finish\<close>: the life of a session and its quota
  under any run of the play operations, and what a new session may play.
\<close>

section \<open>Frames\<close>

lemma update_many_plays:
  assumes "update_many t_plays put_plays check_play P f d = Inr d'"
  shows "t_plays d' = update_rows P f (t_plays d)" and "t_playSessions d' = t_playSessions d"
    and "t_users d' = t_users d" and "t_arcadeMachines d' = t_arcadeMachines d"
    and "t_gameSettings d' = t_gameSettings d"
  using assms by (auto simp: play_tab.update_many_Inr put_defs)

lemma update_many_sessions:
  assumes "update_many t_playSessions put_playSessions check_playSession P f d = Inr d'"
  shows "t_playSessions d' = update_rows P f (t_playSessions d)" and "t_plays d' = t_plays d"
    and "t_users d' = t_users d" and "t_arcadeMachines d' = t_arcadeMachines d"
    and "t_gameSettings d' = t_gameSettings d"
  using assms by (auto simp: playSession_tab.update_many_Inr put_defs)

lemma update_session_frame:
  assumes "update_playSession k c f d = Inr d'"
  shows "t_playSessions d' = apply_row f k (t_playSessions d)" and "t_plays d' = t_plays d"
    and "t_gameSettings d' = t_gameSettings d"
  using assms by (auto simp: playSession_tab.update_Inr put_defs)

lemma update_play_frame:
  assumes "update_play k c f d = Inr d'"
  shows "t_plays d' = apply_row f k (t_plays d)" and "t_playSessions d' = t_playSessions d"
    and "t_gameSettings d' = t_gameSettings d"
  using assms by (auto simp: play_tab.update_Inr put_defs)

lemma call_frame [simp]:
  "t_users (call c d) = t_users d" "t_plays (call c d) = t_plays d" "t_playSessions (call c d) = t_playSessions d"
  "t_arcadeMachines (call c d) = t_arcadeMachines d" "t_gameSettings (call c d) = t_gameSettings d"
  "t_gameCenters (call c d) = t_gameCenters d" "t_activeBoosters (call c d) = t_activeBoosters d"
  by (simp_all add: call_def)

text \<open>Changes of a play row that keep its session keep the number of plays of every session.\<close>

lemma plays_count_apply:
  assumes "\<And>p. pl_playSessionId (f p) = pl_playSessionId p"
  shows "length (filter (\<lambda>(_, p). pl_playSessionId p = k) (apply_row f pk t)) =
    length (filter (\<lambda>(_, p). pl_playSessionId p = k) t)"
  using assms by (induction f pk t rule: apply_row.induct) auto

lemma plays_count_rows:
  assumes "\<And>p. pl_playSessionId (f p) = pl_playSessionId p"
  shows "length (filter (\<lambda>(_, p). pl_playSessionId p = k) (update_rows P f t)) =
    length (filter (\<lambda>(_, p). pl_playSessionId p = k) t)"
  using assms unfolding update_rows_def by (induction t) (auto split: if_splits)

definition play_count :: "db \<Rightarrow> string \<Rightarrow> nat" where
  "play_count d k = length (plays_of d k)"

lemma play_count_eq: "t_plays d' = t_plays d \<Longrightarrow> play_count d' k = play_count d k"
  by (simp add: play_count_def plays_of_def)

section \<open>The quota of a session\<close>

text \<open>
  A session is the abstract state of its phase and its number of plays.  The rules below are the
  contract of the four operations: a play starts only from READY, the session is READY again only
  with quota left.
\<close>

type_synonym session_state = "PlaySessionState \<times> nat"

definition has_quota :: "int option \<Rightarrow> nat \<Rightarrow> bool" where
  "has_quota quota n = (case quota of None \<Rightarrow> True | Some m \<Rightarrow> int n < m)"

inductive session_step :: "int option \<Rightarrow> session_state \<Rightarrow> session_state \<Rightarrow> bool" for quota where
  start_play: "session_step quota (READY, n) (PLAYING, Suc n)"
| play_again: "has_quota quota n \<Longrightarrow> session_step quota (PLAYING, n) (READY, n)"
| end_session: "s \<noteq> FINISHED \<Longrightarrow> session_step quota (s, n) (FINISHED, n)"

inductive_cases session_step_finished: "session_step quota (FINISHED, n) s"

definition quota_ok :: "int option \<Rightarrow> session_state \<Rightarrow> bool" where
  "quota_ok quota st = (case quota of None \<Rightarrow> True
     | Some m \<Rightarrow> int (snd st) \<le> m \<and> (fst st = READY \<longrightarrow> int (snd st) < m))"

lemma quota_ok_step: "session_step quota s t \<Longrightarrow> quota_ok quota s \<Longrightarrow> quota_ok quota t"
  by (induction rule: session_step.induct) (auto simp: quota_ok_def has_quota_def split: option.splits)

text \<open>
  Every session of the database moves along these steps, new sessions start in READY without
  plays, and the quota of a session never changes.
\<close>

definition session_at :: "db \<Rightarrow> string \<Rightarrow> (int option \<times> session_state) option" where
  "session_at d k = map_option (\<lambda>s. (ps_maxPlayCount s, ps_state s, play_count d k)) (map_of (t_playSessions d) k)"

definition session_keys :: "db \<Rightarrow> string list" where
  "session_keys d = map fst (t_playSessions d)"

definition sessions_move :: "db \<Rightarrow> db \<Rightarrow> bool" where
  "sessions_move d d' \<longleftrightarrow> (distinct (session_keys d) \<longrightarrow> distinct (session_keys d')) \<and> (\<forall>k. case session_at d' k of
     None \<Rightarrow> session_at d k = None
   | Some (m, st') \<Rightarrow>
       (case session_at d k of
          None \<Rightarrow> st' = (READY, 0) \<and> quota_ok m st'
        | Some (m0, st) \<Rightarrow> m0 = m \<and> (session_step m)\<^sup>*\<^sup>* st st'))"

lemma sessions_move_refl: "sessions_move d d"
  by (auto simp: sessions_move_def split: option.splits)

lemma sessions_moveI:
  assumes "\<And>k s'. map_of (t_playSessions d') k = Some s' \<Longrightarrow>
    \<exists>s. map_of (t_playSessions d) k = Some s \<and> ps_maxPlayCount s = ps_maxPlayCount s' \<and>
      (session_step (ps_maxPlayCount s'))\<^sup>*\<^sup>* (ps_state s, play_count d k) (ps_state s', play_count d' k)"
    and "\<And>k. map_of (t_playSessions d') k = None \<Longrightarrow> map_of (t_playSessions d) k = None"
    and "session_keys d' = session_keys d"
  shows "sessions_move d d'"
  unfolding sessions_move_def
proof (intro conjI allI)
  show "distinct (session_keys d) \<longrightarrow> distinct (session_keys d')" by (simp add: assms(3))
next
  fix k
  show "case session_at d' k of None \<Rightarrow> session_at d k = None
    | Some (m, st') \<Rightarrow> (case session_at d k of None \<Rightarrow> st' = (READY, 0) \<and> quota_ok m st'
        | Some (m0, st) \<Rightarrow> m0 = m \<and> (session_step m)\<^sup>*\<^sup>* st st')"
  proof (cases "map_of (t_playSessions d') k")
    case None
    then show ?thesis using assms(2) by (simp add: session_at_def)
  next
    case (Some s')
    with assms(1) [OF Some] show ?thesis by (auto simp: session_at_def)
  qed
qed

lemma sessions_move_trans:
  assumes "sessions_move d1 d2" and "sessions_move d2 d3"
    and new: "\<And>k. session_at d1 k = None \<Longrightarrow> session_at d2 k \<noteq> None \<Longrightarrow> session_at d3 k = session_at d2 k"
  shows "sessions_move d1 d3"
  unfolding sessions_move_def
proof (intro conjI allI)
  show "distinct (session_keys d1) \<longrightarrow> distinct (session_keys d3)"
    using assms(1,2) by (simp add: sessions_move_def)
next
  fix k
  note a = conjunct2 [OF assms(1) [unfolded sessions_move_def], rule_format, of k]
  note b = conjunct2 [OF assms(2) [unfolded sessions_move_def], rule_format, of k]
  show "case session_at d3 k of None \<Rightarrow> session_at d1 k = None
    | Some (m, st') \<Rightarrow> (case session_at d1 k of None \<Rightarrow> st' = (READY, 0) \<and> quota_ok m st'
        | Some (m0, st) \<Rightarrow> m0 = m \<and> (session_step m)\<^sup>*\<^sup>* st st')"
    using a b new [of k] by (auto split: option.splits)
qed


definition quotas_kept :: "db \<Rightarrow> bool" where
  "quotas_kept d \<longleftrightarrow> (\<forall>k m st. session_at d k = Some (m, st) \<longrightarrow> quota_ok m st)"

lemma quota_ok_steps: "(session_step m)\<^sup>*\<^sup>* s t \<Longrightarrow> quota_ok m s \<Longrightarrow> quota_ok m t"
  by (induction rule: rtranclp_induct) (auto intro: quota_ok_step)

lemma sessions_move_quota: "sessions_move d d' \<Longrightarrow> quotas_kept d \<Longrightarrow> quotas_kept d'"
  unfolding quotas_kept_def
proof (intro allI impI)
  fix k m st'
  assume move: "sessions_move d d'" and q: "\<forall>k m st. session_at d k = Some (m, st) \<longrightarrow> quota_ok m st"
    and k: "session_at d' k = Some (m, st')"
  note c = conjunct2 [OF move [unfolded sessions_move_def], rule_format, of k]
  show "quota_ok m st'"
  proof (cases "session_at d k")
    case None
    show ?thesis using c [unfolded k None option.case prod.case] by (rule conjunct2)
  next
    case (Some x)
    obtain m0 st where x: "x = (m0, st)" by (cases x)
    with c k Some have "m0 = m" and "(session_step m)\<^sup>*\<^sup>* st st'" by simp_all
    moreover have "quota_ok m0 st" using q Some x by blast
    ultimately show ?thesis using quota_ok_steps by blast
  qed
qed

text \<open>Closing sessions, and changes of plays that keep their session.\<close>

lemma close_steps: "s' = s \<or> s' = FINISHED \<Longrightarrow> (session_step m)\<^sup>*\<^sup>* (s, n) (s', n)"
  by (cases "s = FINISHED") (auto intro: session_step.end_session)

lemma sessions_move_close:
  assumes "t_playSessions d' = update_rows P f (t_playSessions d)" and "\<And>k. play_count d' k = play_count d k"
    and "\<And>s. ps_state (f s) = FINISHED" and "\<And>s. ps_maxPlayCount (f s) = ps_maxPlayCount s"
  shows "sessions_move d d'"
  by (rule sessions_moveI) (auto simp: assms map_of_update_rows session_keys_def intro!: close_steps)

lemma sessions_move_plays:
  assumes "t_playSessions d' = t_playSessions d" and "\<And>k. play_count d' k = play_count d k"
  shows "sessions_move d d'"
  by (rule sessions_moveI) (simp_all add: assms session_keys_def)

lemma play_count_rows: "t_plays d' = update_rows P f (t_plays d) \<Longrightarrow>
    (\<And>p. pl_playSessionId (f p) = pl_playSessionId p) \<Longrightarrow> play_count d' k = play_count d k"
  by (simp add: play_count_def plays_of_def plays_count_rows)

lemma play_count_apply: "t_plays d' = apply_row f pk (t_plays d) \<Longrightarrow>
    (\<And>p. pl_playSessionId (f p) = pl_playSessionId p) \<Longrightarrow> play_count d' k = play_count d k"
  by (simp add: play_count_def plays_of_def plays_count_apply)

section \<open>Each operation follows the contract\<close>

lemma start_play_moves:
  assumes "startPlay env hash newId token other d = (res, d')"
  shows "d' = d \<or> d' = other d \<or> sessions_move (other d) d'"
proof (cases "find_session hash token d")
  case None
  with assms show ?thesis by (simp add: startPlay_def)
next
  case (Some x)
  obtain k s where x: "x = (k, s)" by (cases x)
  show ?thesis
  proof (cases "run_tx (start_play_queries env k newId) (other d)")
    case (Inl e)
    with assms Some x show ?thesis by (auto simp: startPlay_def split: if_splits)
  next
    case (Inr d2)
    then obtain d1 where 1: "update_playSession k (\<lambda>s. ps_state s = READY)
        (\<lambda>s. s\<lparr>ps_state := PLAYING, ps_updatedAt := env_now env\<rparr>) (other d) = Inr d1"
      and 2: "create_play newId (new_play env k) d1 = Inr d2"
      by (auto simp: start_play_queries_def split: sum.splits)
    from 1 obtain s0 where s0: "map_of (t_playSessions (other d)) k = Some s0" "ps_state s0 = READY"
      by (auto simp: playSession_tab.update_Inr)
    have sess: "t_playSessions d2 = apply_row (\<lambda>s. s\<lparr>ps_state := PLAYING, ps_updatedAt := env_now env\<rparr>) k
        (t_playSessions (other d))"
      using update_session_frame(1) [OF 1] 2 by (simp add: play_tab.create_Inr put_defs)
    have plays: "t_plays d2 = t_plays (other d) @ [(newId, new_play env k)]"
      using update_session_frame(2) [OF 1] 2 by (simp add: play_tab.create_Inr put_defs)
    have n: "play_count d2 k' = play_count (other d) k' + (if k' = k then 1 else 0)" for k'
      by (simp add: play_count_def plays_of_def plays new_play_def)
    have "sessions_move (other d) d2"
      by (rule sessions_moveI)
        (auto simp: sess map_of_apply_row n s0 session_keys_def split: if_splits
          intro!: r_into_rtranclp session_step.start_play)
    then have "sessions_move (other d) (call c d2)" for c
      by (simp add: sessions_move_def session_at_def session_keys_def play_count_def plays_of_def)
    with assms Some x Inr show ?thesis by (auto simp: startPlay_def split: if_splits)
  qed
qed

lemma finish_session_moves:
  assumes "finishPlaySession env hash token other d = (res, d')"
  shows "d' = d \<or> d' = other d \<or> sessions_move (other d) d'"
proof (cases "find_session hash token d")
  case None
  with assms show ?thesis by (simp add: finishPlaySession_def)
next
  case (Some x)
  obtain k s where x: "x = (k, s)" by (cases x)
  let ?f = "\<lambda>s. s\<lparr>ps_state := FINISHED, ps_endedAt := Some (env_now env), ps_updatedAt := env_now env\<rparr>"
  show ?thesis
  proof (cases "update_playSession k (\<lambda>_. True) ?f (other d)")
    case (Inl e)
    with assms Some x show ?thesis by (auto simp: finishPlaySession_def split: if_splits)
  next
    case (Inr d2)
    note fr = update_session_frame [OF Inr]
    have "sessions_move (other d) d2"
      by (rule sessions_moveI)
        (auto simp: fr map_of_apply_row session_keys_def play_count_eq [OF fr(2)] split: if_splits intro!: close_steps)
    then have "sessions_move (other d) (call c (call c' d2))" for c c'
      by (simp add: sessions_move_def session_at_def session_keys_def play_count_def plays_of_def)
    with assms Some x Inr show ?thesis by (auto simp: finishPlaySession_def split: if_splits)
  qed
qed

lemma discard_moves:
  assumes "run_tx (discard_queries env ctx) d = Inr d'"
  shows "sessions_move d d'" and "\<And>k. session_at d k = None \<Longrightarrow> session_at d' k = None"
    and "\<And>k. play_count d' k = play_count d k"
proof -
  from assms obtain d1 P Q f where 1: "update_many t_plays put_plays check_play P f d = Inr d1"
    and f: "\<And>p. pl_playSessionId (f p) = pl_playSessionId p"
    and 2: "update_many t_playSessions put_playSessions check_playSession Q
        (\<lambda>s. s\<lparr>ps_state := FINISHED, ps_updatedAt := env_now env\<rparr>) d1 = Inr d'"
    by (auto simp: discard_queries_def split: sum.splits)
  have n1: "play_count d1 k = play_count d k" for k
    by (rule play_count_rows [OF update_many_plays(1) [OF 1] f])
  have n2: "play_count d' k = play_count d1 k" for k
    by (rule play_count_eq [OF update_many_sessions(2) [OF 2]])
  show n: "play_count d' k = play_count d k" for k using n1 n2 by simp
  show "sessions_move d d'"
    by (rule sessions_move_close [OF update_many_sessions(1) [OF 2, unfolded update_many_plays(2) [OF 1]] n]) simp_all
  show "session_at d k = None \<Longrightarrow> session_at d' k = None" for k
    by (simp add: session_at_def update_many_sessions(1) [OF 2] update_many_plays(2) [OF 1] map_of_update_rows)
qed


lemma create_session_moves:
  assumes "create_session env ctx co am newId tok p d = (res, d')" and "0 < sp_maxPlayCount p"
    and "play_count d newId = 0"
  shows "d' = d \<or> sessions_move d d'"
proof (cases "ctx_userId ctx")
  case None
  with assms(1) show ?thesis by (simp add: create_session_def)
next
  case (Some player)
  show ?thesis
  proof (cases "nft_userId (sp_machine p)")
    case None
    with assms(1) Some show ?thesis by (simp add: create_session_def)
  next
    case o: (Some owner)
    let ?row = "new_session env player owner co am tok p"
    show ?thesis
    proof (cases "create_playSession newId ?row d")
      case (Inl e)
      with assms(1) Some o show ?thesis by (simp add: create_session_def Let_def)
    next
      case (Inr d2)
      have d2: "d' = d2" using assms(1) Some o Inr by (simp add: create_session_def Let_def)
      have none: "map_of (t_playSessions d) newId = None" and plays: "t_plays d2 = t_plays d"
        using Inr by (auto simp: playSession_tab.create_Inr put_defs)
      note find = playSession_tab.create_find [OF Inr]
      have "session_at d2 k = (if k = newId then Some (Some (sp_maxPlayCount p), READY, 0) else session_at d k)" for k
        using assms(3) by (simp add: session_at_def find play_count_eq [OF plays] new_session_def)
      moreover have "session_at d newId = None" by (simp add: session_at_def none)
      moreover have "session_keys d2 = session_keys d @ [newId]" and "newId \<notin> set (session_keys d)"
        using Inr none by (auto simp: session_keys_def playSession_tab.create_Inr put_defs map_of_eq_None_iff)
      ultimately have "sessions_move d d2"
        using assms(2) by (auto simp: sessions_move_def quota_ok_def split: option.splits)
      then show ?thesis using d2 by simp
    qed
  qed
qed

text \<open>What a session may play: the daily limit, less what the player has already played today.\<close>

lemma session_read_steps:
  assumes "session_read env ctx manager start fin am d = Inr p"
  obtains r gs where "map_of (t_arcadeMachines d) am = Some r" and "isPlayableArcadeMachine ctx manager r"
    and "map_of (t_gameSettings d) (am_game r) = Some gs" and "sp_machine p = r" and "sp_setting p = gs"
    and "currentUserOwns ctx [nft_userId r] \<longrightarrow> sp_maxPlayCount p = gs_dailyMaxPlayCount gs"
    and "\<not> currentUserOwns ctx [nft_userId r] \<longrightarrow>
      sp_maxPlayCount p = gs_dailyMaxPlayCount gs - today_played ctx start fin am d \<and> 0 < sp_maxPlayCount p"
proof -
  from assms obtain r where r: "map_of (t_arcadeMachines d) am = Some r" "isPlayableArcadeMachine ctx manager r"
    by (auto simp: session_read_def split: option.splits if_splits)
  with assms obtain gi where gi: "games (am_game r) = Some gi" "enabled gi"
    by (auto simp: session_read_def split: option.splits if_splits)
  with assms r obtain gs where gs: "map_of (t_gameSettings d) (am_game r) = Some gs"
    by (auto simp: session_read_def split: option.splits)
  show thesis
    using assms r gi gs
    by (auto simp: session_read_def Let_def simp del: currentUserOwns.simps split: if_splits intro!: that [OF r gs])
qed


lemma start_session_moves:
  assumes "startPlaySession env ctx manager start fin hash am newId token other d = (res, d')"
    and quiet: "\<And>i d. other i d = d"
    and "\<forall>(g, gs) \<in> set (t_gameSettings d). 0 < gs_dailyMaxPlayCount gs" and "play_count d newId = 0"
  shows "sessions_move d d'"
proof (cases "session_read env ctx manager start fin am d")
  case (Inl e)
  with assms(1) show ?thesis by (simp add: startPlaySession_def sessions_move_refl)
next
  case (Inr p)
  then obtain r gs where "map_of (t_arcadeMachines d) am = Some r" and "isPlayableArcadeMachine ctx manager r"
    and gs: "map_of (t_gameSettings d) (am_game r) = Some gs" and "sp_machine p = r" and "sp_setting p = gs"
    and own: "currentUserOwns ctx [nft_userId r] \<longrightarrow> sp_maxPlayCount p = gs_dailyMaxPlayCount gs"
    and other: "\<not> currentUserOwns ctx [nft_userId r] \<longrightarrow>
      sp_maxPlayCount p = gs_dailyMaxPlayCount gs - today_played ctx start fin am d \<and> 0 < sp_maxPlayCount p"
    by (rule session_read_steps)
  have "0 < gs_dailyMaxPlayCount gs" using assms(3) map_of_SomeD [OF gs] by auto
  then have pos: "0 < sp_maxPlayCount p" using own other by (cases "currentUserOwns ctx [nft_userId r]") (auto simp del: currentUserOwns.simps)
  let ?co = "Option.bind (Option.bind (am_gameCenterId (sp_machine p)) (map_of (t_gameCenters d))) nft_userId"
  show ?thesis
  proof (cases "sp_discard p")
    case False
    then have "create_session env ctx ?co am newId (hash token) p d = (res, d')"
      using assms(1) Inr by (simp add: startPlaySession_def Let_def quiet)
    from create_session_moves [OF this pos assms(4)] show ?thesis using sessions_move_refl by blast
  next
    case True
    show ?thesis
    proof (cases "run_tx (discard_queries env ctx) d")
      case (Inl e)
      then have "d' = d" using assms(1) Inr True by (simp add: startPlaySession_def Let_def quiet)
      then show ?thesis by (simp only: sessions_move_refl)
    next
      case tx: (Inr d2)
      then have cr: "create_session env ctx ?co am newId (hash token) p d2 = (res, d')"
        using assms(1) Inr True by (simp add: startPlaySession_def Let_def quiet)
      have "play_count d2 newId = 0" using discard_moves(3) [OF tx] assms(4) by simp
      from create_session_moves [OF cr pos this] show ?thesis
      proof
        assume "d' = d2"
        then show ?thesis using discard_moves(1) [OF tx] by (simp only:)
      next
        assume "sessions_move d2 d'"
        with discard_moves(1) [OF tx] show ?thesis
          by (rule sessions_move_trans) (simp add: discard_moves(2) [OF tx])
      qed
    qed
  qed
qed

section \<open>Finishing a play\<close>

lemma current_play_steps:
  assumes "getCurrentPlayWithSession hash token d = Inr cur"
  shows "find_session hash token d = Some (cp_sessionId cur, cp_session cur)"
    and "(cp_playId cur, cp_play cur) \<in> set (plays_of d (cp_sessionId cur))"
    and "pl_endedAt (cp_play cur) = None" and "ps_state (cp_session cur) = PLAYING"
    and "map_of (t_arcadeMachines d) (ps_arcadeMachineId (cp_session cur)) = Some (cp_machine cur)"
proof -
  from assms obtain k s where f: "find_session hash token d = Some (k, s)"
    by (auto simp: getCurrentPlayWithSession_def split: option.splits)
  with assms obtain pk p ps where ps: "filter (\<lambda>(_, p). pl_endedAt p = None) (plays_of d k) = (pk, p) # ps"
    by (auto simp: getCurrentPlayWithSession_def split: list.splits)
  from assms f ps obtain am where am: "map_of (t_arcadeMachines d) (ps_arcadeMachineId s) = Some am"
    and st: "ps_state s = PLAYING"
    by (auto simp: getCurrentPlayWithSession_def split: if_splits option.splits)
  have cur: "cur = \<lparr>cp_sessionId = k, cp_session = s, cp_playId = pk, cp_play = p, cp_machine = am\<rparr>"
    using assms f ps am st by (simp add: getCurrentPlayWithSession_def)
  have "(pk, p) \<in> set (filter (\<lambda>(_, p). pl_endedAt p = None) (plays_of d k))" by (simp add: ps)
  then show "(cp_playId cur, cp_play cur) \<in> set (plays_of d (cp_sessionId cur))" "pl_endedAt (cp_play cur) = None"
    by (simp_all add: cur)
  show "find_session hash token d = Some (cp_sessionId cur, cp_session cur)" "ps_state (cp_session cur) = PLAYING"
    "map_of (t_arcadeMachines d) (ps_arcadeMachineId (cp_session cur)) = Some (cp_machine cur)"
    using f st am by (simp_all add: cur)
qed

text \<open>The answer of \<open>finishPlay\<close>: nothing happened, or its transaction ran on what it found.\<close>

lemma finishPlay_cases:
  assumes "finishPlay env ctx hash sha token score ts salt sig other d = (res, d')"
  obtains "res \<noteq> Inr ()" and "d' = d"
  | cur where "getCurrentPlayWithSession hash token d = Inr cur"
      and "t_users d' = t_users (other 0 d) \<and> t_plays d' = t_plays (other 0 d) \<and>
        t_playSessions d' = t_playSessions (other 0 d) \<and> t_arcadeMachines d' = t_arcadeMachines (other 0 d)"
  | cur where "getCurrentPlayWithSession hash token d = Inr cur"
      and "t_users d' = t_users (other 1 (other 0 d)) \<and> t_plays d' = t_plays (other 1 (other 0 d)) \<and>
        t_playSessions d' = t_playSessions (other 1 (other 0 d)) \<and>
        t_arcadeMachines d' = t_arcadeMachines (other 1 (other 0 d))"
  | cur qs d2 where "getCurrentPlayWithSession hash token d = Inr cur"
      and "createFinishPlayTransactUpdates env ctx cur score (play_result (cp_session cur) score) (other 0 d) = Inr qs"
      and "run_tx qs (other 1 (other 0 d)) = Inr d2" and "res = Inr ()"
      and "t_users d' = t_users d2 \<and> t_plays d' = t_plays d2 \<and>
        t_playSessions d' = t_playSessions d2 \<and> t_arcadeMachines d' = t_arcadeMachines d2"
proof (cases "getCurrentPlayWithSession hash token d")
  case (Inl e)
  with assms show ?thesis using that(1) unfolding finishPlay_def by auto
next
  case (Inr cur)
  show ?thesis
  proof (cases "score_rejected sha ts salt sig score cur")
    case True
    with assms Inr show ?thesis using that(1) unfolding finishPlay_def by auto
  next
    case ok: False
    let ?q = "createFinishPlayTransactUpdates env ctx cur score (play_result (cp_session cur) score) (other 0 d)"
    show ?thesis
    proof (cases ?q)
      case (Inl e)
      with assms Inr ok show ?thesis
        by (intro that(2) [OF Inr]) (auto simp: finishPlay_def Let_def split: if_splits)
    next
      case q: (Inr qs)
      show ?thesis
      proof (cases "run_tx qs (other 1 (other 0 d))")
        case (Inl e)
        with assms Inr ok q show ?thesis
          by (intro that(3) [OF Inr]) (auto simp: finishPlay_def Let_def split: if_splits)
      next
        case tx: (Inr d2)
        with assms Inr ok q show ?thesis
          by (intro that(4) [OF Inr q tx]) (auto simp: finishPlay_def Let_def split: if_splits)
      qed
    qed
  qed
qed


lemma finish_queries_steps:
  assumes "createFinishPlayTransactUpdates env ctx cur score result d1 = Inr qs" and "run_tx qs d = Inr d'"
  obtains plan e1 e2 where "(if result = WIN then win_plan env ctx cur d1 else Inr lose_plan) = Inr plan"
    and "run_tx (fp_queries plan) d = Inr e1"
    and "play_update env (cp_playId cur) score result plan e1 = Inr e2"
    and "session_update env (cp_sessionId cur) (case ps_maxPlayCount (cp_session cur) of None \<Rightarrow> True
        | Some m \<Rightarrow> m > int (length (plays_of d1 (cp_sessionId cur)))) e2 = Inr d'"
proof -
  let ?r = "case ps_maxPlayCount (cp_session cur) of None \<Rightarrow> True
        | Some m \<Rightarrow> m > int (length (plays_of d1 (cp_sessionId cur)))"
  from assms(1) obtain plan where plan: "(if result = WIN then win_plan env ctx cur d1 else Inr lose_plan) = Inr plan"
    and qs: "qs = fp_queries plan @ [play_update env (cp_playId cur) score result plan,
        session_update env (cp_sessionId cur) ?r]"
    unfolding createFinishPlayTransactUpdates_def Let_def
    by (cases "map_of (t_plays d1) (cp_playId cur)"; cases "if result = WIN then win_plan env ctx cur d1 else Inr lose_plan")
      (simp_all split: if_split_asm)
  from assms(2) obtain e1 where e1: "run_tx (fp_queries plan) d = Inr e1"
    and rest: "run_tx [play_update env (cp_playId cur) score result plan, session_update env (cp_sessionId cur) ?r] e1 = Inr d'"
    unfolding qs run_tx_append by (cases "run_tx (fp_queries plan) d") simp_all
  from rest obtain e2 where "play_update env (cp_playId cur) score result plan e1 = Inr e2"
    and "session_update env (cp_sessionId cur) ?r e2 = Inr d'"
    unfolding run_tx_Inr_Cons by (elim exE conjE) simp
  with plan e1 show thesis by (rule that)
qed

text \<open>The queries before the play's update touch only balances, one machine and the call log.\<close>

lemma win_plan_steps:
  assumes "win_plan env ctx cur d1 = Inr plan"
  obtains st lastFever c where "spark_of (cp_machine cur) = Inr (st, lastFever)"
    and "calculateEmitReward (ps_playerId (cp_session cur) = ps_arcadeMachineOwnerId (cp_session cur))
        (am_game (cp_machine cur)) (st = FEVER_TIME) = Inr c"
    and "fp_queries plan = [add_teras env (ps_playerId (cp_session cur)) (the (fp_playerReward plan)),
        add_teras env (ps_arcadeMachineOwnerId (cp_session cur)) (emitOwnerReward c),
        machine_update env cur st lastFever] @ notify_queries cur st (mega_sparks d1 (ps_playerId (cp_session cur)))"
    and "fp_playerReward plan = Some (if st = MEGA_SPARK then MEGA_SPARKED_REWARD
        else case booster_ratio env ctx d1 of None \<Rightarrow> emitPlayerReward c | Some x \<Rightarrow> emitPlayerReward c * x)"
    and "fp_ownerReward plan = Some (emitOwnerReward c)"
proof -
  from assms obtain st lastFever where sp: "spark_of (cp_machine cur) = Inr (st, lastFever)"
    by (auto simp: win_plan_def Let_def bind_res_Inr_iff)
  with assms obtain c where c: "calculateEmitReward (ps_playerId (cp_session cur) = ps_arcadeMachineOwnerId (cp_session cur))
        (am_game (cp_machine cur)) (st = FEVER_TIME) = Inr c"
    by (auto simp: win_plan_def Let_def bind_res_Inr_iff)
  show thesis
    using assms sp c by (intro that [OF sp c]) (auto simp: win_plan_def Let_def)
qed

lemma notify_frame:
  assumes "run_tx (notify_queries cur st n) d = Inr d'"
  shows "t_users d' = t_users d" and "t_plays d' = t_plays d" and "t_playSessions d' = t_playSessions d"
    and "t_arcadeMachines d' = t_arcadeMachines d"
  using assms by (auto simp: notify_queries_def Let_def split: spark_state.splits)

lemma machine_update_frame:
  assumes "machine_update env cur st lastFever d = Inr d'"
  shows "t_users d' = t_users d" and "t_plays d' = t_plays d" and "t_playSessions d' = t_playSessions d"
  using assms by (auto simp: machine_update_def arcadeMachine_tab.update_Inr put_defs)

lemma add_teras_frames:
  assumes "add_teras env u x d = Inr d'"
  shows "t_plays d' = t_plays d" and "t_playSessions d' = t_playSessions d" and "t_arcadeMachines d' = t_arcadeMachines d"
  using assms by (auto simp: add_teras_def user_tab.update_Inr put_defs)

lemma win_queries_run:
  assumes "run_tx ([add_teras env u x, add_teras env o' y, machine_update env cur st lastFever] @ notify_queries cur st n) d = Inr d'"
  obtains e1 e2 e3 where "add_teras env u x d = Inr e1" and "add_teras env o' y e1 = Inr e2"
    and "machine_update env cur st lastFever e2 = Inr e3" and "t_users d' = t_users e2" and "t_plays d' = t_plays d"
    and "t_playSessions d' = t_playSessions d" and "t_arcadeMachines d' = t_arcadeMachines e3"
proof -
  from assms obtain e1 e2 e3 where 1: "add_teras env u x d = Inr e1" and 2: "add_teras env o' y e1 = Inr e2"
    and 3: "machine_update env cur st lastFever e2 = Inr e3" and 4: "run_tx (notify_queries cur st n) e3 = Inr d'"
    by (auto split: sum.splits)
  show thesis
    by (rule that [OF 1 2 3])
      (simp_all add: notify_frame [OF 4] machine_update_frame [OF 3] add_teras_frames [OF 2] add_teras_frames [OF 1])
qed

lemma plan_frame:
  assumes "(if result = WIN then win_plan env ctx cur d1 else Inr lose_plan) = Inr plan"
    and "run_tx (fp_queries plan) d = Inr e1"
  shows "t_plays e1 = t_plays d" and "t_playSessions e1 = t_playSessions d"
proof -
  have "t_plays e1 = t_plays d \<and> t_playSessions e1 = t_playSessions d"
  proof (cases "result = WIN")
    case True
    with assms(1) have "win_plan env ctx cur d1 = Inr plan" by simp
    then show ?thesis
    proof (rule win_plan_steps)
      fix st lf c
      assume q: "fp_queries plan = [add_teras env (ps_playerId (cp_session cur)) (the (fp_playerReward plan)),
        add_teras env (ps_arcadeMachineOwnerId (cp_session cur)) (emitOwnerReward c),
        machine_update env cur st lf] @ notify_queries cur st (mega_sparks d1 (ps_playerId (cp_session cur)))"
      show ?thesis using assms(2) unfolding q by (rule win_queries_run) simp
    qed
  next
    case False
    with assms show ?thesis by (auto simp: lose_plan_def)
  qed
  then show "t_plays e1 = t_plays d" and "t_playSessions e1 = t_playSessions d" by simp_all
qed


lemma sessions_move_frame:
  "t_plays d' = t_plays d \<Longrightarrow> t_playSessions d' = t_playSessions d \<Longrightarrow> sessions_move d d'"
  by (rule sessions_move_plays) (assumption, rule play_count_eq)

lemma sessions_move_cong:
  "t_plays d' = t_plays d2 \<Longrightarrow> t_playSessions d' = t_playSessions d2 \<Longrightarrow> sessions_move d d2 \<Longrightarrow> sessions_move d d'"
  by (simp add: sessions_move_def session_at_def session_keys_def play_count_def plays_of_def)

lemma finish_play_moves:
  assumes "finishPlay env ctx hash sha token score ts salt sig (\<lambda>_ d. d) d = (res, d')"
    and "distinct (session_keys d)"
  shows "sessions_move d d'"
  using assms(1)
proof (cases rule: finishPlay_cases)
  case 1
  then show ?thesis by (simp only: sessions_move_refl)
next
  case (2 cur)
  then show ?thesis by (intro sessions_move_frame) blast+
next
  case (3 cur)
  then show ?thesis by (intro sessions_move_frame) blast+
next
  case (4 cur qs d2)
  let ?k = "cp_sessionId cur" and ?s = "cp_session cur"
  from current_play_steps(1) [OF 4(1)] have "(?k, ?s) \<in> set (t_playSessions d)"
    unfolding find_session_def by (auto dest: find_in)
  then have k: "map_of (t_playSessions d) ?k = Some ?s" using assms(2) by (simp add: map_of_is_SomeI session_keys_def)
  have playing: "ps_state ?s = PLAYING" using current_play_steps(4) [OF 4(1)] .
  let ?r = "case ps_maxPlayCount ?s of None \<Rightarrow> True | Some m \<Rightarrow> m > int (length (plays_of d ?k))"
  from finish_queries_steps [OF 4(2,3)] obtain plan e1 e2
    where plan: "(if play_result ?s score = WIN then win_plan env ctx cur d else Inr lose_plan) = Inr plan"
    and e1: "run_tx (fp_queries plan) d = Inr e1"
    and e2: "play_update env (cp_playId cur) score (play_result ?s score) plan e1 = Inr e2"
    and d2: "session_update env ?k ?r e2 = Inr d2"
    by auto
  note f1 = plan_frame [OF plan e1]
  note f2 = update_play_frame [OF e2 [unfolded play_update_def]]
  note f3 = update_session_frame [OF d2 [unfolded session_update_def]]
  have "play_count e2 k' = play_count e1 k'" for k' by (rule play_count_apply [OF f2(1)]) simp
  then have n: "play_count d2 k' = play_count d k'" for k'
    using play_count_eq [OF f3(2)] play_count_eq [OF f1(1)] by simp
  have quota: "?r \<Longrightarrow> has_quota (ps_maxPlayCount ?s) (play_count d ?k)"
    by (auto simp: has_quota_def play_count_def split: option.splits)
  have "sessions_move d d2"
    by (rule sessions_moveI)
      (auto simp: f3 f2 f1 map_of_apply_row session_keys_def n k playing split: if_splits
        intro!: r_into_rtranclp session_step.play_again session_step.end_session quota)
  moreover have "t_plays d' = t_plays d2" and "t_playSessions d' = t_playSessions d2" using 4(5) by blast+
  ultimately show ?thesis by (intro sessions_move_cong [of d' d2 d])
qed

lemma in_progress_moves:
  assumes "inProgress env hash sha token score ts salt sig (\<lambda>d. d) d = (res, d')"
  shows "sessions_move d d'"
proof (cases "getCurrentPlayWithSession hash token d")
  case (Inl e)
  then have "d' = d" using assms unfolding inProgress_def by simp
  then show ?thesis by (simp only: sessions_move_refl)
next
  case (Inr cur)
  let ?bad = "case score of None \<Rightarrow> False | Some n \<Rightarrow> n \<noteq> 0 \<and> score_rejected sha ts salt sig n cur"
  let ?u = "update_many t_plays put_plays check_play
      (\<lambda>k p. k = cp_playId cur \<and> pl_updatedAt p = pl_updatedAt (cp_play cur))
      (\<lambda>p. p\<lparr>pl_result := None, pl_score := (case score of None \<Rightarrow> pl_score p | Some n \<Rightarrow> Some n),
             pl_updatedAt := env_now env\<rparr>) d"
  have step: "(if ?bad then (Inl (InvalidArgumentUseCaseError ''invalid score''), d)
      else (case ?u of Inl e \<Rightarrow> (Inl e, d) | Inr d' \<Rightarrow> (Inr (), d'))) = (res, d')"
    using assms unfolding inProgress_def Inr sum.case .
  show ?thesis
  proof (cases ?u)
    case (Inl e)
    then have "d' = d" using step by (simp split: if_splits)
    then show ?thesis by (simp only: sessions_move_refl)
  next
    case u: (Inr d1)
    note fr = update_many_plays [OF u]
    have "sessions_move d d1"
      by (rule sessions_move_plays [OF fr(2)]) (rule play_count_rows [OF fr(1)], simp)
    moreover have "d' = d \<or> d' = d1" using step u by (simp split: if_splits)
    ultimately show ?thesis using sessions_move_refl by blast
  qed
qed

lemma manage_plays_moves:
  assumes "manageForPlays env timeout d = Inr d'"
  shows "sessions_move d d'"
proof -
  from assms obtain d1 P Q f g where 1: "update_many t_plays put_plays check_play P f d = Inr d1"
    and f: "\<And>p. pl_playSessionId (f p) = pl_playSessionId p"
    and 2: "update_many t_playSessions put_playSessions check_playSession Q g d1 = Inr d'"
    and g: "\<And>s. ps_state (g s) = FINISHED" "\<And>s. ps_maxPlayCount (g s) = ps_maxPlayCount s"
    by (auto simp: manageForPlays_def manage_plays_queries_def split: sum.splits)
  have "play_count d1 k = play_count d k" for k by (rule play_count_rows [OF update_many_plays(1) [OF 1] f])
  then have "play_count d' k = play_count d k" for k using play_count_eq [OF update_many_sessions(2) [OF 2]] by simp
  from sessions_move_close [OF update_many_sessions(1) [OF 2, unfolded update_many_plays(2) [OF 1]] this g]
  show ?thesis .
qed

lemma manage_sessions_moves: "sessions_move d (manageForPlaySessions env timeout d)"
proof -
  let ?g = "\<lambda>s. s\<lparr>ps_endedAt := Some (env_now env), ps_state := FINISHED, ps_updatedAt := env_now env\<rparr>"
  let ?P = "\<lambda>_ s. ps_updatedAt s \<le> env_now env - 1000 * timeout \<and> ps_state s = READY"
  show ?thesis
  proof (cases "update_many t_playSessions put_playSessions check_playSession ?P ?g d")
    case (Inl e)
    then show ?thesis by (simp add: manageForPlaySessions_def sessions_move_refl)
  next
    case (Inr d')
    note u = update_many_sessions [OF Inr]
    have "sessions_move d d'"
      by (rule sessions_move_close [OF u(1) play_count_eq [OF u(2)]]) simp_all
    then show ?thesis using Inr by (simp add: manageForPlaySessions_def)
  qed
qed


section \<open>Runs of the play operations\<close>

text \<open>
  Any interleaving of complete requests: a session is started for a machine whose game allows at
  least one play a day, under an id that no play refers to yet; the clean-up runs at any time.
\<close>

inductive play_op :: "db \<Rightarrow> db \<Rightarrow> bool" where
  op_start_session: "startPlaySession env ctx manager start fin hash am newId token (\<lambda>_ d. d) d = (res, d') \<Longrightarrow>
    \<forall>(g, gs) \<in> set (t_gameSettings d). 0 < gs_dailyMaxPlayCount gs \<Longrightarrow> plays_of d newId = [] \<Longrightarrow> play_op d d'"
| op_finish_session: "finishPlaySession env hash token (\<lambda>d. d) d = (res', d') \<Longrightarrow> play_op d d'"
| op_start_play: "startPlay env hash newId token (\<lambda>d. d) d = (res'', d') \<Longrightarrow> play_op d d'"
| op_in_progress: "inProgress env hash sha token scoreOpt ts salt sig (\<lambda>d. d) d = (res'', d') \<Longrightarrow> play_op d d'"
| op_finish_play: "finishPlay env ctx hash sha token score ts salt sig (\<lambda>_ d. d) d = (res'', d') \<Longrightarrow> play_op d d'"
| op_manage_plays: "manageForPlays env timeout d = Inr d' \<Longrightarrow> play_op d d'"
| op_manage_sessions: "play_op d (manageForPlaySessions env timeout d)"

lemma play_op_moves:
  assumes "play_op d d'" and "distinct (session_keys d)"
  shows "sessions_move d d'"
  using assms
proof (induction rule: play_op.induct)
  case (op_start_session env ctx manager start fin hash am newId token d res d')
  have "play_count d newId = 0" using op_start_session(3) by (simp add: play_count_def)
  with op_start_session(1,2) show ?case by (intro start_session_moves) auto
next
  case (op_finish_session env hash token d res' d')
  from finish_session_moves [OF this(1)] show ?case using sessions_move_refl by blast
next
  case (op_start_play env hash newId token d res'' d')
  from start_play_moves [OF this(1)] show ?case using sessions_move_refl by blast
next
  case (op_in_progress env hash sha token scoreOpt ts salt sig d res'' d')
  then show ?case by (intro in_progress_moves)
next
  case (op_finish_play env ctx hash sha token score ts salt sig d res'' d')
  then show ?case by (intro finish_play_moves)
next
  case (op_manage_plays env timeout d d')
  then show ?case by (intro manage_plays_moves)
next
  case (op_manage_sessions d env timeout)
  show ?case by (rule manage_sessions_moves)
qed


text \<open>
  (C28) Every play operation moves each session along its abstract contract: from READY to PLAYING
  with one more play, back to READY only with quota left, or to its end; new sessions start
  in READY with no plays and a positive quota.
\<close>

theorem play_ops_follow_contract:
  assumes "play_op d d'" and "distinct (session_keys d)"
  shows "sessions_move d d'"
  using assms by (rule play_op_moves)

text \<open>
  (C2) However the play operations of all players interleave, a session never holds more plays
  than the quota it was given, and while it is READY there is quota left.
\<close>

theorem session_quota_never_exceeded:
  assumes "play_op\<^sup>*\<^sup>* d0 d" and "t_playSessions d0 = []"
    and "map_of (t_playSessions d) k = Some s" and "ps_maxPlayCount s = Some m"
  shows "int (play_count d k) \<le> m \<and> (ps_state s = READY \<longrightarrow> int (play_count d k) < m)"
proof -
  have "distinct (session_keys d) \<and> quotas_kept d"
    using assms(1)
  proof (induction rule: rtranclp_induct)
    case base
    then show ?case by (simp add: assms(2) session_keys_def quotas_kept_def session_at_def)
  next
    case (step d1 d2)
    have "sessions_move d1 d2" using step(2,3) by (intro play_op_moves) simp_all
    moreover from this have "distinct (session_keys d1) \<longrightarrow> distinct (session_keys d2)"
      unfolding sessions_move_def by (rule conjunct1)
    ultimately show ?case using step(3) sessions_move_quota by blast
  qed
  then have q: "quotas_kept d" ..
  have "session_at d k = Some (Some m, ps_state s, play_count d k)" using assms(3,4) by (simp add: session_at_def)
  with q have "quota_ok (Some m) (ps_state s, play_count d k)" unfolding quotas_kept_def by blast
  then show ?thesis by (simp add: quota_ok_def)
qed


definition sample_session :: "play_session_row res \<times> db" where
  "sample_session = startPlaySession sample_env sample_ctx ''op'' 0 100 (\<lambda>t. t) ''a1'' ''s1'' ''tok'' (\<lambda>_ d. d) sample_db"

lemma sample_session_op: "play_op sample_db (snd sample_session)"
proof (rule op_start_session)
  show "startPlaySession sample_env sample_ctx ''op'' 0 100 (\<lambda>t. t) ''a1'' ''s1'' ''tok'' (\<lambda>_ d. d) sample_db =
      (fst sample_session, snd sample_session)"
    by (simp add: sample_session_def)
qed (simp_all add: sample_db_def plays_of_def)

lemma sample_session_row: "\<exists>s. map_of (t_playSessions (snd sample_session)) ''s1'' = Some s \<and> ps_maxPlayCount s = Some 3"
proof -
  have "(case map_of (t_playSessions (snd sample_session)) ''s1'' of None \<Rightarrow> False | Some s \<Rightarrow> ps_maxPlayCount s = Some 3)"
    by code_simp
  then show ?thesis by (auto split: option.splits)
qed

theorem play_ops_follow_contract_witness: "sessions_move sample_db (snd sample_session)"
  by (rule play_ops_follow_contract [OF sample_session_op]) (simp add: session_keys_def sample_db_def)

theorem session_quota_never_exceeded_witness: "play_count (snd sample_session) ''s1'' \<le> 3"
proof -
  obtain s where "map_of (t_playSessions (snd sample_session)) ''s1'' = Some s" "ps_maxPlayCount s = Some 3"
    using sample_session_row by blast
  moreover have "play_op\<^sup>*\<^sup>* sample_db (snd sample_session)" using sample_session_op by (rule r_into_rtranclp)
  moreover have "t_playSessions sample_db = []" by (simp add: sample_db_def)
  ultimately have "int (play_count (snd sample_session) ''s1'') \<le> 3"
    using session_quota_never_exceeded by blast
  then show ?thesis by simp
qed

section \<open>Starting a session\<close>

text \<open>
  A session starts only on a playable machine of an enabled game; it belongs to the caller,
  is READY, and a player who does not own the machine gets exactly the daily limit less the plays
  of today, which is positive.
\<close>

lemma started_session_has_the_daily_rest:
  assumes "startPlaySession env ctx manager start fin hash am newId token other d = (Inr row, d')"
  shows "\<exists>u r gs. ctx_userId ctx = Some u \<and> map_of (t_arcadeMachines d) am = Some r \<and>
    isPlayableArcadeMachine ctx manager r \<and> map_of (t_gameSettings d) (am_game r) = Some gs \<and>
    map_of (t_playSessions d') newId = Some row \<and> ps_playerId row = u \<and> ps_arcadeMachineId row = am \<and>
    ps_state row = READY \<and>
    (if nft_userId r = Some u \<and> u \<noteq> [] then ps_maxPlayCount row = Some (gs_dailyMaxPlayCount gs)
     else ps_maxPlayCount row = Some (gs_dailyMaxPlayCount gs - today_played ctx start fin am d) \<and>
          0 < gs_dailyMaxPlayCount gs - today_played ctx start fin am d)"
proof (cases "session_read env ctx manager start fin am d")
  case (Inl e)
  with assms show ?thesis by (simp add: startPlaySession_def)
next
  case (Inr p)
  then obtain r gs where r: "map_of (t_arcadeMachines d) am = Some r" "isPlayableArcadeMachine ctx manager r"
    and gs: "map_of (t_gameSettings d) (am_game r) = Some gs" and p: "sp_machine p = r" "sp_setting p = gs"
    and own: "currentUserOwns ctx [nft_userId r] \<longrightarrow> sp_maxPlayCount p = gs_dailyMaxPlayCount gs"
    and other: "\<not> currentUserOwns ctx [nft_userId r] \<longrightarrow>
      sp_maxPlayCount p = gs_dailyMaxPlayCount gs - today_played ctx start fin am d \<and> 0 < sp_maxPlayCount p"
    by (rule session_read_steps)
  let ?co = "Option.bind (Option.bind (am_gameCenterId (sp_machine p)) (map_of (t_gameCenters d))) nft_userId"
  from assms Inr obtain e where e: "create_session env ctx ?co am newId (hash token) p e = (Inr row, d')"
    by (auto simp: startPlaySession_def Let_def split: if_splits sum.splits)
  then obtain u owner where u: "ctx_userId ctx = Some u" and row: "row = new_session env u owner ?co am (hash token) p"
    and cr: "create_playSession newId row e = Inr d'"
    by (auto simp: create_session_def Let_def split: option.splits sum.splits)
  have "map_of (t_playSessions d') newId = Some row" using playSession_tab.create_find [OF cr] by simp
  moreover have "ps_playerId row = u" "ps_arcadeMachineId row = am" "ps_state row = READY"
    "ps_maxPlayCount row = Some (sp_maxPlayCount p)" by (simp_all add: row new_session_def)
  moreover have "currentUserOwns ctx [nft_userId r] \<longleftrightarrow> nft_userId r = Some u \<and> u \<noteq> []"
    using u by (auto simp: currentUserOwns_iff simp del: currentUserOwns.simps)
  ultimately show ?thesis using u r gs own other
    by (intro exI [of _ u] exI [of _ r] exI [of _ gs]) (auto simp del: currentUserOwns.simps)
qed

lemma started_session_has_the_daily_rest_witness:
  "\<exists>row. fst sample_session = Inr row \<and> ps_state row = READY"
proof -
  have "case fst sample_session of Inl _ \<Rightarrow> False | Inr _ \<Rightarrow> True" by code_simp
  then obtain row where row: "fst sample_session = Inr row" by (auto split: sum.splits)
  then have "startPlaySession sample_env sample_ctx ''op'' 0 100 (\<lambda>t. t) ''a1'' ''s1'' ''tok'' (\<lambda>_ d. d) sample_db =
      (Inr row, snd sample_session)" unfolding sample_session_def by (metis prod.collapse)
  from started_session_has_the_daily_rest [OF this] row show ?thesis by blast
qed

end
