(* ===== verification/Play_Rewards.thy ===== *)
theory Play_Rewards
  imports Play_Props
begin

text \<open>
  Properties of \<open>finishPlay\<close>: what a won play pays and to whom, the energy and the fever of
  the machine, and two flaws.
\<close>

section \<open>What a finished play pays\<close>

lemma update_play_result:
  assumes "play_update env pk score result plan d = Inr d'"
  shows "\<exists>p p'. map_of (t_plays d) pk = Some p \<and> pl_result p = None \<and>
    map_of (t_plays d') pk = Some p' \<and> pl_result p' = Some result"
  using assms play_tab.update_find(1) [OF assms [unfolded play_update_def], of pk]
  by (auto simp: play_update_def play_tab.update_Inr)

lemma finish_tx_steps:
  assumes "createFinishPlayTransactUpdates env ctx cur score result d1 = Inr qs" and "run_tx qs d = Inr d'"
  shows "\<exists>p p'. map_of (t_plays d) (cp_playId cur) = Some p \<and> pl_result p = None \<and>
      map_of (t_plays d') (cp_playId cur) = Some p' \<and> pl_result p' = Some result"
    and "result \<noteq> WIN \<Longrightarrow> t_users d' = t_users d \<and> t_arcadeMachines d' = t_arcadeMachines d"
    and "result = WIN \<Longrightarrow> \<exists>st lf c e1 e2 e3 P. spark_of (cp_machine cur) = Inr (st, lf) \<and>
      calculateEmitReward (ps_playerId (cp_session cur) = ps_arcadeMachineOwnerId (cp_session cur))
        (am_game (cp_machine cur)) (st = FEVER_TIME) = Inr c \<and>
      P = (if st = MEGA_SPARK then MEGA_SPARKED_REWARD
        else case booster_ratio env ctx d1 of None \<Rightarrow> emitPlayerReward c | Some x \<Rightarrow> emitPlayerReward c * x) \<and>
      add_teras env (ps_playerId (cp_session cur)) P d = Inr e1 \<and>
      add_teras env (ps_arcadeMachineOwnerId (cp_session cur)) (emitOwnerReward c) e1 = Inr e2 \<and>
      machine_update env cur st lf e2 = Inr e3 \<and> t_users d' = t_users e2 \<and>
      t_arcadeMachines d' = t_arcadeMachines e3"
proof -
  from finish_queries_steps [OF assms] obtain plan f1 f2
    where plan: "(if result = WIN then win_plan env ctx cur d1 else Inr lose_plan) = Inr plan"
    and f1: "run_tx (fp_queries plan) d = Inr f1"
    and f2: "play_update env (cp_playId cur) score result plan f1 = Inr f2"
    and d': "session_update env (cp_sessionId cur) (case ps_maxPlayCount (cp_session cur) of None \<Rightarrow> True
        | Some m \<Rightarrow> m > int (length (plays_of d1 (cp_sessionId cur)))) f2 = Inr d'" by auto
  have fr: "t_users f2 = t_users f1" "t_arcadeMachines f2 = t_arcadeMachines f1"
    using f2 by (auto simp: play_update_def play_tab.update_Inr put_defs)
  have fr': "t_users d' = t_users f2" "t_arcadeMachines d' = t_arcadeMachines f2" "t_plays d' = t_plays f2"
    using d' by (auto simp: session_update_def playSession_tab.update_Inr put_defs)
  show "\<exists>p p'. map_of (t_plays d) (cp_playId cur) = Some p \<and> pl_result p = None \<and>
      map_of (t_plays d') (cp_playId cur) = Some p' \<and> pl_result p' = Some result"
    using update_play_result [OF f2] unfolding plan_frame(1) [OF plan f1] fr'(3) .
  show "t_users d' = t_users d \<and> t_arcadeMachines d' = t_arcadeMachines d" if "result \<noteq> WIN"
    using plan f1 that fr fr' by (auto simp: lose_plan_def)
  assume "result = WIN"
  with plan have w: "win_plan env ctx cur d1 = Inr plan" by simp
  show "\<exists>st lf c e1 e2 e3 P. spark_of (cp_machine cur) = Inr (st, lf) \<and>
      calculateEmitReward (ps_playerId (cp_session cur) = ps_arcadeMachineOwnerId (cp_session cur))
        (am_game (cp_machine cur)) (st = FEVER_TIME) = Inr c \<and>
      P = (if st = MEGA_SPARK then MEGA_SPARKED_REWARD
        else case booster_ratio env ctx d1 of None \<Rightarrow> emitPlayerReward c | Some x \<Rightarrow> emitPlayerReward c * x) \<and>
      add_teras env (ps_playerId (cp_session cur)) P d = Inr e1 \<and>
      add_teras env (ps_arcadeMachineOwnerId (cp_session cur)) (emitOwnerReward c) e1 = Inr e2 \<and>
      machine_update env cur st lf e2 = Inr e3 \<and> t_users d' = t_users e2 \<and>
      t_arcadeMachines d' = t_arcadeMachines e3"
    using w
  proof (rule win_plan_steps)
    fix st lf c
    assume a: "spark_of (cp_machine cur) = Inr (st, lf)"
      "calculateEmitReward (ps_playerId (cp_session cur) = ps_arcadeMachineOwnerId (cp_session cur))
        (am_game (cp_machine cur)) (st = FEVER_TIME) = Inr c"
      and q: "fp_queries plan = [add_teras env (ps_playerId (cp_session cur)) (the (fp_playerReward plan)),
        add_teras env (ps_arcadeMachineOwnerId (cp_session cur)) (emitOwnerReward c),
        machine_update env cur st lf] @ notify_queries cur st (mega_sparks d1 (ps_playerId (cp_session cur)))"
      and p: "fp_playerReward plan = Some (if st = MEGA_SPARK then MEGA_SPARKED_REWARD
        else case booster_ratio env ctx d1 of None \<Rightarrow> emitPlayerReward c | Some x \<Rightarrow> emitPlayerReward c * x)"
    show ?thesis
      using f1 unfolding q p option.sel
    proof (rule win_queries_run)
      fix e1 e2 e3
      assume "add_teras env (ps_playerId (cp_session cur)) (if st = MEGA_SPARK then MEGA_SPARKED_REWARD
        else case booster_ratio env ctx d1 of None \<Rightarrow> emitPlayerReward c | Some x \<Rightarrow> emitPlayerReward c * x) d = Inr e1"
        "add_teras env (ps_arcadeMachineOwnerId (cp_session cur)) (emitOwnerReward c) e1 = Inr e2"
        "machine_update env cur st lf e2 = Inr e3" "t_users f1 = t_users e2" "t_arcadeMachines f1 = t_arcadeMachines e3"
      with a show ?thesis unfolding fr' fr by blast
    qed
  qed
qed

text \<open>
  A request to finish a play leaves the whole database as it found it at one of its three stages, the log of
  the outgoing calls apart, or its transaction is committed.
\<close>

lemma finishPlay_outcome:
  assumes "finishPlay env ctx hash sha token score ts salt sig other d = (res, d')"
  obtains d0 where "d0 \<in> {d, other 0 d, other 1 (other 0 d)}" and "d' = d0\<lparr>t_calls := t_calls d'\<rparr>"
  | cur qs d2 where "getCurrentPlayWithSession hash token d = Inr cur"
      and "createFinishPlayTransactUpdates env ctx cur score (play_result (cp_session cur) score) (other 0 d) = Inr qs"
      and "run_tx qs (other 1 (other 0 d)) = Inr d2" and "d' = d2\<lparr>t_calls := t_calls d'\<rparr>"
proof (cases "getCurrentPlayWithSession hash token d")
  case (Inl e)
  with assms show ?thesis using that(1) [of d] by (simp add: finishPlay_def)
next
  case cur: (Inr cur)
  show ?thesis
  proof (cases "score_rejected sha ts salt sig score cur")
    case True
    with assms cur show ?thesis using that(1) [of d] by (simp add: finishPlay_def)
  next
    case ok: False
    let ?q = "createFinishPlayTransactUpdates env ctx cur score (play_result (cp_session cur) score) (other 0 d)"
    show ?thesis
    proof (cases ?q)
      case (Inl e)
      with assms cur ok have "d' = (other 0 d)\<lparr>t_calls := t_calls d'\<rparr>"
        by (auto simp: finishPlay_def Let_def call_def split: if_splits)
      then show ?thesis using that(1) by blast
    next
      case q: (Inr qs)
      show ?thesis
      proof (cases "run_tx qs (other 1 (other 0 d))")
        case (Inl e)
        with assms cur ok q have "d' = (other 1 (other 0 d))\<lparr>t_calls := t_calls d'\<rparr>"
          by (auto simp: finishPlay_def Let_def call_def split: if_splits)
        then show ?thesis using that(1) by blast
      next
        case tx: (Inr d2)
        with assms cur ok q have "d' = d2\<lparr>t_calls := t_calls d'\<rparr>"
          by (auto simp: finishPlay_def Let_def call_def split: if_splits)
        then show ?thesis using that(2) [OF cur q tx] by blast
      qed
    qed
  qed
qed

lemma committed_finish:
  assumes "createFinishPlayTransactUpdates env ctx cur score result d1 = Inr qs" and "run_tx qs d = Inr d2"
    and "d' = d2\<lparr>t_calls := t_calls d'\<rparr>"
  shows "\<exists>p p'. map_of (t_plays d) (cp_playId cur) = Some p \<and> pl_result p = None \<and>
      map_of (t_plays d') (cp_playId cur) = Some p' \<and> pl_result p' = Some result"
    and "result \<noteq> WIN \<Longrightarrow> t_users d' = t_users d \<and> t_arcadeMachines d' = t_arcadeMachines d"
proof -
  have fr: "t_plays d' = t_plays d2" "t_users d' = t_users d2" "t_arcadeMachines d' = t_arcadeMachines d2"
    by (subst assms(3), simp)+
  show "\<exists>p p'. map_of (t_plays d) (cp_playId cur) = Some p \<and> pl_result p = None \<and>
      map_of (t_plays d') (cp_playId cur) = Some p' \<and> pl_result p' = Some result"
    unfolding fr by (rule finish_tx_steps(1) [OF assms(1,2)])
  show "t_users d' = t_users d \<and> t_arcadeMachines d' = t_arcadeMachines d" if "result \<noteq> WIN"
    unfolding fr by (rule finish_tx_steps(2) [OF assms(1,2) that])
qed

text \<open>
  (C4) A request to finish a play changes nothing in the whole database, the log of the outgoing calls apart, unless
  the play is still open when its transaction runs and is recorded with its result by it: a play that was finished or
  disconnected in the meantime, also by a request that overlaps with this one, pays nobody and leaves every machine,
  session and play as it is.  A play recorded as anything but won changes no balance and no machine.
\<close>

theorem play_pays_at_most_once:
  assumes "finishPlay env ctx hash sha token score ts salt sig other d = (res, d')"
  shows "(\<exists>d0 \<in> {d, other 0 d, other 1 (other 0 d)}. d' = d0\<lparr>t_calls := t_calls d'\<rparr>) \<or>
    (\<exists>cur p p'. getCurrentPlayWithSession hash token d = Inr cur \<and>
      map_of (t_plays (other 1 (other 0 d))) (cp_playId cur) = Some p \<and> pl_result p = None \<and>
      map_of (t_plays d') (cp_playId cur) = Some p' \<and> pl_result p' = Some (play_result (cp_session cur) score) \<and>
      (pl_result p' = Some WIN \<or> t_users d' = t_users (other 1 (other 0 d)) \<and>
        t_arcadeMachines d' = t_arcadeMachines (other 1 (other 0 d))))"
  using assms
proof (cases rule: finishPlay_outcome)
  case (2 cur qs d2)
  from committed_finish [OF 2(2-4)] show ?thesis using 2(1) by (metis (no_types))
qed blast

definition sample_anonymous :: ctx where
  "sample_anonymous = \<lparr>ctx_userId = None, ctx_walletAddress = None, ctx_country = None\<rparr>"

definition sample_playing :: db where
  "sample_playing = snd (startPlay sample_env (\<lambda>t. t) ''pl1'' ''tok'' (\<lambda>d. d) (snd sample_session))"

definition sample_won :: "unit res \<times> db" where
  "sample_won = finishPlay sample_env sample_anonymous (\<lambda>t. t) (\<lambda>t. t) ''tok'' 100 None None None (\<lambda>_ d. d) sample_playing"

lemma sample_won_run: "finishPlay sample_env sample_anonymous (\<lambda>t. t) (\<lambda>t. t) ''tok'' 100 None None None (\<lambda>_ d. d)
    sample_playing = (fst sample_won, snd sample_won)"
  by (simp add: sample_won_def)

lemma teras_same: "t_users d' = t_users d \<Longrightarrow> teras_of d' u = teras_of d u"
  by (simp add: teras_of_def)

lemma sample_won_teras: "teras_of sample_playing ''u1'' = 20000" "teras_of (snd sample_won) ''u1'' = 20040"
  by code_simp+

lemma sample_won_recorded: "t_users (snd sample_won) \<noteq> t_users sample_playing"
  using teras_same [of "snd sample_won" sample_playing "''u1''"] by (auto simp: sample_won_teras)

theorem play_pays_at_most_once_witness:
  "\<exists>cur p'. getCurrentPlayWithSession (\<lambda>t. t) ''tok'' sample_playing = Inr cur \<and>
     map_of (t_plays (snd sample_won)) (cp_playId cur) = Some p' \<and>
     pl_result p' = Some (play_result (cp_session cur) 100)"
proof -
  have "snd sample_won \<noteq> sample_playing\<lparr>t_calls := c\<rparr>" for c
    using sample_won_recorded by (metis db.select_convs(1) db.surjective db.update_convs(39))
  with play_pays_at_most_once [OF sample_won_run] show ?thesis by blast
qed

lemma add_teras_exact:
  assumes "add_teras env u (of_int i) d = Inr d'" and "rounds (env_rnd env)"
  shows "teras_of d' k = teras_of d k + (if k = u then i else 0)"
proof -
  have "env_rnd env (of_int b + of_int i) = b + i" for b
    using rounds_int [OF assms(2), of "b + i"] by simp
  then show ?thesis
    using add_teras_find [OF assms(1)] by (auto simp: teras_of_def split: option.splits)
qed

text \<open>
  A user after a win: the balance of the player grows by \<open>P\<close> and is rounded to the integer column, that of the
  owner by \<open>Q\<close>.
\<close>

definition credited :: "env \<Rightarrow> user_id \<Rightarrow> decimal \<Rightarrow> user_id \<Rightarrow> int \<Rightarrow> user_id \<Rightarrow> user_row \<Rightarrow> user_row" where
  "credited env player P owner Q u r =
     r\<lparr>terasBalance := (if u = player then env_rnd env (of_int (terasBalance r) + P) else terasBalance r) +
        (if u = owner then Q else 0)\<rparr>"

lemma add_twice:
  assumes "add_teras env player P d = Inr e1" and "add_teras env owner (of_int Q) e1 = Inr e2" and "rounds (env_rnd env)"
  shows "map_of (t_users e2) u = map_option (credited env player P owner Q u) (map_of (t_users d) u)"
    and "map_of (t_users d) player \<noteq> None" and "map_of (t_users d) owner \<noteq> None"
proof -
  have r: "env_rnd env (of_int b + of_int Q) = b + Q" for b
    using rounds_int [OF assms(3), of "b + Q"] by simp
  show "map_of (t_users e2) u = map_option (credited env player P owner Q u) (map_of (t_users d) u)"
    by (cases "map_of (t_users d) u")
      (auto simp: add_teras_find(1) [OF assms(1)] add_teras_find(1) [OF assms(2)] credited_def r)
  show "map_of (t_users d) player \<noteq> None" by (rule add_teras_find(2) [OF assms(1)])
  show "map_of (t_users d) owner \<noteq> None"
    using add_teras_find(2) [OF assms(2)] add_teras_find(1) [OF assms(1), of owner] by (auto split: if_splits)
qed

lemma credited_whole:
  assumes "rounds (env_rnd env)" and "\<And>u. map_of (t_users d') u = map_option (credited env player (of_int i) owner Q u) (map_of (t_users d) u)"
    and "map_of (t_users d) player \<noteq> None" and "map_of (t_users d) owner \<noteq> None"
  shows "teras_of d' u = teras_of d u + (if u = player then i else 0) + (if u = owner then Q else 0)"
proof -
  have "env_rnd env (of_int b + of_int i) = b + i" for b
    using rounds_int [OF assms(1), of "b + i"] by simp
  then show ?thesis
    using assms(3,4) by (cases "map_of (t_users d) u") (auto simp: teras_of_def assms(2) credited_def)
qed

text \<open>
  (C10) What a request pays that records the result of an open play.  A play that is not won pays nobody.  A won one
  pays the owner of the machine half of what the game emits, a whole number \<open>Q\<close>, and the player the same, times the ratio of the
  booster found if there is one, or 500 at the mega spark, rounded with the balance; no other row or column of the
  users changes.  Where the player's reward is whole, as always without a booster, both balances grow by exactly the
  rewards.
\<close>

theorem win_pays_exact:
  assumes "finishPlay env ctx hash sha token score ts salt sig other d = (res, d')"
    and "rounds (env_rnd env)" and "getCurrentPlayWithSession hash token d = Inr cur"
    and "\<And>e p. e \<in> {d, other 0 d, other 1 (other 0 d)} \<Longrightarrow> map_of (t_plays e) (cp_playId cur) = Some p \<Longrightarrow> pl_result p = None"
    and "map_of (t_plays d') (cp_playId cur) = Some p'" and "pl_result p' = Some result"
  shows "result = play_result (cp_session cur) score \<and>
    (result \<noteq> WIN \<longrightarrow> t_users d' = t_users (other 1 (other 0 d))) \<and>
    (result = WIN \<longrightarrow> (\<exists>st lf c P Q. spark_of (cp_machine cur) = Inr (st, lf) \<and>
      calculateEmitReward (ps_playerId (cp_session cur) = ps_arcadeMachineOwnerId (cp_session cur))
        (am_game (cp_machine cur)) (st = FEVER_TIME) = Inr c \<and>
      emitOwnerReward c = of_int Q \<and> emitPlayerReward c = of_int Q \<and>
      P = (if st = MEGA_SPARK then 500
        else case booster_ratio env ctx (other 0 d) of None \<Rightarrow> of_int Q | Some x \<Rightarrow> of_int Q * x) \<and>
      (\<forall>u. map_of (t_users d') u = map_option
        (credited env (ps_playerId (cp_session cur)) P (ps_arcadeMachineOwnerId (cp_session cur)) Q u)
        (map_of (t_users (other 1 (other 0 d))) u)) \<and>
      (\<forall>i u. P = of_int i \<longrightarrow> teras_of d' u = teras_of (other 1 (other 0 d)) u +
        (if u = ps_playerId (cp_session cur) then i else 0) +
        (if u = ps_arcadeMachineOwnerId (cp_session cur) then Q else 0))))"
  using assms(1)
proof (cases rule: finishPlay_outcome)
  case (1 d0)
  have "t_plays d' = t_plays d0" by (subst 1(2)) simp
  with 1(1) assms(4-6) have False by auto
  then show ?thesis ..
next
  case (2 cur' qs d2)
  then have cur: "cur' = cur" using assms(3) by simp
  note tx = 2(2,3) [unfolded cur]
  have "result = play_result (cp_session cur) score"
    using committed_finish(1) [OF tx 2(4)] assms(5,6) by auto
  note tx = tx [folded this]
  have us: "t_users d' = t_users d2" by (subst 2(4)) simp
  have won: "\<exists>st lf c P Q. spark_of (cp_machine cur) = Inr (st, lf) \<and>
      calculateEmitReward (ps_playerId (cp_session cur) = ps_arcadeMachineOwnerId (cp_session cur))
        (am_game (cp_machine cur)) (st = FEVER_TIME) = Inr c \<and>
      emitOwnerReward c = of_int Q \<and> emitPlayerReward c = of_int Q \<and>
      P = (if st = MEGA_SPARK then 500
        else case booster_ratio env ctx (other 0 d) of None \<Rightarrow> of_int Q | Some x \<Rightarrow> of_int Q * x) \<and>
      (\<forall>u. map_of (t_users d') u = map_option
        (credited env (ps_playerId (cp_session cur)) P (ps_arcadeMachineOwnerId (cp_session cur)) Q u)
        (map_of (t_users (other 1 (other 0 d))) u)) \<and>
      (\<forall>i u. P = of_int i \<longrightarrow> teras_of d' u = teras_of (other 1 (other 0 d)) u +
        (if u = ps_playerId (cp_session cur) then i else 0) +
        (if u = ps_arcadeMachineOwnerId (cp_session cur) then Q else 0))" if "result = WIN"
  proof -
    from finish_tx_steps(3) [OF tx that] obtain st lf c e1 e2 P
      where sp: "spark_of (cp_machine cur) = Inr (st, lf)"
        and c: "calculateEmitReward (ps_playerId (cp_session cur) = ps_arcadeMachineOwnerId (cp_session cur))
          (am_game (cp_machine cur)) (st = FEVER_TIME) = Inr c"
        and P: "P = (if st = MEGA_SPARK then MEGA_SPARKED_REWARD
          else case booster_ratio env ctx (other 0 d) of None \<Rightarrow> emitPlayerReward c | Some x \<Rightarrow> emitPlayerReward c * x)"
        and e1: "add_teras env (ps_playerId (cp_session cur)) P (other 1 (other 0 d)) = Inr e1"
        and e2: "add_teras env (ps_arcadeMachineOwnerId (cp_session cur)) (emitOwnerReward c) e1 = Inr e2"
        and us2: "t_users d2 = t_users e2"
      by blast
    from calculateEmitReward_split(1,4) [OF c] obtain Q where Q: "emitOwnerReward c = of_int Q" "emitPlayerReward c = of_int Q"
      by auto
    note a = add_twice [OF e1 e2 [unfolded Q(1)] assms(2), folded us2, folded us]
    have "\<forall>i u. P = of_int i \<longrightarrow> teras_of d' u = teras_of (other 1 (other 0 d)) u +
        (if u = ps_playerId (cp_session cur) then i else 0) + (if u = ps_arcadeMachineOwnerId (cp_session cur) then Q else 0)"
      using credited_whole [OF assms(2) _ a(2,3)] a(1) by blast
    moreover have "P = (if st = MEGA_SPARK then 500
        else case booster_ratio env ctx (other 0 d) of None \<Rightarrow> of_int Q | Some x \<Rightarrow> of_int Q * x)"
      unfolding P Q MEGA_SPARKED_REWARD_def ..
    ultimately show ?thesis using sp c Q a(1) by blast
  qed
  have "result \<noteq> WIN \<longrightarrow> t_users d' = t_users (other 1 (other 0 d))"
    using committed_finish(2) [OF tx 2(4)] by blast
  with won \<open>result = play_result (cp_session cur) score\<close> show ?thesis by blast
qed

text \<open>The play of the sample: open when it was read, recorded as won.\<close>

lemma sample_won_play:
  "\<exists>cur p'. getCurrentPlayWithSession (\<lambda>t. t) ''tok'' sample_playing = Inr cur \<and>
    (\<forall>p. map_of (t_plays sample_playing) (cp_playId cur) = Some p \<longrightarrow> pl_result p = None) \<and>
    map_of (t_plays (snd sample_won)) (cp_playId cur) = Some p' \<and> pl_result p' = Some WIN"
proof -
  have "case getCurrentPlayWithSession (\<lambda>t. t) ''tok'' sample_playing of Inl _ \<Rightarrow> False
    | Inr cur \<Rightarrow> (case map_of (t_plays sample_playing) (cp_playId cur) of None \<Rightarrow> False | Some p \<Rightarrow> pl_result p = None) \<and>
      (case map_of (t_plays (snd sample_won)) (cp_playId cur) of None \<Rightarrow> False | Some p \<Rightarrow> pl_result p = Some WIN)"
    by code_simp
  then obtain cur where cur: "getCurrentPlayWithSession (\<lambda>t. t) ''tok'' sample_playing = Inr cur"
    and op: "case map_of (t_plays sample_playing) (cp_playId cur) of None \<Rightarrow> False | Some p \<Rightarrow> pl_result p = None"
    and won: "case map_of (t_plays (snd sample_won)) (cp_playId cur) of None \<Rightarrow> False | Some p \<Rightarrow> pl_result p = Some WIN"
    by (cases "getCurrentPlayWithSession (\<lambda>t. t) ''tok'' sample_playing") simp_all
  from won obtain p' where "map_of (t_plays (snd sample_won)) (cp_playId cur) = Some p'" and "pl_result p' = Some WIN"
    by (auto split: option.splits)
  with cur op show ?thesis by auto
qed

theorem win_pays_exact_witness: "\<exists>st lf cur. teras_of (snd sample_won) ''u1'' - teras_of sample_playing ''u1'' = 40 \<and>
    getCurrentPlayWithSession (\<lambda>t. t) ''tok'' sample_playing = Inr cur \<and> spark_of (cp_machine cur) = Inr (st, lf)"
proof -
  have r: "rounds (env_rnd sample_env)" by (simp add: sample_env_def rounds_round)
  obtain cur p' where cur: "getCurrentPlayWithSession (\<lambda>t. t) ''tok'' sample_playing = Inr cur"
    and op: "\<And>p. map_of (t_plays sample_playing) (cp_playId cur) = Some p \<Longrightarrow> pl_result p = None"
    and p': "map_of (t_plays (snd sample_won)) (cp_playId cur) = Some p'" "pl_result p' = Some WIN"
    using sample_won_play by blast
  have "\<exists>st lf. spark_of (cp_machine cur) = Inr (st, lf)"
    using win_pays_exact [OF sample_won_run r cur _ p'] op by auto
  with cur show ?thesis by (auto simp: sample_won_teras)
qed


section \<open>Energy and fever\<close>

text \<open>
  A machine is in fever, with sparks remaining or none, exactly when its energy has reached the
  maximum, which it never passes.
\<close>

definition spark_ok :: "arcade_machine_row \<Rightarrow> bool" where
  "spark_ok r \<longleftrightarrow> am_energy r \<le> am_maxEnergy r \<and> (am_feverSparkRemain r = None \<longleftrightarrow> am_energy r < am_maxEnergy r)"

definition sparks_ok :: "db \<Rightarrow> bool" where
  "sparks_ok d \<longleftrightarrow> (\<forall>(k, r) \<in> set (t_arcadeMachines d). spark_ok r)"

definition same_maxEnergy :: "db \<Rightarrow> db \<Rightarrow> bool" where
  "same_maxEnergy d d' \<longleftrightarrow> (\<forall>k r r'. map_of (t_arcadeMachines d) k = Some r \<longrightarrow>
     map_of (t_arcadeMachines d') k = Some r' \<longrightarrow> am_maxEnergy r' = am_maxEnergy r)"

lemma spark_of_Inr:
  assumes "spark_of am = Inr (st, lf)"
  shows "st = MEGA_SPARK \<and> am_energy am \<noteq> am_maxEnergy am \<or>
    st \<in> {UPCOMING, NO_SPARK} \<and> am_energy am \<noteq> am_maxEnergy am \<and> am_energy am + SPARKED_ENERGY < am_maxEnergy am \<or>
    st = FEVER_TIME \<and> am_energy am = am_maxEnergy am"
  using assms by (auto simp: spark_of_def Let_def split: if_splits option.splits)

lemma spark_update_ok:
  assumes "spark_of am = Inr (st, lf)" and "spark_ok r" and "am_energy r = am_energy am"
    and "am_maxEnergy r = am_maxEnergy am"
  shows "spark_ok (spark_update st lf (am_maxEnergy am) r)"
  using spark_of_Inr [OF assms(1)] assms(2-4)
  by (cases lf) (auto simp: spark_ok_def spark_update_def Let_def SPARKED_ENERGY_def)

lemma machine_update_ok:
  assumes "machine_update env cur st lf d = Inr d'" and "spark_of (cp_machine cur) = Inr (st, lf)"
    and "sparks_ok d"
    and "\<And>r. map_of (t_arcadeMachines d) (ps_arcadeMachineId (cp_session cur)) = Some r \<Longrightarrow>
      am_maxEnergy r = am_maxEnergy (cp_machine cur)"
  shows "sparks_ok d'"
proof -
  define f where "f = (\<lambda>r. (spark_update st lf (am_maxEnergy (cp_machine cur)) r)\<lparr>nft_updatedAt := env_now env\<rparr> :: arcade_machine_row)"
  define k where "k = ps_arcadeMachineId (cp_session cur)"
  from assms(1) obtain r where r: "map_of (t_arcadeMachines d) k = Some r" "am_energy r = am_energy (cp_machine cur)"
    and t: "t_arcadeMachines d' = apply_row f k (t_arcadeMachines d)"
    unfolding machine_update_def f_def [symmetric] k_def [symmetric] arcadeMachine_tab.update_Inr
    by (auto simp: put_defs)
  have "spark_ok r" using assms(3) map_of_SomeD [OF r(1)] by (auto simp: sparks_ok_def)
  from spark_update_ok [OF assms(2) this r(2)] assms(4) r(1) have "spark_ok (f r)"
    by (simp add: f_def spark_ok_def k_def)
  then show ?thesis
    using assms(3) r(1) unfolding sparks_ok_def t by (auto dest!: set_apply_row)
qed

text \<open>
  (C6) Winning plays keeps the energy rules of every machine: each spark adds its energy, the
  mega spark fills the machine up and starts the fever, a spark in fever uses up one of the
  remaining ones; two sparks from the same reading cannot both count, so the energy never passes
  the maximum.
\<close>

theorem sparks_keep_energy:
  assumes "finishPlay env ctx hash sha token score ts salt sig other d = (res, d')"
    and "sparks_ok d" and "sparks_ok (other 0 d)" and "sparks_ok (other 1 (other 0 d))"
    and "same_maxEnergy d (other 1 (other 0 d))"
  shows "sparks_ok d'"
proof -
  have frame: "t_arcadeMachines d' = t_arcadeMachines e \<Longrightarrow> sparks_ok e \<Longrightarrow> sparks_ok d'" for e
    by (simp add: sparks_ok_def)
  show ?thesis
    using assms(1)
  proof (cases rule: finishPlay_cases)
    case 1
    with assms(2) show ?thesis by (simp only:)
  next
    case (2 cur)
    then show ?thesis using frame [of "other 0 d"] assms(3) by blast
  next
    case (3 cur)
    then show ?thesis using frame [of "other 1 (other 0 d)"] assms(4) by blast
  next
    case (4 cur qs d2)
    show ?thesis
    proof (cases "play_result (cp_session cur) score = WIN")
      case False
      with finish_tx_steps(2) [OF 4(2,3)] 4(5) show ?thesis using frame [of "other 1 (other 0 d)"] assms(4) by simp
    next
      case True
      from finish_tx_steps(3) [OF 4(2,3) True] obtain st lf c e1 e2 e3 P
        where sp: "spark_of (cp_machine cur) = Inr (st, lf)"
          and "calculateEmitReward (ps_playerId (cp_session cur) = ps_arcadeMachineOwnerId (cp_session cur))
            (am_game (cp_machine cur)) (st = FEVER_TIME) = Inr c"
          and "P = (if st = MEGA_SPARK then MEGA_SPARKED_REWARD
            else case booster_ratio env ctx (other 0 d) of None \<Rightarrow> emitPlayerReward c | Some x \<Rightarrow> emitPlayerReward c * x)"
          and e1: "add_teras env (ps_playerId (cp_session cur)) P (other 1 (other 0 d)) = Inr e1"
          and e2: "add_teras env (ps_arcadeMachineOwnerId (cp_session cur)) (emitOwnerReward c) e1 = Inr e2"
          and e3: "machine_update env cur st lf e2 = Inr e3" and "t_users d2 = t_users e2" and ms: "t_arcadeMachines d2 = t_arcadeMachines e3"
        by blast
      have m: "t_arcadeMachines e2 = t_arcadeMachines (other 1 (other 0 d))"
        by (simp add: add_teras_frames [OF e2] add_teras_frames [OF e1])
      have "sparks_ok e3"
        by (rule machine_update_ok [OF e3 sp])
          (use assms(4,5) current_play_steps(5) [OF 4(1)] in \<open>simp_all add: sparks_ok_def m same_maxEnergy_def\<close>)
      then show ?thesis using frame [of e3] 4(5) ms by simp
    qed
  qed
qed

lemma sample_sparks: "sparks_ok sample_playing"
proof -
  have "sparks_ok sample_playing \<longleftrightarrow> list_all (\<lambda>(k, r). spark_ok r) (t_arcadeMachines sample_playing)"
    by (simp add: sparks_ok_def list_all_iff)
  also have "\<dots>" by code_simp
  finally show ?thesis .
qed

theorem sparks_keep_energy_witness: "sparks_ok (snd sample_won)"
  by (rule sparks_keep_energy [OF sample_won_run]) (simp_all add: sample_sparks same_maxEnergy_def)

section \<open>Two flaws of finishing a play\<close>

text \<open>
  A request that carries only the session token has no user, and then the first active Teras
  booster, whoever bought it, sets the ratio of the player's reward: the number that follows the
  first character of its label.
\<close>

lemma foreign_booster_applies:
  assumes "ctx_userId ctx = None"
    and "t_activeBoosters d = ((v, ''SPARK_TERAS_UP'', c # nat_string n), endAt) # bs" and "env_now env \<le> endAt"
  shows "booster_ratio env ctx d = Some (of_nat n)"
  using assms by (simp add: booster_ratio_def where_user_def parseFloat_nat_string)

definition sample_foreign_booster :: db where
  "sample_foreign_booster = sample_playing\<lparr>t_activeBoosters := [((''u2'', ''SPARK_TERAS_UP'', ''x3''), 60)]\<rparr>"

definition sample_boosted :: "unit res \<times> db" where
  "sample_boosted = finishPlay sample_env sample_anonymous (\<lambda>t. t) (\<lambda>t. t) ''tok'' 100 None None None (\<lambda>_ d. d)
     sample_foreign_booster"

lemma foreign_booster_applies_witness:
  "booster_ratio sample_env sample_anonymous sample_foreign_booster = Some 3 \<and>
   teras_of (snd sample_boosted) ''u1'' - teras_of sample_playing ''u1'' = 80"
proof
  have "nat_string 3 = ''3''" by code_simp
  then have "t_activeBoosters sample_foreign_booster = ((''u2'', ''SPARK_TERAS_UP'', CHR ''x'' # nat_string 3), 60) # []"
    by (simp add: sample_foreign_booster_def)
  from foreign_booster_applies [OF _ this]
  show "booster_ratio sample_env sample_anonymous sample_foreign_booster = Some 3"
    by (simp add: sample_anonymous_def sample_env_def)
  show "teras_of (snd sample_boosted) ''u1'' - teras_of sample_playing ''u1'' = 80" by code_simp
qed

text \<open>
  When the transaction of a won play loses against another update, the request still succeeds
  and still counts the spark for the campaign, although nothing was recorded or paid.
\<close>

lemma lost_spark_still_counted:
  assumes "getCurrentPlayWithSession hash token d = Inr cur"
    and "\<not> score_rejected sha ts salt sig score cur" and "play_result (cp_session cur) score = WIN"
    and "createFinishPlayTransactUpdates env ctx cur score WIN (other 0 d) = Inr qs"
    and "run_tx qs (other 1 (other 0 d)) = Inl (PrismaKnownRequestError ''P2025'')"
  shows "finishPlay env ctx hash sha token score ts salt sig other d =
    (Inr (), call (RewardSparkCount (ps_playerId (cp_session cur))) (other 1 (other 0 d)))"
  using assms by (simp add: finishPlay_def)

definition sample_race :: "nat \<Rightarrow> db \<Rightarrow> db" where
  "sample_race i d = (if i = 1 then snd sample_won else d)"

lemma lost_spark_still_counted_witness:
  "\<exists>c. finishPlay sample_env sample_anonymous (\<lambda>t. t) (\<lambda>t. t) ''tok'' 100 None None None sample_race sample_playing =
    (Inr (), call c (snd sample_won))"
proof -
  let ?cur = "getCurrentPlayWithSession (\<lambda>t. t) ''tok'' sample_playing"
  have "case ?cur of Inl _ \<Rightarrow> False
    | Inr cur \<Rightarrow> play_result (cp_session cur) 100 = WIN \<and>
       (case createFinishPlayTransactUpdates sample_env sample_anonymous cur 100 WIN sample_playing of
          Inl _ \<Rightarrow> False
        | Inr qs \<Rightarrow> (case run_tx qs (snd sample_won) of Inl e \<Rightarrow> e = PrismaKnownRequestError ''P2025'' | Inr _ \<Rightarrow> False))"
    by code_simp
  then obtain cur qs where cur: "?cur = Inr cur" and win: "play_result (cp_session cur) 100 = WIN"
    and qs: "createFinishPlayTransactUpdates sample_env sample_anonymous cur 100 WIN sample_playing = Inr qs"
    and tx: "run_tx qs (snd sample_won) = Inl (PrismaKnownRequestError ''P2025'')"
    by (auto split: sum.splits)
  have nr: "\<not> score_rejected (\<lambda>t. t) None None None 100 cur" by (simp add: score_rejected_def)
  have "createFinishPlayTransactUpdates sample_env sample_anonymous cur 100 WIN (sample_race 0 sample_playing) = Inr qs"
    and "run_tx qs (sample_race 1 (sample_race 0 sample_playing)) = Inl (PrismaKnownRequestError ''P2025'')"
    using qs tx by (simp_all add: sample_race_def)
  note r = lost_spark_still_counted [OF cur nr win this]
  have "sample_race 1 (sample_race 0 sample_playing) = snd sample_won" by (simp add: sample_race_def)
  with r show ?thesis by metis
qed

end
