(* ===== verification/Craft.thy ===== *)
theory Craft
  imports Play_Game
begin

text \<open>
  \<open>src/use_cases/craft_usecase.ts\<close>: four parts, each an arcade part the user owns or one made
  of the user's junk, become an arcade machine.  The ids of new rows are arguments.  A stored part
  whose sub-category is missing in the metadata is a \<open>TypeError\<close>; the code may notice a wrong
  combination of the other parts first.  Without a user in the request the client refuses the
  query for the user.
\<close>

datatype craft_part = CraftArcadePart ArcadePartCategory nft_id | CraftJunkPart ArcadePartCategory string

fun craft_category :: "craft_part \<Rightarrow> ArcadePartCategory" where
  "craft_category (CraftArcadePart c _) = c"
| "craft_category (CraftJunkPart c _) = c"

text \<open>\<open>CRAFT_BASE_FEES\<close>, for Teras and for AKV.\<close>

fun CRAFT_BASE_FEES :: "bool \<Rightarrow> int" where
  "CRAFT_BASE_FEES True = 5000"
| "CRAFT_BASE_FEES False = 8 * 10 ^ 18"

section \<open>Reading the parts\<close>

record merged_part =
  mp_category :: ArcadePartCategory
  mp_subCategory :: string

record needed_junk = merged_part +
  nj_junksPerPart :: int

definition useJunks :: "craft_part list \<Rightarrow> (ArcadePartCategory \<times> string) list" where
  "useJunks parts = concat (map (\<lambda>p. case p of CraftJunkPart c s \<Rightarrow> [(c, s)] | _ \<Rightarrow> []) parts)"

definition useArcadeParts :: "craft_part list \<Rightarrow> (ArcadePartCategory \<times> nft_id) list" where
  "useArcadeParts parts = concat (map (\<lambda>p. case p of CraftArcadePart c k \<Rightarrow> [(c, k)] | _ \<Rightarrow> []) parts)"

definition need_junk :: "(user_id \<times> ArcadePartCategory \<times> string) \<times> int \<Rightarrow> needed_junk res" where
  "need_junk row =
     (case row of ((u, c, s), amount) \<Rightarrow>
        (case getJunkMetadata c s of
           Inl _ \<Rightarrow> Inl (InvalidArgumentUseCaseError ''unknown junk part'')
         | Inr m \<Rightarrow>
             if amount < jm_junksPerPart m then Inl (InvalidArgumentUseCaseError ''Insufficient quantity of parts'')
             else Inr \<lparr>mp_category = c, mp_subCategory = s, nj_junksPerPart = jm_junksPerPart m\<rparr>))"

definition read_junks :: "ctx \<Rightarrow> craft_part list \<Rightarrow> db \<Rightarrow> needed_junk list res" where
  "read_junks ctx parts d =
     (let js = useJunks parts in
      if js = [] then Inr []
      else
        let rows = filter (\<lambda>((u, c, s), _). where_user ctx u \<and> (c, s) \<in> set js) (t_junks d) in
        if length rows \<noteq> length js then Inl (InvalidArgumentUseCaseError ''Insufficient quantity of parts'')
        else map_res need_junk rows)"

definition check_part :: "(ArcadePartCategory \<times> nft_id) list \<Rightarrow> nft_id \<times> arcade_part_row \<Rightarrow> merged_part res" where
  "check_part ps row =
     (case row of (k, r) \<Rightarrow>
        if nft_state r \<noteq> IN_AKIVERSE then Inl (IllegalStateUseCaseError ''part is not IN_AKIVERSE state'')
        else if ap_destroyedAt r \<noteq> None
        then Inl (IllegalStateUseCaseError ''already destroyed parts is selected'')
        else
          (case find (\<lambda>(_, k'). k' = k) ps of
             None \<Rightarrow> Inl JsTypeError
           | Some (c, _) \<Rightarrow>
               if c \<noteq> ap_category r then Inl (InvalidArgumentUseCaseError ''category mismatch'')
               else Inr \<lparr>mp_category = ap_category r, mp_subCategory = ap_subCategory r\<rparr>))"

definition read_parts :: "ctx \<Rightarrow> craft_part list \<Rightarrow> db \<Rightarrow> merged_part list res" where
  "read_parts ctx parts d =
     (let ps = useArcadeParts parts in
      if ps = [] then Inr []
      else
        let rows = filter (\<lambda>(k, _). k \<in> snd ` set ps) (t_arcadeParts d) in
        if length rows \<noteq> length ps
        then Inl (InvalidArgumentUseCaseError ''A nonexistent ArcadePartsID is specified.'')
        else if \<not> currentUserOwns ctx (map (\<lambda>(_, r). nft_userId r) rows) then Inl PermissionDeniedUseCaseError
        else map_res (check_part ps) rows)"

definition sub_category_of :: "merged_part list \<Rightarrow> ArcadePartCategory \<Rightarrow> string option" where
  "sub_category_of ms c = map_option mp_subCategory (find (\<lambda>m. mp_category m = c) ms)"

record recipe =
  rc_game :: string
  rc_acc :: accumulator
  rc_lc :: cabinet
  rc_uc :: cabinet

definition find_recipe :: "merged_part list \<Rightarrow> recipe res" where
  "find_recipe ms =
     (case sub_category_of ms ROM of
        None \<Rightarrow> Inl JsTypeError
      | Some gameId \<Rightarrow>
      (case (arcadeMachines gameId, roms gameId) of
         (Some m, Some rom) \<Rightarrow>
           if \<not> usable_rom m rom then Inl (InvalidArgumentUseCaseError ''Wrong combination of parts'')
           else
           (case (Option.bind (sub_category_of ms ACCUMULATOR) accumulators,
                  Option.bind (sub_category_of ms LOWER_CABINET) lowerCabinets,
                  Option.bind (sub_category_of ms UPPER_CABINET) upperCabinets) of
              (Some acc, Some lc, Some uc) \<Rightarrow>
                if \<not> usable_accumulator m acc \<or> \<not> usable_lowerCabinet m lc \<or> \<not> usable_upperCabinet m uc
                then Inl (InvalidArgumentUseCaseError ''Wrong combination of parts'')
                else Inr \<lparr>rc_game = part_subCategory rom, rc_acc = acc, rc_lc = lc, rc_uc = uc\<rparr>
            | _ \<Rightarrow> Inl JsTypeError)
       | _ \<Rightarrow> Inl JsTypeError))"

record craft_plan =
  ct_junks :: "needed_junk list"
  ct_tokenIds :: "nft_id list"
  ct_recipe :: recipe
  ct_teras :: int
  ct_akv :: int
  ct_user :: user_row

definition craft_read :: "ctx \<Rightarrow> craft_part list \<Rightarrow> bool \<Rightarrow> db \<Rightarrow> craft_plan res" where
  "craft_read ctx parts payTeras d =
     (if card (set (map craft_category parts)) \<noteq> 4
      then Inl (InternalServerUseCaseError ''parts category required 4 unique types'')
      else
        bind_res (read_junks ctx parts d) (\<lambda>junks.
        bind_res (read_parts ctx parts d) (\<lambda>aps.
        bind_res (find_recipe (aps @ map merged_part.truncate junks)) (\<lambda>rc.
          (case ctx_userId ctx of
             None \<Rightarrow> Inl (JsError ''PrismaClientValidationError'')
           | Some u \<Rightarrow>
          (case map_of (t_users d) u of
             None \<Rightarrow> Inl (NotFoundUseCaseError ''user not found'' ''User'')
           | Some user \<Rightarrow>
               let teras = (if payTeras then CRAFT_BASE_FEES True else 0);
                   akv = (if payTeras then 0 else CRAFT_BASE_FEES False) in
               if terasBalance user < teras
               then Inl (IllegalStateUseCaseError ''Teras balance is insufficient.'')
               else if akvBalance user < akv
               then Inl (IllegalStateUseCaseError ''AKV balance is insufficient.'')
               else Inr \<lparr>ct_junks = junks, ct_tokenIds = map snd (useArcadeParts parts), ct_recipe = rc,
                      ct_teras = teras, ct_akv = akv, ct_user = user\<rparr>))))))"

section \<open>The transaction\<close>

definition crafted_part :: "env \<Rightarrow> user_id \<Rightarrow> user_row \<Rightarrow> needed_junk \<Rightarrow> arcade_part_row" where
  "crafted_part env u user j = \<lparr>nft_userId = Some u, nft_ownerWallet = u_walletAddress user,
     nft_physicalWallet = None, nft_state = IN_AKIVERSE, nft_lastBlock = 0, nft_lastTransactionIndex = 0,
     nft_updatedAt = env_now env, ap_category = mp_category j, ap_subCategory = mp_subCategory j,
     ap_destroyedAt = None, ap_craftId = None, ap_createDismantleId = None\<rparr>"

text \<open>The \<open>i\<close>-th junk part gets the id \<open>newId i\<close>.\<close>

fun junk_queries :: "env \<Rightarrow> user_id \<Rightarrow> user_row \<Rightarrow> (nat \<Rightarrow> nft_id) \<Rightarrow> nat \<Rightarrow> needed_junk list \<Rightarrow> query list" where
  "junk_queries env u user newId i [] = []"
| "junk_queries env u user newId i (j # js) =
     update_junk (u, mp_category j, mp_subCategory j) (\<lambda>_. True) (\<lambda>n. n - nj_junksPerPart j)
     # create_arcadePart (newId i) (crafted_part env u user j)
     # junk_queries env u user newId (Suc i) js"

definition pay_craft :: "user_id \<Rightarrow> craft_plan \<Rightarrow> query" where
  "pay_craft u p =
     update_user u (\<lambda>_. True)
       (\<lambda>r. r\<lparr>terasBalance := terasBalance r - ct_teras p, akvBalance := akvBalance r - ct_akv p\<rparr>)"

definition crafted_machine :: "env \<Rightarrow> ctx \<Rightarrow> user_id \<Rightarrow> recipe \<Rightarrow> arcade_machine_row" where
  "crafted_machine env ctx u rc = \<lparr>nft_userId = Some u, nft_ownerWallet = ctx_walletAddress ctx,
     nft_physicalWallet = None, nft_state = IN_AKIVERSE, nft_lastBlock = 0, nft_lastTransactionIndex = 0,
     nft_updatedAt = env_now env, am_game = rc_game rc, am_energy = 0, am_maxEnergy = tankCapacity (rc_acc rc),
     am_extractedEnergy = 0, am_autoRenewLease = False, am_gameCenterId = None, am_position = None,
     am_installedAt = None, am_accumulator = part_subCategory (rc_acc rc),
     am_upperCabinet = part_subCategory (rc_uc rc), am_lowerCabinet = part_subCategory (rc_lc rc),
     am_feverSparkRemain = None, am_destroyedAt = None\<rparr>"

definition craftable :: "user_id \<Rightarrow> nft_id list \<Rightarrow> nft_id \<Rightarrow> arcade_part_row \<Rightarrow> bool" where
  "craftable u tokenIds k r \<longleftrightarrow> k \<in> set tokenIds \<and> ap_destroyedAt r = None \<and> nft_userId r = Some u \<and>
     nft_state r = IN_AKIVERSE"

definition consume_parts :: "env \<Rightarrow> user_id \<Rightarrow> string \<Rightarrow> nft_id list \<Rightarrow> query" where
  "consume_parts env u craftId tokenIds d =
     (case update_many t_arcadeParts put_arcadeParts no_check (craftable u tokenIds)
             (\<lambda>r. r\<lparr>ap_destroyedAt := Some (env_now env), ap_craftId := Some craftId, nft_updatedAt := env_now env\<rparr>) d of
        Inl e \<Rightarrow> Inl e
      | Inr d' \<Rightarrow> if count_rows (craftable u tokenIds) (t_arcadeParts d) \<noteq> 4
                  then Inl (ConflictUseCaseError ''craft conflicted'') else Inr d')"

definition craft_queries ::
  "env \<Rightarrow> ctx \<Rightarrow> user_id \<Rightarrow> (nat \<Rightarrow> nft_id) \<Rightarrow> nft_id \<Rightarrow> string \<Rightarrow> craft_plan \<Rightarrow> query list" where
  "craft_queries env ctx u newId machineId craftId p =
     junk_queries env u (ct_user p) newId 0 (ct_junks p) @
     [pay_craft u p,
      create_arcadeMachine machineId (crafted_machine env ctx u (ct_recipe p)),
      create_craft craftId \<lparr>cr_userId = u, cr_craftedArcadeMachineId = machineId,
        cr_usedTerasBalance = ct_teras p, cr_usedAkvBalance = ct_akv p, cr_createdAt = env_now env\<rparr>,
      consume_parts env u craftId (ct_tokenIds p @ map newId [0..<length (ct_junks p)])]"

definition craft_error :: "use_case_error \<Rightarrow> use_case_error" where
  "craft_error e =
     (if e = PrismaUnknownRequestError ''teras_balance_over_zero''
      then ConflictUseCaseError ''Teras balance is insufficient''
      else if e = PrismaUnknownRequestError ''junks_amount_over_zero''
      then ConflictUseCaseError ''junk amount is insufficient'' else e)"

definition craft ::
  "env \<Rightarrow> ctx \<Rightarrow> (nat \<Rightarrow> nft_id) \<Rightarrow> nft_id \<Rightarrow> string \<Rightarrow> craft_part list \<Rightarrow> bool \<Rightarrow> (db \<Rightarrow> db) \<Rightarrow> db \<Rightarrow>
   arcade_machine_row option res \<times> db" where
  "craft env ctx newId machineId craftId parts payTeras other d =
     (case craft_read ctx parts payTeras d of
        Inl e \<Rightarrow> (Inl e, d)
      | Inr p \<Rightarrow>
          let u = the (ctx_userId ctx) in
          (case run_tx (craft_queries env ctx u newId machineId craftId p) (other d) of
             Inl e \<Rightarrow> (Inl (craft_error e), other d)
           | Inr d' \<Rightarrow>
               (Inr (map_of (t_arcadeMachines d') machineId),
                call (RankingCraft craftId) (call (NotifyCraft u machineId) (call (RewardCraftCount u) d')))))"

end
