(* ===== verification/Craft_Props.thy ===== *)
theory Craft_Props
  imports Craft Sample
begin

text \<open>Properties of \<open>Craft\<close>: what a successful craft consumes and creates, and its failures.\<close>

section \<open>The junk part of the transaction\<close>

definition junk_of :: "db \<Rightarrow> user_id \<times> ArcadePartCategory \<times> string \<Rightarrow> int" where
  "junk_of d k = (case map_of (t_junks d) k of None \<Rightarrow> 0 | Some n \<Rightarrow> n)"

definition junk_needed :: "needed_junk list \<Rightarrow> user_id \<Rightarrow> user_id \<times> ArcadePartCategory \<times> string \<Rightarrow> int" where
  "junk_needed js u k =
     sum_list (map nj_junksPerPart (filter (\<lambda>j. (u, mp_category j, mp_subCategory j) = k) js))"

fun created_parts :: "env \<Rightarrow> user_id \<Rightarrow> user_row \<Rightarrow> (nat \<Rightarrow> nft_id) \<Rightarrow> nat \<Rightarrow> needed_junk list \<Rightarrow>
    (nft_id \<times> arcade_part_row) list" where
  "created_parts env u user newId i [] = []"
| "created_parts env u user newId i (j # js) =
     (newId i, crafted_part env u user j) # created_parts env u user newId (Suc i) js"

lemma junk_needed_simps [simp]:
  "junk_needed [] u k = 0"
  "junk_needed (j # js) u k =
     (if (u, mp_category j, mp_subCategory j) = k then nj_junksPerPart j else 0) + junk_needed js u k"
  by (simp_all add: junk_needed_def)

lemma junk_queries_run:
  assumes "run_tx (junk_queries env u user newId i js) d = Inr d'"
  shows "t_arcadeParts d' = t_arcadeParts d @ created_parts env u user newId i js"
    and "t_users d' = t_users d" and "t_arcadeMachines d' = t_arcadeMachines d"
    and "junk_of d' k = junk_of d k - junk_needed js u k"
proof -
  have "t_arcadeParts d' = t_arcadeParts d @ created_parts env u user newId i js \<and> t_users d' = t_users d \<and>
      t_arcadeMachines d' = t_arcadeMachines d \<and> junk_of d' k = junk_of d k - junk_needed js u k"
    using assms
  proof (induction js arbitrary: i d)
    case Nil
    then show ?case by simp
  next
    case (Cons j js)
    let ?key = "(u, mp_category j, mp_subCategory j)"
    from Cons.prems obtain d1 d2 where 1: "update_junk ?key (\<lambda>_. True) (\<lambda>n. n - nj_junksPerPart j) d = Inr d1"
      and 2: "create_arcadePart (newId i) (crafted_part env u user j) d1 = Inr d2"
      and 3: "run_tx (junk_queries env u user newId (Suc i) js) d2 = Inr d'"
      by (auto split: sum.splits)
    have f1: "t_arcadeParts d1 = t_arcadeParts d" "t_users d1 = t_users d" "t_arcadeMachines d1 = t_arcadeMachines d"
      using 1 by (auto simp: junk_tab.update_Inr put_defs)
    have f2: "t_arcadeParts d2 = t_arcadeParts d1 @ [(newId i, crafted_part env u user j)]" "t_users d2 = t_users d1"
      "t_arcadeMachines d2 = t_arcadeMachines d1" "t_junks d2 = t_junks d1"
      using 2 by (auto simp: arcadePart_tab.create_Inr put_defs)
    have "junk_of d1 k = junk_of d k - (if ?key = k then nj_junksPerPart j else 0)"
      using 1 junk_tab.update_find(1) [OF 1, of k] by (auto simp: junk_of_def junk_tab.update_Inr split: option.splits)
    then have "junk_of d2 k = junk_of d k - (if ?key = k then nj_junksPerPart j else 0)"
      by (simp add: junk_of_def f2)
    then show ?case using Cons.IH [OF 3] by (simp add: f1 f2)
  qed
  then show "t_arcadeParts d' = t_arcadeParts d @ created_parts env u user newId i js"
    and "t_users d' = t_users d" and "t_arcadeMachines d' = t_arcadeMachines d"
    and "junk_of d' k = junk_of d k - junk_needed js u k" by simp_all
qed

lemma craft_tx_steps:
  assumes "run_tx (craft_queries env ctx u newId mid cid p) d = Inr d'"
  obtains d1 d2 d3 d4 where "run_tx (junk_queries env u (ct_user p) newId 0 (ct_junks p)) d = Inr d1"
    and "pay_craft u p d1 = Inr d2"
    and "create_arcadeMachine mid (crafted_machine env ctx u (ct_recipe p)) d2 = Inr d3"
    and "create_craft cid \<lparr>cr_userId = u, cr_craftedArcadeMachineId = mid,
        cr_usedTerasBalance = ct_teras p, cr_usedAkvBalance = ct_akv p, cr_createdAt = env_now env\<rparr> d3 = Inr d4"
    and "consume_parts env u cid (ct_tokenIds p @ map newId [0..<length (ct_junks p)]) d4 = Inr d'"
proof -
  from assms obtain d1 where 1: "run_tx (junk_queries env u (ct_user p) newId 0 (ct_junks p)) d = Inr d1"
    and rest: "run_tx [pay_craft u p, create_arcadeMachine mid (crafted_machine env ctx u (ct_recipe p)),
      create_craft cid \<lparr>cr_userId = u, cr_craftedArcadeMachineId = mid,
        cr_usedTerasBalance = ct_teras p, cr_usedAkvBalance = ct_akv p, cr_createdAt = env_now env\<rparr>,
      consume_parts env u cid (ct_tokenIds p @ map newId [0..<length (ct_junks p)])] d1 = Inr d'"
    unfolding craft_queries_def run_tx_append
    by (cases "run_tx (junk_queries env u (ct_user p) newId 0 (ct_junks p)) d") simp_all
  from rest show thesis unfolding run_tx_Inr_Cons by (elim exE conjE) (rule that [OF 1], assumption+, simp)
qed

definition consume :: "env \<Rightarrow> string \<Rightarrow> arcade_part_row \<Rightarrow> arcade_part_row" where
  "consume env craftId r =
     r\<lparr>ap_destroyedAt := Some (env_now env), ap_craftId := Some craftId, nft_updatedAt := env_now env\<rparr>"

lemma consume_parts_Inr:
  assumes "consume_parts env u cid ids d = Inr d'"
  shows "t_arcadeParts d' = update_rows (craftable u ids) (consume env cid) (t_arcadeParts d)"
    and "count_rows (craftable u ids) (t_arcadeParts d) = 4" and "t_users d' = t_users d"
    and "t_arcadeMachines d' = t_arcadeMachines d" and "t_junks d' = t_junks d"
  using assms unfolding consume_parts_def consume_def
  by (auto simp: arcadePart_tab.update_many_Inr put_defs split: sum.splits if_splits)


section \<open>The specification of a craft\<close>

text \<open>
  Between the database when the transaction starts and after it: a new machine with an empty tank
  of the accumulator's capacity, the fee and the junk taken from the user, and exactly four intact
  parts of the user consumed, those made from junk among them.
\<close>

definition craft_spec ::
  "env \<Rightarrow> ctx \<Rightarrow> user_id \<Rightarrow> (nat \<Rightarrow> nft_id) \<Rightarrow> nft_id \<Rightarrow> string \<Rightarrow> craft_plan \<Rightarrow> db \<Rightarrow> db \<Rightarrow> bool" where
  "craft_spec env ctx u newId machineId craftId p d d' \<longleftrightarrow>
     (let ids = ct_tokenIds p @ map newId [0..<length (ct_junks p)];
          parts = t_arcadeParts d @ created_parts env u (ct_user p) newId 0 (ct_junks p) in
      map_of (t_arcadeMachines d) machineId = None \<and>
      map_of (t_arcadeMachines d') machineId = Some (crafted_machine env ctx u (ct_recipe p)) \<and>
      (\<forall>k. k \<noteq> machineId \<longrightarrow> map_of (t_arcadeMachines d') k = map_of (t_arcadeMachines d) k) \<and>
      (\<forall>k. map_of (t_users d') k = (if k = u then map_option (\<lambda>r. r\<lparr>terasBalance := terasBalance r - ct_teras p,
           akvBalance := akvBalance r - ct_akv p\<rparr>) (map_of (t_users d) u) else map_of (t_users d) k)) \<and>
      (\<forall>k. junk_of d' k = junk_of d k - junk_needed (ct_junks p) u k) \<and>
      count_rows (craftable u ids) parts = 4 \<and>
      t_arcadeParts d' = update_rows (craftable u ids) (consume env craftId) parts)"

lemma craft_tx_spec:
  assumes "run_tx (craft_queries env ctx u newId mid cid p) d = Inr d'"
  shows "craft_spec env ctx u newId mid cid p d d'"
  using assms
proof (rule craft_tx_steps)
  fix d1 d2 d3 d4
  assume 1: "run_tx (junk_queries env u (ct_user p) newId 0 (ct_junks p)) d = Inr d1"
    and 2: "pay_craft u p d1 = Inr d2"
    and 3: "create_arcadeMachine mid (crafted_machine env ctx u (ct_recipe p)) d2 = Inr d3"
    and 4: "create_craft cid \<lparr>cr_userId = u, cr_craftedArcadeMachineId = mid,
        cr_usedTerasBalance = ct_teras p, cr_usedAkvBalance = ct_akv p, cr_createdAt = env_now env\<rparr> d3 = Inr d4"
    and 5: "consume_parts env u cid (ct_tokenIds p @ map newId [0..<length (ct_junks p)]) d4 = Inr d'"
  note r1 = junk_queries_run [OF 1]
  have f2: "t_arcadeParts d2 = t_arcadeParts d1" "t_arcadeMachines d2 = t_arcadeMachines d1" "t_junks d2 = t_junks d1"
    using 2 by (auto simp: pay_craft_def user_tab.update_Inr put_defs)
  have f3: "t_arcadeParts d3 = t_arcadeParts d2" "t_users d3 = t_users d2" "t_junks d3 = t_junks d2"
    "map_of (t_arcadeMachines d2) mid = None"
    using 3 by (auto simp: arcadeMachine_tab.create_Inr put_defs)
  have f4: "t_arcadeParts d4 = t_arcadeParts d3" "t_users d4 = t_users d3" "t_junks d4 = t_junks d3"
    "t_arcadeMachines d4 = t_arcadeMachines d3"
    using 4 by (auto simp: craft_tab.create_Inr put_defs)
  note r5 = consume_parts_Inr [OF 5]
  have parts: "t_arcadeParts d4 = t_arcadeParts d @ created_parts env u (ct_user p) newId 0 (ct_junks p)"
    by (simp add: f4 f3 f2 r1)
  have m: "map_of (t_arcadeMachines d') k = (if k = mid then Some (crafted_machine env ctx u (ct_recipe p))
      else map_of (t_arcadeMachines d) k)" for k
    using arcadeMachine_tab.create_find [OF 3, of k] by (simp add: r5 f4 f2 r1)
  have us: "map_of (t_users d') k = (if k = u then map_option (\<lambda>r. r\<lparr>terasBalance := terasBalance r - ct_teras p,
           akvBalance := akvBalance r - ct_akv p\<rparr>) (map_of (t_users d) u) else map_of (t_users d) k)" for k
    using user_tab.update_find(1) [OF 2 [unfolded pay_craft_def], of k] by (simp add: r5 f4 f3 r1)
  have ju: "junk_of d' k = junk_of d k - junk_needed (ct_junks p) u k" for k
    using r1(4) [of k] by (simp add: junk_of_def r5 f4 f3 f2)
  show ?thesis
    unfolding craft_spec_def Let_def
    using m us ju r5(1,2) f3(4) by (simp add: parts f2 r1)
qed

text \<open>
  (C8) A successful craft meets its specification: it consumes exactly four intact parts that the
  user owns at that moment, takes the junk and the fee, and creates one empty machine with the
  capacity of the chosen accumulator.
\<close>

theorem craft_consumes_four_parts:
  assumes "craft env ctx newId mid cid parts payTeras other d = (Inr row, d')"
  shows "\<exists>p e. craft_read ctx parts payTeras d = Inr p \<and>
    craft_spec env ctx (the (ctx_userId ctx)) newId mid cid p (other d) e \<and>
    row = Some (crafted_machine env ctx (the (ctx_userId ctx)) (ct_recipe p)) \<and>
    d' = call (RankingCraft cid) (call (NotifyCraft (the (ctx_userId ctx)) mid)
           (call (RewardCraftCount (the (ctx_userId ctx))) e))"
proof (cases "craft_read ctx parts payTeras d")
  case (Inl e)
  with assms show ?thesis by (simp add: craft_def)
next
  case (Inr p)
  let ?u = "the (ctx_userId ctx)"
  show ?thesis
  proof (cases "run_tx (craft_queries env ctx ?u newId mid cid p) (other d)")
    case (Inl e)
    with assms Inr show ?thesis by (simp add: craft_def Let_def)
  next
    case tx: (Inr e)
    note spec = craft_tx_spec [OF tx]
    then have "map_of (t_arcadeMachines e) mid = Some (crafted_machine env ctx ?u (ct_recipe p))"
      by (simp add: craft_spec_def Let_def)
    with assms Inr tx spec show ?thesis by (auto simp: craft_def Let_def)
  qed
qed

text \<open>
  A craft that fails changes nothing: the database is as before, or as other requests left it.
\<close>

lemma failed_craft_changes_nothing:
  assumes "craft env ctx newId mid cid parts payTeras other d = (Inl e, d')"
  shows "d' = d \<or> d' = other d"
  using assms by (auto simp: craft_def Let_def split: sum.splits)

lemma map_res_all: "map_res f xs = Inr ys \<Longrightarrow> x \<in> set xs \<Longrightarrow> \<exists>y. f x = Inr y"
  by (induction xs arbitrary: ys) (auto split: sum.splits)

lemma read_parts_ok:
  assumes "read_parts ctx parts d = Inr aps" and "k \<in> snd ` set (useArcadeParts parts)"
    and "(k, r) \<in> set (t_arcadeParts d)"
  shows "nft_userId r = ctx_userId ctx \<and> nft_state r = IN_AKIVERSE \<and> ap_destroyedAt r = None"
proof -
  let ?ps = "useArcadeParts parts"
  let ?rows = "filter (\<lambda>(k, _). k \<in> snd ` set ?ps) (t_arcadeParts d)"
  have ne: "?ps \<noteq> []" using assms(2) by auto
  have own: "currentUserOwns ctx (map (\<lambda>(_, r). nft_userId r) ?rows)" and mr: "map_res (check_part ?ps) ?rows = Inr aps"
    using assms(1) ne by (simp_all add: read_parts_def Let_def split: if_splits del: currentUserOwns.simps)
  have row: "(k, r) \<in> set ?rows" using assms(2,3) by simp
  then have "nft_userId r \<in> set (map (\<lambda>(_, r). nft_userId r) ?rows)" by force
  moreover obtain u where "ctx_userId ctx = Some u" and "\<forall>i \<in> set (map (\<lambda>(_, r). nft_userId r) ?rows). i = Some u"
    using own unfolding currentUserOwns_iff by blast
  ultimately have "nft_userId r = ctx_userId ctx" by (metis (no_types, lifting))
  moreover obtain m where "check_part ?ps (k, r) = Inr m" using map_res_all [OF mr row] by blast
  then have "nft_state r = IN_AKIVERSE" "ap_destroyedAt r = None"
    by (auto simp: check_part_def split: if_splits)
  ultimately show ?thesis by simp
qed

lemma find_recipe_Inr:
  assumes "find_recipe ms = Inr rc"
  shows "\<exists>m rom. arcadeMachines (rc_game rc) = Some m \<and> roms (rc_game rc) = Some rom \<and> usable_rom m rom \<and>
    usable_accumulator m (rc_acc rc) \<and> usable_lowerCabinet m (rc_lc rc) \<and> usable_upperCabinet m (rc_uc rc)"
proof -
  from assms obtain g m rom where "arcadeMachines g = Some m" and rom: "roms g = Some rom" and "usable_rom m rom"
    and "usable_accumulator m (rc_acc rc)" "usable_lowerCabinet m (rc_lc rc)" "usable_upperCabinet m (rc_uc rc)"
    and "rc_game rc = part_subCategory rom"
    by (auto simp: find_recipe_def split: option.splits if_splits)
  then show ?thesis using rom_key [OF rom] by auto
qed

lemma craft_read_steps:
  assumes "craft_read ctx parts payTeras d = Inr p"
  obtains junks aps where "card (set (map craft_category parts)) = 4" and "read_junks ctx parts d = Inr junks"
    and "read_parts ctx parts d = Inr aps" and "find_recipe (aps @ map merged_part.truncate junks) = Inr (ct_recipe p)"
    and "ct_junks p = junks" and "ct_tokenIds p = map snd (useArcadeParts parts)"
proof -
  from assms have "card (set (map craft_category parts)) = 4"
    by (simp add: craft_read_def split: if_splits)
  moreover from this assms obtain junks where "read_junks ctx parts d = Inr junks"
    by (auto simp: craft_read_def bind_res_Inr_iff)
  moreover from calculation assms obtain aps where "read_parts ctx parts d = Inr aps"
    by (auto simp: craft_read_def bind_res_Inr_iff)
  moreover from calculation assms obtain rc where "find_recipe (aps @ map merged_part.truncate junks) = Inr rc"
    by (auto simp: craft_read_def bind_res_Inr_iff)
  ultimately show thesis
    using assms by (intro that) (auto simp: craft_read_def Let_def split: option.splits if_splits)
qed

text \<open>
  The parts a craft starts from fit the game: the machine is of the chosen ROM's game, the
  recipe of that game accepts the ROM and both cabinets, there is one part of every category, and
  the named parts are the user's own, intact and in Akiverse.
\<close>

lemma crafted_machine_fits_recipe:
  assumes "craft_read ctx parts payTeras d = Inr p"
  shows "\<exists>m rom. arcadeMachines (rc_game (ct_recipe p)) = Some m \<and> roms (rc_game (ct_recipe p)) = Some rom \<and>
    usable_rom m rom \<and> usable_accumulator m (rc_acc (ct_recipe p)) \<and>
    usable_lowerCabinet m (rc_lc (ct_recipe p)) \<and> usable_upperCabinet m (rc_uc (ct_recipe p)) \<and>
    card (set (map craft_category parts)) = 4 \<and>
    (\<forall>k r. k \<in> set (ct_tokenIds p) \<longrightarrow> (k, r) \<in> set (t_arcadeParts d) \<longrightarrow>
       nft_userId r = ctx_userId ctx \<and> nft_state r = IN_AKIVERSE \<and> ap_destroyedAt r = None)"
  using assms
proof (rule craft_read_steps)
  fix junks aps
  assume card: "card (set (map craft_category parts)) = 4" and rp: "read_parts ctx parts d = Inr aps"
    and rc: "find_recipe (aps @ map merged_part.truncate junks) = Inr (ct_recipe p)"
    and ids: "ct_tokenIds p = map snd (useArcadeParts parts)"
  have "nft_userId r = ctx_userId ctx \<and> nft_state r = IN_AKIVERSE \<and> ap_destroyedAt r = None"
    if "k \<in> set (ct_tokenIds p)" "(k, r) \<in> set (t_arcadeParts d)" for k r
    using read_parts_ok [OF rp _ that(2)] that(1) by (simp add: ids)
  with find_recipe_Inr [OF rc] card show ?thesis by blast
qed

section \<open>A sample craft\<close>

text \<open>Three parts and, in place of the fourth, junk: the user has ten pieces of an accumulator.\<close>

definition craft_db :: db where
  "craft_db = sample_db\<lparr>
     t_arcadeParts := [(''r'', sample_part (Some ''u1'') ROM ''BUBBLE_ATTACK''),
                       (''uc'', sample_part (Some ''u1'') UPPER_CABINET ''PLAIN''),
                       (''lc'', sample_part (Some ''u1'') LOWER_CABINET ''PLAIN'')],
     t_junks := [((''u1'', ACCUMULATOR, ''HOKUTO_100_LX''), 25)]\<rparr>"

definition craft_sample_parts :: "craft_part list" where
  "craft_sample_parts = [CraftArcadePart ROM ''r'', CraftArcadePart UPPER_CABINET ''uc'', CraftArcadePart LOWER_CABINET ''lc'',
     CraftJunkPart ACCUMULATOR ''HOKUTO_100_LX'']"

definition sample_craft :: "arcade_machine_row option res \<times> db" where
  "sample_craft = craft sample_env sample_ctx (\<lambda>_. ''new'') ''am'' ''cr'' craft_sample_parts True (\<lambda>d. d) craft_db"

definition too_poor :: "arcade_machine_row option res \<times> db" where
  "too_poor = craft sample_env sample_ctx (\<lambda>_. ''new'') ''am'' ''cr'' craft_sample_parts False (\<lambda>d. d) craft_db"

lemma sample_craft_runs: "\<exists>row. craft sample_env sample_ctx (\<lambda>_. ''new'') ''am'' ''cr'' craft_sample_parts True (\<lambda>d. d) craft_db
    = (Inr row, snd sample_craft)"
proof -
  have "case fst sample_craft of Inl _ \<Rightarrow> False | Inr _ \<Rightarrow> True" by code_simp
  then show ?thesis unfolding sample_craft_def
    by (cases "craft sample_env sample_ctx (\<lambda>_. ''new'') ''am'' ''cr'' craft_sample_parts True (\<lambda>d. d) craft_db")
      (auto split: sum.splits)
qed

theorem craft_consumes_four_parts_witness:
  "\<exists>p e. craft_read sample_ctx craft_sample_parts True craft_db = Inr p \<and>
     count_rows (\<lambda>_ r. ap_craftId r = Some ''cr'') (t_arcadeParts (snd sample_craft)) = 4 \<and>
     craft_spec sample_env sample_ctx ''u1'' (\<lambda>_. ''new'') ''am'' ''cr'' p craft_db e"
proof -
  obtain row where "craft sample_env sample_ctx (\<lambda>_. ''new'') ''am'' ''cr'' craft_sample_parts True (\<lambda>d. d) craft_db
    = (Inr row, snd sample_craft)" using sample_craft_runs by blast
  from craft_consumes_four_parts [OF this] obtain p e where "craft_read sample_ctx craft_sample_parts True craft_db = Inr p"
    and "craft_spec sample_env sample_ctx (the (ctx_userId sample_ctx)) (\<lambda>_. ''new'') ''am'' ''cr'' p craft_db e" by blast
  moreover have "the (ctx_userId sample_ctx) = ''u1''" by (simp add: sample_ctx_def)
  moreover have "count_rows (\<lambda>_ r. ap_craftId r = Some ''cr'') (t_arcadeParts (snd sample_craft)) = 4" by code_simp
  ultimately show ?thesis by metis
qed

lemma failed_craft_changes_nothing_witness: "snd too_poor = craft_db"
proof -
  have "case fst too_poor of Inl _ \<Rightarrow> True | Inr _ \<Rightarrow> False" by code_simp
  then obtain e where "craft sample_env sample_ctx (\<lambda>_. ''new'') ''am'' ''cr'' craft_sample_parts False (\<lambda>d. d) craft_db
    = (Inl e, snd too_poor)" unfolding too_poor_def
    by (cases "craft sample_env sample_ctx (\<lambda>_. ''new'') ''am'' ''cr'' craft_sample_parts False (\<lambda>d. d) craft_db")
      (auto split: sum.splits)
  from failed_craft_changes_nothing [OF this] show ?thesis by blast
qed

lemma crafted_machine_fits_recipe_witness:
  "\<exists>p m. craft_read sample_ctx craft_sample_parts True craft_db = Inr p \<and>
     arcadeMachines (rc_game (ct_recipe p)) = Some m \<and> usable_accumulator m (rc_acc (ct_recipe p))"
proof -
  have "case craft_read sample_ctx craft_sample_parts True craft_db of Inl _ \<Rightarrow> False | Inr _ \<Rightarrow> True" by code_simp
  then obtain p where "craft_read sample_ctx craft_sample_parts True craft_db = Inr p" by (auto split: sum.splits)
  with crafted_machine_fits_recipe [OF this] show ?thesis by blast
qed

end
