(* ===== verification/Session_End.thy ===== *)
theory Session_End
  imports Play_Rewards
begin

text \<open>
  A gap between finishing a play and finishing its session: the quest and ranking updates hang on
  the latter, which does nothing for a session that the former has closed.
\<close>

lemma find_apply_row:
  assumes "\<And>r. P (f r) = P r" and "distinct (map fst t)"
  shows "find (\<lambda>(_, r). P r) (apply_row f k t) =
    map_option (\<lambda>(k', r). (k', if k' = k then f r else r)) (find (\<lambda>(_, r). P r) t)"
  using assms(2)
proof (induction t)
  case (Cons x t)
  have "find (\<lambda>(_, r). P r) t = map_option (\<lambda>(k', r). (k', if k' = k then f r else r)) (find (\<lambda>(_, r). P r) t)"
    if "k \<notin> fst ` set t"
  proof (cases "find (\<lambda>(_, r). P r) t")
    case (Some x)
    then have "x \<in> set t" by (auto dest: find_in)
    with that have "fst x \<noteq> k" by auto
    with Some show ?thesis by (cases x) simp
  qed simp
  then show ?case using Cons by (cases x) (auto simp: assms(1))
qed simp

lemma finish_tx_session:
  assumes "createFinishPlayTransactUpdates env ctx cur score result d1 = Inr qs" and "run_tx qs d = Inr d'"
    and "ps_maxPlayCount (cp_session cur) = Some m" and "m \<le> int (play_count d1 (cp_sessionId cur))"
  shows "t_playSessions d' = apply_row (\<lambda>s. s\<lparr>ps_state := FINISHED, ps_endedAt := Some (env_now env),
      ps_updatedAt := env_now env\<rparr>) (cp_sessionId cur) (t_playSessions d)"
proof -
  from finish_queries_steps [OF assms(1,2)] obtain plan e1 e2
    where plan: "(if result = WIN then win_plan env ctx cur d1 else Inr lose_plan) = Inr plan"
    and e1: "run_tx (fp_queries plan) d = Inr e1"
    and e2: "play_update env (cp_playId cur) score result plan e1 = Inr e2"
    and d': "session_update env (cp_sessionId cur) (case ps_maxPlayCount (cp_session cur) of None \<Rightarrow> True
        | Some m \<Rightarrow> m > int (length (plays_of d1 (cp_sessionId cur)))) e2 = Inr d'" by auto
  note f1 = plan_frame [OF plan e1]
  note f2 = update_play_frame [OF e2 [unfolded play_update_def]]
  from d' assms(3,4) have "session_update env (cp_sessionId cur) False e2 = Inr d'"
    by (simp add: play_count_def)
  then show ?thesis
    by (auto simp: session_update_def playSession_tab.update_Inr f1 f2)
qed

text \<open>
  When the play that uses up the quota of a session is finished, the session is FINISHED, and
  the client's call to finish it then changes nothing: it reaches neither the quests nor the
  rankings.
\<close>

lemma quota_session_never_ranked:
  assumes "finishPlay env ctx hash sha token score ts salt sig (\<lambda>_ d. d) d = (res, d')"
    and "t_plays d' \<noteq> t_plays d" and "distinct (session_keys d)" and "find_session hash token d = Some (k, s)"
    and "ps_maxPlayCount s = Some m" and "m \<le> int (play_count d k)"
  shows "\<exists>s'. ps_state s' = FINISHED \<and> finishPlaySession env' hash token other d' = (Inr s', d')"
  using assms(1)
proof (cases rule: finishPlay_cases)
  case (4 cur qs d2)
  from current_play_steps(1) [OF 4(1)] assms(4) have cur: "cp_sessionId cur = k" "cp_session cur = s" by simp_all
  define f where "f = (\<lambda>s :: play_session_row. s\<lparr>ps_state := FINISHED, ps_endedAt := Some (env_now env), ps_updatedAt := env_now env\<rparr>)"
  have "t_playSessions d2 = apply_row f k (t_playSessions d)"
    using finish_tx_session [OF 4(2,3)] assms(5,6) unfolding cur f_def by simp
  then have s: "t_playSessions d' = apply_row f k (t_playSessions d)" using 4(5) by metis
  have "find_session hash token d' = map_option (\<lambda>(k', r). (k', if k' = k then f r else r)) (find_session hash token d)"
    unfolding find_session_def s
    by (rule find_apply_row [where P = "\<lambda>r. ps_authToken r = hash token"])
      (use assms(3) in \<open>simp_all add: f_def session_keys_def\<close>)
  then have "find_session hash token d' = Some (k, f s)" by (simp add: assms(4))
  then show ?thesis by (intro exI [of _ "f s"]) (simp add: finishPlaySession_def f_def)
qed (use assms(2) in simp_all)

definition sample_last :: db where
  "sample_last = sample_playing\<lparr>t_playSessions :=
     map (\<lambda>(k, s). (k, s\<lparr>ps_maxPlayCount := Some 1\<rparr>)) (t_playSessions sample_playing)\<rparr>"

definition sample_last_won :: "unit res \<times> db" where
  "sample_last_won = finishPlay sample_env sample_anonymous (\<lambda>t. t) (\<lambda>t. t) ''tok'' 100 None None None (\<lambda>_ d. d)
     sample_last"

lemma quota_session_never_ranked_witness:
  "\<exists>s'. ps_state s' = FINISHED \<and>
     finishPlaySession sample_env (\<lambda>t. t) ''tok'' (\<lambda>d. d) (snd sample_last_won) = (Inr s', snd sample_last_won)"
proof -
  have "case find_session (\<lambda>t. t) ''tok'' sample_last of None \<Rightarrow> False
      | Some (k, s) \<Rightarrow> ps_maxPlayCount s = Some 1 \<and> 1 \<le> int (play_count sample_last k)" by code_simp
  then obtain k s where ks: "find_session (\<lambda>t. t) ''tok'' sample_last = Some (k, s)" "ps_maxPlayCount s = Some 1"
    "1 \<le> int (play_count sample_last k)" by (auto split: option.splits)
  have "list_ex (\<lambda>(_, p). pl_result p = Some WIN) (t_plays (snd sample_last_won))"
    and "\<not> list_ex (\<lambda>(_, p). pl_result p = Some WIN) (t_plays sample_last)" by code_simp+
  then have n: "t_plays (snd sample_last_won) \<noteq> t_plays sample_last" by metis
  have "distinct (session_keys sample_last)" by code_simp
  from quota_session_never_ranked [OF _ n this ks] show ?thesis
    unfolding sample_last_won_def by (metis prod.collapse)
qed

end
