(* ===== verification/Doubles.thy ===== *)
theory Doubles
  imports Prelude
begin

text \<open>
  The JavaScript number as an IEEE double: \<open>double x\<close> is the double nearest to the rational
  \<open>x\<close>, ties to the even significand (the range of the exponent is unbounded here, the
  amounts of the modelled code stay far inside it).  A sum, product or quotient of two doubles is
  \<open>double\<close> of the exact result, \<open>Number(i)\<close> of a \<open>BigInt\<close> is \<open>to_number i\<close>.
\<close>

fun bit_length :: "nat \<Rightarrow> nat" where
  "bit_length n = (if n = 0 then 0 else Suc (bit_length (n div 2)))"

declare bit_length.simps [simp del]

lemma bit_length_bounds: "n < 2 ^ bit_length n \<and> (0 < n \<longrightarrow> 2 ^ bit_length n \<le> 2 * n)"
proof (induction n rule: bit_length.induct)
  case (1 n)
  show ?case
  proof (cases "n = 0")
    case True
    then show ?thesis by (simp add: bit_length.simps [of 0])
  next
    case False
    then have l: "bit_length n = Suc (bit_length (n div 2))" by (simp add: bit_length.simps [of n])
    from 1 False have IH: "n div 2 < 2 ^ bit_length (n div 2)"
      "0 < n div 2 \<longrightarrow> 2 ^ bit_length (n div 2) \<le> 2 * (n div 2)" by blast+
    have "n < 2 ^ bit_length n" using IH(1) by (simp add: l)
    moreover have "2 ^ bit_length n \<le> 2 * n"
    proof (cases "n div 2 = 0")
      case True
      with False have "n = 1" by simp
      then show ?thesis using l by (simp add: bit_length.simps [of 0])
    next
      case False
      with IH(2) show ?thesis by (simp add: l)
    qed
    ultimately show ?thesis by simp
  qed
qed

definition pow2 :: "int \<Rightarrow> rat" where
  "pow2 e = (if 0 \<le> e then 2 ^ nat e else 1 / 2 ^ nat (- e))"

lemma pow2_pos [simp]: "0 < pow2 e"
  by (simp add: pow2_def)

lemma pow2_neg: "pow2 (- e) = 1 / pow2 e"
  by (simp add: pow2_def)

lemma pow2_diff: "pow2 (int a - int b) = 2 ^ a / 2 ^ b"
proof (cases "b \<le> a")
  case True
  then have "(2 :: rat) ^ a = 2 ^ (a - b) * 2 ^ b" by (simp flip: power_add)
  with True show ?thesis by (simp add: pow2_def nat_diff_distrib')
next
  case False
  then have "(2 :: rat) ^ b = 2 ^ (b - a) * 2 ^ a" by (simp flip: power_add)
  with False show ?thesis by (simp add: pow2_def nat_diff_distrib')
qed

lemma pow2_add1: "pow2 (e + 1) = 2 * pow2 e"
proof -
  obtain a b where "e = int a - int b" by (metis int_diff_cases)
  then have "e + 1 = int (Suc a) - int b" and "e = int a - int b" by simp_all
  then show ?thesis by (simp only: pow2_diff) simp
qed

text \<open>The exponent of the leading bit of a positive rational.\<close>

definition binary_exponent :: "rat \<Rightarrow> int" where
  "binary_exponent x =
     (let (p, q) = quotient_of x; e = int (bit_length (nat p)) - int (bit_length (nat q))
      in if pow2 e \<le> x then e else e - 1)"

lemma pow2_binary_exponent:
  assumes "0 < x"
  shows "pow2 (binary_exponent x) \<le> x"
proof -
  obtain p q where q: "quotient_of x = (p, q)" by (cases "quotient_of x")
  have qp: "0 < q" using quotient_of_denom_pos [OF q] .
  have x: "x = of_int p / of_int q" using quotient_of_div [OF q] .
  have "0 < p" using assms qp by (simp add: x zero_less_divide_iff)
  let ?a = "bit_length (nat p)" and ?b = "bit_length (nat q)"
  have "2 ^ ?a \<le> 2 * nat p" using bit_length_bounds [of "nat p"] \<open>0 < p\<close> by simp
  then have "int (2 ^ ?a) \<le> int (2 * nat p)" by (simp only: of_nat_le_iff)
  then have "2 ^ ?a \<le> 2 * p" using \<open>0 < p\<close> by simp
  then have a: "(of_int (2 ^ ?a) :: rat) \<le> of_int (2 * p)" by (simp only: of_int_le_iff)
  have "nat q < 2 ^ ?b" using bit_length_bounds [of "nat q"] by simp
  then have "int (nat q) \<le> int (2 ^ ?b)" by (simp only: of_nat_le_iff)
  then have "q \<le> 2 ^ ?b" using qp by simp
  then have b: "(of_int q :: rat) \<le> of_int (2 ^ ?b)" by (simp only: of_int_le_iff)
  have e: "2 * pow2 (int ?a - int ?b - 1) = pow2 (int ?a - int ?b)"
    using pow2_add1 [of "int ?a - int ?b - 1"] by simp
  have "(2 :: rat) ^ ?a / 2 ^ ?b \<le> 2 * of_int p / of_int q"
    using a b qp \<open>0 < p\<close> by (intro frac_le) simp_all
  then have "pow2 (int ?a - int ?b - 1) \<le> x"
    using e by (simp add: pow2_diff x)
  then show ?thesis by (simp add: binary_exponent_def q Let_def)
qed

definition round_even :: "rat \<Rightarrow> int" where
  "round_even x =
     (let f = \<lfloor>x\<rfloor>; r = x - of_int f
      in if r < 1 / 2 then f else if r > 1 / 2 then f + 1 else if even f then f else f + 1)"

lemma round_even_int [simp]: "round_even (of_int i) = i"
  by (simp add: round_even_def)

definition double_pos :: "rat \<Rightarrow> rat" where
  "double_pos x = (let s = pow2 (binary_exponent x - 52) in of_int (round_even (x / s)) * s)"

definition double :: "rat \<Rightarrow> rat" where
  "double x = (if x = 0 then 0 else if x < 0 then - double_pos (- x) else double_pos x)"

definition to_number :: "int \<Rightarrow> int" where
  "to_number i = \<lfloor>double (of_int i)\<rfloor>"

lemma double_pos_int:
  assumes "0 < i" and "i < 2 ^ 53"
  shows "double_pos (of_int i) = of_int i"
proof -
  let ?e = "binary_exponent (of_int i)"
  have "pow2 ?e \<le> of_int i" using assms(1) by (intro pow2_binary_exponent) simp
  also have "(of_int i :: rat) < of_int (2 ^ 53)" using assms(2) unfolding of_int_less_iff .
  finally have lt: "pow2 ?e < 2 ^ 53" by simp
  have "?e \<le> 52"
  proof (rule ccontr)
    assume "\<not> ?e \<le> 52"
    then have "(2 :: rat) ^ 53 \<le> 2 ^ nat ?e" by (intro power_increasing) simp_all
    with lt \<open>\<not> ?e \<le> 52\<close> show False by (simp add: pow2_def)
  qed
  then have s: "pow2 (?e - 52) = 1 / of_int (2 ^ nat (52 - ?e))" by (auto simp: pow2_def)
  have "of_int i / pow2 (?e - 52) = of_int (i * 2 ^ nat (52 - ?e))" by (simp add: s)
  then have "round_even (of_int i / pow2 (?e - 52)) = i * 2 ^ nat (52 - ?e)"
    by (simp only: round_even_int)
  then show ?thesis by (simp add: double_pos_def Let_def s)
qed

lemma pow2_mono: "e \<le> e' \<Longrightarrow> pow2 e \<le> pow2 e'"
proof -
  assume "e \<le> e'"
  moreover obtain a b where e: "e = int a - int b" by (metis int_diff_cases)
  ultimately obtain n where n: "e' = int (a + n) - int b" by (intro that [of "nat (e' - e)"]) simp
  have "(2 :: rat) ^ a \<le> 2 ^ (a + n)" by (rule power_increasing) simp_all
  then show ?thesis unfolding e n pow2_diff by (intro divide_right_mono) simp_all
qed

lemma binary_exponent_upper:
  assumes "0 < x"
  shows "x < 2 * pow2 (binary_exponent x)"
proof -
  obtain p q where q: "quotient_of x = (p, q)" by (cases "quotient_of x")
  have qp: "0 < q" using quotient_of_denom_pos [OF q] .
  have x: "x = of_int p / of_int q" using quotient_of_div [OF q] .
  have "0 < p" using assms qp by (simp add: x zero_less_divide_iff)
  let ?a = "bit_length (nat p)" and ?b = "bit_length (nat q)"
  have "int (nat p) < int (2 ^ ?a)" using bit_length_bounds [of "nat p"] by (simp only: of_nat_less_iff)
  then have a: "(of_int p :: rat) < of_int (2 ^ ?a)" using \<open>0 < p\<close> unfolding of_int_less_iff by simp
  have "int (2 ^ ?b) \<le> int (2 * nat q)" using bit_length_bounds [of "nat q"] qp by (simp only: of_nat_le_iff)
  then have b: "(of_int (2 ^ ?b) :: rat) \<le> of_int (2 * q)" using qp unfolding of_int_le_iff by simp
  have "x < of_int (2 ^ ?a) / of_int q" unfolding x using a qp by (intro divide_strict_right_mono) simp_all
  also have "\<dots> \<le> of_int (2 ^ ?a) / (of_int (2 ^ ?b) / 2)" using b qp by (intro divide_left_mono) simp_all
  also have "\<dots> = 2 * pow2 (int ?a - int ?b)" by (simp add: pow2_diff)
  finally have "x < 2 * pow2 (int ?a - int ?b)" .
  moreover have "pow2 (int ?a - int ?b) = 2 * pow2 (int ?a - int ?b - 1)"
    using pow2_add1 [of "int ?a - int ?b - 1"] by simp
  ultimately show ?thesis by (auto simp: binary_exponent_def q Let_def)
qed

lemma binary_exponent_eqI:
  assumes "pow2 e \<le> x" and "x < 2 * pow2 e"
  shows "binary_exponent x = e"
proof (rule antisym)
  have x: "0 < x" using assms(1) pow2_pos [of e] by linarith
  show "binary_exponent x \<le> e"
    using pow2_binary_exponent [OF x] assms(2) pow2_mono [of "e + 1" "binary_exponent x"]
    by (force simp: pow2_add1)
  show "e \<le> binary_exponent x"
    using binary_exponent_upper [OF x] assms(1) pow2_mono [of "binary_exponent x + 1" e]
    by (force simp: pow2_add1)
qed

lemma round_even_eqI:
  assumes "\<bar>y - of_int m\<bar> < 1 / 2"
  shows "round_even y = m"
proof -
  have r: "y - of_int m < 1 / 2" "of_int m - y < 1 / 2" using assms unfolding abs_less_iff by linarith+
  show ?thesis
  proof (cases "of_int m \<le> y")
    case True
    with r have "\<lfloor>y\<rfloor> = m" by (intro floor_unique) linarith+
    with r show ?thesis unfolding round_even_def Let_def by simp
  next
    case False
    with r have "\<lfloor>y\<rfloor> = m - 1" by (intro floor_unique) (simp_all; linarith)+
    moreover have "1 / 2 < y - of_int (m - 1)" using r by simp
    ultimately show ?thesis unfolding round_even_def Let_def by simp
  qed
qed

text \<open>How a concrete double is found: its exponent and its significand.\<close>

lemma double_eqI:
  assumes "pow2 e \<le> x" and "x < 2 * pow2 e" and "\<bar>x / pow2 (e - 52) - of_int m\<bar> < 1 / 2"
  shows "double x = of_int m * pow2 (e - 52)"
proof -
  have x: "0 < x" using assms(1) pow2_pos [of e] by linarith
  have "round_even (x / pow2 (e - 52)) = m" by (rule round_even_eqI) (rule assms(3))
  then show ?thesis using x by (simp add: double_def double_pos_def binary_exponent_eqI [OF assms(1,2)])
qed

text \<open>Every integer of at most 53 bits is a double.\<close>

lemma to_number_id [simp]: "0 \<le> i \<Longrightarrow> i < 2 ^ 53 \<Longrightarrow> to_number i = i"
  by (cases "i = 0") (simp_all add: to_number_def double_def double_pos_int)

lemma double_int: "0 \<le> i \<Longrightarrow> i < 2 ^ 53 \<Longrightarrow> double (of_int i) = of_int i"
  by (cases "i = 0") (simp_all add: double_def double_pos_int)

end
