(* ===== verification/Ranking.thy ===== *)
theory Ranking
  imports Play_Game Doubles "HOL-Library.Word" "HOL-Library.List_Lexorder" "HOL-Library.Product_Lexorder"
    "HOL-Library.Char_ord"
begin

unbundle bit_operations_syntax

text \<open>
  \<open>src/helpers/ranking.ts\<close>, \<open>src/use_cases/ranking_usecase.ts\<close> and the calendar part of
  \<open>src/helpers/datetime.ts\<close>: the packing of a score with the remaining time of a term into
  one number, the keys of the rankings, reading a ranking, and the scores that the end of a play
  session or a craft sends.  Redis keeps a sorted set per key, here the table \<open>t_scores\<close>; the
  event rankings are an argument, as they are of the constructor.  The name and the icons of the
  listed users are left out.
\<close>

section \<open>Packed scores\<close>

definition getSecondsDifference :: "date \<Rightarrow> date \<Rightarrow> int" where
  "getSecondsDifference date1 date2 = (date2 - date1) div 1000"

definition COUNT_SCORE_LEFT_SHIFT_NUM :: nat where
  "COUNT_SCORE_LEFT_SHIFT_NUM = 53 - 30"

definition RATE_SCORE_LEFT_SHIFT_NUM :: nat where
  "RATE_SCORE_LEFT_SHIFT_NUM = 53 - 14"

definition RATE_COUNT_LEFT_SHIFT_NUM :: nat where
  "RATE_COUNT_LEFT_SHIFT_NUM = 53 - (16 + 14)"

definition RATE_MAX_COUNT :: int where
  "RATE_MAX_COUNT = push_bit 16 1 - 1"

definition getCombinedCountScore :: "int \<Rightarrow> date \<Rightarrow> date \<Rightarrow> int res" where
  "getCombinedCountScore score now endDate =
     (if score < 0 then Inl (InternalServerUseCaseError ''score must be a positive integer'')
      else
        let timestamp = getSecondsDifference now endDate in
        if timestamp < 0 then Inl (InternalServerUseCaseError ''date must be before endDate'')
        else
          let maskedTimestamp = timestamp AND (push_bit COUNT_SCORE_LEFT_SHIFT_NUM 1 - 1) in
          Inr (to_number (push_bit COUNT_SCORE_LEFT_SHIFT_NUM score OR maskedTimestamp)))"

definition getSeparatedCountScore :: "int \<Rightarrow> int" where
  "getSeparatedCountScore combinedScore = to_number (drop_bit COUNT_SCORE_LEFT_SHIFT_NUM combinedScore)"

definition getCombinedRateScore :: "rat \<Rightarrow> int \<Rightarrow> date \<Rightarrow> date \<Rightarrow> int res" where
  "getCombinedRateScore rate cnt now endDate =
     (if rate < 0 \<or> cnt < 0 then Inl (InternalServerUseCaseError ''rate/count must be a positive number'')
      else if cnt > RATE_MAX_COUNT then Inl (InternalServerUseCaseError ''count overflow'')
      else
        let timestamp = getSecondsDifference now endDate in
        if timestamp < 0 then Inl (InternalServerUseCaseError ''date must be before endDate'')
        else
          let maskedTimestamp = timestamp AND (push_bit RATE_COUNT_LEFT_SHIFT_NUM 1 - 1);
              fixedRate = \<lfloor>double (rate * 100)\<rfloor> in
          Inr (to_number (push_bit RATE_SCORE_LEFT_SHIFT_NUM fixedRate OR
                          push_bit RATE_COUNT_LEFT_SHIFT_NUM cnt OR maskedTimestamp)))"

definition getSeparatedRateScore :: "int \<Rightarrow> rat" where
  "getSeparatedRateScore score = double (of_int (to_number (drop_bit RATE_SCORE_LEFT_SHIFT_NUM score)) / 100)"

section \<open>Keys of the rankings\<close>

text \<open>Days since 1970-01-01 of a date of the proleptic Gregorian calendar.\<close>

definition days_of_civil :: "int \<Rightarrow> int \<Rightarrow> int \<Rightarrow> int" where
  "days_of_civil y m d =
     (let y' = (if m \<le> 2 then y - 1 else y); era = y' div 400; yoe = y' mod 400;
          doy = (153 * (if m > 2 then m - 3 else m + 9) + 2) div 5 + d - 1;
          doe = yoe * 365 + yoe div 4 - yoe div 100 + doy
      in era * 146097 + doe - 719468)"

definition DAY_MS :: int where
  "DAY_MS = 86400000"

text \<open>The reference region (\<open>TERM_TIME_ZONE\<close>, Asia/Tokyo) is nine hours ahead of UTC.\<close>

definition tokyo_day :: "date \<Rightarrow> int" where
  "tokyo_day t = (t + 9 * 3600000) div DAY_MS"

definition tokyo_hour :: "date \<Rightarrow> int" where
  "tokyo_hour t = (t + 9 * 3600000) mod DAY_MS div 3600000"

text \<open>The last millisecond before a day of the reference region begins.\<close>

definition before_tokyo_day :: "int \<Rightarrow> date" where
  "before_tokyo_day day = day * DAY_MS - 9 * 3600000 - 1"

datatype regular_ranking = RANK_SPARK | RANK_MEGA_SPARK

fun regular_ranking_name :: "regular_ranking \<Rightarrow> string" where
  "regular_ranking_name RANK_SPARK = ''SPARK''"
| "regular_ranking_name RANK_MEGA_SPARK = ''MEGA_SPARK''"

text \<open>Year, month and half of the month (\<open>True\<close> for the early one) of a term, and its end.\<close>

definition ranking_term :: "bool \<Rightarrow> date \<Rightarrow> int \<times> int \<times> bool" where
  "ranking_term current nowDate =
     (let (y, m, d) = civil_date (tokyo_day nowDate); early = (d < 16)
      in if current then (y, m, early)
         else if \<not> early then (y, m, True)
         else if m = 1 then (y - 1, 12, False) else (y, m - 1, False))"

definition term_end :: "int \<times> int \<times> bool \<Rightarrow> date" where
  "term_end t =
     (case t of (y, m, early) \<Rightarrow>
        before_tokyo_day (if early then days_of_civil y m 16
                          else if m = 12 then days_of_civil (y + 1) 1 1 else days_of_civil y (m + 1) 1))"

definition getRegularRankingKeyAndEndDate :: "regular_ranking \<Rightarrow> bool \<Rightarrow> date \<Rightarrow> string \<times> date" where
  "getRegularRankingKeyAndEndDate rankingType current nowDate =
     (let t = ranking_term current nowDate; (y, m, early) = t
      in (''regular_'' @ toLowerCase (regular_ranking_name rankingType) @ ''_'' @ int_string y @ int_string m @
          (if early then ''_early'' else ''_late''), term_end t))"

datatype action_type = ACT_SPARK | ACT_MEGA_SPARK | ACT_CRAFT | ACT_SPARK_RATE

fun action_name :: "action_type \<Rightarrow> string" where
  "action_name ACT_SPARK = ''SPARK''"
| "action_name ACT_MEGA_SPARK = ''MEGA_SPARK''"
| "action_name ACT_CRAFT = ''CRAFT''"
| "action_name ACT_SPARK_RATE = ''SPARK_RATE''"

record event_ranking =
  er_id :: string
  er_startAt :: date
  er_endAt :: date
  er_actionType :: action_type
  er_minActionCount :: int
  er_targetGames :: "string list option"

definition getEventRankingKey :: "event_ranking \<Rightarrow> string" where
  "getEventRankingKey e = toLowerCase (er_id e @ ''_'' @ action_name (er_actionType e))"

definition getTournamentRankingKey :: "string \<Rightarrow> string" where
  "getTournamentRankingKey tournamentId = toLowerCase (''paid_'' @ tournamentId)"

section \<open>The sorted sets\<close>

definition zScore :: "string \<Rightarrow> user_id \<Rightarrow> db \<Rightarrow> int option" where
  "zScore key u d = map_of (t_scores d) (key, u)"

definition zAdd :: "string \<Rightarrow> user_id \<Rightarrow> int \<Rightarrow> db \<Rightarrow> db" where
  "zAdd key u score d = put_scores (AList.update (key, u) score (t_scores d)) d"

text \<open>The members of a set from the highest score down, equal scores from the last name down.\<close>

definition zRev :: "string \<Rightarrow> db \<Rightarrow> (int \<times> user_id) list" where
  "zRev key d = rev (sort (map (\<lambda>((_, u), s). (s, u)) (filter (\<lambda>((k, _), _). k = key) (t_scores d))))"

section \<open>Reading a ranking\<close>

record ranking_item =
  ri_userId :: user_id
  ri_rank :: int
  ri_score :: rat

record rankings =
  topList :: "ranking_item list"
  myself :: "ranking_item option"

definition separated :: "bool \<Rightarrow> int \<Rightarrow> rat" where
  "separated isRateScore score =
     (if isRateScore then getSeparatedRateScore score else of_int (getSeparatedCountScore score))"

definition filtered_rankings :: "string \<Rightarrow> bool \<Rightarrow> db \<Rightarrow> ranking_item list" where
  "filtered_rankings key isRateScore d =
     (let locked = map fst (filter (\<lambda>(_, r). u_lockedAt r \<noteq> None) (t_users d))
      in map (\<lambda>(i, s, u). \<lparr>ri_userId = u, ri_rank = int i, ri_score = separated isRateScore s\<rparr>)
           (enumerate 1 (filter (\<lambda>(_, u). u \<notin> set locked) (take 121 (zRev key d)))))"

text \<open>
  A user outside the list is looked up in the set itself; there position 0 counts as absent, and so
  does a score of 0.
\<close>

fun index_of :: "user_id \<Rightarrow> (int \<times> user_id) list \<Rightarrow> int option" where
  "index_of u [] = None"
| "index_of u ((_, v) # xs) = (if v = u then Some 0 else map_option (\<lambda>i. i + 1) (index_of u xs))"

definition own_ranking :: "ctx \<Rightarrow> string \<Rightarrow> bool \<Rightarrow> db \<Rightarrow> ranking_item option" where
  "own_ranking ctx key isRateScore d =
     (case find (\<lambda>v. ctx_userId ctx = Some (ri_userId v)) (filtered_rankings key isRateScore d) of
        Some v \<Rightarrow> Some v
      | None \<Rightarrow>
          (if \<not> truthy (ctx_userId ctx) then None
           else let u = the (ctx_userId ctx) in
             (case (index_of u (zRev key d), zScore key u d) of
                (Some i, Some s) \<Rightarrow>
                  if s = 0 \<or> i = 0 then None
                  else Some \<lparr>ri_userId = u, ri_rank = i + 1, ri_score = separated isRateScore s\<rparr>
              | _ \<Rightarrow> None)))"

text \<open>A listed user without a row is a \<open>TypeError\<close>.\<close>

definition getRanking :: "ctx \<Rightarrow> string \<Rightarrow> bool \<Rightarrow> db \<Rightarrow> rankings res" where
  "getRanking ctx key isRateScore d =
     (let ranked = filtered_rankings key isRateScore d; own = own_ranking ctx key isRateScore d in
      if list_ex (\<lambda>v. map_of (t_users d) (ri_userId v) = None) (ranked @ (case own of None \<Rightarrow> [] | Some v \<Rightarrow> [v]))
      then Inl JsTypeError
      else Inr \<lparr>topList = take 99 ranked, myself = own\<rparr>)"

datatype ranking_id = SPARK_CURRENT | SPARK_PREVIOUS | MEGA_SPARK_CURRENT | MEGA_SPARK_PREVIOUS | EVENT_ID string

definition getRanking_usecase ::
  "(string \<times> event_ranking) list \<Rightarrow> ctx \<Rightarrow> ranking_id \<Rightarrow> date \<Rightarrow> db \<Rightarrow> rankings res" where
  "getRanking_usecase eventRankings ctx rankingId now d =
     (case rankingId of
        SPARK_CURRENT \<Rightarrow> getRanking ctx (fst (getRegularRankingKeyAndEndDate RANK_SPARK True now)) False d
      | SPARK_PREVIOUS \<Rightarrow> getRanking ctx (fst (getRegularRankingKeyAndEndDate RANK_SPARK False now)) False d
      | MEGA_SPARK_CURRENT \<Rightarrow> getRanking ctx (fst (getRegularRankingKeyAndEndDate RANK_MEGA_SPARK True now)) False d
      | MEGA_SPARK_PREVIOUS \<Rightarrow> getRanking ctx (fst (getRegularRankingKeyAndEndDate RANK_MEGA_SPARK False now)) False d
      | EVENT_ID e \<Rightarrow>
          (case map_of eventRankings e of
             None \<Rightarrow> Inl (InvalidArgumentUseCaseError ''unknown ranking id'')
           | Some r \<Rightarrow> getRanking ctx (getEventRankingKey r) (er_actionType r = ACT_SPARK_RATE) d))"

section \<open>Sending scores\<close>

definition sendCount :: "user_id \<Rightarrow> string \<Rightarrow> date \<Rightarrow> date \<Rightarrow> int \<Rightarrow> db \<Rightarrow> unit res \<times> db" where
  "sendCount u key now endDate addValue d =
     (let cnt = (case zScore key u d of
                   None \<Rightarrow> addValue
                 | Some s \<Rightarrow> if s = 0 then addValue else getSeparatedCountScore s + addValue) in
      case getCombinedCountScore cnt now endDate of
        Inl e \<Rightarrow> (Inl e, d)
      | Inr s \<Rightarrow> (Inr (), zAdd key u s d))"

text \<open>
  The aggregate of the SQL query: the sessions of the user that ended in the term on a machine of
  a target game, and the won plays of these sessions.
\<close>

definition rated_sessions :: "user_id \<Rightarrow> event_ranking \<Rightarrow> db \<Rightarrow> (string \<times> play_session_row) list" where
  "rated_sessions u e d =
     filter (\<lambda>(_, s). ps_playerId s = u \<and>
         (case ps_endedAt s of None \<Rightarrow> False | Some t \<Rightarrow> er_startAt e \<le> t \<and> t \<le> er_endAt e) \<and>
         (case map_of (t_arcadeMachines d) (ps_arcadeMachineId s) of
            None \<Rightarrow> False
          | Some am \<Rightarrow> am_game am \<in> set (case er_targetGames e of None \<Rightarrow> map fst games_table | Some gs \<Rightarrow> gs)))
       (t_playSessions d)"

definition spark_rate :: "int \<Rightarrow> int \<Rightarrow> rat" where
  "spark_rate sparkCount playCount =
     double (of_int \<lfloor>double (double (of_int (sparkCount * 100) / of_int playCount) * 100)\<rfloor> / 100)"

definition sendRate :: "user_id \<Rightarrow> string \<Rightarrow> date \<Rightarrow> event_ranking \<Rightarrow> db \<Rightarrow> unit res \<times> db" where
  "sendRate u key now e d =
     (let sessions = rated_sessions u e d;
          playCount = int (length sessions);
          sparkCount = sum_list (map (\<lambda>(k, _). int (count_rows (\<lambda>_ p. pl_playSessionId p = k \<and> pl_result p = Some WIN)
                                  (t_plays d))) sessions) in
      if playCount < er_minActionCount e \<or> playCount = 0 then (Inr (), d)
      else
        (case getCombinedRateScore (spark_rate sparkCount playCount) sparkCount now (er_endAt e) of
           Inl er \<Rightarrow> (Inl er, d)
         | Inr s \<Rightarrow> (Inr (), zAdd key u s d)))"

definition enabledPlayRankings ::
  "(string \<times> event_ranking) list \<Rightarrow> action_type \<Rightarrow> date \<Rightarrow> string \<Rightarrow> event_ranking list" where
  "enabledPlayRankings eventRankings t now game =
     filter (\<lambda>v. er_startAt v \<le> now \<and> er_endAt v \<ge> now \<and> er_actionType v = t \<and>
                 (case er_targetGames v of None \<Rightarrow> True | Some gs \<Rightarrow> game \<in> set gs)) (map snd eventRankings)"

definition enabledCraftRankings :: "(string \<times> event_ranking) list \<Rightarrow> date \<Rightarrow> event_ranking list" where
  "enabledCraftRankings eventRankings now =
     filter (\<lambda>v. er_startAt v \<le> now \<and> er_endAt v \<ge> now \<and> er_actionType v = ACT_CRAFT) (map snd eventRankings)"

text \<open>A rejected promise is logged and the others go on.\<close>

definition settle :: "(db \<Rightarrow> unit res \<times> db) list \<Rightarrow> db \<Rightarrow> db" where
  "settle sends d = foldl (\<lambda>d f. snd (f d)) d sends"

definition ranking_craft :: "(string \<times> event_ranking) list \<Rightarrow> user_id \<Rightarrow> date \<Rightarrow> db \<Rightarrow> db" where
  "ranking_craft eventRankings u createdAt d =
     settle (map (\<lambda>e. sendCount u (getEventRankingKey e) createdAt (er_endAt e) 1)
       (enabledCraftRankings eventRankings createdAt)) d"

text \<open>
  The tournaments a session counts for: those the user entered, running at the end of the session,
  for every game or for this one, or with an active game swapper, of whichever user.
\<close>

definition swapped :: "string \<Rightarrow> string \<Rightarrow> date \<Rightarrow> db \<Rightarrow> bool" where
  "swapped tournamentId game now d \<longleftrightarrow>
     list_ex (\<lambda>((_, t, category, subCategory), endAt). t = tournamentId \<and> category = ''GAME_SWAP'' \<and>
                subCategory = game \<and> endAt \<ge> now) (t_tournamentBoosters d)"

definition counted_tournament ::
  "user_id \<Rightarrow> string \<Rightarrow> date \<Rightarrow> db \<Rightarrow> (string \<times> user_id) \<times> tournament_entry_row \<Rightarrow> (string \<times> tournament_row) list" where
  "counted_tournament u game now d x =
     (case x of ((t, v), _) \<Rightarrow>
        (case map_of (t_tournaments d) t of
           None \<Rightarrow> []
         | Some r \<Rightarrow>
             if v = u \<and> tn_startAt r \<le> now \<and> tn_endAt r \<ge> now \<and>
                (tn_gameId r = None \<or> tn_gameId r = Some game \<or> swapped t game now d)
             then [(t, r)] else []))"

definition counted_tournaments :: "user_id \<Rightarrow> string \<Rightarrow> date \<Rightarrow> db \<Rightarrow> (string \<times> tournament_row) list" where
  "counted_tournaments u game now d = concat (map (counted_tournament u game now d) (t_tournamentEntries d))"

definition tournament_send :: "user_id \<Rightarrow> date \<Rightarrow> int \<Rightarrow> string \<times> tournament_row \<Rightarrow> db \<Rightarrow> unit res \<times> db" where
  "tournament_send u now terasAmount x =
     (case x of (t, r) \<Rightarrow>
        sendCount u (getTournamentRankingKey t) now (tn_endAt r)
          (case tn_type r of T_SPARK_COUNT \<Rightarrow> 1 | T_SPARK_TERAS \<Rightarrow> terasAmount))"

definition session_sends ::
  "(string \<times> event_ranking) list \<Rightarrow> user_id \<Rightarrow> string \<Rightarrow> date \<Rightarrow> play_row option \<Rightarrow> db \<Rightarrow>
   (db \<Rightarrow> unit res \<times> db) list" where
  "session_sends eventRankings u game now sparkedPlay d =
     (let megaSparked = (case sparkedPlay of None \<Rightarrow> False | Some p \<Rightarrow> pl_megaSpark p);
          terasAmount = (case Option.bind sparkedPlay pl_playerTerasReward of None \<Rightarrow> 0 | Some n \<Rightarrow> n);
          send = (\<lambda>e. sendCount u (getEventRankingKey e) now (er_endAt e) 1);
          regular = (\<lambda>t. let r = getRegularRankingKeyAndEndDate t True now in sendCount u (fst r) now (snd r) 1) in
      map (\<lambda>e. sendRate u (getEventRankingKey e) now e) (enabledPlayRankings eventRankings ACT_SPARK_RATE now game) @
      (if sparkedPlay \<noteq> None
       then regular RANK_SPARK # map send (enabledPlayRankings eventRankings ACT_SPARK now game) @
            map (tournament_send u now terasAmount) (counted_tournaments u game now d)
       else []) @
      (if megaSparked
       then regular RANK_MEGA_SPARK # map send (enabledPlayRankings eventRankings ACT_MEGA_SPARK now game)
       else []))"

definition ranking_finishPlaySession ::
  "(string \<times> event_ranking) list \<Rightarrow> user_id \<Rightarrow> string \<Rightarrow> db \<Rightarrow> unit res \<times> db" where
  "ranking_finishPlaySession eventRankings u playSessionId d =
     (case map_of (t_playSessions d) playSessionId of
        None \<Rightarrow> (Inl (PrismaKnownRequestError ''P2025''), d)
      | Some s \<Rightarrow>
      (case ps_endedAt s of
         None \<Rightarrow> (Inl (InternalServerUseCaseError ''playSession is not finished''), d)
       | Some now \<Rightarrow>
       (case map_of (t_arcadeMachines d) (ps_arcadeMachineId s) of
          None \<Rightarrow> (Inl JsTypeError, d)
        | Some am \<Rightarrow>
            let sparkedPlay = map_option snd (find (\<lambda>(_, p). pl_result p = Some WIN) (plays_of d playSessionId)) in
            (Inr (), settle (session_sends eventRankings u (am_game am) now sparkedPlay d) d))))"

end
