(* ===== verification/Ranking_Props.thy ===== *)
theory Ranking_Props
  imports Ranking Play_Rewards
begin

text \<open>
  What the rankings rest on: a packed score gives back its count and orders the players first by
  count, then by who was earlier; sending a count adds it; and two flaws.
\<close>

section \<open>Packed counts\<close>

lemma mask_and: "(t :: int) AND (push_bit n 1 - 1) = t mod 2 ^ n"
  by (simp add: push_bit_eq_mult flip: mask_eq_exp_minus_1 take_bit_eq_mask take_bit_eq_mod)

lemma push_or:
  assumes "0 \<le> (r :: int)" and "r < 2 ^ n"
  shows "push_bit n s OR r = s * 2 ^ n + r"
proof -
  have r: "take_bit n r = r" using assms by (simp add: take_bit_int_eq_self_iff)
  have "push_bit n s OR take_bit n r = push_bit n s + take_bit n r"
    by (rule disjunctive_add [symmetric]) (auto simp: bit_simps)
  then show ?thesis by (simp add: r push_bit_eq_mult)
qed

lemma combined_count:
  assumes "getCombinedCountScore s now endDate = Inr c" and "s < 2 ^ 30"
  shows "0 \<le> s" and "now \<le> endDate" and "c = s * 2 ^ 23 + getSecondsDifference now endDate mod 2 ^ 23"
    and "0 \<le> c" and "c < 2 ^ 53"
proof -
  let ?t = "getSecondsDifference now endDate" 
  let ?m = "?t mod 2 ^ 23"
  from assms(1) have s: "0 \<le> s" and t: "0 \<le> ?t"
    and c: "c = to_number (push_bit 23 s OR (?t AND (push_bit 23 1 - 1)))"
    by (auto simp: getCombinedCountScore_def Let_def COUNT_SCORE_LEFT_SHIFT_NUM_def split: if_splits)
  have m: "0 \<le> ?m" "?m < 2 ^ 23" by simp_all
  have p: "push_bit 23 s OR (?t AND (push_bit 23 1 - 1)) = s * 2 ^ 23 + ?m"
    by (simp only: mask_and push_or [OF m])
  have range: "0 \<le> s * 2 ^ 23 + ?m" "s * 2 ^ 23 + ?m < 2 ^ 53"
    using s assms(2) m by simp_all
  show "0 \<le> s" by fact
  show "now \<le> endDate" using t by (simp add: getSecondsDifference_def)
  show "c = s * 2 ^ 23 + ?m" unfolding c p by (rule to_number_id [OF range])
  with range show "0 \<le> c" "c < 2 ^ 53" by simp_all
qed

lemma separated_count:
  assumes "getCombinedCountScore s now endDate = Inr c" and "s < 2 ^ 30"
  shows "getSeparatedCountScore c = s"
proof -
  note k = combined_count [OF assms]
  have "drop_bit 23 c = s" unfolding k(3) drop_bit_eq_div by simp
  then show ?thesis using k(1) assms(2)
    by (simp add: getSeparatedCountScore_def COUNT_SCORE_LEFT_SHIFT_NUM_def)
qed

text \<open>
  (C32) The number kept in a ranking gives back the count, and within 97 days of the end of a term it
  orders two players by their counts and, when these are equal, puts the one first whose count was
  reached earlier (to the second).
\<close>

theorem count_score_roundtrip_and_order:
  assumes "getCombinedCountScore a s endDate = Inr x" and "getCombinedCountScore b t endDate = Inr y"
    and "a < 2 ^ 30" and "b < 2 ^ 30"
    and "getSecondsDifference s endDate < 2 ^ 23" and "getSecondsDifference t endDate < 2 ^ 23"
  shows "getSeparatedCountScore x = a \<and> getSeparatedCountScore y = b \<and>
    (x < y \<longleftrightarrow> a < b \<or> a = b \<and> getSecondsDifference s endDate < getSecondsDifference t endDate)"
proof -
  note p = combined_count [OF assms(1,3)] and q = combined_count [OF assms(2,4)]
  let ?s = "getSecondsDifference s endDate" and ?t = "getSecondsDifference t endDate"
  have s: "0 \<le> ?s" "0 \<le> ?t" using p(2) q(2) by (simp_all add: getSecondsDifference_def)
  have "x = a * 2 ^ 23 + ?s" "y = b * 2 ^ 23 + ?t" using p(3) q(3) s assms(5,6) by simp_all
  then have "x < y \<longleftrightarrow> a < b \<or> a = b \<and> ?s < ?t" using s assms(5,6) by auto
  with separated_count [OF assms(1,3)] separated_count [OF assms(2,4)] show ?thesis by simp
qed

theorem count_score_roundtrip_and_order_witness:
  "\<exists>x y. getCombinedCountScore 7 50000 100000 = Inr x \<and> getCombinedCountScore 7 60000 100000 = Inr y \<and>
     getSeparatedCountScore x = 7 \<and> y < x"
proof -
  obtain x where x: "getCombinedCountScore 7 50000 100000 = Inr x"
    by (simp add: getCombinedCountScore_def Let_def getSecondsDifference_def)
  obtain y where y: "getCombinedCountScore 7 60000 100000 = Inr y"
    by (simp add: getCombinedCountScore_def Let_def getSecondsDifference_def)
  from count_score_roundtrip_and_order [OF y x] count_score_roundtrip_and_order [OF x y] x y show ?thesis
    by (simp add: getSecondsDifference_def)
qed

section \<open>Sending a count\<close>

definition count_of :: "db \<Rightarrow> string \<Rightarrow> user_id \<Rightarrow> int" where
  "count_of d key u = (case zScore key u d of None \<Rightarrow> 0 | Some s \<Rightarrow> getSeparatedCountScore s)"

lemma zScore_zAdd: "zScore k v (zAdd key u s d) = (if k = key \<and> v = u then Some s else zScore k v d)"
  by (simp add: zScore_def zAdd_def put_scores_def update_conv)

text \<open>
  Sending a count while the term runs adds it to the user's own count of that ranking and changes
  no other count; after the end of the term nothing changes.
\<close>

lemma send_count_adds:
  assumes "sendCount u key now endDate n d = (res, d')" and "0 \<le> n" and "0 \<le> count_of d key u"
    and "count_of d key u + n < 2 ^ 30"
  shows "if now \<le> endDate
    then res = Inr () \<and> (\<forall>k v. count_of d' k v = count_of d k v + (if k = key \<and> v = u then n else 0))
    else (\<exists>e. res = Inl e) \<and> d' = d"
proof -
  have z: "getSeparatedCountScore 0 = 0"
    by (simp add: getSeparatedCountScore_def)
  define c where "c = count_of d key u + n"
  have run: "sendCount u key now endDate n d =
      (case getCombinedCountScore c now endDate of Inl e \<Rightarrow> (Inl e, d) | Inr s \<Rightarrow> (Inr (), zAdd key u s d))"
    using z by (auto simp: sendCount_def Let_def c_def count_of_def split: option.splits)
  have c: "0 \<le> c" "c < 2 ^ 30" using assms by (simp_all add: c_def)
  have sec: "now \<le> endDate \<Longrightarrow> 0 \<le> getSecondsDifference now endDate"
    "endDate < now \<Longrightarrow> getSecondsDifference now endDate < 0"
    by (simp_all add: getSecondsDifference_def div_neg_pos_less0)
  show ?thesis
  proof (cases "now \<le> endDate")
    case True
    with sec c obtain s where s: "getCombinedCountScore c now endDate = Inr s"
      by (auto simp: getCombinedCountScore_def Let_def)
    then have "res = Inr ()" and d': "d' = zAdd key u s d" using run assms(1) by simp_all
    moreover have "count_of d' k v = count_of d k v + (if k = key \<and> v = u then n else 0)" for k v
      using separated_count [OF s c(2)] by (auto simp: d' count_of_def zScore_zAdd c_def)
    ultimately show ?thesis using True by simp
  next
    case False
    with sec c run assms(1) show ?thesis by (auto simp: getCombinedCountScore_def Let_def)
  qed
qed

lemma send_count_adds_witness:
  "count_of (snd (sendCount ''u1'' ''k'' 0 100000 1 sample_db)) ''k'' ''u1'' = 1"
proof -
  have "count_of sample_db k v = 0" for k v by (simp add: count_of_def zScore_def sample_db_def)
  with send_count_adds [of "''u1''" "''k''" 0 100000 1 sample_db, OF prod.collapse [symmetric]] show ?thesis
    by simp
qed

section \<open>Two flaws\<close>

text \<open>
  The spark rate of 11 wins in 14 plays, 78.57 per cent, is stored and shown as 78.56: the
  rate is a double that lies just below, so cutting off after the multiplication by 100 loses
  one hundredth.
\<close>

lemma rate_loses_a_hundredth:
  "spark_rate 11 14 = double (7857 / 100) \<and>
   (\<exists>s. getCombinedRateScore (spark_rate 11 14) 11 0 100000 = Inr s \<and>
        getSeparatedRateScore s = double (7856 / 100))"
proof -
  have 1: "double (1100 / 14) = of_int 5528972756816457 * pow2 (6 - 52)"
    by (rule double_eqI) (simp_all add: pow2_def)
  have 2: "double (of_int 5528972756816457 * pow2 (6 - 52) * 100) = of_int 8639019932525714 * pow2 (12 - 52)"
    by (rule double_eqI) (simp_all add: pow2_def)
  have 3: "double (7857 / 100) = of_int 5528872230039060 * pow2 (6 - 52)"
    by (rule double_eqI) (simp_all add: pow2_def)
  have 4: "double (of_int 5528872230039060 * pow2 (6 - 52) * 100) = of_int 8638862859436031 * pow2 (12 - 52)"
    by (rule double_eqI) (simp_all add: pow2_def)
  have f: "\<lfloor>of_int 8639019932525714 * pow2 (12 - 52)\<rfloor> = 7857" "\<lfloor>of_int 8638862859436031 * pow2 (12 - 52)\<rfloor> = 7856"
    by (rule floor_unique; simp add: pow2_def)+
  have "double (double (of_int (11 * 100) / of_int 14) * 100) = of_int 8639019932525714 * pow2 (12 - 52)"
    using 1 2 by simp
  then have rate: "spark_rate 11 14 = double (7857 / 100)" by (simp only: spark_rate_def f) simp
  let ?s = "push_bit 39 7856 OR push_bit 23 11 OR (100 AND (push_bit 23 1 - 1)) :: int"
  have "?s = 4318881766178916" by (simp add: push_bit_eq_mult)
  then have s: "to_number ?s = 4318881766178916" by simp
  have "0 \<le> double (7857 / 100)" unfolding 3 by (simp add: pow2_def)
  moreover have "\<lfloor>double (double (7857 / 100) * 100)\<rfloor> = 7856" unfolding 3 4 by (rule f(2))
  ultimately have "getCombinedRateScore (double (7857 / 100)) 11 0 100000 = Inr (to_number ?s)"
    by (simp add: getCombinedRateScore_def Let_def getSecondsDifference_def RATE_MAX_COUNT_def
        RATE_SCORE_LEFT_SHIFT_NUM_def RATE_COUNT_LEFT_SHIFT_NUM_def not_less push_bit_eq_mult)
  moreover have "getSeparatedRateScore 4318881766178916 = double (7856 / 100)"
    by (simp add: getSeparatedRateScore_def RATE_SCORE_LEFT_SHIFT_NUM_def drop_bit_eq_div)
  ultimately show ?thesis unfolding rate s by blast
qed

text \<open>
  A game swapper that any user activated for a tournament makes the sessions of every
  entered user count there, whatever the game of the tournament.
\<close>

lemma foreign_game_swap_counts:
  assumes "((t, u), entry) \<in> set (t_tournamentEntries d)" and "map_of (t_tournaments d) t = Some r"
    and "tn_startAt r \<le> now" and "now \<le> tn_endAt r"
    and "((v, t, ''GAME_SWAP'', game), endAt) \<in> set (t_tournamentBoosters d)" and "now \<le> endAt"
  shows "(t, r) \<in> set (counted_tournaments u game now d)"
proof -
  have "swapped t game now d" using assms(5,6) unfolding swapped_def list_ex_iff by force
  with assms(2-4) have "(t, r) \<in> set (counted_tournament u game now d ((t, u), entry))"
    by (simp add: counted_tournament_def)
  with assms(1) show ?thesis unfolding counted_tournaments_def set_concat set_map by blast
qed

definition sample_swap_db :: db where
  "sample_swap_db = sample_db\<lparr>
     t_tournaments := map (\<lambda>(k, r). (k, r\<lparr>tn_gameId := Some ''NEON_PONG''\<rparr>)) (t_tournaments sample_db),
     t_tournamentEntries := [((''t1'', ''u1''), \<lparr>te_id = ''e1'', te_createdAt = 1, te_usedTickets = 3,
       te_countryFromIp = None, te_prizeClaimed = False, te_walletAddress = None, te_phoneNumber = None,
       te_prizeSendStatus = None\<rparr>)],
     t_tournamentBoosters := [((''u2'', ''t1'', ''GAME_SWAP'', ''BUBBLE_ATTACK''), 90)]\<rparr>"

lemma foreign_game_swap_counts_witness:
  "\<exists>r. (''t1'', r) \<in> set (counted_tournaments ''u1'' ''BUBBLE_ATTACK'' 50 sample_swap_db) \<and>
     tn_gameId r = Some ''NEON_PONG''"
proof -
  obtain r where r: "map_of (t_tournaments sample_swap_db) ''t1'' = Some r" "tn_gameId r = Some ''NEON_PONG''"
      "tn_startAt r = 0" "tn_endAt r = 100"
    by (simp add: sample_swap_db_def sample_db_def)
  have "(''t1'', r) \<in> set (counted_tournaments ''u1'' ''BUBBLE_ATTACK'' 50 sample_swap_db)"
    by (rule foreign_game_swap_counts [OF _ r(1), where v = "''u2''" and endAt = 90])
      (simp_all add: r sample_swap_db_def)
  with r(2) show ?thesis by blast
qed

end
