(* ===== verification/Tournament.thy ===== *)
theory Tournament
  imports Ranking
begin

text \<open>
  \<open>src/use_cases/paid_tournament_usecase.ts\<close>, \<open>src/helpers/paid_tournament.ts\<close> and
  \<open>src/helpers/ticket_transaction.ts\<close>: entering a tournament for tickets, claiming a prize, the
  division of the prize money, recording the results and showing the ranking.  An amount that the
  code passes through a JavaScript number is a multiple of ten or of a hundredth and stays exact.
  Between the read and the write of an operation other requests may change the database.
\<close>

section \<open>Ticket transactions\<close>

definition ticket_transaction ::
  "user_id \<Rightarrow> int \<Rightarrow> int \<Rightarrow> string \<Rightarrow> (string \<times> string option) list \<Rightarrow> ticket_transaction_row" where
  "ticket_transaction u changeAmount held transactionType detail =
     \<lparr>tt_userId = u, tt_changeAmount = changeAmount, tt_balance = held, tt_transactionType = transactionType,
      tt_detail = detail\<rparr>"

definition writePurchaseTicketTransaction ::
  "user_id \<Rightarrow> string \<Rightarrow> int \<Rightarrow> int \<Rightarrow> string \<Rightarrow> string \<Rightarrow> query" where
  "writePurchaseTicketTransaction u newId held addCount os purchaseId =
     create_ticketTransaction newId (ticket_transaction u addCount held ''PURCHASE''
       [(''os'', Some os), (''purchaseId'', Some purchaseId)])"

definition writeOpenQuestTransaction :: "user_id \<Rightarrow> string \<Rightarrow> int \<Rightarrow> int \<Rightarrow> string \<Rightarrow> query" where
  "writeOpenQuestTransaction u newId held useCount questChainId =
     create_ticketTransaction newId (ticket_transaction u (useCount * -1) held ''OPEN_QUEST''
       [(''questChainId'', Some questChainId)])"

definition writeEnterPaidTournamentTransaction :: "user_id \<Rightarrow> string \<Rightarrow> int \<Rightarrow> int \<Rightarrow> string \<Rightarrow> query" where
  "writeEnterPaidTournamentTransaction u newId held useCount tournamentId =
     create_ticketTransaction newId (ticket_transaction u (useCount * -1) held ''ENTER_TOURNAMENT''
       [(''tournamentId'', Some tournamentId)])"

definition writeTournamentBoosterTransaction ::
  "user_id \<Rightarrow> string \<Rightarrow> int \<Rightarrow> booster_master_row \<Rightarrow> string option \<Rightarrow> query" where
  "writeTournamentBoosterTransaction u newId held boosterItem tournamentId =
     create_ticketTransaction newId (ticket_transaction u (bm_feeTickets boosterItem * -1) held ''TOURNAMENT_BOOSTER''
       [(''tournamentId'', tournamentId), (''category'', Some (bm_category boosterItem)),
        (''subCategory'', Some (bm_subCategory boosterItem)), (''variant'', Some (bm_variant boosterItem))])"

section \<open>The division of the prize money\<close>

definition TICKET_PER_TERAS_RATE :: int where
  "TICKET_PER_TERAS_RATE = 100"

definition TERAS_TO_USD_RATE :: decimal where
  "TERAS_TO_USD_RATE = 1 / 1000"

definition TERAS_TO_IDR_RATE :: decimal where
  "TERAS_TO_IDR_RATE = 16"

definition PAID_TOURNAMENT_RESULT_RECORD_MINIMUM_RANK :: int where
  "PAID_TOURNAMENT_RESULT_RECORD_MINIMUM_RANK = 20"

record prize_ratio =
  pr_ratio :: decimal
  pr_min :: int
  pr_max :: int

record prize_calc_setting =
  prizePoolRatio :: decimal
  prizeRatios :: "prize_ratio list"
  minimumRankForPrize :: int

definition prize_ratios :: "(decimal \<times> int \<times> int) list \<Rightarrow> prize_ratio list" where
  "prize_ratios = map (\<lambda>(r, lo, hi). \<lparr>pr_ratio = r, pr_min = lo, pr_max = hi\<rparr>)"

definition prizeCalcSettingsMap :: "((int \<times> int) \<times> prize_calc_setting) list" where
  "prizeCalcSettingsMap =
    [((0, 30), \<lparr>prizePoolRatio = 8 / 10,
       prizeRatios = prize_ratios [(50 / 100, 1, 1), (36 / 100, 2, 2), (14 / 100, 3, 3)],
       minimumRankForPrize = 3\<rparr>),
     ((31, 50), \<lparr>prizePoolRatio = 7 / 10,
       prizeRatios = prize_ratios [(40 / 100, 1, 1), (30 / 100, 2, 2), (14 / 100, 3, 3), (8 / 100, 4, 4),
         (5 / 100, 5, 5), (3 / 100, 6, 6)],
       minimumRankForPrize = 6\<rparr>),
     ((51, 200), \<lparr>prizePoolRatio = 6 / 10,
       prizeRatios = prize_ratios [(40 / 100, 1, 1), (18 / 100, 2, 2), (10 / 100, 3, 3), (6 / 100, 4, 4),
         (4 / 100, 5, 8), (2 / 100, 9, 11), (1 / 100, 12, 15)],
       minimumRankForPrize = 15\<rparr>),
     ((201, 2 ^ 53 - 1), \<lparr>prizePoolRatio = 5 / 10,
       prizeRatios = prize_ratios [(400 / 1000, 1, 1), (140 / 1000, 2, 2), (80 / 1000, 3, 3), (60 / 1000, 4, 5),
         (40 / 1000, 6, 8), (20 / 1000, 9, 11), (14 / 1000, 12, 13), (10 / 1000, 14, 17), (4 / 1000, 18, 20)],
       minimumRankForPrize = 20\<rparr>)]"

definition findPrizeCalcSetting :: "int \<Rightarrow> prize_calc_setting res" where
  "findPrizeCalcSetting entries =
     (case find (\<lambda>((lo, hi), _). lo \<le> entries \<and> entries \<le> hi) prizeCalcSettingsMap of
        None \<Rightarrow> Inl (JsError ''prize calc setting not found'')
      | Some (_, setting) \<Rightarrow> Inr setting)"

definition calcPrizeTerasSummary :: "int \<Rightarrow> int \<Rightarrow> prize_calc_setting \<Rightarrow> decimal option \<Rightarrow> decimal" where
  "calcPrizeTerasSummary entryCount entryFeeOfTicket setting prizeTerasAmount =
     of_int (entryCount * entryFeeOfTicket * TICKET_PER_TERAS_RATE) * prizePoolRatio setting +
     (case prizeTerasAmount of None \<Rightarrow> 0 | Some x \<Rightarrow> x)"

record prize =
  prizeTeras :: decimal
  prizeTicket :: "int option"
  prizeUsdc :: "decimal option"
  prizeIdr :: "decimal option"

definition no_prize :: "int option \<Rightarrow> prize" where
  "no_prize ticket = \<lparr>prizeTeras = 0, prizeTicket = ticket, prizeUsdc = None, prizeIdr = None\<rparr>"

definition find_ratio :: "prize_calc_setting \<Rightarrow> int \<Rightarrow> decimal option" where
  "find_ratio setting rank = map_option pr_ratio (find (\<lambda>v. pr_min v \<le> rank \<and> rank \<le> pr_max v) (prizeRatios setting))"

definition calcPrize :: "db \<Rightarrow> user_id \<Rightarrow> decimal \<Rightarrow> int \<Rightarrow> prize_calc_setting \<Rightarrow> prize res" where
  "calcPrize d userId totalPrizeTeras rank setting =
     (case find_ratio setting rank of
        None \<Rightarrow> Inl (JsError ''prize ratio setting error'')
      | Some ratio \<Rightarrow>
      if totalPrizeTeras * ratio < 10 then Inr (no_prize None)
      else
        bind_res (floorDecimalToIntegerValue (totalPrizeTeras * ratio) 1) (\<lambda>ownPrizeTeras.
        let ticket = Some (\<lfloor>ownPrizeTeras\<rfloor> * TICKET_PER_TERAS_RATE) in
        if userId \<in> set (t_prizeIgnoreUsers d)
        then Inr \<lparr>prizeTeras = ownPrizeTeras, prizeTicket = ticket, prizeUsdc = None, prizeIdr = None\<rparr>
        else
          let idr = ownPrizeTeras * TERAS_TO_IDR_RATE; usdc = ownPrizeTeras * TERAS_TO_USD_RATE in
          Inr \<lparr>prizeTeras = ownPrizeTeras, prizeTicket = ticket,
               prizeUsdc = (if usdc \<ge> 1 then Some usdc else None),
               prizeIdr = (if idr \<ge> 10000 then Some idr else None)\<rparr>))"

section \<open>Claiming a prize\<close>

text \<open>A prize can be claimed during the 24 hours after the end.\<close>

definition canExchangePrize :: "env \<Rightarrow> ctx \<Rightarrow> date \<Rightarrow> bool \<Rightarrow> db \<Rightarrow> bool" where
  "canExchangePrize env ctx endAt prizeTerasOnly d =
     (if prizeTerasOnly then False
      else if \<not> truthy (ctx_userId ctx) then False
      else if the (ctx_userId ctx) \<in> set (t_prizeIgnoreUsers d) then False
      else endAt < env_now env \<and> env_now env < endAt + 24 * 3600000)"

definition claimed :: "string option \<Rightarrow> string option \<Rightarrow> tournament_entry_row \<Rightarrow> tournament_entry_row" where
  "claimed walletAddress phoneNumber r =
     r\<lparr>te_prizeClaimed := True,
       te_walletAddress := (case walletAddress of None \<Rightarrow> te_walletAddress r | Some w \<Rightarrow> Some w),
       te_phoneNumber := (case phoneNumber of None \<Rightarrow> te_phoneNumber r | Some p \<Rightarrow> Some p),
       te_prizeSendStatus := Some P_UNPROCESSED\<rparr>"

definition claimPrize ::
  "env \<Rightarrow> ctx \<Rightarrow> string \<Rightarrow> string option \<Rightarrow> string option \<Rightarrow> (db \<Rightarrow> db) \<Rightarrow> db \<Rightarrow> unit res \<times> db" where
  "claimPrize env ctx tournamentId walletAddress phoneNumber other d =
     (if truthy walletAddress = truthy phoneNumber
      then (Inl (InvalidArgumentUseCaseError ''wallet address or phone number are required''), d)
      else
      (case ctx_userId ctx of
         None \<Rightarrow> (Inl (JsError ''PrismaClientValidationError''), d)
       | Some u \<Rightarrow>
      (case (map_of (t_tournamentEntries d) (tournamentId, u), map_of (t_tournaments d) tournamentId) of
         (Some entry, Some tournament) \<Rightarrow>
           if te_prizeClaimed entry then (Inl (IllegalStateUseCaseError ''claim already accepted''), d)
           else if \<not> canExchangePrize env ctx (tn_endAt tournament) (tn_prizeTerasOnly tournament) d
           then (Inl (IllegalStateUseCaseError ''claims are out of date''), d)
           else
             (case update_tournamentEntry (tournamentId, u) (\<lambda>r. \<not> te_prizeClaimed r)
                     (claimed walletAddress phoneNumber) (other d) of
                Inl e \<Rightarrow> (Inl e, other d)
              | Inr d' \<Rightarrow> (Inr (), call (QuestCheckAndUpdate u) d'))
       | _ \<Rightarrow> (Inl (InvalidArgumentUseCaseError ''paidTournament not entry or unknown tournamentId''), d))))"

section \<open>Entering\<close>

definition new_entry :: "env \<Rightarrow> ctx \<Rightarrow> string \<Rightarrow> int \<Rightarrow> tournament_entry_row" where
  "new_entry env ctx entryId fee =
     \<lparr>te_id = entryId, te_createdAt = env_now env, te_usedTickets = fee, te_countryFromIp = ctx_country ctx,
      te_prizeClaimed = False, te_walletAddress = None, te_phoneNumber = None, te_prizeSendStatus = None\<rparr>"

definition participation_reward :: "user_id \<Rightarrow> tournament_row \<Rightarrow> reward_row" where
  "participation_reward u t =
     \<lparr>rw_userId = u, rw_title = tn_title t @ '' participation benefits'', rw_itemType = R_TERAS,
      rw_category = TERAS_CATEGORY, rw_subCategory = None, rw_amount = 100, rw_availableUntil = None,
      rw_acceptedAt = None\<rparr>"

definition use_tickets :: "user_id \<Rightarrow> int \<Rightarrow> query" where
  "use_tickets u fee = update_user u (\<lambda>_. True) (\<lambda>r. r\<lparr>tickets := tickets r - fee\<rparr>)"

text \<open>The ids of the entry, the reward and the ticket transaction are \<open>newId 0\<close> to \<open>newId 2\<close>.\<close>

definition enter_queries ::
  "env \<Rightarrow> ctx \<Rightarrow> (nat \<Rightarrow> string) \<Rightarrow> user_id \<Rightarrow> int \<Rightarrow> string \<Rightarrow> tournament_row \<Rightarrow> query list" where
  "enter_queries env ctx newId u held tournamentId t =
     [create_tournamentEntry (tournamentId, u) (new_entry env ctx (newId 0) (tn_entryFeeTickets t)),
      use_tickets u (tn_entryFeeTickets t),
      create_reward (newId 1) (participation_reward u t)] @
     (if tn_entryFeeTickets t > 0
      then [writeEnterPaidTournamentTransaction u (newId 2) (held - tn_entryFeeTickets t) (tn_entryFeeTickets t)
              tournamentId]
      else [])"

text \<open>
  A known request error of the model is a missed row or a unique index, so the branch on
  \<open>over_zero\<close> in its message is never taken: the check on the tickets is an unknown request
  error.
\<close>

definition enter_error :: "use_case_error \<Rightarrow> use_case_error" where
  "enter_error e =
     (if e = PrismaKnownRequestError ''P2002'' then ConflictUseCaseError ''paid tournament entry conflicted'' else e)"

definition enter ::
  "env \<Rightarrow> ctx \<Rightarrow> (nat \<Rightarrow> string) \<Rightarrow> string \<Rightarrow> (db \<Rightarrow> db) \<Rightarrow> db \<Rightarrow> tournament_entry_row res \<times> db" where
  "enter env ctx newId tournamentId other d =
     (case map_of (t_tournaments d) tournamentId of
        None \<Rightarrow> (Inl (InvalidArgumentUseCaseError ''unknown tournament id''), d)
      | Some tournament \<Rightarrow>
      if env_now env < tn_startAt tournament \<or> tn_endAt tournament < env_now env
      then (Inl (InvalidArgumentUseCaseError ''out of term tournament id''), d)
      else
      (case ctx_userId ctx of
         None \<Rightarrow> (Inl (JsError ''PrismaClientValidationError''), d)
       | Some u \<Rightarrow>
      if map_of (t_tournamentEntries d) (tournamentId, u) \<noteq> None
      then (Inl (IllegalStateUseCaseError ''already entered''), d)
      else
      (case map_of (t_users d) u of
         None \<Rightarrow> (Inl (PrismaKnownRequestError ''P2025''), d)
       | Some user \<Rightarrow>
      if tickets user < tn_entryFeeTickets tournament
      then (Inl (IllegalStateUseCaseError ''ticket insufficient''), d)
      else
        (case run_tx (enter_queries env ctx newId u (tickets user) tournamentId tournament) (other d) of
           Inl e \<Rightarrow> (Inl (enter_error e), other d)
         | Inr d' \<Rightarrow> (Inr (new_entry env ctx (newId 0) (tn_entryFeeTickets tournament)),
                     call (QuestCheckAndUpdate u) d')))))"

section \<open>The ranking and the results of a tournament\<close>

definition entry_count :: "db \<Rightarrow> string \<Rightarrow> int" where
  "entry_count d tournamentId = int (count_rows (\<lambda>(t, _) _. t = tournamentId) (t_tournamentEntries d))"

text \<open>The ranking, the end, and the user's own prize once the tournament is over.\<close>

definition getRanking_tournament ::
  "env \<Rightarrow> ctx \<Rightarrow> string \<Rightarrow> db \<Rightarrow> (rankings \<times> date \<times> prize option) res" where
  "getRanking_tournament env ctx tournamentId d =
     (case map_of (t_tournaments d) tournamentId of
        None \<Rightarrow> Inl (InvalidArgumentUseCaseError ''unknown tournament id'')
      | Some t \<Rightarrow>
      bind_res (getRanking ctx (getTournamentRankingKey tournamentId) False d) (\<lambda>rankings.
      if tn_endAt t > env_now env then Inr (rankings, tn_endAt t, None)
      else
        let entries = entry_count d tournamentId in
        bind_res (findPrizeCalcSetting entries) (\<lambda>setting.
        case myself rankings of
          None \<Rightarrow> Inr (rankings, tn_endAt t, None)
        | Some own \<Rightarrow>
            if ri_rank own = 0 \<or> minimumRankForPrize setting < ri_rank own then Inr (rankings, tn_endAt t, None)
            else
              bind_res (calcPrize d (the (ctx_userId ctx))
                          (calcPrizeTerasSummary entries (tn_entryFeeTickets t) setting (tn_prizeTerasAmount t))
                          (ri_rank own) setting) (\<lambda>p.
              Inr (rankings, tn_endAt t, Some p)))))"

definition result_row :: "env \<Rightarrow> string \<Rightarrow> ranking_item \<Rightarrow> prize \<Rightarrow> tournament_result_row" where
  "result_row env tournamentId r p =
     \<lparr>tr_userId = ri_userId r, tr_tournamentId = tournamentId, tr_createdAt = env_now env, tr_rank = ri_rank r,
      tr_score = \<lfloor>ri_score r\<rfloor>, tr_prizeTerasAmount = prizeTeras p, tr_prizeTicketAmount = prizeTicket p,
      tr_prizeUsdcAmount = prizeUsdc p, tr_prizeIdrAmount = prizeIdr p\<rparr>"

definition ranked_prize :: "db \<Rightarrow> decimal \<Rightarrow> prize_calc_setting \<Rightarrow> ranking_item \<Rightarrow> prize res" where
  "ranked_prize d prizeSum setting r =
     (if minimumRankForPrize setting \<ge> ri_rank r then calcPrize d (ri_userId r) prizeSum (ri_rank r) setting
      else Inr (no_prize (Some 0)))"

text \<open>The results to record: the prize ranks, but at least the first twenty.\<close>

definition result_rows :: "env \<Rightarrow> ctx \<Rightarrow> string \<Rightarrow> tournament_row \<Rightarrow> db \<Rightarrow> tournament_result_row list res" where
  "result_rows env ctx tournamentId t d =
     bind_res (getRanking_tournament env ctx tournamentId d) (\<lambda>(rankings, _, _).
     let entries = entry_count d tournamentId in
     bind_res (findPrizeCalcSetting entries) (\<lambda>setting.
     let prizeSum = calcPrizeTerasSummary entries (tn_entryFeeTickets t) setting (tn_prizeTerasAmount t);
         recordLowerRank = max (minimumRankForPrize setting) PAID_TOURNAMENT_RESULT_RECORD_MINIMUM_RANK in
     map_res (\<lambda>r. bind_res (ranked_prize d prizeSum setting r) (\<lambda>p. Inr (result_row env tournamentId r p)))
       (take (nat recordLowerRank) (topList rankings))))"

definition record_queries :: "(nat \<Rightarrow> string) \<Rightarrow> string \<Rightarrow> tournament_result_row list \<Rightarrow> query list" where
  "record_queries newId tournamentId rows =
     map (\<lambda>(i, r). create_tournamentResult (newId i) r) (enumerate 0 rows) @
     [update_tournament tournamentId (\<lambda>t. \<not> tn_resultRecorded t) (\<lambda>t. t\<lparr>tn_resultRecorded := True\<rparr>)]"

text \<open>Every error is logged and swallowed.\<close>

definition recordResult :: "env \<Rightarrow> ctx \<Rightarrow> (nat \<Rightarrow> string) \<Rightarrow> string \<Rightarrow> (db \<Rightarrow> db) \<Rightarrow> db \<Rightarrow> db" where
  "recordResult env ctx newId tournamentId other d =
     (case map_of (t_tournaments d) tournamentId of
        None \<Rightarrow> d
      | Some t \<Rightarrow>
      if tn_resultRecorded t then d
      else
        (case result_rows env ctx tournamentId t d of
           Inl e \<Rightarrow> d
         | Inr rows \<Rightarrow>
             (case run_tx (record_queries newId tournamentId rows) (other d) of
                Inl e \<Rightarrow> other d
              | Inr d' \<Rightarrow> d')))"

end
