(* ===== verification/Tournament_Manager.thy ===== *)
theory Tournament_Manager
  imports Tournament
begin

text \<open>
  \<open>src/use_cases/paid_tournament_manager_usecase.ts\<close>: sending the prizes of a tournament, one
  winner after the other, as USDC to a wallet, as rupiah through SPNPay to a phone, or as rewards.
  The answer of SPNPay is an argument (\<open>None\<close> when the call throws).  Other requests may
  change the database before each winner's turn.
\<close>

record prize_target =
  pt_entryId :: string
  pt_userId :: user_id
  pt_walletAddress :: "wallet option"
  pt_phoneNumber :: "string option"
  pt_status :: PrizeSendStatus
  pt_teras :: decimal
  pt_ticket :: "int option"
  pt_usdc :: "decimal option"
  pt_idr :: "decimal option"

definition entry_status :: "tournament_entry_row \<Rightarrow> PrizeSendStatus" where
  "entry_status e = (case te_prizeSendStatus e of None \<Rightarrow> P_UNPROCESSED | Some s \<Rightarrow> s)"

definition prize_results :: "string \<Rightarrow> db \<Rightarrow> (string \<times> tournament_result_row) list" where
  "prize_results tournamentId d =
     filter (\<lambda>(_, r). tr_tournamentId r = tournamentId \<and> tr_prizeTerasAmount r > 0) (t_tournamentResults d)"

text \<open>The winners that entered, each with the result of the user.\<close>

definition prize_target_of :: "user_id \<Rightarrow> tournament_entry_row \<Rightarrow> tournament_result_row \<Rightarrow> prize_target" where
  "prize_target_of u e r =
     \<lparr>pt_entryId = te_id e, pt_userId = u, pt_walletAddress = te_walletAddress e,
      pt_phoneNumber = te_phoneNumber e, pt_status = entry_status e,
      pt_teras = tr_prizeTerasAmount r, pt_ticket = tr_prizeTicketAmount r,
      pt_usdc = tr_prizeUsdcAmount r, pt_idr = tr_prizeIdrAmount r\<rparr>"

fun entry_target :: "string \<Rightarrow> db \<Rightarrow> (string \<times> user_id) \<times> tournament_entry_row \<Rightarrow> prize_target list" where
  "entry_target tournamentId d ((t, u), e) =
     (if t = tournamentId then
        (case find (\<lambda>r. tr_userId r = u) (map snd (prize_results tournamentId d)) of
           None \<Rightarrow> [] | Some r \<Rightarrow> [prize_target_of u e r])
      else [])"

definition prize_targets :: "string \<Rightarrow> db \<Rightarrow> prize_target list" where
  "prize_targets tournamentId d = concat (map (entry_target tournamentId d) (t_tournamentEntries d))"

definition set_prize_status :: "string \<Rightarrow> user_id \<Rightarrow> (PrizeSendStatus option \<Rightarrow> bool) \<Rightarrow> PrizeSendStatus \<Rightarrow> query" where
  "set_prize_status tournamentId u cond s =
     update_tournamentEntry (tournamentId, u) (\<lambda>r. cond (te_prizeSendStatus r))
       (\<lambda>r. r\<lparr>te_prizeSendStatus := Some s\<rparr>)"

definition in_tx :: "query list \<Rightarrow> 'a \<Rightarrow> db \<Rightarrow> 'a res \<times> db" where
  "in_tx qs x d = (case run_tx qs d of Inl e \<Rightarrow> (Inl e, d) | Inr d' \<Rightarrow> (Inr x, d'))"

definition prize_reward :: "user_id \<Rightarrow> string \<Rightarrow> RewardItemType \<Rightarrow> reward_category \<Rightarrow> int \<Rightarrow> reward_row" where
  "prize_reward u title itemType category amount =
     \<lparr>rw_userId = u, rw_title = title, rw_itemType = itemType, rw_category = category, rw_subCategory = None,
      rw_amount = amount, rw_availableUntil = None, rw_acceptedAt = None\<rparr>"

definition sendTeras :: "string \<Rightarrow> string \<Rightarrow> string \<Rightarrow> user_id \<Rightarrow> decimal \<Rightarrow> db \<Rightarrow> unit res \<times> db" where
  "sendTeras newId tournamentId tournamentTitle u amount =
     in_tx [create_reward newId (prize_reward u (tournamentTitle @ '' rank in Prize'') R_TERAS TERAS_CATEGORY \<lfloor>amount\<rfloor>),
            set_prize_status tournamentId u (\<lambda>s. s = None \<or> s = Some P_UNPROCESSED) P_CONFIRMED] ()"

definition sendTickets :: "string \<Rightarrow> user_id \<Rightarrow> int \<Rightarrow> db \<Rightarrow> unit res \<times> db" where
  "sendTickets newId u amount =
     in_tx [create_reward newId (prize_reward u ''Tournament Prize'' R_TICKET TICKET_CATEGORY amount)] ()"

definition sendCrypt :: "env \<Rightarrow> string \<Rightarrow> string \<Rightarrow> user_id \<Rightarrow> wallet \<Rightarrow> decimal \<Rightarrow> db \<Rightarrow> unit res \<times> db" where
  "sendCrypt env newId tournamentId u walletAddress amount =
     in_tx [create_currencyWithdrawal newId
              \<lparr>cw_userId = Some u, cw_walletAddress = walletAddress, cw_currencyType = USDC,
               cw_amount = env_rnd env (amount * USDC_DECIMAL_ALIGNMENT_FACTOR),
               cw_state = W_UNPROCESSED, cw_type = None, cw_hash = None\<rparr>,
            set_prize_status tournamentId u (\<lambda>s. s = Some P_UNPROCESSED) P_CONFIRMED] ()"

text \<open>The new status and whether the transfer counts as done.\<close>

definition spn_status :: "string option \<Rightarrow> PrizeSendStatus \<times> bool" where
  "spn_status answer =
     (case answer of
        None \<Rightarrow> (P_ERROR, False)
      | Some s \<Rightarrow> if s = ''success'' then (P_CONFIRMED, True)
                  else if s = ''failed'' then (P_ERROR, False) else (P_PENDING, True))"

text \<open>
  First the entry is marked as being sent, then SPNPay is called and its answer recorded; the two
  steps are separate, and only the second is skipped when the first fails.
\<close>

definition sendSpnPay :: "string \<Rightarrow> user_id \<Rightarrow> string option \<Rightarrow> db \<Rightarrow> bool res \<times> db" where
  "sendSpnPay tournamentId u answer d =
     (case set_prize_status tournamentId u (\<lambda>s. s \<in> {Some P_UNPROCESSED, Some P_ERROR}) P_PENDING d of
        Inl e \<Rightarrow> (Inl e, d)
      | Inr d1 \<Rightarrow>
          (case spn_status answer of (s, ok) \<Rightarrow>
             in_tx [set_prize_status tournamentId u (\<lambda>s. s = Some P_PENDING) s] ok d1))"

text \<open>One winner: \<open>Inr False\<close> is a transfer that has to be repeated.\<close>

definition retried_status :: "prize_target \<Rightarrow> PrizeSendStatus" where
  "retried_status p =
     (if truthy (pt_phoneNumber p) \<and> pt_status p = P_ERROR then P_UNPROCESSED else pt_status p)"

definition send_rewards :: "(nat \<Rightarrow> string) \<Rightarrow> string \<Rightarrow> string \<Rightarrow> prize_target \<Rightarrow> db \<Rightarrow> bool res \<times> db" where
  "send_rewards newId tournamentId title p d =
     (case (if pt_teras p > 0 then sendTeras (newId 0) tournamentId title (pt_userId p) (pt_teras p) d else (Inr (), d)) of
        (Inl e, d1) \<Rightarrow> (Inl e, d1)
      | (Inr _, d1) \<Rightarrow>
          (case pt_ticket p of
             None \<Rightarrow> (Inr True, d1)
           | Some n \<Rightarrow>
               if n > 0 then
                 (case sendTickets (newId 1) (pt_userId p) n d1 of
                    (Inl e, d2) \<Rightarrow> (Inl e, d2) | (Inr _, d2) \<Rightarrow> (Inr True, d2))
               else (Inr True, d1)))"

definition send_prize ::
  "env \<Rightarrow> (prize_target \<Rightarrow> string option) \<Rightarrow> (nat \<Rightarrow> string) \<Rightarrow> string \<Rightarrow> string \<Rightarrow> prize_target \<Rightarrow> db \<Rightarrow> bool res \<times> db" where
  "send_prize env spn newId tournamentId title p d =
     (if retried_status p \<noteq> P_UNPROCESSED then (Inr True, d)
      else if truthy (pt_walletAddress p) then
        (case pt_usdc p of
           None \<Rightarrow> (Inl JsTypeError, d)
         | Some x \<Rightarrow>
             (case sendCrypt env (newId 0) tournamentId (pt_userId p) (the (pt_walletAddress p)) x d of
                (Inl e, d1) \<Rightarrow> (Inl e, d1) | (Inr _, d1) \<Rightarrow> (Inr True, d1)))
      else if truthy (pt_phoneNumber p) then sendSpnPay tournamentId (pt_userId p) (spn p) d
      else send_rewards newId tournamentId title p d)"

text \<open>All winners; the first exception ends the run.\<close>

fun send_prizes ::
  "env \<Rightarrow> (prize_target \<Rightarrow> string option) \<Rightarrow> (nat \<Rightarrow> nat \<Rightarrow> string) \<Rightarrow> (nat \<Rightarrow> db \<Rightarrow> db) \<Rightarrow> string \<Rightarrow> string \<Rightarrow>
   nat \<Rightarrow> prize_target list \<Rightarrow> db \<Rightarrow> bool res \<times> db" where
  "send_prizes env spn newId other tournamentId title i [] d = (Inr True, d)"
| "send_prizes env spn newId other tournamentId title i (p # ps) d =
     (case send_prize env spn (newId i) tournamentId title p (other i d) of
        (Inl e, d1) \<Rightarrow> (Inl e, d1)
      | (Inr ok, d1) \<Rightarrow>
          (case send_prizes env spn newId other tournamentId title (Suc i) ps d1 of
             (Inl e, d2) \<Rightarrow> (Inl e, d2)
           | (Inr oks, d2) \<Rightarrow> (Inr (ok \<and> oks), d2)))"

definition set_prizeSent :: "string \<Rightarrow> (tournament_row \<Rightarrow> bool) \<Rightarrow> query" where
  "set_prizeSent tournamentId cond = update_tournament tournamentId cond (\<lambda>t. t\<lparr>tn_prizeSent := True\<rparr>)"

definition prizeSend ::
  "env \<Rightarrow> (prize_target \<Rightarrow> string option) \<Rightarrow> (nat \<Rightarrow> nat \<Rightarrow> string) \<Rightarrow> (nat \<Rightarrow> db \<Rightarrow> db) \<Rightarrow> string \<Rightarrow> db \<Rightarrow>
   unit res \<times> db" where
  "prizeSend env spn newId other tournamentId d =
     (case map_of (t_tournaments d) tournamentId of
        None \<Rightarrow> (Inl (InvalidArgumentUseCaseError ''unknown tournament id''), d)
      | Some t \<Rightarrow>
      if tn_prizeSent t then (Inl (IllegalStateUseCaseError ''prize already send''), d)
      else if entry_count d tournamentId \<le> 0 then in_tx [set_prizeSent tournamentId (\<lambda>_. True)] () d
      else
        (case send_prizes env spn newId other tournamentId (tn_title t) 0 (prize_targets tournamentId d) d of
           (Inl e, d1) \<Rightarrow> (Inl e, d1)
         | (Inr True, d1) \<Rightarrow> in_tx [set_prizeSent tournamentId (\<lambda>t. \<not> tn_prizeSent t)] () d1
         | (Inr False, d1) \<Rightarrow> (Inr (), d1)))"

end
