(* ===== verification/Rewards.thy ===== *)
theory Rewards
  imports Play_Game
begin

text \<open>
  \<open>src/helpers/rewards.ts\<close> (the queries that hand out an item) and
  \<open>src/use_cases/reward_usecase.ts\<close> (accepting all open rewards).  The ids of new rows and
  the random draws are arguments.  A \<open>Map\<close> keyed by a string is an association list in
  insertion order, keyed by the values the string is built from.  A query that is given
  \<open>undefined\<close> or \<open>null\<close> where the schema requires a value, or a category that its column does
  not have, is refused by the client.
\<close>

section \<open>Counting by key\<close>

fun add_amount :: "'k \<Rightarrow> int \<Rightarrow> ('k \<times> int) list \<Rightarrow> ('k \<times> int) list" where
  "add_amount key n [] = [(key, n)]"
| "add_amount key n ((k, m) # xs) = (if k = key then (k, m + n) # xs else (k, m) # add_amount key n xs)"

definition amounts_by :: "('a \<Rightarrow> 'k) \<Rightarrow> ('a \<Rightarrow> int) \<Rightarrow> 'a list \<Rightarrow> ('k \<times> int) list" where
  "amounts_by key amount xs = foldl (\<lambda>m x. add_amount (key x) (amount x) m) [] xs"

lemma amounts_by_snoc: "amounts_by key amount (xs @ [x]) = add_amount (key x) (amount x) (amounts_by key amount xs)"
  by (simp add: amounts_by_def)

lemma amounts_by_Nil [simp]: "amounts_by key amount [] = []"
  by (simp add: amounts_by_def)

lemma keys_add_amount: "fst ` set (add_amount key n m) = insert key (fst ` set m)"
  by (induction key n m rule: add_amount.induct) auto

lemma distinct_add_amount: "distinct (map fst m) \<Longrightarrow> distinct (map fst (add_amount key n m))"
proof (induction key n m rule: add_amount.induct)
  case (2 key n k m xs)
  then show ?case using keys_add_amount [of key n xs] by auto
qed simp

lemma distinct_amounts_by: "distinct (map fst (amounts_by key amount xs))"
  by (induction xs rule: rev_induct) (simp_all add: amounts_by_snoc distinct_add_amount)

lemma keys_amounts_by: "fst ` set (amounts_by key amount xs) = key ` set xs"
  by (induction xs rule: rev_induct) (simp_all add: amounts_by_snoc keys_add_amount)

text \<open>Summing a weight over the counted list is summing it over the items.\<close>

lemma sum_add_amount:
  "sum_list (map (\<lambda>(k, n). if P k then n else 0) (add_amount key m xs)) =
     sum_list (map (\<lambda>(k, n). if P k then n else 0) xs) + (if P key then (m :: int) else 0)"
  by (induction key m xs rule: add_amount.induct) auto

lemma sum_amounts_by:
  "sum_list (map (\<lambda>(k, n). if P k then n else 0) (amounts_by key amount xs)) =
     sum_list (map (\<lambda>x. if P (key x) then amount x else 0) xs)"
  by (induction xs rule: rev_induct) (simp_all add: amounts_by_snoc sum_add_amount)

section \<open>Handing out an item\<close>

definition availableRewardArcadeParts :: "(ArcadePartCategory \<times> string) list" where
  "availableRewardArcadeParts =
     [(ROM, ''BUBBLE_ATTACK''), (ROM, ''STAR_GUARDIAN''), (ROM, ''YUMMY_JUMP''), (ROM, ''CYBER_PINBALL''),
      (ROM, ''NEON_BLITZ''), (ROM, ''SUPER_SNAKE''), (ROM, ''NEON_PONG''), (ROM, ''MYTHIC_MATCH''),
      (ROM, ''AKIBA_FC''), (ROM, ''NEON_SNAP''), (ROM, ''NINJA_GO_GO''), (ROM, ''MYTHIC_SWING''),
      (ACCUMULATOR, ''HOKUTO_100_LX''), (UPPER_CABINET, ''PLAIN''), (LOWER_CABINET, ''PLAIN'')]"

definition invalid_query :: query where
  "invalid_query d = Inl (JsError ''PrismaClientValidationError'')"

definition rewarded_part :: "env \<Rightarrow> ctx \<Rightarrow> ArcadePartCategory \<Rightarrow> string \<Rightarrow> arcade_part_row" where
  "rewarded_part env ctx category subCategory =
     \<lparr>nft_userId = ctx_userId ctx, nft_ownerWallet = ctx_walletAddress ctx, nft_physicalWallet = None,
      nft_state = IN_AKIVERSE, nft_lastBlock = 0, nft_lastTransactionIndex = 0, nft_updatedAt = env_now env,
      ap_category = category, ap_subCategory = subCategory, ap_destroyedAt = None, ap_craftId = None,
      ap_createDismantleId = None\<rparr>"

definition rewardArcadePart ::
  "env \<Rightarrow> ctx \<Rightarrow> (nat \<Rightarrow> nft_id) \<Rightarrow> ArcadePartCategory \<Rightarrow> string \<Rightarrow> int \<Rightarrow> query list" where
  "rewardArcadePart env ctx newId category subCategory amount =
     map (\<lambda>i. create_arcadePart (newId i) (rewarded_part env ctx category subCategory)) [0..<nat amount]"

definition rewardTeras :: "ctx \<Rightarrow> int \<Rightarrow> query" where
  "rewardTeras ctx amount =
     (case ctx_userId ctx of
        None \<Rightarrow> invalid_query
      | Some u \<Rightarrow> update_user u (\<lambda>_. True) (\<lambda>r. r\<lparr>terasBalance := terasBalance r + amount\<rparr>))"

definition rewardTickets :: "ctx \<Rightarrow> int \<Rightarrow> query" where
  "rewardTickets ctx amount =
     (case ctx_userId ctx of
        None \<Rightarrow> invalid_query
      | Some u \<Rightarrow> update_user u (\<lambda>_. True) (\<lambda>r. r\<lparr>tickets := tickets r + amount\<rparr>))"

definition rewardJunkPart :: "ctx \<Rightarrow> ArcadePartCategory \<Rightarrow> string \<Rightarrow> int \<Rightarrow> query" where
  "rewardJunkPart ctx category subCategory amount =
     (case ctx_userId ctx of
        None \<Rightarrow> invalid_query
      | Some u \<Rightarrow> upsert_junk (u, category, subCategory) (\<lambda>n. n + amount) amount)"

text \<open>An item the user already has is left as it is.\<close>

definition rewardCollectibleItem :: "ctx \<Rightarrow> string \<Rightarrow> string \<Rightarrow> query" where
  "rewardCollectibleItem ctx category subCategory =
     (case ctx_userId ctx of
        None \<Rightarrow> invalid_query
      | Some u \<Rightarrow> upsert_collectibleItem (u, category, subCategory) (\<lambda>x. x) ())"

text \<open>The parts of \<open>amount\<close> draws, in the order of the draws.\<close>

definition random_picks :: "(nat \<Rightarrow> rat) \<Rightarrow> int \<Rightarrow> (ArcadePartCategory \<times> string) list res" where
  "random_picks random amount =
     map_res (\<lambda>i. case choice (random i) availableRewardArcadeParts of
                    None \<Rightarrow> Inl JsTypeError | Some p \<Rightarrow> Inr p) [0..<nat amount]"

definition rewardRandomArcadePart ::
  "env \<Rightarrow> ctx \<Rightarrow> (nat \<Rightarrow> nft_id) \<Rightarrow> (nat \<Rightarrow> rat) \<Rightarrow> int \<Rightarrow>
   (query list \<times> ((ArcadePartCategory \<times> string) \<times> int) list) res" where
  "rewardRandomArcadePart env ctx newId random amount =
     bind_res (random_picks random amount) (\<lambda>picks.
       Inr (concat (map (\<lambda>(i, c, s). rewardArcadePart env ctx (\<lambda>_. newId i) c s 1) (enumerate 0 picks)),
            amounts_by (\<lambda>p. p) (\<lambda>_. 1) picks))"

definition rewardRandomJunkPart ::
  "ctx \<Rightarrow> (nat \<Rightarrow> rat) \<Rightarrow> int \<Rightarrow> (query list \<times> ((ArcadePartCategory \<times> string) \<times> int) list) res" where
  "rewardRandomJunkPart ctx random amount =
     bind_res (random_picks random amount) (\<lambda>picks.
       let rewards = amounts_by (\<lambda>p. p) (\<lambda>_. 1) picks in
       Inr (map (\<lambda>((c, s), n). rewardJunkPart ctx c s n) rewards, rewards))"

section \<open>Accepting the open rewards\<close>

type_synonym reward_key = "RewardItemType \<times> reward_category \<times> string option"

definition reward_key :: "reward_row \<Rightarrow> reward_key" where
  "reward_key r = (rw_itemType r, rw_category r, rw_subCategory r)"

definition open_reward :: "env \<Rightarrow> ctx \<Rightarrow> reward_row \<Rightarrow> bool" where
  "open_reward env ctx r \<longleftrightarrow> where_user ctx (rw_userId r) \<and> rw_acceptedAt r = None \<and>
     (case rw_availableUntil r of None \<Rightarrow> True | Some t \<Rightarrow> t \<ge> env_now env)"

definition open_rewards :: "env \<Rightarrow> ctx \<Rightarrow> db \<Rightarrow> (string \<times> reward_row) list" where
  "open_rewards env ctx d = filter (\<lambda>(_, r). open_reward env ctx r) (t_rewards d)"

definition accept_query :: "env \<Rightarrow> string \<Rightarrow> query" where
  "accept_query env k =
     update_reward k (\<lambda>r. rw_acceptedAt r = None) (\<lambda>r. r\<lparr>rw_acceptedAt := Some (env_now env)\<rparr>)"

text \<open>A part's category and sub-category, which the code takes as given.\<close>

definition with_part ::
  "reward_category \<Rightarrow> string option \<Rightarrow> (ArcadePartCategory \<Rightarrow> string \<Rightarrow> query list) \<Rightarrow> query list" where
  "with_part category subCategory q =
     (case (category, subCategory) of (PartCategory c, Some s) \<Rightarrow> q c s | _ \<Rightarrow> [invalid_query])"

definition detail_queries ::
  "env \<Rightarrow> ctx \<Rightarrow> (nat \<Rightarrow> nft_id) \<Rightarrow> reward_key \<times> int \<Rightarrow> query list" where
  "detail_queries env ctx newId detail =
     (case detail of ((itemType, category, subCategory), amount) \<Rightarrow>
        (case itemType of
           R_TERAS \<Rightarrow> [rewardTeras ctx amount]
         | R_TICKET \<Rightarrow> [rewardTickets ctx amount]
         | R_JUNK_PART \<Rightarrow> with_part category subCategory (\<lambda>c s. [rewardJunkPart ctx c s amount])
         | R_ARCADE_PART \<Rightarrow> with_part category subCategory (\<lambda>c s. rewardArcadePart env ctx newId c s amount)
         | R_COLLECTIBLE_ITEM \<Rightarrow>
             (case (category, subCategory) of
                (ItemCategory c, Some s) \<Rightarrow> [rewardCollectibleItem ctx c s] | _ \<Rightarrow> [invalid_query])))"

definition reward_details :: "env \<Rightarrow> ctx \<Rightarrow> db \<Rightarrow> (reward_key \<times> int) list" where
  "reward_details env ctx d =
     amounts_by (\<lambda>(_, r). reward_key r) (\<lambda>(_, r). rw_amount r) (open_rewards env ctx d)"

definition accept_queries :: "env \<Rightarrow> ctx \<Rightarrow> (nat \<Rightarrow> nat \<Rightarrow> nft_id) \<Rightarrow> db \<Rightarrow> query list" where
  "accept_queries env ctx newId d =
     map (\<lambda>(k, _). accept_query env k) (open_rewards env ctx d) @
     concat (map (\<lambda>(i, x). detail_queries env ctx (newId i) x) (enumerate 0 (reward_details env ctx d)))"

definition acceptAll ::
  "env \<Rightarrow> ctx \<Rightarrow> (nat \<Rightarrow> nat \<Rightarrow> nft_id) \<Rightarrow> (db \<Rightarrow> db) \<Rightarrow> db \<Rightarrow> (reward_key \<times> int) list res \<times> db" where
  "acceptAll env ctx newId other d =
     (if open_rewards env ctx d = []
      then (Inl (IllegalStateUseCaseError ''There are no rewards that have not been receive''), d)
      else
        (case run_tx (accept_queries env ctx newId d) (other d) of
           Inl e \<Rightarrow> (Inl e, other d)
         | Inr d' \<Rightarrow> (Inr (reward_details env ctx d), d')))"

end
