(* ===== verification/Reward_Props.thy ===== *)
theory Reward_Props
  imports Rewards Machine_Props
begin

text \<open>
  Accepting the open rewards hands out exactly what they say, once: each reward is stamped in the
  transaction that pays it, and a reward stamped by another request in the meantime stops the
  whole transaction.
\<close>

definition tickets_of :: "db \<Rightarrow> user_id \<Rightarrow> int" where
  "tickets_of d u = (case map_of (t_users d) u of None \<Rightarrow> 0 | Some r \<Rightarrow> tickets r)"

lemma run_tx_frame:
  assumes "\<And>q d d'. q \<in> set qs \<Longrightarrow> q d = Inr d' \<Longrightarrow> f d' = f d" and "run_tx qs d = Inr d'"
  shows "f d' = f d"
  by (rule run_tx_preserves [where I = "\<lambda>e. f e = f d", OF _ refl assms(2)])
    (auto simp: preserves_def assms(1))

lemma part_frame:
  assumes "run_tx (rewardArcadePart env ctx newId c s n) d = Inr d'"
  shows "t_users d' = t_users d \<and> t_rewards d' = t_rewards d"
proof -
  have "(t_users d', t_rewards d') = (t_users d, t_rewards d)"
    by (rule run_tx_frame [OF _ assms]) (auto simp: rewardArcadePart_def arcadePart_tab.create_Inr put_defs)
  then show ?thesis by simp
qed

lemma upsert_frame:
  assumes "upsert_row get put chk k f r d = Inr d'" and "\<And>t d. g (put t d) = g d"
  shows "g d' = g d"
  using assms(1) by (auto simp: upsert_row_def create_row_def update_where_def assms(2) split: option.splits if_splits)

lemma user_increment_find:
  assumes "update_user u (\<lambda>_. True) f d = Inr d'"
  shows "map_of (t_users d') v = (if v = u then map_option f (map_of (t_users d) u) else map_of (t_users d) v)"
    and "map_of (t_users d) u \<noteq> None" and "t_rewards d' = t_rewards d"
  using user_tab.update_find(1) [OF assms, of v] assms by (auto simp: user_tab.update_Inr put_defs)

text \<open>What one entry of the answer pays to a user, in Teras and in tickets.\<close>

definition gain :: "RewardItemType \<Rightarrow> ctx \<Rightarrow> user_id \<Rightarrow> reward_key \<times> int \<Rightarrow> int" where
  "gain t ctx u x = (if ctx_userId ctx = Some u \<and> fst (fst x) = t then snd x else 0)"

lemma detail_queries_pay:
  assumes "run_tx (detail_queries env ctx newId x) d = Inr d'"
  shows "teras_of d' u = teras_of d u + gain R_TERAS ctx u x \<and>
    tickets_of d' u = tickets_of d u + gain R_TICKET ctx u x \<and> t_rewards d' = t_rewards d"
proof -
  obtain t c s n where x: "x = ((t, c, s), n)" by (metis prod.collapse)
  have same: "t_users d' = t_users d \<Longrightarrow> t_rewards d' = t_rewards d \<Longrightarrow> t \<noteq> R_TERAS \<Longrightarrow> t \<noteq> R_TICKET \<Longrightarrow> ?thesis"
    by (simp add: teras_of_def tickets_of_def gain_def x)
  show ?thesis
  proof (cases t)
    case R_TERAS
    with assms obtain v where v: "ctx_userId ctx = Some v"
      and q: "update_user v (\<lambda>_. True) (\<lambda>r. r\<lparr>terasBalance := terasBalance r + n\<rparr>) d = Inr d'"
      by (auto simp: x detail_queries_def rewardTeras_def invalid_query_def split: option.splits sum.splits)
    show ?thesis using user_increment_find [OF q] R_TERAS v
      by (auto simp: teras_of_def tickets_of_def gain_def x split: option.splits)
  next
    case R_TICKET
    with assms obtain v where v: "ctx_userId ctx = Some v"
      and q: "update_user v (\<lambda>_. True) (\<lambda>r. r\<lparr>tickets := tickets r + n\<rparr>) d = Inr d'"
      by (auto simp: x detail_queries_def rewardTickets_def invalid_query_def split: option.splits sum.splits)
    show ?thesis using user_increment_find [OF q] R_TICKET v
      by (auto simp: teras_of_def tickets_of_def gain_def x split: option.splits)
  next
    case R_ARCADE_PART
    with assms obtain c' s' where "run_tx (rewardArcadePart env ctx newId c' s' n) d = Inr d'"
      by (auto simp: x detail_queries_def with_part_def invalid_query_def split: option.splits reward_category.splits sum.splits)
    with part_frame R_ARCADE_PART show ?thesis by (intro same) auto
  next
    case R_JUNK_PART
    with assms obtain k f n where "upsert_junk k f n d = Inr d'"
      by (auto simp: x detail_queries_def with_part_def rewardJunkPart_def invalid_query_def
          split: option.splits reward_category.splits sum.splits)
    from upsert_frame [OF this, of t_users] upsert_frame [OF this, of t_rewards] R_JUNK_PART show ?thesis
      by (intro same) (simp_all add: put_defs)
  next
    case R_COLLECTIBLE_ITEM
    with assms obtain k f where "upsert_collectibleItem k f () d = Inr d'"
      by (auto simp: x detail_queries_def rewardCollectibleItem_def invalid_query_def
          split: option.splits reward_category.splits sum.splits)
    from upsert_frame [OF this, of t_users] upsert_frame [OF this, of t_rewards] R_COLLECTIBLE_ITEM show ?thesis
      by (intro same) (simp_all add: put_defs)
  qed
qed

lemma details_pay:
  "run_tx (concat (map (\<lambda>(i, x). detail_queries env ctx (newId i) x) (enumerate n xs))) d = Inr d' \<Longrightarrow>
   teras_of d' u = teras_of d u + sum_list (map (gain R_TERAS ctx u) xs) \<and>
   tickets_of d' u = tickets_of d u + sum_list (map (gain R_TICKET ctx u) xs) \<and> t_rewards d' = t_rewards d"
proof (induction xs arbitrary: d n)
  case (Cons x xs)
  then obtain d1 where 1: "run_tx (detail_queries env ctx (newId n) x) d = Inr d1"
    and 2: "run_tx (concat (map (\<lambda>(i, x). detail_queries env ctx (newId i) x) (enumerate (Suc n) xs))) d1 = Inr d'"
    by (auto simp: run_tx_append split: sum.splits)
  from detail_queries_pay [OF 1, of u] Cons.IH [OF 2] show ?case by simp
qed simp

lemma accept_run:
  assumes "run_tx (map (\<lambda>(k, _). accept_query env k) rs) d = Inr d'"
  shows "reward_tab.updated_each (\<lambda>r. r\<lparr>rw_acceptedAt := Some (env_now env)\<rparr>)
      (map (\<lambda>(k, _). (k, \<lambda>r. rw_acceptedAt r = None)) rs) d d' \<and> t_users d' = t_users d"
  using assms
proof (induction rs arbitrary: d)
  case Nil
  then show ?case by (simp add: reward_tab.updated_each_Nil)
next
  case (Cons x rs)
  obtain k r where x: "x = (k, r)" by (cases x)
  from Cons.prems obtain d1 where 1: "accept_query env k d = Inr d1"
    and 2: "run_tx (map (\<lambda>(k, _). accept_query env k) rs) d1 = Inr d'"
    by (auto simp: x split: sum.splits)
  have "t_users d1 = t_users d" using 1 by (auto simp: accept_query_def reward_tab.update_Inr put_defs)
  moreover have "reward_tab.updated_each (\<lambda>r. r\<lparr>rw_acceptedAt := Some (env_now env)\<rparr>)
      ((k, \<lambda>r. rw_acceptedAt r = None) # map (\<lambda>(k, _). (k, \<lambda>r. rw_acceptedAt r = None)) rs) d d'"
    by (rule reward_tab.updated_each_Cons [OF 1 [unfolded accept_query_def] refl conjunct1 [OF Cons.IH [OF 2]]]) auto
  ultimately show ?case using Cons.IH [OF 2] by (simp add: x)
qed

lemma sum_gain:
  "sum_list (map (gain t ctx u) (reward_details env ctx d)) =
     (if ctx_userId ctx = Some u
      then sum_list (map (\<lambda>(_, r). if rw_itemType r = t then rw_amount r else 0) (open_rewards env ctx d)) else 0)"
proof -
  have "gain t ctx u = (\<lambda>(k, n). if ctx_userId ctx = Some u \<and> fst k = t then n else 0)"
    by (auto simp: gain_def fun_eq_iff)
  then show ?thesis
    unfolding reward_details_def
    by (simp only: sum_amounts_by) (auto simp: reward_key_def case_prod_unfold intro!: arg_cong [of _ _ sum_list])
qed

text \<open>
  Accepting the rewards stamps every reward that was open, each of which nobody had accepted
  before the transaction, and pays the user exactly the sum of their Teras and of their tickets;
  nobody else's balance changes.
\<close>

lemma rewards_accepted_once:
  assumes "acceptAll env ctx newId other d = (Inr details, d')"
  shows "distinct (map fst (open_rewards env ctx d)) \<and>
    (\<forall>(k, r) \<in> set (open_rewards env ctx d). \<exists>r0. map_of (t_rewards (other d)) k = Some r0 \<and> rw_acceptedAt r0 = None \<and>
       map_of (t_rewards d') k = Some (r0\<lparr>rw_acceptedAt := Some (env_now env)\<rparr>)) \<and>
    (\<forall>u. teras_of d' u = teras_of (other d) u + (if ctx_userId ctx = Some u
       then sum_list (map (\<lambda>(_, r). if rw_itemType r = R_TERAS then rw_amount r else 0) (open_rewards env ctx d)) else 0)) \<and>
    (\<forall>u. tickets_of d' u = tickets_of (other d) u + (if ctx_userId ctx = Some u
       then sum_list (map (\<lambda>(_, r). if rw_itemType r = R_TICKET then rw_amount r else 0) (open_rewards env ctx d)) else 0))"
proof -
  let ?rs = "open_rewards env ctx d"
  from assms have run: "run_tx (accept_queries env ctx newId d) (other d) = Inr d'"
    by (auto simp: acceptAll_def split: if_splits sum.splits)
  then obtain d1 where 1: "run_tx (map (\<lambda>(k, _). accept_query env k) ?rs) (other d) = Inr d1"
    and 2: "run_tx (concat (map (\<lambda>(i, x). detail_queries env ctx (newId i) x)
        (enumerate 0 (reward_details env ctx d)))) d1 = Inr d'"
    by (auto simp: accept_queries_def run_tx_append split: sum.splits)
  note a = accept_run [OF 1] and p = details_pay [OF 2]
  have same: "teras_of d1 u = teras_of (other d) u" "tickets_of d1 u = tickets_of (other d) u" for u
    using a by (simp_all add: teras_of_def tickets_of_def)
  have k: "fst \<circ> (\<lambda>(k, _). (k, \<lambda>r. rw_acceptedAt r = None)) = fst" by auto
  have each: "distinct (map fst ?rs)" "\<forall>(k, r) \<in> set ?rs. \<exists>r0. map_of (t_rewards (other d)) k = Some r0 \<and> rw_acceptedAt r0 = None"
    "\<And>k. map_of (t_rewards d1) k = (if k \<in> fst ` set ?rs then map_option (\<lambda>r. r\<lparr>rw_acceptedAt := Some (env_now env)\<rparr>)
        (map_of (t_rewards (other d)) k) else map_of (t_rewards (other d)) k)"
    using conjunct1 [OF a] unfolding reward_tab.updated_each_def map_map k by (auto simp: image_image case_prod_unfold)
  have rw: "t_rewards d' = t_rewards d1" using p by blast
  have "\<exists>r0. map_of (t_rewards (other d)) k = Some r0 \<and> rw_acceptedAt r0 = None \<and>
       map_of (t_rewards d') k = Some (r0\<lparr>rw_acceptedAt := Some (env_now env)\<rparr>)" if "(k, r) \<in> set ?rs" for k r
  proof -
    from that each(2) obtain r0 where "map_of (t_rewards (other d)) k = Some r0" "rw_acceptedAt r0 = None" by blast
    moreover have "k \<in> fst ` set ?rs" using that by force
    ultimately show ?thesis by (simp add: rw each(3))
  qed
  then have "\<forall>(k, r) \<in> set ?rs. \<exists>r0. map_of (t_rewards (other d)) k = Some r0 \<and> rw_acceptedAt r0 = None \<and>
       map_of (t_rewards d') k = Some (r0\<lparr>rw_acceptedAt := Some (env_now env)\<rparr>)" by blast
  moreover have "teras_of d' u = teras_of (other d) u + (if ctx_userId ctx = Some u
       then sum_list (map (\<lambda>(_, r). if rw_itemType r = R_TERAS then rw_amount r else 0) ?rs) else 0)"
    "tickets_of d' u = tickets_of (other d) u + (if ctx_userId ctx = Some u
       then sum_list (map (\<lambda>(_, r). if rw_itemType r = R_TICKET then rw_amount r else 0) ?rs) else 0)" for u
    using p [of u] unfolding sum_gain same by blast+
  ultimately show ?thesis using each(1) by blast
qed

definition sample_reward :: "RewardItemType \<Rightarrow> reward_category \<Rightarrow> int \<Rightarrow> reward_row" where
  "sample_reward t c n = \<lparr>rw_userId = ''u1'', rw_title = ''Quest'', rw_itemType = t, rw_category = c,
     rw_subCategory = Some ''PLAIN'', rw_amount = n, rw_availableUntil = None, rw_acceptedAt = None\<rparr>"

definition sample_rewards :: db where
  "sample_rewards = sample_db\<lparr>t_rewards :=
     [(''r1'', sample_reward R_TERAS TERAS_CATEGORY 100), (''r2'', sample_reward R_TICKET TICKET_CATEGORY 2),
      (''r3'', sample_reward R_ARCADE_PART (PartCategory UPPER_CABINET) 2),
      (''r4'', sample_reward R_TERAS TERAS_CATEGORY 50)]\<rparr>"

definition sample_accepted :: "(reward_key \<times> int) list res \<times> db" where
  "sample_accepted = acceptAll sample_env sample_ctx (\<lambda>i j. ''np'' @ replicate j CHR ''x'') (\<lambda>d. d) sample_rewards"

lemma rewards_accepted_once_witness:
  "teras_of (snd sample_accepted) ''u1'' = teras_of sample_rewards ''u1'' + 150 \<and>
   tickets_of (snd sample_accepted) ''u1'' = tickets_of sample_rewards ''u1'' + 2"
proof -
  have "case fst sample_accepted of Inl _ \<Rightarrow> False | Inr _ \<Rightarrow> True" by code_simp
  then obtain details where "fst sample_accepted = Inr details" by (auto split: sum.splits)
  then have run: "acceptAll sample_env sample_ctx (\<lambda>i j. ''np'' @ replicate j CHR ''x'') (\<lambda>d. d) sample_rewards =
      (Inr details, snd sample_accepted)" unfolding sample_accepted_def by (metis prod.collapse)
  have "sum_list (map (\<lambda>(_, r). if rw_itemType r = R_TERAS then rw_amount r else 0)
      (open_rewards sample_env sample_ctx sample_rewards)) = 150"
    and "sum_list (map (\<lambda>(_, r). if rw_itemType r = R_TICKET then rw_amount r else 0)
      (open_rewards sample_env sample_ctx sample_rewards)) = 2" by code_simp+
  with rewards_accepted_once [OF run] show ?thesis by (simp add: sample_ctx_def)
qed

end
