(* ===== verification/Tournament_Props.thy ===== *)
theory Tournament_Props
  imports Tournament_Manager Reward_Props
begin

text \<open>
  The prize money of a tournament is never overdrawn, entering costs exactly the fee, and a prize
  that was sent is not sent again.
\<close>

section \<open>The prize money\<close>

text \<open>The ranks of a ranking are 1, 2, 3 and so on.\<close>

lemma filtered_ranks: "map ri_rank (filtered_rankings key r d) = map int [1..<Suc (length (filtered_rankings key r d))]"
proof -
  have "map ri_rank (map (\<lambda>(i, s, u). \<lparr>ri_userId = u, ri_rank = int i, ri_score = separated r s\<rparr>) (enumerate n xs)) =
      map int [n..<n + length xs]" for n and xs :: "(int \<times> user_id) list"
    by (induction xs arbitrary: n) (auto simp: upt_rec)
  from this [of 1] show ?thesis unfolding filtered_rankings_def Let_def by simp
qed

lemma top_ranks:
  assumes "getRanking ctx key r d = Inr rankings"
  shows "map ri_rank (take n (topList rankings)) = map int [1..<Suc (length (take n (topList rankings)))]"
proof -
  let ?fr = "filtered_rankings key r d"
  from assms have "take n (topList rankings) = take (min n 99) ?fr"
    by (auto simp: getRanking_def Let_def split: if_splits)
  then show ?thesis
    by (simp add: take_map filtered_ranks flip: take_map) (simp add: take_map filtered_ranks min_def)
qed

text \<open>The share of a rank, nothing below the last prize rank.\<close>

definition share :: "prize_calc_setting \<Rightarrow> int \<Rightarrow> decimal" where
  "share setting rank =
     (if minimumRankForPrize setting \<ge> rank then (case find_ratio setting rank of None \<Rightarrow> 0 | Some x \<Rightarrow> x) else 0)"

lemma setting_facts:
  assumes "findPrizeCalcSetting n = Inr setting"
  shows "\<forall>r. 0 \<le> share setting r" and "sum_list (map (share setting \<circ> int) [1..<21]) = 1"
    and "max (minimumRankForPrize setting) PAID_TOURNAMENT_RESULT_RECORD_MINIMUM_RANK = 20"
proof -
  from assms obtain k where k: "(k, setting) \<in> set prizeCalcSettingsMap"
    by (auto simp: findPrizeCalcSetting_def split: option.splits dest: find_in)
  have nonneg: "list_all (\<lambda>(_, s). list_all (\<lambda>v. 0 \<le> pr_ratio v) (prizeRatios s)) prizeCalcSettingsMap"
    by (simp add: prizeCalcSettingsMap_def prize_ratios_def)
  have "\<forall>v \<in> set (prizeRatios setting). 0 \<le> pr_ratio v" using k nonneg unfolding list_all_iff by blast
  then show "\<forall>r. 0 \<le> share setting r"
    by (auto simp: share_def find_ratio_def split: option.splits dest: find_in)
  have "list_all (\<lambda>(_, s). sum_list (map (share s \<circ> int) [1..<21]) = 1) prizeCalcSettingsMap" by code_simp
  with k show "sum_list (map (share setting \<circ> int) [1..<21]) = 1" unfolding list_all_iff by blast
  have "list_all (\<lambda>(_, s). max (minimumRankForPrize s) PAID_TOURNAMENT_RESULT_RECORD_MINIMUM_RANK = 20) prizeCalcSettingsMap"
    by code_simp
  with k show "max (minimumRankForPrize setting) PAID_TOURNAMENT_RESULT_RECORD_MINIMUM_RANK = 20"
    unfolding list_all_iff by blast
qed

lemma calcPrize_within:
  assumes "calcPrize d u S r setting = Inr p" and "0 \<le> S" and "find_ratio setting r = Some x" and "0 \<le> x"
  shows "prizeTeras p \<le> S * x"
proof (cases "S * x < 10")
  case True
  with assms have "prizeTeras p = 0" by (auto simp: calcPrize_def no_prize_def)
  with assms show ?thesis by simp
next
  case False
  then have f: "floorDecimalToIntegerValue (S * x) 1 = Inr (of_int (10 * \<lfloor>S * x / 10\<rfloor>))"
    by (intro floorDecimal_tens) simp
  with assms(1,3) False have "prizeTeras p = of_int (10 * \<lfloor>S * x / 10\<rfloor>)"
    by (auto simp: calcPrize_def Let_def split: if_splits)
  moreover have "of_int \<lfloor>S * x / 10\<rfloor> \<le> S * x / 10" by (rule of_int_floor_le)
  ultimately show ?thesis by simp
qed

lemma ranked_prize_within:
  assumes "ranked_prize d S setting r = Inr p" and "0 \<le> S" and "\<forall>r. 0 \<le> share setting r"
  shows "prizeTeras p \<le> S * share setting (ri_rank r)"
proof (cases "minimumRankForPrize setting \<ge> ri_rank r")
  case True
  with assms(1) have c: "calcPrize d (ri_userId r) S (ri_rank r) setting = Inr p" by (simp add: ranked_prize_def)
  then obtain x where x: "find_ratio setting (ri_rank r) = Some x" by (auto simp: calcPrize_def split: option.splits)
  with True have "share setting (ri_rank r) = x" by (simp add: share_def)
  with calcPrize_within [OF c assms(2) x] assms(3) show ?thesis by metis
next
  case False
  with assms show ?thesis by (auto simp: ranked_prize_def no_prize_def)
qed

lemma rows_within:
  assumes "map_res (\<lambda>r. bind_res (ranked_prize d S setting r) (\<lambda>p. Inr (result_row env t r p))) rs = Inr rows"
    and "0 \<le> S" and "\<forall>r. 0 \<le> share setting r"
  shows "sum_list (map tr_prizeTerasAmount rows) \<le> S * sum_list (map (share setting \<circ> ri_rank) rs)"
  using assms(1)
proof (induction rs arbitrary: rows)
  case (Cons r rs)
  from Cons.prems obtain p rows' where p: "ranked_prize d S setting r = Inr p"
    and rows': "map_res (\<lambda>r. bind_res (ranked_prize d S setting r) (\<lambda>p. Inr (result_row env t r p))) rs = Inr rows'"
    and rows: "rows = result_row env t r p # rows'"
    by (cases "ranked_prize d S setting r") (auto split: sum.splits)
  from ranked_prize_within [OF p assms(2,3)] Cons.IH [OF rows'] show ?case
    by (simp add: rows result_row_def distrib_left)
qed simp

lemma sum_shares:
  assumes "\<forall>r. 0 \<le> (f r :: rat)" and "n \<le> m"
  shows "sum_list (map f [1..<Suc n]) \<le> sum_list (map f [1..<Suc m])"
proof -
  from assms(2) obtain k where m: "m = n + k" by (auto simp: le_iff_add)
  have "[1..<Suc m] = [1..<Suc n] @ [Suc n..<Suc m]" using upt_add_eq_append [of 1 "Suc n" k] by (simp add: m)
  moreover have "0 \<le> sum_list (map f [Suc n..<Suc m])" using assms(1) by (intro sum_list_nonneg) auto
  ultimately show ?thesis by simp
qed

text \<open>
  What a row holds beside the Teras: a hundred tickets for each Teras, and the same Teras in USDC and in Rupiah where
  they reach the least amount that can be sent.
\<close>

definition ticket_amount :: "tournament_result_row \<Rightarrow> int" where
  "ticket_amount r = (case tr_prizeTicketAmount r of None \<Rightarrow> 0 | Some n \<Rightarrow> n)"

definition same_prize :: "tournament_result_row \<Rightarrow> bool" where
  "same_prize r \<longleftrightarrow> of_int (ticket_amount r) = 100 * tr_prizeTerasAmount r \<and>
     (\<forall>x. tr_prizeUsdcAmount r = Some x \<longrightarrow> x = tr_prizeTerasAmount r / 1000) \<and>
     (\<forall>x. tr_prizeIdrAmount r = Some x \<longrightarrow> x = tr_prizeTerasAmount r * 16)"

lemma ranked_prize_same:
  assumes "ranked_prize d S setting r = Inr p"
  shows "same_prize (result_row env t r p)"
proof -
  have n: "same_prize (result_row env t r (no_prize x))" if "x = None \<or> x = Some 0" for x
    using that by (auto simp: same_prize_def ticket_amount_def result_row_def no_prize_def)
  show ?thesis
  proof (cases "minimumRankForPrize setting \<ge> ri_rank r")
    case True
    with assms have c: "calcPrize d (ri_userId r) S (ri_rank r) setting = Inr p" by (simp add: ranked_prize_def)
    then obtain x where x: "find_ratio setting (ri_rank r) = Some x" by (auto simp: calcPrize_def split: option.splits)
    show ?thesis
    proof (cases "S * x < 10")
      case True
      with c x n [of None] show ?thesis by (simp add: calcPrize_def)
    next
      case False
      then have "floorDecimalToIntegerValue (S * x) 1 = Inr (of_int (10 * \<lfloor>S * x / 10\<rfloor>))"
        by (intro floorDecimal_tens) simp
      with c x False show ?thesis
        by (auto simp: calcPrize_def Let_def same_prize_def ticket_amount_def result_row_def TICKET_PER_TERAS_RATE_def
            TERAS_TO_USD_RATE_def TERAS_TO_IDR_RATE_def split: if_splits)
    qed
  next
    case False
    with assms n [of "Some 0"] show ?thesis by (auto simp: ranked_prize_def)
  qed
qed

lemma rows_same:
  assumes "map_res (\<lambda>r. bind_res (ranked_prize d S setting r) (\<lambda>p. Inr (result_row env t r p))) rs = Inr rows" and "row \<in> set rows"
  shows "same_prize row"
  using map_res_set [OF assms] by (auto simp: bind_res_Inr_iff ranked_prize_same)

text \<open>
  (C29) The Teras recorded as prizes for a tournament together never exceed its prize money: the pool's part
  of the entry fees plus the sponsored amount.  Each row shows the same prize also in USDC and Rupiah, and in tickets: a hundred
  tickets for each Teras, although a ticket of an entry fee counts as a hundred Teras, so that the tickets recorded are a hundred
  times the Teras and are not bounded by the prize money.
\<close>

theorem prize_pool_never_exceeded:
  assumes "result_rows env ctx tournamentId t d = Inr rows" and "0 \<le> tn_entryFeeTickets t"
    and "\<forall>x. tn_prizeTerasAmount t = Some x \<longrightarrow> 0 \<le> x"
  shows "\<exists>setting. findPrizeCalcSetting (entry_count d tournamentId) = Inr setting \<and>
    sum_list (map tr_prizeTerasAmount rows) \<le>
      calcPrizeTerasSummary (entry_count d tournamentId) (tn_entryFeeTickets t) setting (tn_prizeTerasAmount t) \<and>
    (\<forall>row \<in> set rows. same_prize row) \<and>
    of_int (sum_list (map ticket_amount rows)) = 100 * sum_list (map tr_prizeTerasAmount rows)"
proof -
  let ?n = "entry_count d tournamentId"
  from assms(1) obtain rankings e p where rk: "getRanking_tournament env ctx tournamentId d = Inr (rankings, e, p)"
    by (auto simp: result_rows_def bind_res_Inr_iff)
  with assms(1) obtain setting where s: "findPrizeCalcSetting ?n = Inr setting"
    by (auto simp: result_rows_def bind_res_Inr_iff Let_def)
  define S where "S = calcPrizeTerasSummary ?n (tn_entryFeeTickets t) setting (tn_prizeTerasAmount t)"
  note f = setting_facts [OF s]
  have rows: "map_res (\<lambda>r. bind_res (ranked_prize d S setting r) (\<lambda>p. Inr (result_row env tournamentId r p)))
      (take 20 (topList rankings)) = Inr rows"
    using assms(1) f(3) by (simp add: result_rows_def rk s S_def Let_def)
  have ratio: "list_all (\<lambda>(_, s). 0 \<le> prizePoolRatio s) prizeCalcSettingsMap" by (simp add: prizeCalcSettingsMap_def)
  from s obtain k where "(k, setting) \<in> set prizeCalcSettingsMap"
    by (auto simp: findPrizeCalcSetting_def split: option.splits dest: find_in)
  with ratio have "0 \<le> prizePoolRatio setting" unfolding list_all_iff by blast
  moreover have "0 \<le> ?n" by (simp add: entry_count_def)
  ultimately have S: "0 \<le> S" using assms(2,3)
    by (auto simp: S_def calcPrizeTerasSummary_def TICKET_PER_TERAS_RATE_def split: option.splits)
  let ?top = "take 20 (topList rankings)"
  from rk obtain key where "getRanking ctx key False d = Inr rankings"
    by (auto simp: getRanking_tournament_def bind_res_Inr_iff Let_def split: option.splits if_splits)
  from top_ranks [OF this, of 20] have ranks: "map ri_rank ?top = map int [1..<Suc (length ?top)]" .
  have "sum_list (map (share setting \<circ> ri_rank) ?top) = sum_list (map (share setting \<circ> int) [1..<Suc (length ?top)])"
    unfolding map_map [symmetric] ranks ..
  also have "\<dots> \<le> sum_list (map (share setting \<circ> int) [1..<Suc 20])"
    by (rule sum_shares) (use f(1) in simp_all)
  also have "\<dots> = 1" using f(2) by simp
  finally have "S * sum_list (map (share setting \<circ> ri_rank) ?top) \<le> S * 1" using S by (intro mult_left_mono)
  then have "sum_list (map tr_prizeTerasAmount rows) \<le> S" using rows_within [OF rows S f(1)] by linarith
  moreover have same: "\<forall>row \<in> set rows. same_prize row" using rows_same [OF rows] by blast
  then have "of_int (sum_list (map ticket_amount rows)) = 100 * sum_list (map tr_prizeTerasAmount rows)"
    by (induction rows) (simp_all add: same_prize_def distrib_left)
  ultimately show ?thesis using s same by (auto simp: S_def)
qed

definition sample_entry :: tournament_entry_row where
  "sample_entry = \<lparr>te_id = ''e1'', te_createdAt = 1, te_usedTickets = 3, te_countryFromIp = None,
     te_prizeClaimed = False, te_walletAddress = None, te_phoneNumber = None, te_prizeSendStatus = None\<rparr>"

definition sample_tournament :: tournament_row where
  "sample_tournament = \<lparr>tn_entryFeeTickets = 3, tn_title = ''Cup'', tn_prizeTerasAmount = Some 1000, tn_startAt = 0,
     tn_endAt = 100, tn_resultRecorded = False, tn_prizeTerasOnly = False, tn_prizeSent = False, tn_gameId = None,
     tn_type = T_SPARK_COUNT\<rparr>"

definition sample_cup :: db where
  "sample_cup = sample_db\<lparr>t_tournaments := [(''t1'', sample_tournament)],
     t_tournamentEntries := [((''t1'', ''u1''), sample_entry), ((''t1'', ''u2''), sample_entry)],
     t_scores := [((''paid_t1'', ''u1''), 3 * 2 ^ 23 + 50), ((''paid_t1'', ''u2''), 7 * 2 ^ 23)]\<rparr>"

theorem prize_pool_never_exceeded_witness:
  "\<exists>rows. result_rows sample_env sample_ctx ''t1'' sample_tournament sample_cup = Inr rows \<and>
     sum_list (map tr_prizeTerasAmount rows) \<le> 1480 \<and>
     of_int (sum_list (map ticket_amount rows)) = 100 * sum_list (map tr_prizeTerasAmount rows)"
proof -
  have "case result_rows sample_env sample_ctx ''t1'' sample_tournament sample_cup of Inl _ \<Rightarrow> False | Inr _ \<Rightarrow> True"
    by code_simp
  then obtain rows where rows: "result_rows sample_env sample_ctx ''t1'' sample_tournament sample_cup = Inr rows"
    by (auto split: sum.splits)
  have "case findPrizeCalcSetting (entry_count sample_cup ''t1'') of Inl _ \<Rightarrow> False
      | Inr s \<Rightarrow> calcPrizeTerasSummary (entry_count sample_cup ''t1'') 3 s (Some 1000) = 1480" by code_simp
  with prize_pool_never_exceeded [OF rows] rows show ?thesis
    by (auto simp: sample_tournament_def)
qed

text \<open>
  The six tickets that two players paid become more than a hundred thousand tickets of prizes, and a winner who has
  named neither a wallet nor a telephone is sent both the Teras and the tickets.
\<close>

lemma more_tickets_than_were_paid:
  "case result_rows sample_env sample_ctx ''t1'' sample_tournament sample_cup of
     Inl _ \<Rightarrow> False
   | Inr rows \<Rightarrow> entry_count sample_cup ''t1'' * tn_entryFeeTickets sample_tournament = 6 \<and>
       100000 < sum_list (map ticket_amount rows)"
  by code_simp

lemma teras_and_tickets_sent:
  assumes "retried_status p = P_UNPROCESSED" and "\<not> truthy (pt_walletAddress p)" and "\<not> truthy (pt_phoneNumber p)"
    and "send_prize env spn newId tournamentId title p d = (Inr ok, d')" and "0 < pt_teras p" and "pt_ticket p = Some n" and "0 < n"
  shows "t_rewards d' = t_rewards d @
    [(newId 0, prize_reward (pt_userId p) (title @ '' rank in Prize'') R_TERAS TERAS_CATEGORY \<lfloor>pt_teras p\<rfloor>),
     (newId 1, prize_reward (pt_userId p) ''Tournament Prize'' R_TICKET TICKET_CATEGORY n)]"
  using assms
  by (auto simp: send_prize_def send_rewards_def sendTeras_def sendTickets_def in_tx_def set_prize_status_def
      reward_tab.create_Inr tournamentEntry_tab.update_Inr put_defs split: sum.splits prod.splits)

section \<open>Entering\<close>

lemma use_tickets_run:
  assumes "use_tickets u fee d = Inr d'"
  shows "\<exists>r. map_of (t_users d) u = Some r \<and> fee \<le> tickets r"
    and "\<forall>v. tickets_of d' v = tickets_of d v - (if v = u then fee else 0)"
    and "\<forall>v. teras_of d' v = teras_of d v" and "0 \<le> tickets_of d' u"
    and "t_tournamentEntries d' = t_tournamentEntries d" and "t_rewards d' = t_rewards d"
    and "t_ticketTransactions d' = t_ticketTransactions d" and "t_tournaments d' = t_tournaments d"
proof -
  note q = assms [unfolded use_tickets_def]
  from q obtain r where r: "map_of (t_users d) u = Some r" "0 \<le> tickets r - fee"
    and d': "d' = put_users (apply_row (\<lambda>r. r\<lparr>tickets := tickets r - fee\<rparr>) u (t_users d)) d"
    by (auto simp: user_tab.update_Inr check_user_def violated_def split: if_splits)
  from r show "\<exists>r. map_of (t_users d) u = Some r \<and> fee \<le> tickets r" by auto
  show "\<forall>v. tickets_of d' v = tickets_of d v - (if v = u then fee else 0)" "\<forall>v. teras_of d' v = teras_of d v"
    "0 \<le> tickets_of d' u"
    using user_tab.update_find(1) [OF q] r by (auto simp: tickets_of_def teras_of_def split: option.splits)
  show "t_tournamentEntries d' = t_tournamentEntries d" "t_rewards d' = t_rewards d"
    "t_ticketTransactions d' = t_ticketTransactions d" "t_tournaments d' = t_tournaments d"
    by (simp_all add: d' put_defs)
qed

definition entered ::
  "env \<Rightarrow> ctx \<Rightarrow> (nat \<Rightarrow> string) \<Rightarrow> user_id \<Rightarrow> int \<Rightarrow> string \<Rightarrow> tournament_row \<Rightarrow> db \<Rightarrow> db \<Rightarrow> bool" where
  "entered env ctx newId u held t tr d d' \<longleftrightarrow>
     map_of (t_tournamentEntries d) (t, u) = None \<and>
     t_tournamentEntries d' = t_tournamentEntries d @ [((t, u), new_entry env ctx (newId 0) (tn_entryFeeTickets tr))] \<and>
     (\<forall>v. tickets_of d' v = tickets_of d v - (if v = u then tn_entryFeeTickets tr else 0)) \<and> 0 \<le> tickets_of d' u \<and>
     (\<forall>v. teras_of d' v = teras_of d v) \<and>
     t_rewards d' = t_rewards d @ [(newId 1, participation_reward u tr)] \<and>
     t_ticketTransactions d' = t_ticketTransactions d @
       (if tn_entryFeeTickets tr > 0
        then [(newId 2, ticket_transaction u (- tn_entryFeeTickets tr) (held - tn_entryFeeTickets tr) ''ENTER_TOURNAMENT''
               [(''tournamentId'', Some t)])] else [])"

lemma enter_tx:
  assumes "run_tx (enter_queries env ctx newId u held t tr) d = Inr d'"
  shows "entered env ctx newId u held t tr d d'"
proof -
  let ?fee = "tn_entryFeeTickets tr"
  from assms obtain d1 d2 d3 where 1: "create_tournamentEntry (t, u) (new_entry env ctx (newId 0) ?fee) d = Inr d1"
    and 2: "use_tickets u ?fee d1 = Inr d2" and 3: "create_reward (newId 1) (participation_reward u tr) d2 = Inr d3"
    and 4: "(if ?fee > 0 then writeEnterPaidTournamentTransaction u (newId 2) (held - ?fee) ?fee t d3 = Inr d'
             else d' = d3)"
    by (auto simp: enter_queries_def split: sum.splits if_splits)
  note e = tournamentEntry_tab.create_Inr [THEN iffD1, OF 1] and r = reward_tab.create_Inr [THEN iffD1, OF 3]
  have d4: "t_tournamentEntries d' = t_tournamentEntries d3 \<and> t_users d' = t_users d3 \<and> t_rewards d' = t_rewards d3 \<and>
      t_ticketTransactions d' = t_ticketTransactions d3 @ (if ?fee > 0
        then [(newId 2, ticket_transaction u (- ?fee) (held - ?fee) ''ENTER_TOURNAMENT'' [(''tournamentId'', Some t)])] else [])"
    using 4 by (auto simp: writeEnterPaidTournamentTransaction_def ticketTransaction_tab.create_Inr put_defs split: if_splits)
  have d1: "t_users d1 = t_users d" "t_rewards d1 = t_rewards d" "t_ticketTransactions d1 = t_ticketTransactions d"
    "t_tournamentEntries d1 = t_tournamentEntries d @ [((t, u), new_entry env ctx (newId 0) ?fee)]"
    using e by (auto simp: put_defs)
  have d3: "t_users d3 = t_users d2" "t_tournamentEntries d3 = t_tournamentEntries d2"
    "t_ticketTransactions d3 = t_ticketTransactions d2" "t_rewards d3 = t_rewards d2 @ [(newId 1, participation_reward u tr)]"
    using r by (auto simp: put_defs)
  note u = use_tickets_run [OF 2]
  have same: "tickets_of d' v = tickets_of d2 v" "teras_of d' v = teras_of d2 v" "tickets_of d1 v = tickets_of d v"
    "teras_of d1 v = teras_of d v" for v
    using d4 d3(1) d1(1) by (simp_all add: tickets_of_def teras_of_def)
  have "\<forall>v. tickets_of d' v = tickets_of d v - (if v = u then ?fee else 0)" "\<forall>v. teras_of d' v = teras_of d v"
    "0 \<le> tickets_of d' u"
    using u(2-4) by (simp_all add: same)
  moreover have "t_tournamentEntries d' = t_tournamentEntries d @ [((t, u), new_entry env ctx (newId 0) ?fee)]"
    "t_rewards d' = t_rewards d @ [(newId 1, participation_reward u tr)]"
    using d4 d3 u(5,6) d1 by simp_all
  moreover have "t_ticketTransactions d' = t_ticketTransactions d @ (if ?fee > 0
      then [(newId 2, ticket_transaction u (- ?fee) (held - ?fee) ''ENTER_TOURNAMENT'' [(''tournamentId'', Some t)])] else [])"
    using d4 d3(3) u(7) d1(3) by metis
  moreover have "map_of (t_tournamentEntries d) (t, u) = None" using e by blast
  ultimately show ?thesis unfolding entered_def by blast
qed

text \<open>
  A user who enters a running tournament was not entered before, pays exactly the entry fee in
  tickets and keeps a balance of at least zero, gets one open reward of 100 Teras and one line in the
  ticket history; no other balance changes.
\<close>

lemma enter_takes_the_fee:
  assumes "enter env ctx newId t other d = (Inr entry, d')"
  shows "\<exists>u tr user e. ctx_userId ctx = Some u \<and> map_of (t_tournaments d) t = Some tr \<and> map_of (t_users d) u = Some user \<and>
    tn_startAt tr \<le> env_now env \<and> env_now env \<le> tn_endAt tr \<and>
    entered env ctx newId u (tickets user) t tr (other d) e \<and> d' = call (QuestCheckAndUpdate u) e"
proof -
  from assms obtain tr where tr: "map_of (t_tournaments d) t = Some tr" "tn_startAt tr \<le> env_now env" "env_now env \<le> tn_endAt tr"
    by (auto simp: enter_def split: option.splits if_splits)
  with assms obtain u where u: "ctx_userId ctx = Some u" by (auto simp: enter_def split: option.splits)
  with assms tr obtain user where user: "map_of (t_users d) u = Some user"
    by (auto simp: enter_def split: option.splits if_splits)
  with assms tr u obtain e where "run_tx (enter_queries env ctx newId u (tickets user) t tr) (other d) = Inr e"
    and "d' = call (QuestCheckAndUpdate u) e"
    by (auto simp: enter_def split: sum.splits if_splits)
  with enter_tx tr u user show ?thesis by blast
qed

definition sample_enter :: "tournament_entry_row res \<times> db" where
  "sample_enter = enter sample_env sample_ctx (\<lambda>i. ''id'' @ replicate i CHR ''x'') ''t1'' (\<lambda>d. d) sample_db"

lemma enter_takes_the_fee_witness: "tickets_of (snd sample_enter) ''u1'' = tickets_of sample_db ''u1'' - 3"
proof -
  have "case fst sample_enter of Inl _ \<Rightarrow> False | Inr _ \<Rightarrow> True" by code_simp
  then obtain entry where "fst sample_enter = Inr entry" by (auto split: sum.splits)
  then have run: "enter sample_env sample_ctx (\<lambda>i. ''id'' @ replicate i CHR ''x'') ''t1'' (\<lambda>d. d) sample_db =
      (Inr entry, snd sample_enter)" unfolding sample_enter_def by (metis prod.collapse)
  have fee: "map_of (t_tournaments sample_db) ''t1'' = Some tr \<Longrightarrow> tn_entryFeeTickets tr = 3" for tr
    by (auto simp: sample_db_def)
  have "tickets_of (call c e) v = tickets_of e v" for c e v by (simp add: tickets_of_def call_def)
  with enter_takes_the_fee [OF run] fee show ?thesis by (auto simp: entered_def sample_ctx_def)
qed

section \<open>Sending the prizes\<close>

text \<open>The rewards and withdrawals of a user.\<close>

definition paid_to :: "user_id \<Rightarrow> db \<Rightarrow> (string \<times> reward_row) list \<times> (string \<times> currency_withdrawal_row) list" where
  "paid_to u d = (filter (\<lambda>(_, r). rw_userId r = u) (t_rewards d),
     filter (\<lambda>(_, r). cw_userId r = Some u) (t_currencyWithdrawals d))"

text \<open>What is sent to one winner is nothing to another one, and nothing at all to one whose prize was sent.\<close>

lemma in_tx_db: "in_tx qs x d = (r, d') \<Longrightarrow> d' = d \<or> run_tx qs d = Inr d'"
  by (auto simp: in_tx_def split: sum.splits)

lemma other_paid:
  "in_tx [create_reward i (prize_reward v title ty c n)] x d = (r, d') \<Longrightarrow> v \<noteq> u \<Longrightarrow> paid_to u d' = paid_to u d"
  "sendTeras i t title v a d = (r', d') \<Longrightarrow> v \<noteq> u \<Longrightarrow> paid_to u d' = paid_to u d"
  "sendTickets i v n d = (r', d') \<Longrightarrow> v \<noteq> u \<Longrightarrow> paid_to u d' = paid_to u d"
  "sendCrypt env i t v w a d = (r', d') \<Longrightarrow> v \<noteq> u \<Longrightarrow> paid_to u d' = paid_to u d"
  by (auto simp: sendTeras_def sendTickets_def sendCrypt_def set_prize_status_def paid_to_def prize_reward_def put_defs
      reward_tab.create_Inr currencyWithdrawal_tab.create_Inr tournamentEntry_tab.update_Inr
      dest!: in_tx_db split: sum.splits)

lemma spn_paid: "sendSpnPay t v answer d = (r, d') \<Longrightarrow> paid_to u d' = paid_to u d"
  by (auto simp: sendSpnPay_def set_prize_status_def paid_to_def put_defs tournamentEntry_tab.update_Inr
      dest!: in_tx_db split: sum.splits prod.splits)

lemma send_rewards_paid:
  assumes "send_rewards ids t title p d = (r, d')" and "pt_userId p \<noteq> u" shows "paid_to u d' = paid_to u d"
  using assms other_paid(2,3) unfolding send_rewards_def
  by (auto split: prod.splits sum.splits option.splits if_splits)

lemma send_prize_paid:
  assumes "send_prize env spn ids t title p d = (r, d')"
    and "pt_userId p \<noteq> u \<or> pt_status p \<in> {P_CONFIRMED, P_PENDING}"
  shows "paid_to u d' = paid_to u d"
proof (cases "retried_status p = P_UNPROCESSED")
  case True
  then have u: "pt_userId p \<noteq> u" using assms(2) by (auto simp: retried_status_def split: if_splits)
  from assms(1) True consider "d' = d" | w x r' where "sendCrypt env (ids 0) t (pt_userId p) w x d = (r', d')"
    | "sendSpnPay t (pt_userId p) (spn p) d = (r, d')" | "send_rewards ids t title p d = (r, d')"
    by (auto simp: send_prize_def split: if_splits option.splits prod.splits sum.splits)
  then show ?thesis using u other_paid(4) spn_paid send_rewards_paid by cases metis+
qed (use assms(1) in \<open>simp add: send_prize_def\<close>)

lemma send_prizes_paid:
  assumes "send_prizes env spn ids other t title i ps d = (r, d')" and "\<forall>i x. paid_to u (other i x) = paid_to u x"
    and "\<forall>p \<in> set ps. pt_userId p \<noteq> u \<or> pt_status p \<in> {P_CONFIRMED, P_PENDING}"
  shows "paid_to u d' = paid_to u d"
  using assms
proof (induction ps arbitrary: i d r d')
  case (Cons p ps)
  obtain r1 d1 where 1: "send_prize env spn (ids i) t title p (other i d) = (r1, d1)" by fastforce
  from send_prize_paid [OF 1, of u] Cons.prems have d1: "paid_to u d1 = paid_to u d" by simp
  obtain r2 d2 where 2: "send_prizes env spn ids other t title (Suc i) ps d1 = (r2, d2)" by fastforce
  from Cons.IH [OF 2] Cons.prems d1 have "paid_to u d2 = paid_to u d" by simp
  with d1 Cons.prems(1) 1 2 show ?case by (auto split: sum.splits)
qed simp

lemma prize_targets_elem:
  assumes "p \<in> set (prize_targets t d)"
  obtains v e r where "((t, v), e) \<in> set (t_tournamentEntries d)" and "p = prize_target_of v e r"
proof -
  from assms obtain x where x: "x \<in> set (t_tournamentEntries d)" and p: "p \<in> set (entry_target t d x)"
    unfolding prize_targets_def by auto
  obtain t' v e where x': "x = ((t', v), e)" by (metis prod.collapse)
  note p = p [unfolded x' entry_target.simps]
  from p have "t' = t" by (cases "t' = t") (simp_all only: if_False list.set empty_iff)
  moreover from p have "\<exists>r. p = prize_target_of v e r"
    by (cases "t' = t"; cases "find (\<lambda>r. tr_userId r = v) (map snd (prize_results t d))") auto
  ultimately show thesis using x x' that by blast
qed

lemma prize_targets_status:
  assumes "p \<in> set (prize_targets t d)" and "distinct (map fst (t_tournamentEntries d))"
    and "map_of (t_tournamentEntries d) (t, pt_userId p) = Some e"
  shows "pt_status p = entry_status e"
  using assms(1)
proof (cases rule: prize_targets_elem)
  case (1 v e' r)
  with map_of_is_SomeI [OF assms(2) 1(1)] assms(3) show ?thesis by (simp add: prize_target_of_def)
qed

text \<open>
  A prize that was sent, or that is being sent, is not sent again: when the prizes of a
  tournament are sent once more, however that run ends, the rewards and the withdrawals of a user
  whose entry is already confirmed or pending stay as they are.
\<close>

lemma sent_prize_stays_sent:
  assumes "prizeSend env spn ids other t d = (r, d')" and "\<forall>i x. paid_to u (other i x) = paid_to u x"
    and "distinct (map fst (t_tournamentEntries d))" and "map_of (t_tournamentEntries d) (t, u) = Some e"
    and "te_prizeSendStatus e \<in> {Some P_CONFIRMED, Some P_PENDING}"
  shows "paid_to u d' = paid_to u d"
proof -
  have sent: "paid_to u x' = paid_to u x" if "in_tx [set_prizeSent t c] () x = (y, x')" for c x y x'
    using in_tx_db [OF that] by (auto simp: set_prizeSent_def tournament_tab.update_Inr put_defs paid_to_def split: sum.splits)
  have "pt_userId p \<noteq> u \<or> pt_status p \<in> {P_CONFIRMED, P_PENDING}" if "p \<in> set (prize_targets t d)" for p
    using prize_targets_status [OF that assms(3)] assms(4,5) by (auto simp: entry_status_def)
  then have "paid_to u d1 = paid_to u d"
    if "send_prizes env spn ids other t title 0 (prize_targets t d) d = (r1, d1)" for title r1 d1
    using send_prizes_paid [OF that assms(2)] by blast
  with assms(1) sent show ?thesis unfolding prizeSend_def
    by (auto split: option.splits if_splits prod.splits sum.splits bool.splits)
qed

definition sample_won :: db where
  "sample_won = sample_db\<lparr>t_tournaments := [(''t1'', sample_tournament)],
     t_tournamentEntries := [((''t1'', ''u1''), sample_entry\<lparr>te_prizeSendStatus := Some P_CONFIRMED\<rparr>),
       ((''t1'', ''u2''), sample_entry)],
     t_tournamentResults := [(''r1'', \<lparr>tr_userId = ''u1'', tr_tournamentId = ''t1'', tr_createdAt = 1, tr_rank = 1, tr_score = 9,
         tr_prizeTerasAmount = 500, tr_prizeTicketAmount = None, tr_prizeUsdcAmount = None, tr_prizeIdrAmount = None\<rparr>),
       (''r2'', \<lparr>tr_userId = ''u2'', tr_tournamentId = ''t1'', tr_createdAt = 1, tr_rank = 2, tr_score = 9,
         tr_prizeTerasAmount = 300, tr_prizeTicketAmount = None, tr_prizeUsdcAmount = None, tr_prizeIdrAmount = None\<rparr>)]\<rparr>"

definition sample_send :: "unit res \<times> db" where
  "sample_send = prizeSend sample_env (\<lambda>_. None) (\<lambda>i j. replicate (Suc i) CHR ''p'' @ replicate j CHR ''q'') (\<lambda>_ d. d) ''t1'' sample_won"

lemma sent_prize_stays_sent_witness:
  "paid_to ''u1'' (snd sample_send) = paid_to ''u1'' sample_won \<and> length (fst (paid_to ''u2'' (snd sample_send))) =
     Suc (length (fst (paid_to ''u2'' sample_won)))"
proof
  have "prizeSend sample_env (\<lambda>_. None) (\<lambda>i j. replicate (Suc i) CHR ''p'' @ replicate j CHR ''q'') (\<lambda>_ d. d) ''t1'' sample_won =
      (fst sample_send, snd sample_send)" unfolding sample_send_def by (metis prod.collapse)
  from sent_prize_stays_sent [OF this]
  show "paid_to ''u1'' (snd sample_send) = paid_to ''u1'' sample_won"
    by (auto simp: sample_won_def)
  show "length (fst (paid_to ''u2'' (snd sample_send))) = Suc (length (fst (paid_to ''u2'' sample_won)))"
    by code_simp
qed

section \<open>A winner that blocks the run\<close>

lemma send_prizes_blocked:
  assumes "p \<in> set ps" and "\<And>ids d. \<exists>e. fst (send_prize env spn ids t title p d) = Inl e"
  shows "\<exists>e. fst (send_prizes env spn ids other t title i ps d) = Inl e"
  using assms(1)
proof (induction ps arbitrary: i d)
  case (Cons q ps)
  show ?case
  proof (cases "q = p")
    case True
    with assms(2) [of "ids i" "other i d"] show ?thesis by (auto split: prod.splits)
  next
    case False
    obtain r d1 where 1: "send_prize env spn (ids i) t title q (other i d) = (r, d1)" by fastforce
    obtain r2 d2 where 2: "send_prizes env spn ids other t title (Suc i) ps d1 = (r2, d2)" by fastforce
    from Cons False have "\<exists>e. fst (send_prizes env spn ids other t title (Suc i) ps d1) = Inl e" by simp
    with 1 2 show ?thesis by (auto split: sum.splits)
  qed
qed simp

lemma entries_counted: "((t, v), e) \<in> set (t_tournamentEntries d) \<Longrightarrow> 0 < entry_count d t"
  by (induction "t_tournamentEntries d") (auto simp: entry_count_def count_rows_def filter_empty_conv intro!: exI)

text \<open>
  A winner who claimed the prize to a wallet and whose prize is worth less than one USDC
  has no USDC amount: every run of the prize sender then ends in an exception, whoever else is to be
  paid, and the tournament is never marked as paid.
\<close>

lemma small_prize_blocks_the_run:
  assumes "map_of (t_tournaments d) t = Some tr" and "\<not> tn_prizeSent tr" and "p \<in> set (prize_targets t d)"
    and "pt_status p = P_UNPROCESSED" and "truthy (pt_walletAddress p)" and "pt_usdc p = None"
  shows "\<exists>e. fst (prizeSend env spn ids other t d) = Inl e"
proof -
  from assms(3) obtain v e where "((t, v), e) \<in> set (t_tournamentEntries d)" by (rule prize_targets_elem)
  then have "0 < entry_count d t" by (rule entries_counted)
  moreover have "\<exists>e. fst (send_prize env spn ids' t title p x) = Inl e" for ids' title x
    using assms(4-6) by (simp add: send_prize_def retried_status_def)
  with assms(3) have "\<exists>e. fst (send_prizes env spn ids other t (tn_title tr) 0 (prize_targets t d) d) = Inl e"
    by (intro send_prizes_blocked)
  ultimately show ?thesis using assms(1,2)
    by (auto simp: prizeSend_def split: prod.splits)
qed

definition sample_small :: db where
  "sample_small = sample_won\<lparr>t_tournamentEntries := [((''t1'', ''u1''), sample_entry\<lparr>te_walletAddress := Some ''0xabc''\<rparr>),
       ((''t1'', ''u2''), sample_entry)]\<rparr>"

lemma small_prize_blocks_the_run_witness:
  "\<exists>e. fst (prizeSend sample_env (\<lambda>_. None) (\<lambda>i j. replicate (Suc i) CHR ''p'' @ replicate j CHR ''q'') (\<lambda>_ d. d)
     ''t1'' sample_small) = Inl e"
proof (rule small_prize_blocks_the_run [where p = "hd (prize_targets ''t1'' sample_small)" and tr = sample_tournament])
  show "map_of (t_tournaments sample_small) ''t1'' = Some sample_tournament"
    by (simp add: sample_small_def sample_won_def)
  show "\<not> tn_prizeSent sample_tournament" by (simp add: sample_tournament_def)
  show "hd (prize_targets ''t1'' sample_small) \<in> set (prize_targets ''t1'' sample_small)"
    by code_simp
  show "pt_status (hd (prize_targets ''t1'' sample_small)) = P_UNPROCESSED"
    "truthy (pt_walletAddress (hd (prize_targets ''t1'' sample_small)))"
    "pt_usdc (hd (prize_targets ''t1'' sample_small)) = None" by code_simp+
qed

end
