(* ===== verification/Boosters.thy ===== *)
theory Boosters
  imports Tournament
begin

text \<open>
  \<open>src/use_cases/booster_item_usecase.ts\<close>: buying a booster for tickets, for one tournament or
  for every play.  A booster that is still active is prolonged.  The tickets the user had when the
  request came are a condition of the payment, so that of two simultaneous purchases one fails.
\<close>

definition MINUTE_MS :: int where
  "MINUTE_MS = 60000"

definition active_end :: "env \<Rightarrow> date option \<Rightarrow> date option" where
  "active_end env x = (case x of None \<Rightarrow> None | Some e \<Rightarrow> if e \<ge> env_now env then Some e else None)"

definition base_end :: "env \<Rightarrow> date option \<Rightarrow> date" where
  "base_end env x = (case active_end env x of None \<Rightarrow> env_now env | Some e \<Rightarrow> e)"

definition validateItem :: "string \<Rightarrow> string \<Rightarrow> db \<Rightarrow> bool" where
  "validateItem itemId tournamentId d \<longleftrightarrow> (tournamentId, itemId) \<in> set (t_boosterAvailables d)"

definition pay_tickets :: "user_id \<Rightarrow> int \<Rightarrow> int \<Rightarrow> query" where
  "pay_tickets u held fee = update_user u (\<lambda>r. tickets r = held) (\<lambda>r. r\<lparr>tickets := tickets r - fee\<rparr>)"

section \<open>For one tournament\<close>

definition tournament_end :: "env \<Rightarrow> booster_master_row \<Rightarrow> date \<Rightarrow> date option \<Rightarrow> date res" where
  "tournament_end env item endAt current =
     (let base = base_end env current in
      if bm_effectiveMinutes item < 0 then
        (if base = endAt
         then Inl (IllegalStateUseCaseError ''Selected booster items that cannot be applied at the same time'')
         else Inr endAt)
      else
        let added = base + bm_effectiveMinutes item * MINUTE_MS in
        if added > endAt
        then Inl (InvalidArgumentUseCaseError ''Booster items cannot be applied beyond the tournament end time.'')
        else Inr added)"

definition tournament_queries ::
  "string \<Rightarrow> user_id \<Rightarrow> int \<Rightarrow> string \<Rightarrow> booster_master_row \<Rightarrow> date \<Rightarrow> query list" where
  "tournament_queries newId u held tournamentId item endAt =
     [upsert_tournamentBooster (u, tournamentId, bm_category item, bm_subCategory item) (\<lambda>_. endAt) endAt,
      pay_tickets u held (bm_feeTickets item),
      writeTournamentBoosterTransaction u newId (held - bm_feeTickets item) item (Some tournamentId)]"

definition applyOnlyTournament ::
  "env \<Rightarrow> string \<Rightarrow> user_id \<Rightarrow> int \<Rightarrow> string \<Rightarrow> booster_master_row \<Rightarrow> string \<Rightarrow> (db \<Rightarrow> db) \<Rightarrow> db \<Rightarrow>
   date res \<times> db" where
  "applyOnlyTournament env newId u held itemId item tournamentId other d =
     (case (map_of (t_tournamentEntries d) (tournamentId, u), map_of (t_tournaments d) tournamentId) of
        (Some _, Some t) \<Rightarrow>
          if \<not> validateItem itemId tournamentId d
          then (Inl (InvalidArgumentUseCaseError ''Items not available.''), d)
          else
            (case tournament_end env item (tn_endAt t)
                    (map_of (t_tournamentBoosters d) (u, tournamentId, bm_category item, bm_subCategory item)) of
               Inl e \<Rightarrow> (Inl e, d)
             | Inr endAt \<Rightarrow>
                 (case run_tx (tournament_queries newId u held tournamentId item endAt) (other d) of
                    Inl e \<Rightarrow> (Inl e, other d) | Inr d' \<Rightarrow> (Inr endAt, d')))
      | _ \<Rightarrow> (Inl (IllegalStateUseCaseError ''tournament entry required''), d))"

section \<open>For every play\<close>

text \<open>An active booster of another ratio excludes a \<open>SPARK_TERAS_UP\<close> booster.\<close>

definition other_ratio :: "env \<Rightarrow> user_id \<Rightarrow> booster_master_row \<Rightarrow> db \<Rightarrow> bool" where
  "other_ratio env u item d \<longleftrightarrow>
     bm_category item = ''SPARK_TERAS_UP'' \<and>
     list_ex (\<lambda>((v, category, subCategory), endAt). v = u \<and> category = bm_category item \<and>
                subCategory \<noteq> bm_subCategory item \<and> endAt \<ge> env_now env) (t_activeBoosters d)"

definition check_tournament :: "string \<Rightarrow> user_id \<Rightarrow> string option \<Rightarrow> date \<Rightarrow> db \<Rightarrow> unit res" where
  "check_tournament itemId u tournamentId added d =
     (if \<not> truthy tournamentId then Inr ()
      else
        (case (map_of (t_tournamentEntries d) (the tournamentId, u), map_of (t_tournaments d) (the tournamentId)) of
           (Some _, Some t) \<Rightarrow>
             if \<not> validateItem itemId (the tournamentId) d
             then Inl (InvalidArgumentUseCaseError ''Items not available.'')
             else if added > tn_endAt t
             then Inl (InvalidArgumentUseCaseError ''Booster items cannot be applied beyond the tournament end time.'')
             else Inr ()
         | _ \<Rightarrow> Inl (IllegalStateUseCaseError ''tournament entry required'')))"

definition all_queries :: "string \<Rightarrow> user_id \<Rightarrow> int \<Rightarrow> booster_master_row \<Rightarrow> date \<Rightarrow> query list" where
  "all_queries newId u held item endAt =
     [upsert_activeBooster (u, bm_category item, bm_subCategory item) (\<lambda>_. endAt) endAt,
      pay_tickets u held (bm_feeTickets item),
      writeTournamentBoosterTransaction u newId (held - bm_feeTickets item) item None]"

definition applyAll ::
  "env \<Rightarrow> string \<Rightarrow> user_id \<Rightarrow> int \<Rightarrow> string \<Rightarrow> booster_master_row \<Rightarrow> string option \<Rightarrow> (db \<Rightarrow> db) \<Rightarrow> db \<Rightarrow>
   date res \<times> db" where
  "applyAll env newId u held itemId item tournamentId other d =
     (let added = base_end env (map_of (t_activeBoosters d) (u, bm_category item, bm_subCategory item)) +
                    bm_effectiveMinutes item * MINUTE_MS in
      if other_ratio env u item d
      then (Inl (IllegalStateUseCaseError ''Selected booster items that cannot be applied at the same time''), d)
      else
        (case check_tournament itemId u tournamentId added d of
           Inl e \<Rightarrow> (Inl e, d)
         | Inr _ \<Rightarrow>
             (case run_tx (all_queries newId u held item added) (other d) of
                Inl e \<Rightarrow> (Inl e, other d) | Inr d' \<Rightarrow> (Inr added, d'))))"

section \<open>Buying\<close>

definition apply_booster ::
  "env \<Rightarrow> ctx \<Rightarrow> string \<Rightarrow> string \<Rightarrow> string option \<Rightarrow> (db \<Rightarrow> db) \<Rightarrow> db \<Rightarrow> date res \<times> db" where
  "apply_booster env ctx newId itemId tournamentId other d =
     (case map_of (t_boosterMasters d) itemId of
        None \<Rightarrow> (Inl (InvalidArgumentUseCaseError ''unknown booster item''), d)
      | Some item \<Rightarrow>
      (case ctx_userId ctx of
         None \<Rightarrow> (Inl (JsError ''PrismaClientValidationError''), d)
       | Some u \<Rightarrow>
      (case map_of (t_users d) u of
         None \<Rightarrow> (Inl (PrismaKnownRequestError ''P2025''), d)
       | Some user \<Rightarrow>
      if tickets user < bm_feeTickets item
      then (Inl (IllegalStateUseCaseError ''insufficient ticket''), d)
      else if bm_requireTournament item then
        (if \<not> truthy tournamentId
         then (Inl (InvalidArgumentUseCaseError ''this booster item require tournamentId''), d)
         else applyOnlyTournament env newId u (tickets user) itemId item (the tournamentId) other d)
      else applyAll env newId u (tickets user) itemId item tournamentId other d)))"

end
