(* ===== verification/Booster_Props.thy ===== *)
theory Booster_Props
  imports Boosters Reward_Props
begin

text \<open>
  A booster costs exactly its fee, of two simultaneous purchases one fails, and no user ever has two
  active ratios for the reward of a spark, however his purchases overlap, unless a booster is free or tickets reach
  him in between.
\<close>

section \<open>Paying\<close>

lemma upsert_map_of:
  assumes "upsert_row get put no_check k (\<lambda>_. x) x d = Inr d'" and "\<And>t d. get (put t d) = t"
  shows "map_of (get d') k' = (if k' = k then Some x else map_of (get d) k')"
  using assms by (auto simp: upsert_row_def create_row_def update_where_def no_check_def map_of_apply_row map_add_def
      split: if_splits option.splits)

lemma pay_tickets_run:
  assumes "pay_tickets u held fee d = Inr d'"
  shows "tickets_of d u = held" and "\<forall>v. tickets_of d' v = tickets_of d v - (if v = u then fee else 0)"
    and "0 \<le> tickets_of d' u" and "\<forall>v. teras_of d' v = teras_of d v"
    and "map_of (t_users d) u \<noteq> None" and "\<exists>t. d' = put_users t d"
proof -
  note q = assms [unfolded pay_tickets_def]
  from q obtain r where r: "map_of (t_users d) u = Some r" "tickets r = held" "0 \<le> tickets r - fee"
    and d': "d' = put_users (apply_row (\<lambda>r. r\<lparr>tickets := tickets r - fee\<rparr>) u (t_users d)) d"
    by (auto simp: user_tab.update_Inr check_user_def violated_def split: if_splits)
  from r show "tickets_of d u = held" "map_of (t_users d) u \<noteq> None" by (simp_all add: tickets_of_def)
  show "\<forall>v. tickets_of d' v = tickets_of d v - (if v = u then fee else 0)" "\<forall>v. teras_of d' v = teras_of d v"
    "0 \<le> tickets_of d' u"
    using user_tab.update_find(1) [OF q] r by (auto simp: tickets_of_def teras_of_def split: option.splits)
  show "\<exists>t. d' = put_users t d" using d' by blast
qed

text \<open>
  What a purchase does: the payment and the history line are the same for both kinds of booster.
\<close>

definition bought ::
  "string \<Rightarrow> user_id \<Rightarrow> int \<Rightarrow> booster_master_row \<Rightarrow> string option \<Rightarrow> db \<Rightarrow> db \<Rightarrow> bool" where
  "bought newId u held item t d d' \<longleftrightarrow>
     tickets_of d u = held \<and> 0 \<le> held - bm_feeTickets item \<and>
     (\<forall>v. tickets_of d' v = tickets_of d v - (if v = u then bm_feeTickets item else 0)) \<and>
     (\<forall>v. teras_of d' v = teras_of d v) \<and>
     t_ticketTransactions d' = t_ticketTransactions d @
       [(newId, ticket_transaction u (- bm_feeTickets item) (held - bm_feeTickets item) ''TOURNAMENT_BOOSTER''
          [(''tournamentId'', t), (''category'', Some (bm_category item)),
           (''subCategory'', Some (bm_subCategory item)), (''variant'', Some (bm_variant item))])]"

lemma payment_run:
  assumes "run_tx [pay_tickets u held (bm_feeTickets item),
      writeTournamentBoosterTransaction u newId (held - bm_feeTickets item) item t] d = Inr d'"
  shows "bought newId u held item t d d' \<and> t_activeBoosters d' = t_activeBoosters d \<and>
    t_tournamentBoosters d' = t_tournamentBoosters d"
proof -
  from assms obtain d1 where 1: "pay_tickets u held (bm_feeTickets item) d = Inr d1"
    and 2: "writeTournamentBoosterTransaction u newId (held - bm_feeTickets item) item t d1 = Inr d'"
    by (auto split: sum.splits)
  note p = pay_tickets_run [OF 1]
  from p(6) have d1: "t_activeBoosters d1 = t_activeBoosters d" "t_tournamentBoosters d1 = t_tournamentBoosters d"
    "t_ticketTransactions d1 = t_ticketTransactions d" by (auto simp: put_defs)
  from p(1,2,3) have "0 \<le> held - bm_feeTickets item" by auto
  moreover have "t_activeBoosters d' = t_activeBoosters d1" "t_tournamentBoosters d' = t_tournamentBoosters d1"
    "t_users d' = t_users d1"
    and "t_ticketTransactions d' = t_ticketTransactions d1 @
       [(newId, ticket_transaction u (- bm_feeTickets item) (held - bm_feeTickets item) ''TOURNAMENT_BOOSTER''
          [(''tournamentId'', t), (''category'', Some (bm_category item)),
           (''subCategory'', Some (bm_subCategory item)), (''variant'', Some (bm_variant item))])]"
    using 2 by (auto simp: writeTournamentBoosterTransaction_def ticketTransaction_tab.create_Inr put_defs)
  ultimately show ?thesis using p(1,2,4) d1 by (simp add: bought_def tickets_of_def teras_of_def)
qed

lemma bought_frame:
  "bought newId u held item t d1 d' \<Longrightarrow> t_users d1 = t_users d \<Longrightarrow> t_ticketTransactions d1 = t_ticketTransactions d \<Longrightarrow>
   bought newId u held item t d d'"
  by (simp add: bought_def tickets_of_def teras_of_def)

lemma tournament_run:
  assumes "run_tx (tournament_queries newId u held t item e) d = Inr d'"
  shows "bought newId u held item (Some t) d d'" and "t_activeBoosters d' = t_activeBoosters d"
    and "map_of (t_tournamentBoosters d') = (map_of (t_tournamentBoosters d))((u, t, bm_category item, bm_subCategory item) \<mapsto> e)"
proof -
  from assms obtain d1 where 1: "upsert_tournamentBooster (u, t, bm_category item, bm_subCategory item) (\<lambda>_. e) e d = Inr d1"
    and 2: "run_tx [pay_tickets u held (bm_feeTickets item),
      writeTournamentBoosterTransaction u newId (held - bm_feeTickets item) item (Some t)] d1 = Inr d'"
    by (auto simp: tournament_queries_def split: sum.splits)
  note p = payment_run [OF 2]
  have f: "t_users d1 = t_users d" "t_ticketTransactions d1 = t_ticketTransactions d" "t_activeBoosters d1 = t_activeBoosters d"
    by (rule upsert_frame [OF 1], simp add: put_defs)+
  show "bought newId u held item (Some t) d d'" using bought_frame p f(1,2) by blast
  show "t_activeBoosters d' = t_activeBoosters d" using p f(3) by simp
  have "map_of (t_tournamentBoosters d1) = (map_of (t_tournamentBoosters d))((u, t, bm_category item, bm_subCategory item) \<mapsto> e)"
    using upsert_map_of [OF 1] by (auto simp: put_defs)
  with p show "map_of (t_tournamentBoosters d') =
      (map_of (t_tournamentBoosters d))((u, t, bm_category item, bm_subCategory item) \<mapsto> e)" by simp
qed

lemma all_run:
  assumes "run_tx (all_queries newId u held item e) d = Inr d'"
  shows "bought newId u held item None d d'" and "t_tournamentBoosters d' = t_tournamentBoosters d"
    and "map_of (t_activeBoosters d') = (map_of (t_activeBoosters d))((u, bm_category item, bm_subCategory item) \<mapsto> e)"
proof -
  from assms obtain d1 where 1: "upsert_activeBooster (u, bm_category item, bm_subCategory item) (\<lambda>_. e) e d = Inr d1"
    and 2: "run_tx [pay_tickets u held (bm_feeTickets item),
      writeTournamentBoosterTransaction u newId (held - bm_feeTickets item) item None] d1 = Inr d'"
    by (auto simp: all_queries_def split: sum.splits)
  note p = payment_run [OF 2]
  have f: "t_users d1 = t_users d" "t_ticketTransactions d1 = t_ticketTransactions d"
    "t_tournamentBoosters d1 = t_tournamentBoosters d"
    by (rule upsert_frame [OF 1], simp add: put_defs)+
  show "bought newId u held item None d d'" using bought_frame p f(1,2) by blast
  show "t_tournamentBoosters d' = t_tournamentBoosters d" using p f(3) by simp
  have "map_of (t_activeBoosters d1) = (map_of (t_activeBoosters d))((u, bm_category item, bm_subCategory item) \<mapsto> e)"
    using upsert_map_of [OF 1] by (auto simp: put_defs)
  with p show "map_of (t_activeBoosters d') = (map_of (t_activeBoosters d))((u, bm_category item, bm_subCategory item) \<mapsto> e)"
    by simp
qed

section \<open>A purchase\<close>

text \<open>A successful purchase, read at \<open>d\<close> and written at \<open>d1\<close>.\<close>

definition purchase ::
  "env \<Rightarrow> ctx \<Rightarrow> string \<Rightarrow> string \<Rightarrow> string option \<Rightarrow> date \<Rightarrow> db \<Rightarrow> db \<Rightarrow> db \<Rightarrow> bool" where
  "purchase env ctx newId itemId tournamentId e d d1 d' \<longleftrightarrow>
     (\<exists>u item user. ctx_userId ctx = Some u \<and> map_of (t_boosterMasters d) itemId = Some item \<and>
        map_of (t_users d) u = Some user \<and>
        (if bm_requireTournament item
         then (\<exists>t tr. tournamentId = Some t \<and> map_of (t_tournaments d) t = Some tr \<and> e \<le> tn_endAt tr \<and>
                bought newId u (tickets user) item (Some t) d1 d' \<and> t_activeBoosters d' = t_activeBoosters d1 \<and>
                map_of (t_tournamentBoosters d') =
                  (map_of (t_tournamentBoosters d1))((u, t, bm_category item, bm_subCategory item) \<mapsto> e))
         else \<not> other_ratio env u item d \<and>
              (\<forall>t tr. tournamentId = Some t \<longrightarrow> t \<noteq> [] \<longrightarrow> map_of (t_tournaments d) t = Some tr \<longrightarrow> e \<le> tn_endAt tr) \<and>
              bought newId u (tickets user) item None d1 d' \<and> t_tournamentBoosters d' = t_tournamentBoosters d1 \<and>
              map_of (t_activeBoosters d') =
                (map_of (t_activeBoosters d1))((u, bm_category item, bm_subCategory item) \<mapsto> e)))"

lemma tournament_end_bound: "tournament_end env item endAt x = Inr e \<Longrightarrow> e \<le> endAt"
  by (auto simp: tournament_end_def Let_def split: if_splits)

lemma only_tournament_purchase:
  assumes "applyOnlyTournament env newId u held itemId item t other d = (Inr e, d')"
  shows "\<exists>tr. map_of (t_tournaments d) t = Some tr \<and> e \<le> tn_endAt tr \<and>
    run_tx (tournament_queries newId u held t item e) (other d) = Inr d'"
  using assms by (auto simp: applyOnlyTournament_def split: option.splits if_splits sum.splits dest: tournament_end_bound)

lemma all_purchase:
  assumes "applyAll env newId u held itemId item t other d = (Inr e, d')"
  shows "\<not> other_ratio env u item d \<and>
    (\<forall>x tr. t = Some x \<longrightarrow> x \<noteq> [] \<longrightarrow> map_of (t_tournaments d) x = Some tr \<longrightarrow> e \<le> tn_endAt tr) \<and>
    run_tx (all_queries newId u held item e) (other d) = Inr d'"
  using assms by (auto simp: applyAll_def check_tournament_def truthy_iff Let_def split: option.splits if_splits sum.splits)

lemma booster_purchase:
  assumes "apply_booster env ctx newId itemId tournamentId other d = (Inr e, d')"
  shows "purchase env ctx newId itemId tournamentId e d (other d) d'"
proof -
  from assms obtain item where item: "map_of (t_boosterMasters d) itemId = Some item"
    by (auto simp: apply_booster_def split: option.splits)
  with assms obtain u where u: "ctx_userId ctx = Some u" by (auto simp: apply_booster_def split: option.splits)
  with assms item obtain user where user: "map_of (t_users d) u = Some user"
    by (auto simp: apply_booster_def split: option.splits)
  show ?thesis
  proof (cases "bm_requireTournament item")
    case True
    with assms item u user obtain t where t: "tournamentId = Some t"
      and a: "applyOnlyTournament env newId u (tickets user) itemId item t other d = (Inr e, d')"
      by (auto simp: apply_booster_def truthy_iff split: if_splits)
    from only_tournament_purchase [OF a] obtain tr where "map_of (t_tournaments d) t = Some tr" "e \<le> tn_endAt tr"
      and r: "run_tx (tournament_queries newId u (tickets user) t item e) (other d) = Inr d'" by blast
    with tournament_run [OF r] item u user t True show ?thesis by (simp add: purchase_def)
  next
    case False
    with assms item u user have a: "applyAll env newId u (tickets user) itemId item tournamentId other d = (Inr e, d')"
      by (auto simp: apply_booster_def split: if_splits)
    from all_purchase [OF a] have r: "run_tx (all_queries newId u (tickets user) item e) (other d) = Inr d'" by blast
    with all_purchase [OF a] all_run [OF r] item u user False show ?thesis by (simp add: purchase_def)
  qed
qed

text \<open>
  A booster that is bought costs exactly its fee in tickets, taken from the balance the user
  had when asking and never below zero; one booster, the one bought, gets a new end, which lies within
  the tournament it is bought for; one line is written to the ticket history and no other
  balance or booster changes.
\<close>

lemma booster_takes_the_fee:
  assumes "apply_booster env ctx newId itemId tournamentId other d = (Inr e, d')"
  shows "purchase env ctx newId itemId tournamentId e d (other d) d'"
  using booster_purchase [OF assms] .

definition sample_shop :: db where
  "sample_shop = sample_db\<lparr>t_boosterMasters :=
       [(''b1'', \<lparr>bm_category = ''SPARK_TERAS_UP'', bm_subCategory = ''x1.5'', bm_variant = ''30'', bm_feeTickets = 4,
         bm_effectiveMinutes = 30, bm_requireTournament = False\<rparr>),
        (''b2'', \<lparr>bm_category = ''SPARK_TERAS_UP'', bm_subCategory = ''x2.0'', bm_variant = ''30'', bm_feeTickets = 5,
         bm_effectiveMinutes = 30, bm_requireTournament = False\<rparr>)]\<rparr>"

definition sample_buy :: "string \<Rightarrow> (db \<Rightarrow> db) \<Rightarrow> date res \<times> db" where
  "sample_buy itemId other = apply_booster sample_env sample_ctx (''tt'' @ itemId) itemId None other sample_shop"

lemma sample_bought: "sample_buy ''b1'' (\<lambda>d. d) = (Inr 1800050, snd (sample_buy ''b1'' (\<lambda>d. d)))"
proof -
  have "fst (sample_buy ''b1'' (\<lambda>d. d)) = Inr 1800050" by code_simp
  then show ?thesis by (metis prod.collapse)
qed

lemma booster_takes_the_fee_witness: "tickets_of (snd (sample_buy ''b1'' (\<lambda>d. d))) ''u1'' = 6"
proof -
  have "apply_booster sample_env sample_ctx ''ttb1'' ''b1'' None (\<lambda>d. d) sample_shop =
      (Inr 1800050, snd (sample_buy ''b1'' (\<lambda>d. d)))" using sample_bought by (simp add: sample_buy_def)
  from booster_takes_the_fee [OF this] show ?thesis
    by (auto simp: purchase_def bought_def sample_shop_def sample_ctx_def sample_db_def sample_user_def tickets_of_def
        split: if_splits)
qed

lemma purchase_balance:
  assumes "purchase env ctx newId itemId t e d d1 d'"
  obtains u item user where "ctx_userId ctx = Some u" and "map_of (t_boosterMasters d) itemId = Some item"
    and "map_of (t_users d) u = Some user" and "tickets_of d1 u = tickets user"
    and "tickets_of d' u = tickets user - bm_feeTickets item"
  using assms by (auto simp: purchase_def bought_def split: if_splits)

text \<open>
  Of two purchases by the same user that both start from the same database, the one that is
  written second fails when the first one was not free.
\<close>

lemma simultaneous_purchases_fail:
  assumes "apply_booster env ctx newId itemId t (\<lambda>d. d) d = (Inr e, d')"
    and "map_of (t_boosterMasters d) itemId = Some item" and "bm_feeTickets item \<noteq> 0"
  shows "\<exists>err. fst (apply_booster env2 ctx newId2 itemId2 t2 (\<lambda>_. d') d) = Inl err"
proof (cases "fst (apply_booster env2 ctx newId2 itemId2 t2 (\<lambda>_. d') d)")
  case (Inr e2)
  then obtain d2 where 2: "apply_booster env2 ctx newId2 itemId2 t2 (\<lambda>_. d') d = (Inr e2, d2)"
    by (metis prod.collapse)
  obtain u user where "ctx_userId ctx = Some u" "map_of (t_users d) u = Some user"
    "tickets_of d' u = tickets user - bm_feeTickets item"
    using purchase_balance [OF booster_purchase [OF assms(1)]] assms(2) by (metis option.inject)
  moreover obtain v user' where "ctx_userId ctx = Some v" "map_of (t_users d) v = Some user'" "tickets_of d' v = tickets user'"
    using purchase_balance [OF booster_purchase [OF 2]] by metis
  ultimately show ?thesis using assms(3) by simp
qed blast

lemma simultaneous_purchases_fail_witness:
  "\<exists>err. fst (sample_buy ''b2'' (\<lambda>_. snd (sample_buy ''b1'' (\<lambda>d. d)))) = Inl err"
  unfolding sample_buy_def
proof (rule simultaneous_purchases_fail)
  show "apply_booster sample_env sample_ctx ''ttb1'' ''b1'' None (\<lambda>d. d) sample_shop =
      (Inr 1800050, snd (apply_booster sample_env sample_ctx (''tt'' @ ''b1'') ''b1'' None (\<lambda>d. d) sample_shop))"
    using sample_bought by (simp add: sample_buy_def)
  show "map_of (t_boosterMasters sample_shop) ''b1'' = Some (the (map_of (t_boosterMasters sample_shop) ''b1''))"
    by (simp add: sample_shop_def)
  show "bm_feeTickets (the (map_of (t_boosterMasters sample_shop) ''b1'')) \<noteq> 0" by (simp add: sample_shop_def)
qed

section \<open>One ratio\<close>

definition one_ratio :: "date \<Rightarrow> user_id \<Rightarrow> db \<Rightarrow> bool" where
  "one_ratio now u d \<longleftrightarrow>
     (\<forall>s1 s2 e1 e2. map_of (t_activeBoosters d) (u, ''SPARK_TERAS_UP'', s1) = Some e1 \<longrightarrow> now \<le> e1 \<longrightarrow>
        map_of (t_activeBoosters d) (u, ''SPARK_TERAS_UP'', s2) = Some e2 \<longrightarrow> now \<le> e2 \<longrightarrow> s1 = s2)"

lemma one_ratio_later: "one_ratio now u d \<Longrightarrow> now \<le> now' \<Longrightarrow> one_ratio now' u d"
  by (auto simp: one_ratio_def)

lemma no_other_ratio:
  assumes "\<not> other_ratio env u item d" and "bm_category item = ''SPARK_TERAS_UP''"
    and "map_of (t_activeBoosters d) (u, ''SPARK_TERAS_UP'', s) = Some e" and "env_now env \<le> e"
  shows "s = bm_subCategory item"
  using assms by (auto simp: other_ratio_def list_ex_iff dest!: map_of_SomeD)

lemma one_ratio_insert:
  assumes "one_ratio now v d"
    and "\<And>s e'. bm_category item = ''SPARK_TERAS_UP'' \<Longrightarrow> map_of (t_activeBoosters d) (u, ''SPARK_TERAS_UP'', s) = Some e' \<Longrightarrow>
      now \<le> e' \<Longrightarrow> s = bm_subCategory item"
    and "map_of (t_activeBoosters d') = (map_of (t_activeBoosters d))((u, bm_category item, bm_subCategory item) \<mapsto> e)"
  shows "one_ratio now v d'"
proof (cases "v = u \<and> bm_category item = ''SPARK_TERAS_UP''")
  case True
  then have "s = bm_subCategory item"
    if "map_of (t_activeBoosters d') (v, ''SPARK_TERAS_UP'', s) = Some e'" "now \<le> e'" for s e'
    using that assms(2) by (auto simp: assms(3) split: if_splits)
  then show ?thesis unfolding one_ratio_def by metis
next
  case False
  then have "map_of (t_activeBoosters d') (v, ''SPARK_TERAS_UP'', s) = map_of (t_activeBoosters d) (v, ''SPARK_TERAS_UP'', s)" for s
    by (auto simp: assms(3))
  with assms(1) show ?thesis by (simp add: one_ratio_def)
qed

text \<open>A request that fails writes nothing.\<close>

lemma failed_purchase: "apply_booster env ctx newId itemId t other d = (Inl err, d') \<Longrightarrow> d' = d \<or> d' = other d"
  by (auto simp: apply_booster_def applyOnlyTournament_def applyAll_def Let_def split: option.splits if_splits sum.splits)

text \<open>
  A history of the database, the newest state first.  A purchase is written to the newest state and rests on what
  it has read in any earlier one, so purchases overlap freely, but no tickets reach the buyer between the two.
  Everything else leaves the boosters alone, and may change the tickets otherwise.  All requests were made until
  \<open>now\<close>.
\<close>

definition only_falls :: "user_id \<Rightarrow> db list \<Rightarrow> bool" where
  "only_falls u h \<longleftrightarrow> sorted_wrt (\<lambda>newer older. tickets_of newer u \<le> tickets_of older u) h"

inductive booster_run :: "date \<Rightarrow> db \<Rightarrow> db list \<Rightarrow> bool" for now start where
  booster_start: "booster_run now start [start]"
| booster_buy: "booster_run now start (between @ d # earlier) \<Longrightarrow> ctx_userId ctx = Some u \<Longrightarrow>
    only_falls u (between @ [d]) \<Longrightarrow> env_now env \<le> now \<Longrightarrow>
    apply_booster env ctx newId itemId t (\<lambda>_. hd (between @ [d])) d = (Inr e, d') \<Longrightarrow>
    booster_run now start (d' # between @ d # earlier)"
| booster_elsewhere: "booster_run now start (d # earlier) \<Longrightarrow>
    map_of (t_activeBoosters d') = map_of (t_activeBoosters d) \<Longrightarrow> booster_run now start (d' # d # earlier)"

definition no_free_booster :: "db \<Rightarrow> bool" where
  "no_free_booster d \<longleftrightarrow> (\<forall>itemId item. map_of (t_boosterMasters d) itemId = Some item \<longrightarrow> 0 < bm_feeTickets item)"

text \<open>From one state to the next a user's boosters stay as they are, or his tickets become fewer.\<close>

definition same_boosters :: "user_id \<Rightarrow> db \<Rightarrow> db \<Rightarrow> bool" where
  "same_boosters u d' d \<longleftrightarrow> (\<forall>c s. map_of (t_activeBoosters d') (u, c, s) = map_of (t_activeBoosters d) (u, c, s))"

definition paid_change :: "user_id \<Rightarrow> db \<Rightarrow> db \<Rightarrow> bool" where
  "paid_change u d' d \<longleftrightarrow> same_boosters u d' d \<or> tickets_of d' u < tickets_of d u"

lemma purchase_paid_change:
  assumes "purchase env ctx newId itemId t e d d1 d'" and "no_free_booster d"
  shows "paid_change v d' d1"
  using assms
  by (fastforce simp: purchase_def bought_def paid_change_def same_boosters_def no_free_booster_def split: if_splits)

lemma booster_run_paid:
  assumes "booster_run now start h" and "\<forall>d \<in> set h. no_free_booster d"
  shows "successively (paid_change v) h"
  using assms
proof (induction rule: booster_run.induct)
  case (booster_buy between d earlier ctx u env newId itemId t e d')
  from booster_purchase [OF booster_buy(5)] booster_buy(7) have "paid_change v d' (hd (between @ d # earlier))"
    using purchase_paid_change by (cases between) fastforce+
  with booster_buy(6,7) show ?case by (cases between) auto
next
  case (booster_elsewhere d earlier d')
  then show ?case by (simp add: paid_change_def same_boosters_def)
qed simp

text \<open>The condition on the tickets excludes that the user's boosters have changed since they were read.\<close>

lemma unpaid_unchanged:
  assumes "successively (paid_change u) (between @ [d])" and "only_falls u (between @ [d])"
    and "tickets_of (hd (between @ [d])) u = tickets_of d u"
  shows "same_boosters u (hd (between @ [d])) d"
  using assms
proof (induction between)
  case Nil
  then show ?case by (simp add: same_boosters_def)
next
  case (Cons x between)
  let ?y = "hd (between @ [d])"
  have y: "?y \<in> set (between @ [d])" by (cases between) auto
  have falls: "only_falls u (between @ [d])" "tickets_of x u \<le> tickets_of ?y u" "tickets_of ?y u \<le> tickets_of d u"
    using Cons.prems(2) y by (cases between; auto simp: only_falls_def)+
  with Cons.prems(3) have same: "tickets_of ?y u = tickets_of x u" "tickets_of ?y u = tickets_of d u" by simp_all
  have "paid_change u x ?y" "successively (paid_change u) (between @ [d])"
    using Cons.prems(1) by (cases between; simp)+
  with Cons.IH falls(1) same have "same_boosters u x ?y" "same_boosters u ?y d" by (auto simp: paid_change_def)
  then show ?case by (simp add: same_boosters_def)
qed

lemma purchase_one_ratio:
  assumes "purchase env ctx newId itemId t e d d1 d'" and "ctx_userId ctx = Some u" and "same_boosters u d1 d"
    and "one_ratio now v d1" and "env_now env \<le> now"
  shows "one_ratio now v d'"
proof -
  from assms(1,2) consider "t_activeBoosters d' = t_activeBoosters d1"
    | item where "\<not> other_ratio env u item d" and
      "map_of (t_activeBoosters d') = (map_of (t_activeBoosters d1))((u, bm_category item, bm_subCategory item) \<mapsto> e)"
    unfolding purchase_def by (metis option.inject)
  then show ?thesis
  proof cases
    case 1
    with assms(4) show ?thesis by (simp only: one_ratio_def)
  next
    case 2
    have "s = bm_subCategory item" if "bm_category item = ''SPARK_TERAS_UP''"
      "map_of (t_activeBoosters d1) (u, ''SPARK_TERAS_UP'', s) = Some e'" "now \<le> e'" for s e'
      using no_other_ratio [OF 2(1) that(1)] that(2,3) assms(3,5) by (auto simp: same_boosters_def)
    with assms(4) show ?thesis using one_ratio_insert [OF _ _ 2(2)] by blast
  qed
qed

text \<open>
  (C33) A user never has two active boosters of different ratios, over any history of purchases that
  overlap freely, each resting on what it has read in an earlier state, and of other changes of the database.  The
  application alone ensures this, by its condition on the tickets, and under two conditions: no booster is free, and
  no tickets reach a user while he is buying.
\<close>

theorem one_ratio_at_a_time:
  assumes "booster_run now start (d # earlier)" and "\<forall>x \<in> set (d # earlier). no_free_booster x" and "one_ratio now v start"
  shows "one_ratio now v d"
proof -
  have "one_ratio now v (hd h)" if "booster_run now start h" "\<forall>x \<in> set h. no_free_booster x" for h
    using that
  proof (induction rule: booster_run.induct)
    case (booster_buy between d earlier ctx u env newId itemId t e d')
    note p = booster_purchase [OF booster_buy(5)]
    from p booster_buy(2) have "tickets_of (hd (between @ [d])) u = tickets_of d u"
      by (auto elim!: purchase_balance simp: tickets_of_def)
    moreover have "successively (paid_change u) (between @ [d])"
      using booster_run_paid [OF booster_buy(1), of u] booster_buy(7)
      by (auto simp: successively_append_iff)
    ultimately have "same_boosters u (hd (between @ [d])) d" using unpaid_unchanged booster_buy(3) by blast
    moreover have "one_ratio now v (hd (between @ [d]))" using booster_buy(6,7) by (cases between) simp_all
    ultimately show ?case using purchase_one_ratio [OF p booster_buy(2)] booster_buy(4) by simp
  next
    case (booster_elsewhere d earlier d')
    then show ?case by (simp add: one_ratio_def)
  qed (simp add: assms(3))
  with assms(1,2) show ?thesis by fastforce
qed

text \<open>The first user buys a booster, and between his reading and his writing the second user buys another one.\<close>

definition other_ctx :: ctx where
  "other_ctx = sample_ctx\<lparr>ctx_userId := Some ''u2''\<rparr>"

definition sample_shop_1 :: db where
  "sample_shop_1 = snd (apply_booster sample_env other_ctx ''tt2'' ''b2'' None (\<lambda>_. sample_shop) sample_shop)"

definition sample_shop_2 :: db where
  "sample_shop_2 = snd (sample_buy ''b1'' (\<lambda>_. sample_shop_1))"

lemma sample_shop_steps:
  "fst (apply_booster sample_env other_ctx ''tt2'' ''b2'' None (\<lambda>_. sample_shop) sample_shop) = Inr 1800050"
  "fst (sample_buy ''b1'' (\<lambda>_. sample_shop_1)) = Inr 1800050"
  "t_boosterMasters sample_shop_1 = t_boosterMasters sample_shop"
  "t_boosterMasters sample_shop_2 = t_boosterMasters sample_shop"
  "tickets_of sample_shop_1 ''u1'' \<le> tickets_of sample_shop ''u1''"
  by code_simp+

lemma sample_shop_run: "booster_run 100 sample_shop [sample_shop_2, sample_shop_1, sample_shop]"
proof -
  let ?q = "apply_booster sample_env other_ctx ''tt2'' ''b2'' None (\<lambda>_. hd ([] @ [sample_shop])) sample_shop"
  let ?p = "apply_booster sample_env sample_ctx ''ttb1'' ''b1'' None (\<lambda>_. hd ([sample_shop_1] @ [sample_shop])) sample_shop"
  have now: "env_now sample_env \<le> 100" by (simp add: sample_env_def)
  have "?q = (Inr 1800050, sample_shop_1)"
    using sample_shop_steps(1) by (simp add: sample_shop_1_def prod_eq_iff)
  from booster_buy [OF _ _ _ now this] have 1: "booster_run 100 sample_shop [sample_shop_1, sample_shop]"
    by (auto simp: booster_start other_ctx_def only_falls_def)
  have "?p = (Inr 1800050, sample_shop_2)"
    using sample_shop_steps(2) by (simp add: sample_shop_2_def sample_buy_def prod_eq_iff)
  from booster_buy [OF _ _ _ now this, where earlier = "[]"] 1 show ?thesis
    using sample_shop_steps(5) by (auto simp: sample_ctx_def only_falls_def)
qed

theorem one_ratio_at_a_time_witness:
  "one_ratio 100 ''u1'' sample_shop_2 \<and>
   map_of (t_activeBoosters sample_shop_2) (''u1'', ''SPARK_TERAS_UP'', ''x1.5'') = Some 1800050 \<and>
   map_of (t_activeBoosters sample_shop_2) (''u2'', ''SPARK_TERAS_UP'', ''x2.0'') = Some 1800050"
proof -
  have "no_free_booster sample_shop"
    by (auto simp: no_free_booster_def sample_shop_def split: if_splits)
  then have "\<forall>x \<in> set [sample_shop_2, sample_shop_1, sample_shop]. no_free_booster x"
    using sample_shop_steps(3,4) by (simp add: no_free_booster_def)
  moreover have "one_ratio 100 ''u1'' sample_shop" by (simp add: one_ratio_def sample_shop_def sample_db_def)
  ultimately have "one_ratio 100 ''u1'' sample_shop_2" by (rule one_ratio_at_a_time [OF sample_shop_run])
  moreover have "map_of (t_activeBoosters sample_shop_2) (''u1'', ''SPARK_TERAS_UP'', ''x1.5'') = Some 1800050 \<and>
      map_of (t_activeBoosters sample_shop_2) (''u2'', ''SPARK_TERAS_UP'', ''x2.0'') = Some 1800050" by code_simp
  ultimately show ?thesis by blast
qed

text \<open>
  Without the condition on the tickets nothing is left: when the fee of a first purchase is made up for by four tickets
  that arrive before a second purchase is written, the user ends with two active ratios.
\<close>

definition four_tickets_arrive :: "db \<Rightarrow> db" where
  "four_tickets_arrive d = put_users (apply_row (\<lambda>r. r\<lparr>tickets := tickets r + 4\<rparr>) ''u1'' (t_users d)) d"

lemma two_ratios_after_top_up:
  "\<exists>e d'. sample_buy ''b2'' (\<lambda>d. four_tickets_arrive (snd (sample_buy ''b1'' (\<lambda>d. d)))) = (Inr e, d') \<and>
     one_ratio 100 ''u1'' sample_shop \<and> \<not> one_ratio 100 ''u1'' d'"
proof -
  let ?p = "sample_buy ''b2'' (\<lambda>d. four_tickets_arrive (snd (sample_buy ''b1'' (\<lambda>d. d))))"
  have "fst ?p = Inr 1800050 \<and> map_of (t_activeBoosters (snd ?p)) (''u1'', ''SPARK_TERAS_UP'', ''x1.5'') = Some 1800050 \<and>
      map_of (t_activeBoosters (snd ?p)) (''u1'', ''SPARK_TERAS_UP'', ''x2.0'') = Some 1800050" by code_simp
  moreover from this have "\<not> one_ratio 100 ''u1'' (snd ?p)" unfolding one_ratio_def by fastforce
  moreover have "one_ratio 100 ''u1'' sample_shop" by (simp add: one_ratio_def sample_shop_def sample_db_def)
  ultimately show ?thesis by (metis prod.collapse)
qed

end
