(* ===== verification/Quest_Progress.thy ===== *)
theory Quest_Progress
  imports Rewards Ranking
begin

text \<open>
  \<open>src/models/internal/quests/utils.ts\<close> and the login days of \<open>src/helpers/datetime.ts\<close>: how
  far a user is with a quest, counted in the tables of plays, sessions, tournaments and users.  A
  login day, which the code writes as \<open>YYYYMMDD\<close>, is the number of the day.
\<close>

section \<open>Login days\<close>

text \<open>From 16:00 in Tokyo on the next day counts.\<close>

definition login_day :: "date \<Rightarrow> int" where
  "login_day t = tokyo_day t + (if tokyo_hour t \<ge> 16 then 1 else 0)"

lemma filter_length_mono:
  "(\<And>x. x \<in> set xs \<Longrightarrow> P x \<Longrightarrow> Q x) \<Longrightarrow> length (filter P xs) \<le> length (filter Q xs)"
  by (induction xs) (auto intro: le_SucI)

lemma filter_length_less:
  assumes "\<And>x. x \<in> set xs \<Longrightarrow> P x \<Longrightarrow> Q x" and "y \<in> set xs" and "Q y" and "\<not> P y"
  shows "length (filter P xs) < length (filter Q xs)"
  using assms
proof (induction xs)
  case (Cons x xs)
  with filter_length_mono [of xs P Q] show ?case by (cases "x = y") (auto simp: less_Suc_eq_le)
qed simp

text \<open>The days before \<open>day\<close> that follow one another without a gap up to it.\<close>

function streak_before :: "int list \<Rightarrow> int \<Rightarrow> nat" where
  "streak_before days day = (if day - 1 \<in> set days then Suc (streak_before days (day - 1)) else 0)"
  by pat_completeness auto

termination
  by (relation "measure (\<lambda>(days, day). length (filter (\<lambda>z. z < day) days))") (auto intro: filter_length_less)

declare streak_before.simps [simp del]

definition consecutive_days :: "env \<Rightarrow> int list \<Rightarrow> int" where
  "consecutive_days env days =
     (let today = login_day (env_now env) in (if today \<in> set days then 1 else 0) + int (streak_before days today))"

section \<open>Plays and sparks\<close>

definition finished_sessions :: "ctx \<Rightarrow> date \<Rightarrow> db \<Rightarrow> (string \<times> play_session_row) list" where
  "finished_sessions ctx startAt d =
     filter (\<lambda>(_, s). where_user ctx (ps_playerId s) \<and> ps_createdAt s \<ge> startAt \<and> ps_state s = FINISHED)
       (t_playSessions d)"

definition sparked :: "db \<Rightarrow> string \<Rightarrow> bool" where
  "sparked d k \<longleftrightarrow> list_ex (\<lambda>(_, p). pl_result p = Some WIN) (plays_of d k)"

definition count_plays :: "(string \<times> play_session_row) list \<Rightarrow> (play_row \<Rightarrow> bool) \<Rightarrow> db \<Rightarrow> int" where
  "count_plays sessions P d =
     int (count_rows (\<lambda>_ p. P p \<and> map_of sessions (pl_playSessionId p) \<noteq> None) (t_plays d))"

definition playCount :: "ctx \<Rightarrow> date \<Rightarrow> db \<Rightarrow> int" where
  "playCount ctx startAt d = count_plays (finished_sessions ctx startAt d) (\<lambda>_. True) d"

definition sparkCount :: "ctx \<Rightarrow> date \<Rightarrow> db \<Rightarrow> int" where
  "sparkCount ctx startAt d = count_plays (finished_sessions ctx startAt d) (\<lambda>p. pl_result p = Some WIN) d"

text \<open>
  The plays of the sparked sessions from the last session without a spark on; \<open>every\<close> with
  \<open>not WIN\<close> leaves out the plays without a result.
\<close>

definition last_unsparked :: "ctx \<Rightarrow> date \<Rightarrow> db \<Rightarrow> date option" where
  "last_unsparked ctx startAt d =
     (case filter (\<lambda>(k, _). \<not> sparked d k) (finished_sessions ctx startAt d) of
        [] \<Rightarrow> None | xs \<Rightarrow> Some (Max (set (map (\<lambda>(_, s). ps_createdAt s) xs))))"

definition consecutiveSparkCount :: "ctx \<Rightarrow> date \<Rightarrow> db \<Rightarrow> int" where
  "consecutiveSparkCount ctx startAt d =
     (let target = (case last_unsparked ctx startAt d of None \<Rightarrow> startAt | Some t \<Rightarrow> t)
      in count_plays (filter (\<lambda>(k, _). sparked d k) (finished_sessions ctx target d)) (\<lambda>_. True) d)"

definition game_of :: "db \<Rightarrow> play_session_row \<Rightarrow> string option" where
  "game_of d s = map_option am_game (map_of (t_arcadeMachines d) (ps_arcadeMachineId s))"

definition games_played :: "(string \<times> play_session_row) list \<Rightarrow> db \<Rightarrow> string list" where
  "games_played sessions d =
     remdups (map (\<lambda>(_, m). am_game m)
       (filter (\<lambda>(k, _). k \<in> set (map (\<lambda>(_, s). ps_arcadeMachineId s) sessions)) (t_arcadeMachines d)))"

definition uniqueGamePlayCount :: "ctx \<Rightarrow> date \<Rightarrow> db \<Rightarrow> int" where
  "uniqueGamePlayCount ctx startAt d = int (length (games_played (finished_sessions ctx startAt d) d))"

definition uniqueGameSparkCount :: "ctx \<Rightarrow> date \<Rightarrow> db \<Rightarrow> int" where
  "uniqueGameSparkCount ctx startAt d =
     int (length (games_played (filter (\<lambda>(k, _). sparked d k) (finished_sessions ctx startAt d)) d))"

definition session_days :: "(string \<times> play_session_row) list \<Rightarrow> int list" where
  "session_days sessions = map (\<lambda>(_, s). login_day (ps_createdAt s)) sessions"

definition consecutiveSparkDays :: "env \<Rightarrow> ctx \<Rightarrow> date \<Rightarrow> db \<Rightarrow> int" where
  "consecutiveSparkDays env ctx startAt d =
     consecutive_days env (session_days (filter (\<lambda>(k, _). sparked d k) (finished_sessions ctx startAt d)))"

definition connectWallet :: "ctx \<Rightarrow> db \<Rightarrow> int res" where
  "connectWallet ctx d =
     (case ctx_userId ctx of
        None \<Rightarrow> Inl (JsError ''PrismaClientValidationError'')
      | Some u \<Rightarrow>
          (case map_of (t_users d) u of
             None \<Rightarrow> Inr 0 | Some r \<Rightarrow> Inr (if truthy (u_walletAddress r) then 1 else 0)))"

text \<open>The days on which at least \<open>gameCount\<close> games were played; no day reaches \<open>NaN\<close>.\<close>

definition consecutivePlayDaysInDifferentGame :: "int option \<Rightarrow> env \<Rightarrow> ctx \<Rightarrow> date \<Rightarrow> db \<Rightarrow> int" where
  "consecutivePlayDaysInDifferentGame gameCount env ctx startAt d =
     (let sessions = finished_sessions ctx startAt d;
          games = (\<lambda>day. remdups (map (\<lambda>(_, s). game_of d s) (filter (\<lambda>(_, s). login_day (ps_createdAt s) = day) sessions)))
      in consecutive_days env
           (filter (\<lambda>day. case gameCount of None \<Rightarrow> False | Some n \<Rightarrow> int (length (games day)) \<ge> n)
             (session_days sessions)))"

definition specificGamePlayCount :: "string \<Rightarrow> ctx \<Rightarrow> date \<Rightarrow> db \<Rightarrow> int" where
  "specificGamePlayCount game ctx startAt d =
     count_plays (filter (\<lambda>(_, s). game_of d s = Some game) (finished_sessions ctx startAt d)) (\<lambda>_. True) d"

definition specificGameSparkCount :: "string \<Rightarrow> ctx \<Rightarrow> date \<Rightarrow> db \<Rightarrow> int" where
  "specificGameSparkCount game ctx startAt d =
     count_plays (filter (\<lambda>(_, s). game_of d s = Some game) (finished_sessions ctx startAt d))
       (\<lambda>p. pl_result p = Some WIN) d"

definition uniquePlayDays :: "ctx \<Rightarrow> date \<Rightarrow> db \<Rightarrow> int" where
  "uniquePlayDays ctx startAt d = int (length (remdups (session_days (finished_sessions ctx startAt d))))"

section \<open>Tournaments\<close>

definition tournamentWinsCount :: "ctx \<Rightarrow> date \<Rightarrow> db \<Rightarrow> int" where
  "tournamentWinsCount ctx startAt d =
     int (count_rows (\<lambda>_ r. where_user ctx (tr_userId r) \<and> tr_createdAt r \<ge> startAt \<and> tr_rank r = 1) (t_tournamentResults d))"

definition tournamentPlacementsCount :: "ctx \<Rightarrow> date \<Rightarrow> db \<Rightarrow> int" where
  "tournamentPlacementsCount ctx startAt d =
     int (count_rows (\<lambda>(_, u) e. where_user ctx u \<and> te_createdAt e \<ge> startAt \<and> te_prizeClaimed e) (t_tournamentEntries d))"

definition tournamentParticipationCount :: "ctx \<Rightarrow> date \<Rightarrow> db \<Rightarrow> int" where
  "tournamentParticipationCount ctx startAt d =
     int (count_rows (\<lambda>(_, u) e. where_user ctx u \<and> te_createdAt e \<ge> startAt) (t_tournamentEntries d))"

section \<open>The progress of a quest\<close>

definition hex_value :: "char \<Rightarrow> nat option" where
  "hex_value c =
     (let n = (of_char c :: nat) in
      if is_digit c then Some (digit_value c)
      else if 65 \<le> n \<and> n \<le> 70 then Some (n - 55)
      else if 97 \<le> n \<and> n \<le> 102 then Some (n - 87) else None)"

fun hex_digits :: "string \<Rightarrow> nat list" where
  "hex_digits [] = []"
| "hex_digits (c # s) = (case hex_value c of None \<Rightarrow> [] | Some n \<Rightarrow> n # hex_digits s)"

text \<open>\<open>Number.parseInt\<close> of a string, of which \<open>null\<close> is \<open>NaN\<close>.\<close>

definition parseInt :: "string \<Rightarrow> int option" where
  "parseInt s =
     (let (sgn, s1) = split_sign (dropWhile is_space s) in
      if take 2 s1 = ''0x'' \<or> take 2 s1 = ''0X'' then
        (let ds = hex_digits (drop 2 s1) in
         if ds = [] then None else Some (sgn * int (foldl (\<lambda>n k. 16 * n + k) 0 ds)))
      else
        (let ds = takeWhile is_digit s1 in
         if ds = [] then None else Some (sgn * int (digits_value ds))))"

definition getNowProgress :: "env \<Rightarrow> ctx \<Rightarrow> date \<Rightarrow> quest_master \<Rightarrow> db \<Rightarrow> int res" where
  "getNowProgress env ctx startAt master d =
     (case qm_progressType master of
        CONNECT_WALLET \<Rightarrow> connectWallet ctx d
      | PLAY_COUNT \<Rightarrow>
          Inr (if truthy (qm_progressParams master)
               then specificGamePlayCount (the (qm_progressParams master)) ctx startAt d else playCount ctx startAt d)
      | SPARK_COUNT \<Rightarrow>
          Inr (if truthy (qm_progressParams master)
               then specificGameSparkCount (the (qm_progressParams master)) ctx startAt d else sparkCount ctx startAt d)
      | CONSECUTIVE_SPARK_COUNT \<Rightarrow> Inr (consecutiveSparkCount ctx startAt d)
      | UNIQUE_GAME_PLAY_COUNT \<Rightarrow> Inr (uniqueGamePlayCount ctx startAt d)
      | UNIQUE_GAME_SPARK_COUNT \<Rightarrow> Inr (uniqueGameSparkCount ctx startAt d)
      | CONSECUTIVE_SPARK_DAYS \<Rightarrow> Inr (consecutiveSparkDays env ctx startAt d)
      | CONSECUTIVE_PLAY_DAYS_IN_DIFFERENT_GAME \<Rightarrow>
          Inr (consecutivePlayDaysInDifferentGame (Option.bind (qm_progressParams master) parseInt) env ctx startAt d)
      | UNIQUE_PLAY_DAYS \<Rightarrow> Inr (uniquePlayDays ctx startAt d)
      | TOURNAMENT_WINS \<Rightarrow> Inr (tournamentWinsCount ctx startAt d)
      | TOURNAMENT_PLACEMENTS \<Rightarrow> Inr (tournamentPlacementsCount ctx startAt d)
      | TOURNAMENT_PARTICIPATION \<Rightarrow> Inr (tournamentParticipationCount ctx startAt d))"

end
