(* ===== verification/Quests.thy ===== *)
theory Quests
  imports Quest_Progress Tournament
begin

text \<open>
  \<open>src/helpers/quests.ts\<close> and \<open>src/use_cases/quest_usecase.ts\<close>: accepting a chain of
  quests for a price, the check that completes quests, pays their rewards and opens the quests
  behind them, and finishing a chain.  A chain belongs to one user and one master, a quest to one
  chain and one master.  \<open>Math.random\<close> and the generated ids are arguments.
\<close>

section \<open>Master data\<close>

fun split_comma :: "string \<Rightarrow> string list" where
  "split_comma [] = [[]]"
| "split_comma (c # s) =
     (if c = CHR '','' then [] # split_comma s
      else (case split_comma s of [] \<Rightarrow> [[c]] | w # ws \<Rightarrow> (c # w) # ws))"

text \<open>The same time in Tokyo one month later, on the last day of a shorter month.\<close>

definition add_month :: "date \<Rightarrow> date" where
  "add_month t =
     (let (y, m, d) = civil_date (tokyo_day t);
          (y1, m1) = (if m = 12 then (y + 1, 1) else (y, m + 1));
          (y2, m2) = (if m1 = 12 then (y1 + 1, 1) else (y1, m1 + 1));
          len = days_of_civil y2 m2 1 - days_of_civil y1 m1 1
      in t + (days_of_civil y1 m1 (min d len) - tokyo_day t) * DAY_MS)"

definition out_of_term :: "env \<Rightarrow> quest_chain_master_row \<Rightarrow> bool" where
  "out_of_term env m \<longleftrightarrow>
     (case qc_startAt m of None \<Rightarrow> False | Some t \<Rightarrow> env_now env < t) \<or>
     (case qc_endAt m of None \<Rightarrow> False | Some t \<Rightarrow> t < env_now env)"

definition find_quest :: "string \<Rightarrow> quest_chain_master_row \<Rightarrow> quest_master option" where
  "find_quest questId m = find (\<lambda>q. qm_id q = questId) (qc_quests m)"

definition new_quest :: "env \<Rightarrow> quest_row" where
  "new_quest env = \<lparr>qu_startAt = env_now env, qu_completedAt = None\<rparr>"

definition quests_of :: "chain_key \<Rightarrow> db \<Rightarrow> (string \<times> quest_row) list" where
  "quests_of ck d = map (\<lambda>((_, q), r). (q, r)) (filter (\<lambda>((c, _), _). c = ck) (t_quests d))"

section \<open>The reward of a quest\<close>

definition quest_reward ::
  "ctx \<Rightarrow> string \<Rightarrow> string \<Rightarrow> RewardItemType \<Rightarrow> reward_category option \<Rightarrow> string option \<Rightarrow> int option \<Rightarrow> query" where
  "quest_reward ctx newId title itemType category subCategory amount =
     (case (ctx_userId ctx, category, amount) of
        (Some u, Some c, Some n) \<Rightarrow>
          create_reward newId
            \<lparr>rw_userId = u, rw_title = title, rw_itemType = itemType, rw_category = c, rw_subCategory = subCategory,
             rw_amount = n, rw_availableUntil = None, rw_acceptedAt = None\<rparr>
      | _ \<Rightarrow> invalid_query)"

definition rewardRandomArcadePartOrJunk ::
  "ctx \<Rightarrow> (nat \<Rightarrow> string) \<Rightarrow> (nat \<Rightarrow> rat) \<Rightarrow> string \<Rightarrow> RewardItemType \<Rightarrow> int option \<Rightarrow> query list res" where
  "rewardRandomArcadePartOrJunk ctx newId random title target amount =
     bind_res (random_picks random (case amount of None \<Rightarrow> 0 | Some n \<Rightarrow> n)) (\<lambda>picks.
       Inr (map (\<lambda>(i, (c, s), n). quest_reward ctx (newId i) title target (Some (PartCategory c)) (Some s) (Some n))
              (enumerate 0 (amounts_by (\<lambda>p. p) (\<lambda>_. 1) picks))))"

definition distributeReward ::
  "ctx \<Rightarrow> (nat \<Rightarrow> string) \<Rightarrow> (nat \<Rightarrow> rat) \<Rightarrow> quest_master \<Rightarrow> query list res" where
  "distributeReward ctx newId random m =
     (let direct = (\<lambda>t c s. Inr [quest_reward ctx (newId 0) (qm_title m) t c s (qm_amount m)]) in
      case qm_itemType m of
        None \<Rightarrow> Inr []
      | Some Q_ARCADE_PART \<Rightarrow> direct R_ARCADE_PART (qm_category m) (qm_subCategory m)
      | Some Q_ARCADE_PART_RANDOM \<Rightarrow>
          rewardRandomArcadePartOrJunk ctx newId random (qm_title m) R_ARCADE_PART (qm_amount m)
      | Some Q_JUNK_PART \<Rightarrow> direct R_JUNK_PART (qm_category m) (qm_subCategory m)
      | Some Q_JUNK_PART_RANDOM \<Rightarrow>
          rewardRandomArcadePartOrJunk ctx newId random (qm_title m) R_JUNK_PART (qm_amount m)
      | Some Q_TERAS \<Rightarrow> direct R_TERAS (Some TERAS_CATEGORY) None
      | Some Q_COLLECTIBLE_ITEM \<Rightarrow> direct R_COLLECTIBLE_ITEM (qm_category m) (qm_subCategory m))"

section \<open>Completing quests\<close>

definition getInProgressQuests :: "ctx \<Rightarrow> db \<Rightarrow> ((chain_key \<times> string) \<times> quest_row) list" where
  "getInProgressQuests ctx d =
     filter (\<lambda>((ck, _), q). qu_completedAt q = None \<and> where_user ctx (fst ck) \<and>
               (case map_of (t_questChains d) ck of None \<Rightarrow> False | Some c \<Rightarrow> \<not> ch_completed c)) (t_quests d)"

definition delete_quests :: "chain_key \<Rightarrow> query" where
  "delete_quests ck d = Inr (put_quests (filter (\<lambda>((c, _), _). c \<noteq> ck) (t_quests d)) d)"

definition delete_chain :: "chain_key \<Rightarrow> query" where
  "delete_chain ck d =
     (if map_of (t_questChains d) ck = None then Inl (PrismaKnownRequestError ''P2025'')
      else Inr (put_questChains (filter (\<lambda>(c, _). c \<noteq> ck) (t_questChains d)) d))"

definition complete_quest :: "env \<Rightarrow> chain_key \<times> string \<Rightarrow> query" where
  "complete_quest env k =
     update_quest k (\<lambda>q. qu_completedAt q = None) (\<lambda>q. q\<lparr>qu_completedAt := Some (env_now env)\<rparr>)"

text \<open>
  One quest: missing master data end the whole check, a quest of a chain past its end is skipped
  (and the chain deleted a month later), and a transaction that fails is only logged.  Other
  requests may change the database before the transaction.
\<close>

datatype quest_check = Q_STOP | Q_SKIP | Q_DONE

definition check_quest ::
  "env \<Rightarrow> ctx \<Rightarrow> (nat \<Rightarrow> string) \<Rightarrow> (nat \<Rightarrow> rat) \<Rightarrow> (db \<Rightarrow> db) \<Rightarrow> (chain_key \<times> string) \<times> quest_row \<Rightarrow> db \<Rightarrow>
   quest_check res \<times> db" where
  "check_quest env ctx newId random other x d =
     (case x of ((ck, questId), q) \<Rightarrow>
     (case map_of (t_chainMasters d) (snd ck) of
        None \<Rightarrow> (Inr Q_STOP, d)
      | Some chainMaster \<Rightarrow>
     (case find_quest questId chainMaster of
        None \<Rightarrow> (Inr Q_STOP, d)
      | Some m \<Rightarrow>
      if (case qc_endAt chainMaster of None \<Rightarrow> False | Some t \<Rightarrow> t < env_now env) then
        (if add_month (the (qc_endAt chainMaster)) < env_now env then
           (case run_tx [delete_quests ck, delete_chain ck] (other d) of
              Inl e \<Rightarrow> (Inl e, other d) | Inr d' \<Rightarrow> (Inr Q_SKIP, d'))
         else (Inr Q_SKIP, d))
      else
        (case getNowProgress env ctx (qu_startAt q) m d of
           Inl e \<Rightarrow> (Inl e, d)
         | Inr progress \<Rightarrow>
             if progress \<ge> qm_progressGoal m then
               (case distributeReward ctx newId random m of
                  Inl e \<Rightarrow> (Inl e, d)
                | Inr qs \<Rightarrow>
                    (Inr Q_DONE,
                     case run_tx (qs @ [complete_quest env (ck, questId)]) (other d) of
                       Inl _ \<Rightarrow> other d | Inr d' \<Rightarrow> d'))
             else (Inr Q_SKIP, d)))))"

text \<open>\<open>None\<close> is the early return, otherwise whether a quest was completed.\<close>

fun check_quests ::
  "env \<Rightarrow> ctx \<Rightarrow> (nat \<Rightarrow> nat \<Rightarrow> string) \<Rightarrow> (nat \<Rightarrow> nat \<Rightarrow> rat) \<Rightarrow> (nat \<Rightarrow> db \<Rightarrow> db) \<Rightarrow> nat \<Rightarrow>
   ((chain_key \<times> string) \<times> quest_row) list \<Rightarrow> db \<Rightarrow> bool option res \<times> db" where
  "check_quests env ctx newId random other i [] d = (Inr (Some False), d)"
| "check_quests env ctx newId random other i (x # xs) d =
     (case check_quest env ctx (newId i) (random i) (other i) x d of
        (Inl e, d1) \<Rightarrow> (Inl e, d1)
      | (Inr Q_STOP, d1) \<Rightarrow> (Inr None, d1)
      | (Inr c, d1) \<Rightarrow>
          (case check_quests env ctx newId random other (Suc i) xs d1 of
             (Inr (Some b), d2) \<Rightarrow> (Inr (Some (c = Q_DONE \<or> b)), d2)
           | r \<Rightarrow> r))"

section \<open>Opening the quests behind\<close>

definition all_completed :: "(string \<times> quest_row) list \<Rightarrow> string list \<Rightarrow> bool" where
  "all_completed quests ids \<longleftrightarrow>
     list_all (\<lambda>i. case map_of quests i of None \<Rightarrow> False | Some q \<Rightarrow> qu_completedAt q \<noteq> None) ids"

text \<open>A quest belongs to a chain that exists: the foreign key \<open>questChainId\<close>.\<close>

definition open_quest :: "chain_key \<times> string \<Rightarrow> quest_row \<Rightarrow> query" where
  "open_quest k r d =
     (if map_of (t_questChains d) (fst k) = None then Inl (PrismaKnownRequestError ''P2003'') else create_quest k r d)"

lemma open_quest_Inr [simp]:
  "open_quest k r d = Inr d' \<longleftrightarrow> map_of (t_questChains d) (fst k) \<noteq> None \<and> create_quest k r d = Inr d'"
  by (simp add: open_quest_def)

text \<open>
  Whether a quest was opened that may be met at once.  The list of the quests, the masters and the creation of the
  new quests are taken together here: no other request comes in between while quests are opened.
\<close>

fun open_quests ::
  "env \<Rightarrow> chain_key \<Rightarrow> (string \<times> quest_row) list \<Rightarrow> quest_master list \<Rightarrow> db \<Rightarrow> bool res \<times> db" where
  "open_quests env ck quests [] d = (Inr False, d)"
| "open_quests env ck quests (m # ms) d =
     (case qm_beforeQuestIds m of
        None \<Rightarrow> (Inl JsTypeError, d)
      | Some ids \<Rightarrow>
          if \<not> all_completed quests (split_comma ids) then open_quests env ck quests ms d
          else
            (case open_quest (ck, qm_id m) (new_quest env) d of
               Inl e \<Rightarrow> (Inl e, d)
             | Inr d1 \<Rightarrow>
                 (case open_quests env ck quests ms d1 of
                    (Inl e, d2) \<Rightarrow> (Inl e, d2)
                  | (Inr b, d2) \<Rightarrow> (Inr (qm_progressType m = CONNECT_WALLET \<or> b), d2))))"

definition notOpenQuests :: "quest_chain_master_row \<Rightarrow> (string \<times> quest_row) list \<Rightarrow> quest_master list" where
  "notOpenQuests chainMaster quests = filter (\<lambda>m. map_of quests (qm_id m) = None) (qc_quests chainMaster)"

fun open_chains ::
  "env \<Rightarrow> (chain_key \<times> (string \<times> quest_row) list) list \<Rightarrow> db \<Rightarrow> bool res \<times> db" where
  "open_chains env [] d = (Inr False, d)"
| "open_chains env ((ck, quests) # cs) d =
     (case map_of (t_chainMasters d) (snd ck) of
        None \<Rightarrow> (Inl (PrismaKnownRequestError ''P2025''), d)
      | Some chainMaster \<Rightarrow>
          (case open_quests env ck quests (notOpenQuests chainMaster quests) d of
             (Inl e, d1) \<Rightarrow> (Inl e, d1)
           | (Inr b, d1) \<Rightarrow>
               (case open_chains env cs d1 of
                  (Inl e, d2) \<Rightarrow> (Inl e, d2) | (Inr b', d2) \<Rightarrow> (Inr (b \<or> b'), d2))))"

definition open_chain_list :: "env \<Rightarrow> ctx \<Rightarrow> db \<Rightarrow> (chain_key \<times> (string \<times> quest_row) list) list" where
  "open_chain_list env ctx d =
     map (\<lambda>(ck, _). (ck, quests_of ck d))
       (filter (\<lambda>(ck, c). where_user ctx (fst ck) \<and> \<not> ch_completed c \<and>
                  (case ch_expiredAt c of None \<Rightarrow> True | Some t \<Rightarrow> t \<ge> env_now env)) (t_questChains d))"

text \<open>One pass; the answer says whether another one follows.\<close>

definition check_pass ::
  "env \<Rightarrow> ctx \<Rightarrow> (nat \<Rightarrow> nat \<Rightarrow> string) \<Rightarrow> (nat \<Rightarrow> nat \<Rightarrow> rat) \<Rightarrow> (nat \<Rightarrow> db \<Rightarrow> db) \<Rightarrow> db \<Rightarrow> bool res \<times> db" where
  "check_pass env ctx newId random other d =
     (case check_quests env ctx newId random other 0 (getInProgressQuests ctx d) d of
        (Inl e, d1) \<Rightarrow> (Inl e, d1)
      | (Inr None, d1) \<Rightarrow> (Inr False, d1)
      | (Inr (Some False), d1) \<Rightarrow> (Inr False, d1)
      | (Inr (Some True), d1) \<Rightarrow> open_chains env (open_chain_list env ctx d1) d1)"

text \<open>The passes, of which at most \<open>fuel\<close> are made; \<open>None\<close> is a check that is not over.\<close>

fun checkAndUpdate ::
  "nat \<Rightarrow> env \<Rightarrow> ctx \<Rightarrow> (nat \<Rightarrow> nat \<Rightarrow> nat \<Rightarrow> string) \<Rightarrow> (nat \<Rightarrow> nat \<Rightarrow> nat \<Rightarrow> rat) \<Rightarrow>
   (nat \<Rightarrow> nat \<Rightarrow> db \<Rightarrow> db) \<Rightarrow> db \<Rightarrow> (unit res \<times> db) option" where
  "checkAndUpdate 0 env ctx newId random other d = None"
| "checkAndUpdate (Suc fuel) env ctx newId random other d =
     (case check_pass env ctx (newId fuel) (random fuel) (other fuel) d of
        (Inl e, d1) \<Rightarrow> Some (Inl e, d1)
      | (Inr False, d1) \<Rightarrow> Some (Inr (), d1)
      | (Inr True, d1) \<Rightarrow> checkAndUpdate fuel env ctx newId random other d1)"

section \<open>Accepting a chain\<close>

datatype StartQuestChainCurrencyType = CUR_TERAS | CUR_AKV | CUR_TICKET

text \<open>
  A price of zero is no price in tickets, which are a number; the prices in Teras and AKV are \<open>Decimal\<close>
  objects, which are true even when they are zero.  They are whole amounts here.
\<close>

definition required :: "int option \<Rightarrow> int option" where
  "required x = (case x of None \<Rightarrow> None | Some n \<Rightarrow> if n = 0 then None else Some n)"

definition insufficient :: "quest_chain_master_row \<Rightarrow> StartQuestChainCurrencyType \<Rightarrow> user_row \<Rightarrow> use_case_error option" where
  "insufficient m used user =
     (case used of
        CUR_TERAS \<Rightarrow>
          (case qc_terasRequired m of
             None \<Rightarrow> None
           | Some n \<Rightarrow> if terasBalance user < n then Some (IllegalStateUseCaseError ''Teras balance is insufficient.'') else None)
      | CUR_AKV \<Rightarrow>
          (case qc_akvRequired m of
             None \<Rightarrow> None
           | Some n \<Rightarrow> if akvBalance user < n then Some (IllegalStateUseCaseError ''AKV balance is insufficient.'') else None)
      | CUR_TICKET \<Rightarrow>
          (case required (qc_ticketRequired m) of
             None \<Rightarrow> None
           | Some n \<Rightarrow> if tickets user < n then Some (IllegalStateUseCaseError ''Ticket is insufficient.'') else None))"

definition price_queries ::
  "user_id \<Rightarrow> string \<Rightarrow> user_row \<Rightarrow> string \<Rightarrow> quest_chain_master_row \<Rightarrow> StartQuestChainCurrencyType \<Rightarrow> query list" where
  "price_queries u newId user masterId m used =
     (case used of
        CUR_TERAS \<Rightarrow>
          (case qc_terasRequired m of
             None \<Rightarrow> []
           | Some n \<Rightarrow> [update_user u (\<lambda>_. True) (\<lambda>r. r\<lparr>terasBalance := terasBalance r - n\<rparr>)])
      | CUR_AKV \<Rightarrow>
          (case qc_akvRequired m of
             None \<Rightarrow> []
           | Some n \<Rightarrow> [update_user u (\<lambda>_. True) (\<lambda>r. r\<lparr>akvBalance := akvBalance r - n\<rparr>)])
      | CUR_TICKET \<Rightarrow>
          (case required (qc_ticketRequired m) of
             None \<Rightarrow> []
           | Some n \<Rightarrow> [use_tickets u n, writeOpenQuestTransaction u newId (tickets user - n) n masterId]))"

definition new_chain :: "env \<Rightarrow> quest_chain_row" where
  "new_chain env = \<lparr>ch_completed = False, ch_acceptedAt = env_now env, ch_expiredAt = None\<rparr>"

definition chain_queries :: "env \<Rightarrow> user_id \<Rightarrow> string \<Rightarrow> quest_chain_master_row \<Rightarrow> query list" where
  "chain_queries env u masterId m =
     create_questChain (u, masterId) (new_chain env) #
     map (\<lambda>q. create_quest ((u, masterId), qm_id q) (new_quest env))
       (filter (\<lambda>q. qm_beforeQuestIds q = None) (qc_quests m))"

definition missing_chain :: "ctx \<Rightarrow> quest_chain_master_row \<Rightarrow> db \<Rightarrow> bool" where
  "missing_chain ctx m d \<longleftrightarrow> truthy (qc_beforeQuestChainId m) \<and>
     \<not> list_ex (\<lambda>((u, c), r). where_user ctx u \<and> Some c = qc_beforeQuestChainId m \<and> ch_completed r) (t_questChains d)"

definition startQuestChain ::
  "env \<Rightarrow> ctx \<Rightarrow> string \<Rightarrow> string \<Rightarrow> StartQuestChainCurrencyType \<Rightarrow> (db \<Rightarrow> db) \<Rightarrow> db \<Rightarrow> quest_chain_row res \<times> db" where
  "startQuestChain env ctx newId masterId used other d =
     (case map_of (t_chainMasters d) masterId of
        None \<Rightarrow> (Inl (InvalidArgumentUseCaseError ''unknown quest chain master id''), d)
      | Some m \<Rightarrow>
      if out_of_term env m
      then (Inl (InvalidArgumentUseCaseError ''The quest chain is outside the validity period.''), d)
      else
      (case ctx_userId ctx of
         None \<Rightarrow> (Inl (JsError ''PrismaClientValidationError''), d)
       | Some u \<Rightarrow>
      (case map_of (t_users d) u of
         None \<Rightarrow> (Inl (PrismaKnownRequestError ''P2025''), d)
       | Some user \<Rightarrow>
      (case insufficient m used user of
         Some e \<Rightarrow> (Inl e, d)
       | None \<Rightarrow>
      if missing_chain ctx m d
      then (Inl (IllegalStateUseCaseError ''You must complete the other quest chains first!''), d)
      else
        (case run_tx (chain_queries env u masterId m @ price_queries u newId user masterId m used) (other d) of
           Inl e \<Rightarrow> (Inl e, other d) | Inr d' \<Rightarrow> (Inr (new_chain env), d'))))))"

section \<open>Finishing a chain\<close>

definition with_category ::
  "quest_reward_master \<Rightarrow> (ArcadePartCategory \<Rightarrow> query list) \<Rightarrow> query list" where
  "with_category r q = (case qr_category r of PartCategory c \<Rightarrow> q c | _ \<Rightarrow> [invalid_query])"

definition chain_reward ::
  "env \<Rightarrow> ctx \<Rightarrow> (nat \<Rightarrow> nft_id) \<Rightarrow> (nat \<Rightarrow> rat) \<Rightarrow> quest_reward_master \<Rightarrow> (query list \<times> (reward_key \<times> int) list) res" where
  "chain_reward env ctx newId random r =
     (let detail = (\<lambda>t. ((t, qr_category r, Some (qr_subCategory r)), qr_amount r));
          drawn = (\<lambda>t. map (\<lambda>((c, s), n). ((t, PartCategory c, Some s), n))) in
      case qr_itemType r of
        Q_TERAS \<Rightarrow> Inr ([rewardTeras ctx (qr_amount r)], [((R_TERAS, TERAS_CATEGORY, None), qr_amount r)])
      | Q_COLLECTIBLE_ITEM \<Rightarrow>
          Inr ((case qr_category r of
                  ItemCategory c \<Rightarrow> [rewardCollectibleItem ctx c (qr_subCategory r)] | _ \<Rightarrow> [invalid_query]),
               [detail R_COLLECTIBLE_ITEM])
      | Q_ARCADE_PART_RANDOM \<Rightarrow>
          map_sum id (\<lambda>(qs, ds). (qs, drawn R_ARCADE_PART ds)) (rewardRandomArcadePart env ctx newId random (qr_amount r))
      | Q_ARCADE_PART \<Rightarrow>
          Inr (with_category r (\<lambda>c. rewardArcadePart env ctx newId c (qr_subCategory r) (qr_amount r)), [detail R_ARCADE_PART])
      | Q_JUNK_PART_RANDOM \<Rightarrow>
          map_sum id (\<lambda>(qs, ds). (qs, drawn R_JUNK_PART ds)) (rewardRandomJunkPart ctx random (qr_amount r))
      | Q_JUNK_PART \<Rightarrow>
          Inr (with_category r (\<lambda>c. [rewardJunkPart ctx c (qr_subCategory r) (qr_amount r)]), [detail R_JUNK_PART]))"

definition chain_rewards ::
  "env \<Rightarrow> ctx \<Rightarrow> (nat \<Rightarrow> nat \<Rightarrow> nft_id) \<Rightarrow> (nat \<Rightarrow> nat \<Rightarrow> rat) \<Rightarrow> quest_chain_master_row \<Rightarrow>
   (query list \<times> (reward_key \<times> int) list) res" where
  "chain_rewards env ctx newId random m =
     map_sum id (\<lambda>xs. (concat (map fst xs), concat (map snd xs)))
       (map_res (\<lambda>(i, r). chain_reward env ctx (newId i) (random i) r) (enumerate 0 (qc_rewards m)))"

definition complete_chain :: "chain_key \<Rightarrow> query" where
  "complete_chain ck = update_questChain ck (\<lambda>_. True) (\<lambda>c. c\<lparr>ch_completed := True\<rparr>)"

definition completed_count :: "chain_key \<Rightarrow> db \<Rightarrow> nat" where
  "completed_count ck d = length (filter (\<lambda>(_, q). qu_completedAt q \<noteq> None) (quests_of ck d))"

definition finishQuestChain ::
  "env \<Rightarrow> ctx \<Rightarrow> (nat \<Rightarrow> nat \<Rightarrow> nft_id) \<Rightarrow> (nat \<Rightarrow> nat \<Rightarrow> rat) \<Rightarrow> string \<Rightarrow> (db \<Rightarrow> db) \<Rightarrow> db \<Rightarrow>
   (reward_key \<times> int) list res \<times> db" where
  "finishQuestChain env ctx newId random masterId other d =
     (case map_of (t_chainMasters d) masterId of
        None \<Rightarrow> (Inl (InvalidArgumentUseCaseError ''unknown quest chain master id''), d)
      | Some m \<Rightarrow>
      if out_of_term env m
      then (Inl (InvalidArgumentUseCaseError ''The quest chain is outside the validity period.''), d)
      else
      (case ctx_userId ctx of
         None \<Rightarrow> (Inl (JsError ''PrismaClientValidationError''), d)
       | Some u \<Rightarrow>
      (case map_of (t_questChains d) (u, masterId) of
         None \<Rightarrow> (Inl (NotFoundUseCaseError ''unknown quest chain id'' ''QuestChain''), d)
       | Some chain \<Rightarrow>
      if ch_completed chain then (Inl (IllegalStateUseCaseError ''this chain is already completed''), d)
      else if (case ch_expiredAt chain of None \<Rightarrow> False | Some t \<Rightarrow> t < env_now env)
      then (Inl (IllegalStateUseCaseError ''this chain is already expired''), d)
      else if completed_count (u, masterId) d \<noteq> length (qc_quests m)
      then (Inl (IllegalStateUseCaseError ''uncompleted quest exists''), d)
      else
        (case chain_rewards env ctx newId random m of
           Inl e \<Rightarrow> (Inl e, d)
         | Inr (qs, rewards) \<Rightarrow>
             (case run_tx (complete_chain (u, masterId) # qs) (other d) of
                Inl e \<Rightarrow> (Inl e, other d) | Inr d' \<Rightarrow> (Inr rewards, d'))))))"

section \<open>Showing the progress\<close>

definition progress :: "env \<Rightarrow> ctx \<Rightarrow> string \<Rightarrow> date option \<Rightarrow> date \<Rightarrow> db \<Rightarrow> int res" where
  "progress env ctx questId completedAt startAt d =
     (case find (\<lambda>q. qm_id q = questId) (concat (map (\<lambda>(_, m). qc_quests m) (t_chainMasters d))) of
        None \<Rightarrow> Inr 0
      | Some m \<Rightarrow> if completedAt \<noteq> None then Inr (qm_progressGoal m) else getNowProgress env ctx startAt m d)"

end
