(* ===== verification/Quest_Props.thy ===== *)
theory Quest_Props
  imports Quests Reward_Props
begin

text \<open>
  The days of a streak follow one another, the check of the quests ends, no quest is open before
  the quests in front of it are completed, and the payments around a chain.
\<close>

section \<open>Streaks\<close>

lemma streak_before_spec:
  "{day - int (streak_before days day)..<day} \<subseteq> set days \<and> day - int (streak_before days day) - 1 \<notin> set days"
proof (induction days day rule: streak_before.induct)
  case (1 days day)
  show ?case
  proof (cases "day - 1 \<in> set days")
    case True
    then have s: "streak_before days day = Suc (streak_before days (day - 1))" by (simp add: streak_before.simps)
    have "{day - 1 - int (streak_before days (day - 1))..<day} =
        insert (day - 1) {day - 1 - int (streak_before days (day - 1))..<day - 1}" by auto
    with 1 [OF True] True s show ?thesis by (simp add: algebra_simps)
  qed (simp add: streak_before.simps)
qed

definition spark_days :: "ctx \<Rightarrow> date \<Rightarrow> db \<Rightarrow> int set" where
  "spark_days ctx startAt d =
     {login_day (ps_createdAt s) | k s. (k, s) \<in> set (t_playSessions d) \<and> where_user ctx (ps_playerId s) \<and>
        startAt \<le> ps_createdAt s \<and> ps_state s = FINISHED \<and> sparked d k}"

lemma spark_days_set:
  "set (session_days (filter (\<lambda>(k, _). sparked d k) (finished_sessions ctx startAt d))) = spark_days ctx startAt d"
  by (auto simp: session_days_def finished_sessions_def spark_days_def)

text \<open>
  (C40) The days in a row with a spark: the count is today, if there was a spark today, and the
  longest unbroken run of days with a spark that ends yesterday.
\<close>

theorem streak_counts_days:
  "\<exists>n. consecutiveSparkDays env ctx startAt d =
      int n + (if login_day (env_now env) \<in> spark_days ctx startAt d then 1 else 0) \<and>
    {login_day (env_now env) - int n..<login_day (env_now env)} \<subseteq> spark_days ctx startAt d \<and>
    login_day (env_now env) - int n - 1 \<notin> spark_days ctx startAt d"
proof -
  let ?days = "session_days (filter (\<lambda>(k, _). sparked d k) (finished_sessions ctx startAt d))"
  show ?thesis
    using streak_before_spec [of "login_day (env_now env)" ?days]
    by (intro exI [of _ "streak_before ?days (login_day (env_now env))"])
      (simp add: consecutiveSparkDays_def consecutive_days_def Let_def spark_days_set)
qed

section \<open>The check ends\<close>

definition masters_of :: "chain_key \<Rightarrow> db \<Rightarrow> quest_master list" where
  "masters_of ck d = (case map_of (t_chainMasters d) (snd ck) of None \<Rightarrow> [] | Some m \<Rightarrow> qc_quests m)"

definition wallet_closed :: "(chain_key \<times> string \<Rightarrow> bool) \<Rightarrow> db \<Rightarrow> chain_key \<times> quest_chain_row \<Rightarrow> nat" where
  "wallet_closed P d x =
     length (filter (\<lambda>m. qm_progressType m = CONNECT_WALLET \<and> P (fst x, qm_id m)) (masters_of (fst x) d))"

definition no_quest :: "db \<Rightarrow> chain_key \<times> string \<Rightarrow> bool" where
  "no_quest d k \<longleftrightarrow> map_of (t_quests d) k = None"

text \<open>The quests about the wallet that are not open yet, over all chains.\<close>

definition wallet_left :: "db \<Rightarrow> nat" where
  "wallet_left d = sum_list (map (wallet_closed (no_quest d) d) (t_questChains d))"

lemma wallet_left_mono:
  assumes "t_chainMasters d' = t_chainMasters d" and "t_questChains d' = t_questChains d"
    and "\<And>k. no_quest d' k \<Longrightarrow> no_quest d k"
  shows "wallet_left d' \<le> wallet_left d"
  unfolding wallet_left_def assms(2) wallet_closed_def masters_of_def assms(1)
  by (rule sum_list_mono, rule filter_length_mono) (auto intro: assms(3))

lemma sum_list_less:
  "(\<And>x. x \<in> set xs \<Longrightarrow> (f x :: nat) \<le> g x) \<Longrightarrow> y \<in> set xs \<Longrightarrow> f y < g y \<Longrightarrow> sum_list (map f xs) < sum_list (map g xs)"
proof (induction xs)
  case (Cons x xs)
  have "sum_list (map f xs) \<le> sum_list (map g xs)" by (rule sum_list_mono) (simp add: Cons.prems)
  with Cons show ?case by (cases "x = y") (auto intro: add_less_le_mono add_le_less_mono)
qed simp

lemma wallet_left_less:
  assumes "t_chainMasters d' = t_chainMasters d" and "t_questChains d' = t_questChains d"
    and "\<And>k. no_quest d' k \<Longrightarrow> no_quest d k"
    and "(ck, c) \<in> set (t_questChains d)" and "m \<in> set (masters_of ck d)" and "qm_progressType m = CONNECT_WALLET"
    and "no_quest d (ck, qm_id m)" and "\<not> no_quest d' (ck, qm_id m)"
  shows "wallet_left d' < wallet_left d"
  unfolding wallet_left_def assms(2)
proof (rule sum_list_less)
  show "wallet_closed (no_quest d') d' x \<le> wallet_closed (no_quest d) d x" for x
    unfolding wallet_closed_def masters_of_def assms(1) by (rule filter_length_mono) (auto intro: assms(3))
  show "(ck, c) \<in> set (t_questChains d)" by (fact assms)
  show "wallet_closed (no_quest d') d' (ck, c) < wallet_closed (no_quest d) d (ck, c)"
    unfolding wallet_closed_def fst_conv using assms(5)
    by (simp only: masters_of_def assms(1)) (rule filter_length_less [of _ _ _ m], auto simp: assms(6-8) intro: assms(3))
qed

text \<open>The rewards of a quest touch neither the quests nor the chains.\<close>

definition quest_tables :: "db \<Rightarrow> (string, quest_chain_master_row) table \<times> (chain_key, quest_chain_row) table \<times>
    (chain_key \<times> string, quest_row) table" where
  "quest_tables d = (t_chainMasters d, t_questChains d, t_quests d)"

lemma quest_reward_frame: "quest_reward ctx newId title t c s n d = Inr d' \<Longrightarrow> quest_tables d' = quest_tables d"
  by (auto simp: quest_reward_def invalid_query_def reward_tab.create_Inr put_defs quest_tables_def
      split: option.splits)

lemma distribute_frame:
  assumes "distributeReward ctx newId random m = Inr qs" and "run_tx qs d = Inr d'"
  shows "quest_tables d' = quest_tables d"
proof (rule run_tx_frame [OF _ assms(2)])
  fix q x x' assume q: "q \<in> set qs" and x: "q x = Inr x'"
  then show "quest_tables x' = quest_tables x"
    using assms(1) unfolding distributeReward_def Let_def rewardRandomArcadePartOrJunk_def
    by (auto simp: bind_res_Inr_iff split: option.splits QuestRewardType.splits dest: quest_reward_frame)
qed

text \<open>What one quest's check does to the tables of the quests.\<close>

lemma check_quest_cases:
  assumes "check_quest env ctx newId random other ((ck, questId), q) d = (r, d')"
  obtains "d' = d" | "quest_tables d' = quest_tables (other d)"
    | e where "quest_tables e = quest_tables (other d)" and "complete_quest env (ck, questId) e = Inr d'"
    | "run_tx [delete_quests ck, delete_chain ck] (other d) = Inr d'"
proof -
  have "d' = d \<or> quest_tables d' = quest_tables (other d) \<or>
      (\<exists>e. quest_tables e = quest_tables (other d) \<and> complete_quest env (ck, questId) e = Inr d') \<or>
      run_tx [delete_quests ck, delete_chain ck] (other d) = Inr d'"
  proof (cases "\<exists>qs m. distributeReward ctx newId random m = Inr qs \<and> run_tx (qs @ [complete_quest env (ck, questId)]) (other d) = Inr d'")
    case True
    then obtain qs m where qs: "distributeReward ctx newId random m = Inr qs"
      and run: "run_tx (qs @ [complete_quest env (ck, questId)]) (other d) = Inr d'" by blast
    from run obtain e where "run_tx qs (other d) = Inr e" "complete_quest env (ck, questId) e = Inr d'"
      by (auto simp: run_tx_append split: sum.splits)
    with distribute_frame [OF qs] show ?thesis by blast
  next
    case False
    with assms show ?thesis unfolding check_quest_def
      by (auto split: option.splits if_splits sum.splits simp del: run_tx.simps)
  qed
  with that show thesis by blast
qed

lemma wallet_left_cong: "quest_tables d' = quest_tables d \<Longrightarrow> wallet_left d' = wallet_left d"
  by (simp add: quest_tables_def wallet_left_def wallet_closed_def masters_of_def no_quest_def cong: map_cong filter_cong)

lemma complete_left:
  assumes "complete_quest env k d = Inr d'" shows "wallet_left d' \<le> wallet_left d"
  using assms
  by (auto simp: complete_quest_def quest_tab.update_Inr no_quest_def map_of_apply_row put_defs
      intro!: wallet_left_mono split: if_splits)

lemma map_of_other_chain:
  "fst k \<noteq> ck \<Longrightarrow> map_of (filter (\<lambda>((c, _), _). c \<noteq> ck) (t :: (chain_key \<times> string, quest_row) table)) k = map_of t k"
  by (induction t) auto

lemma sum_filter_le:
  "(\<And>x. x \<in> set xs \<Longrightarrow> P x \<Longrightarrow> (f x :: nat) \<le> g x) \<Longrightarrow> sum_list (map f (filter P xs)) \<le> sum_list (map g xs)"
  by (induction xs) (auto intro: add_mono trans_le_add2)

lemma delete_left:
  assumes "run_tx [delete_quests ck, delete_chain ck] d = Inr d'" shows "wallet_left d' \<le> wallet_left d"
proof -
  have d': "d' = put_questChains (filter (\<lambda>(c, _). c \<noteq> ck) (t_questChains d))
      (put_quests (filter (\<lambda>((c, _), _). c \<noteq> ck) (t_quests d)) d)"
    using assms by (simp add: delete_quests_def delete_chain_def put_defs split: if_splits)
  show ?thesis
    unfolding wallet_left_def d'
    by (simp add: put_defs, rule sum_filter_le)
      (auto simp: wallet_closed_def masters_of_def no_quest_def map_of_other_chain)
qed

lemma check_quest_left:
  assumes "check_quest env ctx newId random other x d = (r, d')" and "\<And>e. wallet_left (other e) \<le> wallet_left e"
  shows "wallet_left d' \<le> wallet_left d"
proof -
  obtain ck questId q where x: "x = ((ck, questId), q)" by (metis prod.collapse)
  from assms(1) [unfolded x] show ?thesis
  proof (cases rule: check_quest_cases)
    case 1
    then show ?thesis by simp
  next
    case 2
    with wallet_left_cong [OF 2] assms(2) [of d] show ?thesis by simp
  next
    case (3 e)
    with wallet_left_cong [OF 3(1)] complete_left [OF 3(2)] assms(2) [of d] show ?thesis by simp
  next
    case 4
    with delete_left [OF 4] assms(2) [of d] show ?thesis by simp
  qed
qed

lemma check_quests_left:
  assumes "check_quests env ctx newId random other i xs d = (r, d')" and "\<And>i e. wallet_left (other i e) \<le> wallet_left e"
  shows "wallet_left d' \<le> wallet_left d"
  using assms(1)
proof (induction xs arbitrary: i d r d')
  case (Cons x xs)
  obtain c d1 where 1: "check_quest env ctx (newId i) (random i) (other i) x d = (c, d1)" by fastforce
  obtain c2 d2 where 2: "check_quests env ctx newId random other (Suc i) xs d1 = (c2, d2)" by fastforce
  from Cons.prems 1 2 have "d' = d1 \<or> d' = d2"
    by (auto split: sum.splits quest_check.splits option.splits)
  moreover have "wallet_left d1 \<le> wallet_left d" by (rule check_quest_left [OF 1 assms(2)])
  moreover have "wallet_left d2 \<le> wallet_left d1" by (rule Cons.IH [OF 2])
  ultimately show ?case by auto
qed simp

text \<open>Opening keeps the chains and their masters, and a wallet quest that it opens is one fewer.\<close>

lemma open_quests_left:
  assumes "open_quests env ck quests ms d = (Inr b, d')" and "set ms \<subseteq> set (masters_of ck d)"
    and "(ck, c) \<in> set (t_questChains d)"
  shows "t_chainMasters d' = t_chainMasters d \<and> t_questChains d' = t_questChains d \<and>
    (\<forall>k. no_quest d' k \<longrightarrow> no_quest d k) \<and> wallet_left d' \<le> wallet_left d \<and> (b \<longrightarrow> wallet_left d' < wallet_left d)"
  using assms
proof (induction ms arbitrary: d b)
  case (Cons m ms)
  from Cons.prems(1) obtain ids where ids: "qm_beforeQuestIds m = Some ids" by (auto split: option.splits)
  show ?case
  proof (cases "all_completed quests (split_comma ids)")
    case False
    with Cons ids show ?thesis by simp
  next
    case True
    with Cons.prems(1) ids obtain d1 b1 where 1: "create_quest (ck, qm_id m) (new_quest env) d = Inr d1"
      and 2: "open_quests env ck quests ms d1 = (Inr b1, d')" and b: "b = (qm_progressType m = CONNECT_WALLET \<or> b1)"
      by (auto split: sum.splits prod.splits)
    have d1: "t_chainMasters d1 = t_chainMasters d" "t_questChains d1 = t_questChains d"
      and new: "no_quest d (ck, qm_id m)" "no_quest d1 k = (k \<noteq> (ck, qm_id m) \<and> no_quest d k)" for k
      using 1 quest_tab.create_find [OF 1] by (auto simp: quest_tab.create_Inr put_defs no_quest_def)
    have "wallet_left d1 \<le> wallet_left d" by (rule wallet_left_mono) (simp_all add: d1 new)
    moreover have "wallet_left d1 < wallet_left d" if "qm_progressType m = CONNECT_WALLET"
      by (rule wallet_left_less [where ck = ck and m = m]) (use Cons.prems that in \<open>auto simp: d1 new\<close>)
    moreover have "t_chainMasters d' = t_chainMasters d1 \<and> t_questChains d' = t_questChains d1 \<and>
        (\<forall>k. no_quest d' k \<longrightarrow> no_quest d1 k) \<and> wallet_left d' \<le> wallet_left d1 \<and> (b1 \<longrightarrow> wallet_left d' < wallet_left d1)"
      using Cons.IH [OF 2] Cons.prems(2,3) d1 by (simp add: masters_of_def)
    ultimately show ?thesis using d1 new b by auto
  qed
qed auto

lemma open_chains_left:
  assumes "open_chains env cs d = (Inr b, d')" and "\<forall>x \<in> set cs. fst x \<in> fst ` set (t_questChains d)"
  shows "wallet_left d' \<le> wallet_left d \<and> (b \<longrightarrow> wallet_left d' < wallet_left d)"
  using assms
proof (induction cs arbitrary: d b)
  case (Cons x cs)
  obtain ck quests where x: "x = (ck, quests)" by fastforce
  from Cons.prems(1) x obtain m where m: "map_of (t_chainMasters d) (snd ck) = Some m" by (auto split: option.splits)
  from Cons.prems(1) x m obtain b1 d1 b2 where 1: "open_quests env ck quests (notOpenQuests m quests) d = (Inr b1, d1)"
    and 2: "open_chains env cs d1 = (Inr b2, d')" and b: "b = (b1 \<or> b2)"
    by (auto split: sum.splits prod.splits)
  from Cons.prems(2) x obtain c where c: "(ck, c) \<in> set (t_questChains d)" by auto
  have "set (notOpenQuests m quests) \<subseteq> set (masters_of ck d)" by (auto simp: notOpenQuests_def masters_of_def m)
  from open_quests_left [OF 1 this c] have d1: "t_questChains d1 = t_questChains d" "wallet_left d1 \<le> wallet_left d"
    "b1 \<longrightarrow> wallet_left d1 < wallet_left d" by auto
  from Cons.IH [OF 2] Cons.prems(2) d1(1) have "wallet_left d' \<le> wallet_left d1 \<and> (b2 \<longrightarrow> wallet_left d' < wallet_left d1)" by simp
  with d1 b show ?case by auto
qed simp

lemma check_pass_left:
  assumes "check_pass env ctx newId random other d = (Inr True, d')" and "\<And>i e. wallet_left (other i e) \<le> wallet_left e"
  shows "wallet_left d' < wallet_left d"
proof -
  from assms(1) obtain d1 where 1: "check_quests env ctx newId random other 0 (getInProgressQuests ctx d) d = (Inr (Some True), d1)"
    and 2: "open_chains env (open_chain_list env ctx d1) d1 = (Inr True, d')"
    by (auto simp: check_pass_def split: prod.splits sum.splits option.splits bool.splits)
  have "wallet_left d' < wallet_left d1"
    using open_chains_left [OF 2] by (force simp: open_chain_list_def)
  with check_quests_left [OF 1 assms(2)] show ?thesis by simp
qed

text \<open>
  (C35) The check of the quests ends although it starts itself again: every repetition has opened
  a quest about the wallet that was not open before, and there are finitely many of them.  With one
  pass more than there are such quests it has an answer, as long as the requests in between do not
  add further ones.
\<close>

theorem quest_check_ends:
  assumes "\<And>k i e. wallet_left (other k i e) \<le> wallet_left e" and "wallet_left d < fuel"
  shows "checkAndUpdate fuel env ctx newId random other d \<noteq> None"
  using assms(2)
proof (induction fuel arbitrary: d)
  case (Suc fuel)
  obtain r d1 where 1: "check_pass env ctx (newId fuel) (random fuel) (other fuel) d = (r, d1)" by fastforce
  show ?case
  proof (cases "r = Inr True")
    case True
    with check_pass_left [of env ctx "newId fuel" "random fuel" "other fuel" d d1] 1 assms(1) Suc.prems
    have "wallet_left d1 < fuel" by simp
    with Suc.IH [of d1] True 1 show ?thesis by simp
  qed (use 1 in \<open>auto split: sum.splits bool.splits\<close>)
qed simp

section \<open>Quests open in order\<close>

definition is_done :: "db \<Rightarrow> chain_key \<Rightarrow> string \<Rightarrow> bool" where
  "is_done d ck i \<longleftrightarrow> (\<exists>r. map_of (t_quests d) (ck, i) = Some r \<and> qu_completedAt r \<noteq> None)"

text \<open>Ids of quest masters are unique, and every open quest has all the quests in front of it completed.\<close>

definition masters_ok :: "db \<Rightarrow> bool" where
  "masters_ok d \<longleftrightarrow> (\<forall>ck. distinct (map qm_id (masters_of ck d)))"

definition in_order :: "db \<Rightarrow> bool" where
  "in_order d \<longleftrightarrow>
     (\<forall>ck m ids i. \<not> no_quest d (ck, qm_id m) \<longrightarrow> m \<in> set (masters_of ck d) \<longrightarrow> qm_beforeQuestIds m = Some ids \<longrightarrow>
        i \<in> set (split_comma ids) \<longrightarrow> is_done d ck i)"

definition quests_ok :: "db \<Rightarrow> bool" where
  "quests_ok d \<longleftrightarrow> masters_ok d \<and> in_order d"

lemma quests_ok_cong: "quest_tables d' = quest_tables d \<Longrightarrow> quests_ok d' = quests_ok d"
  by (simp add: quest_tables_def quests_ok_def masters_ok_def in_order_def masters_of_def no_quest_def is_done_def)

lemma quests_ok_mono:
  assumes "quests_ok d" and "t_chainMasters d' = t_chainMasters d"
    and "\<And>ck m. m \<in> set (masters_of ck d) \<Longrightarrow> \<not> no_quest d' (ck, qm_id m) \<Longrightarrow>
      \<not> no_quest d (ck, qm_id m) \<and> (\<forall>i. is_done d ck i \<longrightarrow> is_done d' ck i) \<or>
      (\<forall>ids i. qm_beforeQuestIds m = Some ids \<longrightarrow> i \<in> set (split_comma ids) \<longrightarrow> is_done d' ck i)"
  shows "quests_ok d'"
proof -
  have m: "masters_of ck d' = masters_of ck d" for ck by (simp add: masters_of_def assms(2))
  have "is_done d' ck i" if "\<not> no_quest d' (ck, qm_id m)" "m \<in> set (masters_of ck d)" "qm_beforeQuestIds m = Some ids"
    "i \<in> set (split_comma ids)" for ck m ids i
    using assms(3) [OF that(2,1)] assms(1) that unfolding quests_ok_def in_order_def by blast
  with assms(1) show ?thesis unfolding quests_ok_def masters_ok_def in_order_def m by blast
qed

lemma complete_ok:
  assumes "complete_quest env k d = Inr d'" and "quests_ok d" shows "quests_ok d'"
proof (rule quests_ok_mono [OF assms(2)])
  note q = assms(1) [unfolded complete_quest_def]
  show "t_chainMasters d' = t_chainMasters d" using q by (auto simp: quest_tab.update_Inr put_defs)
  show "\<not> no_quest d (ck, qm_id m) \<and> (\<forall>i. is_done d ck i \<longrightarrow> is_done d' ck i) \<or>
      (\<forall>ids i. qm_beforeQuestIds m = Some ids \<longrightarrow> i \<in> set (split_comma ids) \<longrightarrow> is_done d' ck i)"
    if "\<not> no_quest d' (ck, qm_id m)" for ck m
    using that quest_tab.update_find(1) [OF q] by (auto simp: no_quest_def is_done_def split: if_splits)
qed

lemma delete_ok:
  assumes "run_tx [delete_quests ck, delete_chain ck] d = Inr d'" and "quests_ok d" shows "quests_ok d'"
proof (rule quests_ok_mono [OF assms(2)])
  have d': "t_quests d' = filter (\<lambda>((c, _), _). c \<noteq> ck) (t_quests d)" "t_chainMasters d' = t_chainMasters d"
    using assms(1) by (auto simp: delete_quests_def delete_chain_def put_defs split: if_splits)
  then show "t_chainMasters d' = t_chainMasters d" by simp
  fix ck' m assume q: "\<not> no_quest d' (ck', qm_id m)"
  have "ck' \<noteq> ck"
  proof
    assume "ck' = ck"
    then have "map_of (t_quests d') (ck', qm_id m) = None" by (auto simp: d' map_of_eq_None_iff)
    with q show False by (simp add: no_quest_def)
  qed
  with q show "\<not> no_quest d (ck', qm_id m) \<and> (\<forall>i. is_done d ck' i \<longrightarrow> is_done d' ck' i) \<or>
      (\<forall>ids i. qm_beforeQuestIds m = Some ids \<longrightarrow> i \<in> set (split_comma ids) \<longrightarrow> is_done d' ck' i)"
    by (simp add: no_quest_def is_done_def d' map_of_other_chain)
qed

text \<open>A new quest of a chain whose predecessors are done.\<close>

lemma create_quest_ok:
  assumes "create_quest (ck, qm_id m) r d = Inr d'" and "quests_ok d" and "m \<in> set (masters_of ck d)"
    and "\<And>ids i. qm_beforeQuestIds m = Some ids \<Longrightarrow> i \<in> set (split_comma ids) \<Longrightarrow> is_done d ck i"
  shows "quests_ok d'" and "is_done d ck' i \<Longrightarrow> is_done d' ck' i" and "t_chainMasters d' = t_chainMasters d"
proof -
  note find = quest_tab.create_find [OF assms(1)] and new = quest_tab.create_Inr [THEN iffD1, OF assms(1)]
  from new have none: "map_of (t_quests d) (ck, qm_id m) = None" by blast
  have mono: "is_done d ck' i \<Longrightarrow> is_done d' ck' i" for ck' i using none by (auto simp: is_done_def find)
  from mono show "is_done d ck' i \<Longrightarrow> is_done d' ck' i" .
  show masters: "t_chainMasters d' = t_chainMasters d" using new by (auto simp: put_defs)
  have unique: "m' = m" if "m' \<in> set (masters_of ck d)" "qm_id m' = qm_id m" for m'
  proof -
    from assms(2) have "inj_on qm_id (set (masters_of ck d))" unfolding quests_ok_def masters_ok_def distinct_map by blast
    with that assms(3) show ?thesis by (auto dest: inj_onD)
  qed
  show "quests_ok d'"
  proof (rule quests_ok_mono [OF assms(2) masters])
    fix ck' m' assume m': "m' \<in> set (masters_of ck' d)" and q: "\<not> no_quest d' (ck', qm_id m')"
    show "\<not> no_quest d (ck', qm_id m') \<and> (\<forall>i. is_done d ck' i \<longrightarrow> is_done d' ck' i) \<or>
      (\<forall>ids i. qm_beforeQuestIds m' = Some ids \<longrightarrow> i \<in> set (split_comma ids) \<longrightarrow> is_done d' ck' i)"
    proof (cases "(ck', qm_id m') = (ck, qm_id m)")
      case True
      with unique m' assms(4) mono show ?thesis by blast
    next
      case False
      with q find mono show ?thesis by (auto simp: no_quest_def)
    qed
  qed
qed

lemma open_quests_ok:
  assumes "open_quests env ck quests ms d = (r, d')" and "quests_ok d" and "set ms \<subseteq> set (masters_of ck d)"
    and "\<And>i q. map_of quests i = Some q \<Longrightarrow> qu_completedAt q \<noteq> None \<Longrightarrow> is_done d ck i"
  shows "quests_ok d' \<and> t_chainMasters d' = t_chainMasters d \<and> (\<forall>ck i. is_done d ck i \<longrightarrow> is_done d' ck i)"
  using assms
proof (induction ms arbitrary: d r d')
  case (Cons m ms)
  show ?case
  proof (cases "qm_beforeQuestIds m")
    case None
    with Cons.prems show ?thesis by simp
  next
    case (Some ids)
    show ?thesis
    proof (cases "all_completed quests (split_comma ids)")
      case False
      with Cons Some show ?thesis by simp
    next
      case True
      have before: "is_done d ck i" if "qm_beforeQuestIds m = Some ids'" "i \<in> set (split_comma ids')" for ids' i
        using True that Some Cons.prems(4) by (force simp: all_completed_def list_all_iff split: option.splits)
      show ?thesis
      proof (cases "open_quest (ck, qm_id m) (new_quest env) d")
        case (Inl e)
        with Cons.prems(1,2) Some True show ?thesis by simp
      next
        case (Inr d1)
        from Cons.prems(3) have m: "m \<in> set (masters_of ck d)" by simp
        have c: "quests_ok d1" "\<And>ck i. is_done d ck i \<Longrightarrow> is_done d1 ck i" "t_chainMasters d1 = t_chainMasters d"
          using create_quest_ok [OF open_quest_Inr [THEN iffD1, OF Inr, THEN conjunct2] Cons.prems(2) m] before by blast+
        obtain r2 d2 where 2: "open_quests env ck quests ms d1 = (r2, d2)" by fastforce
        have "quests_ok d2 \<and> t_chainMasters d2 = t_chainMasters d1 \<and> (\<forall>ck i. is_done d1 ck i \<longrightarrow> is_done d2 ck i)"
          using Cons.IH [OF 2 c(1)] Cons.prems(3,4) c(2,3) by (auto simp: masters_of_def)
        moreover have "d' = d2" using Cons.prems(1) Some True Inr 2 by (auto split: sum.splits)
        ultimately show ?thesis using c(2,3) by auto
      qed
    qed
  qed
qed simp

lemma check_quest_ok:
  assumes "check_quest env ctx newId random other x d = (r, d')" and "quests_ok d" and "\<And>e. quests_ok e \<Longrightarrow> quests_ok (other e)"
  shows "quests_ok d'"
proof -
  obtain ck questId q where x: "x = ((ck, questId), q)" by (metis prod.collapse)
  have other: "quests_ok (other d)" by (rule assms(3) [OF assms(2)])
  from assms(1) [unfolded x] show ?thesis
  proof (cases rule: check_quest_cases)
    case 1
    with assms(2) show ?thesis by simp
  next
    case 2
    with quests_ok_cong [OF 2] other show ?thesis by simp
  next
    case (3 e)
    with quests_ok_cong [OF 3(1)] complete_ok [OF 3(2)] other show ?thesis by simp
  next
    case 4
    from delete_ok [OF 4 other] show ?thesis .
  qed
qed

lemma check_quests_ok:
  assumes "check_quests env ctx newId random other i xs d = (r, d')" and "quests_ok d"
    and "\<And>i e. quests_ok e \<Longrightarrow> quests_ok (other i e)"
  shows "quests_ok d'"
  using assms(1,2)
proof (induction xs arbitrary: i d r d')
  case (Cons x xs)
  obtain c d1 where 1: "check_quest env ctx (newId i) (random i) (other i) x d = (c, d1)" by fastforce
  obtain c2 d2 where 2: "check_quests env ctx newId random other (Suc i) xs d1 = (c2, d2)" by fastforce
  from Cons.prems(1) 1 2 have "d' = d1 \<or> d' = d2"
    by (auto split: sum.splits quest_check.splits option.splits)
  moreover have "quests_ok d1" by (rule check_quest_ok [OF 1 Cons.prems(2) assms(3)])
  ultimately show ?case using Cons.IH [OF 2] by blast
qed simp

lemma map_of_quests_of: "map_of (quests_of ck d) i = map_of (t_quests d) (ck, i)"
proof -
  have "map_of (map (\<lambda>((_, q), r). (q, r)) (filter (\<lambda>((c, _), _). c = ck) t)) i = map_of t (ck, i)"
    for t :: "(chain_key \<times> string, quest_row) table"
    by (induction t) auto
  then show ?thesis by (simp add: quests_of_def)
qed

lemma open_chains_ok:
  assumes "open_chains env cs d = (r, d')" and "quests_ok d"
    and "\<And>ck quests i q. (ck, quests) \<in> set cs \<Longrightarrow> map_of quests i = Some q \<Longrightarrow> qu_completedAt q \<noteq> None \<Longrightarrow> is_done d ck i"
  shows "quests_ok d'"
  using assms
proof (induction cs arbitrary: d r d')
  case (Cons x cs)
  obtain ck quests where x: "x = (ck, quests)" by fastforce
  show ?case
  proof (cases "map_of (t_chainMasters d) (snd ck)")
    case None
    with Cons.prems x show ?thesis by simp
  next
    case (Some m)
    obtain r1 d1 where 1: "open_quests env ck quests (notOpenQuests m quests) d = (r1, d1)" by fastforce
    obtain r2 d2 where 2: "open_chains env cs d1 = (r2, d2)" by fastforce
    have "set (notOpenQuests m quests) \<subseteq> set (masters_of ck d)" by (auto simp: notOpenQuests_def masters_of_def Some)
    moreover have "is_done d ck i" if "map_of quests i = Some q" "qu_completedAt q \<noteq> None" for i q
      by (rule Cons.prems(3) [OF _ that]) (simp add: x)
    ultimately have d1: "quests_ok d1" "\<And>ck i. is_done d ck i \<Longrightarrow> is_done d1 ck i"
      using open_quests_ok [OF 1 Cons.prems(2)] by blast+
    have "quests_ok d2" using Cons.IH [OF 2 d1(1)] Cons.prems(3) d1(2) by fastforce
    moreover have "d' = d1 \<or> d' = d2" using Cons.prems(1) x Some 1 2 by (auto split: sum.splits)
    ultimately show ?thesis using d1(1) by blast
  qed
qed simp

lemma check_pass_ok:
  assumes "check_pass env ctx newId random other d = (r, d')" and "quests_ok d"
    and "\<And>i e. quests_ok e \<Longrightarrow> quests_ok (other i e)"
  shows "quests_ok d'"
proof -
  obtain c d1 where 1: "check_quests env ctx newId random other 0 (getInProgressQuests ctx d) d = (c, d1)" by fastforce
  have d1: "quests_ok d1" by (rule check_quests_ok [OF 1 assms(2,3)])
  obtain c2 d2 where 2: "open_chains env (open_chain_list env ctx d1) d1 = (c2, d2)" by fastforce
  have "quests_ok d2"
    by (rule open_chains_ok [OF 2 d1]) (auto simp: open_chain_list_def is_done_def map_of_quests_of)
  moreover have "d' = d1 \<or> d' = d2" using assms(1) 1 2 by (auto simp: check_pass_def split: sum.splits option.splits bool.splits)
  ultimately show ?thesis using d1 by blast
qed

lemma checkAndUpdate_ok:
  assumes "checkAndUpdate fuel env ctx newId random other d = Some (r, d')" and "quests_ok d"
    and "\<And>k i e. quests_ok e \<Longrightarrow> quests_ok (other k i e)"
  shows "quests_ok d'"
  using assms(1,2)
proof (induction fuel arbitrary: d)
  case (Suc fuel)
  obtain r1 d1 where 1: "check_pass env ctx (newId fuel) (random fuel) (other fuel) d = (r1, d1)" by fastforce
  have "quests_ok d1" by (rule check_pass_ok [OF 1 Suc.prems(2) assms(3)])
  with 1 Suc show ?case by (auto split: sum.splits bool.splits)
qed simp

section \<open>Accepting a chain\<close>

text \<open>The first quests of a chain have nothing in front of them.\<close>

lemma first_quests_ok:
  assumes "run_tx (map (\<lambda>q. create_quest (ck, qm_id q) (new_quest env)) ms) d = Inr d'" and "quests_ok d"
    and "\<forall>m \<in> set ms. m \<in> set (masters_of ck d) \<and> qm_beforeQuestIds m = None"
  shows "quests_ok d'"
  using assms
proof (induction ms arbitrary: d)
  case (Cons m ms)
  from Cons.prems(1) obtain d1 where 1: "create_quest (ck, qm_id m) (new_quest env) d = Inr d1"
    and 2: "run_tx (map (\<lambda>q. create_quest (ck, qm_id q) (new_quest env)) ms) d1 = Inr d'" by (auto split: sum.splits)
  from Cons.prems(3) have m: "m \<in> set (masters_of ck d)" "qm_beforeQuestIds m = None" by auto
  have d1: "quests_ok d1" "t_chainMasters d1 = t_chainMasters d"
    using create_quest_ok [OF 1 Cons.prems(2) m(1)] m(2) by auto
  with Cons.IH [OF 2] Cons.prems(3) show ?case by (simp add: masters_of_def)
qed simp

lemma user_quest_frame: "update_user u c f d = Inr d' \<Longrightarrow> quest_tables d' = quest_tables d"
  by (auto simp: user_tab.update_Inr put_defs quest_tables_def)

lemma ticket_quest_frame: "create_ticketTransaction k r d = Inr d' \<Longrightarrow> quest_tables d' = quest_tables d"
  by (auto simp: ticketTransaction_tab.create_Inr put_defs quest_tables_def)

lemma price_frame:
  assumes "run_tx (price_queries u newId user masterId m used) d = Inr d'" shows "quest_tables d' = quest_tables d"
proof (rule run_tx_frame [OF _ assms])
  fix q x x' assume "q \<in> set (price_queries u newId user masterId m used)" and "q x = Inr x'"
  then show "quest_tables x' = quest_tables x"
    by (auto simp: price_queries_def use_tickets_def writeOpenQuestTransaction_def
        split: StartQuestChainCurrencyType.splits option.splits dest: user_quest_frame ticket_quest_frame)
qed

lemma chain_queries_ok:
  assumes "run_tx (chain_queries env u masterId m) d = Inr d'" and "quests_ok d" and "map_of (t_chainMasters d) masterId = Some m"
  shows "quests_ok d'"
proof -
  from assms(1) obtain d1 where 1: "create_questChain (u, masterId) (new_chain env) d = Inr d1"
    and 2: "run_tx (map (\<lambda>q. create_quest ((u, masterId), qm_id q) (new_quest env))
      (filter (\<lambda>q. qm_beforeQuestIds q = None) (qc_quests m))) d1 = Inr d'"
    by (auto simp: chain_queries_def split: sum.splits)
  from 1 have d1: "t_quests d1 = t_quests d" "t_chainMasters d1 = t_chainMasters d"
    by (auto simp: questChain_tab.create_Inr put_defs)
  then have "quests_ok d1" using assms(2)
    by (simp add: quests_ok_def masters_ok_def in_order_def masters_of_def no_quest_def is_done_def)
  from first_quests_ok [OF 2 this] show ?thesis using assms(3) d1(2) by (simp add: masters_of_def)
qed

lemma startQuestChain_ok:
  assumes "startQuestChain env ctx newId masterId used other d = (r, d')" and "quests_ok d"
    and "quests_ok (other d)" and "t_chainMasters (other d) = t_chainMasters d"
  shows "quests_ok d'"
proof (cases "d' = d \<or> d' = other d")
  case False
  with assms(1) obtain u user m where m: "map_of (t_chainMasters d) masterId = Some m"
    and run: "run_tx (chain_queries env u masterId m @ price_queries u newId user masterId m used) (other d) = Inr d'"
    by (auto simp: startQuestChain_def split: option.splits if_splits sum.splits)
  from run obtain d1 where 1: "run_tx (chain_queries env u masterId m) (other d) = Inr d1"
    and 2: "run_tx (price_queries u newId user masterId m used) d1 = Inr d'"
    by (auto simp: run_tx_append split: sum.splits)
  from chain_queries_ok [OF 1 assms(3)] m assms(4) have "quests_ok d1" by simp
  with quests_ok_cong [OF price_frame [OF 2]] show ?thesis by simp
qed (use assms(2,3) in auto)

end
