(* ===== verification/Quest_Payments.thy ===== *)
theory Quest_Payments
  imports Quest_Props
begin

text \<open>
  What accepting a chain of quests costs and what finishing it pays, the second payment that two
  simultaneous requests obtain, and the order of the quests over any run of the operations.
\<close>

section \<open>The rewards of a chain\<close>

definition teras_amount :: "quest_reward_master \<Rightarrow> int" where
  "teras_amount r = (if qr_itemType r = Q_TERAS then qr_amount r else 0)"

definition chain_frame :: "db \<Rightarrow> (user_id, user_row) table \<times> (string, quest_chain_master_row) table \<times>
    (chain_key, quest_chain_row) table \<times> (chain_key \<times> string, quest_row) table" where
  "chain_frame d = (t_users d, quest_tables d)"

lemma item_frames:
  "create_arcadePart k r d = Inr d' \<Longrightarrow> chain_frame d' = chain_frame d"
  "rewardJunkPart ctx c s n d = Inr d' \<Longrightarrow> chain_frame d' = chain_frame d"
  "rewardCollectibleItem ctx i s d = Inr d' \<Longrightarrow> chain_frame d' = chain_frame d"
  by (auto simp: chain_frame_def quest_tables_def put_defs arcadePart_tab.create_Inr rewardJunkPart_def
      rewardCollectibleItem_def invalid_query_def split: option.splits dest!: upsert_frame [where g = chain_frame])

lemma map_sum_Inr: "map_sum f g x = Inr y \<longleftrightarrow> (\<exists>z. x = Inr z \<and> y = g z)"
  by (cases x) auto

lemma other_reward_frame:
  assumes "chain_reward env ctx newId random r = Inr (qs, ds)" and "run_tx qs d = Inr d'" and "qr_itemType r \<noteq> Q_TERAS"
  shows "chain_frame d' = chain_frame d"
proof (rule run_tx_frame [OF _ assms(2)])
  fix q x x' assume "q \<in> set qs" and "q x = Inr x'"
  then show "chain_frame x' = chain_frame x"
    using assms(1,3)
    by (auto simp: chain_reward_def with_category_def rewardArcadePart_def rewardRandomArcadePart_def
        rewardRandomJunkPart_def invalid_query_def bind_res_Inr_iff map_sum_Inr Let_def
        split: QuestRewardType.splits reward_category.splits sum.splits dest: item_frames)
qed

lemma chain_reward_pay:
  assumes "chain_reward env ctx newId random r = Inr (qs, ds)" and "run_tx qs d = Inr d'"
  shows "teras_of d' v = teras_of d v + (if ctx_userId ctx = Some v then teras_amount r else 0) \<and>
    quest_tables d' = quest_tables d"
proof (cases "qr_itemType r = Q_TERAS")
  case True
  with assms obtain u where u: "ctx_userId ctx = Some u"
    and q: "update_user u (\<lambda>_. True) (\<lambda>x. x\<lparr>terasBalance := terasBalance x + qr_amount r\<rparr>) d = Inr d'"
    by (auto simp: chain_reward_def rewardTeras_def invalid_query_def split: option.splits sum.splits)
  show ?thesis using user_increment_find [OF q] user_quest_frame [OF q] True u
    by (auto simp: teras_of_def teras_amount_def split: option.splits)
next
  case False
  with other_reward_frame [OF assms] show ?thesis
    by (simp add: chain_frame_def teras_of_def teras_amount_def)
qed

lemma chain_rewards_pay:
  assumes "map_res (\<lambda>(i, r). chain_reward env ctx (newId i) (random i) r) (enumerate n rs) = Inr xs"
    and "run_tx (concat (map fst xs)) d = Inr d'"
  shows "teras_of d' v = teras_of d v + (if ctx_userId ctx = Some v then sum_list (map teras_amount rs) else 0) \<and>
    quest_tables d' = quest_tables d"
  using assms
proof (induction rs arbitrary: n xs d)
  case (Cons r rs)
  from Cons.prems(1) obtain qs ds ys where 1: "chain_reward env ctx (newId n) (random n) r = Inr (qs, ds)"
    and 2: "map_res (\<lambda>(i, r). chain_reward env ctx (newId i) (random i) r) (enumerate (Suc n) rs) = Inr ys"
    and xs: "xs = (qs, ds) # ys" by (auto split: sum.splits)
  from Cons.prems(2) xs obtain d1 where "run_tx qs d = Inr d1" and 3: "run_tx (concat (map fst ys)) d1 = Inr d'"
    by (auto simp: run_tx_append split: sum.splits)
  with chain_reward_pay [OF 1, of d d1 v] Cons.IH [OF 2 3] show ?case by (simp add: algebra_simps)
qed simp

lemma chain_queries_pay:
  assumes "chain_rewards env ctx newId random m = Inr (qs, rewards)" and "run_tx qs d = Inr d'"
  shows "teras_of d' v = teras_of d v + (if ctx_userId ctx = Some v then sum_list (map teras_amount (qc_rewards m)) else 0) \<and>
    quest_tables d' = quest_tables d"
proof -
  from assms(1) obtain xs where "map_res (\<lambda>(i, r). chain_reward env ctx (newId i) (random i) r) (enumerate 0 (qc_rewards m)) = Inr xs"
    and "qs = concat (map fst xs)"
    unfolding chain_rewards_def map_sum_Inr by auto
  with chain_rewards_pay assms(2) show ?thesis by blast
qed

section \<open>Finishing a chain\<close>

lemma complete_chain_run:
  assumes "complete_chain ck d = Inr d'"
  shows "map_of (t_questChains d') ck' = (if ck' = ck then map_option (\<lambda>c. c\<lparr>ch_completed := True\<rparr>) (map_of (t_questChains d) ck)
      else map_of (t_questChains d) ck')"
    and "map_of (t_questChains d) ck \<noteq> None" and "t_users d' = t_users d" and "t_quests d' = t_quests d"
    and "t_chainMasters d' = t_chainMasters d"
  using questChain_tab.update_find(1) [OF assms [unfolded complete_chain_def], of ck'] assms
  by (auto simp: complete_chain_def questChain_tab.update_Inr put_defs)

lemma finish_cases:
  assumes "finishQuestChain env ctx newId random masterId other d = (Inr rewards, d')"
  obtains u m c qs where "ctx_userId ctx = Some u" and "map_of (t_chainMasters d) masterId = Some m"
    and "\<not> out_of_term env m" and "map_of (t_questChains d) (u, masterId) = Some c" and "\<not> ch_completed c"
    and "\<not> (case ch_expiredAt c of None \<Rightarrow> False | Some t \<Rightarrow> t < env_now env)"
    and "completed_count (u, masterId) d = length (qc_quests m)"
    and "chain_rewards env ctx newId random m = Inr (qs, rewards)"
    and "run_tx (complete_chain (u, masterId) # qs) (other d) = Inr d'"
proof -
  from assms obtain m where m: "map_of (t_chainMasters d) masterId = Some m" "\<not> out_of_term env m"
    by (auto simp: finishQuestChain_def split: option.splits if_splits)
  with assms obtain u where u: "ctx_userId ctx = Some u" by (auto simp: finishQuestChain_def split: option.splits)
  with assms m obtain c where c: "map_of (t_questChains d) (u, masterId) = Some c"
    by (auto simp: finishQuestChain_def split: option.splits)
  with assms m u have open': "\<not> ch_completed c" "\<not> (case ch_expiredAt c of None \<Rightarrow> False | Some t \<Rightarrow> t < env_now env)"
    "completed_count (u, masterId) d = length (qc_quests m)"
    by (auto simp: finishQuestChain_def split: if_splits)
  with assms m u c obtain qs where "chain_rewards env ctx newId random m = Inr (qs, rewards)"
    "run_tx (complete_chain (u, masterId) # qs) (other d) = Inr d'"
    by (auto simp: finishQuestChain_def simp del: run_tx.simps split: sum.splits)
  with that u m c open' show thesis by blast
qed

lemma finish_effect:
  assumes "run_tx (complete_chain (u, masterId) # qs) d = Inr d'" and "chain_rewards env ctx newId random m = Inr (qs, rewards)"
  shows "teras_of d' v = teras_of d v + (if ctx_userId ctx = Some v then sum_list (map teras_amount (qc_rewards m)) else 0)"
    and "map_of (t_questChains d') (u, masterId) = map_option (\<lambda>c. c\<lparr>ch_completed := True\<rparr>) (map_of (t_questChains d) (u, masterId))"
    and "t_quests d' = t_quests d" and "t_chainMasters d' = t_chainMasters d"
proof -
  from assms(1) obtain d1 where 1: "complete_chain (u, masterId) d = Inr d1" and 2: "run_tx qs d1 = Inr d'"
    by (auto split: sum.splits)
  note c = complete_chain_run [OF 1] and p = chain_queries_pay [OF assms(2) 2]
  show "teras_of d' v = teras_of d v + (if ctx_userId ctx = Some v then sum_list (map teras_amount (qc_rewards m)) else 0)"
    using p [of v] c(3) by (simp add: teras_of_def)
  show "map_of (t_questChains d') (u, masterId) = map_option (\<lambda>c. c\<lparr>ch_completed := True\<rparr>) (map_of (t_questChains d) (u, masterId))"
    "t_quests d' = t_quests d" "t_chainMasters d' = t_chainMasters d"
    using p c(1,4,5) by (simp_all add: quest_tables_def)
qed

text \<open>
  Finishing a chain needs as many completed quests as its master has, pays exactly the Teras
  rewards of the master to the user and to nobody else, and marks the chain; a second request
  that comes afterwards is refused.
\<close>

lemma finish_pays_the_chain:
  assumes "finishQuestChain env ctx newId random masterId other d = (Inr rewards, d')" and "t_questChains (other d) = t_questChains d"
    and "t_chainMasters (other d) = t_chainMasters d"
  shows "\<exists>u m e. ctx_userId ctx = Some u \<and> map_of (t_chainMasters d) masterId = Some m \<and>
    completed_count (u, masterId) d = length (qc_quests m) \<and>
    (\<forall>v. teras_of d' v = teras_of (other d) v + (if v = u then sum_list (map teras_amount (qc_rewards m)) else 0)) \<and>
    fst (finishQuestChain env ctx newId2 random2 masterId other2 d') = Inl e"
proof -
  from assms(1) show ?thesis
  proof (rule finish_cases)
    fix u m c qs
    assume u: "ctx_userId ctx = Some u" and m: "map_of (t_chainMasters d) masterId = Some m" and t: "\<not> out_of_term env m"
      and c: "map_of (t_questChains d) (u, masterId) = Some c"
      and count: "completed_count (u, masterId) d = length (qc_quests m)"
      and q: "chain_rewards env ctx newId random m = Inr (qs, rewards)"
      and run: "run_tx (complete_chain (u, masterId) # qs) (other d) = Inr d'"
    note f = finish_effect [OF run q]
    from f(2,4) c assms(2,3) m t u
    have "fst (finishQuestChain env ctx newId2 random2 masterId other2 d') =
        Inl (IllegalStateUseCaseError ''this chain is already completed'')"
      by (simp add: finishQuestChain_def)
    with u m count f(1) show ?thesis by auto
  qed
qed

section \<open>Two simultaneous requests\<close>

lemma teras_rewards_succeed:
  assumes "\<forall>r \<in> set rs. qr_itemType r = Q_TERAS \<and> 0 \<le> qr_amount r" and "ctx_userId ctx = Some u"
    and "user_tab.all_ok d" and "map_of (t_users d) u \<noteq> None"
  shows "\<exists>xs d'. map_res (\<lambda>(i, r). chain_reward env ctx (newId i) (random i) r) (enumerate n rs) = Inr xs \<and>
    run_tx (concat (map fst xs)) d = Inr d'"
  using assms
proof (induction rs arbitrary: n d)
  case (Cons r rs)
  let ?f = "\<lambda>x. x\<lparr>terasBalance := terasBalance x + qr_amount r\<rparr>"
  from Cons.prems(4) obtain x where x: "map_of (t_users d) u = Some x" by auto
  have "user_ok x" by (rule user_tab.all_okD [OF Cons.prems(3) x])
  then have "check_user u (?f x) (apply_row ?f u (t_users d)) = None"
    using Cons.prems(1) by (auto simp: user_ok_def check_user_def violated_def)
  then obtain d1 where d1: "update_user u (\<lambda>_. True) ?f d = Inr d1" using x by (simp add: update_where_def)
  have "user_tab.all_ok d1" by (rule preservesD [OF user_tab.update_ok Cons.prems(3) d1])
  moreover have "map_of (t_users d1) u \<noteq> None" using user_tab.update_find(1) [OF d1, of u] x by simp
  moreover have "\<forall>r \<in> set rs. qr_itemType r = Q_TERAS \<and> 0 \<le> qr_amount r" using Cons.prems(1) by simp
  ultimately obtain xs d' where xs: "map_res (\<lambda>(i, r). chain_reward env ctx (newId i) (random i) r) (enumerate (Suc n) rs) = Inr xs"
    and run: "run_tx (concat (map fst xs)) d1 = Inr d'"
    using Cons.IH [OF _ Cons.prems(2), of d1 "Suc n"] by blast
  have "chain_reward env ctx (newId n) (random n) r =
      Inr ([update_user u (\<lambda>_. True) ?f], [((R_TERAS, TERAS_CATEGORY, None), qr_amount r)])"
    using Cons.prems(1,2) by (simp add: chain_reward_def rewardTeras_def)
  with xs run d1 show ?case by simp
next
  case Nil
  show ?case by simp
qed

text \<open>
  (C36) The write of \<open>completed\<close> has no condition, so a chain is paid twice: when a request has
  finished a chain whose rewards are Teras, another one that read the database before is written
  as well and adds the same Teras once more.
\<close>

theorem chain_paid_twice:
  assumes "finishQuestChain env ctx newId random masterId (\<lambda>d. d) d = (Inr rewards, d')"
    and "map_of (t_chainMasters d) masterId = Some m"
    and "\<forall>r \<in> set (qc_rewards m). qr_itemType r = Q_TERAS \<and> 0 \<le> qr_amount r"
    and "user_tab.all_ok d'" and "ctx_userId ctx = Some u" and "map_of (t_users d') u \<noteq> None"
  shows "\<exists>rewards2 d''. finishQuestChain env ctx newId2 random2 masterId (\<lambda>_. d') d = (Inr rewards2, d'') \<and>
    (\<forall>v. teras_of d'' v - teras_of d' v = teras_of d' v - teras_of d v)"
  using assms(1)
proof (rule finish_cases)
  fix v m' c qs
  assume v: "ctx_userId ctx = Some v" and m': "map_of (t_chainMasters d) masterId = Some m'" and t: "\<not> out_of_term env m'"
    and c: "map_of (t_questChains d) (v, masterId) = Some c" "\<not> ch_completed c"
      "\<not> (case ch_expiredAt c of None \<Rightarrow> False | Some t \<Rightarrow> t < env_now env)"
      "completed_count (v, masterId) d = length (qc_quests m')"
    and q: "chain_rewards env ctx newId random m' = Inr (qs, rewards)"
    and run: "run_tx (complete_chain (v, masterId) # qs) d = Inr d'"
  have [simp]: "v = u" "m' = m" using v m' assms(2,5) by simp_all
  note f = finish_effect [OF run q]
  from f(2) c(1) have "map_of (t_questChains d') (u, masterId) \<noteq> None" by simp
  then obtain d1 where d1: "complete_chain (u, masterId) d' = Inr d1"
    by (auto simp: complete_chain_def update_where_def no_check_def)
  have "t_users d1 = t_users d'" by (rule complete_chain_run(3) [OF d1])
  then have "user_tab.all_ok d1" "map_of (t_users d1) u \<noteq> None"
    using assms(4,6) unfolding user_tab.all_ok_def by metis+
  from teras_rewards_succeed [OF assms(3,5) this, of env newId2 random2 0] obtain xs d''
    where xs: "map_res (\<lambda>(i, r). chain_reward env ctx (newId2 i) (random2 i) r) (enumerate 0 (qc_rewards m)) = Inr xs"
      and run1: "run_tx (concat (map fst xs)) d1 = Inr d''" by blast
  from xs have q2: "chain_rewards env ctx newId2 random2 m = Inr (concat (map fst xs), concat (map snd xs))"
    by (simp add: chain_rewards_def)
  from d1 run1 have run2: "run_tx (complete_chain (u, masterId) # concat (map fst xs)) d' = Inr d''" by simp
  have "finishQuestChain env ctx newId2 random2 masterId (\<lambda>_. d') d = (Inr (concat (map snd xs)), d'')"
    using m' t c v q2 run2 by (simp add: finishQuestChain_def del: run_tx.simps)
  moreover have "teras_of d'' w - teras_of d' w = teras_of d' w - teras_of d w" for w
    using finish_effect(1) [OF run2 q2, of w] f(1) [of w] by simp
  ultimately show ?thesis by blast
qed

section \<open>Accepting a chain\<close>

definition price_of :: "quest_chain_master_row \<Rightarrow> StartQuestChainCurrencyType \<Rightarrow> int option" where
  "price_of m used = (case used of CUR_TERAS \<Rightarrow> qc_terasRequired m | CUR_AKV \<Rightarrow> qc_akvRequired m
     | CUR_TICKET \<Rightarrow> required (qc_ticketRequired m))"

definition pay_price :: "StartQuestChainCurrencyType \<Rightarrow> int \<Rightarrow> user_row \<Rightarrow> user_row" where
  "pay_price used n =
     (case used of
        CUR_TERAS \<Rightarrow> (\<lambda>r. r\<lparr>terasBalance := terasBalance r - n\<rparr>)
      | CUR_AKV \<Rightarrow> (\<lambda>r. r\<lparr>akvBalance := akvBalance r - n\<rparr>)
      | CUR_TICKET \<Rightarrow> (\<lambda>r. r\<lparr>tickets := tickets r - n\<rparr>))"

lemma price_run:
  assumes "run_tx (price_queries u newId user masterId m used) d = Inr d'"
  shows "t_users d' = (case price_of m used of None \<Rightarrow> t_users d | Some n \<Rightarrow> apply_row (pay_price used n) u (t_users d))"
  using assms
  by (cases used)
    (auto simp: price_queries_def price_of_def use_tickets_def writeOpenQuestTransaction_def user_tab.update_Inr
      ticketTransaction_tab.create_Inr put_defs pay_price_def split: option.splits sum.splits)

lemma chain_queries_users:
  assumes "run_tx (chain_queries env u masterId m) d = Inr d'" shows "t_users d' = t_users d"
  by (rule run_tx_frame [OF _ assms])
    (auto simp: chain_queries_def questChain_tab.create_Inr quest_tab.create_Inr put_defs)

text \<open>
  Accepting a chain takes the price that its master names in the currency of the request
  from the user, and nothing when the master names none in that currency, whatever it asks for in
  the others; no other user is touched.
\<close>

lemma accepting_takes_the_price:
  assumes "startQuestChain env ctx newId masterId used other d = (Inr c, d')"
  shows "\<exists>u m. ctx_userId ctx = Some u \<and> map_of (t_chainMasters d) masterId = Some m \<and>
    map_of (t_questChains (other d)) (u, masterId) = None \<and>
    t_users d' = (case price_of m used of None \<Rightarrow> t_users (other d)
      | Some n \<Rightarrow> apply_row (pay_price used n) u (t_users (other d)))"
proof -
  from assms obtain m where m: "map_of (t_chainMasters d) masterId = Some m" "\<not> out_of_term env m"
    by (auto simp: startQuestChain_def split: option.splits if_splits)
  with assms obtain u where u: "ctx_userId ctx = Some u" by (auto simp: startQuestChain_def split: option.splits)
  with assms m obtain user where user: "map_of (t_users d) u = Some user" by (auto simp: startQuestChain_def split: option.splits)
  with assms m u have run: "run_tx (chain_queries env u masterId m @ price_queries u newId user masterId m used) (other d) = Inr d'"
    by (auto simp: startQuestChain_def split: option.splits if_splits sum.splits)
  then obtain d1 where 1: "run_tx (chain_queries env u masterId m) (other d) = Inr d1"
    and 2: "run_tx (price_queries u newId user masterId m used) d1 = Inr d'"
    by (auto simp: run_tx_append split: sum.splits)
  from 1 have "map_of (t_questChains (other d)) (u, masterId) = None"
    by (auto simp: chain_queries_def questChain_tab.create_Inr split: sum.splits)
  with u m price_run [OF 2, unfolded chain_queries_users [OF 1]] show ?thesis by auto
qed

section \<open>Any run of the operations\<close>

lemma finish_ok:
  assumes "finishQuestChain env ctx newId random masterId other d = (r, d')" and "quests_ok d" and "quests_ok (other d)"
  shows "quests_ok d'"
proof (cases "d' = d \<or> d' = other d")
  case False
  with assms(1) obtain rewards where "finishQuestChain env ctx newId random masterId other d = (Inr rewards, d')"
    by (auto simp: finishQuestChain_def split: option.splits if_splits sum.splits prod.splits)
  then show ?thesis
  proof (rule finish_cases)
    fix u m c qs
    assume q: "chain_rewards env ctx newId random m = Inr (qs, rewards)"
      and run: "run_tx (complete_chain (u, masterId) # qs) (other d) = Inr d'"
    note f = finish_effect(3,4) [OF run q]
    from assms(3) show ?thesis
      unfolding quests_ok_def masters_ok_def in_order_def masters_of_def no_quest_def is_done_def f .
  qed
qed (use assms(2,3) in auto)

text \<open>
  The database after any requests: checks, accepted and finished chains, each with further requests
  between its reads and its writes, and requests that leave the quests alone.
\<close>

inductive quest_run :: "db \<Rightarrow> db \<Rightarrow> bool" where
  start: "quest_run d d"
| elsewhere: "quest_run d e \<Longrightarrow> quest_tables d' = quest_tables e \<Longrightarrow> quest_run d d'"
| check: "quest_run d e \<Longrightarrow> (\<And>k i x. quest_run x (other k i x)) \<Longrightarrow>
    checkAndUpdate fuel env ctx newId random other e = Some (r, d') \<Longrightarrow> quest_run d d'"
| accept: "quest_run d e \<Longrightarrow> (\<And>x. quest_run x (other x)) \<Longrightarrow> t_chainMasters (other e) = t_chainMasters e \<Longrightarrow>
    startQuestChain env ctx newId2 masterId used other e = (r', d') \<Longrightarrow> quest_run d d'"
| finish: "quest_run d e \<Longrightarrow> (\<And>x. quest_run x (other x)) \<Longrightarrow>
    finishQuestChain env ctx newId3 random3 masterId other e = (r'', d') \<Longrightarrow> quest_run d d'"

text \<open>
  (C34) Quests are opened in order: whatever requests run, also within one another, every quest
  that a user has belongs behind completed quests only, if that was so at the start.
\<close>

theorem quests_open_in_order:
  assumes "quest_run d d'" and "quests_ok d" shows "quests_ok d'"
  using assms
proof (induction rule: quest_run.induct)
  case (elsewhere d e d')
  with quests_ok_cong show ?case by blast
next
  case (check d e other fuel env ctx newId random r d')
  from check.IH(1) check.prems have "quests_ok e" .
  from checkAndUpdate_ok [OF check.hyps(3) this check.IH(2)] show ?case .
next
  case (accept d e other env ctx newId2 masterId used r' d')
  from accept.IH(1) accept.prems have e: "quests_ok e" .
  from startQuestChain_ok [OF accept.hyps(4) e accept.IH(2) [OF e] accept.hyps(3)] show ?case .
next
  case (finish d e other env ctx newId3 random3 masterId r'' d')
  from finish.IH(1) finish.prems have e: "quests_ok e" .
  from finish_ok [OF finish.hyps(3) e finish.IH(2) [OF e]] show ?case .
qed

section \<open>A chain of two quests\<close>

text \<open>
  A chain for 100 Teras of a quest that is met at once and one about the wallet behind it, with 50
  Teras for both.
\<close>

definition sample_quest :: "string \<Rightarrow> QuestProgressType \<Rightarrow> int \<Rightarrow> string option \<Rightarrow> quest_master" where
  "sample_quest i t goal before = \<lparr>qm_id = i, qm_title = ''Quest'', qm_progressGoal = goal, qm_progressType = t,
     qm_progressParams = None, qm_itemType = Some Q_TERAS, qm_category = None, qm_subCategory = None,
     qm_amount = Some 7, qm_beforeQuestIds = before\<rparr>"

definition sample_chains :: db where
  "sample_chains = sample_db\<lparr>t_chainMasters := [(''c1'', \<lparr>qc_startAt = None, qc_endAt = None, qc_terasRequired = Some 100,
     qc_akvRequired = None, qc_ticketRequired = None, qc_beforeQuestChainId = None,
     qc_rewards = [\<lparr>qr_itemType = Q_TERAS, qr_category = TERAS_CATEGORY, qr_subCategory = [], qr_amount = 50\<rparr>],
     qc_quests = [sample_quest ''q1'' PLAY_COUNT 0 None, sample_quest ''q2'' CONNECT_WALLET 1 (Some ''q1'')]\<rparr>)]\<rparr>"

definition sample_accept :: "quest_chain_row res \<times> db" where
  "sample_accept = startQuestChain sample_env sample_ctx ''tt'' ''c1'' CUR_AKV (\<lambda>d. d) sample_chains"

definition sample_check :: "(unit res \<times> db) option" where
  "sample_check = checkAndUpdate 2 sample_env sample_ctx (\<lambda>k i j. replicate k CHR ''a'' @ replicate i CHR ''b'' @ replicate j CHR ''c'')
     (\<lambda>_ _ _. 0) (\<lambda>_ _ d. d) (snd sample_accept)"

definition sample_done :: db where
  "sample_done = snd (the sample_check)"

definition sample_finish :: "(db \<Rightarrow> db) \<Rightarrow> (reward_key \<times> int) list res \<times> db" where
  "sample_finish other = finishQuestChain sample_env sample_ctx (\<lambda>_ _. []) (\<lambda>_ _. 0) ''c1'' other sample_done"

lemma sample_runs:
  "sample_accept = (Inr (new_chain sample_env), snd sample_accept)"
  "sample_check = Some (Inr (), sample_done)"
  "sample_finish (\<lambda>d. d) = (Inr [((R_TERAS, TERAS_CATEGORY, None), 50)], snd (sample_finish (\<lambda>d. d)))"
proof -
  have "fst sample_accept = Inr (new_chain sample_env)" by code_simp
  then show "sample_accept = (Inr (new_chain sample_env), snd sample_accept)" by (metis prod.collapse)
  have "sample_check \<noteq> None" and "fst (the sample_check) = Inr ()" by code_simp+
  then show "sample_check = Some (Inr (), sample_done)" unfolding sample_done_def by (metis option.collapse prod.collapse)
  have "fst (sample_finish (\<lambda>d. d)) = Inr [((R_TERAS, TERAS_CATEGORY, None), 50)]" by code_simp
  then show "sample_finish (\<lambda>d. d) = (Inr [((R_TERAS, TERAS_CATEGORY, None), 50)], snd (sample_finish (\<lambda>d. d)))"
    by (metis prod.collapse)
qed

theorem quest_check_ends_witness: "sample_check \<noteq> None"
  unfolding sample_check_def
proof (rule quest_check_ends)
  show "wallet_left (snd sample_accept) < 2" by code_simp
qed simp

lemma accepting_takes_the_price_witness:
  "t_users (snd sample_accept) = t_users sample_chains \<and>
   qc_terasRequired (the (map_of (t_chainMasters sample_chains) ''c1'')) = Some 100"
proof
  from accepting_takes_the_price [OF sample_runs(1) [unfolded sample_accept_def]]
  obtain m where m: "map_of (t_chainMasters sample_chains) ''c1'' = Some m"
    and t: "t_users (snd sample_accept) = (case price_of m CUR_AKV of None \<Rightarrow> t_users sample_chains
      | Some n \<Rightarrow> apply_row (pay_price CUR_AKV n) ''u1'' (t_users sample_chains))"
    unfolding sample_accept_def by (auto simp: sample_ctx_def)
  have "price_of (the (map_of (t_chainMasters sample_chains) ''c1'')) CUR_AKV = None" by code_simp
  with m t show "t_users (snd sample_accept) = t_users sample_chains" by simp
  show "qc_terasRequired (the (map_of (t_chainMasters sample_chains) ''c1'')) = Some 100" by code_simp
qed

lemma finish_pays_the_chain_witness:
  "teras_of (snd (sample_finish (\<lambda>d. d))) ''u1'' = teras_of sample_done ''u1'' + 50"
proof -
  have m: "map_option (\<lambda>m. sum_list (map teras_amount (qc_rewards m))) (map_of (t_chainMasters sample_done) ''c1'') = Some 50"
    by code_simp
  from finish_pays_the_chain [OF sample_runs(3) [unfolded sample_finish_def] refl refl] m show ?thesis
    unfolding sample_finish_def by (auto simp: sample_ctx_def)
qed

theorem chain_paid_twice_witness:
  "teras_of (snd (sample_finish (\<lambda>_. snd (sample_finish (\<lambda>d. d))))) ''u1'' = teras_of sample_done ''u1'' + 100"
proof -
  let ?m = "the (map_of (t_chainMasters sample_done) ''c1'')" and ?d = "snd (sample_finish (\<lambda>d. d))"
  have 1: "finishQuestChain sample_env sample_ctx (\<lambda>_ _. []) (\<lambda>_ _. 0) ''c1'' (\<lambda>d. d) sample_done =
      (Inr [((R_TERAS, TERAS_CATEGORY, None), 50)], ?d)" using sample_runs(3) by (simp add: sample_finish_def)
  have "map_of (t_chainMasters sample_done) ''c1'' \<noteq> None" by code_simp
  then have 2: "map_of (t_chainMasters sample_done) ''c1'' = Some ?m" by auto
  have 3: "\<forall>r \<in> set (qc_rewards ?m). qr_itemType r = Q_TERAS \<and> 0 \<le> qr_amount r" by code_simp
  have 4: "user_tab.all_ok ?d" unfolding user_tab.all_ok_def by code_simp
  have 5: "ctx_userId sample_ctx = Some ''u1''" by (simp add: sample_ctx_def)
  have 6: "map_of (t_users ?d) ''u1'' \<noteq> None" by code_simp
  from chain_paid_twice [OF 1 2 3 4 5 6, of "\<lambda>_ _. []" "\<lambda>_ _. 0"]
  have "teras_of (snd (sample_finish (\<lambda>_. ?d))) ''u1'' - teras_of ?d ''u1'' = teras_of ?d ''u1'' - teras_of sample_done ''u1''"
    by (auto simp: sample_finish_def)
  moreover have "teras_of ?d ''u1'' = teras_of sample_done ''u1'' + 50" by code_simp
  ultimately show ?thesis by simp
qed

theorem quests_open_in_order_witness: "quests_ok sample_done"
proof -
  have "quest_run sample_chains (snd sample_accept)"
    by (rule accept [OF start start refl]) (use sample_runs(1) in \<open>simp add: sample_accept_def\<close>)
  then have run: "quest_run sample_chains sample_done"
    by (rule check [OF _ start sample_runs(2) [unfolded sample_check_def]])
  have "distinct (map qm_id (masters_of ck sample_chains))" for ck
    by (simp add: masters_of_def sample_chains_def sample_quest_def)
  moreover have "t_quests sample_chains = []" by (simp add: sample_chains_def sample_db_def)
  ultimately have "quests_ok sample_chains" by (simp add: quests_ok_def masters_ok_def in_order_def no_quest_def)
  from quests_open_in_order [OF run this] show ?thesis .
qed

end
