(* ===== verification/Collect_Fee.thy ===== *)
theory Collect_Fee
  imports Tables Fee
begin

text \<open>
  \<open>src/use_cases/collect_fee_usecase.ts\<close>: the daily run that removes machines whose lease is not
  renewed, records one rental fee for each machine installed in a foreign center, collects the fees
  of a machine owner at once or, when the Teras do not suffice, one by one until they run out, and
  pays the collected fees to the owners of the centers.  A step that throws leaves what the steps
  before it have committed.
\<close>

text \<open>One \<open>await\<close> after the other, an exception ends the sequence.\<close>

fun and_then :: "'e res \<times> db \<Rightarrow> (db \<Rightarrow> unit res \<times> db) \<Rightarrow> unit res \<times> db" where
  "and_then (Inl e, d) k = (Inl e, d)"
| "and_then (Inr _, d) k = k d"

section \<open>Removing machines\<close>

definition installed_before :: "date \<Rightarrow> arcade_machine_row \<Rightarrow> bool" where
  "installed_before date r = (case am_installedAt r of None \<Rightarrow> False | Some t \<Rightarrow> t < date)"

definition without_slot :: "arcade_machine_row \<Rightarrow> arcade_machine_row" where
  "without_slot r = r\<lparr>am_gameCenterId := None, am_position := None\<rparr>"

definition not_renewed :: "date \<Rightarrow> nft_id \<Rightarrow> arcade_machine_row \<Rightarrow> bool" where
  "not_renewed date k r \<longleftrightarrow> \<not> am_autoRenewLease r \<and> installed_before date r"

definition removeArcadeMachinesWithAutomaticRenewDisabled :: "date \<Rightarrow> db \<Rightarrow> unit res \<times> db" where
  "removeArcadeMachinesWithAutomaticRenewDisabled date d =
     (let found = filter (\<lambda>(k, r). not_renewed date k r) (t_arcadeMachines d) in
      case update_arcadeMachines (not_renewed date) without_slot d of
        Inl e \<Rightarrow> (Inl e, d)
      | Inr d' \<Rightarrow> (Inr (), call (NotifyAutoRenewDisabled (map fst found)) d'))"

definition in_stopped_center :: "db \<Rightarrow> date \<Rightarrow> nft_id \<Rightarrow> arcade_machine_row \<Rightarrow> bool" where
  "in_stopped_center d date k r \<longleftrightarrow>
     (case am_gameCenterId r of
        None \<Rightarrow> False
      | Some g \<Rightarrow> (case map_of (t_gameCenters d) g of None \<Rightarrow> False | Some c \<Rightarrow> \<not> gc_placementAllowed c)) \<and>
     installed_before date r"

definition removeArcadeMachinesInPlacementNotAllowedGameCenters :: "date \<Rightarrow> db \<Rightarrow> unit res \<times> db" where
  "removeArcadeMachinesInPlacementNotAllowedGameCenters date d =
     (let found = filter (\<lambda>(k, r). in_stopped_center d date k r) (t_arcadeMachines d) in
      case update_arcadeMachines (in_stopped_center d date) without_slot d of
        Inl e \<Rightarrow> (Inl e, d)
      | Inr d' \<Rightarrow> (Inr (), call (NotifyStopRenting (map fst found)) d'))"

section \<open>Recording the fees\<close>

text \<open>The row of a machine in the join of machines and centers, when it meets the conditions.\<close>

definition rental_fee_of ::
  "env \<Rightarrow> date \<Rightarrow> string \<Rightarrow> db \<Rightarrow> nft_id \<times> arcade_machine_row \<Rightarrow> ((string \<times> nft_id) \<times> rental_fee_row) list" where
  "rental_fee_of env date dateStr d = (\<lambda>(k, am).
     case am_gameCenterId am of
       None \<Rightarrow> []
     | Some g \<Rightarrow>
     (case map_of (t_gameCenters d) g of
       None \<Rightarrow> []
     | Some gc \<Rightarrow>
     (case (nft_userId am, nft_userId gc) of
        (Some u, Some v) \<Rightarrow>
          if gc_placementAllowed gc \<and> am_autoRenewLease am \<and> installed_before date am \<and> u \<noteq> v
          then [((dateStr, k),
                 \<lparr>rf_arcadeMachineOwnerId = u, rf_gameCenterOwnerId = v, rf_gameCenterId = g,
                  rf_fee = env_rnd env INSTALLATION_FEE_OF_DAY,
                  rf_collectState = C_UNPROCESSED, rf_collectDate = None,
                  rf_paymentState = PAY_UNPROCESSED, rf_paymentDate = None\<rparr>)]
          else []
      | _ \<Rightarrow> [])))"

definition insertCollectData :: "env \<Rightarrow> date \<Rightarrow> string \<Rightarrow> db \<Rightarrow> db" where
  "insertCollectData env date dateStr d =
     (if count_rows (\<lambda>(day, _) _. day = dateStr) (t_rentalFees d) > 0 then d
      else put_rentalFees
             (t_rentalFees d @ concat (map (rental_fee_of env date dateStr d) (t_arcadeMachines d))) d)"

section \<open>Collecting\<close>

type_synonym fee_rows = "((string \<times> nft_id) \<times> rental_fee_row) list"

definition uncollected :: "string \<Rightarrow> string \<times> nft_id \<Rightarrow> rental_fee_row \<Rightarrow> bool" where
  "uncollected dateStr k r \<longleftrightarrow> fst k = dateStr \<and> rf_collectState r = C_UNPROCESSED"

definition uncollected_of :: "string \<Rightarrow> user_id \<Rightarrow> string \<times> nft_id \<Rightarrow> rental_fee_row \<Rightarrow> bool" where
  "uncollected_of dateStr u k r \<longleftrightarrow> uncollected dateStr k r \<and> rf_arcadeMachineOwnerId r = u"

definition fees_of :: "string \<Rightarrow> user_id \<Rightarrow> db \<Rightarrow> fee_rows" where
  "fees_of dateStr u d = filter (\<lambda>(k, r). uncollected_of dateStr u k r) (t_rentalFees d)"

definition sum_fees :: "fee_rows \<Rightarrow> int" where
  "sum_fees rows = sum_list (map (rf_fee \<circ> snd) rows)"

text \<open>\<open>group by\<close>: each owner with the sum of the fees and the number of rows.\<close>

definition group_fees :: "(rental_fee_row \<Rightarrow> user_id) \<Rightarrow> fee_rows \<Rightarrow> (user_id \<times> int \<times> nat) list" where
  "group_fees owner rows =
     map (\<lambda>u. let mine = filter (\<lambda>(_, r). owner r = u) rows in (u, sum_fees mine, length mine))
       (remdups (map (owner \<circ> snd) rows))"

text \<open>\<open>updateMany\<close> in a transaction that is undone when it hits another number of rows.\<close>

definition mark_exactly ::
  "(string \<times> nft_id \<Rightarrow> rental_fee_row \<Rightarrow> bool) \<Rightarrow> (rental_fee_row \<Rightarrow> rental_fee_row) \<Rightarrow> nat \<Rightarrow> query" where
  "mark_exactly P f n d =
     bind_res (update_rentalFees P f d)
       (\<lambda>d'. if count_rows P (t_rentalFees d) \<noteq> n then Inl (IllegalStateUseCaseError ''updated count'')
             else Inr d')"

definition take_teras :: "user_id \<Rightarrow> int \<Rightarrow> query" where
  "take_teras u fee = update_user u (\<lambda>_. True) (\<lambda>r. r\<lparr>terasBalance := terasBalance r - fee\<rparr>)"

definition settled :: "env \<Rightarrow> CollectState \<Rightarrow> rental_fee_row \<Rightarrow> rental_fee_row" where
  "settled env s r = r\<lparr>rf_collectState := s, rf_collectDate := Some (env_now env)\<rparr>"

definition collect_all :: "env \<Rightarrow> string \<Rightarrow> user_id \<Rightarrow> int \<Rightarrow> nat \<Rightarrow> query list" where
  "collect_all env dateStr u amount n =
     [take_teras u amount, mark_exactly (uncollected_of dateStr u) (settled env C_COLLECTED) n]"

definition unprocessed_row :: "rental_fee_row \<Rightarrow> bool" where
  "unprocessed_row r \<longleftrightarrow> rf_collectState r = C_UNPROCESSED"

definition collect_queries :: "env \<Rightarrow> string \<times> nft_id \<Rightarrow> rental_fee_row \<Rightarrow> query list" where
  "collect_queries env k r =
     [take_teras (rf_arcadeMachineOwnerId r) (rf_fee r),
      update_rentalFee k unprocessed_row (settled env C_COLLECTED)]"

definition uninstalled :: "arcade_machine_row \<Rightarrow> arcade_machine_row" where
  "uninstalled r = r\<lparr>am_gameCenterId := None, am_position := None, am_installedAt := None\<rparr>"

definition uninstall_queries :: "env \<Rightarrow> string \<times> nft_id \<Rightarrow> query list" where
  "uninstall_queries env k =
     [update_rentalFee k unprocessed_row (settled env C_UNINSTALLED),
      update_arcadeMachine (snd k) (\<lambda>_. True) uninstalled]"

definition teras_insufficient :: "use_case_error \<Rightarrow> bool" where
  "teras_insufficient e \<longleftrightarrow> e = PrismaUnknownRequestError ''teras_balance_over_zero''"

text \<open>One fee, unless the Teras have run out already; the result tells whether they have.\<close>

definition try_collect :: "env \<Rightarrow> bool \<Rightarrow> string \<times> nft_id \<Rightarrow> rental_fee_row \<Rightarrow> db \<Rightarrow> bool res \<times> db" where
  "try_collect env lower k r d =
     (if lower then (Inr True, d)
      else (case run_tx (collect_queries env k r) d of
              Inr d' \<Rightarrow> (Inr False, d')
            | Inl e \<Rightarrow> if teras_insufficient e then (Inr True, d) else (Inl e, d)))"

fun collect_each :: "env \<Rightarrow> bool \<Rightarrow> fee_rows \<Rightarrow> db \<Rightarrow> unit res \<times> db" where
  "collect_each env lower [] d = (Inr (), d)"
| "collect_each env lower ((k, r) # rows) d =
     (case try_collect env lower k r d of
        (Inl e, d1) \<Rightarrow> (Inl e, d1)
      | (Inr False, d1) \<Rightarrow> collect_each env False rows d1
      | (Inr True, d1) \<Rightarrow>
          (case run_tx (uninstall_queries env k) d1 of
             Inl e \<Rightarrow> (Inl e, d1)
           | Inr d2 \<Rightarrow> collect_each env True rows d2))"

definition notify_collect :: "string \<Rightarrow> user_id \<Rightarrow> db \<Rightarrow> db" where
  "notify_collect dateStr u d =
     (if INSTALLATION_FEE_OF_DAY > 0 then call (NotifyRentalFeeCollect dateStr u) d else d)"

definition collect_singly :: "env \<Rightarrow> string \<Rightarrow> user_id \<Rightarrow> db \<Rightarrow> unit res \<times> db" where
  "collect_singly env dateStr u d =
     and_then (collect_each env False (fees_of dateStr u d) d)
       (\<lambda>d'. (Inr (), notify_collect dateStr u d'))"

text \<open>\<open>other u\<close> is what other requests do between the reading of the balance and the collection.\<close>

fun collect_owner ::
  "env \<Rightarrow> (user_id \<Rightarrow> db \<Rightarrow> db) \<Rightarrow> string \<Rightarrow> user_id \<times> int \<times> nat \<Rightarrow> db \<Rightarrow> unit res \<times> db" where
  "collect_owner env other dateStr (u, amount, n) d =
     (case map_of (t_users d) u of
        None \<Rightarrow> (Inl (PrismaKnownRequestError ''P2025''), d)
      | Some owner \<Rightarrow>
          if terasBalance owner \<ge> amount then
            (case run_tx (collect_all env dateStr u amount n) (other u d) of
               Inr d' \<Rightarrow> (Inr (), notify_collect dateStr u d')
             | Inl e \<Rightarrow>
                 if teras_insufficient e then collect_singly env dateStr u (other u d)
                 else (Inl e, other u d))
          else collect_singly env dateStr u (other u d))"

fun collect_owners ::
  "env \<Rightarrow> (user_id \<Rightarrow> db \<Rightarrow> db) \<Rightarrow> string \<Rightarrow> (user_id \<times> int \<times> nat) list \<Rightarrow> db \<Rightarrow> unit res \<times> db" where
  "collect_owners env other dateStr [] d = (Inr (), d)"
| "collect_owners env other dateStr (g # gs) d =
     and_then (collect_owner env other dateStr g d) (collect_owners env other dateStr gs)"

definition collectFees :: "env \<Rightarrow> (user_id \<Rightarrow> db \<Rightarrow> db) \<Rightarrow> string \<Rightarrow> db \<Rightarrow> unit res \<times> db" where
  "collectFees env other dateStr d =
     collect_owners env other dateStr
       (group_fees rf_arcadeMachineOwnerId (filter (\<lambda>(k, r). uncollected dateStr k r) (t_rentalFees d))) d"

section \<open>Paying\<close>

definition unpaid :: "string \<Rightarrow> string \<times> nft_id \<Rightarrow> rental_fee_row \<Rightarrow> bool" where
  "unpaid dateStr k r \<longleftrightarrow>
     fst k = dateStr \<and> rf_collectState r = C_COLLECTED \<and> rf_paymentState r = PAY_UNPROCESSED"

definition collected_for :: "string \<Rightarrow> user_id \<Rightarrow> string \<times> nft_id \<Rightarrow> rental_fee_row \<Rightarrow> bool" where
  "collected_for dateStr v k r \<longleftrightarrow>
     fst k = dateStr \<and> rf_gameCenterOwnerId r = v \<and> rf_collectState r = C_COLLECTED"

definition paid :: "env \<Rightarrow> rental_fee_row \<Rightarrow> rental_fee_row" where
  "paid env r = r\<lparr>rf_paymentState := PAY_PAID, rf_paymentDate := Some (env_now env)\<rparr>"

definition pay_queries :: "env \<Rightarrow> string \<Rightarrow> user_id \<Rightarrow> int \<Rightarrow> nat \<Rightarrow> query list" where
  "pay_queries env dateStr v amount n =
     [take_teras v (- amount), mark_exactly (collected_for dateStr v) (paid env) n]"

text \<open>An owner whose payment fails is logged and passed over.\<close>

fun pay_owners :: "env \<Rightarrow> string \<Rightarrow> (user_id \<times> int \<times> nat) list \<Rightarrow> db \<Rightarrow> db" where
  "pay_owners env dateStr [] d = d"
| "pay_owners env dateStr ((v, amount, n) # gs) d =
     (case run_tx (pay_queries env dateStr v amount n) d of
        Inl _ \<Rightarrow> pay_owners env dateStr gs d
      | Inr d' \<Rightarrow>
          pay_owners env dateStr gs
            (if INSTALLATION_FEE_OF_DAY > 0 then call (NotifyRentalFeePayment dateStr v) d' else d'))"

definition payFees :: "env \<Rightarrow> string \<Rightarrow> db \<Rightarrow> db" where
  "payFees env dateStr d =
     pay_owners env dateStr
       (group_fees rf_gameCenterOwnerId (filter (\<lambda>(k, r). unpaid dateStr k r) (t_rentalFees d))) d"

section \<open>The run of a day\<close>

text \<open>\<open>dateStr\<close> is the date written \<open>YYYYMMDD\<close>, as \<open>dayjs\<close> formats it.\<close>

definition collect_fee_Execute ::
  "env \<Rightarrow> (user_id \<Rightarrow> db \<Rightarrow> db) \<Rightarrow> date \<Rightarrow> string \<Rightarrow> db \<Rightarrow> unit res \<times> db" where
  "collect_fee_Execute env other date dateStr d =
     and_then (removeArcadeMachinesWithAutomaticRenewDisabled date d) (\<lambda>d1.
     and_then (removeArcadeMachinesInPlacementNotAllowedGameCenters date d1) (\<lambda>d2.
     and_then (collectFees env other dateStr (insertCollectData env date dateStr d2)) (\<lambda>d3.
       (Inr (), payFees env dateStr d3))))"

end
