(* ===== verification/Collect_Ledger.thy ===== *)
theory Collect_Ledger
  imports Collect_Fee Sample
begin

text \<open>
  The money of the fee collection: the Teras of all users together with the fees that were
  collected and not yet paid stay the same, whatever the outcome of the run.
\<close>

section \<open>Sums over tables\<close>

lemma update_rows_sum:
  fixes g :: "'v \<Rightarrow> int"
  shows "sum_list (map (g \<circ> snd) (update_rows P f t)) =
    sum_list (map (g \<circ> snd) t) + sum_list (map (\<lambda>(k, r). g (f r) - g r) (filter (\<lambda>(k, r). P k r) t))"
  by (induction t) (auto simp: update_rows_def)

lemma filter_eq_of_length:
  "(\<And>x. x \<in> set xs \<Longrightarrow> P x \<Longrightarrow> Q x) \<Longrightarrow> length (filter P xs) = length (filter Q xs) \<Longrightarrow>
   filter P xs = filter Q xs"
proof (induction xs)
  case (Cons x xs)
  have le: "length (filter P xs) \<le> length (filter Q xs)"
    using Cons.prems(1) by (induction xs) (auto intro: le_SucI)
  from Cons le show ?case by (cases "P x"; cases "Q x") auto
qed simp

text \<open>The groups of rows: each owner once, with the rows of that owner.\<close>

lemma group_fees_fst: "map fst (group_fees own rows) = remdups (map (own \<circ> snd) rows)"
  by (simp add: group_fees_def Let_def o_def)

lemma group_fees_in: "(u, a, n) \<in> set (group_fees own rows) \<longleftrightarrow>
    u \<in> own ` snd ` set rows \<and> a = sum_fees (filter (\<lambda>(_, r). own r = u) rows) \<and>
    n = length (filter (\<lambda>(_, r). own r = u) rows)"
  by (auto simp: group_fees_def Let_def)

section \<open>Changes of the rows of one owner\<close>

text \<open>Owners and fees stay, and the rows of other owners do not change at all.\<close>

definition row_change :: "(rental_fee_row \<Rightarrow> user_id) \<Rightarrow> user_id \<Rightarrow>
    (string \<times> nft_id) \<times> rental_fee_row \<Rightarrow> (string \<times> nft_id) \<times> rental_fee_row \<Rightarrow> bool" where
  "row_change own u x y \<longleftrightarrow> fst y = fst x \<and> own (snd y) = own (snd x) \<and> rf_fee (snd y) = rf_fee (snd x) \<and>
     (own (snd x) \<noteq> u \<longrightarrow> y = x)"

definition fee_change :: "(rental_fee_row \<Rightarrow> user_id) \<Rightarrow> user_id \<Rightarrow> fee_rows \<Rightarrow> fee_rows \<Rightarrow> bool" where
  "fee_change own u = list_all2 (row_change own u)"

lemma fee_change_refl [simp]: "fee_change own u t t"
  by (simp add: fee_change_def row_change_def list.rel_refl)

lemma fee_change_trans: "fee_change own u t t' \<Longrightarrow> fee_change own u t' t'' \<Longrightarrow> fee_change own u t t''"
  unfolding fee_change_def by (rule list_all2_trans) (auto simp: row_change_def)

lemma fee_change_keys: "fee_change own u t t' \<Longrightarrow> map fst t' = map fst t"
  unfolding fee_change_def by (induction rule: list_all2_induct) (auto simp: row_change_def)

lemma fee_change_filter:
  "fee_change own u t t' \<Longrightarrow> (\<And>k r. P k r \<Longrightarrow> own r \<noteq> u) \<Longrightarrow>
   filter (\<lambda>(k, r). P k r) t' = filter (\<lambda>(k, r). P k r) t"
  unfolding fee_change_def
proof (induction rule: list_all2_induct)
  case (Cons x xs y ys)
  then have "(case y of (k, r) \<Rightarrow> P k r) \<longleftrightarrow> (case x of (k, r) \<Rightarrow> P k r) \<and> y = x"
    by (cases x; cases y) (auto simp: row_change_def)
  moreover have "(case x of (k, r) \<Rightarrow> P k r) \<Longrightarrow> y = x"
    using Cons.hyps Cons.prems by (cases x) (auto simp: row_change_def)
  ultimately show ?case using Cons by auto
qed simp

lemma fee_change_apply:
  "map_of t k = Some r \<Longrightarrow> own r = u \<Longrightarrow> own (f r) = u \<Longrightarrow> rf_fee (f r) = rf_fee r \<Longrightarrow>
   fee_change own u t (apply_row f k t)"
  by (induction f k t rule: apply_row.induct) (auto simp: fee_change_def row_change_def split: if_splits
      intro: list.rel_refl)

lemma fee_change_update:
  "(\<And>k r. P k r \<Longrightarrow> own r = u \<and> own (f r) = u \<and> rf_fee (f r) = rf_fee r) \<Longrightarrow>
   fee_change own u t (update_rows P f t)"
  by (induction t) (auto simp: fee_change_def row_change_def update_rows_def)

section \<open>The ledger\<close>

text \<open>What the service holds of a fee: collected and not paid.\<close>

definition held :: "rental_fee_row \<Rightarrow> int" where
  "held r = (if rf_collectState r = C_COLLECTED then rf_fee r else 0) -
            (if rf_paymentState r = PAY_PAID then rf_fee r else 0)"

definition ledger :: "db \<Rightarrow> int" where
  "ledger d = sum_list (map (terasBalance \<circ> snd) (t_users d)) + sum_list (map (held \<circ> snd) (t_rentalFees d))"

lemma ledger_cong: "t_users d' = t_users d \<Longrightarrow> t_rentalFees d' = t_rentalFees d \<Longrightarrow> ledger d' = ledger d"
  by (simp add: ledger_def)

lemma ledger_call [simp]: "ledger (call c d) = ledger d"
  by (simp add: ledger_def call_def)

lemma fees_call [simp]: "t_rentalFees (call c d) = t_rentalFees d"
  by (simp add: call_def)

lemma notify_collect_frame [simp]: "ledger (notify_collect dateStr u d) = ledger d"
  "t_rentalFees (notify_collect dateStr u d) = t_rentalFees d"
  by (simp_all add: notify_collect_def)

lemma take_teras_ledger:
  assumes "take_teras u x d = Inr d'"
  shows "ledger d' = ledger d - x" "t_rentalFees d' = t_rentalFees d"
proof -
  from assms obtain r where r: "map_of (t_users d) u = Some r"
    and d': "d' = put_users (apply_row (\<lambda>r. r\<lparr>terasBalance := terasBalance r - x\<rparr>) u (t_users d)) d"
    by (auto simp: take_teras_def user_tab.update_Inr)
  from d' show "t_rentalFees d' = t_rentalFees d" by (simp add: put_users_def)
  with d' apply_row_sum [OF r, of terasBalance "\<lambda>r. r\<lparr>terasBalance := terasBalance r - x\<rparr>"]
  show "ledger d' = ledger d - x" by (simp add: ledger_def put_users_def)
qed

lemma mark_exactly_Inr:
  "mark_exactly P f n d = Inr d' \<longleftrightarrow>
     length (filter (\<lambda>(k, r). P k r) (t_rentalFees d)) = n \<and> d' = put_rentalFees (update_rows P f (t_rentalFees d)) d"
  by (auto simp: mark_exactly_def bind_res_Inr_iff rentalFee_tab.update_many_Inr no_check_def count_rows_def
      split: if_splits)

lemma settled_simps [simp]:
  "rf_arcadeMachineOwnerId (settled env s r) = rf_arcadeMachineOwnerId r"
  "rf_gameCenterOwnerId (settled env s r) = rf_gameCenterOwnerId r"
  "rf_fee (settled env s r) = rf_fee r" "rf_collectState (settled env s r) = s"
  "rf_paymentState (settled env s r) = rf_paymentState r"
  by (simp_all add: settled_def)

lemma paid_simps [simp]:
  "rf_arcadeMachineOwnerId (paid env r) = rf_arcadeMachineOwnerId r"
  "rf_gameCenterOwnerId (paid env r) = rf_gameCenterOwnerId r"
  "rf_fee (paid env r) = rf_fee r" "rf_collectState (paid env r) = rf_collectState r"
  "rf_paymentState (paid env r) = PAY_PAID"
  by (simp_all add: paid_def)

lemma sum_held:
  assumes "\<And>k r. (k, r) \<in> set rows \<Longrightarrow> held (f r) - held r = c * rf_fee r"
  shows "sum_list (map (\<lambda>(k, r). held (f r) - held r) rows) = c * sum_fees rows"
  using assms
proof (induction rows)
  case (Cons x rows)
  obtain k r where x: "x = (k, r)" by fastforce
  have "held (f r) - held r = c * rf_fee r" using Cons.prems [of k r] x by simp
  moreover have "sum_list (map (\<lambda>(k, r). held (f r) - held r) rows) = c * sum_fees rows"
    using Cons.prems by (intro Cons.IH) auto
  ultimately show ?case using x by (simp add: sum_fees_def algebra_simps)
qed (simp add: sum_fees_def)

lemma put_fees_ledger:
  "ledger (put_rentalFees t d) = ledger d - sum_list (map (held \<circ> snd) (t_rentalFees d)) + sum_list (map (held \<circ> snd) t)"
  by (simp add: ledger_def put_rentalFees_def)

section \<open>Collecting\<close>

lemma collect_all_ledger:
  assumes "run_tx (collect_all env dateStr u amount n) d = Inr d'" and "amount = sum_fees (fees_of dateStr u d)"
  shows "ledger d' = ledger d" and "fee_change rf_arcadeMachineOwnerId u (t_rentalFees d) (t_rentalFees d')"
proof -
  from assms(1) obtain d1 where t: "take_teras u amount d = Inr d1"
    and m: "mark_exactly (uncollected_of dateStr u) (settled env C_COLLECTED) n d1 = Inr d'"
    unfolding collect_all_def run_tx_pair by blast
  from m have d': "d' = put_rentalFees (update_rows (uncollected_of dateStr u) (settled env C_COLLECTED) (t_rentalFees d)) d1"
    by (simp add: mark_exactly_Inr take_teras_ledger(2) [OF t])
  have "sum_list (map (\<lambda>(k, r). held (settled env C_COLLECTED r) - held r) (fees_of dateStr u d)) =
      1 * sum_fees (fees_of dateStr u d)"
    by (rule sum_held) (auto simp: fees_of_def uncollected_of_def uncollected_def held_def)
  with d' assms(2) take_teras_ledger [OF t]
  show "ledger d' = ledger d"
    by (simp add: put_fees_ledger update_rows_sum fees_of_def)
  from d' show "fee_change rf_arcadeMachineOwnerId u (t_rentalFees d) (t_rentalFees d')"
    by (auto intro!: fee_change_update simp: uncollected_of_def)
qed

lemma settle_row:
  assumes "update_rentalFee k unprocessed_row (settled env s) d = Inr d'"
    and "map_of (t_rentalFees d) k = Some r" and "rf_arcadeMachineOwnerId r = u"
  shows "ledger d' = ledger d + (if s = C_COLLECTED then rf_fee r else 0)"
    and "fee_change rf_arcadeMachineOwnerId u (t_rentalFees d) (t_rentalFees d')"
    and "map_of (t_rentalFees d') k' = (if k' = k then Some (settled env s r) else map_of (t_rentalFees d) k')"
proof -
  from assms(1,2) have un: "rf_collectState r = C_UNPROCESSED"
    and d': "d' = put_rentalFees (apply_row (settled env s) k (t_rentalFees d)) d"
    by (auto simp: rentalFee_tab.update_Inr unprocessed_row_def)
  from d' un apply_row_sum [OF assms(2), of held "settled env s"]
  show "ledger d' = ledger d + (if s = C_COLLECTED then rf_fee r else 0)"
    by (simp add: put_fees_ledger) (simp add: held_def)
  from d' assms(2,3) show "fee_change rf_arcadeMachineOwnerId u (t_rentalFees d) (t_rentalFees d')"
    by (auto intro: fee_change_apply)
  show "map_of (t_rentalFees d') k' = (if k' = k then Some (settled env s r) else map_of (t_rentalFees d) k')"
    using rentalFee_tab.update_find(1) [OF assms(1), of k'] assms(2) by simp
qed

text \<open>The rows of one owner that are still to be collected, as they stand in the table.\<close>

definition pending_rows :: "user_id \<Rightarrow> fee_rows \<Rightarrow> db \<Rightarrow> bool" where
  "pending_rows u rows d \<longleftrightarrow> distinct (map fst rows) \<and>
     (\<forall>(k, r) \<in> set rows. map_of (t_rentalFees d) k = Some r \<and> rf_arcadeMachineOwnerId r = u \<and>
        rf_collectState r = C_UNPROCESSED)"

lemma pending_Cons: "pending_rows u ((k, r) # rows) d \<longleftrightarrow>
    k \<notin> fst ` set rows \<and> map_of (t_rentalFees d) k = Some r \<and> rf_arcadeMachineOwnerId r = u \<and>
    rf_collectState r = C_UNPROCESSED \<and> pending_rows u rows d"
  by (auto simp: pending_rows_def)

lemma pending_cong:
  "pending_rows u rows d \<Longrightarrow> (\<And>k. k \<in> fst ` set rows \<Longrightarrow> map_of (t_rentalFees d') k = map_of (t_rentalFees d) k) \<Longrightarrow>
   pending_rows u rows d'"
  by (force simp: pending_rows_def)

lemma pending_fees_of: "distinct (map fst (t_rentalFees d)) \<Longrightarrow> pending_rows u (fees_of dateStr u d) d"
  by (auto simp: pending_rows_def fees_of_def uncollected_of_def uncollected_def distinct_map_filter)

lemma try_collect_ledger:
  assumes "try_collect env lower k r d = (res, d')" and "map_of (t_rentalFees d) k = Some r"
    and "rf_arcadeMachineOwnerId r = u"
  shows "ledger d' = ledger d" and "fee_change rf_arcadeMachineOwnerId u (t_rentalFees d) (t_rentalFees d')"
    and "res \<noteq> Inr False \<Longrightarrow> d' = d"
    and "k' \<noteq> k \<Longrightarrow> map_of (t_rentalFees d') k' = map_of (t_rentalFees d) k'"
proof -
  have "ledger d' = ledger d \<and> fee_change rf_arcadeMachineOwnerId u (t_rentalFees d) (t_rentalFees d') \<and>
      (res \<noteq> Inr False \<longrightarrow> d' = d) \<and>
      (k' \<noteq> k \<longrightarrow> map_of (t_rentalFees d') k' = map_of (t_rentalFees d) k')"
  proof (cases "lower \<or> (\<exists>e. run_tx (collect_queries env k r) d = Inl e)")
    case True
    with assms(1) show ?thesis by (auto simp: try_collect_def split: if_splits)
  next
    case False
    then obtain d2 where q: "run_tx (collect_queries env k r) d = Inr d2" and l: "\<not> lower" by (metis sumE)
    with assms(1) have e: "d' = d2" "res = Inr False" by (auto simp: try_collect_def)
    from q obtain d1 where t: "take_teras (rf_arcadeMachineOwnerId r) (rf_fee r) d = Inr d1"
      and m: "update_rentalFee k unprocessed_row (settled env C_COLLECTED) d1 = Inr d'"
      using e unfolding collect_queries_def run_tx_pair by blast
    note f = take_teras_ledger [OF t]
    have r: "map_of (t_rentalFees d1) k = Some r" using assms(2) f(2) by simp
    from settle_row [OF m r assms(3)] f e show ?thesis by simp
  qed
  then show "ledger d' = ledger d" and "fee_change rf_arcadeMachineOwnerId u (t_rentalFees d) (t_rentalFees d')"
    and "res \<noteq> Inr False \<Longrightarrow> d' = d"
    and "k' \<noteq> k \<Longrightarrow> map_of (t_rentalFees d') k' = map_of (t_rentalFees d) k'" by blast+
qed

lemma uninstall_ledger:
  assumes "run_tx (uninstall_queries env k) d = Inr d'" and "map_of (t_rentalFees d) k = Some r"
    and "rf_arcadeMachineOwnerId r = u"
  shows "ledger d' = ledger d" and "fee_change rf_arcadeMachineOwnerId u (t_rentalFees d) (t_rentalFees d')"
    and "k' \<noteq> k \<Longrightarrow> map_of (t_rentalFees d') k' = map_of (t_rentalFees d) k'"
proof -
  from assms(1) obtain d1 where m: "update_rentalFee k unprocessed_row (settled env C_UNINSTALLED) d = Inr d1"
    and a: "update_arcadeMachine (snd k) (\<lambda>_. True) uninstalled d1 = Inr d'"
    unfolding uninstall_queries_def run_tx_pair by blast
  from a have e: "t_users d' = t_users d1" "t_rentalFees d' = t_rentalFees d1"
    by (auto simp: arcadeMachine_tab.update_Inr put_arcadeMachines_def)
  from settle_row [OF m assms(2,3)] ledger_cong [OF e] e
  show "ledger d' = ledger d" and "fee_change rf_arcadeMachineOwnerId u (t_rentalFees d) (t_rentalFees d')"
    and "k' \<noteq> k \<Longrightarrow> map_of (t_rentalFees d') k' = map_of (t_rentalFees d) k'" by simp_all
qed

lemma collect_each_ledger:
  "pending_rows u rows d \<Longrightarrow>
   ledger (snd (collect_each env lower rows d)) = ledger d \<and>
   fee_change rf_arcadeMachineOwnerId u (t_rentalFees d) (t_rentalFees (snd (collect_each env lower rows d)))"
proof (induction env lower rows d rule: collect_each.induct)
  case (2 env lower k r rows d)
  from "2.prems" have r: "map_of (t_rentalFees d) k = Some r" "rf_arcadeMachineOwnerId r = u"
    and p: "pending_rows u rows d" and k: "k \<notin> fst ` set rows"
    by (simp_all add: pending_Cons)
  obtain res d1 where t: "try_collect env lower k r d = (res, d1)" by fastforce
  note f = try_collect_ledger [OF t r]
  have p1: "pending_rows u rows d1" using p by (rule pending_cong) (metis f(4) k)
  consider e where "res = Inl e" | "res = Inr False" | "res = Inr True" by (metis (full_types) sumE)
  then show ?case
  proof cases
    case 1
    with t f show ?thesis by simp
  next
    case 2
    from "2.IH"(2) [OF t [symmetric] 2 refl p1] t 2 f show ?thesis
      by (auto intro: fee_change_trans)
  next
    case 3
    with f(3) have d1: "d1 = d" by simp
    show ?thesis
    proof (cases "run_tx (uninstall_queries env k) d")
      case (Inl e)
      with t 3 d1 show ?thesis by simp
    next
      case (Inr d2)
      note g = uninstall_ledger [OF Inr r]
      have p2: "pending_rows u rows d2" using p by (rule pending_cong) (metis g(3) k)
      have q: "run_tx (uninstall_queries env k) d1 = Inr d2" using Inr d1 by simp
      from "2.IH"(1) [OF t [symmetric] 3 refl q p2] t 3 d1 Inr g show ?thesis
        by (auto intro: fee_change_trans)
    qed
  qed
qed simp

lemma and_then_snd: "snd (and_then x k) = (case fst x of Inl _ \<Rightarrow> snd x | Inr _ \<Rightarrow> snd (k (snd x)))"
  by (cases x rule: prod.exhaust) (auto split: sum.splits)

lemma collect_singly_ledger:
  assumes "distinct (map fst (t_rentalFees d))"
  shows "ledger (snd (collect_singly env dateStr u d)) = ledger d"
    and "fee_change rf_arcadeMachineOwnerId u (t_rentalFees d) (t_rentalFees (snd (collect_singly env dateStr u d)))"
  using collect_each_ledger [OF pending_fees_of [OF assms, where u = u and dateStr = dateStr], where env = env and lower = False]
  by (simp_all add: collect_singly_def and_then_snd split: sum.split)

text \<open>What other requests may do in between: they do not touch the fees, and keep the money.\<close>

definition keeps_ledger :: "(user_id \<Rightarrow> db \<Rightarrow> db) \<Rightarrow> bool" where
  "keeps_ledger other \<longleftrightarrow> (\<forall>u d. t_rentalFees (other u d) = t_rentalFees d \<and> ledger (other u d) = ledger d)"

lemma collect_owner_both:
  assumes "t_rentalFees (other u d) = t_rentalFees d" and "distinct (map fst (t_rentalFees d))"
    and "amount = sum_fees (fees_of dateStr u d)"
  shows "map_of (t_users d) u \<noteq> None \<Longrightarrow>
      ledger (snd (collect_owner env other dateStr (u, amount, n) d)) = ledger (other u d)"
    and "fee_change rf_arcadeMachineOwnerId u (t_rentalFees d)
      (t_rentalFees (snd (collect_owner env other dateStr (u, amount, n) d)))"
proof -
  let ?d = "other u d" and ?x = "collect_owner env other dateStr (u, amount, n) d"
  have s: "distinct (map fst (t_rentalFees ?d))" "amount = sum_fees (fees_of dateStr u ?d)"
    using assms by (simp_all add: fees_of_def)
  note singly = collect_singly_ledger [OF s(1), where env = env and dateStr = dateStr and u = u]
  have "(map_of (t_users d) u \<noteq> None \<longrightarrow> ledger (snd ?x) = ledger ?d) \<and>
      fee_change rf_arcadeMachineOwnerId u (t_rentalFees d) (t_rentalFees (snd ?x))"
  proof (cases "run_tx (collect_all env dateStr u amount n) ?d")
    case (Inl e)
    with singly assms(1) show ?thesis by (auto split: option.split)
  next
    case (Inr d')
    with singly collect_all_ledger [OF Inr s(2)] assms(1) show ?thesis by (auto split: option.split)
  qed
  then show "map_of (t_users d) u \<noteq> None \<Longrightarrow> ledger (snd ?x) = ledger ?d"
    and "fee_change rf_arcadeMachineOwnerId u (t_rentalFees d) (t_rentalFees (snd ?x))" by blast+
qed

lemma collect_owner_ledger:
  assumes "keeps_ledger other" and "distinct (map fst (t_rentalFees d))" and "amount = sum_fees (fees_of dateStr u d)"
  shows "ledger (snd (collect_owner env other dateStr (u, amount, n) d)) = ledger d"
    and "fee_change rf_arcadeMachineOwnerId u (t_rentalFees d)
      (t_rentalFees (snd (collect_owner env other dateStr (u, amount, n) d)))"
proof -
  from assms(1) have o: "t_rentalFees (other u d) = t_rentalFees d" "ledger (other u d) = ledger d"
    by (auto simp: keeps_ledger_def)
  note both = collect_owner_both [where other = other and u = u and d = d and env = env and n = n, OF o(1) assms(2,3)]
  show "ledger (snd (collect_owner env other dateStr (u, amount, n) d)) = ledger d"
    using both(1) o(2) by (cases "map_of (t_users d) u") auto
  show "fee_change rf_arcadeMachineOwnerId u (t_rentalFees d)
      (t_rentalFees (snd (collect_owner env other dateStr (u, amount, n) d)))" by (rule both(2))
qed

lemma fees_of_other: "fee_change rf_arcadeMachineOwnerId u (t_rentalFees d) (t_rentalFees d') \<Longrightarrow> v \<noteq> u \<Longrightarrow>
    fees_of dateStr v d' = fees_of dateStr v d"
  unfolding fees_of_def by (erule fee_change_filter) (auto simp: uncollected_of_def)

lemma collect_owners_ledger:
  "keeps_ledger other \<Longrightarrow> distinct (map fst (t_rentalFees d)) \<Longrightarrow> distinct (map fst gs) \<Longrightarrow>
   (\<And>u amount n. (u, amount, n) \<in> set gs \<Longrightarrow> amount = sum_fees (fees_of dateStr u d)) \<Longrightarrow>
   ledger (snd (collect_owners env other dateStr gs d)) = ledger d \<and>
   map fst (t_rentalFees (snd (collect_owners env other dateStr gs d))) = map fst (t_rentalFees d)"
proof (induction gs arbitrary: d)
  case (Cons g gs)
  obtain u amount n where g: "g = (u, amount, n)" by (metis surj_pair)
  let ?x = "collect_owner env other dateStr g d"
  have a: "amount = sum_fees (fees_of dateStr u d)" using Cons.prems(4) [of u amount n] g by simp
  note f = collect_owner_ledger [OF Cons.prems(1,2) a, where env = env and n = n, folded g]
  note k = fee_change_keys [OF f(2)]
  have rest: "amount' = sum_fees (fees_of dateStr v (snd ?x))" if "(v, amount', m) \<in> set gs" for v amount' m
  proof -
    from that Cons.prems(3) g have "v \<noteq> u" by force
    with Cons.prems(4) [of v amount' m] that fees_of_other [OF f(2)] show ?thesis by simp
  qed
  have "ledger (snd (collect_owners env other dateStr gs (snd ?x))) = ledger (snd ?x) \<and>
      map fst (t_rentalFees (snd (collect_owners env other dateStr gs (snd ?x)))) = map fst (t_rentalFees (snd ?x))"
    using Cons.prems(1,2,3) rest k by (intro Cons.IH) auto
  with f(1) k show ?case by (auto simp: and_then_snd simp del: collect_owner.simps split: sum.split)
qed simp

lemma collectFees_ledger:
  assumes "keeps_ledger other" and "distinct (map fst (t_rentalFees d))"
  shows "ledger (snd (collectFees env other dateStr d)) = ledger d"
    and "map fst (t_rentalFees (snd (collectFees env other dateStr d))) = map fst (t_rentalFees d)"
proof -
  let ?rows = "filter (\<lambda>(k, r). uncollected dateStr k r) (t_rentalFees d)"
  let ?gs = "group_fees rf_arcadeMachineOwnerId ?rows"
  have "amount = sum_fees (fees_of dateStr u d)" if "(u, amount, n) \<in> set ?gs" for u amount n
  proof -
    have "filter (\<lambda>(_, r). rf_arcadeMachineOwnerId r = u) ?rows = fees_of dateStr u d"
      unfolding fees_of_def filter_filter by (rule filter_cong) (auto simp: uncollected_of_def)
    with that show ?thesis by (simp add: group_fees_in)
  qed
  with collect_owners_ledger [OF assms, where gs = ?gs and dateStr = dateStr and env = env]
  show "ledger (snd (collectFees env other dateStr d)) = ledger d"
    and "map fst (t_rentalFees (snd (collectFees env other dateStr d))) = map fst (t_rentalFees d)"
    by (auto simp: collectFees_def group_fees_fst)
qed

section \<open>Paying\<close>

definition unpaid_of :: "string \<Rightarrow> user_id \<Rightarrow> db \<Rightarrow> fee_rows" where
  "unpaid_of dateStr v d = filter (\<lambda>(k, r). unpaid dateStr k r \<and> rf_gameCenterOwnerId r = v) (t_rentalFees d)"

text \<open>Since the count is checked, the rows that are marked are exactly the rows that are paid for.\<close>

lemma pay_ledger:
  assumes "run_tx (pay_queries env dateStr v amount n) d = Inr d'"
    and "amount = sum_fees (unpaid_of dateStr v d)" and "n = length (unpaid_of dateStr v d)"
  shows "ledger d' = ledger d" and "fee_change rf_gameCenterOwnerId v (t_rentalFees d) (t_rentalFees d')"
proof -
  from assms(1) obtain d1 where t: "take_teras v (- amount) d = Inr d1"
    and m: "mark_exactly (collected_for dateStr v) (paid env) n d1 = Inr d'"
    unfolding pay_queries_def run_tx_pair by blast
  let ?rows = "filter (\<lambda>(k, r). collected_for dateStr v k r) (t_rentalFees d)"
  from m take_teras_ledger(2) [OF t] have n: "length ?rows = n"
    and d': "d' = put_rentalFees (update_rows (collected_for dateStr v) (paid env) (t_rentalFees d)) d1"
    by (simp_all add: mark_exactly_Inr)
  have rows: "?rows = unpaid_of dateStr v d"
    unfolding unpaid_of_def
    by (rule filter_eq_of_length [symmetric]) (use n assms(3) in \<open>auto simp: unpaid_of_def unpaid_def collected_for_def\<close>)
  have "sum_list (map (\<lambda>(k, r). held (paid env r) - held r) ?rows) = - 1 * sum_fees ?rows"
    by (rule sum_held) (auto simp: rows, auto simp: unpaid_of_def unpaid_def held_def)
  with d' assms(2) take_teras_ledger [OF t] rows show "ledger d' = ledger d"
    by (simp add: put_fees_ledger update_rows_sum)
  from d' show "fee_change rf_gameCenterOwnerId v (t_rentalFees d) (t_rentalFees d')"
    by (auto intro!: fee_change_update simp: collected_for_def)
qed

lemma unpaid_of_other: "fee_change rf_gameCenterOwnerId u (t_rentalFees d) (t_rentalFees d') \<Longrightarrow> v \<noteq> u \<Longrightarrow>
    unpaid_of dateStr v d' = unpaid_of dateStr v d"
  unfolding unpaid_of_def by (erule fee_change_filter) auto

lemma pay_owners_ledger:
  "distinct (map fst gs) \<Longrightarrow>
   (\<And>v amount n. (v, amount, n) \<in> set gs \<Longrightarrow>
      amount = sum_fees (unpaid_of dateStr v d) \<and> n = length (unpaid_of dateStr v d)) \<Longrightarrow>
   ledger (pay_owners env dateStr gs d) = ledger d"
proof (induction gs arbitrary: d)
  case (Cons g gs)
  obtain v amount n where g: "g = (v, amount, n)" by (metis surj_pair)
  have a: "amount = sum_fees (unpaid_of dateStr v d)" "n = length (unpaid_of dateStr v d)"
    using Cons.prems(2) [of v amount n] g by auto
  show ?case
  proof (cases "run_tx (pay_queries env dateStr v amount n) d")
    case (Inl e)
    have "ledger (pay_owners env dateStr gs d) = ledger d" using Cons.prems by (intro Cons.IH) auto
    with Inl g show ?thesis by simp
  next
    case (Inr d1)
    note f = pay_ledger [OF Inr a]
    let ?d = "if INSTALLATION_FEE_OF_DAY > 0 then call (NotifyRentalFeePayment dateStr v) d1 else d1"
    have e: "t_rentalFees ?d = t_rentalFees d1" "ledger ?d = ledger d1" by simp_all
    have "amount' = sum_fees (unpaid_of dateStr w ?d) \<and> m = length (unpaid_of dateStr w ?d)"
      if "(w, amount', m) \<in> set gs" for w amount' m
    proof -
      from that Cons.prems(1) g have "w \<noteq> v" by force
      with Cons.prems(2) [of w amount' m] that unpaid_of_other [OF f(2)] show ?thesis
        by (simp add: unpaid_of_def e)
    qed
    then have "ledger (pay_owners env dateStr gs ?d) = ledger ?d" using Cons.prems(1) by (intro Cons.IH) auto
    with Inr g f(1) e show ?thesis by simp
  qed
qed simp

lemma payFees_ledger: "ledger (payFees env dateStr d) = ledger d"
proof -
  let ?rows = "filter (\<lambda>(k, r). unpaid dateStr k r) (t_rentalFees d)"
  have "filter (\<lambda>(_, r). rf_gameCenterOwnerId r = v) ?rows = unpaid_of dateStr v d" for v
    unfolding unpaid_of_def filter_filter by (rule filter_cong) auto
  then show ?thesis
    unfolding payFees_def by (intro pay_owners_ledger) (auto simp: group_fees_fst group_fees_in)
qed

section \<open>The run of a day\<close>

lemma remove_frame:
  "t_users (snd (removeArcadeMachinesWithAutomaticRenewDisabled date d)) = t_users d"
  "t_rentalFees (snd (removeArcadeMachinesWithAutomaticRenewDisabled date d)) = t_rentalFees d"
  "t_users (snd (removeArcadeMachinesInPlacementNotAllowedGameCenters date d)) = t_users d"
  "t_rentalFees (snd (removeArcadeMachinesInPlacementNotAllowedGameCenters date d)) = t_rentalFees d"
  by (auto simp: removeArcadeMachinesWithAutomaticRenewDisabled_def
      removeArcadeMachinesInPlacementNotAllowedGameCenters_def Let_def arcadeMachine_tab.update_many_Inr
      put_arcadeMachines_def call_def split: sum.split)

lemma rental_fee_of_row: "(k, r) \<in> set (rental_fee_of env date dateStr d x) \<Longrightarrow>
    k = (dateStr, fst x) \<and> rf_collectState r = C_UNPROCESSED \<and> rf_paymentState r = PAY_UNPROCESSED"
  by (cases x) (auto simp: rental_fee_of_def split: option.splits if_splits)

lemma rental_fee_of_keys: "map fst (rental_fee_of env date dateStr d x) = [] \<or>
    map fst (rental_fee_of env date dateStr d x) = [(dateStr, fst x)]"
  by (cases x) (auto simp: rental_fee_of_def split: option.splits if_splits)

lemma insert_keys:
  assumes "distinct (map fst (t_rentalFees d))" and "distinct (map fst (t_arcadeMachines d))"
  shows "distinct (map fst (t_rentalFees (insertCollectData env date dateStr d)))"
proof (cases "count_rows (\<lambda>(day, _) _. day = dateStr) (t_rentalFees d) > 0")
  case False
  let ?new = "concat (map (rental_fee_of env date dateStr d) (t_arcadeMachines d))"
  have "distinct (map fst (concat (map (rental_fee_of env date dateStr d) xs))) \<and>
      fst ` set (concat (map (rental_fee_of env date dateStr d) xs)) \<subseteq> Pair dateStr ` fst ` set xs"
    if "distinct (map fst xs)" for xs
    using that
  proof (induction xs)
    case (Cons x xs)
    let ?h = "rental_fee_of env date dateStr d x" and ?t = "concat (map (rental_fee_of env date dateStr d) xs)"
    from Cons have t: "distinct (map fst ?t)" "fst ` set ?t \<subseteq> Pair dateStr ` fst ` set xs"
      and x: "fst x \<notin> fst ` set xs" by auto
    from x t(2) have n: "(dateStr, fst x) \<notin> fst ` set ?t" by blast
    have h: "fst ` set ?h \<subseteq> {(dateStr, fst x)}" "distinct (map fst ?h)"
      using rental_fee_of_keys [of env date dateStr d x] by (auto simp flip: set_map)
    have "set (map fst ?h) \<inter> set (map fst ?t) = {}" using h(1) n by (auto simp del: set_concat)
    then have "distinct (map fst (?h @ ?t))" unfolding map_append distinct_append using t(1) h(2) by blast
    moreover have "fst ` set (?h @ ?t) \<subseteq> Pair dateStr ` fst ` set (x # xs)"
      unfolding set_append image_Un by (intro Un_least order.trans [OF h(1)] order.trans [OF t(2)]) auto
    ultimately show ?case by simp
  qed simp
  from this [OF assms(2)] have new: "distinct (map fst ?new)" "\<And>k. k \<in> fst ` set ?new \<Longrightarrow> fst k = dateStr"
    by force+
  have old: "fst k \<noteq> dateStr" if "k \<in> fst ` set (t_rentalFees d)" for k
    using False that by (auto simp: count_rows_def filter_empty_conv)
  have "set (map fst (t_rentalFees d)) \<inter> set (map fst ?new) = {}"
    unfolding set_map using old new(2) by blast
  with assms(1) new(1) False show ?thesis
    by (simp add: insertCollectData_def put_rentalFees_def del: map_map)
qed (use assms in \<open>simp add: insertCollectData_def\<close>)

lemma insert_ledger: "ledger (insertCollectData env date dateStr d) = ledger d"
proof -
  let ?new = "concat (map (rental_fee_of env date dateStr d) (t_arcadeMachines d))"
  have "held (snd x) = 0" if "x \<in> set ?new" for x
  proof -
    from that obtain m where "(fst x, snd x) \<in> set (rental_fee_of env date dateStr d m)" by auto
    from rental_fee_of_row [OF this] show ?thesis by (simp add: held_def)
  qed
  then have "map (held \<circ> snd) ?new = map (\<lambda>_. 0) ?new" unfolding comp_def by (intro map_cong refl) blast
  then have "sum_list (map (held \<circ> snd) ?new) = 0" by (metis sum_list_0)
  then show ?thesis by (simp add: insertCollectData_def put_fees_ledger)
qed

lemma remove_keys:
  "map fst (t_arcadeMachines (snd (removeArcadeMachinesWithAutomaticRenewDisabled date d))) =
     map fst (t_arcadeMachines d)"
  "map fst (t_arcadeMachines (snd (removeArcadeMachinesInPlacementNotAllowedGameCenters date d))) =
     map fst (t_arcadeMachines d)"
  by (auto simp: removeArcadeMachinesWithAutomaticRenewDisabled_def
      removeArcadeMachinesInPlacementNotAllowedGameCenters_def Let_def arcadeMachine_tab.update_many_Inr
      put_arcadeMachines_def call_def split: sum.split)

text \<open>
  (C37) The fee collection neither creates nor loses Teras: whatever the outcome of the run (removals,
  collections at once or one by one, payments, an exception in between) and whatever Teras other
  requests move meanwhile, the balances of all users and the fees that are collected and not yet paid
  sum up to what they were.
\<close>

theorem fees_conserve_teras:
  assumes "keeps_ledger other" and "distinct (map fst (t_rentalFees d))" and "distinct (map fst (t_arcadeMachines d))"
  shows "ledger (snd (collect_fee_Execute env other date dateStr d)) = ledger d"
proof -
  let ?d1 = "snd (removeArcadeMachinesWithAutomaticRenewDisabled date d)"
  let ?d2 = "snd (removeArcadeMachinesInPlacementNotAllowedGameCenters date ?d1)"
  let ?d3 = "insertCollectData env date dateStr ?d2"
  have "ledger ?d1 = ledger d" "ledger ?d2 = ledger ?d1"
    by (intro ledger_cong; simp add: remove_frame)+
  moreover have "distinct (map fst (t_rentalFees ?d3))"
    using assms(2,3) by (intro insert_keys) (simp_all only: remove_frame remove_keys)
  ultimately show ?thesis
    using assms(1) by (simp add: collect_fee_Execute_def and_then_snd insert_ledger collectFees_ledger payFees_ledger
        split: sum.split)
qed

definition fee_machine :: "user_id \<Rightarrow> arcade_machine_row" where
  "fee_machine u = (sample_machine u 0 None)\<lparr>am_gameCenterId := Some ''g1'', am_autoRenewLease := True,
     am_installedAt := Some 0\<rparr>"

definition fee_db :: db where
  "fee_db = sample_db\<lparr>t_users := [(''u1'', sample_user None 150), (''u2'', sample_user None 0)],
     t_arcadeMachines := [(''a1'', (fee_machine ''u1'')\<lparr>am_position := Some 1\<rparr>),
       (''a2'', (fee_machine ''u1'')\<lparr>am_position := Some 2\<rparr>)]\<rparr>"

lemmas fee_sample_defs = fee_db_def fee_machine_def sample_defs

theorem fees_conserve_teras_witness:
  "ledger (snd (collect_fee_Execute sample_env (\<lambda>_ d. d) 10 ''20230601'' fee_db)) = ledger fee_db"
  by (rule fees_conserve_teras) (simp_all add: keeps_ledger_def fee_sample_defs)

end
