(* ===== verification/Collect_Settle.thy ===== *)
theory Collect_Settle
  imports Collect_Ledger
begin

text \<open>
  What becomes of every fee: the fees of an owner are collected in the order of the table as long as
  the balance lasts, the machines behind them are uninstalled, and a run that starts on an
  orderly database ends without an exception, with every fee of the day settled.
\<close>

declare all_ok_frame [simp del]

section \<open>The reference\<close>

text \<open>The fees that a balance covers, one after the other, up to the first it does not.\<close>

fun affordable :: "int \<Rightarrow> fee_rows \<Rightarrow> (string \<times> nft_id) list" where
  "affordable b [] = []"
| "affordable b ((k, r) # rows) = (if rf_fee r \<le> b then k # affordable (b - rf_fee r) rows else [])"

lemma affordable_keys: "set (affordable b rows) \<subseteq> fst ` set rows"
  by (induction b rows rule: affordable.induct) auto

lemma sum_fees_simps [simp]: "sum_fees [] = 0" "sum_fees ((k, r) # rows) = rf_fee r + sum_fees rows"
  by (simp_all add: sum_fees_def)

lemma sum_fees_nonneg: "(\<And>k r. (k, r) \<in> set rows \<Longrightarrow> 0 \<le> rf_fee r) \<Longrightarrow> 0 \<le> sum_fees rows"
proof (induction rows)
  case (Cons x rows)
  then show ?case by (cases x) fastforce
qed simp

lemma affordable_all: "(\<And>k r. (k, r) \<in> set rows \<Longrightarrow> 0 \<le> rf_fee r) \<Longrightarrow> sum_fees rows \<le> b \<Longrightarrow>
    affordable b rows = map fst rows"
proof (induction b rows rule: affordable.induct)
  case (2 b k r rows)
  have "0 \<le> sum_fees rows" by (rule sum_fees_nonneg) (use "2.prems"(1) in auto)
  with "2.prems" have "rf_fee r \<le> b" by simp
  moreover have "affordable (b - rf_fee r) rows = map fst rows"
    using "2.prems" \<open>rf_fee r \<le> b\<close> by (intro "2.IH") auto
  ultimately show ?case by simp
qed simp

section \<open>An orderly database\<close>

definition row_ready :: "db \<Rightarrow> (string \<times> nft_id) \<times> rental_fee_row \<Rightarrow> bool" where
  "row_ready d x \<longleftrightarrow> 0 \<le> rf_fee (snd x) \<and> rf_arcadeMachineOwnerId (snd x) \<in> fst ` set (t_users d) \<and>
     rf_gameCenterOwnerId (snd x) \<in> fst ` set (t_users d) \<and> snd (fst x) \<in> fst ` set (t_arcadeMachines d)"

text \<open>The constraints hold, the fees have distinct keys, and what they refer to exists.\<close>

definition fees_ready :: "db \<Rightarrow> bool" where
  "fees_ready d \<longleftrightarrow> user_tab.all_ok d \<and> arcadeMachine_tab.all_ok d \<and> distinct (map fst (t_rentalFees d)) \<and>
     (\<forall>x \<in> set (t_rentalFees d). row_ready d x)"

lemma row_ready_cong: "map fst (t_users d') = map fst (t_users d) \<Longrightarrow>
    map fst (t_arcadeMachines d') = map fst (t_arcadeMachines d) \<Longrightarrow> row_ready d' x = row_ready d x"
  unfolding row_ready_def by (metis set_map)

lemma row_ready_settled [simp]: "row_ready d (k, settled env s r) = row_ready d (k, r)"
  "row_ready d (k, paid env r) = row_ready d (k, r)"
  by (simp_all add: row_ready_def)

lemma fees_readyD: "fees_ready d \<Longrightarrow> map_of (t_rentalFees d) k = Some r \<Longrightarrow> row_ready d (k, r)"
  unfolding fees_ready_def by (meson map_of_SomeD)

lemma key_found: "k \<in> fst ` set t \<longleftrightarrow> (\<exists>r. map_of t k = Some r)"
  by (metis map_of_eq_None_iff not_None_eq)

lemma take_teras_result:
  assumes "user_tab.all_ok d" and "map_of (t_users d) u = Some r"
  shows "take_teras u x d =
    (if x \<le> terasBalance r
     then Inr (put_users (apply_row (\<lambda>r. r\<lparr>terasBalance := terasBalance r - x\<rparr>) u (t_users d)) d)
     else Inl (PrismaUnknownRequestError ''teras_balance_over_zero''))"
  using user_tab.all_okD [OF assms] assms(2)
  by (auto simp: take_teras_def update_where_def check_user_def user_ok_def violated_def)

lemma settle_result:
  assumes "map_of (t_rentalFees d) k = Some r" and "rf_collectState r = C_UNPROCESSED"
  shows "update_rentalFee k unprocessed_row (settled env s) d =
    Inr (put_rentalFees (apply_row (settled env s) k (t_rentalFees d)) d)"
  using assms by (simp add: update_where_def unprocessed_row_def no_check_def)

lemma uninstall_result:
  assumes "arcadeMachine_tab.all_ok d" and "map_of (t_arcadeMachines d) m = Some r"
  shows "update_arcadeMachine m (\<lambda>_. True) uninstalled d =
    Inr (put_arcadeMachines (apply_row uninstalled m (t_arcadeMachines d)) d)"
  using arcadeMachine_tab.all_okD [OF assms] assms(2)
  by (auto simp: update_where_def uninstalled_def check_arcadeMachine_def arcade_machine_ok_def
      collides_def slot_def split: option.splits)

lemma ready_users: "fees_ready d \<Longrightarrow> take_teras u x d = Inr d' \<Longrightarrow> fees_ready d'"
proof -
  assume I: "fees_ready d" and q: "take_teras u x d = Inr d'"
  from I have "user_tab.all_ok d" by (simp add: fees_ready_def)
  then have "user_tab.all_ok d'"
    using preservesD [OF user_tab.update_ok _ q [unfolded take_teras_def]] by blast
  moreover from q have e: "map fst (t_users d') = map fst (t_users d)" "t_arcadeMachines d' = t_arcadeMachines d"
    "t_rentalFees d' = t_rentalFees d"
    by (auto simp: take_teras_def user_tab.update_Inr put_users_def)
  moreover have "row_ready d' x = row_ready d x" for x by (rule row_ready_cong) (simp_all add: e)
  ultimately show ?thesis using I unfolding fees_ready_def by (metis all_ok_frame(3))
qed

lemma ready_fees:
  assumes "fees_ready d" and "map fst t = map fst (t_rentalFees d)" and "\<And>x. x \<in> set t \<Longrightarrow> row_ready d x"
  shows "fees_ready (put_rentalFees t d)"
proof -
  let ?d = "put_rentalFees t d"
  have e: "t_users ?d = t_users d" "t_arcadeMachines ?d = t_arcadeMachines d" "t_rentalFees ?d = t"
    by (simp_all add: put_rentalFees_def)
  have "row_ready ?d x = row_ready d x" for x by (rule row_ready_cong) (simp_all add: e)
  with assms e show ?thesis unfolding fees_ready_def by (metis all_ok_frame(1,3))
qed

lemma ready_machines: "fees_ready d \<Longrightarrow> update_arcadeMachine m c f d = Inr d' \<Longrightarrow> fees_ready d'"
proof -
  assume I: "fees_ready d" and q: "update_arcadeMachine m c f d = Inr d'"
  from I have "arcadeMachine_tab.all_ok d" by (simp add: fees_ready_def)
  then have "arcadeMachine_tab.all_ok d'" using preservesD [OF arcadeMachine_tab.update_ok _ q] by blast
  moreover from q have e: "map fst (t_arcadeMachines d') = map fst (t_arcadeMachines d)" "t_users d' = t_users d"
    "t_rentalFees d' = t_rentalFees d"
    by (auto simp: arcadeMachine_tab.update_Inr put_arcadeMachines_def)
  moreover have "row_ready d' x = row_ready d x" for x by (rule row_ready_cong) (simp_all add: e)
  ultimately show ?thesis using I unfolding fees_ready_def by (metis all_ok_frame(1))
qed

lemma ready_apply: "fees_ready d \<Longrightarrow> map_of (t_rentalFees d) k = Some r \<Longrightarrow>
    fees_ready (put_rentalFees (apply_row (settled env s) k (t_rentalFees d)) d)"
  by (rule ready_fees) (auto simp: fees_ready_def dest!: set_apply_row map_of_SomeD)

lemma ready_call [simp]: "fees_ready (call c d) = fees_ready d"
  unfolding fees_ready_def row_ready_def call_def user_tab.all_ok_def arcadeMachine_tab.all_ok_def by simp

lemma ready_notify [simp]: "fees_ready (notify_collect dateStr u d) = fees_ready d"
  by (simp add: notify_collect_def)

section \<open>The fees of one owner\<close>

definition state_of :: "(string \<times> nft_id) list \<Rightarrow> string \<times> nft_id \<Rightarrow> CollectState" where
  "state_of kept k = (if k \<in> set kept then C_COLLECTED else C_UNINSTALLED)"

definition kept_fees :: "(string \<times> nft_id) list \<Rightarrow> fee_rows \<Rightarrow> int" where
  "kept_fees kept rows = sum_fees (filter (\<lambda>(k, _). k \<in> set kept) rows)"

text \<open>
  The fees in \<open>kept\<close> are collected and taken from the balance, the machines of the other rows are
  uninstalled, and nothing else changes in the three tables.
\<close>

definition outcome :: "env \<Rightarrow> user_id \<Rightarrow> (string \<times> nft_id) list \<Rightarrow> fee_rows \<Rightarrow> db \<Rightarrow> db \<Rightarrow> bool" where
  "outcome env u kept rows d d' \<longleftrightarrow>
     (\<forall>k. map_of (t_rentalFees d') k =
        (if k \<in> fst ` set rows then map_option (settled env (state_of kept k)) (map_of (t_rentalFees d) k)
         else map_of (t_rentalFees d) k)) \<and>
     (\<forall>v. map_of (t_users d') v =
        (if v = u then map_option (\<lambda>r. r\<lparr>terasBalance := terasBalance r - kept_fees kept rows\<rparr>) (map_of (t_users d) v)
         else map_of (t_users d) v)) \<and>
     (\<forall>m. map_of (t_arcadeMachines d') m =
        (if \<exists>k \<in> fst ` set rows. k \<notin> set kept \<and> snd k = m then map_option uninstalled (map_of (t_arcadeMachines d) m)
         else map_of (t_arcadeMachines d) m))"

lemma outcome_Nil: "outcome env u [] [] d d"
  by (auto simp: outcome_def kept_fees_def option.map_ident)

lemma outcome_cong: "outcome env u kept rows d d' \<Longrightarrow> t_rentalFees d'' = t_rentalFees d' \<Longrightarrow>
    t_users d'' = t_users d' \<Longrightarrow> t_arcadeMachines d'' = t_arcadeMachines d' \<Longrightarrow> outcome env u kept rows d d''"
  by (simp add: outcome_def)

lemma kept_Cons: "k \<notin> fst ` set rows \<Longrightarrow> kept_fees (k # kept) ((k, r) # rows) = rf_fee r + kept_fees kept rows"
proof -
  assume "k \<notin> fst ` set rows"
  then have "filter (\<lambda>(k', _). k' \<in> set (k # kept)) rows = filter (\<lambda>(k', _). k' \<in> set kept) rows"
    by (intro filter_cong refl) force
  then show ?thesis by (simp add: kept_fees_def)
qed

lemma kept_skip: "k \<notin> set kept \<Longrightarrow> kept_fees kept ((k, r) # rows) = kept_fees kept rows"
  by (simp add: kept_fees_def)

definition collected_db :: "env \<Rightarrow> string \<times> nft_id \<Rightarrow> rental_fee_row \<Rightarrow> db \<Rightarrow> db" where
  "collected_db env k r d = put_rentalFees (apply_row (settled env C_COLLECTED) k (t_rentalFees d))
     (put_users (apply_row (\<lambda>x. x\<lparr>terasBalance := terasBalance x - rf_fee r\<rparr>) (rf_arcadeMachineOwnerId r) (t_users d)) d)"

definition uninstalled_db :: "env \<Rightarrow> string \<times> nft_id \<Rightarrow> db \<Rightarrow> db" where
  "uninstalled_db env k d = put_arcadeMachines (apply_row uninstalled (snd k) (t_arcadeMachines d))
     (put_rentalFees (apply_row (settled env C_UNINSTALLED) k (t_rentalFees d)) d)"

lemma step_tables:
  "t_rentalFees (collected_db env k r d) = apply_row (settled env C_COLLECTED) k (t_rentalFees d)"
  "t_users (collected_db env k r d) =
     apply_row (\<lambda>x. x\<lparr>terasBalance := terasBalance x - rf_fee r\<rparr>) (rf_arcadeMachineOwnerId r) (t_users d)"
  "t_arcadeMachines (collected_db env k r d) = t_arcadeMachines d"
  "t_rentalFees (uninstalled_db env k d) = apply_row (settled env C_UNINSTALLED) k (t_rentalFees d)"
  "t_users (uninstalled_db env k d) = t_users d"
  "t_arcadeMachines (uninstalled_db env k d) = apply_row uninstalled (snd k) (t_arcadeMachines d)"
  by (simp_all add: collected_db_def uninstalled_db_def put_defs)

lemma outcome_collected:
  assumes "outcome env u kept rows (collected_db env k r d) d'" and "k \<notin> fst ` set rows"
    and "rf_arcadeMachineOwnerId r = u"
  shows "outcome env u (k # kept) ((k, r) # rows) d d'"
  using assms
  by (auto simp: outcome_def step_tables map_of_apply_row state_of_def kept_Cons option.map_comp o_def
      diff_diff_eq intro!: arg_cong2 [where f = map_option] option.map_cong)

lemma outcome_uninstalled:
  assumes "outcome env u kept rows (uninstalled_db env k d) d'" and "k \<notin> fst ` set rows" and "k \<notin> set kept"
  shows "outcome env u kept ((k, r) # rows) d d'"
  using assms
  by (auto simp: outcome_def step_tables map_of_apply_row state_of_def kept_skip option.map_comp o_def uninstalled_def
      intro!: arg_cong2 [where f = map_option] option.map_cong)

lemma collect_step:
  assumes "fees_ready d" and "map_of (t_rentalFees d) k = Some r" and "rf_collectState r = C_UNPROCESSED"
    and "map_of (t_users d) (rf_arcadeMachineOwnerId r) = Some ur"
  shows "try_collect env False k r d =
    (if rf_fee r \<le> terasBalance ur then (Inr False, collected_db env k r d) else (Inr True, d))"
    and "rf_fee r \<le> terasBalance ur \<Longrightarrow> fees_ready (collected_db env k r d)"
proof -
  let ?u = "rf_arcadeMachineOwnerId r"
  let ?d = "put_users (apply_row (\<lambda>x. x\<lparr>terasBalance := terasBalance x - rf_fee r\<rparr>) ?u (t_users d)) d"
  have t: "take_teras ?u (rf_fee r) d = (if rf_fee r \<le> terasBalance ur then Inr ?d
      else Inl (PrismaUnknownRequestError ''teras_balance_over_zero''))"
    using assms by (intro take_teras_result) (simp_all add: fees_ready_def)
  have f: "t_rentalFees ?d = t_rentalFees d" by (simp add: put_users_def)
  have s: "update_rentalFee k unprocessed_row (settled env C_COLLECTED) ?d = Inr (collected_db env k r d)"
    using settle_result [of ?d k r env C_COLLECTED] assms(2,3) f by (simp add: collected_db_def)
  show "try_collect env False k r d =
    (if rf_fee r \<le> terasBalance ur then (Inr False, collected_db env k r d) else (Inr True, d))"
    using t s by (simp add: try_collect_def collect_queries_def teras_insufficient_def)
  assume "rf_fee r \<le> terasBalance ur"
  with t assms(1) have "fees_ready ?d" by (auto intro: ready_users)
  then have "fees_ready (put_rentalFees (apply_row (settled env C_COLLECTED) k (t_rentalFees ?d)) ?d)"
    using assms(2) f by (intro ready_apply) simp_all
  then show "fees_ready (collected_db env k r d)" unfolding f by (simp add: collected_db_def)
qed

lemma uninstall_step:
  assumes "fees_ready d" and "map_of (t_rentalFees d) k = Some r" and "rf_collectState r = C_UNPROCESSED"
  shows "run_tx (uninstall_queries env k) d = Inr (uninstalled_db env k d)"
    and "fees_ready (uninstalled_db env k d)"
proof -
  let ?d = "put_rentalFees (apply_row (settled env C_UNINSTALLED) k (t_rentalFees d)) d"
  have I: "fees_ready ?d" by (rule ready_apply [OF assms(1,2)])
  have m: "t_arcadeMachines ?d = t_arcadeMachines d" by (simp add: put_rentalFees_def)
  from fees_readyD [OF assms(1,2)] obtain am where am: "map_of (t_arcadeMachines ?d) (snd k) = Some am"
    by (auto simp: row_ready_def key_found m)
  from I have "arcadeMachine_tab.all_ok ?d" by (simp add: fees_ready_def)
  from uninstall_result [OF this am] have u: "update_arcadeMachine (snd k) (\<lambda>_. True) uninstalled ?d = Inr (uninstalled_db env k d)"
    by (simp add: uninstalled_db_def m)
  with settle_result [OF assms(2,3)] show "run_tx (uninstall_queries env k) d = Inr (uninstalled_db env k d)"
    by (simp add: uninstall_queries_def)
  show "fees_ready (uninstalled_db env k d)" by (rule ready_machines [OF I u])
qed

text \<open>One after the other: the affordable fees are kept, none once the Teras have run out.\<close>

lemma collect_each_outcome:
  "pending_rows u rows d \<Longrightarrow> fees_ready d \<Longrightarrow> map_of (t_users d) u = Some ur \<Longrightarrow>
   \<exists>d'. collect_each env lower rows d = (Inr (), d') \<and> fees_ready d' \<and>
     outcome env u (if lower then [] else affordable (terasBalance ur) rows) rows d d'"
proof (induction rows arbitrary: lower d ur)
  case Nil
  then show ?case by (auto intro: outcome_Nil)
next
  case (Cons x rows)
  obtain k r where x: "x = (k, r)" by fastforce
  from Cons.prems(1) x have r: "map_of (t_rentalFees d) k = Some r" "rf_collectState r = C_UNPROCESSED"
    and o: "rf_arcadeMachineOwnerId r = u" and p: "pending_rows u rows d" and k: "k \<notin> fst ` set rows"
    by (simp_all add: pending_Cons)
  show ?case
  proof (cases "\<not> lower \<and> rf_fee r \<le> terasBalance ur")
    case True
    let ?d = "collected_db env k r d"
    note s = collect_step [OF Cons.prems(2) r, unfolded o, OF Cons.prems(3), of env]
    have "pending_rows u rows ?d" using p
      by (rule pending_cong) (use k in \<open>auto simp: step_tables map_of_apply_row\<close>)
    moreover have "map_of (t_users ?d) u = Some (ur\<lparr>terasBalance := terasBalance ur - rf_fee r\<rparr>)"
      using o Cons.prems(3) by (simp add: step_tables map_of_apply_row)
    ultimately obtain d' where d': "collect_each env False rows ?d = (Inr (), d')" "fees_ready d'"
      "outcome env u (affordable (terasBalance ur - rf_fee r) rows) rows ?d d'"
      using Cons.IH [of ?d "ur\<lparr>terasBalance := terasBalance ur - rf_fee r\<rparr>" False] s(2) True by auto
    from outcome_collected [OF d'(3) k o] d'(1,2) s(1) True x show ?thesis by auto
  next
    case False
    let ?d = "uninstalled_db env k d"
    have t: "try_collect env lower k r d = (Inr True, d)"
      using collect_step(1) [OF Cons.prems(2) r, unfolded o, OF Cons.prems(3), of env] False
      by (cases lower) (auto simp: try_collect_def)
    note s = uninstall_step [OF Cons.prems(2) r, of env]
    have "pending_rows u rows ?d" using p
      by (rule pending_cong) (use k in \<open>auto simp: step_tables map_of_apply_row\<close>)
    moreover have "map_of (t_users ?d) u = Some ur" using Cons.prems(3) by (simp add: step_tables)
    ultimately obtain d' where d': "collect_each env True rows ?d = (Inr (), d')" "fees_ready d'"
      "outcome env u [] rows ?d d'"
      using Cons.IH [of ?d ur True] s(2) by auto
    have e: "(if lower then [] else affordable (terasBalance ur) (x # rows)) = []" using False x by auto
    from outcome_uninstalled [OF d'(3) k] d'(1,2) s(1) t show ?thesis unfolding e unfolding x by simp
  qed
qed

lemma fees_of_keys: "distinct (map fst (t_rentalFees d)) \<Longrightarrow>
    k \<in> fst ` set (fees_of dateStr u d) \<longleftrightarrow>
      (\<exists>r. map_of (t_rentalFees d) k = Some r \<and> uncollected_of dateStr u k r)"
  by (cases k) (auto simp: fees_of_def image_iff dest: map_of_SomeD)

lemma collect_all_outcome:
  assumes "fees_ready d" and "map_of (t_users d) u = Some ur" and "amount = sum_fees (fees_of dateStr u d)"
    and "n = length (fees_of dateStr u d)"
  shows "amount > terasBalance ur \<Longrightarrow> run_tx (collect_all env dateStr u amount n) d =
      Inl (PrismaUnknownRequestError ''teras_balance_over_zero'')"
    and "amount \<le> terasBalance ur \<Longrightarrow> \<exists>d'. run_tx (collect_all env dateStr u amount n) d = Inr d' \<and> fees_ready d' \<and>
      outcome env u (affordable (terasBalance ur) (fees_of dateStr u d)) (fees_of dateStr u d) d d'"
proof -
  let ?rows = "fees_of dateStr u d"
  let ?d1 = "put_users (apply_row (\<lambda>x. x\<lparr>terasBalance := terasBalance x - amount\<rparr>) u (t_users d)) d"
  let ?d2 = "put_rentalFees (update_rows (uncollected_of dateStr u) (settled env C_COLLECTED) (t_rentalFees d)) ?d1"
  have dist: "distinct (map fst (t_rentalFees d))" and ok: "user_tab.all_ok d"
    using assms(1) by (simp_all add: fees_ready_def)
  note t = take_teras_result [OF ok assms(2), of amount]
  show "amount > terasBalance ur \<Longrightarrow> run_tx (collect_all env dateStr u amount n) d =
      Inl (PrismaUnknownRequestError ''teras_balance_over_zero'')"
    using t by (simp add: collect_all_def)
  assume le: "amount \<le> terasBalance ur"
  have f: "t_rentalFees ?d1 = t_rentalFees d" by (simp add: put_users_def)
  have "mark_exactly (uncollected_of dateStr u) (settled env C_COLLECTED) n ?d1 = Inr ?d2"
    using assms(4) f by (simp add: mark_exactly_Inr fees_of_def)
  with t le have q: "run_tx (collect_all env dateStr u amount n) d = Inr ?d2"
    by (simp add: collect_all_def)
  have I1: "fees_ready ?d1" using assms(1) t le by (auto intro: ready_users)
  have I: "fees_ready ?d2"
    by (rule ready_fees [OF I1]) (use I1 f in \<open>auto simp: fees_ready_def update_rows_def split: if_splits\<close>)
  have nonneg: "0 \<le> rf_fee r" if "(k, r) \<in> set ?rows" for k r
    using assms(1) that by (auto simp: fees_ready_def fees_of_def row_ready_def)
  have a: "affordable (terasBalance ur) ?rows = map fst ?rows"
    using nonneg le assms(3) by (intro affordable_all) auto
  have "kept_fees (map fst ?rows) ?rows = sum_fees ?rows"
    by (simp add: kept_fees_def, rule arg_cong [of _ _ sum_fees], rule filter_True) force
  moreover have "t_users ?d2 = apply_row (\<lambda>x. x\<lparr>terasBalance := terasBalance x - amount\<rparr>) u (t_users d)"
    "t_arcadeMachines ?d2 = t_arcadeMachines d"
    "t_rentalFees ?d2 = update_rows (uncollected_of dateStr u) (settled env C_COLLECTED) (t_rentalFees d)"
    by (simp_all add: put_defs)
  ultimately have "outcome env u (map fst ?rows) ?rows d ?d2"
    using assms(3) fees_of_keys [OF dist, of _ dateStr u]
    by (auto simp: outcome_def map_of_apply_row map_of_update_rows state_of_def map_option_case split: option.splits)
  with q I a show "\<exists>d'. run_tx (collect_all env dateStr u amount n) d = Inr d' \<and> fees_ready d' \<and>
      outcome env u (affordable (terasBalance ur) ?rows) ?rows d d'" by auto
qed

lemma owner_pays:
  assumes "map_of (t_users d) u \<noteq> None" and "fees_ready (other u d)" and "map_of (t_users (other u d)) u = Some ur"
    and "rows = fees_of dateStr u (other u d)"
  shows "\<exists>d'. collect_owner env other dateStr (u, sum_fees rows, length rows) d = (Inr (), d') \<and> fees_ready d' \<and>
    outcome env u (affordable (terasBalance ur) rows) rows (other u d) d'"
proof -
  let ?d = "other u d"
  have dist: "distinct (map fst (t_rentalFees ?d))" using assms(2) by (simp add: fees_ready_def)
  obtain d1 where "collect_each env False rows ?d = (Inr (), d1)" "fees_ready d1"
    "outcome env u (affordable (terasBalance ur) rows) rows ?d d1"
    using collect_each_outcome [OF pending_fees_of [OF dist, of u dateStr] assms(2,3), of env False] assms(4) by auto
  moreover have frame: "t_rentalFees (notify_collect dateStr u e) = t_rentalFees e"
    "t_users (notify_collect dateStr u e) = t_users e"
    "t_arcadeMachines (notify_collect dateStr u e) = t_arcadeMachines e" for e
    by (simp_all add: notify_collect_def call_def)
  ultimately have singly: "\<exists>d'. collect_singly env dateStr u ?d = (Inr (), d') \<and> fees_ready d' \<and>
      outcome env u (affordable (terasBalance ur) rows) rows ?d d'"
    using assms(4) by (auto simp: collect_singly_def intro: outcome_cong)
  show ?thesis
  proof (cases "sum_fees rows \<le> terasBalance ur")
    case True
    from collect_all_outcome(2) [OF assms(2,3) refl refl, of dateStr env] True assms(4)
    obtain d' where d': "run_tx (collect_all env dateStr u (sum_fees rows) (length rows)) ?d = Inr d'" "fees_ready d'"
      "outcome env u (affordable (terasBalance ur) rows) rows ?d d'" by auto
    have "outcome env u (affordable (terasBalance ur) rows) rows ?d (notify_collect dateStr u d')"
      by (rule outcome_cong [OF d'(3)]) (simp_all add: frame)
    with d' singly assms(1) show ?thesis by (auto split: option.split)
  next
    case False
    from collect_all_outcome(1) [OF assms(2,3) refl refl, of dateStr env] False assms(4)
    have "run_tx (collect_all env dateStr u (sum_fees rows) (length rows)) ?d =
        Inl (PrismaUnknownRequestError ''teras_balance_over_zero'')" by simp
    with singly assms(1) show ?thesis by (auto simp: teras_insufficient_def split: option.split)
  qed
qed

text \<open>
  (C38) An owner pays while the Teras last: collecting from an owner takes exactly the fees the
  balance covers, in the order of the table, from the balance at that moment, whatever happened since
  the balance was read; it marks those as collected and the rest as uninstalled, clears the machines of
  the rest, changes nothing else and never fails.
\<close>

theorem owner_pays_while_it_lasts:
  assumes "map_of (t_users d) u \<noteq> None" and "fees_ready (other u d)" and "map_of (t_users (other u d)) u = Some ur"
    and "rows = fees_of dateStr u (other u d)"
  shows "\<exists>d'. collect_owner env other dateStr (u, sum_fees rows, length rows) d = (Inr (), d') \<and> fees_ready d' \<and>
    outcome env u (affordable (terasBalance ur) rows) rows (other u d) d'"
  using assms by (rule owner_pays)

definition two_fees :: db where
  "two_fees = fee_db\<lparr>t_rentalFees := t_rentalFees (insertCollectData sample_env 10 ''20230601'' fee_db)\<rparr>"

theorem owner_pays_while_it_lasts_witness:
  "\<exists>d'. collect_owner sample_env (\<lambda>_ d. d) ''20230601'' (''u1'', sum_fees (fees_of ''20230601'' ''u1'' two_fees),
      length (fees_of ''20230601'' ''u1'' two_fees)) two_fees = (Inr (), d') \<and> fees_ready d' \<and>
    outcome sample_env ''u1'' (affordable 150 (fees_of ''20230601'' ''u1'' two_fees)) (fees_of ''20230601'' ''u1'' two_fees)
      two_fees d'"
  using owner_pays_while_it_lasts [of two_fees "''u1''" "\<lambda>_ d. d" "sample_user None 150"]
  by (simp add: fees_ready_def row_ready_def user_tab.all_ok_def arcadeMachine_tab.all_ok_def user_ok_def
      arcade_machine_ok_def two_fees_def insertCollectData_def rental_fee_of_def count_rows_def put_rentalFees_def
      installed_before_def INSTALLATION_FEE_OF_DAY_def fee_sample_defs)

end
