(* ===== verification/Collect_Day.thy ===== *)
theory Collect_Day
  imports Collect_Settle
begin

text \<open>
  The whole run of a day: from an orderly database it ends without an exception, and every fee of the
  day is then either collected and paid or the machine behind it uninstalled.
\<close>

section \<open>All owners of machines\<close>

text \<open>Other requests that keep the database orderly and do not touch the fees.\<close>

definition orderly :: "(user_id \<Rightarrow> db \<Rightarrow> db) \<Rightarrow> bool" where
  "orderly other \<longleftrightarrow>
     (\<forall>u d. t_rentalFees (other u d) = t_rentalFees d \<and> (fees_ready d \<longrightarrow> fees_ready (other u d)))"

definition processed_row :: "string \<Rightarrow> user_id set \<Rightarrow> string \<times> nft_id \<Rightarrow> rental_fee_row \<Rightarrow> rental_fee_row \<Rightarrow> bool" where
  "processed_row dateStr us k r r' \<longleftrightarrow>
     (if uncollected dateStr k r \<and> rf_arcadeMachineOwnerId r \<in> us
      then rf_collectState r' \<noteq> C_UNPROCESSED \<and> rf_arcadeMachineOwnerId r' = rf_arcadeMachineOwnerId r \<and>
        rf_paymentState r' = rf_paymentState r
      else r' = r)"

definition processed :: "string \<Rightarrow> user_id set \<Rightarrow> db \<Rightarrow> db \<Rightarrow> bool" where
  "processed dateStr us d d' \<longleftrightarrow> (\<forall>k. rel_option (processed_row dateStr us k) (map_of (t_rentalFees d) k) (map_of (t_rentalFees d') k))"

lemma processed_outcome:
  assumes "distinct (map fst (t_rentalFees d))" and "outcome env u kept (fees_of dateStr u d) d d'"
  shows "processed dateStr {u} d d'"
  unfolding processed_def
proof
  fix k
  have "map_of (t_rentalFees d') k = (if k \<in> fst ` set (fees_of dateStr u d)
      then map_option (settled env (state_of kept k)) (map_of (t_rentalFees d) k) else map_of (t_rentalFees d) k)"
    using assms(2) unfolding outcome_def by blast
  then show "rel_option (processed_row dateStr {u} k) (map_of (t_rentalFees d) k) (map_of (t_rentalFees d') k)"
    unfolding fees_of_keys [OF assms(1)]
    by (cases "map_of (t_rentalFees d) k") (auto simp: processed_row_def uncollected_of_def state_of_def)
qed

lemma processed_trans:
  assumes "processed dateStr us d d1" and "processed dateStr vs d1 d'"
  shows "processed dateStr (us \<union> vs) d d'"
  unfolding processed_def
proof
  fix k
  from assms have "rel_option (processed_row dateStr us k) (map_of (t_rentalFees d) k) (map_of (t_rentalFees d1) k)"
    "rel_option (processed_row dateStr vs k) (map_of (t_rentalFees d1) k) (map_of (t_rentalFees d') k)"
    unfolding processed_def by blast+
  then show "rel_option (processed_row dateStr (us \<union> vs) k) (map_of (t_rentalFees d) k) (map_of (t_rentalFees d') k)"
    by (cases "map_of (t_rentalFees d) k"; cases "map_of (t_rentalFees d1) k"; cases "map_of (t_rentalFees d') k")
      (auto simp: processed_row_def uncollected_def split: if_splits)
qed

lemma processed_empty: "processed dateStr {} d d"
  by (auto simp: processed_def processed_row_def intro: option.rel_refl)

lemma fees_of_user: "fees_ready d \<Longrightarrow> fees_of dateStr u d \<noteq> [] \<Longrightarrow> \<exists>ur. map_of (t_users d) u = Some ur"
proof -
  assume I: "fees_ready d" and "fees_of dateStr u d \<noteq> []"
  then obtain x where "x \<in> set (fees_of dateStr u d)" by (meson last_in_set)
  then have "x \<in> set (t_rentalFees d)" "rf_arcadeMachineOwnerId (snd x) = u"
    by (auto simp: fees_of_def uncollected_of_def)
  with I have "u \<in> fst ` set (t_users d)" unfolding fees_ready_def row_ready_def by blast
  then show ?thesis by (simp add: key_found)
qed

lemma collect_owners_settle:
  "orderly other \<Longrightarrow> fees_ready d \<Longrightarrow> distinct (map fst gs) \<Longrightarrow>
   (\<And>u amount n. (u, amount, n) \<in> set gs \<Longrightarrow>
      amount = sum_fees (fees_of dateStr u d) \<and> n = length (fees_of dateStr u d) \<and> fees_of dateStr u d \<noteq> []) \<Longrightarrow>
   \<exists>d'. collect_owners env other dateStr gs d = (Inr (), d') \<and> fees_ready d' \<and> processed dateStr (fst ` set gs) d d'"
proof (induction gs arbitrary: d)
  case Nil
  then show ?case by (simp add: processed_empty)
next
  case (Cons g gs)
  obtain u amount n where g: "g = (u, amount, n)" by (metis surj_pair)
  have a: "amount = sum_fees (fees_of dateStr u d)" "n = length (fees_of dateStr u d)" "fees_of dateStr u d \<noteq> []"
    using Cons.prems(4) [of u amount n] g by auto
  let ?d = "other u d"
  have o: "t_rentalFees ?d = t_rentalFees d" and I: "fees_ready ?d"
    using Cons.prems(1,2) by (auto simp: orderly_def)
  have f: "fees_of dateStr u ?d = fees_of dateStr u d" by (simp add: fees_of_def o)
  obtain ur ur' where u: "map_of (t_users d) u = Some ur'" "map_of (t_users ?d) u = Some ur"
    using fees_of_user [OF Cons.prems(2) a(3)] fees_of_user [OF I] a(3) f by metis
  obtain d1 where d1: "collect_owner env other dateStr g d = (Inr (), d1)" "fees_ready d1"
    and out: "outcome env u (affordable (terasBalance ur) (fees_of dateStr u ?d)) (fees_of dateStr u ?d) ?d d1"
    using owner_pays [of d u other ur "fees_of dateStr u ?d" dateStr env, OF _ I u(2) refl] u(1)
    unfolding f a g by blast
  have dist: "distinct (map fst (t_rentalFees ?d))" using I by (simp add: fees_ready_def)
  have p: "processed dateStr {u} d d1"
    using processed_outcome [OF dist out] by (simp add: processed_def o)
  have c: "fee_change rf_arcadeMachineOwnerId u (t_rentalFees d) (t_rentalFees d1)"
    using collect_owner_both(2) [where other = other and u = u and d = d and env = env and n = n, OF o _ a(1)] dist d1(1) by (simp add: o g del: collect_owner.simps)
  have rest: "amount' = sum_fees (fees_of dateStr v d1) \<and> m = length (fees_of dateStr v d1) \<and> fees_of dateStr v d1 \<noteq> []"
    if "(v, amount', m) \<in> set gs" for v amount' m
  proof -
    from that Cons.prems(3) g have "v \<noteq> u" by force
    with Cons.prems(4) [of v amount' m] that fees_of_other [OF c] show ?thesis by simp
  qed
  have "distinct (map fst gs)" using Cons.prems(3) by simp
  from Cons.IH [OF Cons.prems(1) d1(2) this rest] obtain d' where
    d': "collect_owners env other dateStr gs d1 = (Inr (), d')" "fees_ready d'" "processed dateStr (fst ` set gs) d1 d'"
    by blast
  have "processed dateStr (fst ` set (g # gs)) d d'"
    using processed_trans [OF p d'(3)] g by simp
  with d1(1) d' show ?case by simp
qed

text \<open>After the collection no fee of the day is unprocessed.\<close>

lemma collectFees_settle:
  assumes "orderly other" and "fees_ready d"
  shows "\<exists>d'. collectFees env other dateStr d = (Inr (), d') \<and> fees_ready d' \<and>
    (\<forall>k r. map_of (t_rentalFees d') k = Some r \<longrightarrow> fst k = dateStr \<longrightarrow> rf_collectState r \<noteq> C_UNPROCESSED) \<and>
    (\<forall>k r. map_of (t_rentalFees d') k = Some r \<longrightarrow>
       (\<exists>r0. map_of (t_rentalFees d) k = Some r0 \<and> rf_paymentState r = rf_paymentState r0))"
proof -
  let ?rows = "filter (\<lambda>(k, r). uncollected dateStr k r) (t_rentalFees d)"
  let ?gs = "group_fees rf_arcadeMachineOwnerId ?rows"
  have mine: "filter (\<lambda>(_, r). rf_arcadeMachineOwnerId r = u) ?rows = fees_of dateStr u d" for u
    unfolding fees_of_def filter_filter by (rule filter_cong) (auto simp: uncollected_of_def)
  have "amount = sum_fees (fees_of dateStr u d) \<and> n = length (fees_of dateStr u d) \<and> fees_of dateStr u d \<noteq> []"
    if "(u, amount, n) \<in> set ?gs" for u amount n
  proof -
    from that have "amount = sum_fees (fees_of dateStr u d)" "n = length (fees_of dateStr u d)"
      and "u \<in> rf_arcadeMachineOwnerId ` snd ` set ?rows"
      unfolding group_fees_in mine by blast+
    then show ?thesis by (force simp: fees_of_def filter_empty_conv uncollected_of_def)
  qed
  moreover have "distinct (map fst ?gs)" by (simp add: group_fees_fst)
  ultimately obtain d' where d': "collect_owners env other dateStr ?gs d = (Inr (), d')" "fees_ready d'"
    and p: "processed dateStr (fst ` set ?gs) d d'"
    using collect_owners_settle [OF assms, of ?gs dateStr env] by blast
  have us: "fst ` set ?gs = rf_arcadeMachineOwnerId ` snd ` set ?rows"
    using arg_cong [OF group_fees_fst [of rf_arcadeMachineOwnerId ?rows], of set] by (simp add: image_comp)
  have row: "\<exists>r0. map_of (t_rentalFees d) k = Some r0 \<and> rf_paymentState r = rf_paymentState r0 \<and>
      (fst k = dateStr \<longrightarrow> rf_collectState r \<noteq> C_UNPROCESSED)" if "map_of (t_rentalFees d') k = Some r" for k r
  proof -
    from p that obtain r0 where r0: "map_of (t_rentalFees d) k = Some r0"
      and pr: "processed_row dateStr (fst ` set ?gs) k r0 r"
      unfolding processed_def by (metis option_rel_Some2)
    have "uncollected dateStr k r0 \<Longrightarrow> rf_arcadeMachineOwnerId r0 \<in> fst ` set ?gs"
      using map_of_SomeD [OF r0] unfolding us by force
    with pr r0 show ?thesis by (auto simp: processed_row_def uncollected_def split: if_splits)
  qed
  with d' show ?thesis unfolding collectFees_def by blast
qed

section \<open>All owners of centers\<close>

definition paid_row :: "env \<Rightarrow> string \<Rightarrow> user_id set \<Rightarrow> string \<times> nft_id \<Rightarrow> rental_fee_row \<Rightarrow> rental_fee_row" where
  "paid_row env dateStr vs k r = (if unpaid dateStr k r \<and> rf_gameCenterOwnerId r \<in> vs then paid env r else r)"

lemma paid_row_union: "paid_row env dateStr ws k (paid_row env dateStr vs k r) = paid_row env dateStr (vs \<union> ws) k r"
  by (auto simp: paid_row_def unpaid_def)

lemma pay_step:
  assumes "fees_ready d" and "unpaid_of dateStr v d \<noteq> []"
    and "filter (\<lambda>(k, r). collected_for dateStr v k r) (t_rentalFees d) = unpaid_of dateStr v d"
  shows "\<exists>d'. run_tx (pay_queries env dateStr v (sum_fees (unpaid_of dateStr v d)) (length (unpaid_of dateStr v d))) d =
      Inr d' \<and> fees_ready d' \<and>
    (\<forall>k. map_of (t_rentalFees d') k = map_option (paid_row env dateStr {v} k) (map_of (t_rentalFees d) k))"
proof -
  let ?rows = "unpaid_of dateStr v d"
  have rows: "x \<in> set (t_rentalFees d) \<and> rf_gameCenterOwnerId (snd x) = v" if "x \<in> set ?rows" for x
    using that by (auto simp: unpaid_of_def)
  from assms(2) obtain x where "x \<in> set ?rows" by (meson last_in_set)
  with rows assms(1) have "v \<in> fst ` set (t_users d)" unfolding fees_ready_def row_ready_def by blast
  then obtain ur where ur: "map_of (t_users d) v = Some ur" by (auto simp: key_found)
  have ok: "user_tab.all_ok d" using assms(1) by (simp add: fees_ready_def)
  have "0 \<le> sum_fees ?rows"
    using assms(1) rows unfolding fees_ready_def row_ready_def by (intro sum_fees_nonneg) force
  moreover have "0 \<le> terasBalance ur" using user_tab.all_okD [OF ok ur] by (simp add: user_ok_def)
  ultimately obtain d1 where t: "take_teras v (- sum_fees ?rows) d = Inr d1"
    using take_teras_result [OF ok ur, of "- sum_fees ?rows"] by auto
  have f: "t_rentalFees d1 = t_rentalFees d" by (rule take_teras_ledger(2) [OF t])
  have I: "fees_ready d1" by (rule ready_users [OF assms(1) t])
  let ?d = "put_rentalFees (update_rows (collected_for dateStr v) (paid env) (t_rentalFees d1)) d1"
  have "fees_ready ?d"
    by (rule ready_fees [OF I]) (use I in \<open>auto simp: fees_ready_def update_rows_def split: if_splits\<close>)
  moreover have "mark_exactly (collected_for dateStr v) (paid env) (length ?rows) d1 = Inr ?d"
    using assms(3) by (simp add: mark_exactly_Inr f)
  moreover have "map_of (t_rentalFees ?d) k = map_option (paid_row env dateStr {v} k) (map_of (t_rentalFees d) k)" for k
  proof (cases "map_of (t_rentalFees d) k")
    case (Some r)
    have "collected_for dateStr v k r \<longleftrightarrow> unpaid dateStr k r \<and> rf_gameCenterOwnerId r = v"
      using arg_cong [OF assms(3), of "\<lambda>l. (k, r) \<in> set l"] map_of_SomeD [OF Some] by (simp add: unpaid_of_def)
    with Some show ?thesis by (simp add: map_of_update_rows f paid_row_def)
  qed (simp add: map_of_update_rows f)
  ultimately show ?thesis using t by (auto simp: pay_queries_def)
qed

lemma pay_owners_settle:
  "fees_ready d \<Longrightarrow> distinct (map fst gs) \<Longrightarrow>
   (\<And>v amount n. (v, amount, n) \<in> set gs \<Longrightarrow>
      amount = sum_fees (unpaid_of dateStr v d) \<and> n = length (unpaid_of dateStr v d) \<and> unpaid_of dateStr v d \<noteq> [] \<and>
      filter (\<lambda>(k, r). collected_for dateStr v k r) (t_rentalFees d) = unpaid_of dateStr v d) \<Longrightarrow>
   map_of (t_rentalFees (pay_owners env dateStr gs d)) k =
     map_option (paid_row env dateStr (fst ` set gs) k) (map_of (t_rentalFees d) k)"
proof (induction gs arbitrary: d)
  case Nil
  then show ?case by (simp add: paid_row_def option.map_ident)
next
  case (Cons g gs)
  obtain v amount n where g: "g = (v, amount, n)" by (metis surj_pair)
  have a: "amount = sum_fees (unpaid_of dateStr v d)" "n = length (unpaid_of dateStr v d)"
    "unpaid_of dateStr v d \<noteq> []"
    "filter (\<lambda>(k, r). collected_for dateStr v k r) (t_rentalFees d) = unpaid_of dateStr v d"
    using Cons.prems(3) [of v amount n] g by auto
  from pay_step [OF Cons.prems(1) a(3,4), of env] obtain d1 where
    d1: "run_tx (pay_queries env dateStr v amount n) d = Inr d1" "fees_ready d1"
    and m: "\<And>k. map_of (t_rentalFees d1) k = map_option (paid_row env dateStr {v} k) (map_of (t_rentalFees d) k)"
    unfolding a(1) [symmetric] a(2) [symmetric] by blast
  let ?d = "if INSTALLATION_FEE_OF_DAY > 0 then call (NotifyRentalFeePayment dateStr v) d1 else d1"
  have e: "t_rentalFees ?d = t_rentalFees d1" "fees_ready ?d" using d1(2) by simp_all
  note c = pay_ledger(2) [OF d1(1) a(1,2)]
  have rest: "amount' = sum_fees (unpaid_of dateStr w ?d) \<and> m = length (unpaid_of dateStr w ?d) \<and>
      unpaid_of dateStr w ?d \<noteq> [] \<and>
      filter (\<lambda>(k, r). collected_for dateStr w k r) (t_rentalFees ?d) = unpaid_of dateStr w ?d"
    if "(w, amount', m) \<in> set gs" for w amount' m
  proof -
    from that Cons.prems(2) g have "w \<noteq> v" by force
    moreover have "filter (\<lambda>(k, r). collected_for dateStr w k r) (t_rentalFees d1) =
        filter (\<lambda>(k, r). collected_for dateStr w k r) (t_rentalFees d)"
      using \<open>w \<noteq> v\<close> by (intro fee_change_filter [OF c]) (auto simp: collected_for_def)
    moreover have "unpaid_of dateStr w ?d = unpaid_of dateStr w d"
      using unpaid_of_other [OF c \<open>w \<noteq> v\<close>] by (simp add: unpaid_of_def e)
    ultimately show ?thesis using Cons.prems(3) [of w amount' m] that e(1) by simp
  qed
  have "distinct (map fst gs)" using Cons.prems(2) by simp
  from Cons.IH [OF e(2) this rest] have "map_of (t_rentalFees (pay_owners env dateStr gs ?d)) k =
      map_option (paid_row env dateStr (fst ` set gs) k) (map_of (t_rentalFees d1) k)"
    unfolding e(1) by blast
  moreover have "pay_owners env dateStr (g # gs) d = pay_owners env dateStr gs ?d"
    using d1(1) g by simp
  ultimately show ?case using g m by (simp add: option.map_comp o_def paid_row_union)
qed

lemma payFees_settle:
  assumes "fees_ready d"
    and "\<And>k r. map_of (t_rentalFees d) k = Some r \<Longrightarrow> fst k = dateStr \<Longrightarrow> rf_paymentState r = PAY_UNPROCESSED"
  shows "map_of (t_rentalFees (payFees env dateStr d)) k =
    map_option (\<lambda>r. if unpaid dateStr k r then paid env r else r) (map_of (t_rentalFees d) k)"
proof -
  let ?rows = "filter (\<lambda>(k, r). unpaid dateStr k r) (t_rentalFees d)"
  let ?gs = "group_fees rf_gameCenterOwnerId ?rows"
  have mine: "filter (\<lambda>(_, r). rf_gameCenterOwnerId r = v) ?rows = unpaid_of dateStr v d" for v
    unfolding unpaid_of_def filter_filter by (rule filter_cong) auto
  have row: "map_of (t_rentalFees d) k = Some r" if "(k, r) \<in> set (t_rentalFees d)" for k r
    using assms(1) that by (simp add: fees_ready_def)
  have "filter (\<lambda>(k, r). collected_for dateStr v k r) (t_rentalFees d) = unpaid_of dateStr v d" for v
    unfolding unpaid_of_def
    by (rule filter_cong) (auto simp: collected_for_def unpaid_def dest!: row dest: assms(2))
  moreover have "amount = sum_fees (unpaid_of dateStr v d) \<and> n = length (unpaid_of dateStr v d) \<and> unpaid_of dateStr v d \<noteq> []"
    if "(v, amount, n) \<in> set ?gs" for v amount n
  proof -
    from that have "amount = sum_fees (unpaid_of dateStr v d)" "n = length (unpaid_of dateStr v d)"
      and "v \<in> rf_gameCenterOwnerId ` snd ` set ?rows"
      unfolding group_fees_in mine by blast+
    then show ?thesis by (force simp: unpaid_of_def filter_empty_conv)
  qed
  moreover have "distinct (map fst ?gs)" by (simp add: group_fees_fst)
  ultimately have p: "map_of (t_rentalFees (payFees env dateStr d)) k =
      map_option (paid_row env dateStr (fst ` set ?gs) k) (map_of (t_rentalFees d) k)"
    unfolding payFees_def by (intro pay_owners_settle assms(1)) auto
  have us: "fst ` set ?gs = rf_gameCenterOwnerId ` snd ` set ?rows"
    using arg_cong [OF group_fees_fst [of rf_gameCenterOwnerId ?rows], of set] by (simp add: image_comp)
  show ?thesis
  proof (cases "map_of (t_rentalFees d) k")
    case (Some r)
    have "unpaid dateStr k r \<Longrightarrow> rf_gameCenterOwnerId r \<in> fst ` set ?gs"
      using map_of_SomeD [OF Some] unfolding us by force
    with p Some show ?thesis by (auto simp: paid_row_def)
  qed (use p in simp)
qed

section \<open>The day\<close>

text \<open>The owners of machines and centers are users.\<close>

definition owners_exist :: "db \<Rightarrow> bool" where
  "owners_exist d \<longleftrightarrow>
     (\<forall>x \<in> set (t_arcadeMachines d). \<forall>u. nft_userId (snd x) = Some u \<longrightarrow> u \<in> fst ` set (t_users d)) \<and>
     (\<forall>x \<in> set (t_gameCenters d). \<forall>u. nft_userId (snd x) = Some u \<longrightarrow> u \<in> fst ` set (t_users d))"

lemma without_slot_result:
  assumes "arcadeMachine_tab.all_ok d"
  shows "update_arcadeMachines P without_slot d = Inr (put_arcadeMachines (update_rows P without_slot (t_arcadeMachines d)) d)"
  using assms
  by (auto simp: arcadeMachine_tab.update_many_Inr arcadeMachine_tab.all_ok_def arcade_machine_ok_def
      without_slot_def check_arcadeMachine_def collides_def slot_def split: option.splits)

lemma without_slot_ready:
  assumes "fees_ready d" and "owners_exist d"
    and d'_def: "d' = put_arcadeMachines (update_rows P without_slot (t_arcadeMachines d)) d"
  shows "fees_ready d'" and "owners_exist d'"
proof -
  have e: "t_users d' = t_users d" "t_gameCenters d' = t_gameCenters d" "t_rentalFees d' = t_rentalFees d"
    "t_arcadeMachines d' = update_rows P without_slot (t_arcadeMachines d)"
    by (simp_all add: d'_def put_arcadeMachines_def)
  have ok: "arcadeMachine_tab.all_ok d" using assms(1) by (simp add: fees_ready_def)
  have "arcadeMachine_tab.all_ok d'"
    using preservesD [OF arcadeMachine_tab.update_many_ok ok without_slot_result [OF ok]] by (simp add: d'_def)
  moreover have "row_ready d' x = row_ready d x" for x by (rule row_ready_cong) (simp_all add: e)
  ultimately show "fees_ready d'"
    using assms(1) e unfolding fees_ready_def by (metis all_ok_frame(1))
  have "nft_userId (without_slot r) = nft_userId r" for r by (simp add: without_slot_def)
  with assms(2) show "owners_exist d'"
    unfolding owners_exist_def e by (fastforce simp: update_rows_def split: if_splits)
qed

lemma owners_exist_call [simp]: "owners_exist (call c d) = owners_exist d"
  by (simp add: owners_exist_def call_def)

lemma remove_ready:
  assumes "fees_ready d" and "owners_exist d"
  shows "fst (removeArcadeMachinesWithAutomaticRenewDisabled date d) = Inr ()"
    and "fees_ready (snd (removeArcadeMachinesWithAutomaticRenewDisabled date d))"
    and "owners_exist (snd (removeArcadeMachinesWithAutomaticRenewDisabled date d))"
    and "fst (removeArcadeMachinesInPlacementNotAllowedGameCenters date d) = Inr ()"
    and "fees_ready (snd (removeArcadeMachinesInPlacementNotAllowedGameCenters date d))"
    and "owners_exist (snd (removeArcadeMachinesInPlacementNotAllowedGameCenters date d))"
proof -
  have "arcadeMachine_tab.all_ok d" using assms(1) by (simp add: fees_ready_def)
  note r = without_slot_result [OF this]
  note s = without_slot_ready [OF assms refl]
  show "fst (removeArcadeMachinesWithAutomaticRenewDisabled date d) = Inr ()"
    "fees_ready (snd (removeArcadeMachinesWithAutomaticRenewDisabled date d))"
    "owners_exist (snd (removeArcadeMachinesWithAutomaticRenewDisabled date d))"
    "fst (removeArcadeMachinesInPlacementNotAllowedGameCenters date d) = Inr ()"
    "fees_ready (snd (removeArcadeMachinesInPlacementNotAllowedGameCenters date d))"
    "owners_exist (snd (removeArcadeMachinesInPlacementNotAllowedGameCenters date d))"
    by (simp_all add: removeArcadeMachinesWithAutomaticRenewDisabled_def
        removeArcadeMachinesInPlacementNotAllowedGameCenters_def Let_def r s)
qed

lemma rental_fee_of_ready:
  assumes "owners_exist d" and "0 \<le> env_rnd env INSTALLATION_FEE_OF_DAY" and "m \<in> set (t_arcadeMachines d)"
    and "x \<in> set (rental_fee_of env date dateStr d m)"
  shows "row_ready d x"
proof -
  obtain k am where m: "m = (k, am)" by fastforce
  note d = assms(4) [unfolded m rental_fee_of_def]
  from d obtain g where g: "am_gameCenterId am = Some g" by (cases "am_gameCenterId am") auto
  from d obtain gc where s1: "map_of (t_gameCenters d) g = Some gc" by (cases "map_of (t_gameCenters d) g") (auto simp: g)
  from d obtain u v where s: "nft_userId am = Some u" "nft_userId gc = Some v"
    by (cases "nft_userId am"; cases "nft_userId gc") (auto simp: g s1)
  from d have x: "rf_arcadeMachineOwnerId (snd x) = u" "rf_gameCenterOwnerId (snd x) = v"
    "rf_fee (snd x) = env_rnd env INSTALLATION_FEE_OF_DAY" "fst x = (dateStr, k)"
    by (auto simp: g s1 s split: if_splits)
  from assms(1,3) m s(1) have "u \<in> fst ` set (t_users d)" unfolding owners_exist_def by force
  moreover from assms(1) map_of_SomeD [OF s1] s(2) have "v \<in> fst ` set (t_users d)"
    unfolding owners_exist_def by force
  moreover from assms(3) m have "k \<in> fst ` set (t_arcadeMachines d)" by force
  ultimately show ?thesis using x assms(2) by (simp add: row_ready_def)
qed

lemma insert_ready:
  assumes "fees_ready d" and "owners_exist d" and "0 \<le> env_rnd env INSTALLATION_FEE_OF_DAY"
    and "distinct (map fst (t_arcadeMachines d))"
  shows "fees_ready (insertCollectData env date dateStr d)"
proof (cases "count_rows (\<lambda>(day, _) _. day = dateStr) (t_rentalFees d) > 0")
  case False
  let ?d = "insertCollectData env date dateStr d"
  let ?t = "t_rentalFees d @ concat (map (rental_fee_of env date dateStr d) (t_arcadeMachines d))"
  from False have d: "?d = put_rentalFees ?t d" by (simp add: insertCollectData_def)
  then have e: "t_users ?d = t_users d" "t_arcadeMachines ?d = t_arcadeMachines d" "t_rentalFees ?d = ?t"
    by (simp_all add: put_rentalFees_def)
  have dist: "distinct (map fst (t_rentalFees d))" using assms(1) by (simp add: fees_ready_def)
  have "row_ready d x" if "x \<in> set ?t" for x
  proof (cases "x \<in> set (t_rentalFees d)")
    case False
    with that obtain m where "m \<in> set (t_arcadeMachines d)" "x \<in> set (rental_fee_of env date dateStr d m)" by auto
    then show ?thesis by (rule rental_fee_of_ready [OF assms(2,3)])
  qed (use assms(1) in \<open>simp add: fees_ready_def\<close>)
  moreover have "row_ready ?d x = row_ready d x" for x by (rule row_ready_cong) (simp_all only: e)
  ultimately show ?thesis
    using assms(1) insert_keys [OF dist assms(4), of env date dateStr] e unfolding fees_ready_def
    by (metis all_ok_frame(1,3))
qed (use assms in \<open>simp add: insertCollectData_def\<close>)

lemma insert_unpaid:
  assumes "\<And>k r. map_of (t_rentalFees d) k = Some r \<Longrightarrow> fst k = dateStr \<Longrightarrow> rf_paymentState r = PAY_UNPROCESSED"
    and "map_of (t_rentalFees (insertCollectData env date dateStr d)) k = Some r" and "fst k = dateStr"
  shows "rf_paymentState r = PAY_UNPROCESSED"
proof (cases "map_of (t_rentalFees d) k")
  case None
  let ?new = "concat (map (rental_fee_of env date dateStr d) (t_arcadeMachines d))"
  from None assms(2) have "map_of ?new k = Some r"
    by (auto simp: insertCollectData_def put_rentalFees_def map_add_def split: if_splits option.splits)
  then have "(k, r) \<in> set ?new" by (rule map_of_SomeD)
  then obtain m where "(k, r) \<in> set (rental_fee_of env date dateStr d m)" by auto
  from rental_fee_of_row [OF this] show ?thesis by simp
next
  case (Some r0)
  have "r = r0"
  proof (cases "count_rows (\<lambda>(day, _) _. day = dateStr) (t_rentalFees d) > 0")
    case False
    with map_of_SomeD [OF Some] assms(3) show ?thesis
      by (cases k) (auto simp: count_rows_def filter_empty_conv)
  qed (use assms(2) Some in \<open>simp add: insertCollectData_def\<close>)
  with assms(1,3) Some show ?thesis by simp
qed

text \<open>
  (C39) Every fee of the day is settled: a run that starts on an orderly database, with no fee of the
  day paid yet, ends without an exception whatever other requests do between its steps as long as they
  leave the database orderly, and then every fee of the day is collected and paid, or the
  Teras of the owner did not suffice and it is marked as uninstalled and not paid.
\<close>

theorem every_fee_settled:
  assumes "orderly other" and "fees_ready d" and "owners_exist d" and "distinct (map fst (t_arcadeMachines d))"
    and "0 \<le> env_rnd env INSTALLATION_FEE_OF_DAY"
    and "\<And>k r. map_of (t_rentalFees d) k = Some r \<Longrightarrow> fst k = dateStr \<Longrightarrow> rf_paymentState r = PAY_UNPROCESSED"
  shows "\<exists>d'. collect_fee_Execute env other date dateStr d = (Inr (), d') \<and>
    (\<forall>k r. map_of (t_rentalFees d') k = Some r \<longrightarrow> fst k = dateStr \<longrightarrow>
       rf_collectState r = C_COLLECTED \<and> rf_paymentState r = PAY_PAID \<or>
       rf_collectState r = C_UNINSTALLED \<and> rf_paymentState r = PAY_UNPROCESSED)"
proof -
  obtain d1 where d1: "removeArcadeMachinesWithAutomaticRenewDisabled date d = (Inr (), d1)"
    and I1: "fees_ready d1" "owners_exist d1"
    using remove_ready(1-3) [OF assms(2,3), of date] by (metis prod.collapse)
  obtain d2 where d2: "removeArcadeMachinesInPlacementNotAllowedGameCenters date d1 = (Inr (), d2)"
    and I2: "fees_ready d2" "owners_exist d2"
    using remove_ready(4-6) [OF I1, of date] by (metis prod.collapse)
  let ?d3 = "insertCollectData env date dateStr d2"
  have keys: "map fst (t_arcadeMachines d2) = map fst (t_arcadeMachines d)" "t_rentalFees d2 = t_rentalFees d"
    using remove_keys(1) [of date d] remove_keys(2) [of date d1] remove_frame(2) [of date d] remove_frame(4) [of date d1] d1 d2
    by simp_all
  have "fees_ready ?d3" using I2 assms(4,5) keys(1) by (intro insert_ready) simp_all
  from collectFees_settle [OF assms(1) this, of env dateStr] obtain d4 where
    d4: "collectFees env other dateStr ?d3 = (Inr (), d4)" "fees_ready d4"
    and c: "\<And>k r. map_of (t_rentalFees d4) k = Some r \<Longrightarrow> fst k = dateStr \<Longrightarrow> rf_collectState r \<noteq> C_UNPROCESSED"
    and p: "\<And>k r. map_of (t_rentalFees d4) k = Some r \<Longrightarrow>
      \<exists>r0. map_of (t_rentalFees ?d3) k = Some r0 \<and> rf_paymentState r = rf_paymentState r0" by blast
  have u: "rf_paymentState r = PAY_UNPROCESSED" if "map_of (t_rentalFees d4) k = Some r" "fst k = dateStr" for k r
  proof -
    from p [OF that(1)] obtain r0 where r0: "map_of (t_rentalFees ?d3) k = Some r0" "rf_paymentState r = rf_paymentState r0"
      by blast
    have "rf_paymentState r0 = PAY_UNPROCESSED"
      by (rule insert_unpaid [OF _ r0(1) that(2)]) (use assms(6) keys(2) in simp)
    with r0(2) show ?thesis by simp
  qed
  have "collect_fee_Execute env other date dateStr d = (Inr (), payFees env dateStr d4)"
    by (simp add: collect_fee_Execute_def d1 d2 d4(1))
  moreover have "rf_collectState r = C_COLLECTED \<and> rf_paymentState r = PAY_PAID \<or>
      rf_collectState r = C_UNINSTALLED \<and> rf_paymentState r = PAY_UNPROCESSED"
    if "map_of (t_rentalFees (payFees env dateStr d4)) k = Some r" "fst k = dateStr" for k r
  proof -
    from that(1) payFees_settle [OF d4(2) u, where env = env and k = k] obtain r4 where
      r4: "map_of (t_rentalFees d4) k = Some r4" "r = (if unpaid dateStr k r4 then paid env r4 else r4)" by auto
    from c [OF r4(1) that(2)] u [OF r4(1) that(2)] r4(2) that(2) show ?thesis
      by (cases "rf_collectState r4") (auto simp: unpaid_def)
  qed
  ultimately show ?thesis by blast
qed

lemma fee_db_ready: "fees_ready fee_db" "owners_exist fee_db"
  by (auto simp: fees_ready_def owners_exist_def user_tab.all_ok_def arcadeMachine_tab.all_ok_def user_ok_def
      arcade_machine_ok_def fee_sample_defs)

theorem every_fee_settled_witness:
  "\<exists>d'. collect_fee_Execute sample_env (\<lambda>_ d. d) 10 ''20230601'' fee_db = (Inr (), d') \<and>
    (\<forall>k r. map_of (t_rentalFees d') k = Some r \<longrightarrow> fst k = ''20230601'' \<longrightarrow>
       rf_collectState r = C_COLLECTED \<and> rf_paymentState r = PAY_PAID \<or>
       rf_collectState r = C_UNINSTALLED \<and> rf_paymentState r = PAY_UNPROCESSED)"
  by (rule every_fee_settled) (auto simp: orderly_def fee_db_ready, simp_all add: fee_sample_defs INSTALLATION_FEE_OF_DAY_def)

end
