(* ===== verification/Block_Cache.thy ===== *)
theory Block_Cache
  imports Tables
begin

text \<open>
  The class \<open>BlockCache\<close> of \<open>src/helpers/blockchain.ts\<close>: blocks by hash and by number,
  loaded from the database a hundred numbers at a time when a hash or a number is missing.  The two
  \<open>Map\<close>s are association lists in insertion order; \<open>set\<close> on a present key keeps its place, as
  \<open>AList.update\<close> does.  The locale \<open>block_reader\<close> is what the Confirmer relies on: a read
  answers as the database would and leaves the cache valid.
\<close>

type_synonym block = "string \<times> block_row"

record cache =
  hashBlocks :: "(string, block) table"
  numberHashBlocks :: "(int, (string, block) table) table"

definition empty_cache :: cache where
  "empty_cache = \<lparr>hashBlocks = [], numberHashBlocks = []\<rparr>"

definition set_block :: "block \<Rightarrow> (string, block) table \<Rightarrow> (string, block) table" where
  "set_block b m = AList.update (fst b) b m"

definition load_block :: "block \<Rightarrow> cache \<Rightarrow> cache" where
  "load_block b c =
     (let n = bl_number (snd b);
          inner = (case map_of (numberHashBlocks c) n of None \<Rightarrow> [] | Some m \<Rightarrow> m)
      in \<lparr>hashBlocks = set_block b (hashBlocks c),
          numberHashBlocks = AList.update n (set_block b inner) (numberHashBlocks c)\<rparr>)"

definition loadBlocks :: "db \<Rightarrow> int \<Rightarrow> int \<Rightarrow> cache \<Rightarrow> cache" where
  "loadBlocks d start stop c =
     fold load_block (filter (\<lambda>b. start \<le> bl_number (snd b) \<and> bl_number (snd b) < stop) (t_blocks d)) c"

definition getBlock :: "db \<Rightarrow> int \<Rightarrow> string \<Rightarrow> cache \<Rightarrow> block option \<times> cache" where
  "getBlock d n h c =
     (let c' = (if map_of (hashBlocks c) h = None then loadBlocks d (n - 50) (n + 50) c else c)
      in (map_of (hashBlocks c') h, c'))"

definition getParent :: "db \<Rightarrow> block \<Rightarrow> cache \<Rightarrow> block option \<times> cache" where
  "getParent d b = getBlock d (bl_number (snd b) - 1) (bl_parentHash (snd b))"

definition getGeneration :: "db \<Rightarrow> int \<Rightarrow> cache \<Rightarrow> block list \<times> cache" where
  "getGeneration d n c =
     (let c' = (if map_of (numberHashBlocks c) n = None then loadBlocks d (n - 50) (n + 50) c else c)
      in (case map_of (numberHashBlocks c') n of None \<Rightarrow> [] | Some m \<Rightarrow> map snd m, c'))"

definition getChildren :: "db \<Rightarrow> block \<Rightarrow> cache \<Rightarrow> block list \<times> cache" where
  "getChildren d b c =
     (case getGeneration d (bl_number (snd b) + 1) c of
        (generation, c') \<Rightarrow> (filter (\<lambda>x. bl_parentHash (snd x) = fst b) generation, c'))"

section \<open>What the reads mean\<close>

definition generation_of :: "db \<Rightarrow> int \<Rightarrow> block list" where
  "generation_of d n = filter (\<lambda>b. bl_number (snd b) = n) (t_blocks d)"

definition children_of :: "db \<Rightarrow> block \<Rightarrow> block list" where
  "children_of d b = filter (\<lambda>x. bl_parentHash (snd x) = fst b) (generation_of d (bl_number (snd b) + 1))"

definition parent_of :: "db \<Rightarrow> block \<Rightarrow> block option" where
  "parent_of d b = map_option (Pair (bl_parentHash (snd b))) (map_of (t_blocks d) (bl_parentHash (snd b)))"

text \<open>Hashes are unique, and a block stands one above its parent.\<close>

definition chain_ok :: "db \<Rightarrow> bool" where
  "chain_ok d \<longleftrightarrow> distinct (map fst (t_blocks d)) \<and>
     (\<forall>b \<in> set (t_blocks d). \<forall>p. map_of (t_blocks d) (bl_parentHash (snd b)) = Some p \<longrightarrow>
        bl_number p = bl_number (snd b) - 1)"

definition keyed :: "block list \<Rightarrow> (string, block) table" where
  "keyed bs = map (\<lambda>b. (fst b, b)) bs"

definition cached :: "db \<Rightarrow> cache \<Rightarrow> bool" where
  "cached d c \<longleftrightarrow> (\<forall>h b. map_of (hashBlocks c) h = Some b \<longrightarrow> fst b = h \<and> b \<in> set (t_blocks d)) \<and>
     (\<forall>n m. map_of (numberHashBlocks c) n = Some m \<longrightarrow> m = keyed (generation_of d n))"

declare split_paired_All [simp del] split_paired_Ex [simp del]

lemma cached_empty: "cached d empty_cache"
  by (simp add: cached_def empty_cache_def)

lemma set_block_fresh: "fst b \<notin> fst ` set m \<Longrightarrow> set_block b m = m @ [(fst b, b)]"
  unfolding set_block_def by (induction m) auto

lemma set_block_same: "(fst b, b) \<in> set m \<Longrightarrow> distinct (map fst m) \<Longrightarrow> set_block b m = m"
  unfolding set_block_def
proof (induction m)
  case (Cons x m)
  then show ?case by (cases x) force
qed simp

lemma keyed_simps [simp]: "map snd (keyed bs) = bs" "fst ` set (keyed bs) = fst ` set bs"
  "map fst (keyed bs) = map fst bs" "keyed [] = []"
  by (simp_all add: keyed_def o_def image_image)

lemma set_blocks_fresh:
  "distinct (map fst (as @ bs)) \<Longrightarrow> fold set_block bs (keyed as) = keyed (as @ bs)"
proof (induction bs arbitrary: as)
  case (Cons b bs)
  then have "fst b \<notin> fst ` set (keyed as)" by simp
  then have "set_block b (keyed as) = keyed (as @ [b])" by (simp add: set_block_fresh) (simp add: keyed_def)
  with Cons.IH [of "as @ [b]"] Cons.prems show ?case by simp
qed simp

lemma set_blocks_same: "set bs \<subseteq> set as \<Longrightarrow> distinct (map fst as) \<Longrightarrow> fold set_block bs (keyed as) = keyed as"
proof (induction bs)
  case (Cons b bs)
  have "(fst b, b) \<in> set (keyed as)" using Cons.prems(1) by (simp add: keyed_def image_iff)
  then have "set_block b (keyed as) = keyed as" using Cons.prems(2) by (intro set_block_same) simp_all
  with Cons show ?case by simp
qed simp

text \<open>The effect of loading on one hash and on one number.\<close>

lemma load_numbers:
  "map_of (numberHashBlocks (fold load_block bs c)) n =
    (if filter (\<lambda>b. bl_number (snd b) = n) bs = [] then map_of (numberHashBlocks c) n
     else Some (fold set_block (filter (\<lambda>b. bl_number (snd b) = n) bs)
       (case map_of (numberHashBlocks c) n of None \<Rightarrow> [] | Some m \<Rightarrow> m)))"
proof (induction bs arbitrary: c)
  case (Cons b bs)
  have "map_of (numberHashBlocks (load_block b c)) n =
      (if bl_number (snd b) = n then Some (set_block b (case map_of (numberHashBlocks c) n of None \<Rightarrow> [] | Some m \<Rightarrow> m))
       else map_of (numberHashBlocks c) n)"
    by (simp add: load_block_def Let_def update_conv')
  with Cons.IH [of "load_block b c"] show ?case by simp
qed simp

lemma hash_load_block: "map_of (hashBlocks (load_block b c)) h = (if h = fst b then Some b else map_of (hashBlocks c) h)"
  by (simp add: load_block_def set_block_def Let_def update_conv')

lemma load_hashes:
  "map_of (hashBlocks (fold load_block bs c)) h = Some b \<Longrightarrow>
   map_of (hashBlocks c) h = Some b \<or> b \<in> set bs \<and> fst b = h"
proof (induction bs arbitrary: c)
  case (Cons x bs)
  from Cons.IH [of "load_block x c"] Cons.prems show ?case
    by (auto simp: hash_load_block split: if_splits)
qed simp

lemma load_hash_other: "h \<notin> fst ` set bs \<Longrightarrow> map_of (hashBlocks (fold load_block bs c)) h = map_of (hashBlocks c) h"
  by (induction bs arbitrary: c) (simp_all add: hash_load_block)

lemma load_hash_found:
  "b \<in> set bs \<Longrightarrow> distinct (map fst bs) \<Longrightarrow> map_of (hashBlocks (fold load_block bs c)) (fst b) = Some b"
proof (induction bs arbitrary: c)
  case (Cons x bs)
  then show ?case by (cases "b \<in> set bs") (auto simp: hash_load_block load_hash_other)
qed simp

lemma distinct_generation: "distinct (map fst (t_blocks d)) \<Longrightarrow> distinct (map fst (generation_of d n))"
  by (simp add: generation_of_def distinct_map_filter)

lemma loadBlocks_number:
  assumes "distinct (map fst (t_blocks d))" and "cached d c" and "start \<le> n" and "n < stop"
  shows "map_of (numberHashBlocks (loadBlocks d start stop c)) n =
    (if generation_of d n = [] then map_of (numberHashBlocks c) n else Some (keyed (generation_of d n)))"
proof -
  have "filter (\<lambda>b. bl_number (snd b) = n) (filter (\<lambda>b. start \<le> bl_number (snd b) \<and> bl_number (snd b) < stop) (t_blocks d)) =
      generation_of d n"
    unfolding generation_of_def filter_filter using assms(3,4) by (intro filter_cong) auto
  note l = load_numbers [of "filter (\<lambda>b. start \<le> bl_number (snd b) \<and> bl_number (snd b) < stop) (t_blocks d)" c n,
      unfolded this]
  note dist = distinct_generation [OF assms(1), of n]
  show ?thesis
  proof (cases "map_of (numberHashBlocks c) n")
    case None
    with l set_blocks_fresh [of "[]" "generation_of d n"] dist show ?thesis by (simp add: loadBlocks_def)
  next
    case (Some m)
    then have "m = keyed (generation_of d n)" using assms(2) by (simp add: cached_def)
    with Some l set_blocks_same [OF subset_refl dist] show ?thesis by (simp add: loadBlocks_def)
  qed
qed

lemma loadBlocks_other:
  assumes "n < start \<or> stop \<le> n"
  shows "map_of (numberHashBlocks (loadBlocks d start stop c)) n = map_of (numberHashBlocks c) n"
proof -
  have "filter (\<lambda>b. bl_number (snd b) = n) (filter (\<lambda>b. start \<le> bl_number (snd b) \<and> bl_number (snd b) < stop) (t_blocks d)) = []"
    using assms by (auto simp: filter_empty_conv)
  then show ?thesis by (simp add: loadBlocks_def load_numbers)
qed

lemma loadBlocks_cached:
  assumes "distinct (map fst (t_blocks d))" and "cached d c"
  shows "cached d (loadBlocks d start stop c)"
  unfolding cached_def
proof (intro conjI allI impI)
  fix h b assume "map_of (hashBlocks (loadBlocks d start stop c)) h = Some b"
  from load_hashes [OF this [unfolded loadBlocks_def]] assms(2) show "fst b = h" "b \<in> set (t_blocks d)"
    by (auto simp: cached_def)
next
  fix n m assume m: "map_of (numberHashBlocks (loadBlocks d start stop c)) n = Some m"
  show "m = keyed (generation_of d n)"
  proof (cases "start \<le> n \<and> n < stop")
    case True
    with m loadBlocks_number [OF assms, of start n stop] have
      "m = keyed (generation_of d n) \<or> map_of (numberHashBlocks c) n = Some m" by (auto split: if_splits)
    with assms(2) show ?thesis unfolding cached_def by blast
  next
    case False
    with m loadBlocks_other [of n start stop d c] assms(2) show ?thesis by (auto simp: cached_def)
  qed
qed

lemma getGeneration_reads:
  assumes "distinct (map fst (t_blocks d))" and "cached d c" and "getGeneration d n c = (bs, c')"
  shows "bs = generation_of d n \<and> cached d c'"
proof (cases "map_of (numberHashBlocks c) n")
  case None
  with assms(3) loadBlocks_number [OF assms(1,2), of "n - 50" n "n + 50"] loadBlocks_cached [OF assms(1,2)]
  show ?thesis by (auto simp: getGeneration_def Let_def)
next
  case (Some m)
  with assms(2) have "m = keyed (generation_of d n)" by (simp add: cached_def)
  with Some assms(2,3) show ?thesis by (simp add: getGeneration_def Let_def)
qed

lemma getChildren_reads:
  assumes "distinct (map fst (t_blocks d))" and "cached d c" and "getChildren d b c = (bs, c')"
  shows "bs = children_of d b \<and> cached d c'"
proof -
  obtain g c1 where g: "getGeneration d (bl_number (snd b) + 1) c = (g, c1)" by fastforce
  from getGeneration_reads [OF assms(1,2) g] assms(3) g show ?thesis
    by (simp add: getChildren_def children_of_def)
qed

lemma getParent_reads:
  assumes "chain_ok d" and "b \<in> set (t_blocks d)" and "cached d c" and "getParent d b c = (p, c')"
  shows "p = parent_of d b \<and> cached d c'"
proof -
  let ?h = "bl_parentHash (snd b)" and ?n = "bl_number (snd b) - 1"
  let ?c = "if map_of (hashBlocks c) ?h = None then loadBlocks d (?n - 50) (?n + 50) c else c"
  have dist: "distinct (map fst (t_blocks d))" using assms(1) by (simp add: chain_ok_def)
  have c': "c' = ?c" "p = map_of (hashBlocks ?c) ?h"
    using assms(4) unfolding getParent_def getBlock_def Let_def by blast+
  have ok: "cached d ?c" using assms(3) loadBlocks_cached [OF dist assms(3)] by simp
  have "p = parent_of d b"
  proof (cases p)
    case (Some q)
    with c' ok have "fst q = ?h" "q \<in> set (t_blocks d)" by (auto simp: cached_def)
    then show ?thesis using Some dist by (cases q) (auto simp: parent_of_def)
  next
    case None
    have "map_of (t_blocks d) ?h = None"
    proof (rule ccontr)
      assume "map_of (t_blocks d) ?h \<noteq> None"
      then obtain r where r: "map_of (t_blocks d) ?h = Some r" by auto
      let ?bs = "filter (\<lambda>x. ?n - 50 \<le> bl_number (snd x) \<and> bl_number (snd x) < ?n + 50) (t_blocks d)"
      have "bl_number r = ?n" using assms(1,2) r unfolding chain_ok_def by blast
      with map_of_SomeD [OF r] have "(?h, r) \<in> set ?bs" by simp
      from load_hash_found [OF this, of c] dist
      have "map_of (hashBlocks (loadBlocks d (?n - 50) (?n + 50) c)) ?h = Some (?h, r)"
        by (simp add: loadBlocks_def distinct_map_filter)
      with None c'(2) show False by (cases "map_of (hashBlocks c) ?h") simp_all
    qed
    with None show ?thesis by (simp add: parent_of_def)
  qed
  with ok c' show ?thesis by simp
qed

section \<open>Reading through a state\<close>

text \<open>\<open>serialFilter\<close> and \<open>some\<close> with a function that reads through the cache.\<close>

fun filter_read :: "('a \<Rightarrow> 'c \<Rightarrow> bool \<times> 'c) \<Rightarrow> 'a list \<Rightarrow> 'c \<Rightarrow> 'a list \<times> 'c" where
  "filter_read f [] c = ([], c)"
| "filter_read f (x # xs) c =
     (case f x c of (keep, c1) \<Rightarrow>
       (case filter_read f xs c1 of (ys, c2) \<Rightarrow> (if keep then x # ys else ys, c2)))"

fun exists_read :: "('a \<Rightarrow> 'c \<Rightarrow> bool \<times> 'c) \<Rightarrow> 'a list \<Rightarrow> 'c \<Rightarrow> bool \<times> 'c" where
  "exists_read f [] c = (False, c)"
| "exists_read f (x # xs) c =
     (case f x c of (found, c1) \<Rightarrow> if found then (True, c1) else exists_read f xs c1)"

definition reads :: "('c \<Rightarrow> bool) \<Rightarrow> ('c \<Rightarrow> 'b \<times> 'c) \<Rightarrow> 'b \<Rightarrow> bool" where
  "reads valid f y \<longleftrightarrow> (\<forall>c x c'. valid c \<longrightarrow> f c = (x, c') \<longrightarrow> x = y \<and> valid c')"

lemma readsD: "reads valid f y \<Longrightarrow> valid c \<Longrightarrow> f c = (x, c') \<Longrightarrow> x = y \<and> valid c'"
  by (auto simp: reads_def)

lemma filter_reads:
  "(\<And>x. x \<in> set xs \<Longrightarrow> reads valid (f x) (P x)) \<Longrightarrow> reads valid (filter_read f xs) (filter P xs)"
proof (induction xs)
  case Nil
  then show ?case by (simp add: reads_def)
next
  case (Cons x xs)
  have x: "reads valid (f x) (P x)" and xs: "reads valid (filter_read f xs) (filter P xs)" using Cons by auto
  show ?case
    unfolding reads_def
  proof (intro allI impI)
    fix c ys c' assume c: "valid c" "filter_read f (x # xs) c = (ys, c')"
    obtain k c1 where k: "f x c = (k, c1)" by fastforce
    obtain zs c2 where z: "filter_read f xs c1 = (zs, c2)" by fastforce
    from readsD [OF x c(1) k] readsD [OF xs _ z] c(2) k z
    show "ys = filter P (x # xs) \<and> valid c'" by auto
  qed
qed

lemma exists_reads:
  "(\<And>x. x \<in> set xs \<Longrightarrow> reads valid (f x) (P x)) \<Longrightarrow> reads valid (exists_read f xs) (list_ex P xs)"
proof (induction xs)
  case Nil
  then show ?case by (simp add: reads_def)
next
  case (Cons x xs)
  have x: "reads valid (f x) (P x)" and xs: "reads valid (exists_read f xs) (list_ex P xs)" using Cons by auto
  show ?case
    unfolding reads_def
  proof (intro allI impI)
    fix c r c' assume c: "valid c" "exists_read f (x # xs) c = (r, c')"
    obtain k c1 where k: "f x c = (k, c1)" by fastforce
    obtain s c2 where s: "exists_read f xs c1 = (s, c2)" by fastforce
    from readsD [OF x c(1) k] readsD [OF xs _ s] c(2) k s
    show "r = list_ex P (x # xs) \<and> valid c'" by (cases k) auto
  qed
qed

end
