(* ===== verification/Confirmer_Blocks.thy ===== *)
theory Confirmer_Blocks
  imports Block_Cache
begin

text \<open>
  \<open>checkBlocks\<close> of \<open>src/apps/confirmer/confirmer.ts\<close>, the only writer of block states: the newest
  thousand pending blocks are confirmed that are deep enough or lie below a confirmed block, then the
  oldest thousand pending blocks are invalidated whose parent is invalid or that have a confirmed
  sibling.
\<close>

definition BLOCKS_TO_CONFIRM :: nat where
  "BLOCKS_TO_CONFIRM = 200"

section \<open>Confirming\<close>

definition supports :: "string list \<Rightarrow> block \<Rightarrow> bool" where
  "supports hashes b \<longleftrightarrow> bl_state (snd b) = BLOCK_CONFIRMED \<or> fst b \<in> set hashes"

text \<open>\<open>fetch\<close> reads the children, through the cache; the depth still needed counts down.\<close>

primrec shouldConfirm ::
  "(block \<Rightarrow> 'c \<Rightarrow> block list \<times> 'c) \<Rightarrow> string list \<Rightarrow> nat \<Rightarrow> block \<Rightarrow> 'c \<Rightarrow> bool \<times> 'c" where
  "shouldConfirm fetch hashes 0 = (\<lambda>b c. (True, c))"
| "shouldConfirm fetch hashes (Suc n) = (\<lambda>b c.
     (case fetch b c of (children, c1) \<Rightarrow>
        if list_ex (supports hashes) children then (True, c1)
        else exists_read (shouldConfirm fetch hashes n) children c1))"

fun confirm_generations ::
  "(block \<Rightarrow> 'c \<Rightarrow> block list \<times> 'c) \<Rightarrow> block list list \<Rightarrow> string list \<Rightarrow> 'c \<Rightarrow> string list res" where
  "confirm_generations fetch [] hashes c = Inr hashes"
| "confirm_generations fetch (generation # gs) hashes c =
     (case filter_read (shouldConfirm fetch hashes BLOCKS_TO_CONFIRM) generation c of (confirmable, c1) \<Rightarrow>
        if length confirmable > 1 then Inl (JsError ''Blockchain got owned.'')
        else confirm_generations fetch gs (hashes @ map fst confirmable) c1)"

definition pending :: "block \<Rightarrow> bool" where
  "pending b \<longleftrightarrow> bl_state (snd b) = BLOCK_PENDING"

definition newest_pending :: "db \<Rightarrow> block list" where
  "newest_pending d = take 1000 (sort_key (\<lambda>b. - bl_number (snd b)) (filter pending (t_blocks d)))"

definition mark_blocks :: "string list \<Rightarrow> BlockState \<Rightarrow> db \<Rightarrow> db res" where
  "mark_blocks hashes s = update_blocks (\<lambda>h _. h \<in> set hashes) (\<lambda>r. r\<lparr>bl_state := s\<rparr>)"

definition confirmBlocks :: "db \<Rightarrow> db res" where
  "confirmBlocks d =
     bind_res (confirm_generations (getChildren d)
         (groupBy (newest_pending d) (\<lambda>b. bl_number (snd b))) [] empty_cache)
       (\<lambda>hashes. mark_blocks hashes BLOCK_CONFIRMED d)"

section \<open>Invalidating\<close>

definition confirmed_sibling :: "block \<Rightarrow> block list \<Rightarrow> bool" where
  "confirmed_sibling b others \<longleftrightarrow> list_ex (\<lambda>x. fst x \<noteq> fst b \<and> bl_state (snd x) = BLOCK_CONFIRMED) others"

definition shouldInvalidate :: "db \<Rightarrow> string list \<Rightarrow> block \<Rightarrow> cache \<Rightarrow> bool \<times> cache" where
  "shouldInvalidate d hashes b c =
     (if bl_parentHash (snd b) \<in> set hashes then (True, c)
      else
        (case getParent d b c of (parent, c1) \<Rightarrow>
           if (case parent of None \<Rightarrow> False | Some p \<Rightarrow> bl_state (snd p) = BLOCK_INVALIDATED) then (True, c1)
           else (case getGeneration d (bl_number (snd b)) c1 of (others, c2) \<Rightarrow> (confirmed_sibling b others, c2))))"

fun invalidate_loop :: "db \<Rightarrow> block list \<Rightarrow> string list \<Rightarrow> cache \<Rightarrow> string list" where
  "invalidate_loop d [] hashes c = hashes"
| "invalidate_loop d (b # bs) hashes c =
     (case shouldInvalidate d hashes b c of (invalid, c1) \<Rightarrow>
        invalidate_loop d bs (if invalid then hashes @ [fst b] else hashes) c1)"

definition oldest_pending :: "db \<Rightarrow> block list" where
  "oldest_pending d = take 1000 (sort_key (\<lambda>b. bl_number (snd b)) (filter pending (t_blocks d)))"

definition invalidateBlocks :: "db \<Rightarrow> db res" where
  "invalidateBlocks d = mark_blocks (invalidate_loop d (oldest_pending d) [] empty_cache) BLOCK_INVALIDATED d"

definition checkBlocks :: "db \<Rightarrow> db res" where
  "checkBlocks d = bind_res (confirmBlocks d) invalidateBlocks"

section \<open>Without the cache\<close>

primrec confirmable :: "db \<Rightarrow> string list \<Rightarrow> nat \<Rightarrow> block \<Rightarrow> bool" where
  "confirmable d hashes 0 = (\<lambda>b. True)"
| "confirmable d hashes (Suc n) = (\<lambda>b. list_ex (supports hashes) (children_of d b) \<or>
     list_ex (confirmable d hashes n) (children_of d b))"

fun confirm_plain :: "db \<Rightarrow> block list list \<Rightarrow> string list \<Rightarrow> string list res" where
  "confirm_plain d [] hashes = Inr hashes"
| "confirm_plain d (generation # gs) hashes =
     (let found = filter (confirmable d hashes BLOCKS_TO_CONFIRM) generation in
      if length found > 1 then Inl (JsError ''Blockchain got owned.'')
      else confirm_plain d gs (hashes @ map fst found))"

locale block_children =
  fixes fetch :: "block \<Rightarrow> 'c \<Rightarrow> block list \<times> 'c" and valid :: "'c \<Rightarrow> bool" and d :: db
  assumes fetch: "reads valid (fetch b) (children_of d b)"
begin

lemma shouldConfirm_reads: "reads valid (shouldConfirm fetch hashes n b) (confirmable d hashes n b)"
proof (induction n arbitrary: b)
  case 0
  then show ?case by (simp add: reads_def)
next
  case (Suc n)
  show ?case
    unfolding reads_def
  proof (intro allI impI)
    fix c r c' assume c: "valid c" "shouldConfirm fetch hashes (Suc n) b c = (r, c')"
    obtain bs c1 where bs: "fetch b c = (bs, c1)" by fastforce
    from readsD [OF fetch c(1) bs] have f: "bs = children_of d b" "valid c1" by auto
    have e: "reads valid (exists_read (shouldConfirm fetch hashes n) bs) (list_ex (confirmable d hashes n) bs)"
      by (rule exists_reads) (rule Suc.IH)
    from c(2) bs f readsD [OF e f(2)] show "r = confirmable d hashes (Suc n) b \<and> valid c'"
      by (auto split: if_splits)
  qed
qed

lemma confirm_generations_plain: "valid c \<Longrightarrow> confirm_generations fetch gs hashes c = confirm_plain d gs hashes"
proof (induction gs arbitrary: hashes c)
  case (Cons g gs)
  obtain found c1 where f: "filter_read (shouldConfirm fetch hashes BLOCKS_TO_CONFIRM) g c = (found, c1)" by fastforce
  have "reads valid (filter_read (shouldConfirm fetch hashes BLOCKS_TO_CONFIRM) g)
      (filter (confirmable d hashes BLOCKS_TO_CONFIRM) g)"
    by (rule filter_reads) (rule shouldConfirm_reads)
  from readsD [OF this Cons.prems f] Cons.IH [of c1] f show ?case by (simp add: Let_def)
qed simp

end

text \<open>The cache fetches what the database holds.\<close>

interpretation cache_children: block_children "getChildren d" "\<lambda>c. cached d c \<and> distinct (map fst (t_blocks d))" d
  for d
  by unfold_locales (auto simp: reads_def dest: getChildren_reads)

end
