(* ===== verification/Confirmer_Chain.thy ===== *)
theory Confirmer_Chain
  imports Confirmer_Blocks Sample
begin

text \<open>
  What the two passes over the pending blocks amount to, without the cache, the order of the passes and
  the sets they build up: who is confirmed and who is invalidated, in terms of the blocks below and
  above; and that no height gets two confirmed blocks as long as the chain is not reorganised deeper
  than the depth of a confirmation.
\<close>

lemma block_find: "distinct (map fst (t_blocks d)) \<Longrightarrow> b \<in> set (t_blocks d) \<Longrightarrow>
    map_of (t_blocks d) (fst b) = Some (snd b)"
  by (cases b) simp

section \<open>Descendants\<close>

definition child :: "db \<Rightarrow> string \<Rightarrow> string \<Rightarrow> bool" where
  "child d h h' \<longleftrightarrow> (\<exists>r r'. map_of (t_blocks d) h = Some r \<and> map_of (t_blocks d) h' = Some r' \<and>
     bl_parentHash r' = h \<and> bl_number r' = bl_number r + 1)"

inductive descendant :: "db \<Rightarrow> nat \<Rightarrow> string \<Rightarrow> string \<Rightarrow> bool" for d where
  itself: "descendant d 0 h h"
| below: "child d h h' \<Longrightarrow> descendant d n h' e \<Longrightarrow> descendant d (Suc n) h e"

inductive_cases descendant_0E: "descendant d 0 h e"
inductive_cases descendant_SucE: "descendant d (Suc n) h e"

definition in_state :: "BlockState \<Rightarrow> db \<Rightarrow> string \<Rightarrow> bool" where
  "in_state s d h \<longleftrightarrow> (\<exists>r. map_of (t_blocks d) h = Some r \<and> bl_state r = s)"

definition deep :: "db \<Rightarrow> string \<Rightarrow> bool" where
  "deep d h \<longleftrightarrow> (\<exists>e. descendant d BLOCKS_TO_CONFIRM h e)"

lemma ex_children:
  assumes "distinct (map fst (t_blocks d))" and "map_of (t_blocks d) h = Some r"
  shows "list_ex P (children_of d (h, r)) \<longleftrightarrow>
    (\<exists>h' r'. child d h h' \<and> map_of (t_blocks d) h' = Some r' \<and> P (h', r'))"
proof -
  have "(h', r') \<in> set (children_of d (h, r)) \<longleftrightarrow> child d h h' \<and> map_of (t_blocks d) h' = Some r'" for h' r'
  proof (cases "map_of (t_blocks d) h'")
    case None
    then have "(h', r') \<notin> set (t_blocks d)" by (metis assms(1) map_of_is_SomeI option.distinct(1))
    with None show ?thesis by (auto simp: children_of_def generation_of_def)
  next
    case (Some r1)
    then have "(h', r') \<in> set (t_blocks d) \<longleftrightarrow> r' = r1"
      by (metis assms(1) map_of_SomeD map_of_is_SomeI option.inject)
    with Some assms(2) show ?thesis by (auto simp: children_of_def generation_of_def child_def)
  qed
  then show ?thesis unfolding list_ex_iff Bex_def by force
qed

lemma child_found: "child d h h' \<Longrightarrow> \<exists>r'. map_of (t_blocks d) h' = Some r'"
  by (auto simp: child_def)

lemma confirmable_iff:
  assumes "distinct (map fst (t_blocks d))"
  shows "map_of (t_blocks d) h = Some r \<Longrightarrow> confirmable d hashes n (h, r) \<longleftrightarrow>
    (\<exists>e. descendant d n h e) \<or>
    (\<exists>k e. 0 < k \<and> k \<le> n \<and> descendant d k h e \<and> (in_state BLOCK_CONFIRMED d e \<or> e \<in> set hashes))"
proof (induction n arbitrary: h r)
  case 0
  then show ?case by (auto intro: itself)
next
  case (Suc n)
  note ch = ex_children [OF assms Suc.prems]
  let ?s = "\<lambda>e. in_state BLOCK_CONFIRMED d e \<or> e \<in> set hashes"
  have 1: "list_ex (supports hashes) (children_of d (h, r)) \<longleftrightarrow> (\<exists>h'. child d h h' \<and> ?s h')"
    unfolding ch supports_def fst_conv snd_conv in_state_def using child_found by (metis option.inject)
  have 2: "list_ex (confirmable d hashes n) (children_of d (h, r)) \<longleftrightarrow>
      (\<exists>h'. child d h h' \<and> ((\<exists>e. descendant d n h' e) \<or> (\<exists>k e. 0 < k \<and> k \<le> n \<and> descendant d k h' e \<and> ?s e)))"
    unfolding ch using Suc.IH child_found by blast
  have 3: "(\<exists>e. descendant d (Suc n) h e) \<longleftrightarrow> (\<exists>h' e. child d h h' \<and> descendant d n h' e)"
    by (blast elim: descendant_SucE intro: below)
  have 4: "(\<exists>k e. 0 < k \<and> k \<le> Suc n \<and> descendant d k h e \<and> ?s e) \<longleftrightarrow>
      (\<exists>h'. child d h h' \<and> ?s h') \<or> (\<exists>h' k e. child d h h' \<and> 0 < k \<and> k \<le> n \<and> descendant d k h' e \<and> ?s e)"
    (is "?l \<longleftrightarrow> ?r")
  proof
    assume ?l
    then obtain k e where k: "k \<le> n" "descendant d (Suc k) h e" "?s e" by (metis Suc_le_mono gr0_implies_Suc)
    from k(2) obtain h' where "child d h h'" "descendant d k h' e" by (rule descendant_SucE)
    with k show ?r by (cases k) (auto elim: descendant_0E)
  next
    assume ?r
    then show ?l by (meson below itself le0 not_less_eq_eq zero_less_Suc Suc_le_mono)
  qed
  show ?case unfolding confirmable.simps 1 2 3 4 by blast
qed

section \<open>The generations\<close>

fun descending :: "block list list \<Rightarrow> bool" where
  "descending [] = True"
| "descending (g # gs) \<longleftrightarrow> (\<forall>b \<in> set g. \<forall>c \<in> set g. bl_number (snd c) = bl_number (snd b)) \<and>
     (\<forall>b \<in> set g. \<forall>c \<in> set (concat gs). bl_number (snd c) < bl_number (snd b)) \<and> descending gs"

lemma descending_groups:
  assumes "sorted_wrt (\<lambda>b c. bl_number (snd c) \<le> bl_number (snd b)) (concat gs)"
    and "\<forall>g \<in> set gs. \<exists>k. same_key (\<lambda>b. bl_number (snd b)) k g" and "keys_change (\<lambda>b. bl_number (snd b)) gs"
  shows "descending gs"
  using assms
proof (induction gs)
  case (Cons g gs)
  let ?n = "\<lambda>b :: block. bl_number (snd b)"
  from Cons.prems(2) obtain k where k: "same_key ?n k g" by auto
  then have g: "\<And>b. b \<in> set g \<Longrightarrow> ?n b = k" "g \<noteq> []" by (auto simp: same_key_def)
  have kc: "keys_change ?n gs" using Cons.prems(3) by (cases gs) auto
  have le: "?n c \<le> k" if "c \<in> set (concat gs)" for c
    using Cons.prems(1) that g by (cases g) (auto simp: sorted_wrt_append)
  have "?n c < k" if c: "c \<in> set (concat gs)" for c
  proof (cases gs)
    case (Cons h hs)
    with Cons.prems(2) obtain k' where "same_key ?n k' h" by auto
    then have h: "\<And>b. b \<in> set h \<Longrightarrow> ?n b = k'" "h \<noteq> []" by (auto simp: same_key_def)
    have "k \<noteq> k'" using Cons.prems(3) Cons g h by (metis keys_change.simps(1) list.set_sel(1))
    moreover have "k' \<le> k" using le [of "hd h"] h(1) [of "hd h"] hd_in_set [OF h(2)] Cons by simp
    moreover have "?n c \<le> k'"
      using Cons.prems(1) c Cons h by (cases h) (auto simp: sorted_wrt_append)
    ultimately show ?thesis by simp
  qed (use c in simp)
  moreover have "descending gs"
    using Cons.prems kc by (intro Cons.IH) (auto simp: sorted_wrt_append)
  ultimately show ?case using g by auto
qed simp

lemma sorted_newest: "sorted_wrt (\<lambda>b c. bl_number (snd c) \<le> bl_number (snd b)) (newest_pending d)"
proof -
  have "sorted (map (\<lambda>b. - bl_number (snd b)) (sort_key (\<lambda>b. - bl_number (snd b)) (filter pending (t_blocks d))))"
    by simp
  then have "sorted_wrt (\<lambda>b c. bl_number (snd c) \<le> bl_number (snd b))
      (sort_key (\<lambda>b. - bl_number (snd b)) (filter pending (t_blocks d)))"
    by (simp add: sorted_map)
  then show ?thesis unfolding newest_pending_def by (rule sorted_wrt_take)
qed

lemma newest_descending: "descending (groupBy (newest_pending d) (\<lambda>b. bl_number (snd b)))"
  using groupBy_runs [of "newest_pending d" "\<lambda>b. bl_number (snd b)"] sorted_newest
  by (intro descending_groups) (simp_all add: groupBy_concat)

lemma newest_pendingD: "b \<in> set (newest_pending d) \<Longrightarrow> b \<in> set (t_blocks d) \<and> pending b"
  unfolding newest_pending_def by (auto dest: in_set_takeD)

lemma descendant_number: "descendant d k h e \<Longrightarrow> map_of (t_blocks d) h = Some r \<Longrightarrow>
    \<exists>r'. map_of (t_blocks d) e = Some r' \<and> bl_number r' = bl_number r + int k"
proof (induction arbitrary: r rule: descendant.induct)
  case (below h h' n e)
  then obtain r' where "map_of (t_blocks d) h' = Some r'" "bl_number r' = bl_number r + 1" by (auto simp: child_def)
  with below.IH [of r'] show ?case by auto
qed simp

text \<open>Only hashes of higher blocks matter for a block.\<close>

lemma confirmable_cong:
  assumes "distinct (map fst (t_blocks d))" and "map_of (t_blocks d) h = Some r"
    and "\<And>e r'. map_of (t_blocks d) e = Some r' \<Longrightarrow> bl_number r < bl_number r' \<Longrightarrow> e \<in> set H \<longleftrightarrow> e \<in> set H'"
  shows "confirmable d H n (h, r) \<longleftrightarrow> confirmable d H' n (h, r)"
proof -
  have "e \<in> set H \<longleftrightarrow> e \<in> set H'" if "0 < k" "descendant d k h e" for k e
    using descendant_number [OF that(2) assms(2)] that(1) assms(3) by auto
  then show ?thesis unfolding confirmable_iff [OF assms(1,2)] by blast
qed

lemma confirm_plain_spec:
  assumes "distinct (map fst (t_blocks d))"
  shows "descending gs \<Longrightarrow> set (concat gs) \<subseteq> set (t_blocks d) \<Longrightarrow>
    (\<And>b. b \<in> set (concat gs) \<Longrightarrow> fst b \<notin> set H0) \<Longrightarrow> confirm_plain d gs H0 = Inr H \<Longrightarrow>
    set H0 \<subseteq> set H \<and> set H \<subseteq> set H0 \<union> fst ` set (concat gs) \<and>
    (\<forall>b \<in> set (concat gs). fst b \<in> set H \<longleftrightarrow> confirmable d H BLOCKS_TO_CONFIRM b)"
proof (induction gs arbitrary: H0)
  case (Cons g gs)
  let ?n = "\<lambda>b :: block. bl_number (snd b)"
  let ?found = "filter (confirmable d H0 BLOCKS_TO_CONFIRM) g"
  let ?H1 = "H0 @ map fst ?found"
  have same: "\<And>b c. b \<in> set g \<Longrightarrow> c \<in> set g \<Longrightarrow> ?n c = ?n b"
    and less: "\<And>b c. b \<in> set g \<Longrightarrow> c \<in> set (concat gs) \<Longrightarrow> ?n c < ?n b" and desc: "descending gs"
    using Cons.prems(1) unfolding descending.simps by blast+
  have sub: "set g \<subseteq> set (t_blocks d)" "set (concat gs) \<subseteq> set (t_blocks d)" using Cons.prems(2) by auto
  have found: "map_of (t_blocks d) (fst b) = Some (snd b)" if "b \<in> set (t_blocks d)" for b
    using assms that by (cases b) simp
  have eq: "b = c" if "b \<in> set (t_blocks d)" "c \<in> set (t_blocks d)" "fst b = fst c" for b c
    using found [OF that(1)] found [OF that(2)] that(3) by (cases b; cases c) simp
  have new: "fst b \<notin> set ?H1" if b: "b \<in> set (concat gs)" for b
  proof
    assume "fst b \<in> set ?H1"
    moreover have "fst b \<notin> set H0" using Cons.prems(3) b by simp
    ultimately obtain c where c: "c \<in> set g" "fst c = fst b" by auto
    with eq [of c b] sub b have "c = b" by blast
    with less [OF c(1) b] show False by simp
  qed
  have p: "confirm_plain d gs ?H1 = Inr H" using Cons.prems(4) by (simp add: Let_def split: if_splits)
  from Cons.IH [OF desc sub(2) new p] have IH: "set ?H1 \<subseteq> set H" "set H \<subseteq> set ?H1 \<union> fst ` set (concat gs)"
    "\<And>b. b \<in> set (concat gs) \<Longrightarrow> fst b \<in> set H \<longleftrightarrow> confirmable d H BLOCKS_TO_CONFIRM b" by blast+
  have "fst b \<in> set H \<longleftrightarrow> confirmable d H BLOCKS_TO_CONFIRM b" if b: "b \<in> set g" for b
  proof -
    have old: "fst b \<notin> set H0" using Cons.prems(3) b by simp
    have "fst b \<notin> fst ` set (concat gs)"
    proof
      assume "fst b \<in> fst ` set (concat gs)"
      then obtain c where c: "c \<in> set (concat gs)" "fst c = fst b" by (metis imageE)
      with eq [of c b] sub b have "c = b" by blast
      with less [OF b c(1)] show False by simp
    qed
    with IH(1,2) old have "fst b \<in> set H \<longleftrightarrow> fst b \<in> fst ` set ?found" by auto
    also have "\<dots> \<longleftrightarrow> b \<in> set ?found"
    proof
      assume "fst b \<in> fst ` set ?found"
      then obtain c where c: "c \<in> set ?found" "fst c = fst b" by (metis imageE)
      with eq [of c b] sub(1) b have "c = b" by (metis filter_is_subset subsetD)
      with c(1) show "b \<in> set ?found" by simp
    qed (rule imageI)
    also have "\<dots> \<longleftrightarrow> confirmable d H0 BLOCKS_TO_CONFIRM b" using b by simp
    also have "\<dots> \<longleftrightarrow> confirmable d H BLOCKS_TO_CONFIRM b"
    proof -
      have agree: "e \<in> set H0 \<longleftrightarrow> e \<in> set H" if e: "map_of (t_blocks d) e = Some r'" "?n b < bl_number r'" for e r'
      proof -
        have "e \<notin> fst ` (set g \<union> set (concat gs))"
        proof
          assume "e \<in> fst ` (set g \<union> set (concat gs))"
          then obtain c where c: "c \<in> set g \<union> set (concat gs)" "fst c = e" by (metis imageE)
          from c(1) sub have "c \<in> set (t_blocks d)" by blast
          from found [OF this] e(1) c(2) have "r' = snd c" by simp
          moreover have "?n c \<le> ?n b"
            using c(1) same [OF b, of c] less [OF b, of c] by (metis UnE less_imp_le order_refl)
          ultimately show False using e(2) by simp
        qed
        moreover have "fst ` set ?found \<subseteq> fst ` set g" by (intro image_mono) simp
        ultimately have "e \<notin> fst ` set ?found" "e \<notin> fst ` set (concat gs)" by blast+
        with IH(1,2) show ?thesis unfolding set_append set_map by blast
      qed
      have "b \<in> set (t_blocks d)" using b sub(1) by blast
      from confirmable_cong [OF assms found [OF this] agree] show ?thesis by simp
    qed
    finally show ?thesis .
  qed
  with IH show ?case by auto
qed simp

section \<open>Who is confirmed\<close>

lemma mark_blocks_Inr: "mark_blocks hashes s d =
    Inr (put_blocks (update_rows (\<lambda>h _. h \<in> set hashes) (\<lambda>r. r\<lparr>bl_state := s\<rparr>) (t_blocks d)) d)"
  by (simp add: mark_blocks_def block_tab.update_many_Inr no_check_def)

lemma marked_find: "mark_blocks hashes s d = Inr d' \<Longrightarrow>
    map_of (t_blocks d') h = map_option (\<lambda>r. if h \<in> set hashes then r\<lparr>bl_state := s\<rparr> else r) (map_of (t_blocks d) h)"
  by (auto simp: mark_blocks_Inr map_of_update_rows)

lemma confirmBlocks_plain:
  assumes "distinct (map fst (t_blocks d))"
  shows "confirmBlocks d = bind_res (confirm_plain d (groupBy (newest_pending d) (\<lambda>b. bl_number (snd b))) [])
    (\<lambda>hashes. mark_blocks hashes BLOCK_CONFIRMED d)"
  using cache_children.confirm_generations_plain [of d empty_cache] assms cached_empty
  by (simp add: confirmBlocks_def)

lemma confirmed_hashes:
  assumes "distinct (map fst (t_blocks d))"
    and "confirm_plain d (groupBy (newest_pending d) (\<lambda>b. bl_number (snd b))) [] = Inr H"
  shows "set H \<subseteq> fst ` set (newest_pending d)"
    and "b \<in> set (newest_pending d) \<Longrightarrow> fst b \<in> set H \<longleftrightarrow> confirmable d H BLOCKS_TO_CONFIRM b"
proof -
  let ?gs = "groupBy (newest_pending d) (\<lambda>b. bl_number (snd b))"
  have sub: "set (concat ?gs) \<subseteq> set (t_blocks d)" unfolding groupBy_concat using newest_pendingD by blast
  have no: "\<And>b. b \<in> set (concat ?gs) \<Longrightarrow> fst b \<notin> set []" by simp
  note s = confirm_plain_spec [OF assms(1) newest_descending sub no assms(2), unfolded groupBy_concat]
  from s show "set H \<subseteq> fst ` set (newest_pending d)" by simp
  from s show "b \<in> set (newest_pending d) \<Longrightarrow> fst b \<in> set H \<longleftrightarrow> confirmable d H BLOCKS_TO_CONFIRM b" by blast
qed

text \<open>What the depth and the descendants say of a block, given the states after the run.\<close>

definition to_confirm :: "db \<Rightarrow> db \<Rightarrow> string \<Rightarrow> bool" where
  "to_confirm d d' h \<longleftrightarrow> deep d h \<or>
     (\<exists>k e. 0 < k \<and> k \<le> BLOCKS_TO_CONFIRM \<and> descendant d k h e \<and> in_state BLOCK_CONFIRMED d' e)"

text \<open>
  (C17) A run looks at the thousand newest pending blocks only, and of these it confirms exactly those that
  have a chain of 200 generations below them or, within 200 generations, a descendant that is confirmed
  when the run is over; every other block, an older pending one included, keeps its state.  In particular the cache, the order of the
  generations and the set of hashes found so far make no difference.
\<close>

theorem confirmation_rule:
  assumes "distinct (map fst (t_blocks d))" and "confirmBlocks d = Inr d'" and "map_of (t_blocks d) h = Some r"
  shows "map_of (t_blocks d') h = Some
    (if (h, r) \<in> set (newest_pending d) \<and> to_confirm d d' h then r\<lparr>bl_state := BLOCK_CONFIRMED\<rparr> else r)"
proof -
  from assms(2) obtain H where
    H: "confirm_plain d (groupBy (newest_pending d) (\<lambda>b. bl_number (snd b))) [] = Inr H"
    and m: "mark_blocks H BLOCK_CONFIRMED d = Inr d'"
    unfolding confirmBlocks_plain [OF assms(1)] bind_res_Inr_iff by blast
  note found = confirmed_hashes [OF assms(1) H]
  have in_H: "in_state BLOCK_CONFIRMED d' e \<longleftrightarrow> in_state BLOCK_CONFIRMED d e \<or> e \<in> set H" for e
  proof (cases "map_of (t_blocks d) e")
    case None
    then have "e \<notin> fst ` set (t_blocks d)" by (simp add: map_of_eq_None_iff)
    moreover have "fst ` set (newest_pending d) \<subseteq> fst ` set (t_blocks d)"
      using newest_pendingD by (intro image_mono subsetI) blast
    ultimately have "e \<notin> set H" using found(1) by blast
    with None show ?thesis by (simp add: in_state_def marked_find [OF m])
  next
    case (Some r')
    then show ?thesis by (simp add: in_state_def marked_find [OF m])
  qed
  have newest: "(h, r) \<in> set (newest_pending d)" if "h \<in> set H"
  proof -
    from that found(1) obtain b where b: "b \<in> set (newest_pending d)" "fst b = h" by (metis imageE subsetD)
    then have "map_of (t_blocks d) h = Some (snd b)" using newest_pendingD [OF b(1)] block_find [OF assms(1)] by blast
    with assms(3) b show ?thesis by (metis option.inject prod.collapse)
  qed
  have "h \<in> set H \<longleftrightarrow> (h, r) \<in> set (newest_pending d) \<and> to_confirm d d' h"
    unfolding to_confirm_def deep_def in_H
    using newest found(2) [of "(h, r)"] confirmable_iff [OF assms(1,3), of H BLOCKS_TO_CONFIRM] by auto
  then show ?thesis by (simp add: marked_find [OF m] assms(3))
qed

section \<open>Who is invalidated\<close>

fun invalidate_plain :: "db \<Rightarrow> block list \<Rightarrow> string list \<Rightarrow> string list" where
  "invalidate_plain d [] hashes = hashes"
| "invalidate_plain d (b # bs) hashes =
     invalidate_plain d bs
       (if bl_parentHash (snd b) \<in> set hashes \<or> in_state BLOCK_INVALIDATED d (bl_parentHash (snd b)) \<or>
           confirmed_sibling b (generation_of d (bl_number (snd b)))
        then hashes @ [fst b] else hashes)"

lemma shouldInvalidate_reads:
  assumes "chain_ok d" and "b \<in> set (t_blocks d)"
  shows "reads (cached d) (shouldInvalidate d hashes b)
    (bl_parentHash (snd b) \<in> set hashes \<or> in_state BLOCK_INVALIDATED d (bl_parentHash (snd b)) \<or>
     confirmed_sibling b (generation_of d (bl_number (snd b))))"
  unfolding reads_def
proof (intro allI impI)
  have dist: "distinct (map fst (t_blocks d))" using assms(1) by (simp add: chain_ok_def)
  fix c r c' assume c: "cached d c" "shouldInvalidate d hashes b c = (r, c')"
  obtain p c1 where p: "getParent d b c = (p, c1)" by fastforce
  obtain g c2 where g: "getGeneration d (bl_number (snd b)) c1 = (g, c2)" by fastforce
  from getParent_reads [OF assms c(1) p] have p': "p = parent_of d b" "cached d c1" by auto
  from getGeneration_reads [OF dist p'(2) g] have g': "g = generation_of d (bl_number (snd b))" "cached d c2" by auto
  have "(case p of None \<Rightarrow> False | Some p \<Rightarrow> bl_state (snd p) = BLOCK_INVALIDATED) \<longleftrightarrow>
      in_state BLOCK_INVALIDATED d (bl_parentHash (snd b))"
    unfolding p' parent_of_def in_state_def by (auto split: option.split)
  with c p p'(2) g g' show "r = (bl_parentHash (snd b) \<in> set hashes \<or> in_state BLOCK_INVALIDATED d (bl_parentHash (snd b)) \<or>
      confirmed_sibling b (generation_of d (bl_number (snd b)))) \<and> cached d c'"
    by (auto simp: shouldInvalidate_def split: if_splits)
qed

lemma invalidate_loop_plain:
  "chain_ok d \<Longrightarrow> set bs \<subseteq> set (t_blocks d) \<Longrightarrow> cached d c \<Longrightarrow>
   invalidate_loop d bs hashes c = invalidate_plain d bs hashes"
proof (induction bs arbitrary: hashes c)
  case (Cons b bs)
  obtain r c1 where r: "shouldInvalidate d hashes b c = (r, c1)" by fastforce
  from Cons.prems(2) have "b \<in> set (t_blocks d)" "set bs \<subseteq> set (t_blocks d)" by auto
  with readsD [OF shouldInvalidate_reads [OF Cons.prems(1) this(1)] Cons.prems(3) r] Cons.IH [OF Cons.prems(1)] r
  show ?case by simp
qed simp

definition to_invalidate :: "db \<Rightarrow> (string \<Rightarrow> bool) \<Rightarrow> block \<Rightarrow> bool" where
  "to_invalidate d invalid b \<longleftrightarrow> invalid (bl_parentHash (snd b)) \<or>
     (\<exists>s r. s \<noteq> fst b \<and> map_of (t_blocks d) s = Some r \<and> bl_number r = bl_number (snd b) \<and> bl_state r = BLOCK_CONFIRMED)"

lemma confirmed_sibling_iff:
  assumes "distinct (map fst (t_blocks d))"
  shows "confirmed_sibling b (generation_of d (bl_number (snd b))) \<longleftrightarrow>
    (\<exists>s r. s \<noteq> fst b \<and> map_of (t_blocks d) s = Some r \<and> bl_number r = bl_number (snd b) \<and> bl_state r = BLOCK_CONFIRMED)"
  using assms by (auto simp: confirmed_sibling_def generation_of_def list_ex_iff split_paired_Ex Bex_def)

text \<open>A parent stands earlier in the order of the pass, so that it is decided before its children.\<close>

lemma invalidate_plain_spec:
  assumes "chain_ok d"
  shows "sorted_wrt (\<lambda>b c. bl_number (snd b) \<le> bl_number (snd c)) bs \<Longrightarrow> distinct (map fst bs) \<Longrightarrow>
    set bs \<subseteq> set (t_blocks d) \<Longrightarrow> set H0 \<inter> fst ` set bs = {} \<Longrightarrow>
    (let H = invalidate_plain d bs H0 in set H0 \<subseteq> set H \<and> set H \<subseteq> set H0 \<union> fst ` set bs \<and>
      (\<forall>b \<in> set bs. fst b \<in> set H \<longleftrightarrow>
        to_invalidate d (\<lambda>p. p \<in> set H \<or> in_state BLOCK_INVALIDATED d p) b))"
proof (induction bs arbitrary: H0)
  case (Cons b bs)
  let ?H = "invalidate_plain d (b # bs) H0"
  let ?new = "to_invalidate d (\<lambda>p. p \<in> set H0 \<or> in_state BLOCK_INVALIDATED d p) b"
  let ?H1 = "if ?new then H0 @ [fst b] else H0"
  have dist: "distinct (map fst (t_blocks d))" using assms by (simp add: chain_ok_def)
  have H: "?H = invalidate_plain d bs ?H1"
    by (simp add: to_invalidate_def confirmed_sibling_iff [OF dist] disj_assoc)
  note [simp del] = invalidate_plain.simps
  have "set ?H1 \<inter> fst ` set bs = {}" using Cons.prems(2,4) by auto
  then have IH: "set ?H1 \<subseteq> set ?H" "set ?H \<subseteq> set ?H1 \<union> fst ` set bs"
    "\<And>c. c \<in> set bs \<Longrightarrow> fst c \<in> set ?H \<longleftrightarrow> to_invalidate d (\<lambda>p. p \<in> set ?H \<or> in_state BLOCK_INVALIDATED d p) c"
    using Cons.IH [of ?H1] Cons.prems unfolding H Let_def by auto
  have b: "b \<in> set (t_blocks d)" using Cons.prems(3) by simp
  have parent: "bl_parentHash (snd b) \<notin> fst ` set (b # bs)"
  proof
    assume "bl_parentHash (snd b) \<in> fst ` set (b # bs)"
    then obtain p where p: "p \<in> set (b # bs)" "bl_parentHash (snd b) = fst p" by (rule imageE)
    then have "map_of (t_blocks d) (bl_parentHash (snd b)) = Some (snd p)"
      using Cons.prems(3) block_find [OF dist, of p] by auto
    then have "bl_number (snd p) = bl_number (snd b) - 1" using assms b unfolding chain_ok_def by blast
    with p(1) Cons.prems(1) show False by auto
  qed
  have "fst b \<in> set ?H \<longleftrightarrow> ?new"
    using IH(1,2) Cons.prems(2,4) by (cases ?new) auto
  also have "?new \<longleftrightarrow> to_invalidate d (\<lambda>p. p \<in> set ?H \<or> in_state BLOCK_INVALIDATED d p) b"
    using IH(1,2) parent unfolding to_invalidate_def by (auto split: if_splits)
  finally show ?case using IH unfolding Let_def by (auto split: if_splits)
qed (simp add: Let_def)

lemma oldest_pendingD: "b \<in> set (oldest_pending d) \<Longrightarrow> b \<in> set (t_blocks d) \<and> pending b"
  unfolding oldest_pending_def by (auto dest: in_set_takeD)

lemma sorted_oldest: "sorted_wrt (\<lambda>b c. bl_number (snd b) \<le> bl_number (snd c)) (oldest_pending d)"
proof -
  have "sorted (map (\<lambda>b. bl_number (snd b)) (sort_key (\<lambda>b. bl_number (snd b)) (filter pending (t_blocks d))))"
    by simp
  then have "sorted_wrt (\<lambda>b c. bl_number (snd b) \<le> bl_number (snd c))
      (sort_key (\<lambda>b. bl_number (snd b)) (filter pending (t_blocks d)))"
    by (simp add: sorted_map)
  then show ?thesis unfolding oldest_pending_def by (rule sorted_wrt_take)
qed

lemma distinct_pending:
  assumes "distinct (map fst (t_blocks d))"
  shows "distinct (map fst (oldest_pending d))" "distinct (map fst (newest_pending d))"
proof -
  have "distinct (map fst (take 1000 (sort_key f (filter pending (t_blocks d)))))" for f :: "block \<Rightarrow> int"
    unfolding take_map [symmetric]
    using assms by (intro distinct_take) (auto simp: distinct_map intro: inj_on_subset)
  then show "distinct (map fst (oldest_pending d))" "distinct (map fst (newest_pending d))"
    unfolding oldest_pending_def newest_pending_def by blast+
qed

lemma invalidateBlocks_plain:
  assumes "chain_ok d"
  shows "invalidateBlocks d = mark_blocks (invalidate_plain d (oldest_pending d) []) BLOCK_INVALIDATED d"
  using invalidate_loop_plain [OF assms _ cached_empty, of "oldest_pending d" "[]"] oldest_pendingD
  by (simp add: invalidateBlocks_def subset_iff)

text \<open>
  A run invalidates exactly the blocks it should: of the thousand oldest pending blocks those whose
  parent is invalid when the run is over, or that have a confirmed sibling; every other block keeps its
  state.
\<close>

lemma invalidation_rule:
  assumes "chain_ok d" and "invalidateBlocks d = Inr d'" and "map_of (t_blocks d) h = Some r"
  shows "map_of (t_blocks d') h = Some
    (if (h, r) \<in> set (oldest_pending d) \<and> to_invalidate d (in_state BLOCK_INVALIDATED d') (h, r)
     then r\<lparr>bl_state := BLOCK_INVALIDATED\<rparr> else r)"
proof -
  let ?bs = "oldest_pending d" and ?H = "invalidate_plain d (oldest_pending d) []"
  have dist: "distinct (map fst (t_blocks d))" using assms(1) by (simp add: chain_ok_def)
  have m: "mark_blocks ?H BLOCK_INVALIDATED d = Inr d'" using assms(1,2) by (simp add: invalidateBlocks_plain)
  have s: "set ?H \<subseteq> fst ` set ?bs"
    "\<And>b. b \<in> set ?bs \<Longrightarrow> fst b \<in> set ?H \<longleftrightarrow>
      to_invalidate d (\<lambda>p. p \<in> set ?H \<or> in_state BLOCK_INVALIDATED d p) b"
    using invalidate_plain_spec [OF assms(1) sorted_oldest distinct_pending(1) [OF dist], of "[]"] oldest_pendingD
    by (auto simp: Let_def subset_iff)
  have in_H: "in_state BLOCK_INVALIDATED d' p \<longleftrightarrow> p \<in> set ?H \<or> in_state BLOCK_INVALIDATED d p" for p
  proof (cases "map_of (t_blocks d) p")
    case None
    then have "p \<notin> fst ` set (t_blocks d)" by (simp add: map_of_eq_None_iff)
    moreover have "fst ` set ?bs \<subseteq> fst ` set (t_blocks d)"
      using oldest_pendingD by (intro image_mono subsetI) blast
    ultimately have "p \<notin> set ?H" using s(1) by blast
    with None show ?thesis by (simp add: in_state_def marked_find [OF m])
  next
    case (Some r')
    then show ?thesis by (simp add: in_state_def marked_find [OF m])
  qed
  have oldest: "(h, r) \<in> set ?bs" if "h \<in> set ?H"
  proof -
    from that s(1) obtain b where b: "b \<in> set ?bs" "fst b = h" by (metis imageE subsetD)
    then have "map_of (t_blocks d) h = Some (snd b)" using oldest_pendingD [OF b(1)] block_find [OF dist] by blast
    with assms(3) b show ?thesis by (metis option.inject prod.collapse)
  qed
  have "h \<in> set ?H \<longleftrightarrow> (h, r) \<in> set ?bs \<and> to_invalidate d (in_state BLOCK_INVALIDATED d') (h, r)"
    unfolding in_H using oldest s(2) [of "(h, r)"] by auto
  then show ?thesis by (simp add: marked_find [OF m] assms(3))
qed

section \<open>One confirmed block per height\<close>

lemma descendant_trans: "descendant d k h e \<Longrightarrow> descendant d n e x \<Longrightarrow> descendant d (k + n) h x"
  by (induction rule: descendant.induct) (auto intro: below)

lemma descendant_prefix: "descendant d (n + m) h e \<Longrightarrow> \<exists>x. descendant d n h x"
proof (induction n arbitrary: h)
  case (Suc n)
  then obtain h' where "child d h h'" "descendant d (n + m) h' e" by (auto elim: descendant_SucE)
  with Suc.IH show ?case by (blast intro: below)
qed (blast intro: itself)

lemma deep_above: "descendant d k h e \<Longrightarrow> deep d e \<Longrightarrow> deep d h"
  unfolding deep_def using descendant_trans descendant_prefix [of d BLOCKS_TO_CONFIRM k h]
  by (metis add.commute)

lemma descendant_cong: "child d = child d' \<Longrightarrow> descendant d n h e \<longleftrightarrow> descendant d' n h e"
proof -
  have "descendant d n h e \<Longrightarrow> child d = child d' \<Longrightarrow> descendant d' n h e" for d d'
    by (induction rule: descendant.induct) (auto intro: itself below)
  then show "child d = child d' \<Longrightarrow> descendant d n h e \<longleftrightarrow> descendant d' n h e" by metis
qed

lemma marked_child: "mark_blocks hashes s d = Inr d' \<Longrightarrow> child d' = child d"
proof (intro ext)
  fix h h' assume m: "mark_blocks hashes s d = Inr d'"
  show "child d' h h' = child d h h'"
    unfolding child_def marked_find [OF m]
    by (cases "map_of (t_blocks d) h"; cases "map_of (t_blocks d) h'") auto
qed

lemma marked_deep: "mark_blocks hashes s d = Inr d' \<Longrightarrow> deep d' h = deep d h"
  unfolding deep_def using descendant_cong [OF marked_child] by metis

lemma marked_ok:
  assumes "chain_ok d" and "mark_blocks hashes s d = Inr d'"
  shows "chain_ok d'"
proof -
  have k: "map fst (t_blocks d') = map fst (t_blocks d)"
    using assms(2) by (auto simp: mark_blocks_Inr keys_update_rows)
  have rows: "map_of (t_blocks d') h = Some r' \<longleftrightarrow> (h, r') \<in> set (t_blocks d')" for h r'
    using assms(1) k by (simp add: chain_ok_def)
  have old: "\<exists>r. map_of (t_blocks d) h = Some r \<and> bl_number r = bl_number r' \<and> bl_parentHash r = bl_parentHash r'"
    if "map_of (t_blocks d') h = Some r'" for h r'
    using that unfolding marked_find [OF assms(2)] by (auto split: if_splits)
  have up: "bl_number p = bl_number r - 1"
    if "map_of (t_blocks d) h = Some r" "map_of (t_blocks d) (bl_parentHash r) = Some p" for h r p
    using assms(1) that map_of_SomeD [OF that(1)] unfolding chain_ok_def by fastforce
  have "bl_number p = bl_number (snd b) - 1"
    if b: "b \<in> set (t_blocks d')" "map_of (t_blocks d') (bl_parentHash (snd b)) = Some p" for b p
  proof -
    from b(1) rows have "map_of (t_blocks d') (fst b) = Some (snd b)" by simp
    from old [OF this] old [OF b(2)] up show ?thesis by metis
  qed
  with assms(1) k show ?thesis unfolding chain_ok_def by simp
qed

text \<open>No reorganisation is as deep as a confirmation, and what is confirmed is that deep.\<close>

definition shallow_forks :: "db \<Rightarrow> bool" where
  "shallow_forks d \<longleftrightarrow> (\<forall>h h' r r'. map_of (t_blocks d) h = Some r \<longrightarrow> map_of (t_blocks d) h' = Some r' \<longrightarrow>
     bl_number r = bl_number r' \<longrightarrow> deep d h \<longrightarrow> deep d h' \<longrightarrow> h = h')"

definition confirmed_deep :: "db \<Rightarrow> bool" where
  "confirmed_deep d \<longleftrightarrow> (\<forall>h. in_state BLOCK_CONFIRMED d h \<longrightarrow> deep d h)"

lemma confirm_plain_deep:
  assumes "chain_ok d" and "shallow_forks d" and "confirmed_deep d"
  shows "(\<And>h. h \<in> set H0 \<Longrightarrow> deep d h) \<Longrightarrow> descending gs \<Longrightarrow> set (concat gs) \<subseteq> set (t_blocks d) \<Longrightarrow>
    distinct (map fst (concat gs)) \<Longrightarrow> \<exists>H. confirm_plain d gs H0 = Inr H \<and> (\<forall>h \<in> set H. deep d h)"
proof (induction gs arbitrary: H0)
  case (Cons g gs)
  let ?found = "filter (confirmable d H0 BLOCKS_TO_CONFIRM) g"
  have dist: "distinct (map fst (t_blocks d))" using assms(1) by (simp add: chain_ok_def)
  have sub: "set g \<subseteq> set (t_blocks d)" using Cons.prems(3) by auto
  have found: "map_of (t_blocks d) (fst b) = Some (snd b)" if "b \<in> set g" for b
    using block_find [OF dist] that sub by blast
  have deep: "deep d (fst b)" if b: "b \<in> set ?found" for b
  proof -
    from b have "confirmable d H0 BLOCKS_TO_CONFIRM (fst b, snd b)" "b \<in> set g" by auto
    with confirmable_iff [OF dist found] consider "deep d (fst b)"
      | k e where "descendant d k (fst b) e" "in_state BLOCK_CONFIRMED d e \<or> e \<in> set H0"
      unfolding deep_def by blast
    then show ?thesis
    proof cases
      case 2
      with assms(3) Cons.prems(1) have "deep d e" unfolding confirmed_deep_def by blast
      with deep_above 2(1) show ?thesis by blast
    qed
  qed
  have "length ?found \<le> 1"
  proof (rule ccontr)
    assume "\<not> length ?found \<le> 1"
    then obtain b c bs where f: "?found = b # c # bs"
      by (cases ?found; cases "tl ?found") auto
    then have bc: "b \<in> set ?found" "c \<in> set ?found" by simp_all
    have g: "b \<in> set g" "c \<in> set g" using bc by auto
    with Cons.prems(2) have n: "bl_number (snd b) = bl_number (snd c)" unfolding descending.simps by blast
    from assms(2) [unfolded shallow_forks_def, rule_format, OF found [OF g(1)] found [OF g(2)] n
        deep [OF bc(1)] deep [OF bc(2)]]
    have "fst b = fst c" .
    moreover have "distinct (map fst ?found)" using Cons.prems(4) by (simp add: distinct_map_filter)
    ultimately show False by (simp add: f)
  qed
  moreover have "\<exists>H. confirm_plain d gs (H0 @ map fst ?found) = Inr H \<and> (\<forall>h \<in> set H. deep d h)"
  proof (rule Cons.IH)
    show "deep d h" if "h \<in> set (H0 @ map fst ?found)" for h
    proof (cases "h \<in> set H0")
      case False
      with that obtain b where "b \<in> set ?found" "h = fst b" unfolding set_append set_map by blast
      with deep show ?thesis by simp
    qed (rule Cons.prems(1))
    show "descending gs" using Cons.prems(2) by (simp only: descending.simps)
    show "set (concat gs) \<subseteq> set (t_blocks d)" using Cons.prems(3) by simp
    show "distinct (map fst (concat gs))" using Cons.prems(4) by simp
  qed
  ultimately show ?case by (simp add: Let_def)
qed simp

text \<open>
  (C16) As long as no reorganisation of the chain is as deep as a confirmation (no two blocks of one
  height have 200 generations of descendants), checking the blocks never fails, every confirmed block has
  200 generations below it, and no height ever gets two confirmed blocks, also not by later runs.
\<close>

theorem one_confirmed_per_height:
  assumes "chain_ok d" and "shallow_forks d" and "confirmed_deep d"
  shows "\<exists>d'. checkBlocks d = Inr d' \<and> chain_ok d' \<and> shallow_forks d' \<and> confirmed_deep d' \<and>
    (\<forall>h h' r r'. map_of (t_blocks d') h = Some r \<longrightarrow> map_of (t_blocks d') h' = Some r' \<longrightarrow>
       bl_number r = bl_number r' \<longrightarrow> bl_state r = BLOCK_CONFIRMED \<longrightarrow> bl_state r' = BLOCK_CONFIRMED \<longrightarrow> h = h')"
proof -
  have dist: "distinct (map fst (t_blocks d))" using assms(1) by (simp add: chain_ok_def)
  have "set (concat (groupBy (newest_pending d) (\<lambda>b. bl_number (snd b)))) \<subseteq> set (t_blocks d)"
    unfolding groupBy_concat using newest_pendingD by blast
  then obtain H where H: "confirm_plain d (groupBy (newest_pending d) (\<lambda>b. bl_number (snd b))) [] = Inr H"
    "\<And>h. h \<in> set H \<Longrightarrow> deep d h"
    using confirm_plain_deep [OF assms, of "[]"] newest_descending distinct_pending(2) [OF dist]
    by (metis all_not_in_conv groupBy_concat list.set(1))
  obtain d1 where d1: "mark_blocks H BLOCK_CONFIRMED d = Inr d1" by (simp add: mark_blocks_Inr)
  have c1: "confirmBlocks d = Inr d1" by (simp add: confirmBlocks_plain [OF dist] H d1)
  have ok: "chain_ok d'" if "chain_ok d" "mark_blocks hs s d = Inr d'" for d d' hs s
    using marked_ok that .
  have shallow: "shallow_forks d'" if "shallow_forks d" "mark_blocks hs s d = Inr d'" for d d' hs s
    using that(1) unfolding shallow_forks_def marked_deep [OF that(2)] marked_find [OF that(2)]
    by (auto split: if_splits)
  have deep1: "confirmed_deep d1"
    using assms(3) H(2) unfolding confirmed_deep_def in_state_def marked_deep [OF d1] marked_find [OF d1]
    by (auto split: if_splits)
  have ok1: "chain_ok d1" by (rule ok [OF assms(1) d1])
  obtain hs d' where m: "mark_blocks hs BLOCK_INVALIDATED d1 = Inr d'" and i: "invalidateBlocks d1 = Inr d'"
    using invalidateBlocks_plain [OF ok1] by (simp add: mark_blocks_Inr)
  have deep2: "confirmed_deep d'"
    using deep1 unfolding confirmed_deep_def in_state_def marked_deep [OF m] marked_find [OF m]
    by (auto split: if_splits)
  have shallow2: "shallow_forks d'" by (rule shallow [OF shallow [OF assms(2) d1] m])
  have "h = h'" if "map_of (t_blocks d') h = Some r" "map_of (t_blocks d') h' = Some r'"
    "bl_number r = bl_number r'" "bl_state r = BLOCK_CONFIRMED" "bl_state r' = BLOCK_CONFIRMED" for h h' r r'
    using shallow2 deep2 that unfolding shallow_forks_def confirmed_deep_def in_state_def by blast
  with c1 i ok [OF ok1 m] shallow2 deep2 show ?thesis by (auto simp: checkBlocks_def)
qed

section \<open>On a small chain\<close>

definition block_at :: "int \<Rightarrow> string \<Rightarrow> BlockState \<Rightarrow> block_row" where
  "block_at n parent s = \<lparr>bl_number = n, bl_parentHash = parent, bl_state = s, bl_scanState = WATCHED\<rparr>"

text \<open>Two siblings of height 1, the first with a confirmed child.\<close>

definition fork_db :: db where
  "fork_db = sample_db\<lparr>t_blocks :=
     [(''b1'', block_at 1 ''b0'' BLOCK_PENDING), (''c1'', block_at 1 ''b0'' BLOCK_PENDING),
      (''b2'', block_at 2 ''b1'' BLOCK_CONFIRMED)]\<rparr>"

definition confirmed_fork :: db where
  "confirmed_fork = sample_db\<lparr>t_blocks :=
     [(''b1'', block_at 1 ''b0'' BLOCK_CONFIRMED), (''c1'', block_at 1 ''b0'' BLOCK_PENDING),
      (''b2'', block_at 2 ''b1'' BLOCK_CONFIRMED)]\<rparr>"

lemma fork_keys: "map fst (t_blocks fork_db) = [''b1'', ''c1'', ''b2'']"
  by (simp add: fork_db_def)

lemma fork_confirms: "confirmBlocks fork_db = Inr confirmed_fork"
proof -
  have B: "BLOCKS_TO_CONFIRM = Suc 199" by (simp add: BLOCKS_TO_CONFIRM_def)
  have n: "groupBy (newest_pending fork_db) (\<lambda>b. bl_number (snd b)) =
      [[(''b1'', block_at 1 ''b0'' BLOCK_PENDING), (''c1'', block_at 1 ''b0'' BLOCK_PENDING)]]"
    by (simp add: newest_pending_def fork_db_def pending_def block_at_def groupBy_def)
  have B1: "confirmable fork_db [] BLOCKS_TO_CONFIRM (''b1'', block_at 1 ''b0'' BLOCK_PENDING)"
    unfolding B confirmable.simps by (simp add: children_of_def generation_of_def fork_db_def supports_def block_at_def)
  have C1: "\<not> confirmable fork_db [] BLOCKS_TO_CONFIRM (''c1'', block_at 1 ''b0'' BLOCK_PENDING)"
    unfolding B confirmable.simps by (simp add: children_of_def generation_of_def fork_db_def supports_def block_at_def)
  have "mark_blocks [''b1''] BLOCK_CONFIRMED fork_db = Inr confirmed_fork"
    by (simp add: mark_blocks_Inr fork_db_def confirmed_fork_def update_rows_def block_at_def put_blocks_def)
  then show ?thesis
    by (simp add: confirmBlocks_plain fork_keys n B1 C1)
qed

theorem confirmation_rule_witness:
  "\<exists>d'. confirmBlocks fork_db = Inr d' \<and> map_of (t_blocks d') ''b1'' = Some
    (if (''b1'', block_at 1 ''b0'' BLOCK_PENDING) \<in> set (newest_pending fork_db) \<and> to_confirm fork_db d' ''b1''
     then (block_at 1 ''b0'' BLOCK_PENDING)\<lparr>bl_state := BLOCK_CONFIRMED\<rparr> else block_at 1 ''b0'' BLOCK_PENDING)"
proof -
  have d: "distinct (map fst (t_blocks fork_db))" by (simp add: fork_keys)
  have "map_of (t_blocks fork_db) ''b1'' = Some (block_at 1 ''b0'' BLOCK_PENDING)" by (simp add: fork_db_def)
  from confirmation_rule [OF d fork_confirms this] fork_confirms show ?thesis by blast
qed

lemma fork_ok: "chain_ok confirmed_fork" "chain_ok fork_db"
  by (simp_all add: chain_ok_def confirmed_fork_def fork_db_def block_at_def)

lemma invalidation_rule_witness:
  "\<exists>d'. invalidateBlocks confirmed_fork = Inr d' \<and> map_of (t_blocks d') ''c1'' = Some
    (if (''c1'', block_at 1 ''b0'' BLOCK_PENDING) \<in> set (oldest_pending confirmed_fork) \<and>
        to_invalidate confirmed_fork (in_state BLOCK_INVALIDATED d') (''c1'', block_at 1 ''b0'' BLOCK_PENDING)
     then (block_at 1 ''b0'' BLOCK_PENDING)\<lparr>bl_state := BLOCK_INVALIDATED\<rparr> else block_at 1 ''b0'' BLOCK_PENDING)"
proof -
  obtain d' where i: "invalidateBlocks confirmed_fork = Inr d'"
    by (simp add: invalidateBlocks_plain fork_ok mark_blocks_Inr)
  have "map_of (t_blocks confirmed_fork) ''c1'' = Some (block_at 1 ''b0'' BLOCK_PENDING)"
    by (simp add: confirmed_fork_def)
  from invalidation_rule [OF fork_ok(1) i this] i show ?thesis by blast
qed

text \<open>Two pending siblings, the first with a pending child.\<close>

definition pending_fork :: db where
  "pending_fork = sample_db\<lparr>t_blocks :=
     [(''b1'', block_at 1 ''b0'' BLOCK_PENDING), (''c1'', block_at 1 ''b0'' BLOCK_PENDING),
      (''b2'', block_at 2 ''b1'' BLOCK_PENDING)]\<rparr>"

lemma pending_fork_found: "map_of (t_blocks pending_fork) h = Some r \<Longrightarrow>
    0 < bl_number r \<and> bl_number r \<le> 2 \<and> bl_state r = BLOCK_PENDING"
  by (auto simp: pending_fork_def block_at_def split: if_splits)

lemma pending_fork_shallow: "map_of (t_blocks pending_fork) h = Some r \<Longrightarrow> \<not> deep pending_fork h"
proof
  assume r: "map_of (t_blocks pending_fork) h = Some r" and "deep pending_fork h"
  then obtain e where "descendant pending_fork BLOCKS_TO_CONFIRM h e" by (auto simp: deep_def)
  from descendant_number [OF this r] obtain r' where
    "map_of (t_blocks pending_fork) e = Some r'" "bl_number r' = bl_number r + 200"
    by (auto simp: BLOCKS_TO_CONFIRM_def)
  with pending_fork_found [OF this(1)] pending_fork_found [OF r] show False by simp
qed

theorem one_confirmed_per_height_witness:
  "\<exists>d'. checkBlocks pending_fork = Inr d' \<and> chain_ok d' \<and> shallow_forks d' \<and> confirmed_deep d'"
proof -
  have 1: "chain_ok pending_fork" by (simp add: chain_ok_def pending_fork_def block_at_def)
  have 2: "shallow_forks pending_fork" unfolding shallow_forks_def using pending_fork_shallow by blast
  have 3: "confirmed_deep pending_fork"
    unfolding confirmed_deep_def in_state_def using pending_fork_found by fastforce
  from one_confirmed_per_height [OF 1 2 3] show ?thesis by blast
qed

end
