(* ===== verification/Transfer_Paths.thy ===== *)
theory Transfer_Paths
  imports Tables
begin

text \<open>
  Where a token ends up that changes hands several times in one transaction: \<open>getEndpoint\<close>,
  \<open>getLastAddress\<close>, \<open>getFirstAddress\<close> and \<open>getDepositor\<close> of
  \<open>src/apps/confirmer/confirmer.ts\<close>.  A hop is its sender and its receiver.  The \<open>Map\<close> of
  balances is an association list in insertion order.  The specification is a walk from hop to hop, and
  the routine is shown to find its ends from the hops in any order.
\<close>

type_synonym hop = "wallet \<times> wallet"

definition bump :: "wallet \<Rightarrow> int \<Rightarrow> (wallet, int) table \<Rightarrow> (wallet, int) table" where
  "bump w n m = AList.update w ((case map_of m w of None \<Rightarrow> 0 | Some v \<Rightarrow> v) + n) m"

fun toMinusFrom :: "hop list \<Rightarrow> (wallet, int) table \<Rightarrow> (wallet, int) table" where
  "toMinusFrom [] m = m"
| "toMinusFrom ((sender, receiver) # transfers) m =
     toMinusFrom transfers (bump sender (-1) (bump receiver 1 m))"

definition getEndpoint :: "hop list \<Rightarrow> int \<Rightarrow> wallet option res" where
  "getEndpoint transfers endpoint =
     (let entries = toMinusFrom transfers [] in
      if list_ex (\<lambda>(_, n). n > 1 \<or> n < -1) entries then Inl (JsError ''Invalid transfer path.'')
      else
        let endpoints = filter (\<lambda>x. snd x = endpoint) entries in
        if length endpoints > 1 then Inl (JsError ''Invalid transfer path.'')
        else if length endpoints = 0 then Inr None
        else Inr (Some (fst (endpoints ! 0))))"

definition getLastAddress :: "hop list \<Rightarrow> wallet option res" where
  "getLastAddress transfers = getEndpoint transfers 1"

definition getFirstAddress :: "hop list \<Rightarrow> wallet option res" where
  "getFirstAddress transfers = getEndpoint transfers (-1)"

definition getDepositor :: "wallet \<Rightarrow> hop list \<Rightarrow> wallet res" where
  "getDepositor locker transfers =
     (let transfersToLocker = filter (\<lambda>(_, receiver). receiver = locker) transfers in
      if length transfersToLocker \<noteq> 1 then Inl (JsError ''Invalid deposit.'')
      else Inr (fst (transfersToLocker ! 0)))"

section \<open>Balances\<close>

definition balance :: "hop list \<Rightarrow> wallet \<Rightarrow> int" where
  "balance hs w = int (count_list (map snd hs) w) - int (count_list (map fst hs) w)"

definition amount_in :: "(wallet, int) table \<Rightarrow> wallet \<Rightarrow> int" where
  "amount_in m w = (case map_of m w of None \<Rightarrow> 0 | Some n \<Rightarrow> n)"

lemma amount_bump [simp]: "amount_in (bump w n m) v = amount_in m v + (if v = w then n else 0)"
  by (auto simp: amount_in_def bump_def update_conv')

lemma distinct_bump: "distinct (map fst m) \<Longrightarrow> distinct (map fst (bump w n m))"
  by (simp add: bump_def distinct_update)

lemma amount_toMinusFrom: "amount_in (toMinusFrom hs m) w = amount_in m w + balance hs w"
  by (induction hs m rule: toMinusFrom.induct) (auto simp: balance_def)

lemma distinct_toMinusFrom: "distinct (map fst m) \<Longrightarrow> distinct (map fst (toMinusFrom hs m))"
  by (induction hs m rule: toMinusFrom.induct) (simp_all add: distinct_bump)

lemma entries:
  "(w, n) \<in> set (toMinusFrom hs []) \<Longrightarrow> n = balance hs w"
  "n \<noteq> 0 \<Longrightarrow> (w, n) \<in> set (toMinusFrom hs []) \<longleftrightarrow> balance hs w = n"
proof -
  have a: "amount_in (toMinusFrom hs []) w = balance hs w"
    by (simp add: amount_toMinusFrom) (simp add: amount_in_def)
  have d: "distinct (map fst (toMinusFrom hs []))" by (simp add: distinct_toMinusFrom)
  show 1: "(w, n) \<in> set (toMinusFrom hs []) \<Longrightarrow> n = balance hs w" for n
    using a d by (simp add: amount_in_def)
  assume "n \<noteq> 0"
  with a have "balance hs w = n \<Longrightarrow> map_of (toMinusFrom hs []) w = Some n"
    by (auto simp: amount_in_def split: option.splits)
  with 1 show "(w, n) \<in> set (toMinusFrom hs []) \<longleftrightarrow> balance hs w = n"
    by (auto dest: map_of_SomeD)
qed

lemma bad_entries: "list_ex (\<lambda>(_, n). n > 1 \<or> n < -1) (toMinusFrom hs []) \<longleftrightarrow> (\<exists>w. 1 < \<bar>balance hs w\<bar>)"
proof
  assume "list_ex (\<lambda>(_, n). n > 1 \<or> n < -1) (toMinusFrom hs [])"
  then obtain w n where n: "(w, n) \<in> set (toMinusFrom hs [])" "n > 1 \<or> n < -1" by (auto simp: list_ex_iff)
  from entries(1) [OF n(1)] n(2) have "1 < \<bar>balance hs w\<bar>" by auto
  then show "\<exists>w. 1 < \<bar>balance hs w\<bar>" ..
next
  assume "\<exists>w. 1 < \<bar>balance hs w\<bar>"
  then obtain w where w: "1 < \<bar>balance hs w\<bar>" ..
  then have "(w, balance hs w) \<in> set (toMinusFrom hs [])" by (subst entries(2)) auto
  with w show "list_ex (\<lambda>(_, n). n > 1 \<or> n < -1) (toMinusFrom hs [])"
    unfolding list_ex_iff by (intro bexI) auto
qed

lemma singleton_list: "set xs = {x} \<Longrightarrow> distinct xs \<Longrightarrow> xs = [x]"
proof -
  assume x: "set xs = {x}" "distinct xs"
  then have "length xs = 1" using distinct_card [of xs] by simp
  then show ?thesis using x(1) by (cases xs) auto
qed

lemma one_endpoint:
  assumes "\<And>w. \<bar>balance hs w\<bar> \<le> 1" and "e \<noteq> 0" and "\<And>w. balance hs w = e \<longleftrightarrow> w = b"
  shows "getEndpoint hs e = Inr (Some b)"
proof -
  let ?es = "toMinusFrom hs []"
  have sane: "\<not> list_ex (\<lambda>(_, n). n > 1 \<or> n < -1) ?es"
    unfolding bad_entries using assms(1) by (meson not_less)
  have "set (filter (\<lambda>x. snd x = e) ?es) = {(b, e)}"
  proof (rule set_eqI)
    fix x show "x \<in> set (filter (\<lambda>x. snd x = e) ?es) \<longleftrightarrow> x \<in> {(b, e)}"
      using entries(2) [OF assms(2), of "fst x" hs] assms(3) [of "fst x"] by (cases x) auto
  qed
  moreover have "distinct (filter (\<lambda>x. snd x = e) ?es)"
    using distinct_toMinusFrom [of "[]" hs] by (simp add: distinct_map)
  ultimately have "filter (\<lambda>x. snd x = e) ?es = [(b, e)]"
    by (rule singleton_list)
  with sane show ?thesis by (simp add: getEndpoint_def)
qed

lemma no_endpoint:
  assumes "\<And>w. balance hs w = 0" and "e \<noteq> 0"
  shows "getEndpoint hs e = Inr None"
proof -
  have sane: "\<not> list_ex (\<lambda>(_, n). n > 1 \<or> n < -1) (toMinusFrom hs [])"
    unfolding bad_entries using assms(1) by simp
  have "filter (\<lambda>x. snd x = e) (toMinusFrom hs []) = []"
    using entries(2) [OF assms(2), of _ hs] assms by (auto simp: filter_empty_conv)
  with sane show ?thesis by (simp add: getEndpoint_def)
qed

lemma unbalanced_endpoint:
  assumes "1 < \<bar>balance hs w\<bar>"
  shows "getEndpoint hs e = Inl (JsError ''Invalid transfer path.'')"
  using assms bad_entries [of hs] unfolding getEndpoint_def Let_def by auto

section \<open>Walks\<close>

fun walk :: "wallet \<Rightarrow> hop list \<Rightarrow> wallet \<Rightarrow> bool" where
  "walk a [] b \<longleftrightarrow> a = b"
| "walk a ((sender, receiver) # hs) b \<longleftrightarrow> sender = a \<and> walk receiver hs b"

lemma walk_balance: "walk a hs b \<Longrightarrow> balance hs w = (if w = b then 1 else 0) - (if w = a then 1 else 0)"
  by (induction a hs b rule: walk.induct) (auto simp: balance_def split: if_splits)

lemma balance_mset: "mset hs = mset hs' \<Longrightarrow> balance hs = balance hs'"
  unfolding balance_def by (metis count_mset mset_map)

text \<open>
  A token that goes from \<open>a\<close> to \<open>b\<close> in a transaction, over any wallets in between and however often,
  is found to have started at \<open>a\<close> and ended at \<open>b\<close> from its transfers in any order; when it comes back
  to where it started there is no endpoint.
\<close>

lemma endpoints_of_walk:
  assumes "walk a path b" and "mset transfers = mset path"
  shows "getFirstAddress transfers = Inr (if a = b then None else Some a) \<and>
    getLastAddress transfers = Inr (if a = b then None else Some b)"
proof -
  have bal: "balance transfers w = (if w = b then 1 else 0) - (if w = a then 1 else 0)" for w
    using walk_balance [OF assms(1), of w] balance_mset [OF assms(2)] by simp
  show ?thesis
    unfolding getFirstAddress_def getLastAddress_def
    using bal by (cases "a = b") (auto intro!: one_endpoint no_endpoint split: if_splits)
qed

lemma endpoints_of_walk_witness:
  "getFirstAddress [(''B'', ''C''), (''A'', ''B''), (''C'', ''B''), (''B'', ''D'')] =
     Inr (if ''A'' = ''D'' then None else Some ''A'') \<and>
   getLastAddress [(''B'', ''C''), (''A'', ''B''), (''C'', ''B''), (''B'', ''D'')] =
     Inr (if ''A'' = ''D'' then None else Some ''D'')"
  by (rule endpoints_of_walk [of _ "[(''A'', ''B''), (''B'', ''C''), (''C'', ''B''), (''B'', ''D'')]"]) simp_all

text \<open>The depositor is the sender of the last hop, when the locker is only entered once.\<close>

lemma depositor_of_walk:
  assumes "mset transfers = mset (path @ [(depositor, locker)])" and "locker \<notin> snd ` set path"
  shows "getDepositor locker transfers = Inr depositor"
proof -
  let ?P = "\<lambda>(_ :: wallet, receiver). receiver = locker"
  have "mset (filter ?P transfers) = mset (filter ?P (path @ [(depositor, locker)]))"
    using assms(1) by (metis mset_filter)
  moreover have "filter ?P path = []" using assms(2) by (force simp: filter_empty_conv)
  ultimately have "mset (filter ?P transfers) = {#(depositor, locker)#}" by simp
  then have "filter ?P transfers = [(depositor, locker)]" by (metis mset_single_iff)
  then show ?thesis by (simp add: getDepositor_def)
qed

end
