(* ===== verification/Confirmer_Transfers.thy ===== *)
theory Confirmer_Transfers
  imports Transfer_Paths Nft_Transfers
begin

text \<open>
  What the Confirmer does with the token transfers of decided blocks: \<open>updateItemOwner\<close> and
  \<open>notify\<close> of \<open>src/helpers/blockchain.ts\<close>, and \<open>checkTransfers\<close> of
  \<open>src/apps/confirmer/confirmer.ts\<close>.  The joined rows are in the order of the query; \<open>collate\<close> is
  the database's order of the token ids.  The queries of a run are separate statements, so what was done
  before an exception stays, and other requests run between them: the operations with a name in \<open>_during\<close> take what
  these do at each of the gaps, and the operations without are the case of a run that nothing interferes with.
\<close>

section \<open>The owner of an item\<close>

text \<open>
  The wallet columns of the users, of the items and of their deposits and withdrawals have a collation
  that ignores case, so a query compares addresses in lower case; no wallet is never equal.
\<close>

definition wallet_key :: "wallet option \<Rightarrow> string option" where
  "wallet_key = map_option toLowerCase"

lemma wallet_key_simps [simp]: "wallet_key None = None" "wallet_key (Some w) = Some (toLowerCase w)"
  by (simp_all add: wallet_key_def)

definition user_by_wallet :: "db \<Rightarrow> wallet \<Rightarrow> (user_id \<times> user_row) option" where
  "user_by_wallet d w = find (\<lambda>(_, u). wallet_key (u_walletAddress u) = wallet_key (Some w)) (t_users d)"

definition set_owner ::
  "env \<Rightarrow> user_id option \<Rightarrow> wallet \<Rightarrow> wallet \<Rightarrow> NftState \<Rightarrow> int \<Rightarrow> int \<Rightarrow> 'a nft_scheme \<Rightarrow> 'a nft_scheme" where
  "set_owner env userId ownerWallet physicalWallet s blockNumber transactionIndex r =
     r\<lparr>nft_userId := userId, nft_ownerWallet := Some ownerWallet,
       nft_physicalWallet := Some physicalWallet, nft_state := s, nft_lastBlock := blockNumber,
       nft_lastTransactionIndex := transactionIndex, nft_updatedAt := env_now env\<rparr>"

fun update_nft_owner ::
  "env \<Rightarrow> NftType \<Rightarrow> nft_id \<Rightarrow> user_id option \<Rightarrow> wallet \<Rightarrow> wallet \<Rightarrow> NftState \<Rightarrow> int \<Rightarrow> int \<Rightarrow> query" where
  "update_nft_owner env ARCADE_MACHINE k u w p s n i =
     update_arcadeMachine k (\<lambda>_. True) (set_owner env u w p s n i)"
| "update_nft_owner env GAME_CENTER k u w p s n i =
     update_gameCenter k (\<lambda>_. True) (set_owner env u w p s n i)"
| "update_nft_owner env ARCADE_PART k u w p s n i =
     update_arcadePart k (\<lambda>_. True) (set_owner env u w p s n i)"

definition notify :: "NftType \<Rightarrow> NftState \<Rightarrow> nft_id \<Rightarrow> db \<Rightarrow> db" where
  "notify nftType s tokenId d =
     (if s = IN_WALLET then call (NotifyWithdraw nftType tokenId) d
      else if s = IN_AKIVERSE then call (NotifyDeposit nftType tokenId) d
      else d)"

text \<open>
  The result says whether the item is known.  The item, the user and the update are three statements: \<open>other 0\<close>
  happens between the first two, \<open>other 1\<close> between the last two.
\<close>

definition updateItemOwner_during ::
  "env \<Rightarrow> (nat \<Rightarrow> db \<Rightarrow> db) \<Rightarrow> NftType \<Rightarrow> nft_id \<Rightarrow> wallet \<Rightarrow> wallet \<Rightarrow> NftState \<Rightarrow> int \<Rightarrow> int \<Rightarrow> db \<Rightarrow> bool res \<times> db" where
  "updateItemOwner_during env other nftType tokenId ownerWallet physicalWallet s blockNumber transactionIndex d =
     (case find_nft nftType tokenId d of
        None \<Rightarrow> (Inr False, d)
      | Some item \<Rightarrow>
          let comparison = compareArrays [nft_lastBlock item, nft_lastTransactionIndex item]
                             [blockNumber, transactionIndex] in
          if comparison < 0 then
            let d1 = other 0 d;
                user = map_option fst (user_by_wallet d1 ownerWallet);
                userId = (if truthy user then user else None);
                d2 = other 1 d1 in
            (case update_nft_owner env nftType tokenId userId ownerWallet physicalWallet s
                    blockNumber transactionIndex d2 of
               Inl e \<Rightarrow> (Inl e, d2)
             | Inr d' \<Rightarrow> (Inr True, notify nftType s tokenId d'))
          else if comparison = 0 \<and>
                  (\<not> isWalletAddressEqual (Some ownerWallet) (nft_ownerWallet item) \<or> s \<noteq> nft_state item)
          then (Inl (JsError ''The same token cannot be transferred to several places at the same time''), d)
          else (Inr True, d))"

definition updateItemOwner ::
  "env \<Rightarrow> NftType \<Rightarrow> nft_id \<Rightarrow> wallet \<Rightarrow> wallet \<Rightarrow> NftState \<Rightarrow> int \<Rightarrow> int \<Rightarrow> db \<Rightarrow> bool res \<times> db" where
  "updateItemOwner env = updateItemOwner_during env (\<lambda>_ d. d)"

lemma updateItemOwner_alone:
  "updateItemOwner env nftType tokenId ownerWallet physicalWallet s blockNumber transactionIndex d =
     (case find_nft nftType tokenId d of
        None \<Rightarrow> (Inr False, d)
      | Some item \<Rightarrow>
          let comparison = compareArrays [nft_lastBlock item, nft_lastTransactionIndex item]
                             [blockNumber, transactionIndex] in
          if comparison < 0 then
            let user = map_option fst (user_by_wallet d ownerWallet);
                userId = (if truthy user then user else None) in
            (case update_nft_owner env nftType tokenId userId ownerWallet physicalWallet s
                    blockNumber transactionIndex d of
               Inl e \<Rightarrow> (Inl e, d)
             | Inr d' \<Rightarrow> (Inr True, notify nftType s tokenId d'))
          else if comparison = 0 \<and>
                  (\<not> isWalletAddressEqual (Some ownerWallet) (nft_ownerWallet item) \<or> s \<noteq> nft_state item)
          then (Inl (JsError ''The same token cannot be transferred to several places at the same time''), d)
          else (Inr True, d))"
  unfolding updateItemOwner_def updateItemOwner_during_def Let_def ..

section \<open>The rows\<close>

type_synonym decided_transfer = "string \<times> transfer_row \<times> BlockState"

fun nft_type_order :: "NftType \<Rightarrow> int" where
  "nft_type_order ARCADE_PART = 0"
| "nft_type_order ARCADE_MACHINE = 1"
| "nft_type_order GAME_CENTER = 2"

definition decided_transfers :: "db \<Rightarrow> decided_transfer list" where
  "decided_transfers d = concat (map (\<lambda>(k, t).
     case map_of (t_blocks d) (tf_blockHash t) of
       None \<Rightarrow> []
     | Some b \<Rightarrow> if tf_state t = T_PENDING \<and> bl_state b \<noteq> BLOCK_PENDING then [(k, t, bl_state b)] else [])
     (t_transfers d))"

definition transfer_rows :: "(nft_id \<Rightarrow> 'o::linorder) \<Rightarrow> db \<Rightarrow> decided_transfer list" where
  "transfer_rows collate d =
     sort_key (\<lambda>(_, t, _). tf_blockNumber t) (sort_key (\<lambda>(_, t, _). tf_transactionIndex t)
       (sort_key (\<lambda>(_, t, _). nft_type_order (tf_nftType t)) (sort_key (\<lambda>(_, t, _). collate (tf_tokenId t))
         (decided_transfers d))))"

text \<open>
  The key of \<open>groupBy\<close> starts with \<open>row.blockHash\<close>, a column that the query does not select, so
  that it is always empty.
\<close>

definition group_key :: "decided_transfer \<Rightarrow> int \<times> NftType \<times> nft_id" where
  "group_key r = (case r of (_, t, _) \<Rightarrow> (tf_transactionIndex t, tf_nftType t, tf_tokenId t))"

definition hops :: "decided_transfer list \<Rightarrow> hop list" where
  "hops = map (\<lambda>(_, t, _). (tf_from t, tf_to t))"

section \<open>Checking the transfers\<close>

fun final_transfer_state :: "BlockState \<Rightarrow> TransferState" where
  "final_transfer_state BLOCK_CONFIRMED = T_CONFIRMED"
| "final_transfer_state BLOCK_PENDING = T_PENDING"
| "final_transfer_state BLOCK_INVALIDATED = T_INVALIDATED"

definition finish_group :: "decided_transfer list \<Rightarrow> BlockState \<Rightarrow> db \<Rightarrow> unit res \<times> db" where
  "finish_group rowGroup finalState d =
     (case update_transfers (\<lambda>k _. k \<in> set (map fst rowGroup))
             (\<lambda>t. t\<lparr>tf_state := final_transfer_state finalState\<rparr>) d of
        Inl e \<Rightarrow> (Inl e, d)
      | Inr d' \<Rightarrow> (Inr (), d'))"

text \<open>The records of the deposit or the withdrawal, after the item.\<close>

definition settle_record ::
  "env \<Rightarrow> wallet \<Rightarrow> wallet option \<Rightarrow> wallet \<Rightarrow> transfer_row \<Rightarrow> BlockState \<Rightarrow> db \<Rightarrow> db res" where
  "settle_record env locker sender receiver t finalState d =
     (if isWalletAddressEqual (Some receiver) (Some locker)
      then updateDepositState env (tf_nftType t) (tf_tokenId t) finalState (tf_transactionHash t)
             (tf_blockNumber t) (tf_transactionIndex t) d d
      else if isWalletAddressEqual sender (Some locker)
      then updateWithdrawalState env (tf_nftType t) (tf_tokenId t) finalState (tf_transactionHash t)
             (tf_blockNumber t) (tf_transactionIndex t) d d
      else Inr d)"

definition item_owner :: "wallet \<Rightarrow> wallet \<Rightarrow> hop list \<Rightarrow> wallet res" where
  "item_owner locker receiver transfers =
     (if isWalletAddressEqual (Some receiver) (Some locker) then getDepositor locker transfers
      else Inr receiver)"

text \<open>\<open>other 2\<close> happens after the item and before its record, \<open>other 3\<close> before the transfers are marked.\<close>

definition confirm_group_during ::
  "env \<Rightarrow> (nat \<Rightarrow> db \<Rightarrow> db) \<Rightarrow> wallet \<Rightarrow> decided_transfer list \<Rightarrow> wallet option \<Rightarrow> wallet \<Rightarrow> transfer_row \<Rightarrow> db \<Rightarrow>
   unit res \<times> db" where
  "confirm_group_during env other locker rowGroup sender receiver t d =
     (let s = (if isWalletAddressEqual (Some receiver) (Some locker) then IN_AKIVERSE else IN_WALLET) in
      case item_owner locker receiver (hops rowGroup) of
        Inl e \<Rightarrow> (Inl e, d)
      | Inr ownerWallet \<Rightarrow>
          (case updateItemOwner_during env other (tf_nftType t) (tf_tokenId t) ownerWallet receiver s
                  (tf_blockNumber t) (tf_transactionIndex t) d of
             (Inl e, d1) \<Rightarrow> (Inl e, d1)
           | (Inr known, d1) \<Rightarrow>
               if \<not> known then (Inr (), d1)
               else
                 (case settle_record env locker sender receiver t BLOCK_CONFIRMED (other 2 d1) of
                    Inl e \<Rightarrow> (Inl e, other 2 d1)
                  | Inr d2 \<Rightarrow> finish_group rowGroup BLOCK_CONFIRMED (other 3 d2))))"

definition process_group_during ::
  "env \<Rightarrow> (nat \<Rightarrow> db \<Rightarrow> db) \<Rightarrow> wallet \<Rightarrow> decided_transfer list \<Rightarrow> db \<Rightarrow> unit res \<times> db" where
  "process_group_during env other locker rowGroup d =
     (case getLastAddress (hops rowGroup) of Inl e \<Rightarrow> (Inl e, d) | Inr receiver \<Rightarrow>
      case getFirstAddress (hops rowGroup) of Inl e \<Rightarrow> (Inl e, d) | Inr sender \<Rightarrow>
      case rowGroup of [] \<Rightarrow> (Inr (), d) | (_, t, finalState) # _ \<Rightarrow>
      case receiver of
        None \<Rightarrow> finish_group rowGroup finalState d
      | Some a \<Rightarrow>
          if finalState = BLOCK_CONFIRMED then confirm_group_during env other locker rowGroup sender a t d
          else finish_group rowGroup finalState d)"

text \<open>\<open>other n\<close> belongs to the \<open>n\<close>-th group; its \<open>4\<close> happens before the group.\<close>

fun process_groups_during ::
  "env \<Rightarrow> (nat \<Rightarrow> nat \<Rightarrow> db \<Rightarrow> db) \<Rightarrow> wallet \<Rightarrow> decided_transfer list list \<Rightarrow> db \<Rightarrow> unit res \<times> db" where
  "process_groups_during env other locker [] d = (Inr (), d)"
| "process_groups_during env other locker (g # gs) d =
     (case process_group_during env (other 0) locker g (other 0 4 d) of
        (Inl e, d1) \<Rightarrow> (Inl e, d1)
      | (Inr _, d1) \<Rightarrow> process_groups_during env (\<lambda>n. other (Suc n)) locker gs d1)"

definition checkTransfers_during ::
  "env \<Rightarrow> (nat \<Rightarrow> nat \<Rightarrow> db \<Rightarrow> db) \<Rightarrow> wallet \<Rightarrow> (nft_id \<Rightarrow> 'o::linorder) \<Rightarrow> db \<Rightarrow> unit res \<times> db" where
  "checkTransfers_during env other locker collate d =
     process_groups_during env other locker (groupBy (transfer_rows collate d) group_key) d"

section \<open>Without interference\<close>

definition confirm_group ::
  "env \<Rightarrow> wallet \<Rightarrow> decided_transfer list \<Rightarrow> wallet option \<Rightarrow> wallet \<Rightarrow> transfer_row \<Rightarrow> db \<Rightarrow> unit res \<times> db" where
  "confirm_group env = confirm_group_during env (\<lambda>_ d. d)"

definition process_group ::
  "env \<Rightarrow> wallet \<Rightarrow> decided_transfer list \<Rightarrow> db \<Rightarrow> unit res \<times> db" where
  "process_group env = process_group_during env (\<lambda>_ d. d)"

definition process_groups ::
  "env \<Rightarrow> wallet \<Rightarrow> decided_transfer list list \<Rightarrow> db \<Rightarrow> unit res \<times> db" where
  "process_groups env = process_groups_during env (\<lambda>_ _ d. d)"

definition checkTransfers ::
  "env \<Rightarrow> wallet \<Rightarrow> (nft_id \<Rightarrow> 'o::linorder) \<Rightarrow> db \<Rightarrow> unit res \<times> db" where
  "checkTransfers env = checkTransfers_during env (\<lambda>_ _ d. d)"

lemma confirm_group_alone:
  "confirm_group env locker rowGroup sender receiver t d =
     (let s = (if isWalletAddressEqual (Some receiver) (Some locker) then IN_AKIVERSE else IN_WALLET) in
      case item_owner locker receiver (hops rowGroup) of
        Inl e \<Rightarrow> (Inl e, d)
      | Inr ownerWallet \<Rightarrow>
          (case updateItemOwner env (tf_nftType t) (tf_tokenId t) ownerWallet receiver s
                  (tf_blockNumber t) (tf_transactionIndex t) d of
             (Inl e, d1) \<Rightarrow> (Inl e, d1)
           | (Inr known, d1) \<Rightarrow>
               if \<not> known then (Inr (), d1)
               else
                 (case settle_record env locker sender receiver t BLOCK_CONFIRMED d1 of
                    Inl e \<Rightarrow> (Inl e, d1)
                  | Inr d2 \<Rightarrow> finish_group rowGroup BLOCK_CONFIRMED d2)))"
  unfolding confirm_group_def confirm_group_during_def updateItemOwner_def ..

lemma process_group_alone:
  "process_group env locker rowGroup d =
     (case getLastAddress (hops rowGroup) of Inl e \<Rightarrow> (Inl e, d) | Inr receiver \<Rightarrow>
      case getFirstAddress (hops rowGroup) of Inl e \<Rightarrow> (Inl e, d) | Inr sender \<Rightarrow>
      case rowGroup of [] \<Rightarrow> (Inr (), d) | (_, t, finalState) # _ \<Rightarrow>
      case receiver of
        None \<Rightarrow> finish_group rowGroup finalState d
      | Some a \<Rightarrow>
          if finalState = BLOCK_CONFIRMED then confirm_group env locker rowGroup sender a t d
          else finish_group rowGroup finalState d)"
  unfolding process_group_def process_group_during_def confirm_group_def ..

lemma process_groups_alone [simp]:
  "process_groups env locker [] d = (Inr (), d)"
  "process_groups env locker (g # gs) d =
     (case process_group env locker g d of
        (Inl e, d1) \<Rightarrow> (Inl e, d1)
      | (Inr _, d1) \<Rightarrow> process_groups env locker gs d1)"
  unfolding process_groups_def process_group_def by (rule process_groups_during.simps)+

lemma checkTransfers_alone:
  "checkTransfers env locker collate d =
     process_groups env locker (groupBy (transfer_rows collate d) group_key) d"
  unfolding checkTransfers_def checkTransfers_during_def process_groups_def ..

end
