(* ===== verification/Confirmer_Currency.thy ===== *)
theory Confirmer_Currency
  imports Confirmer_Transfers Confirmer_Blocks
begin

text \<open>
  \<open>checkCurrencyTransfers\<close> of \<open>src/apps/confirmer/confirmer.ts\<close>: every currency transfer of a
  decided block in a transaction of its own, which credits a deposit to the user of the sending wallet,
  settles the records of the deposit or the withdrawal and decides the transfer; a deposit of a wallet
  without a user is frozen.  The loop of the Confirmer, \<open>start\<close>, is at the end.
\<close>

definition ZERO_ADDRESS :: wallet where
  "ZERO_ADDRESS = ''0x0000000000000000000000000000000000000000''"

type_synonym decided_currency = "string \<times> currency_transfer_row \<times> BlockState"

fun currency_order :: "CurrencyType \<Rightarrow> int" where
  "currency_order AKIR = 0"
| "currency_order AKV = 1"
| "currency_order USDC = 2"

definition decided_currencies :: "db \<Rightarrow> decided_currency list" where
  "decided_currencies d = concat (map (\<lambda>(k, t).
     case map_of (t_blocks d) (ctf_blockHash t) of
       None \<Rightarrow> []
     | Some b \<Rightarrow> if ctf_state t = T_PENDING \<and> bl_state b \<noteq> BLOCK_PENDING then [(k, t, bl_state b)] else [])
     (t_currencyTransfers d))"

definition currency_rows :: "db \<Rightarrow> decided_currency list" where
  "currency_rows d =
     sort_key (\<lambda>(_, t, _). ctf_blockNumber t) (sort_key (\<lambda>(_, t, _). ctf_transactionIndex t)
       (sort_key (\<lambda>(_, t, _). currency_order (ctf_currencyType t)) (sort_key (\<lambda>(_, t, _). ctf_amount t)
         (decided_currencies d))))"

section \<open>One transfer\<close>

definition open_deposit :: "currency_transfer_row \<Rightarrow> CurrencyType \<Rightarrow> currency_deposit_row \<Rightarrow> bool" where
  "open_deposit t cur r \<longleftrightarrow> cd_hash r = ctf_transactionHash t \<and> cd_walletAddress r = ctf_from t \<and>
     cd_currencyType r = cur \<and> cd_state r \<in> {D_PENDING, D_UNPROCESSED}"

definition settle_deposit :: "currency_transfer_row \<Rightarrow> CurrencyType \<Rightarrow> db \<Rightarrow> query list" where
  "settle_deposit t cur d =
     (if find (\<lambda>(_, r). open_deposit t cur r) (t_currencyDeposits d) = None then []
      else [update_currencyDeposits (\<lambda>_. open_deposit t cur) (\<lambda>r. r\<lparr>cd_state := D_CONFIRMED\<rparr>)])"

definition update_user_by_wallet :: "wallet \<Rightarrow> (user_row \<Rightarrow> user_row) \<Rightarrow> query" where
  "update_user_by_wallet w f d =
     (case user_by_wallet d w of
        None \<Rightarrow> Inl (PrismaKnownRequestError ''P2025'')
      | Some (u, _) \<Rightarrow> update_user u (\<lambda>_. True) f d)"

definition settle_withdrawal :: "currency_transfer_row \<Rightarrow> query" where
  "settle_withdrawal t = update_currencyWithdrawals (\<lambda>_ r. cw_hash r = Some (ctf_transactionHash t))
     (\<lambda>r. r\<lparr>cw_state := W_CONFIRMED\<rparr>)"

definition currency_queries :: "wallet \<Rightarrow> wallet \<Rightarrow> currency_transfer_row \<Rightarrow> db \<Rightarrow> query list" where
  "currency_queries locker usdcWallet t d =
     (case ctf_currencyType t of
        AKIR \<Rightarrow>
          if isWalletAddressEqual (Some (ctf_to t)) (Some ZERO_ADDRESS)
          then settle_deposit t AKIR d @
            [update_user_by_wallet (ctf_from t) (\<lambda>r. r\<lparr>akirBalance := akirBalance r + ctf_amount t\<rparr>)]
          else if isWalletAddressEqual (Some (ctf_from t)) (Some ZERO_ADDRESS)
          then [settle_withdrawal t]
          else []
      | AKV \<Rightarrow>
          if isWalletAddressEqual (Some (ctf_to t)) (Some locker)
          then settle_deposit t AKV d @
            [update_user_by_wallet (ctf_from t) (\<lambda>r. r\<lparr>akvBalance := akvBalance r + ctf_amount t\<rparr>)]
          else if isWalletAddressEqual (Some (ctf_from t)) (Some locker)
          then [settle_withdrawal t]
          else []
      | USDC \<Rightarrow>
          if isWalletAddressEqual (Some (ctf_from t)) (Some usdcWallet)
          then [settle_withdrawal t]
          else [])"

definition put_currency_state :: "string \<Rightarrow> TransferState \<Rightarrow> query" where
  "put_currency_state k s = update_currencyTransfer k (\<lambda>_. True) (\<lambda>t. t\<lparr>ctf_state := s\<rparr>)"

text \<open>An error other than \<open>P2025\<close> is dropped, and the transfer stays pending.\<close>

definition check_currency :: "wallet \<Rightarrow> wallet \<Rightarrow> decided_currency \<Rightarrow> db \<Rightarrow> unit res \<times> db" where
  "check_currency locker usdcWallet row d =
     (case row of (k, t, finalState) \<Rightarrow>
        case run_tx ((if finalState = BLOCK_CONFIRMED then currency_queries locker usdcWallet t d else []) @
               [put_currency_state k (final_transfer_state finalState)]) d of
          Inr d' \<Rightarrow> (Inr (), d')
        | Inl e \<Rightarrow>
            if e = PrismaKnownRequestError ''P2025''
            then (case put_currency_state k T_FROZEN d of Inl e' \<Rightarrow> (Inl e', d) | Inr d' \<Rightarrow> (Inr (), d'))
            else (Inr (), d))"

fun check_currencies :: "wallet \<Rightarrow> wallet \<Rightarrow> decided_currency list \<Rightarrow> db \<Rightarrow> unit res \<times> db" where
  "check_currencies locker usdcWallet [] d = (Inr (), d)"
| "check_currencies locker usdcWallet (row # rows) d =
     (case check_currency locker usdcWallet row d of
        (Inl e, d1) \<Rightarrow> (Inl e, d1)
      | (Inr _, d1) \<Rightarrow> check_currencies locker usdcWallet rows d1)"

definition checkCurrencyTransfers :: "wallet \<Rightarrow> wallet \<Rightarrow> db \<Rightarrow> unit res \<times> db" where
  "checkCurrencyTransfers locker usdcWallet d = check_currencies locker usdcWallet (currency_rows d) d"

section \<open>The loop\<close>

datatype ConfirmerState = RUNNING | STOPPING | STOPPED | CONFIRMER_ERROR

record confirmer =
  akiverseLockerAddress :: wallet
  usdcWalletAddress :: wallet

definition confirmer_round ::
  "confirmer \<Rightarrow> (nft_id \<Rightarrow> 'o::linorder) \<Rightarrow> env \<Rightarrow> db \<Rightarrow> unit res \<times> db" where
  "confirmer_round c collate env d =
     (case confirmBlocks d of Inl e \<Rightarrow> (Inl e, d) | Inr d1 \<Rightarrow>
      case invalidateBlocks d1 of Inl e \<Rightarrow> (Inl e, d1) | Inr d2 \<Rightarrow>
      case checkTransfers env (akiverseLockerAddress c) collate d2 of
        (Inl e, d3) \<Rightarrow> (Inl e, d3)
      | (Inr _, d3) \<Rightarrow> checkCurrencyTransfers (akiverseLockerAddress c) (usdcWalletAddress c) d3)"

text \<open>
  The loop until \<open>stop\<close>: one clock and one effect of the rest of the system for every round before
  the state is found not to be \<open>RUNNING\<close> any more.
\<close>

fun confirmer_loop ::
  "confirmer \<Rightarrow> (nft_id \<Rightarrow> 'o::linorder) \<Rightarrow> (env \<times> (db \<Rightarrow> db)) list \<Rightarrow> db \<Rightarrow> ConfirmerState \<times> db" where
  "confirmer_loop c collate [] d = (STOPPED, d)"
| "confirmer_loop c collate ((env, other) # rest) d =
     (case confirmer_round c collate env d of
        (Inl e, d1) \<Rightarrow> (CONFIRMER_ERROR, d1)
      | (Inr _, d1) \<Rightarrow> confirmer_loop c collate rest (other d1))"

end
