(* ===== verification/Confirmer_Owner_Props.thy ===== *)
theory Confirmer_Owner_Props
  imports Confirmer_Transfers Sample
begin

text \<open>
  What checking the transfers does to the items: an item only ever moves forward on the chain, a
  confirmed path of transfers settles the item and its records.
\<close>

declare all_ok_frame [simp del]

section \<open>Frames\<close>

lemma truncate_set_owner [simp]: "nft.truncate (set_owner env u w p s n i r) = set_owner env u w p s n i (nft.truncate r)"
  by (cases r) (simp add: set_owner_def nft.truncate_def)

lemma find_nft_frame:
  "t_arcadeMachines d' = t_arcadeMachines d \<Longrightarrow> t_gameCenters d' = t_gameCenters d \<Longrightarrow>
   t_arcadeParts d' = t_arcadeParts d \<Longrightarrow> find_nft ty k d' = find_nft ty k d"
  by (cases ty) simp_all

lemma find_update_owner:
  assumes "update_nft_owner env ty k u w p s n i d = Inr d'"
  shows "find_nft ty' k' d' = (if ty' = ty \<and> k' = k then map_option (set_owner env u w p s n i) (find_nft ty k d)
    else find_nft ty' k' d)"
proof -
  have "map_option (nft.truncate \<circ> set_owner env u w p s n i) x =
      map_option (set_owner env u w p s n i) (map_option nft.truncate x)" for x :: "'b nft_scheme option"
    by (cases x) simp_all
  with assms show ?thesis
    by (cases ty; cases ty')
      (auto simp: arcadeMachine_tab.update_Inr gameCenter_tab.update_Inr arcadePart_tab.update_Inr
        map_of_apply_row put_defs o_def option.map_comp)
qed

lemma update_owner_frame:
  assumes "update_nft_owner env ty k u w p s n i d = Inr d'"
  shows "t_transfers d' = t_transfers d" "t_blocks d' = t_blocks d" "t_users d' = t_users d"
    "t_deposits d' = t_deposits d" "t_withdrawals d' = t_withdrawals d" "t_calls d' = t_calls d"
  using assms by (cases ty; auto simp: arcadeMachine_tab.update_Inr gameCenter_tab.update_Inr
      arcadePart_tab.update_Inr put_defs)+

lemma find_notified [simp]: "find_nft ty k (notify ty' s k' d) = find_nft ty k d"
  by (rule find_nft_frame) (simp_all add: notify_def call_def)

lemma notified_frame [simp]:
  "t_transfers (notify ty s k d) = t_transfers d" "t_blocks (notify ty s k d) = t_blocks d"
  "t_deposits (notify ty s k d) = t_deposits d" "t_withdrawals (notify ty s k d) = t_withdrawals d"
  "t_users (notify ty s k d) = t_users d"
  by (simp_all add: notify_def call_def)

lemma settle_record_frame:
  assumes "settle_record env locker sender receiver t BLOCK_CONFIRMED d = Inr d'"
  shows "find_nft ty k d' = find_nft ty k d" "t_transfers d' = t_transfers d" "t_blocks d' = t_blocks d"
proof -
  have "t_arcadeMachines d' = t_arcadeMachines d \<and> t_gameCenters d' = t_gameCenters d \<and>
      t_arcadeParts d' = t_arcadeParts d \<and> t_transfers d' = t_transfers d \<and> t_blocks d' = t_blocks d"
    using assms
    by (auto simp: settle_record_def updateDepositState_def updateWithdrawalState_def put_withdrawal_state_def
        deposit_tab.update_many_Inr withdrawal_tab.update_many_Inr put_defs split: if_splits)
  then show "find_nft ty k d' = find_nft ty k d" "t_transfers d' = t_transfers d" "t_blocks d' = t_blocks d"
    by (auto intro: find_nft_frame)
qed

lemma finish_group_frame:
  assumes "finish_group g s d = (res, d')"
  shows "find_nft ty k d' = find_nft ty k d" "t_blocks d' = t_blocks d"
  using assms by (auto simp: finish_group_def transfer_tab.update_many_Inr put_defs split: sum.splits
      intro: find_nft_frame)

section \<open>An item never goes back\<close>

definition position :: "'a nft_scheme \<Rightarrow> int list" where
  "position r = [nft_lastBlock r, nft_lastTransactionIndex r]"

definition moved_on :: "nft \<Rightarrow> nft option \<Rightarrow> bool" where
  "moved_on item x \<longleftrightarrow> (\<exists>item'. x = Some item' \<and> (item' = item \<or> compareArrays (position item) (position item') < 0))"

lemma moved_on_refl [simp]: "moved_on item (Some item)"
  by (simp add: moved_on_def)

lemma moved_on_trans:
  assumes "moved_on a (Some b)" and "moved_on b x"
  shows "moved_on a x"
proof -
  from assms(2) obtain c where c: "x = Some c" "c = b \<or> compareArrays (position b) (position c) < 0"
    by (auto simp: moved_on_def)
  from assms(1) have b: "b = a \<or> compareArrays (position a) (position b) < 0" by (simp add: moved_on_def)
  have "compareArrays (position a) (position c) < 0"
    if "compareArrays (position a) (position b) < 0" "compareArrays (position b) (position c) < 0"
    using that by (simp add: position_def split: if_splits)
  with b c show ?thesis unfolding moved_on_def by blast
qed

lemma updateItemOwner_moves:
  assumes "updateItemOwner env ty k w p s n i d = (res, d')" and "find_nft ty' k' d = Some item"
  shows "moved_on item (find_nft ty' k' d')"
proof (cases "find_nft ty k d")
  case None
  with assms show ?thesis by (simp add: updateItemOwner_alone)
next
  case (Some item0)
  show ?thesis
  proof (cases "compareArrays (position item0) [n, i] < 0")
    case True
    let ?u = "map_option fst (user_by_wallet d w)"
    let ?u' = "if truthy ?u then ?u else None"
    show ?thesis
    proof (cases "update_nft_owner env ty k ?u' w p s n i d")
      case (Inl e)
      with True Some assms show ?thesis by (simp add: updateItemOwner_alone position_def Let_def)
    next
      case (Inr d1)
      with True Some assms have d': "d' = notify ty s k d1" by (simp add: updateItemOwner_alone position_def Let_def)
      show ?thesis
      proof (cases "ty' = ty \<and> k' = k")
        case c: True
        then have "item = item0" using Some assms(2) by simp
        moreover have "position (set_owner env ?u' w p s n i item0) = [n, i]"
          by (simp add: position_def set_owner_def)
        ultimately show ?thesis
          using c True Some by (simp add: d' find_update_owner [OF Inr] moved_on_def)
      next
        case False
        with assms(2) show ?thesis by (auto simp: d' find_update_owner [OF Inr] moved_on_def)
      qed
    qed
  next
    case False
    with Some assms show ?thesis
      unfolding updateItemOwner_alone Some position_def Let_def by (auto split: if_splits)
  qed
qed

lemma finish_group_moves: "finish_group g s d = (res, d') \<Longrightarrow> find_nft ty k d = Some item \<Longrightarrow> moved_on item (find_nft ty k d')"
  by (simp add: finish_group_frame(1))

lemma confirm_group_moves:
  assumes "confirm_group env locker g sender receiver t d = (res, d')" and "find_nft ty k d = Some item"
  shows "moved_on item (find_nft ty k d')"
proof (cases "item_owner locker receiver (hops g)")
  case (Inl e)
  with assms show ?thesis by (simp add: confirm_group_alone Let_def)
next
  case (Inr w)
  let ?s = "if isWalletAddressEqual (Some receiver) (Some locker) then IN_AKIVERSE else IN_WALLET"
  obtain r d1 where u: "updateItemOwner env (tf_nftType t) (tf_tokenId t) w receiver ?s
      (tf_blockNumber t) (tf_transactionIndex t) d = (r, d1)" by fastforce
  have m: "moved_on item (find_nft ty k d1)" by (rule updateItemOwner_moves [OF u assms(2)])
  from m assms(1) show ?thesis
    unfolding confirm_group_alone Inr Let_def sum.case u prod.case
    by (auto simp: settle_record_frame(1) finish_group_frame(1) split: sum.splits if_splits)
qed

lemma process_group_moves:
  assumes "process_group env locker g d = (res, d')" and "find_nft ty k d = Some item"
  shows "moved_on item (find_nft ty k d')"
  using assms unfolding process_group_alone
  by (auto split: sum.splits option.splits if_splits list.splits
      dest: finish_group_moves confirm_group_moves)

lemma process_groups_moves:
  "process_groups env locker gs d = (res, d') \<Longrightarrow> find_nft ty k d = Some item \<Longrightarrow> moved_on item (find_nft ty k d')"
proof (induction gs arbitrary: d item)
  case (Cons g gs)
  obtain r d1 where r: "process_group env locker g d = (r, d1)" by fastforce
  from process_group_moves [OF r Cons.prems(2)] obtain item1 where
    i: "find_nft ty k d1 = Some item1" "moved_on item (Some item1)" by (auto simp: moved_on_def)
  show ?case
  proof (cases r)
    case (Inl e)
    with Cons.prems r i show ?thesis by simp
  next
    case (Inr x)
    with Cons.prems r have "process_groups env locker gs d1 = (res, d')" by simp
    from Cons.IH [OF this i(1)] moved_on_trans [OF i(2)] show ?thesis by blast
  qed
qed simp

text \<open>
  (C18) Checking the transfers, whether it ends normally or with an exception, leaves each item exactly as
  it was or gives it a strictly later place on the chain (block and index in the block): no transfer is
  applied on top of a later one, whatever order the blocks were confirmed in.
\<close>

theorem items_only_move_on:
  assumes "checkTransfers env locker collate d = (res, d')" and "find_nft ty k d = Some item"
  shows "\<exists>item'. find_nft ty k d' = Some item' \<and>
    (item' = item \<or> nft_lastBlock item < nft_lastBlock item' \<or>
     (nft_lastBlock item = nft_lastBlock item' \<and>
      nft_lastTransactionIndex item < nft_lastTransactionIndex item'))"
  using process_groups_moves [OF assms(1) [unfolded checkTransfers_alone] assms(2)]
  by (auto simp: moved_on_def position_def split: if_splits)

section \<open>A confirmed path settles the item\<close>

fun unplaced :: "NftType \<Rightarrow> nft_id \<Rightarrow> db \<Rightarrow> bool" where
  "unplaced ARCADE_MACHINE k d \<longleftrightarrow>
     (\<forall>r. map_of (t_arcadeMachines d) k = Some r \<longrightarrow> am_gameCenterId r = None \<and> am_position r = None)"
| "unplaced GAME_CENTER k d \<longleftrightarrow> (\<forall>r. map_of (t_gameCenters d) k = Some r \<longrightarrow> \<not> gc_placementAllowed r)"
| "unplaced ARCADE_PART k d \<longleftrightarrow> True"

lemma update_owner_succeeds:
  assumes "db_ok d" and "find_nft ty k d = Some item" and "unplaced ty k d"
  shows "\<exists>d'. update_nft_owner env ty k u w p s n i d = Inr d'"
proof (cases ty)
  case ARCADE_MACHINE
  with assms(2) obtain r where r: "map_of (t_arcadeMachines d) k = Some r" by auto
  from assms(1) have "arcade_machine_ok r" using arcadeMachine_tab.all_okD r unfolding db_ok_def by blast
  with r assms(3) ARCADE_MACHINE show ?thesis
    by (auto simp: arcadeMachine_tab.update_Inr check_arcadeMachine_def arcade_machine_ok_def set_owner_def
        collides_def slot_def split: option.splits)
next
  case GAME_CENTER
  with assms show ?thesis
    by (auto simp: gameCenter_tab.update_Inr check_gameCenter_def set_owner_def)
next
  case ARCADE_PART
  with assms show ?thesis by (auto simp: arcadePart_tab.update_Inr no_check_def)
qed

lemma mark_transfers:
  assumes "transfer_index.indexed d"
  shows "update_transfers P (\<lambda>t. t\<lparr>tf_state := s\<rparr>) d =
    Inr (put_transfers (update_rows P (\<lambda>t. t\<lparr>tf_state := s\<rparr>) (t_transfers d)) d)"
proof -
  let ?f = "\<lambda>t :: transfer_row. t\<lparr>tf_state := s\<rparr>"
  have key: "transfer_key (?f t) = transfer_key t" for t by (simp add: transfer_key_def)
  have "check_transfer k (?f t) (update_rows P ?f (t_transfers d)) = None" if t: "(k, t) \<in> set (t_transfers d)" for k t
  proof -
    have dist: "distinct (map fst (t_transfers d))" using assms by (simp add: transfer_index.indexed_def)
    have "\<not> collides transfer_key k (?f t) (update_rows P ?f (t_transfers d))"
    proof
      assume "collides transfer_key k (?f t) (update_rows P ?f (t_transfers d))"
      then obtain k' t' where t': "k' \<noteq> k" "(k', t') \<in> set (t_transfers d)"
        "transfer_key (if P k' t' then ?f t' else t') = transfer_key t"
        unfolding collides_def key by (auto simp: list_ex_iff update_rows_def)
      then have "transfer_key t' = transfer_key t" by (simp add: key split: if_splits)
      moreover obtain x where "transfer_key t = Some x" by (simp add: transfer_key_def)
      ultimately have "k' = k"
        using transfer_index.indexed_eq [OF assms, of k' t' k t x] t t'(2) dist by simp
      with t'(1) show False ..
    qed
    then show ?thesis by (simp add: check_transfer_def)
  qed
  then show ?thesis by (auto simp: transfer_tab.update_many_Inr)
qed

lemma indexed_frame: "t_transfers d' = t_transfers d \<Longrightarrow> transfer_index.indexed d' = transfer_index.indexed d"
  by (simp add: transfer_index.indexed_def)

lemma settle_record_Inr:
  "\<exists>d'. settle_record env locker sender receiver t BLOCK_CONFIRMED d = Inr d' \<and>
    (isWalletAddressEqual (Some receiver) (Some locker) \<longrightarrow>
     (\<forall>(q, r) \<in> set (t_deposits d'). dp_nftType r = tf_nftType t \<and> dp_tokenId r = tf_tokenId t \<and>
        dp_hash r = Some (tf_transactionHash t) \<longrightarrow> dp_state r = D_CONFIRMED))"
  by (auto simp: settle_record_def updateDepositState_def updateWithdrawalState_def put_withdrawal_state_def
      deposit_tab.update_many_Inr withdrawal_tab.update_many_Inr put_defs no_check_def update_rows_def)

text \<open>The owner that a path from hop to hop gives the token.\<close>

definition path_owner :: "wallet \<Rightarrow> hop list \<Rightarrow> wallet \<Rightarrow> wallet \<Rightarrow> bool" where
  "path_owner locker path b w \<longleftrightarrow>
     (if isWalletAddressEqual (Some b) (Some locker)
      then b = locker \<and> (\<exists>p. path = p @ [(w, locker)] \<and> locker \<notin> snd ` set p)
      else w = b)"

lemma path_owner_found:
  assumes "path_owner locker path b w" and "mset transfers = mset path"
  shows "item_owner locker b transfers = Inr w"
  using assms depositor_of_walk [of transfers _ w locker]
  by (auto simp: path_owner_def item_owner_def split: if_splits)

text \<open>
  (C19) When the transfers of a token in a confirmed transaction, in any order, are a path from \<open>a\<close> to
  another wallet \<open>b\<close>, later than all that is known of the item, the item gets exactly the owner, the place
  and the state the path says: in the world and owned by the depositor when it ends at the locker, in the
  wallet of \<open>b\<close> otherwise, and belonging to the user registered with the owner's wallet, if any.  The
  deposit record and the transfers are confirmed, and no other item changes.
\<close>

theorem confirmed_path_settles:
  assumes ok: "db_ok d" "transfer_index.indexed d"
    and item: "find_nft (tf_nftType t) (tf_tokenId t) d = Some item" "unplaced (tf_nftType t) (tf_tokenId t) d"
    and g: "g = (k, t, BLOCK_CONFIRMED) # g'"
    and path: "walk a path b" "mset (hops g) = mset path" "a \<noteq> b" "path_owner locker path b w"
    and later: "compareArrays [nft_lastBlock item, nft_lastTransactionIndex item]
      [tf_blockNumber t, tf_transactionIndex t] < 0"
  shows "\<exists>d'. process_group env locker g d = (Inr (), d') \<and>
    find_nft (tf_nftType t) (tf_tokenId t) d' =
      Some (set_owner env (case user_by_wallet d w of None \<Rightarrow> None | Some (u, _) \<Rightarrow> if u = [] then None else Some u)
        w b (if isWalletAddressEqual (Some b) (Some locker) then IN_AKIVERSE else IN_WALLET)
        (tf_blockNumber t) (tf_transactionIndex t) item) \<and>
    (\<forall>ty k. (ty, k) = (tf_nftType t, tf_tokenId t) \<or> find_nft ty k d' = find_nft ty k d) \<and>
    (\<forall>x. map_of (t_transfers d') x = map_option (\<lambda>t. if x \<in> set (map fst g) then t\<lparr>tf_state := T_CONFIRMED\<rparr> else t)
       (map_of (t_transfers d) x)) \<and>
    (isWalletAddressEqual (Some b) (Some locker) \<longrightarrow>
     (\<forall>(q, r) \<in> set (t_deposits d'). dp_nftType r = tf_nftType t \<and> dp_tokenId r = tf_tokenId t \<and>
        dp_hash r = Some (tf_transactionHash t) \<longrightarrow> dp_state r = D_CONFIRMED))"
proof -
  let ?ty = "tf_nftType t" and ?k = "tf_tokenId t" and ?n = "tf_blockNumber t" and ?i = "tf_transactionIndex t"
  let ?s = "if isWalletAddressEqual (Some b) (Some locker) then IN_AKIVERSE else IN_WALLET"
  let ?o = "map_option fst (user_by_wallet d w)"
  let ?u = "if truthy ?o then ?o else None"
  have u: "?u = (case user_by_wallet d w of None \<Rightarrow> None | Some (u, _) \<Rightarrow> if u = [] then None else Some u)"
    by (auto simp: truthy_iff split: option.splits)
  from endpoints_of_walk [OF path(1,2)] path(3)
  have ends: "getFirstAddress (hops g) = Inr (Some a)" "getLastAddress (hops g) = Inr (Some b)" by auto
  obtain d1 where d1: "update_nft_owner env ?ty ?k ?u w b ?s ?n ?i d = Inr d1"
    using update_owner_succeeds [OF ok(1) item] by blast
  note fr1 = update_owner_frame [OF d1]
  let ?d1 = "notify ?ty ?s ?k d1"
  have o: "updateItemOwner env ?ty ?k w b ?s ?n ?i d = (Inr True, ?d1)"
    unfolding updateItemOwner_alone Let_def item(1) option.case if_P [OF later] d1 sum.case ..
  obtain d2 where d2: "settle_record env locker (Some a) b t BLOCK_CONFIRMED ?d1 = Inr d2"
    and dep: "isWalletAddressEqual (Some b) (Some locker) \<longrightarrow>
     (\<forall>(q, r) \<in> set (t_deposits d2). dp_nftType r = ?ty \<and> dp_tokenId r = ?k \<and>
        dp_hash r = Some (tf_transactionHash t) \<longrightarrow> dp_state r = D_CONFIRMED)"
    using settle_record_Inr by blast
  note fr2 = settle_record_frame [OF d2]
  have "t_transfers d2 = t_transfers d" by (simp add: fr2(2) fr1(1))
  with ok(2) have "transfer_index.indexed d2" using indexed_frame by blast
  note mk = mark_transfers [OF this, of "\<lambda>x _. x \<in> set (map fst g)" T_CONFIRMED]
  let ?d3 = "put_transfers (update_rows (\<lambda>x _. x \<in> set (map fst g)) (\<lambda>t. t\<lparr>tf_state := T_CONFIRMED\<rparr>) (t_transfers d2)) d2"
  have fin: "finish_group g BLOCK_CONFIRMED d2 = (Inr (), ?d3)"
    unfolding finish_group_def final_transfer_state.simps mk by simp
  have c: "confirm_group env locker g (Some a) b t d = (Inr (), ?d3)"
    unfolding confirm_group_alone path_owner_found [OF path(4,2)] Let_def sum.case o prod.case d2 fin by simp
  have run: "process_group env locker g d = (Inr (), ?d3)"
    unfolding process_group_alone ends sum.case option.case c [symmetric] by (simp add: g)
  have find: "find_nft ty k' ?d3 = find_nft ty k' d1" for ty k'
    using fr2(1) [of ty k'] find_nft_frame [of ?d3 d2 ty k'] by (simp add: put_defs)
  have t3: "map_of (t_transfers ?d3) x = map_option (\<lambda>t. if x \<in> set (map fst g) then t\<lparr>tf_state := T_CONFIRMED\<rparr> else t)
       (map_of (t_transfers d) x)" for x
    by (simp add: put_defs map_of_update_rows fr2(2) fr1)
  have dep3: "t_deposits ?d3 = t_deposits d2" by (simp add: put_defs)
  have i3: "find_nft ?ty ?k ?d3 = Some (set_owner env ?u w b ?s ?n ?i item)"
    unfolding find find_update_owner [OF d1] item(1) by simp
  have other: "(ty, k') = (?ty, ?k) \<or> find_nft ty k' ?d3 = find_nft ty k' d" for ty k'
    unfolding find find_update_owner [OF d1] by simp
  show ?thesis
    unfolding u [symmetric] using dep
    by (intro exI [where x = ?d3] conjI allI run i3 other t3) (unfold dep3)
qed

section \<open>On small databases\<close>

definition hop_row :: "string \<Rightarrow> wallet \<Rightarrow> wallet \<Rightarrow> transfer_row" where
  "hop_row blockHash a b = \<lparr>tf_blockNumber = 10, tf_blockHash = blockHash, tf_transactionIndex = 0,
     tf_transactionHash = ''h'', tf_state = T_PENDING, tf_nftType = ARCADE_PART, tf_from = a, tf_to = b,
     tf_tokenId = ''p1''\<rparr>"

definition deposit_db :: db where
  "deposit_db = sample_db\<lparr>
     t_blocks := [(''y'', \<lparr>bl_number = 10, bl_parentHash = ''w'', bl_state = BLOCK_CONFIRMED, bl_scanState = WATCHED\<rparr>)],
     t_transfers := [(''x2'', hop_row ''y'' ''B'' ''L''), (''x1'', hop_row ''y'' ''A'' ''B'')]\<rparr>"

lemma deposit_db_ok: "db_ok deposit_db"
  by (simp add: deposit_db_def db_ok_def sample_defs user_tab.all_ok_def gameCenter_tab.all_ok_def
      arcadeMachine_tab.all_ok_def junk_tab.all_ok_def extractJunkInventory_tab.all_ok_def user_ok_def
      game_center_ok_def arcade_machine_ok_def)

lemma deposit_db_item:
  "find_nft ARCADE_PART ''p1'' deposit_db = Some (nft.truncate (sample_part None ROM ''BUBBLE_ATTACK''))"
  by (simp add: deposit_db_def sample_db_def)

theorem items_only_move_on_witness:
  "\<exists>res d' item'. checkTransfers sample_env ''L'' (\<lambda>_. 0 :: int) deposit_db = (res, d') \<and>
     find_nft ARCADE_PART ''p1'' d' = Some item' \<and>
     (item' = nft.truncate (sample_part None ROM ''BUBBLE_ATTACK'') \<or> 0 < nft_lastBlock item' \<or>
      (0 = nft_lastBlock item' \<and> 0 < nft_lastTransactionIndex item'))"
proof -
  obtain res d' where r: "checkTransfers sample_env ''L'' (\<lambda>_. 0 :: int) deposit_db = (res, d')" by fastforce
  from items_only_move_on [OF r deposit_db_item] r show ?thesis
    by (auto simp: sample_part_def nft.truncate_def)
qed

theorem confirmed_path_settles_witness:
  "\<exists>d'. process_group sample_env ''L''
       [(''x2'', hop_row ''y'' ''B'' ''L'', BLOCK_CONFIRMED), (''x1'', hop_row ''y'' ''A'' ''B'', BLOCK_CONFIRMED)]
       deposit_db = (Inr (), d') \<and>
     find_nft ARCADE_PART ''p1'' d' = Some (set_owner sample_env None ''B'' ''L'' IN_AKIVERSE 10 0
       (nft.truncate (sample_part None ROM ''BUBBLE_ATTACK'')))"
proof -
  let ?t = "hop_row ''y'' ''B'' ''L''" and ?item = "nft.truncate (sample_part None ROM ''BUBBLE_ATTACK'')"
  let ?g = "[(''x2'', ?t, BLOCK_CONFIRMED), (''x1'', hop_row ''y'' ''A'' ''B'', BLOCK_CONFIRMED)]"
  have i: "transfer_index.indexed deposit_db"
    by (auto simp: transfer_index.indexed_def deposit_db_def hop_row_def transfer_key_def split: if_splits)
  have f: "find_nft (tf_nftType ?t) (tf_tokenId ?t) deposit_db = Some ?item"
    using deposit_db_item by (simp add: hop_row_def)
  have un: "unplaced (tf_nftType ?t) (tf_tokenId ?t) deposit_db" by (simp add: hop_row_def)
  have w: "walk ''A'' [(''A'', ''B''), (''B'', ''L'')] ''L''" by simp
  have m: "mset (hops ?g) = mset [(''A'', ''B''), (''B'', ''L'')]" by (simp add: hops_def hop_row_def)
  have po: "path_owner ''L'' [(''A'', ''B''), (''B'', ''L'')] ''L'' ''B''" by (simp add: path_owner_def)
  have l: "compareArrays [nft_lastBlock ?item, nft_lastTransactionIndex ?item]
      [tf_blockNumber ?t, tf_transactionIndex ?t] < 0"
    by (simp add: sample_part_def nft.truncate_def hop_row_def)
  have ne: "''A'' \<noteq> ''L''" by simp
  have u: "user_by_wallet deposit_db ''B'' = None"
    by (simp add: user_by_wallet_def deposit_db_def sample_db_def sample_user_def toLowerCase_def)
  from confirmed_path_settles [OF deposit_db_ok i f un refl w m ne po l, of sample_env] show ?thesis
    by (auto simp: u hop_row_def)
qed

end
