(* ===== verification/Confirmer_Currency_Props.thy ===== *)
theory Confirmer_Currency_Props
  imports Confirmer_Currency Confirmer_Owner_Props
begin

text \<open>
  Deposits of currency are credited exactly once: the balance of a user less the confirmed deposits of
  the user's wallet does not change in a run, and every transfer of a decided block is decided by it.
\<close>

declare all_ok_frame [simp del]

section \<open>The ledger of deposits\<close>

fun coin :: "CurrencyType \<Rightarrow> user_row \<Rightarrow> int" where
  "coin AKIR r = akirBalance r"
| "coin AKV r = akvBalance r"
| "coin USDC r = 0"

fun credit :: "CurrencyType \<Rightarrow> int \<Rightarrow> user_row \<Rightarrow> user_row" where
  "credit AKIR n r = r\<lparr>akirBalance := akirBalance r + n\<rparr>"
| "credit AKV n r = r\<lparr>akvBalance := akvBalance r + n\<rparr>"
| "credit USDC n r = r"

definition is_deposit :: "wallet \<Rightarrow> currency_transfer_row \<Rightarrow> bool" where
  "is_deposit locker t \<longleftrightarrow> (case ctf_currencyType t of
      AKIR \<Rightarrow> isWalletAddressEqual (Some (ctf_to t)) (Some ZERO_ADDRESS)
    | AKV \<Rightarrow> isWalletAddressEqual (Some (ctf_to t)) (Some locker)
    | USDC \<Rightarrow> False)"

definition credited :: "CurrencyType \<Rightarrow> wallet \<Rightarrow> wallet \<Rightarrow> currency_transfer_row \<Rightarrow> int" where
  "credited cur locker w t =
     (if ctf_state t = T_CONFIRMED \<and> ctf_currencyType t = cur \<and> toLowerCase (ctf_from t) = toLowerCase w \<and> is_deposit locker t
      then ctf_amount t else 0)"

lemma is_deposit_state [simp]: "is_deposit locker (t\<lparr>ctf_state := s\<rparr>) = is_deposit locker t"
  by (simp add: is_deposit_def split: CurrencyType.split)

definition total_credited :: "CurrencyType \<Rightarrow> wallet \<Rightarrow> wallet \<Rightarrow> db \<Rightarrow> int" where
  "total_credited cur locker w d = sum_list (map (credited cur locker w \<circ> snd) (t_currencyTransfers d))"

lemma user_by_wallet_Some:
  "distinct (map fst (t_users d)) \<Longrightarrow> user_by_wallet d w = Some (u, r) \<Longrightarrow>
   map_of (t_users d) u = Some r \<and> wallet_key (u_walletAddress r) = wallet_key (Some w)"
  by (auto simp: user_by_wallet_def dest: find_in)

lemma user_by_wallet_None:
  "user_by_wallet d w = None \<Longrightarrow> map_of (t_users d) u = Some r \<Longrightarrow>
   wallet_key (u_walletAddress r) \<noteq> wallet_key (Some w)"
  by (auto simp: user_by_wallet_def find_None_iff dest: map_of_SomeD)

lemma user_by_wallet_frame: "t_users d' = t_users d \<Longrightarrow> user_by_wallet d' w = user_by_wallet d w"
  by (simp add: user_by_wallet_def)

definition wallets_unique :: "db \<Rightarrow> bool" where
  "wallets_unique d \<longleftrightarrow> distinct (map fst (t_users d)) \<and>
     (\<forall>u u' r r' w. map_of (t_users d) u = Some r \<longrightarrow> map_of (t_users d) u' = Some r' \<longrightarrow>
        wallet_key (u_walletAddress r) = Some w \<longrightarrow> wallet_key (u_walletAddress r') = Some w \<longrightarrow> u = u')"

section \<open>One transfer\<close>

lemma settle_deposit_frame:
  "run_tx (settle_deposit t cur d0) d = Inr d' \<Longrightarrow>
   t_users d' = t_users d \<and> t_currencyTransfers d' = t_currencyTransfers d"
  by (auto simp: settle_deposit_def currencyDeposit_tab.update_many_Inr put_defs split: if_splits sum.splits)

lemma settle_withdrawal_frame:
  "settle_withdrawal t d = Inr d' \<Longrightarrow> t_users d' = t_users d \<and> t_currencyTransfers d' = t_currencyTransfers d"
  by (auto simp: settle_withdrawal_def currencyWithdrawal_tab.update_many_Inr put_defs)

lemma update_by_wallet_Inr:
  assumes "update_user_by_wallet w f d = Inr d'"
  shows "\<exists>u r. user_by_wallet d w = Some (u, r) \<and> t_users d' = apply_row f u (t_users d) \<and>
    t_currencyTransfers d' = t_currencyTransfers d"
  using assms by (auto simp: update_user_by_wallet_def user_tab.update_Inr put_defs split: option.splits)

lemma currency_queries_run:
  assumes "run_tx (currency_queries locker usdc t d) d = Inr d'"
  shows "t_currencyTransfers d' = t_currencyTransfers d"
    and "if is_deposit locker t
      then \<exists>u r. user_by_wallet d (ctf_from t) = Some (u, r) \<and>
        t_users d' = apply_row (credit (ctf_currencyType t) (ctf_amount t)) u (t_users d)
      else t_users d' = t_users d"
proof -
  have dep: "t_currencyTransfers d' = t_currencyTransfers d \<and> (\<exists>u r. user_by_wallet d w = Some (u, r) \<and>
        t_users d' = apply_row f u (t_users d))"
    if "run_tx (settle_deposit t cur d @ [update_user_by_wallet w f]) d = Inr d'" for cur w f
  proof -
    from that obtain d1 where d1: "run_tx (settle_deposit t cur d) d = Inr d1" "update_user_by_wallet w f d1 = Inr d'"
      by (auto simp: run_tx_append split: sum.splits)
    from settle_deposit_frame [OF d1(1)] update_by_wallet_Inr [OF d1(2)] show ?thesis
      by (metis user_by_wallet_frame)
  qed
  have wd: "t_currencyTransfers d' = t_currencyTransfers d \<and> t_users d' = t_users d"
    if "run_tx [settle_withdrawal t] d = Inr d'"
    using that settle_withdrawal_frame by (auto split: sum.splits)
  have f: "credit AKIR n = (\<lambda>r. r\<lparr>akirBalance := akirBalance r + n\<rparr>)"
    "credit AKV n = (\<lambda>r. r\<lparr>akvBalance := akvBalance r + n\<rparr>)" for n
    by (rule ext, simp)+
  have "t_currencyTransfers d' = t_currencyTransfers d \<and> (if is_deposit locker t
      then \<exists>u r. user_by_wallet d (ctf_from t) = Some (u, r) \<and>
        t_users d' = apply_row (credit (ctf_currencyType t) (ctf_amount t)) u (t_users d)
      else t_users d' = t_users d)"
  proof (cases "ctf_currencyType t")
    case AKIR
    with assms dep wd show ?thesis
      unfolding currency_queries_def is_deposit_def AKIR CurrencyType.case f
      by (cases "isWalletAddressEqual (Some (ctf_to t)) (Some ZERO_ADDRESS)";
          cases "isWalletAddressEqual (Some (ctf_from t)) (Some ZERO_ADDRESS)") auto
  next
    case AKV
    with assms dep wd show ?thesis
      unfolding currency_queries_def is_deposit_def AKV CurrencyType.case f
      by (cases "isWalletAddressEqual (Some (ctf_to t)) (Some locker)";
          cases "isWalletAddressEqual (Some (ctf_from t)) (Some locker)") auto
  next
    case USDC
    with assms wd show ?thesis
      unfolding currency_queries_def is_deposit_def USDC CurrencyType.case by (auto split: if_splits)
  qed
  then show "t_currencyTransfers d' = t_currencyTransfers d"
    "if is_deposit locker t
      then \<exists>u r. user_by_wallet d (ctf_from t) = Some (u, r) \<and>
        t_users d' = apply_row (credit (ctf_currencyType t) (ctf_amount t)) u (t_users d)
      else t_users d' = t_users d" by blast+
qed

lemma put_currency_state_Inr:
  assumes "put_currency_state k s d = Inr d'"
  shows "t_users d' = t_users d"
    and "t_currencyTransfers d' = apply_row (\<lambda>t. t\<lparr>ctf_state := s\<rparr>) k (t_currencyTransfers d)"
  using assms by (auto simp: put_currency_state_def currencyTransfer_tab.update_Inr put_defs)

text \<open>What one step does to the users and to the transfers.\<close>

definition currency_step :: "wallet \<Rightarrow> decided_currency \<Rightarrow> db \<Rightarrow> db \<Rightarrow> bool" where
  "currency_step locker row d d' \<longleftrightarrow> (case row of (k, t, finalState) \<Rightarrow>
     d' = d \<or>
     (\<exists>s. s \<noteq> T_CONFIRMED \<and> t_users d' = t_users d \<and>
        t_currencyTransfers d' = apply_row (\<lambda>t. t\<lparr>ctf_state := s\<rparr>) k (t_currencyTransfers d)) \<or>
     (finalState = BLOCK_CONFIRMED \<and>
      t_currencyTransfers d' = apply_row (\<lambda>t. t\<lparr>ctf_state := T_CONFIRMED\<rparr>) k (t_currencyTransfers d) \<and>
      (if is_deposit locker t
       then \<exists>u r. user_by_wallet d (ctf_from t) = Some (u, r) \<and>
         t_users d' = apply_row (credit (ctf_currencyType t) (ctf_amount t)) u (t_users d)
       else t_users d' = t_users d)))"

lemma check_currency_step:
  assumes "check_currency locker usdc row d = (res, d')"
  shows "currency_step locker row d d'"
proof -
  obtain k t s where row: "row = (k, t, s)" by (cases row) auto
  let ?qs = "if s = BLOCK_CONFIRMED then currency_queries locker usdc t d else []"
  let ?tx = "run_tx (?qs @ [put_currency_state k (final_transfer_state s)]) d"
  show ?thesis
  proof (cases ?tx)
    case (Inl e)
    show ?thesis
    proof (cases "e = PrismaKnownRequestError ''P2025''")
      case True
      with Inl assms row consider "d' = d" | "put_currency_state k T_FROZEN d = Inr d'"
        by (auto simp: check_currency_def split: sum.splits)
      then show ?thesis
      proof cases
        case 2
        from put_currency_state_Inr [OF this] show ?thesis
          unfolding currency_step_def row prod.case by (metis TransferState.distinct(5))
      qed (simp add: currency_step_def row)
    next
      case False
      with Inl assms row show ?thesis by (simp add: check_currency_def currency_step_def)
    qed
  next
    case (Inr d2)
    then have d2: "d' = d2" using assms row by (simp add: check_currency_def)
    with Inr obtain d1 where d1: "run_tx ?qs d = Inr d1" "put_currency_state k (final_transfer_state s) d1 = Inr d'"
      by (auto simp: run_tx_append split: sum.splits)
    note st = put_currency_state_Inr [OF d1(2)]
    show ?thesis
    proof (cases "s = BLOCK_CONFIRMED")
      case True
      with d1(1) have "run_tx (currency_queries locker usdc t d) d = Inr d1" by simp
      from currency_queries_run [OF this] st True show ?thesis
        unfolding currency_step_def row prod.case by (auto split: if_splits)
    next
      case False
      then have "d1 = d" "final_transfer_state s \<noteq> T_CONFIRMED" using d1(1) by (cases s; simp)+
      with st show ?thesis unfolding currency_step_def row prod.case by blast
    qed
  qed
qed

text \<open>The ledger: no step changes a balance without the transfers saying so.\<close>

definition in_ledger :: "CurrencyType \<Rightarrow> wallet \<Rightarrow> user_id \<Rightarrow> wallet \<Rightarrow> int \<Rightarrow> db \<Rightarrow> bool" where
  "in_ledger cur locker u w n d \<longleftrightarrow> wallets_unique d \<and>
     (\<exists>r. map_of (t_users d) u = Some r \<and> u_walletAddress r = Some w \<and>
        coin cur r - total_credited cur locker w d = n)"

lemma credit_wallet [simp]: "u_walletAddress (credit cur n r) = u_walletAddress r"
  by (cases cur) simp_all

lemma coin_credit: "coin cur (credit cur' n r) = coin cur r + (if cur = cur' \<and> cur \<noteq> USDC then n else 0)"
  by (cases cur; cases cur') simp_all

lemma wallets_unique_credit:
  assumes "wallets_unique d" and "t_users d' = apply_row (credit cur n) u (t_users d)"
  shows "wallets_unique d'"
proof -
  have "\<exists>r0. map_of (t_users d) v = Some r0 \<and> u_walletAddress r0 = u_walletAddress r"
    if "map_of (t_users d') v = Some r" for v r
    using that by (auto simp: assms(2) map_of_apply_row split: if_splits)
  with assms show ?thesis unfolding wallets_unique_def by (metis keys_apply_row)
qed

lemma currency_step_ledger:
  assumes step: "currency_step locker (k, t, s) d d'" and led: "in_ledger cur locker u w n d"
    and row: "map_of (t_currencyTransfers d) k = Some t" "ctf_state t = T_PENDING"
  shows "in_ledger cur locker u w n d'"
proof -
  from led obtain r where r: "map_of (t_users d) u = Some r" "u_walletAddress r = Some w"
    "coin cur r - total_credited cur locker w d = n" and un: "wallets_unique d"
    by (auto simp: in_ledger_def)
  have old: "credited cur locker w t = 0" using row(2) by (simp add: credited_def)
  have total: "total_credited cur locker w d' = total_credited cur locker w d + credited cur locker w (t\<lparr>ctf_state := x\<rparr>)"
    if "t_currencyTransfers d' = apply_row (\<lambda>t. t\<lparr>ctf_state := x\<rparr>) k (t_currencyTransfers d)" for x
    unfolding total_credited_def that using apply_row_sum [OF row(1), of "credited cur locker w"] old by simp
  from step consider "d' = d"
    | x where "x \<noteq> T_CONFIRMED" "t_users d' = t_users d"
        "t_currencyTransfers d' = apply_row (\<lambda>t. t\<lparr>ctf_state := x\<rparr>) k (t_currencyTransfers d)"
    | "t_currencyTransfers d' = apply_row (\<lambda>t. t\<lparr>ctf_state := T_CONFIRMED\<rparr>) k (t_currencyTransfers d)"
        "\<not> is_deposit locker t" "t_users d' = t_users d"
    | u0 r0 where "t_currencyTransfers d' = apply_row (\<lambda>t. t\<lparr>ctf_state := T_CONFIRMED\<rparr>) k (t_currencyTransfers d)"
        "is_deposit locker t" "user_by_wallet d (ctf_from t) = Some (u0, r0)"
        "t_users d' = apply_row (credit (ctf_currencyType t) (ctf_amount t)) u0 (t_users d)"
    unfolding currency_step_def prod.case by (auto split: if_splits)
  then show ?thesis
  proof cases
    case 1
    with led show ?thesis by simp
  next
    case 2
    then have "total_credited cur locker w d' = total_credited cur locker w d"
      using total [OF 2(3)] by (simp add: credited_def)
    with r un 2(2) show ?thesis by (simp add: in_ledger_def wallets_unique_def)
  next
    case 3
    then have "total_credited cur locker w d' = total_credited cur locker w d"
      using total [OF 3(1)] by (simp add: credited_def)
    with r un 3(3) show ?thesis by (simp add: in_ledger_def wallets_unique_def)
  next
    case 4
    have dist: "distinct (map fst (t_users d))" using un by (simp add: wallets_unique_def)
    from user_by_wallet_Some [OF dist 4(3)] have u0: "map_of (t_users d) u0 = Some r0" "wallet_key (u_walletAddress r0) = Some (toLowerCase (ctf_from t))" by auto
    have same: "u0 = u \<longleftrightarrow> toLowerCase (ctf_from t) = toLowerCase w"
      using un u0 r unfolding wallets_unique_def by (metis option.inject wallet_key_simps(2))
    have tot: "total_credited cur locker w d' = total_credited cur locker w d +
        (if ctf_currencyType t = cur \<and> toLowerCase (ctf_from t) = toLowerCase w then ctf_amount t else 0)"
      using total [OF 4(1)] 4(2) by (simp add: credited_def)
    have nu: "cur = ctf_currencyType t \<Longrightarrow> cur \<noteq> USDC" using 4(2) by (auto simp: is_deposit_def)
    let ?r = "if u = u0 then credit (ctf_currencyType t) (ctf_amount t) r else r"
    have "map_of (t_users d') u = Some ?r" using r(1) u0(1) by (auto simp: 4(4) map_of_apply_row)
    moreover have "coin cur ?r - total_credited cur locker w d' = n"
      using r(3) tot same nu by (auto simp: coin_credit)
    moreover have "u_walletAddress ?r = Some w" using r(2) by simp
    ultimately show ?thesis using wallets_unique_credit [OF un 4(4)] by (auto simp: in_ledger_def)
  qed
qed

section \<open>All of them\<close>

lemma currency_step_other:
  "currency_step locker (k, t, s) d d' \<Longrightarrow> k' \<noteq> k \<Longrightarrow>
   map_of (t_currencyTransfers d') k' = map_of (t_currencyTransfers d) k'"
  by (auto simp: currency_step_def map_of_apply_row)

lemma check_currencies_ledger:
  "check_currencies locker usdc rows d = (res, d') \<Longrightarrow> in_ledger cur locker u w n d \<Longrightarrow>
   distinct (map fst rows) \<Longrightarrow>
   \<forall>(k, t, s) \<in> set rows. map_of (t_currencyTransfers d) k = Some t \<and> ctf_state t = T_PENDING \<Longrightarrow>
   in_ledger cur locker u w n d'"
proof (induction rows arbitrary: d)
  case (Cons row rows)
  obtain k t s where row: "row = (k, t, s)" by (cases row) auto
  obtain r d1 where r: "check_currency locker usdc row d = (r, d1)" by fastforce
  note step = check_currency_step [OF r, unfolded row]
  have t: "map_of (t_currencyTransfers d) k = Some t" "ctf_state t = T_PENDING" using Cons.prems(4) row by auto
  note led = currency_step_ledger [OF step Cons.prems(2) t]
  show ?case
  proof (cases r)
    case (Inl e)
    with Cons.prems(1) r led show ?thesis by simp
  next
    case (Inr x)
    with Cons.prems(1) r have c: "check_currencies locker usdc rows d1 = (res, d')" by simp
    have "\<forall>(k', t', s') \<in> set rows. map_of (t_currencyTransfers d1) k' = Some t' \<and> ctf_state t' = T_PENDING"
    proof clarify
      fix k' t' s' assume m: "(k', t', s') \<in> set rows"
      then have "k' \<noteq> k" using Cons.prems(3) row by force
      with currency_step_other [OF step] Cons.prems(4) m
      show "map_of (t_currencyTransfers d1) k' = Some t' \<and> ctf_state t' = T_PENDING" by auto
    qed
    with Cons.IH [OF c led] Cons.prems(3) show ?thesis by simp
  qed
qed simp

lemma decided_currenciesD:
  "(k, t, s) \<in> set (decided_currencies d) \<Longrightarrow> (k, t) \<in> set (t_currencyTransfers d) \<and> ctf_state t = T_PENDING \<and>
     s \<noteq> BLOCK_PENDING"
  by (auto simp: decided_currencies_def split: option.splits if_splits)

lemma distinct_decided: "distinct (map fst (t_currencyTransfers d)) \<Longrightarrow> distinct (map fst (decided_currencies d))"
proof -
  have "distinct (map fst ts) \<Longrightarrow> distinct (map fst (concat (map (\<lambda>(k, t). case map_of bs (ctf_blockHash t) of
       None \<Rightarrow> [] | Some b \<Rightarrow> if ctf_state t = T_PENDING \<and> bl_state b \<noteq> BLOCK_PENDING then [(k, t, bl_state b)] else []) ts)))"
    for ts :: "(string, currency_transfer_row) table" and bs :: "(string, block_row) table"
    by (induction ts) (force split: option.splits)+
  then show "distinct (map fst (t_currencyTransfers d)) \<Longrightarrow> distinct (map fst (decided_currencies d))"
    by (simp add: decided_currencies_def)
qed

lemma distinct_sort_key: "distinct (map fst xs) \<Longrightarrow> distinct (map fst (sort_key f xs))"
  by (metis distinct_map distinct_sort set_sort)

lemma currency_rows_ok:
  assumes "distinct (map fst (t_currencyTransfers d))"
  shows "distinct (map fst (currency_rows d))" "set (currency_rows d) = set (decided_currencies d)"
  using assms by (simp_all add: currency_rows_def distinct_sort_key distinct_decided)

text \<open>
  (C11) Currency deposits are credited exactly once: a run that checks the currency transfers changes a
  user's AKIR or AKV balance by exactly the amounts of the deposits from the user's wallet that it
  confirms, so that the balance less all confirmed deposits never changes, whether the run ends normally
  or not, and however often it is run.
\<close>

theorem deposits_credited_once:
  assumes "checkCurrencyTransfers locker usdc d = (res, d')"
    and "distinct (map fst (t_currencyTransfers d))" and "wallets_unique d"
    and "map_of (t_users d) u = Some r" and "u_walletAddress r = Some w"
  shows "\<exists>r'. map_of (t_users d') u = Some r' \<and> u_walletAddress r' = Some w \<and>
    coin cur r' - coin cur r = total_credited cur locker w d' - total_credited cur locker w d"
proof -
  have led: "in_ledger cur locker u w (coin cur r - total_credited cur locker w d) d"
    using assms by (simp add: in_ledger_def)
  have "in_ledger cur locker u w (coin cur r - total_credited cur locker w d) d'"
    by (rule check_currencies_ledger [OF assms(1) [unfolded checkCurrencyTransfers_def] led])
      (use currency_rows_ok [OF assms(2)] assms(2) in \<open>auto dest: decided_currenciesD\<close>)
  then show ?thesis by (auto simp: in_ledger_def)
qed

section \<open>Every transfer is decided\<close>

lemma put_currency_state_succeeds:
  assumes "currencyTransfer_index.indexed d" and "map_of (t_currencyTransfers d) k = Some t"
  shows "\<exists>d'. put_currency_state k s d = Inr d' \<and> currencyTransfer_index.indexed d'"
proof -
  have "\<not> collides currency_transfer_key k (t\<lparr>ctf_state := s\<rparr>)
      (apply_row (\<lambda>t. t\<lparr>ctf_state := s\<rparr>) k (t_currencyTransfers d))"
    using currencyTransfer_index.update_keeps_key [OF assms, of "\<lambda>t. t\<lparr>ctf_state := s\<rparr>"]
    by (simp add: currency_transfer_key_def)
  with assms(2) obtain d' where d': "put_currency_state k s d = Inr d'"
    by (simp add: put_currency_state_def currencyTransfer_tab.update_Inr check_currencyTransfer_def)
  with currencyTransfer_index.update_indexed assms(1) show ?thesis
    unfolding put_currency_state_def preserves_def by blast
qed

lemma settle_deposit_succeeds:
  "\<exists>d'. run_tx (settle_deposit t cur d0) d = Inr d' \<and> t_users d' = t_users d \<and>
     t_currencyTransfers d' = t_currencyTransfers d"
proof -
  have "update_currencyDeposits P f d = Inr (put_currencyDeposits (update_rows P f (t_currencyDeposits d)) d)" for P f
    by (simp add: currencyDeposit_tab.update_many_Inr no_check_def)
  then show ?thesis by (simp add: settle_deposit_def put_defs)
qed

lemma settle_withdrawal_succeeds: "\<exists>d'. settle_withdrawal t d = Inr d' \<and> t_users d' = t_users d \<and>
     t_currencyTransfers d' = t_currencyTransfers d"
  by (auto simp: settle_withdrawal_def currencyWithdrawal_tab.update_many_Inr put_defs no_check_def)

lemma deposit_queries_result:
  assumes "user_tab.all_ok d" and "distinct (map fst (t_users d))" and "0 \<le> n" and "cur \<noteq> USDC"
  shows "case user_by_wallet d w of
      None \<Rightarrow> run_tx (settle_deposit t cur d @ [update_user_by_wallet w (credit cur n)]) d =
        Inl (PrismaKnownRequestError ''P2025'')
    | Some (u, r) \<Rightarrow> \<exists>d'. run_tx (settle_deposit t cur d @ [update_user_by_wallet w (credit cur n)]) d = Inr d' \<and>
        t_users d' = apply_row (credit cur n) u (t_users d) \<and> t_currencyTransfers d' = t_currencyTransfers d"
proof -
  obtain d1 where d1: "run_tx (settle_deposit t cur d) d = Inr d1" "t_users d1 = t_users d"
    "t_currencyTransfers d1 = t_currencyTransfers d" using settle_deposit_succeeds by blast
  show ?thesis
  proof (cases "user_by_wallet d w")
    case None
    with d1 user_by_wallet_frame [OF d1(2)] show ?thesis by (simp add: run_tx_append update_user_by_wallet_def)
  next
    case (Some x)
    obtain u r where x: "x = (u, r)" by (cases x)
    from user_by_wallet_Some [OF assms(2)] Some x have r: "map_of (t_users d) u = Some r" by blast
    then have "user_ok r" using assms(1) user_tab.all_okD by blast
    then have "check_user u (credit cur n r) (apply_row (credit cur n) u (t_users d)) = None"
      using assms(3,4) by (cases cur) (auto simp: user_ok_def check_user_def)
    with r Some x d1 user_by_wallet_frame [OF d1(2)] show ?thesis
      by (auto simp: run_tx_append update_user_by_wallet_def user_tab.update_Inr put_defs update_where_def)
  qed
qed

text \<open>What is left of a transfer of a block that is decided as \<open>s\<close>.\<close>

definition decided_state :: "wallet \<Rightarrow> db \<Rightarrow> currency_transfer_row \<Rightarrow> BlockState \<Rightarrow> TransferState" where
  "decided_state locker d t s =
     (if s = BLOCK_CONFIRMED \<and> is_deposit locker t \<and> user_by_wallet d (ctf_from t) = None then T_FROZEN
      else final_transfer_state s)"

lemma currency_queries_result:
  assumes "user_tab.all_ok d" and "distinct (map fst (t_users d))" and "0 \<le> ctf_amount t"
  shows "if is_deposit locker t \<and> user_by_wallet d (ctf_from t) = None
    then run_tx (currency_queries locker usdc t d) d = Inl (PrismaKnownRequestError ''P2025'')
    else \<exists>d'. run_tx (currency_queries locker usdc t d) d = Inr d' \<and> t_currencyTransfers d' = t_currencyTransfers d"
proof -
  have wd: "\<exists>d'. run_tx [settle_withdrawal t] d = Inr d' \<and> t_currencyTransfers d' = t_currencyTransfers d"
    using settle_withdrawal_succeeds [of t d] by auto
  have f: "(\<lambda>r. r\<lparr>akirBalance := akirBalance r + n\<rparr>) = credit AKIR n"
    "(\<lambda>r. r\<lparr>akvBalance := akvBalance r + n\<rparr>) = credit AKV n" for n
    by (rule ext, simp)+
  note dep = deposit_queries_result [OF assms, of _ t "ctf_from t"]
  show ?thesis
  proof (cases "ctf_currencyType t")
    case AKIR
    with wd dep [of AKIR] show ?thesis
      by (cases "user_by_wallet d (ctf_from t)")
        (auto simp: currency_queries_def is_deposit_def f simp del: run_tx.simps(2))
  next
    case AKV
    with wd dep [of AKV] show ?thesis
      by (cases "user_by_wallet d (ctf_from t)")
        (auto simp: currency_queries_def is_deposit_def f simp del: run_tx.simps(2))
  next
    case USDC
    with wd show ?thesis by (auto simp: currency_queries_def is_deposit_def simp del: run_tx.simps(2))
  qed
qed

lemma check_currency_decides:
  assumes "user_tab.all_ok d" and "distinct (map fst (t_users d))" and "currencyTransfer_index.indexed d"
    and "map_of (t_currencyTransfers d) k = Some t" and "0 \<le> ctf_amount t"
  shows "\<exists>d'. check_currency locker usdc (k, t, s) d = (Inr (), d') \<and>
    map_of (t_currencyTransfers d') k = Some (t\<lparr>ctf_state := decided_state locker d t s\<rparr>)"
proof (cases "s = BLOCK_CONFIRMED \<and> is_deposit locker t \<and> user_by_wallet d (ctf_from t) = None")
  case True
  then have "run_tx (currency_queries locker usdc t d) d = Inl (PrismaKnownRequestError ''P2025'')"
    using currency_queries_result [OF assms(1,2,5), of locker usdc] by simp
  moreover obtain d' where d': "put_currency_state k T_FROZEN d = Inr d'"
    using put_currency_state_succeeds [OF assms(3,4)] by blast
  ultimately show ?thesis
    using True put_currency_state_Inr(2) [OF d'] assms(4)
    by (simp add: check_currency_def run_tx_append map_of_apply_row decided_state_def)
next
  case False
  let ?qs = "if s = BLOCK_CONFIRMED then currency_queries locker usdc t d else []"
  obtain d1 where d1: "run_tx ?qs d = Inr d1" "t_currencyTransfers d1 = t_currencyTransfers d"
    using currency_queries_result [OF assms(1,2,5), of locker usdc] False by (cases "s = BLOCK_CONFIRMED") auto
  then have "currencyTransfer_index.indexed d1" using assms(3) by (simp add: currencyTransfer_index.indexed_def)
  then obtain d' where d': "put_currency_state k (final_transfer_state s) d1 = Inr d'"
    using put_currency_state_succeeds [of d1 k t] assms(4) d1(2) by auto
  have "check_currency locker usdc (k, t, s) d = (Inr (), d')"
    using d1(1) d' by (simp add: check_currency_def run_tx_append)
  moreover have "decided_state locker d t s = final_transfer_state s" using False by (auto simp: decided_state_def)
  ultimately show ?thesis
    using put_currency_state_Inr(2) [OF d'] assms(4) d1(2) by (auto simp: map_of_apply_row)
qed

text \<open>What the decision of one transfer keeps for the others.\<close>

definition can_decide :: "db \<Rightarrow> db \<Rightarrow> bool" where
  "can_decide d0 d \<longleftrightarrow> user_tab.all_ok d \<and> distinct (map fst (t_users d)) \<and> currencyTransfer_index.indexed d \<and>
     (\<forall>w. user_by_wallet d w = None \<longleftrightarrow> user_by_wallet d0 w = None)"

lemma user_by_wallet_credit:
  assumes "distinct (map fst (t_users d))" and "t_users d' = apply_row (credit cur n) u (t_users d)"
  shows "user_by_wallet d' w = None \<longleftrightarrow> user_by_wallet d w = None"
proof -
  have "map (wallet_key \<circ> u_walletAddress \<circ> snd) (apply_row (credit cur n) u us) = map (wallet_key \<circ> u_walletAddress \<circ> snd) us" for us
    by (induction "credit cur n" u us rule: apply_row.induct) auto
  then have "(wallet_key \<circ> u_walletAddress \<circ> snd) ` set (t_users d') = (wallet_key \<circ> u_walletAddress \<circ> snd) ` set (t_users d)"
    unfolding assms(2) by (metis list.set_map)
  then show ?thesis unfolding user_by_wallet_def find_None_iff by (auto 0 3 simp: image_iff) (force+)
qed

lemma can_decide_step:
  assumes c: "can_decide d0 d" and run: "check_currency locker usdc (k, t, s) d = (res, d')"
    and row: "map_of (t_currencyTransfers d) k = Some t" "0 \<le> ctf_amount t"
  shows "can_decide d0 d'"
proof -
  have ok: "user_tab.all_ok d" and dist: "distinct (map fst (t_users d))"
    and ix: "currencyTransfer_index.indexed d"
    and ws: "\<And>w. user_by_wallet d w = None \<longleftrightarrow> user_by_wallet d0 w = None" using c by (auto simp: can_decide_def)
  have ix': "currencyTransfer_index.indexed d'"
    if "t_currencyTransfers d' = apply_row (\<lambda>t. t\<lparr>ctf_state := x\<rparr>) k (t_currencyTransfers d)" for x
  proof -
    obtain d2 where d2: "put_currency_state k x d = Inr d2" "currencyTransfer_index.indexed d2"
      using put_currency_state_succeeds [OF ix row(1)] by blast
    with put_currency_state_Inr(2) [OF d2(1)] that show ?thesis by (simp add: currencyTransfer_index.indexed_def)
  qed
  have same: "can_decide d0 d'" if "t_users d' = t_users d" "currencyTransfer_index.indexed d'"
    using that c user_by_wallet_frame [OF that(1)] all_ok_frame(1) [OF that(1)] by (simp add: can_decide_def)
  from check_currency_step [OF run] consider "d' = d"
    | x where "t_users d' = t_users d"
        "t_currencyTransfers d' = apply_row (\<lambda>t. t\<lparr>ctf_state := x\<rparr>) k (t_currencyTransfers d)"
    | u r where "t_currencyTransfers d' = apply_row (\<lambda>t. t\<lparr>ctf_state := T_CONFIRMED\<rparr>) k (t_currencyTransfers d)"
        "user_by_wallet d (ctf_from t) = Some (u, r)"
        "t_users d' = apply_row (credit (ctf_currencyType t) (ctf_amount t)) u (t_users d)"
    unfolding currency_step_def prod.case by (auto split: if_splits)
  then show ?thesis
  proof cases
    case 1
    with c show ?thesis by simp
  next
    case 2
    with same ix' show ?thesis by blast
  next
    case 3
    have good: "user_ok (credit (ctf_currencyType t) (ctf_amount t) r)" if "user_ok r" for r
      using that row(2) by (cases "ctf_currencyType t") (auto simp: user_ok_def)
    have "user_tab.all_ok d'"
      unfolding user_tab.all_ok_def
    proof clarify
      fix v x assume "(v, x) \<in> set (t_users d')"
      then have "(v, x) \<in> set (t_users d) \<or> (\<exists>y. x = credit (ctf_currencyType t) (ctf_amount t) y \<and> map_of (t_users d) u = Some y)"
        using set_apply_row [of v x] unfolding 3(3) by blast
      then show "user_ok x" using ok good unfolding user_tab.all_ok_def by (auto dest: map_of_SomeD)
    qed
    moreover have "distinct (map fst (t_users d'))" using dist by (simp add: 3(3))
    ultimately show ?thesis
      using ix' [OF 3(1)] user_by_wallet_credit [OF dist 3(3)] ws by (simp add: can_decide_def)
  qed
qed

lemma check_currencies_decides:
  "can_decide d0 d \<Longrightarrow> distinct (map fst rows) \<Longrightarrow>
   \<forall>(k, t, s) \<in> set rows. map_of (t_currencyTransfers d) k = Some t \<and> 0 \<le> ctf_amount t \<Longrightarrow>
   \<exists>d'. check_currencies locker usdc rows d = (Inr (), d') \<and>
     (\<forall>(k, t, s) \<in> set rows. map_of (t_currencyTransfers d') k = Some (t\<lparr>ctf_state := decided_state locker d0 t s\<rparr>)) \<and>
     (\<forall>k. k \<notin> fst ` set rows \<longrightarrow> map_of (t_currencyTransfers d') k = map_of (t_currencyTransfers d) k)"
proof (induction rows arbitrary: d)
  case (Cons row rows)
  obtain k t s where row: "row = (k, t, s)" by (cases row) auto
  have t: "map_of (t_currencyTransfers d) k = Some t" "0 \<le> ctf_amount t" using Cons.prems(3) row by auto
  obtain d1 where d1: "check_currency locker usdc (k, t, s) d = (Inr (), d1)"
    "map_of (t_currencyTransfers d1) k = Some (t\<lparr>ctf_state := decided_state locker d t s\<rparr>)"
    using check_currency_decides [OF _ _ _ t, of locker usdc s] Cons.prems(1) unfolding can_decide_def by blast
  note other = currency_step_other [OF check_currency_step [OF d1(1)]]
  have st: "decided_state locker d t s = decided_state locker d0 t s"
    using Cons.prems(1) by (simp add: decided_state_def can_decide_def)
  have fresh: "k \<notin> fst ` set rows" using Cons.prems(2) row by simp
  have "\<forall>(k', t', s') \<in> set rows. map_of (t_currencyTransfers d1) k' = Some t' \<and> 0 \<le> ctf_amount t'"
  proof clarify
    fix k' t' s' assume m: "(k', t', s') \<in> set rows"
    with fresh have "k' \<noteq> k" by force
    with other Cons.prems(3) m show "map_of (t_currencyTransfers d1) k' = Some t' \<and> 0 \<le> ctf_amount t'" by auto
  qed
  from Cons.IH [OF can_decide_step [OF Cons.prems(1) d1(1) t] _ this] Cons.prems(2) obtain d' where
    d': "check_currencies locker usdc rows d1 = (Inr (), d')"
    "\<forall>(k, t, s) \<in> set rows. map_of (t_currencyTransfers d') k = Some (t\<lparr>ctf_state := decided_state locker d0 t s\<rparr>)"
    "\<And>k. k \<notin> fst ` set rows \<Longrightarrow> map_of (t_currencyTransfers d') k = map_of (t_currencyTransfers d1) k" by auto
  show ?case
    using d1 d'(1,2) d'(3) [OF fresh] st by (intro exI [where x = d']) (auto simp: row d'(3) other)
qed simp

text \<open>
  (C20) Every currency transfer of a decided block is decided by a run: as confirmed or invalidated like its
  block, except that a confirmed deposit of a wallet without a user is frozen.  No other transfer
  changes, and the run ends normally.
\<close>

theorem currency_transfers_decided:
  assumes "db_ok d" and "distinct (map fst (t_users d))" and "currencyTransfer_index.indexed d"
    and "\<forall>(k, t) \<in> set (t_currencyTransfers d). 0 \<le> ctf_amount t"
  shows "\<exists>d'. checkCurrencyTransfers locker usdc d = (Inr (), d') \<and>
    (\<forall>(k, t, s) \<in> set (decided_currencies d).
       map_of (t_currencyTransfers d') k = Some (t\<lparr>ctf_state := decided_state locker d t s\<rparr>)) \<and>
    (\<forall>k. k \<notin> fst ` set (decided_currencies d) \<longrightarrow>
       map_of (t_currencyTransfers d') k = map_of (t_currencyTransfers d) k)"
proof -
  have dist: "distinct (map fst (t_currencyTransfers d))" using assms(3) by (simp add: currencyTransfer_index.indexed_def)
  note rows = currency_rows_ok [OF dist]
  have c: "can_decide d d" using assms(1-3) by (simp add: can_decide_def db_ok_def)
  have "\<forall>(k, t, s) \<in> set (currency_rows d). map_of (t_currencyTransfers d) k = Some t \<and> 0 \<le> ctf_amount t"
    using assms(4) dist unfolding rows(2) by (auto dest!: decided_currenciesD)
  from check_currencies_decides [OF c rows(1) this, of locker usdc] show ?thesis
    unfolding checkCurrencyTransfers_def rows(2) .
qed

section \<open>On a small database\<close>

definition coin_row :: "wallet \<Rightarrow> currency_transfer_row" where
  "coin_row a = \<lparr>ctf_blockNumber = 10, ctf_blockHash = ''y'', ctf_transactionIndex = 0,
     ctf_transactionHash = ''h'', ctf_state = T_PENDING, ctf_currencyType = AKV, ctf_from = a, ctf_to = ''L'',
     ctf_amount = 7\<rparr>"

text \<open>A deposit of a registered wallet and one of an unknown wallet.\<close>

definition coins_db :: db where
  "coins_db = sample_db\<lparr>
     t_blocks := [(''y'', \<lparr>bl_number = 10, bl_parentHash = ''w'', bl_state = BLOCK_CONFIRMED, bl_scanState = WATCHED\<rparr>)],
     t_currencyTransfers := [(''k1'', coin_row ''0xab''), (''k2'', coin_row ''0xcd'')]\<rparr>"

lemma coins_db_users: "t_users coins_db = t_users sample_db"
  by (simp add: coins_db_def)

lemma coins_db_keys: "distinct (map fst (t_currencyTransfers coins_db))"
  by (simp add: coins_db_def)

theorem deposits_credited_once_witness:
  "\<exists>res d' r'. checkCurrencyTransfers ''L'' ''U'' coins_db = (res, d') \<and>
    map_of (t_users d') ''u1'' = Some r' \<and> u_walletAddress r' = Some ''0xab'' \<and>
    coin AKV r' - coin AKV (sample_user (Some ''0xab'') 20000) =
      total_credited AKV ''L'' ''0xab'' d' - total_credited AKV ''L'' ''0xab'' coins_db"
proof -
  obtain res d' where r: "checkCurrencyTransfers ''L'' ''U'' coins_db = (res, d')" by fastforce
  have un: "wallets_unique coins_db"
    by (auto simp: wallets_unique_def coins_db_def sample_db_def sample_user_def split: if_splits)
  have u: "map_of (t_users coins_db) ''u1'' = Some (sample_user (Some ''0xab'') 20000)"
    by (simp add: coins_db_users sample_db_def)
  have w: "u_walletAddress (sample_user (Some ''0xab'') 20000) = Some ''0xab''" by (simp add: sample_user_def)
  from deposits_credited_once [OF r coins_db_keys un u w, of AKV] r show ?thesis by blast
qed

theorem currency_transfers_decided_witness:
  "\<exists>d'. checkCurrencyTransfers ''L'' ''U'' coins_db = (Inr (), d') \<and>
    map_of (t_currencyTransfers d') ''k1'' = Some ((coin_row ''0xab'')\<lparr>ctf_state := T_CONFIRMED\<rparr>) \<and>
    map_of (t_currencyTransfers d') ''k2'' = Some ((coin_row ''0xcd'')\<lparr>ctf_state := T_FROZEN\<rparr>)"
proof -
  have ok: "db_ok coins_db"
    by (simp add: coins_db_def db_ok_def sample_defs user_tab.all_ok_def gameCenter_tab.all_ok_def
        arcadeMachine_tab.all_ok_def junk_tab.all_ok_def extractJunkInventory_tab.all_ok_def user_ok_def
        game_center_ok_def arcade_machine_ok_def)
  have us: "distinct (map fst (t_users coins_db))" by (simp add: coins_db_users sample_db_def)
  have ix: "currencyTransfer_index.indexed coins_db"
    by (auto simp: currencyTransfer_index.indexed_def coins_db_def coin_row_def currency_transfer_key_def split: if_splits)
  have pos: "\<forall>(k, t) \<in> set (t_currencyTransfers coins_db). 0 \<le> ctf_amount t"
    by (simp add: coins_db_def coin_row_def)
  have dc: "decided_currencies coins_db = [(''k1'', coin_row ''0xab'', BLOCK_CONFIRMED), (''k2'', coin_row ''0xcd'', BLOCK_CONFIRMED)]"
    by (simp add: decided_currencies_def coins_db_def coin_row_def)
  have st: "decided_state ''L'' coins_db (coin_row ''0xab'') BLOCK_CONFIRMED = T_CONFIRMED"
    "decided_state ''L'' coins_db (coin_row ''0xcd'') BLOCK_CONFIRMED = T_FROZEN"
    by (simp_all add: decided_state_def user_by_wallet_def toLowerCase_def coins_db_users sample_db_def sample_user_def coin_row_def is_deposit_def)
  from currency_transfers_decided [OF ok us ix pos, of "''L''" "''U''"] show ?thesis
    unfolding dc by (auto simp: st)
qed

end
