(* ===== verification/Watcher.thy ===== *)
theory Watcher
  imports Tables Js_Values "HOL-Library.List_Lexorder" "HOL-Library.Char_ord"
begin

text \<open>
  The Watcher, \<open>src/apps/watcher/watcher.ts\<close>, which records what happens on the chain, with the two
  searches for gaps of \<open>src/helpers/blockchain.ts\<close>.  The provider answers with a block for a number
  or a hash and with the logs of a contract between two blocks; its answers are parameters.  Looking up
  several blocks at a time is modelled in the order of the targets.  \<open>newId\<close> is the id that the
  database generates.
\<close>

section \<open>Gaps in the recorded blocks\<close>

definition block_numbers :: "db \<Rightarrow> int list" where
  "block_numbers d = map (\<lambda>(_, b). bl_number b) (t_blocks d)"

text \<open>\<open>sort\<close> without a comparator compares the decimal texts of the numbers.\<close>

definition sort_as_text :: "int list \<Rightarrow> int list" where
  "sort_as_text = sort_key (\<lambda>n. nat_string (nat n))"

text \<open>\<open>lastMissingFirstNumber\<close> is 0 as long as it is undefined; both are false for the conditional.\<close>

definition findMissingBlockNumbers :: "int \<Rightarrow> db \<Rightarrow> int list \<times> int" where
  "findMissingBlockNumbers lastMissingFirstNumber d =
     (if t_blocks d = [] then ([], lastMissingFirstNumber)
      else
        let latest = Max (set (block_numbers d));
            first = Min (set (block_numbers d));
            missingFirstNumber = (if lastMissingFirstNumber \<noteq> 0 then lastMissingFirstNumber else first);
            missing = take 1000 (filter (\<lambda>i. i \<notin> set (block_numbers d)) [missingFirstNumber..latest])
        in (sort_as_text missing, if missing \<noteq> [] then hd missing else latest))"

fun add_to_set :: "'a list \<Rightarrow> 'a list \<Rightarrow> 'a list" where
  "add_to_set s [] = s"
| "add_to_set s (x # xs) = add_to_set (if x \<in> set s then s else s @ [x]) xs"

definition findMissingBlockHashes :: "db \<Rightarrow> string list" where
  "findMissingBlockHashes d =
     add_to_set [] (map (\<lambda>(_, b). bl_parentHash b) (take 1000 (filter (\<lambda>(_, b).
       bl_parentHash b \<notin> fst ` set (t_blocks d) \<and> bl_state b = BLOCK_CONFIRMED \<and>
       list_ex (\<lambda>(_, p). bl_state p = BLOCK_PENDING \<and> bl_number b = bl_number p + 1) (t_blocks d))
       (t_blocks d))))"

section \<open>Blocks\<close>

datatype block_target = ByNumber int | ByHash string

record chain_block =
  cb_number :: int
  cb_hash :: string
  cb_parentHash :: string

definition lookupAndSaveBlock ::
  "(block_target \<Rightarrow> chain_block option res) \<Rightarrow> BlockScanState \<Rightarrow> block_target \<Rightarrow> db \<Rightarrow> db res" where
  "lookupAndSaveBlock getBlock scanState target d =
     (case getBlock target of
        Inl e \<Rightarrow> Inl e
      | Inr None \<Rightarrow> Inl (JsTypeError)
      | Inr (Some b) \<Rightarrow>
          create_block (cb_hash b)
            \<lparr>bl_number = cb_number b, bl_parentHash = cb_parentHash b, bl_state = BLOCK_PENDING,
             bl_scanState = scanState\<rparr> d)"

text \<open>An exception of one lookup is only logged.\<close>

fun lookup_all :: "(block_target \<Rightarrow> chain_block option res) \<Rightarrow> block_target list \<Rightarrow> db \<Rightarrow> db" where
  "lookup_all getBlock [] d = d"
| "lookup_all getBlock (target # targets) d =
     lookup_all getBlock targets
       (case lookupAndSaveBlock getBlock MISSED target d of Inl e \<Rightarrow> d | Inr d' \<Rightarrow> d')"

definition getMissingBlocks ::
  "(block_target \<Rightarrow> chain_block option res) \<Rightarrow> int \<Rightarrow> db \<Rightarrow> (bool \<times> int) \<times> db" where
  "getMissingBlocks getBlock lastMissingFirstNumber d =
     (case findMissingBlockNumbers lastMissingFirstNumber d of (missingNumbers, next_first) \<Rightarrow>
        let targets = map ByNumber missingNumbers @ map ByHash (findMissingBlockHashes d)
        in ((targets \<noteq> [], next_first), lookup_all getBlock targets d))"

section \<open>Logs\<close>

record transfer_log =
  lg_blockHash :: string
  lg_blockNumber :: int
  lg_transactionIndex :: int
  lg_transactionHash :: string
  lg_from :: wallet
  lg_to :: wallet
  lg_value :: nat

definition duplicate_ok :: "db res \<Rightarrow> db \<Rightarrow> db res" where
  "duplicate_ok r d = (case r of
       Inl e \<Rightarrow> if e = PrismaKnownRequestError ''P2002'' then Inr d else Inl e
     | Inr d' \<Rightarrow> Inr d')"

definition nft_transfer_of :: "NftType \<Rightarrow> transfer_log \<Rightarrow> transfer_row" where
  "nft_transfer_of nftType entry =
     \<lparr>tf_blockNumber = lg_blockNumber entry, tf_blockHash = lg_blockHash entry,
      tf_transactionIndex = lg_transactionIndex entry, tf_transactionHash = lg_transactionHash entry,
      tf_state = T_PENDING, tf_nftType = nftType, tf_from = lg_from entry, tf_to = lg_to entry,
      tf_tokenId = nat_string (lg_value entry)\<rparr>"

definition saveLog :: "(db \<Rightarrow> string) \<Rightarrow> NftType \<Rightarrow> transfer_log \<Rightarrow> db \<Rightarrow> db res" where
  "saveLog newId nftType entry d =
     duplicate_ok (create_transfer (newId d) (nft_transfer_of nftType entry) d) d"

definition currency_transfer_of :: "CurrencyType \<Rightarrow> transfer_log \<Rightarrow> currency_transfer_row" where
  "currency_transfer_of currencyType entry =
     \<lparr>ctf_blockNumber = lg_blockNumber entry, ctf_blockHash = lg_blockHash entry,
      ctf_transactionIndex = lg_transactionIndex entry, ctf_transactionHash = lg_transactionHash entry,
      ctf_state = T_PENDING, ctf_currencyType = currencyType, ctf_from = lg_from entry, ctf_to = lg_to entry,
      ctf_amount = int (lg_value entry)\<rparr>"

definition saveCurrencyLog :: "(db \<Rightarrow> string) \<Rightarrow> CurrencyType \<Rightarrow> transfer_log \<Rightarrow> db \<Rightarrow> db res" where
  "saveCurrencyLog newId currencyType entry d =
     duplicate_ok (create_currencyTransfer (newId d) (currency_transfer_of currencyType entry) d) d"

section \<open>Missed transfers\<close>

definition MISSED_BLOCK_SEARCH_WINDOW_LOWER :: int where
  "MISSED_BLOCK_SEARCH_WINDOW_LOWER = 50"
definition MISSED_BLOCK_SEARCH_WINDOW_UPPER :: int where
  "MISSED_BLOCK_SEARCH_WINDOW_UPPER = 500"
definition SCANNED_BLOCK_SPACING :: int where
  "SCANNED_BLOCK_SPACING = 40"

text \<open>
  The loops over the contracts and over their logs.  An exception ends both; what was saved before it
  stays.
\<close>

fun save_logs :: "(transfer_log \<Rightarrow> db \<Rightarrow> db res) \<Rightarrow> transfer_log list \<Rightarrow> db \<Rightarrow> unit res \<times> db" where
  "save_logs save [] d = (Inr (), d)"
| "save_logs save (entry # logs) d =
     (case save entry d of Inl e \<Rightarrow> (Inl e, d) | Inr d' \<Rightarrow> save_logs save logs d')"

definition address_of :: "('t \<times> string option) list \<Rightarrow> 't \<Rightarrow> string option" where
  "address_of addresses t = (case map_of addresses t of None \<Rightarrow> None | Some a \<Rightarrow> a)"

definition missing_address :: "string option \<Rightarrow> bool" where
  "missing_address address = (case address of None \<Rightarrow> True | Some a \<Rightarrow> a \<noteq> [] \<and> hd a = CHR ''x'')"

fun save_contracts ::
  "('t \<Rightarrow> string option) \<Rightarrow> ('t \<Rightarrow> transfer_log list res) \<Rightarrow> ('t \<Rightarrow> transfer_log \<Rightarrow> db \<Rightarrow> db res) \<Rightarrow>
   't list \<Rightarrow> db \<Rightarrow> unit res \<times> db" where
  "save_contracts address getLogs save [] d = (Inr (), d)"
| "save_contracts address getLogs save (t # ts) d =
     (if missing_address (address t) then (Inl (JsError ''Missing contract address!''), d)
      else (case getLogs t of Inl e \<Rightarrow> (Inl e, d) | Inr logs \<Rightarrow>
            case save_logs (save t) logs d of
              (Inl e, d') \<Rightarrow> (Inl e, d')
            | (Inr _, d') \<Rightarrow> save_contracts address getLogs save ts d'))"

record watcher =
  nftAddresses :: "(NftType \<times> string option) list"
  ftAddresses :: "(CurrencyType \<times> string option) list"

record provider =
  pv_getBlock :: "block_target \<Rightarrow> chain_block option res"
  pv_nftLogs :: "NftType \<Rightarrow> int \<Rightarrow> int \<Rightarrow> transfer_log list res"
  pv_currencyLogs :: "CurrencyType \<Rightarrow> int \<Rightarrow> int \<Rightarrow> transfer_log list res"

definition mark_scanned :: "int \<Rightarrow> query" where
  "mark_scanned n = update_blocks
     (\<lambda>_ b. n - SCANNED_BLOCK_SPACING \<le> bl_number b \<and> bl_number b \<le> n + SCANNED_BLOCK_SPACING \<and>
            bl_scanState b = MISSED)
     (\<lambda>b. b\<lparr>bl_scanState := SCANNED\<rparr>)"

definition getMissingTransfers :: "provider \<Rightarrow> watcher \<Rightarrow> (db \<Rightarrow> string) \<Rightarrow> db \<Rightarrow> bool res \<times> db" where
  "getMissingTransfers p w newId d =
     (case find (\<lambda>(_, b). bl_scanState b = MISSED) (t_blocks d) of
        None \<Rightarrow> (Inr False, d)
      | Some (_, b) \<Rightarrow>
          let n = bl_number b;
              fromBlock = n - MISSED_BLOCK_SEARCH_WINDOW_LOWER;
              toBlock = n + MISSED_BLOCK_SEARCH_WINDOW_UPPER
          in
          (case save_contracts (address_of (nftAddresses w)) (\<lambda>t. pv_nftLogs p t fromBlock toBlock)
                  (saveLog newId) (map fst (nftAddresses w)) d of
             (Inl e, d1) \<Rightarrow> (Inl e, d1)
           | (Inr _, d1) \<Rightarrow>
               (case save_contracts (address_of (ftAddresses w)) (\<lambda>t. pv_currencyLogs p t fromBlock toBlock)
                       (saveCurrencyLog newId) (map fst (ftAddresses w)) d1 of
                  (Inl e, d2) \<Rightarrow> (Inl e, d2)
                | (Inr _, d2) \<Rightarrow>
                    (case mark_scanned n d2 of Inl e \<Rightarrow> (Inl e, d2) | Inr d3 \<Rightarrow> (Inr True, d3)))))"

text \<open>One round of \<open>checkForMissingData\<close>: what was found, the number to start from next, and the database.\<close>

definition missing_data_round ::
  "provider \<Rightarrow> watcher \<Rightarrow> (db \<Rightarrow> string) \<Rightarrow> int \<Rightarrow> db \<Rightarrow> (bool \<times> bool) res \<times> int \<times> db" where
  "missing_data_round p w newId lastMissingFirstNumber d =
     (case getMissingBlocks (pv_getBlock p) lastMissingFirstNumber d of ((foundBlocks, next_first), d1) \<Rightarrow>
        (case getMissingTransfers p w newId d1 of
           (Inl e, d2) \<Rightarrow> (Inl e, next_first, d2)
         | (Inr foundTransfers, d2) \<Rightarrow> (Inr (foundBlocks, foundTransfers), next_first, d2)))"

end
