(* ===== verification/Watcher_Props.thy ===== *)
theory Watcher_Props
  imports Watcher Sample
begin

text \<open>
  What the Watcher records: every transfer whose block, place, wallets and token differ from those of
  the others exactly once, whatever is reported again; and which transfers are lost because they agree in
  these.  The search for gaps finds every number that is missing.
\<close>

section \<open>Logs\<close>

definition fresh_ids :: "(db \<Rightarrow> string) \<Rightarrow> bool" where
  "fresh_ids newId \<longleftrightarrow> (\<forall>d. newId d \<notin> fst ` set (t_transfers d))"

definition recorded :: "NftType \<Rightarrow> transfer_log \<Rightarrow> db \<Rightarrow> bool" where
  "recorded ty entry d \<longleftrightarrow>
     (\<exists>k r. (k, r) \<in> set (t_transfers d) \<and> transfer_key r = transfer_key (nft_transfer_of ty entry))"

lemma transfer_key_Some: "transfer_key r = transfer_key r' \<longleftrightarrow> tf_blockHash r = tf_blockHash r' \<and>
    tf_transactionIndex r = tf_transactionIndex r' \<and> tf_from r = tf_from r' \<and> tf_to r = tf_to r' \<and>
    tf_tokenId r = tf_tokenId r'"
  by (auto simp: transfer_key_def)

lemma create_result:
  assumes "fresh_ids newId"
  shows "create_transfer (newId d) (nft_transfer_of ty entry) d =
    (if recorded ty entry d then Inl (PrismaKnownRequestError ''P2002'')
     else Inr (put_transfers (t_transfers d @ [(newId d, nft_transfer_of ty entry)]) d))"
proof -
  let ?r = "nft_transfer_of ty entry" and ?k = "newId d"
  have k: "?k \<notin> fst ` set (t_transfers d)" using assms by (simp add: fresh_ids_def)
  then have new: "map_of (t_transfers d) ?k = None" by (simp add: map_of_eq_None_iff)
  have "collides transfer_key ?k ?r (t_transfers d @ [(?k, ?r)]) \<longleftrightarrow> recorded ty entry d"
  proof
    assume "collides transfer_key ?k ?r (t_transfers d @ [(?k, ?r)])"
    then obtain k' r' where "(k', r') \<in> set (t_transfers d)" "transfer_key r' = transfer_key ?r"
      by (auto simp: collides_def list_ex_iff)
    then show "recorded ty entry d" unfolding recorded_def by blast
  next
    assume "recorded ty entry d"
    then obtain k' r' where r': "(k', r') \<in> set (t_transfers d)" "transfer_key r' = transfer_key ?r"
      unfolding recorded_def by blast
    with k have "k' \<noteq> ?k" by force
    with r' show "collides transfer_key ?k ?r (t_transfers d @ [(?k, ?r)])"
      by (auto simp: collides_def list_ex_iff transfer_key_def intro!: bexI [where x = "(k', r')"])
  qed
  then show ?thesis using new by (auto simp: create_row_def check_transfer_def)
qed

lemma saveLog_result:
  "fresh_ids newId \<Longrightarrow> saveLog newId ty entry d =
    Inr (if recorded ty entry d then d
         else put_transfers (t_transfers d @ [(newId d, nft_transfer_of ty entry)]) d)"
  by (simp add: saveLog_def duplicate_ok_def create_result)

text \<open>What a list of logs leaves: new pending rows behind the old ones, one for each key that was not there.\<close>

definition grown :: "db \<Rightarrow> db \<Rightarrow> bool" where
  "grown d d' \<longleftrightarrow> (\<exists>new. d' = put_transfers (t_transfers d @ new) d \<and> (\<forall>(k, r) \<in> set new. tf_state r = T_PENDING))"

lemma grown_refl [simp]: "grown d d"
  unfolding grown_def by (rule exI [where x = "[]"]) (simp add: put_defs)

lemma grown_trans: "grown d d1 \<Longrightarrow> grown d1 d2 \<Longrightarrow> grown d d2"
  unfolding grown_def
proof (elim exE conjE)
  fix n1 n2 assume "d1 = put_transfers (t_transfers d @ n1) d" "d2 = put_transfers (t_transfers d1 @ n2) d1"
    "\<forall>(k, r) \<in> set n1. tf_state r = T_PENDING" "\<forall>(k, r) \<in> set n2. tf_state r = T_PENDING"
  then show "\<exists>new. d2 = put_transfers (t_transfers d @ new) d \<and> (\<forall>(k, r) \<in> set new. tf_state r = T_PENDING)"
    by (intro exI [where x = "n1 @ n2"]) (auto simp: put_defs)
qed

lemma grown_recorded: "grown d d' \<Longrightarrow> recorded ty entry d \<Longrightarrow> recorded ty entry d'"
  unfolding grown_def recorded_def put_defs by force

lemma saveLog_grows:
  assumes "fresh_ids newId" and "transfer_index.indexed d"
  shows "\<exists>d'. saveLog newId ty entry d = Inr d' \<and> grown d d' \<and> recorded ty entry d' \<and> transfer_index.indexed d'"
proof (cases "recorded ty entry d")
  case True
  with assms show ?thesis by (simp add: saveLog_result)
next
  case False
  let ?d = "put_transfers (t_transfers d @ [(newId d, nft_transfer_of ty entry)]) d"
  have r: "saveLog newId ty entry d = Inr ?d" using False by (simp add: saveLog_result [OF assms(1)])
  have "create_transfer (newId d) (nft_transfer_of ty entry) d = Inr ?d"
    using False by (simp add: create_result [OF assms(1)])
  then have "transfer_index.indexed ?d" using preservesD [OF transfer_index.create_indexed assms(2)] by blast
  with r show ?thesis by (auto simp: grown_def put_defs recorded_def nft_transfer_of_def)
qed

lemma save_logs_grow:
  assumes "fresh_ids newId"
  shows "transfer_index.indexed d \<Longrightarrow> \<exists>d'. save_logs (saveLog newId ty) logs d = (Inr (), d') \<and> grown d d' \<and>
    (\<forall>entry \<in> set logs. recorded ty entry d') \<and> transfer_index.indexed d'"
proof (induction logs arbitrary: d)
  case (Cons entry logs)
  from saveLog_grows [OF assms Cons.prems] obtain d1 where
    d1: "saveLog newId ty entry d = Inr d1" "grown d d1" "recorded ty entry d1" "transfer_index.indexed d1" by blast
  from Cons.IH [OF d1(4)] obtain d' where
    d': "save_logs (saveLog newId ty) logs d1 = (Inr (), d')" "grown d1 d'" "\<forall>entry \<in> set logs. recorded ty entry d'"
    "transfer_index.indexed d'" by blast
  have "grown d d'" "recorded ty entry d'"
    using grown_trans [OF d1(2) d'(2)] grown_recorded [OF d'(2) d1(3)] by blast+
  moreover have "save_logs (saveLog newId ty) (entry # logs) d = (Inr (), d')" using d1(1) d'(1) by simp
  ultimately show ?case using d'(3,4) unfolding list.set by blast
qed simp

lemma save_logs_known:
  "fresh_ids newId \<Longrightarrow> \<forall>entry \<in> set logs. recorded ty entry d \<Longrightarrow> save_logs (saveLog newId ty) logs d = (Inr (), d)"
  by (induction logs) (simp_all add: saveLog_result)

text \<open>
  (C14) However often and in whatever order logs are reported, saving them never fails, keeps all that was
  recorded, adds pending transfers only, and leaves exactly one transfer for each combination of block,
  index, wallets and token; saving any of them again changes nothing.
\<close>

theorem logs_saved_once:
  assumes "fresh_ids newId" and "transfer_index.indexed d" and "set again \<subseteq> set logs"
  shows "\<exists>d' new. save_logs (saveLog newId ty) logs d = (Inr (), d') \<and>
    d' = put_transfers (t_transfers d @ new) d \<and> (\<forall>(k, r) \<in> set new. tf_state r = T_PENDING) \<and>
    (\<forall>entry \<in> set logs. \<exists>!k. \<exists>r. map_of (t_transfers d') k = Some r \<and> tf_blockHash r = lg_blockHash entry \<and>
       tf_transactionIndex r = lg_transactionIndex entry \<and> tf_from r = lg_from entry \<and> tf_to r = lg_to entry \<and>
       tf_tokenId r = nat_string (lg_value entry)) \<and>
    save_logs (saveLog newId ty) again d' = (Inr (), d')"
proof -
  from save_logs_grow [OF assms(1,2)] obtain d' where
    d': "save_logs (saveLog newId ty) logs d = (Inr (), d')" "grown d d'"
    "\<forall>entry \<in> set logs. recorded ty entry d'" "transfer_index.indexed d'" by blast
  have ix: "distinct (map fst (t_transfers d'))" using d'(4) by (simp add: transfer_index.indexed_def)
  have one: "\<exists>!k. \<exists>r. map_of (t_transfers d') k = Some r \<and> tf_blockHash r = lg_blockHash entry \<and>
       tf_transactionIndex r = lg_transactionIndex entry \<and> tf_from r = lg_from entry \<and> tf_to r = lg_to entry \<and>
       tf_tokenId r = nat_string (lg_value entry)" if "entry \<in> set logs" for entry
  proof -
    from d'(3) that obtain k r where r: "(k, r) \<in> set (t_transfers d')"
      "transfer_key r = transfer_key (nft_transfer_of ty entry)" unfolding recorded_def by blast
    then have found: "map_of (t_transfers d') k = Some r" using ix by simp
    have "k' = k" if "map_of (t_transfers d') k' = Some r'" "transfer_key r' = transfer_key r" for k' r'
      using transfer_index.indexed_eq [OF d'(4) that(1) found] that(2) by (simp add: transfer_key_def)
    then have same: "k' = k" if "map_of (t_transfers d') k' = Some r'" "tf_blockHash r' = lg_blockHash entry"
      "tf_transactionIndex r' = lg_transactionIndex entry" "tf_from r' = lg_from entry" "tf_to r' = lg_to entry"
      "tf_tokenId r' = nat_string (lg_value entry)" for k' r'
      using that r(2) unfolding transfer_key_Some nft_transfer_of_def transfer_row.simps by metis
    have "tf_blockHash r = lg_blockHash entry" "tf_transactionIndex r = lg_transactionIndex entry"
      "tf_from r = lg_from entry" "tf_to r = lg_to entry" "tf_tokenId r = nat_string (lg_value entry)"
      using r(2) unfolding transfer_key_Some nft_transfer_of_def transfer_row.simps by blast+
    note fields = this
    show ?thesis
    proof (rule ex1I [where a = k])
      show "\<exists>r. map_of (t_transfers d') k = Some r \<and> tf_blockHash r = lg_blockHash entry \<and>
         tf_transactionIndex r = lg_transactionIndex entry \<and> tf_from r = lg_from entry \<and> tf_to r = lg_to entry \<and>
         tf_tokenId r = nat_string (lg_value entry)" using found fields by blast
    qed (use same in blast)
  qed
  have "save_logs (saveLog newId ty) again d' = (Inr (), d')"
    by (rule save_logs_known [OF assms(1)]) (use assms(3) d'(3) in blast)
  note again = this
  from d'(2) obtain new where new: "d' = put_transfers (t_transfers d @ new) d"
    "\<forall>(k, r) \<in> set new. tf_state r = T_PENDING"
    unfolding grown_def by blast
  show ?thesis
    by (rule exI [where x = d'], rule exI [where x = new], intro conjI, rule d'(1), rule new(1), rule new(2))
      (rule ballI, erule one, rule again)
qed

text \<open>
  The kind of the token is not part of what makes a transfer distinct: when a machine and a part with
  the same token number go from one wallet to another in one transaction, only the first of the two
  transfers is recorded.
\<close>

lemma same_token_number_lost:
  assumes "fresh_ids newId" and "saveLog newId ty entry d = Inr d1"
    and "lg_blockHash entry' = lg_blockHash entry" and "lg_transactionIndex entry' = lg_transactionIndex entry"
    and "lg_from entry' = lg_from entry" and "lg_to entry' = lg_to entry" and "lg_value entry' = lg_value entry"
  shows "saveLog newId ty' entry' d1 = Inr d1"
proof -
  have "transfer_key (nft_transfer_of ty' entry') = transfer_key (nft_transfer_of ty entry)"
    using assms(3-7) by (simp add: transfer_key_Some nft_transfer_of_def)
  moreover have "recorded ty entry d1"
  proof (cases "recorded ty entry d")
    case True
    with assms(2) show ?thesis by (simp add: saveLog_result [OF assms(1)])
  next
    case False
    with assms(2) have "d1 = put_transfers (t_transfers d @ [(newId d, nft_transfer_of ty entry)]) d"
      by (simp add: saveLog_result [OF assms(1)])
    then have "(newId d, nft_transfer_of ty entry) \<in> set (t_transfers d1)" by (simp add: put_defs)
    then show ?thesis unfolding recorded_def by blast
  qed
  ultimately have "recorded ty' entry' d1" by (simp add: recorded_def)
  then show ?thesis by (simp add: saveLog_result [OF assms(1)])
qed

section \<open>Gaps\<close>

lemma set_sort_as_text [simp]: "set (sort_as_text xs) = set xs"
  by (simp add: sort_as_text_def)

definition gapless :: "db \<Rightarrow> int \<Rightarrow> bool" where
  "gapless d n \<longleftrightarrow> (\<forall>i. Min (set (block_numbers d)) \<le> i \<and> i < n \<longrightarrow> i \<in> set (block_numbers d))"

text \<open>
  The search for gaps finds them all: it returns only numbers that are missing, among them the lowest
  one if there is any, and remembers a number below which nothing is missing, so that the next search can
  start there; when it returns nothing, every number up to the latest block is recorded.
\<close>

lemma gaps_found:
  assumes "t_blocks d \<noteq> []" and "start_at \<noteq> 0 \<longrightarrow> gapless d start_at" and "findMissingBlockNumbers start_at d = (missing, next_first)"
  shows "(\<forall>n \<in> set missing. n \<notin> set (block_numbers d)) \<and> gapless d next_first \<and>
    (missing = [] \<longrightarrow> gapless d (Max (set (block_numbers d)) + 1)) \<and>
    (missing \<noteq> [] \<longrightarrow> next_first \<in> set missing)"
proof -
  define N lo hi where "N = set (block_numbers d)" and "lo = Min N" and "hi = Max N"
  define begin0 where "begin0 = (if start_at \<noteq> 0 then start_at else lo)"
  define gaps where "gaps = filter (\<lambda>i. i \<notin> N) [begin0..hi]"
  have gapless: "gapless d n \<longleftrightarrow> (\<forall>i. lo \<le> i \<and> i < n \<longrightarrow> i \<in> N)" for n
    by (simp add: gapless_def N_def lo_def)
  from assms(3,1) have m: "missing = sort_as_text (take 1000 gaps)"
    and l: "next_first = (if take 1000 gaps \<noteq> [] then hd (take 1000 gaps) else hi)"
    unfolding findMissingBlockNumbers_def Let_def gaps_def N_def lo_def hi_def begin0_def by auto
  have start: "gapless d begin0" using assms(2) unfolding gapless begin0_def by (cases "start_at = 0") auto
  have mm: "missing = [] \<longleftrightarrow> gaps = []"
    unfolding m using set_sort_as_text [of "take 1000 gaps"] by (metis set_empty take_eq_Nil zero_neq_numeral)
  show ?thesis
    unfolding N_def [symmetric] hi_def [symmetric]
  proof (cases "gaps = []")
    case True
    have "i \<in> N" if "lo \<le> i" "i < hi + 1" for i
    proof (cases "i < begin0")
      case True
      with start that show ?thesis by (simp add: gapless)
    next
      case False
      with that have "i \<in> set [begin0..hi]" by simp
      with True show ?thesis unfolding gaps_def filter_empty_conv by blast
    qed
    then show "(\<forall>n \<in> set missing. n \<notin> N) \<and> gapless d next_first \<and> (missing = [] \<longrightarrow> gapless d (hi + 1)) \<and>
        (missing \<noteq> [] \<longrightarrow> next_first \<in> set missing)"
      using True mm l unfolding gapless by simp
  next
    case False
    then obtain g gs where g: "gaps = g # gs" by (cases gaps) auto
    then have lg: "next_first = g" by (simp add: l)
    have "sorted gaps" unfolding gaps_def by (intro sorted_wrt_filter) simp
    then have min: "\<forall>i \<in> set gs. g \<le> i" by (simp add: g)
    have gm: "g \<in> set missing" by (simp add: m g)
    have "i \<in> N" if i: "lo \<le> i" "i < g" for i
    proof (rule ccontr)
      assume n: "i \<notin> N"
      with start i have "begin0 \<le> i" unfolding gapless by (metis not_less)
      moreover have "g \<in> set gaps" by (simp add: g)
      then have "g \<le> hi" unfolding gaps_def by simp
      ultimately have "i \<in> set gaps" using n i(2) unfolding gaps_def by simp
      with min i(2) show False by (auto simp: g)
    qed
    moreover have "\<forall>n \<in> set missing. n \<notin> N" unfolding m set_sort_as_text gaps_def by (auto dest: in_set_takeD)
    ultimately show "(\<forall>n \<in> set missing. n \<notin> N) \<and> gapless d next_first \<and> (missing = [] \<longrightarrow> gapless d (hi + 1)) \<and>
        (missing \<noteq> [] \<longrightarrow> next_first \<in> set missing)"
      using lg gm mm False unfolding gapless by simp
  qed
qed

section \<open>On small databases\<close>

definition new_id :: "db \<Rightarrow> string" where
  "new_id d = concat (map fst (t_transfers d)) @ ''+''"

lemma new_id_fresh: "fresh_ids new_id"
proof -
  have "length k \<le> length (concat (map fst ts))" if "k \<in> fst ` set ts" for k and ts :: "(string, transfer_row) table"
    using that
  proof (induction ts)
    case (Cons t ts)
    then consider "k = fst t" | "k \<in> fst ` set ts" by auto
    then show ?case by cases (simp_all add: Cons.IH trans_le_add2)
  qed simp
  then have "length (new_id d) \<le> length (concat (map fst (t_transfers d)))" if "new_id d \<in> fst ` set (t_transfers d)" for d
    using that by blast
  then show ?thesis unfolding fresh_ids_def new_id_def by fastforce
qed

definition sample_log :: transfer_log where
  "sample_log = \<lparr>lg_blockHash = ''y'', lg_blockNumber = 10, lg_transactionIndex = 0, lg_transactionHash = ''h'',
     lg_from = ''A'', lg_to = ''B'', lg_value = 5\<rparr>"

lemma sample_indexed: "transfer_index.indexed sample_db"
  by (simp add: transfer_index.indexed_def sample_db_def)

theorem logs_saved_once_witness:
  "\<exists>d' k r. save_logs (saveLog new_id ARCADE_PART) [sample_log, sample_log] sample_db = (Inr (), d') \<and>
    map_of (t_transfers d') k = Some r \<and> tf_tokenId r = nat_string 5 \<and>
    save_logs (saveLog new_id ARCADE_PART) [sample_log] d' = (Inr (), d')"
proof -
  have "set [sample_log] \<subseteq> set [sample_log, sample_log]" by simp
  from logs_saved_once [OF new_id_fresh sample_indexed this, of ARCADE_PART] obtain d' where
    d': "save_logs (saveLog new_id ARCADE_PART) [sample_log, sample_log] sample_db = (Inr (), d')"
    "\<forall>entry \<in> set [sample_log, sample_log]. \<exists>!k. \<exists>r. map_of (t_transfers d') k = Some r \<and>
       tf_blockHash r = lg_blockHash entry \<and> tf_transactionIndex r = lg_transactionIndex entry \<and>
       tf_from r = lg_from entry \<and> tf_to r = lg_to entry \<and> tf_tokenId r = nat_string (lg_value entry)"
    "save_logs (saveLog new_id ARCADE_PART) [sample_log] d' = (Inr (), d')" by blast
  from d'(2) have "\<exists>k r. map_of (t_transfers d') k = Some r \<and> tf_tokenId r = nat_string (lg_value sample_log)"
    unfolding list.set by blast
  moreover have "lg_value sample_log = 5" by (simp add: sample_log_def)
  ultimately show ?thesis using d'(1,3) by auto
qed

lemma same_token_number_lost_witness:
  "\<exists>d1. saveLog new_id ARCADE_MACHINE sample_log sample_db = Inr d1 \<and> saveLog new_id ARCADE_PART sample_log d1 = Inr d1"
proof -
  obtain d1 where d1: "saveLog new_id ARCADE_MACHINE sample_log sample_db = Inr d1"
    using saveLog_grows [OF new_id_fresh sample_indexed] by blast
  with same_token_number_lost [OF new_id_fresh d1 refl refl refl refl refl] show ?thesis by blast
qed

definition gap_db :: db where
  "gap_db = sample_db\<lparr>t_blocks :=
     [(''b1'', \<lparr>bl_number = 1, bl_parentHash = ''b0'', bl_state = BLOCK_PENDING, bl_scanState = WATCHED\<rparr>),
      (''b4'', \<lparr>bl_number = 4, bl_parentHash = ''b3'', bl_state = BLOCK_PENDING, bl_scanState = WATCHED\<rparr>)]\<rparr>"

lemma gaps_found_witness:
  "\<exists>missing next_first. findMissingBlockNumbers 0 gap_db = (missing, next_first) \<and> gapless gap_db next_first \<and>
     (\<forall>n \<in> set missing. n \<notin> set (block_numbers gap_db))"
proof -
  obtain missing next_first where f: "findMissingBlockNumbers 0 gap_db = (missing, next_first)" by fastforce
  have "t_blocks gap_db \<noteq> []" by (simp add: gap_db_def)
  from gaps_found [OF this _ f] f show ?thesis by auto
qed

end
