(* ===== verification/Executor.thy ===== *)
theory Executor
  imports Confirmer_Transfers Fee
begin

text \<open>
  The Executor, \<open>src/helpers/executor.ts\<close> and \<open>src/helpers/executor/\<close>, which sends the blockchain
  transactions of the recorded withdrawals.  The chain is a parameter: for the number of the attempt and
  the call it says whether a transaction was sent and, if so, its hash and how waiting for it ended (an
  exception while the gas price is read or the call is signed is an attempt that sends nothing).  The
  state is the database, the transactions sent so far and the number of attempts.
\<close>

datatype chain_call =
    WithdrawNftCall NftType wallet nft_id
  | MintCall NftType wallet nft_id
  | WithdrawCurrencyCall CurrencyType wallet decimal

datatype waiting = Receipt bool | WaitFailed

datatype attempt = NotSent | Sent string waiting

record world =
  w_db :: db
  w_sent :: "chain_call list"
  w_attempts :: nat

type_synonym chain = "nat \<Rightarrow> chain_call \<Rightarrow> attempt"

definition on_db :: "(db \<Rightarrow> db) \<Rightarrow> world \<Rightarrow> world" where
  "on_db f w = w\<lparr>w_db := f (w_db w)\<rparr>"

text \<open>Sending a transaction and waiting for its block: the hash of a transaction that succeeded.\<close>

definition send_and_wait :: "chain \<Rightarrow> chain_call \<Rightarrow> world \<Rightarrow> string res \<times> world" where
  "send_and_wait chain c w =
     (case chain (w_attempts w) c of
        NotSent \<Rightarrow> (Inl (JsError ''not sent''), w\<lparr>w_attempts := w_attempts w + 1\<rparr>)
      | Sent hash waited \<Rightarrow>
          (case waited of Receipt True \<Rightarrow> Inr hash | Receipt False \<Rightarrow> Inl (JsError ''withdraw failed'')
             | WaitFailed \<Rightarrow> Inl (JsError ''wait failed''),
           w\<lparr>w_sent := w_sent w @ [c], w_attempts := w_attempts w + 1\<rparr>))"

section \<open>Withdrawals of items\<close>

definition checkWalletAddress :: "db \<Rightarrow> nft \<Rightarrow> owner option \<Rightarrow> unit res" where
  "checkWalletAddress d t user =
     (if \<not> truthy (nft_ownerWallet t)
      then Inl (JsError ''Cannot withdraw token without ownerWalletAddress.'')
      else
        (case user of
           Some (_, walletAddress) \<Rightarrow>
             if \<not> isWalletAddressEqual walletAddress (nft_ownerWallet t)
             then Inl (JsError ''Token Wallet Address does not match User'')
             else Inr ()
         | None \<Rightarrow>
             if user_by_wallet d (the (nft_ownerWallet t)) \<noteq> None
             then Inl (JsError
               ''Token is associated to an existing user's wallet address, but userId is null.'')
             else Inr ()))"

text \<open>The call and its type, by the place of the token; the addresses are compared exactly.\<close>

definition nft_call :: "wallet \<Rightarrow> NftType \<Rightarrow> nft_id \<Rightarrow> nft \<Rightarrow> (chain_call \<times> WithdrawalType) res" where
  "nft_call locker nftType k t =
     (case nft_physicalWallet t of
        None \<Rightarrow>
          if nftType = GAME_CENTER then Inl (JsError ''Minting GC not supported.'')
          else Inr (MintCall nftType (the (nft_ownerWallet t)) k, MINT)
      | Some p \<Rightarrow>
          if p = locker then Inr (WithdrawNftCall nftType (the (nft_ownerWallet t)) k, TRANSFER)
          else Inl (JsError ''Cannot withdraw from this wallet''))"

definition withdrawal_sent :: "string \<Rightarrow> WithdrawalType \<Rightarrow> string \<Rightarrow> query" where
  "withdrawal_sent wid ty hash =
     update_withdrawal wid (\<lambda>_. True) (\<lambda>r. r\<lparr>wd_state := W_PENDING, wd_type := Some ty, wd_hash := Some hash\<rparr>)"

definition withdraw_item ::
  "chain \<Rightarrow> wallet \<Rightarrow> string \<Rightarrow> NftType \<Rightarrow> nft_id \<Rightarrow> nft \<Rightarrow> world \<Rightarrow> unit res \<times> world" where
  "withdraw_item chain locker wid nftType k t w =
     (case checkWalletAddress (w_db w) t (user_of (w_db w) t) of
        Inl e \<Rightarrow> (Inl e, w)
      | Inr _ \<Rightarrow>
          (case nft_call locker nftType k t of
             Inl e \<Rightarrow> (Inl e, w)
           | Inr (c, ty) \<Rightarrow>
               (case send_and_wait chain c w of
                  (Inl e, w1) \<Rightarrow> (Inl e, w1)
                | (Inr hash, w1) \<Rightarrow>
                    (case withdrawal_sent wid ty hash (w_db w1) of
                       Inl e \<Rightarrow> (Inl e, w1)
                     | Inr d' \<Rightarrow> (Inr (), w1\<lparr>w_db := d'\<rparr>)))))"

definition executeWithdrawal ::
  "chain \<Rightarrow> wallet \<Rightarrow> string \<times> withdrawal_row \<Rightarrow> world \<Rightarrow> unit res \<times> world" where
  "executeWithdrawal chain locker withdrawal w =
     (case withdrawal of (wid, r) \<Rightarrow>
        if wd_state r \<noteq> W_UNPROCESSED
        then (Inl (JsError ''Can only execute unprocessed withdrawals.''), w)
        else
          (case find_nft (wd_nftType r) (wd_tokenId r) (w_db w) of
             None \<Rightarrow> (Inl (PrismaKnownRequestError ''P2025''), w)
           | Some t \<Rightarrow> withdraw_item chain locker wid (wd_nftType r) (wd_tokenId r) t w))"

fun back_in_akiverse :: "env \<Rightarrow> NftType \<Rightarrow> nft_id \<Rightarrow> query" where
  "back_in_akiverse env ARCADE_MACHINE k = update_arcadeMachine k (\<lambda>_. True) (set_state env IN_AKIVERSE)"
| "back_in_akiverse env ARCADE_PART k = update_arcadePart k (\<lambda>_. True) (set_state env IN_AKIVERSE)"
| "back_in_akiverse env GAME_CENTER k = update_gameCenter k (\<lambda>_. True) (set_state env IN_AKIVERSE)"

text \<open>Two statements; an exception of one of them is only logged.\<close>

definition withdrawal_failed :: "env \<Rightarrow> string \<times> withdrawal_row \<Rightarrow> db \<Rightarrow> db" where
  "withdrawal_failed env withdrawal d =
     (case withdrawal of (wid, r) \<Rightarrow>
        (case update_withdrawal wid (\<lambda>_. True) (\<lambda>r. r\<lparr>wd_state := W_ERROR\<rparr>) d of
           Inl e \<Rightarrow> d
         | Inr d1 \<Rightarrow>
             (case back_in_akiverse env (wd_nftType r) (wd_tokenId r) d1 of
                Inl e \<Rightarrow> d1
              | Inr d2 \<Rightarrow> d2)))"

definition execute_one :: "env \<Rightarrow> chain \<Rightarrow> wallet \<Rightarrow> string \<times> withdrawal_row \<Rightarrow> world \<Rightarrow> world" where
  "execute_one env chain locker withdrawal w =
     (case executeWithdrawal chain locker withdrawal w of
        (Inr _, w1) \<Rightarrow> w1
      | (Inl e, w1) \<Rightarrow> on_db (withdrawal_failed env withdrawal) w1)"

definition executeWithdrawals :: "env \<Rightarrow> chain \<Rightarrow> wallet \<Rightarrow> world \<Rightarrow> world" where
  "executeWithdrawals env chain locker w =
     fold (execute_one env chain locker)
       (filter (\<lambda>(_, r). wd_state r = W_UNPROCESSED) (t_withdrawals (w_db w))) w"

section \<open>Withdrawals of currency\<close>

text \<open>
  The amount of the call; the contract of USDC says how many decimals it has.  The code divides by 100 with the
  twenty significant digits of \<open>Prisma.Decimal\<close>, which is exact, as it is here, for amounts of up to twenty digits.
\<close>

fun sent_amount :: "nat \<Rightarrow> CurrencyType \<Rightarrow> int \<Rightarrow> decimal" where
  "sent_amount usdcDecimals USDC amount =
     of_int amount / USDC_DECIMAL_ALIGNMENT_FACTOR * 10 ^ usdcDecimals"
| "sent_amount usdcDecimals _ amount = of_int amount"

fun currency_withdrawal_type :: "CurrencyType \<Rightarrow> WithdrawalType" where
  "currency_withdrawal_type AKIR = MINT"
| "currency_withdrawal_type AKV = TRANSFER"
| "currency_withdrawal_type USDC = TRANSFER"

definition executeCurrencyWithdrawal ::
  "chain \<Rightarrow> nat \<Rightarrow> string \<times> currency_withdrawal_row \<Rightarrow> world \<Rightarrow> unit res \<times> world" where
  "executeCurrencyWithdrawal chain usdcDecimals withdrawal w =
     (case withdrawal of (wid, r) \<Rightarrow>
        if cw_state r \<noteq> W_UNPROCESSED
        then (Inl (JsError ''Can only execute unprocessed withdrawals.''), w)
        else if cw_walletAddress r = []
        then (Inl (JsError ''walletAddress missing for currencyWithdrawal''), w)
        else
          (case send_and_wait chain (WithdrawCurrencyCall (cw_currencyType r) (cw_walletAddress r)
                  (sent_amount usdcDecimals (cw_currencyType r) (cw_amount r))) w of
             (Inl e, w1) \<Rightarrow> (Inl e, w1)
           | (Inr hash, w1) \<Rightarrow>
               (case update_currencyWithdrawal wid (\<lambda>_. True)
                       (\<lambda>r'. r'\<lparr>cw_state := W_PENDING,
                         cw_type := Some (currency_withdrawal_type (cw_currencyType r)), cw_hash := Some hash\<rparr>)
                       (w_db w1) of
                  Inl e \<Rightarrow> (Inl e, w1)
                | Inr d' \<Rightarrow> (Inr (), w1\<lparr>w_db := d'\<rparr>))))"

text \<open>An exception is only logged.\<close>

definition executeCurrencyWithdrawals :: "chain \<Rightarrow> nat \<Rightarrow> world \<Rightarrow> world" where
  "executeCurrencyWithdrawals chain usdcDecimals w =
     fold (\<lambda>withdrawal w. snd (executeCurrencyWithdrawal chain usdcDecimals withdrawal w))
       (filter (\<lambda>(_, r). cw_state r = W_UNPROCESSED) (t_currencyWithdrawals (w_db w))) w"

definition poll :: "env \<Rightarrow> chain \<Rightarrow> wallet \<Rightarrow> nat \<Rightarrow> world \<Rightarrow> world" where
  "poll env chain locker usdcDecimals w =
     executeCurrencyWithdrawals chain usdcDecimals (executeWithdrawals env chain locker w)"

end
