(* ===== verification/Executor_Props.thy ===== *)
theory Executor_Props
  imports Executor Confirmer_Owner_Props
begin

text \<open>
  What the Executor does with the recorded withdrawals: every withdrawal of an item is decided by a run,
  with at most one transaction each; a withdrawal of currency can be sent twice.
\<close>

declare all_ok_frame [simp del]

section \<open>Items\<close>

definition can_return :: "db \<Rightarrow> bool" where
  "can_return d \<longleftrightarrow> arcadeMachine_tab.all_ok d \<and> slot_index.indexed d"

definition in_akiverse :: "NftType \<Rightarrow> nft_id \<Rightarrow> db \<Rightarrow> bool" where
  "in_akiverse ty k d \<longleftrightarrow> (\<forall>t. find_nft ty k d = Some t \<longrightarrow> nft_state t = IN_AKIVERSE)"

lemma set_state_simps [simp]:
  "nft_state (set_state env s r) = s" "nft_ownerWallet (set_state env s r) = nft_ownerWallet r"
  by (simp_all add: set_state_def)

lemma set_state_slot [simp]: "slot (set_state env s (r :: arcade_machine_row)) = slot r"
  by (simp add: slot_def set_state_def)

lemma truncate_set_state' [simp]: "nft.truncate (set_state env s r) = set_state env s (nft.truncate r)"
  by (cases r) (simp add: set_state_def nft.truncate_def)

lemma back_found:
  assumes "back_in_akiverse env ty k d = Inr d'"
  shows "find_nft ty' k' d' = (if ty' = ty \<and> k' = k then map_option (set_state env IN_AKIVERSE) (find_nft ty k d)
    else find_nft ty' k' d)"
    and "t_withdrawals d' = t_withdrawals d" and "can_return d \<Longrightarrow> can_return d'"
proof -
  have "map_option (nft.truncate \<circ> set_state env IN_AKIVERSE) x =
      map_option (set_state env IN_AKIVERSE) (map_option nft.truncate x)" for x :: "'b nft_scheme option"
    by (cases x) simp_all
  with assms show "find_nft ty' k' d' = (if ty' = ty \<and> k' = k
      then map_option (set_state env IN_AKIVERSE) (find_nft ty k d) else find_nft ty' k' d)"
    by (cases ty; cases ty')
      (auto simp: arcadeMachine_tab.update_Inr gameCenter_tab.update_Inr arcadePart_tab.update_Inr
        map_of_apply_row put_defs o_def option.map_comp)
  show "t_withdrawals d' = t_withdrawals d"
    using assms by (cases ty; auto simp: arcadeMachine_tab.update_Inr gameCenter_tab.update_Inr
        arcadePart_tab.update_Inr put_defs)
  assume c: "can_return d"
  show "can_return d'"
  proof (cases "ty = ARCADE_MACHINE")
    case True
    with assms c preservesD [OF arcadeMachine_tab.update_ok] preservesD [OF slot_index.update_indexed]
    show ?thesis by (auto simp: can_return_def)
  next
    case False
    then have "t_arcadeMachines d' = t_arcadeMachines d"
      using assms by (cases ty) (auto simp: gameCenter_tab.update_Inr arcadePart_tab.update_Inr put_defs)
    with c show ?thesis
      unfolding can_return_def slot_index.indexed_def by (metis all_ok_frame(3))
  qed
qed

lemma back_succeeds:
  assumes "can_return d" and "find_nft ty k d = Some t"
  shows "\<exists>d'. back_in_akiverse env ty k d = Inr d'"
proof (cases ty)
  case ARCADE_MACHINE
  with assms(2) obtain r where r: "map_of (t_arcadeMachines d) k = Some r" by auto
  have "arcade_machine_ok r" using assms(1) arcadeMachine_tab.all_okD r unfolding can_return_def by blast
  moreover have "\<not> collides slot k (set_state env IN_AKIVERSE r)
      (apply_row (set_state env IN_AKIVERSE) k (t_arcadeMachines d))"
    using assms(1) r by (intro slot_index.update_keeps_key) (auto simp: can_return_def)
  ultimately show ?thesis
    using r ARCADE_MACHINE
    by (auto simp: arcadeMachine_tab.update_Inr check_arcadeMachine_def arcade_machine_ok_def set_state_def
        split: option.splits)
next
  case GAME_CENTER
  with assms show ?thesis by (auto simp: gameCenter_tab.update_Inr check_gameCenter_def set_state_def)
next
  case ARCADE_PART
  with assms show ?thesis by (auto simp: arcadePart_tab.update_Inr no_check_def)
qed

lemma set_withdrawal:
  assumes "map_of (t_withdrawals d) wid = Some r"
  shows "update_withdrawal wid (\<lambda>_. True) f d = Inr (put_withdrawals (apply_row f wid (t_withdrawals d)) d)"
  using assms by (simp add: withdrawal_tab.update_Inr no_check_def)

lemma find_put_withdrawals [simp]: "find_nft ty k (put_withdrawals t d) = find_nft ty k d"
  by (rule find_nft_frame) (simp_all add: put_defs)

lemma can_return_put_withdrawals [simp]: "can_return (put_withdrawals t d) = can_return d"
  unfolding can_return_def slot_index.indexed_def using all_ok_frame(3) [of "put_withdrawals t d" d]
  by (simp add: put_defs)

section \<open>One withdrawal\<close>

definition call_for :: "nft \<Rightarrow> NftType \<Rightarrow> nft_id \<Rightarrow> chain_call list \<Rightarrow> bool" where
  "call_for t ty k cs \<longleftrightarrow> (\<exists>a. nft_ownerWallet t = Some a \<and> (WithdrawNftCall ty a k \<in> set cs \<or> MintCall ty a k \<in> set cs))"

definition decided :: "db \<Rightarrow> world \<Rightarrow> string \<times> withdrawal_row \<Rightarrow> bool" where
  "decided d0 w x \<longleftrightarrow> (case x of (wid, r) \<Rightarrow>
     \<exists>r'. map_of (t_withdrawals (w_db w)) wid = Some r' \<and>
       (wd_state r' = W_PENDING \<and> wd_hash r' \<noteq> None \<and> wd_type r' \<noteq> None \<and>
          (\<exists>t. find_nft (wd_nftType r) (wd_tokenId r) d0 = Some t \<and>
               call_for t (wd_nftType r) (wd_tokenId r) (w_sent w)) \<or>
        wd_state r' = W_ERROR \<and> in_akiverse (wd_nftType r) (wd_tokenId r) (w_db w)))"

text \<open>
  What working on \<open>n\<close> withdrawals keeps: the owners of the items, the items that are in the world, all
  other withdrawals, and what was sent, with at most \<open>n\<close> transactions more.
\<close>

definition goes_on :: "string set \<Rightarrow> nat \<Rightarrow> world \<Rightarrow> world \<Rightarrow> bool" where
  "goes_on ids n w w' \<longleftrightarrow> (can_return (w_db w) \<longrightarrow> can_return (w_db w')) \<and>
     (\<exists>cs. w_sent w' = w_sent w @ cs \<and> length cs \<le> n) \<and>
     map fst (t_withdrawals (w_db w')) = map fst (t_withdrawals (w_db w)) \<and>
     (\<forall>wid. wid \<notin> ids \<longrightarrow> map_of (t_withdrawals (w_db w')) wid = map_of (t_withdrawals (w_db w)) wid) \<and>
     (\<forall>ty k. map_option nft_ownerWallet (find_nft ty k (w_db w')) = map_option nft_ownerWallet (find_nft ty k (w_db w))) \<and>
     (\<forall>ty k. in_akiverse ty k (w_db w) \<longrightarrow> in_akiverse ty k (w_db w'))"

lemma goes_on_refl [simp]: "goes_on ids 0 w w"
  by (simp add: goes_on_def)

lemma goes_on_trans:
  assumes "goes_on ids n w w1" and "goes_on ids' m w1 w2"
  shows "goes_on (ids \<union> ids') (n + m) w w2"
proof -
  from assms obtain cs cs' where "w_sent w1 = w_sent w @ cs" "length cs \<le> n" "w_sent w2 = w_sent w1 @ cs'" "length cs' \<le> m"
    by (auto simp: goes_on_def)
  then have "w_sent w2 = w_sent w @ (cs @ cs')" "length (cs @ cs') \<le> n + m" by simp_all
  with assms show ?thesis unfolding goes_on_def by (intro conjI) (blast | simp)+
qed

lemma goes_on_weaken: "goes_on ids n w w' \<Longrightarrow> ids \<subseteq> ids' \<Longrightarrow> n \<le> m \<Longrightarrow> goes_on ids' m w w'"
  unfolding goes_on_def by (meson le_trans subsetD)

lemma send_and_wait_goes_on:
  "send_and_wait chain c w = (r, w') \<Longrightarrow> goes_on {} 1 w w' \<and> w_db w' = w_db w \<and>
     (\<forall>hash. r = Inr hash \<longrightarrow> c \<in> set (w_sent w'))"
  by (auto simp: send_and_wait_def goes_on_def split: attempt.splits waiting.splits bool.splits)

lemma put_withdrawal_goes_on:
  "goes_on {wid} 0 w (w\<lparr>w_db := put_withdrawals (apply_row f wid (t_withdrawals (w_db w))) (w_db w)\<rparr>)"
  by (simp add: goes_on_def in_akiverse_def withdrawal_tab.get_put map_of_apply_row)

lemma back_goes_on:
  assumes "back_in_akiverse env ty k (w_db w) = Inr d'"
  shows "goes_on {} 0 w (w\<lparr>w_db := d'\<rparr>)" and "in_akiverse ty k d'"
  using back_found [OF assms]
  by (auto simp: goes_on_def in_akiverse_def option.map_comp o_def)

lemma nft_call_for:
  assumes "checkWalletAddress d t u = Inr x" and "nft_call locker ty k t = Inr (c, wt)"
  shows "\<exists>a. nft_ownerWallet t = Some a \<and> (c = WithdrawNftCall ty a k \<or> c = MintCall ty a k)"
proof -
  from assms(1) obtain a where "nft_ownerWallet t = Some a"
    by (auto simp: checkWalletAddress_def truthy_iff split: if_splits)
  with assms(2) show ?thesis by (auto simp: nft_call_def split: option.splits if_splits)
qed

lemma executeWithdrawal_decides:
  assumes "executeWithdrawal chain locker (wid, r) w = (res, w')" and "map_of (t_withdrawals (w_db w)) wid = Some r1"
  shows "goes_on {wid} 1 w w'" and "res = Inr () \<Longrightarrow> decided (w_db w) w' (wid, r)"
    and "map_of (t_withdrawals (w_db w')) wid \<noteq> None"
proof -
  let ?ty = "wd_nftType r" and ?k = "wd_tokenId r"
  have "goes_on {wid} 1 w w' \<and> (res = Inr () \<longrightarrow> decided (w_db w) w' (wid, r)) \<and>
      map_of (t_withdrawals (w_db w')) wid \<noteq> None"
  proof (cases "\<exists>t. wd_state r = W_UNPROCESSED \<and> find_nft ?ty ?k (w_db w) = Some t \<and>
      checkWalletAddress (w_db w) t (user_of (w_db w) t) = Inr () \<and> (\<exists>x. nft_call locker ?ty ?k t = Inr x)")
    case False
    with assms have "w' = w \<and> res \<noteq> Inr ()"
      by (auto simp: executeWithdrawal_def withdraw_item_def split: if_splits option.splits sum.splits)
    with assms(2) show ?thesis by (auto intro: goes_on_weaken [OF goes_on_refl])
  next
    case True
    then obtain t c wt where t: "wd_state r = W_UNPROCESSED" "find_nft ?ty ?k (w_db w) = Some t"
      "checkWalletAddress (w_db w) t (user_of (w_db w) t) = Inr ()" "nft_call locker ?ty ?k t = Inr (c, wt)" by auto
    obtain sr w1 where s: "send_and_wait chain c w = (sr, w1)" by fastforce
    note s1 = send_and_wait_goes_on [OF s]
    show ?thesis
    proof (cases sr)
      case (Inl e)
      with assms t s have "w' = w1 \<and> res = Inl e" by (simp add: executeWithdrawal_def withdraw_item_def)
      with s1 assms(2) show ?thesis by (auto intro: goes_on_weaken)
    next
      case (Inr hash)
      let ?f = "\<lambda>r. r\<lparr>wd_state := W_PENDING, wd_type := Some wt, wd_hash := Some hash\<rparr>"
      let ?w2 = "w1\<lparr>w_db := put_withdrawals (apply_row ?f wid (t_withdrawals (w_db w1))) (w_db w1)\<rparr>"
      have "map_of (t_withdrawals (w_db w1)) wid = Some r1" using assms(2) s1 by simp
      from set_withdrawal [OF this, of ?f] assms(1) t s Inr have w': "w' = ?w2" "res = Inr ()"
        by (simp_all add: executeWithdrawal_def withdraw_item_def withdrawal_sent_def)
      have g: "goes_on {wid} 1 w w'"
        using goes_on_trans [OF conjunct1 [OF s1] put_withdrawal_goes_on] w'(1) by simp
      from nft_call_for [OF t(3,4)] s1 Inr have "call_for t ?ty ?k (w_sent w')" by (auto simp: call_for_def w')
      with t(2) assms(2) s1 have "decided (w_db w) w' (wid, r)"
        by (simp add: decided_def w' withdrawal_tab.get_put map_of_apply_row)
      with g assms(2) s1 show ?thesis by (simp add: w' withdrawal_tab.get_put map_of_apply_row)
    qed
  qed
  then show "goes_on {wid} 1 w w'" "res = Inr () \<Longrightarrow> decided (w_db w) w' (wid, r)"
    "map_of (t_withdrawals (w_db w')) wid \<noteq> None" by blast+
qed

lemma failed_decides:
  assumes "map_of (t_withdrawals (w_db w)) wid = Some r1" and "can_return (w_db w)"
  shows "goes_on {wid} 0 w (on_db (withdrawal_failed env (wid, r)) w)"
    and "decided d0 (on_db (withdrawal_failed env (wid, r)) w) (wid, r)"
proof -
  let ?ty = "wd_nftType r" and ?k = "wd_tokenId r" and ?f = "\<lambda>r. r\<lparr>wd_state := W_ERROR\<rparr>"
  let ?d1 = "put_withdrawals (apply_row ?f wid (t_withdrawals (w_db w))) (w_db w)"
  let ?w1 = "w\<lparr>w_db := ?d1\<rparr>"
  note g1 = put_withdrawal_goes_on [of wid w ?f]
  have "goes_on {wid} 0 w (on_db (withdrawal_failed env (wid, r)) w) \<and>
      decided d0 (on_db (withdrawal_failed env (wid, r)) w) (wid, r)"
  proof (cases "back_in_akiverse env ?ty ?k ?d1")
    case (Inl e)
    then have f: "on_db (withdrawal_failed env (wid, r)) w = ?w1"
      using set_withdrawal [OF assms(1), of ?f] by (simp add: on_db_def withdrawal_failed_def)
    have "find_nft ?ty ?k ?d1 = None"
    proof (rule ccontr)
      assume "find_nft ?ty ?k ?d1 \<noteq> None"
      then obtain t where "find_nft ?ty ?k ?d1 = Some t" by blast
      with back_succeeds [of ?d1 ?ty ?k t env] assms(2) Inl show False by simp
    qed
    with g1 f assms(1) show ?thesis
      by (simp add: decided_def withdrawal_tab.get_put map_of_apply_row in_akiverse_def)
  next
    case (Inr d2)
    then have f: "on_db (withdrawal_failed env (wid, r)) w = ?w1\<lparr>w_db := d2\<rparr>"
      using set_withdrawal [OF assms(1), of ?f] by (simp add: on_db_def withdrawal_failed_def)
    have b: "back_in_akiverse env ?ty ?k (w_db ?w1) = Inr d2" using Inr by simp
    from goes_on_trans [OF g1 back_goes_on(1) [OF b]] have "goes_on {wid} 0 w (?w1\<lparr>w_db := d2\<rparr>)" by simp
    moreover have "decided d0 (?w1\<lparr>w_db := d2\<rparr>) (wid, r)"
      using back_goes_on(2) [OF b] back_found(2) [OF Inr] assms(1)
      by (simp add: decided_def withdrawal_tab.get_put map_of_apply_row)
    ultimately show ?thesis unfolding f by blast
  qed
  then show "goes_on {wid} 0 w (on_db (withdrawal_failed env (wid, r)) w)"
    "decided d0 (on_db (withdrawal_failed env (wid, r)) w) (wid, r)" by blast+
qed

section \<open>A run\<close>

lemma decided_goes_on:
  assumes "decided d0 w (wid, r)" and "goes_on ids n w w'" and "wid \<notin> ids"
  shows "decided d0 w' (wid, r)"
proof -
  have sent: "set (w_sent w) \<subseteq> set (w_sent w')" using assms(2) by (auto simp: goes_on_def)
  then have "call_for t ty k (w_sent w) \<Longrightarrow> call_for t ty k (w_sent w')" for t ty k by (auto simp: call_for_def)
  moreover have "map_of (t_withdrawals (w_db w')) wid = map_of (t_withdrawals (w_db w)) wid"
    using assms(2,3) by (simp add: goes_on_def)
  moreover have "in_akiverse ty k (w_db w) \<Longrightarrow> in_akiverse ty k (w_db w')" for ty k
    using assms(2) by (simp add: goes_on_def)
  ultimately show ?thesis using assms(1) unfolding decided_def prod.case by metis
qed

lemma call_owner: "map_option nft_ownerWallet x = map_option nft_ownerWallet y \<Longrightarrow> x = Some t \<Longrightarrow>
    \<exists>t'. y = Some t' \<and> (\<forall>ty k cs. call_for t' ty k cs = call_for t ty k cs)"
  by (cases y) (auto simp: call_for_def)

lemma decided_earlier:
  assumes "decided d1 w x" and "\<And>ty k. map_option nft_ownerWallet (find_nft ty k d1) = map_option nft_ownerWallet (find_nft ty k d0)"
  shows "decided d0 w x"
  using assms call_owner [OF assms(2)] unfolding decided_def by (cases x) (auto, metis)

lemma execute_one_decides:
  assumes "map_of (t_withdrawals (w_db w)) wid = Some r1" and "can_return (w_db w)"
  shows "goes_on {wid} 1 w (execute_one env chain locker (wid, r) w)"
    and "decided (w_db w) (execute_one env chain locker (wid, r) w) (wid, r)"
proof -
  obtain res w1 where e: "executeWithdrawal chain locker (wid, r) w = (res, w1)" by fastforce
  note d = executeWithdrawal_decides [OF e assms(1)]
  have "goes_on {wid} 1 w (execute_one env chain locker (wid, r) w) \<and>
      decided (w_db w) (execute_one env chain locker (wid, r) w) (wid, r)"
  proof (cases res)
    case (Inl x)
    from d(3) obtain r2 where r2: "map_of (t_withdrawals (w_db w1)) wid = Some r2" by auto
    have c: "can_return (w_db w1)" using d(1) assms(2) by (simp add: goes_on_def)
    note f = failed_decides [OF r2 c, where env = env and r = r]
    have "goes_on {wid} 1 w (on_db (withdrawal_failed env (wid, r)) w1)"
      using goes_on_trans [OF d(1) f(1)] by simp
    with f(2) show ?thesis by (simp add: execute_one_def e Inl)
  next
    case (Inr x)
    with d show ?thesis by (simp add: execute_one_def e)
  qed
  then show "goes_on {wid} 1 w (execute_one env chain locker (wid, r) w)"
    "decided (w_db w) (execute_one env chain locker (wid, r) w) (wid, r)" by blast+
qed

lemma execute_all:
  "distinct (map fst xs) \<Longrightarrow> \<forall>(wid, r) \<in> set xs. map_of (t_withdrawals (w_db w)) wid \<noteq> None \<Longrightarrow>
   can_return (w_db w) \<Longrightarrow>
   goes_on (fst ` set xs) (length xs) w (fold (execute_one env chain locker) xs w) \<and>
   (\<forall>x \<in> set xs. decided (w_db w) (fold (execute_one env chain locker) xs w) x)"
proof (induction xs arbitrary: w)
  case (Cons x xs)
  obtain wid r where x: "x = (wid, r)" by (cases x)
  let ?w1 = "execute_one env chain locker (wid, r) w" and ?w' = "fold (execute_one env chain locker) (x # xs) w"
  from Cons.prems(2) x obtain r1 where r1: "map_of (t_withdrawals (w_db w)) wid = Some r1" by auto
  note one = execute_one_decides [OF r1 Cons.prems(3), of env chain locker r]
  have keys: "map fst (t_withdrawals (w_db ?w1)) = map fst (t_withdrawals (w_db w))"
    and ret: "can_return (w_db ?w1)"
    and own: "\<And>ty k. map_option nft_ownerWallet (find_nft ty k (w_db ?w1)) = map_option nft_ownerWallet (find_nft ty k (w_db w))"
    using one(1) Cons.prems(3) unfolding goes_on_def by blast+
  have "map_of (t_withdrawals (w_db ?w1)) wid' \<noteq> None" if m: "(wid', r') \<in> set xs" for wid' r'
  proof
    assume n: "map_of (t_withdrawals (w_db ?w1)) wid' = None"
    have "fst ` set (t_withdrawals (w_db ?w1)) = fst ` set (t_withdrawals (w_db w))"
      using arg_cong [OF keys, of set] by simp
    with n have "map_of (t_withdrawals (w_db w)) wid' = None" by (simp add: map_of_eq_None_iff)
    with Cons.prems(2) m show False by auto
  qed
  then have "\<forall>(wid, r) \<in> set xs. map_of (t_withdrawals (w_db ?w1)) wid \<noteq> None" by blast
  with Cons.IH [OF _ _ ret] Cons.prems(1) have IH: "goes_on (fst ` set xs) (length xs) ?w1 ?w'"
    "\<forall>y \<in> set xs. decided (w_db ?w1) ?w' y" by (simp_all add: x)
  have "goes_on (fst ` set (x # xs)) (length (x # xs)) w ?w'"
    using goes_on_trans [OF one(1) IH(1)] by (simp add: x)
  moreover have "decided (w_db w) ?w' (wid, r)"
    using decided_goes_on [OF one(2) IH(1)] Cons.prems(1) by (simp add: x)
  moreover have "\<forall>y \<in> set xs. decided (w_db w) ?w' y"
    using IH(2) decided_earlier [OF _ own] by blast
  ultimately show ?case by (simp add: x)
qed simp

text \<open>What a run leaves: the decided withdrawals as they were, and none that is not processed.\<close>

lemma run_leaves:
  assumes "distinct (map fst (t_withdrawals (w_db w)))"
    and "goes_on (fst ` set (filter (\<lambda>(_, r). wd_state r = W_UNPROCESSED) (t_withdrawals (w_db w)))) n w w'"
    and "\<And>x. x \<in> set (filter (\<lambda>(_, r). wd_state r = W_UNPROCESSED) (t_withdrawals (w_db w))) \<Longrightarrow> decided (w_db w) w' x"
  shows "(wid, r) \<in> set (t_withdrawals (w_db w)) \<Longrightarrow> wd_state r \<noteq> W_UNPROCESSED \<Longrightarrow>
      map_of (t_withdrawals (w_db w')) wid = Some r"
    and "filter (\<lambda>(_, r). wd_state r = W_UNPROCESSED) (t_withdrawals (w_db w')) = []"
proof -
  let ?t = "t_withdrawals (w_db w)" and ?t' = "t_withdrawals (w_db w')"
  let ?xs = "filter (\<lambda>(_, r). wd_state r = W_UNPROCESSED) ?t"
  note g = assms(2) and dec = assms(3)
  have found: "map_of ?t wid = Some r" if "(wid, r) \<in> set ?t" for wid r using assms(1) that by simp
  have keep: "map_of ?t' wid = Some r" if "(wid, r) \<in> set ?t" "wd_state r \<noteq> W_UNPROCESSED" for wid r
  proof -
    have "wid \<notin> fst ` set ?xs"
    proof
      assume "wid \<in> fst ` set ?xs"
      then obtain r2 where "(wid, r2) \<in> set ?t" "wd_state r2 = W_UNPROCESSED" by auto
      with found [OF this(1)] found [OF that(1)] that(2) show False by simp
    qed
    with g found [OF that(1)] show ?thesis by (simp add: goes_on_def)
  qed
  have keys: "map fst ?t' = map fst ?t" using g by (simp add: goes_on_def)
  have "wd_state r' \<noteq> W_UNPROCESSED" if r': "(wid, r') \<in> set ?t'" for wid r'
  proof -
    have "map_of ?t' wid = Some r'" using assms(1) keys r' by (metis map_of_is_SomeI)
    moreover from r' keys obtain r where r: "(wid, r) \<in> set ?t"
      by (metis (no_types, lifting) fst_conv image_iff list.set_map prod.collapse)
    ultimately show ?thesis
    proof (cases "wd_state r = W_UNPROCESSED")
      case True
      with r have "(wid, r) \<in> set ?xs" by simp
      from dec [OF this] \<open>map_of ?t' wid = Some r'\<close> show ?thesis by (auto simp: decided_def)
    next
      case False
      with keep [OF r] \<open>map_of ?t' wid = Some r'\<close> show ?thesis by simp
    qed
  qed
  then show "filter (\<lambda>(_, r). wd_state r = W_UNPROCESSED) ?t' = []" by (auto simp: filter_empty_conv)
  show "map_of ?t' wid = Some r" if "(wid, r) \<in> set ?t" "wd_state r \<noteq> W_UNPROCESSED" for wid r
    using that by (rule keep)
qed

text \<open>
  (C13) A run of the Executor decides every recorded withdrawal of an item that is not processed: either a
  transaction for that token to the wallet of its owner was sent and the withdrawal is pending with its
  hash, or the withdrawal is marked as failed and the item, if it exists, is in the world again.  At most
  one transaction is sent for each of them, other withdrawals do not change, and a second run sends
  nothing.
\<close>

theorem withdrawals_decided:
  assumes "arcadeMachine_tab.all_ok (w_db w)" and "slot_index.indexed (w_db w)"
    and "distinct (map fst (t_withdrawals (w_db w)))" and "executeWithdrawals env chain locker w = w'"
  shows "(\<forall>(wid, r) \<in> set (t_withdrawals (w_db w)). wd_state r = W_UNPROCESSED \<longrightarrow>
      (\<exists>r'. map_of (t_withdrawals (w_db w')) wid = Some r' \<and>
         (wd_state r' = W_PENDING \<and> wd_hash r' \<noteq> None \<and> wd_type r' \<noteq> None \<and>
            (\<exists>t. find_nft (wd_nftType r) (wd_tokenId r) (w_db w) = Some t \<and>
                 call_for t (wd_nftType r) (wd_tokenId r) (w_sent w')) \<or>
          wd_state r' = W_ERROR \<and> in_akiverse (wd_nftType r) (wd_tokenId r) (w_db w')))) \<and>
    (\<forall>(wid, r) \<in> set (t_withdrawals (w_db w)). wd_state r \<noteq> W_UNPROCESSED \<longrightarrow>
      map_of (t_withdrawals (w_db w')) wid = Some r) \<and>
    length (w_sent w') - length (w_sent w) \<le> count_rows (\<lambda>_ r. wd_state r = W_UNPROCESSED) (t_withdrawals (w_db w)) \<and>
    executeWithdrawals env chain locker w' = w'"
proof -
  let ?t = "t_withdrawals (w_db w)" and ?t' = "t_withdrawals (w_db w')"
  let ?xs = "filter (\<lambda>(_, r). wd_state r = W_UNPROCESSED) ?t"
  have d: "distinct (map fst ?xs)" using assms(3) by (rule distinct_map_filter)
  have m: "\<forall>(wid, r) \<in> set ?xs. map_of ?t wid \<noteq> None" using assms(3) by auto
  have c: "can_return (w_db w)" using assms(1,2) by (simp add: can_return_def)
  from execute_all [OF d m c, of env chain locker] assms(4) have
    g: "goes_on (fst ` set ?xs) (length ?xs) w w'" and dec: "\<And>x. x \<in> set ?xs \<Longrightarrow> decided (w_db w) w' x"
    unfolding executeWithdrawals_def by auto
  note keep = run_leaves(1) [OF assms(3) g dec]
  from run_leaves(2) [OF assms(3) g dec]
  have again: "executeWithdrawals env chain locker w' = w'" by (simp add: executeWithdrawals_def)
  have sent: "length (w_sent w') - length (w_sent w) \<le> count_rows (\<lambda>_ r. wd_state r = W_UNPROCESSED) ?t"
    using g by (auto simp: goes_on_def count_rows_def)
  have "\<exists>r'. map_of ?t' wid = Some r' \<and> (wd_state r' = W_PENDING \<and> wd_hash r' \<noteq> None \<and> wd_type r' \<noteq> None \<and>
            (\<exists>t. find_nft (wd_nftType r) (wd_tokenId r) (w_db w) = Some t \<and>
                 call_for t (wd_nftType r) (wd_tokenId r) (w_sent w')) \<or>
          wd_state r' = W_ERROR \<and> in_akiverse (wd_nftType r) (wd_tokenId r) (w_db w'))"
    if "(wid, r) \<in> set ?t" "wd_state r = W_UNPROCESSED" for wid r
    using dec [of "(wid, r)"] that by (simp add: decided_def)
  with keep again sent show ?thesis by blast
qed

section \<open>Currency\<close>

text \<open>
  (C22) A withdrawal of currency whose transaction was sent but could not be waited for stays unprocessed,
  and the next run sends the money once more.
\<close>

theorem currency_sent_twice:
  assumes "filter (\<lambda>(_, r). cw_state r = W_UNPROCESSED) (t_currencyWithdrawals (w_db w)) = [(wid, r)]"
    and "distinct (map fst (t_currencyWithdrawals (w_db w)))" and "cw_walletAddress r \<noteq> []"
    and "c = WithdrawCurrencyCall (cw_currencyType r) (cw_walletAddress r) (sent_amount dec (cw_currencyType r) (cw_amount r))"
    and "chain (w_attempts w) c = Sent h1 WaitFailed" and "chain (w_attempts w + 1) c = Sent h2 (Receipt True)"
  shows "\<exists>w'. executeCurrencyWithdrawals chain dec (executeCurrencyWithdrawals chain dec w) = w' \<and>
    w_sent w' = w_sent w @ [c, c] \<and>
    map_of (t_currencyWithdrawals (w_db w')) wid = Some (r\<lparr>cw_state := W_PENDING,
      cw_type := Some (currency_withdrawal_type (cw_currencyType r)), cw_hash := Some h2\<rparr>)"
proof -
  let ?w1 = "w\<lparr>w_sent := w_sent w @ [c], w_attempts := w_attempts w + 1\<rparr>"
  have "(wid, r) \<in> set (filter (\<lambda>(_, r). cw_state r = W_UNPROCESSED) (t_currencyWithdrawals (w_db w)))"
    unfolding assms(1) by simp
  then have r: "(wid, r) \<in> set (t_currencyWithdrawals (w_db w))" "cw_state r = W_UNPROCESSED" by auto
  then have found: "map_of (t_currencyWithdrawals (w_db w)) wid = Some r" using assms(2) by simp
  have "executeCurrencyWithdrawals chain dec w = ?w1"
    using r(2) assms(3,5) unfolding executeCurrencyWithdrawals_def assms(1)
    by (simp add: executeCurrencyWithdrawal_def send_and_wait_def assms(4) [symmetric])
  moreover have "\<exists>w'. executeCurrencyWithdrawals chain dec ?w1 = w' \<and> w_sent w' = w_sent w @ [c, c] \<and>
    map_of (t_currencyWithdrawals (w_db w')) wid = Some (r\<lparr>cw_state := W_PENDING,
      cw_type := Some (currency_withdrawal_type (cw_currencyType r)), cw_hash := Some h2\<rparr>)"
    using r(2) assms(1,3,6) found unfolding executeCurrencyWithdrawals_def
    by (simp add: executeCurrencyWithdrawal_def send_and_wait_def assms(4) [symmetric]
        update_where_def no_check_def put_defs map_of_apply_row)
  ultimately show ?thesis by simp
qed

section \<open>On a small database\<close>

definition sample_withdrawal :: withdrawal_row where
  "sample_withdrawal = \<lparr>wd_tokenId = ''a1'', wd_nftType = ARCADE_MACHINE, wd_userId = Some ''u1'',
     wd_walletAddress = ''0xAb'', wd_state = W_UNPROCESSED, wd_type = None, wd_hash = None\<rparr>"

definition sample_coins :: currency_withdrawal_row where
  "sample_coins = \<lparr>cw_userId = Some ''u1'', cw_walletAddress = ''0xAb'', cw_currencyType = AKV, cw_amount = 7,
     cw_state = W_UNPROCESSED, cw_type = None, cw_hash = None\<rparr>"

definition sample_world :: world where
  "sample_world = \<lparr>w_db = sample_db\<lparr>t_withdrawals := [(''w1'', sample_withdrawal)],
     t_currencyWithdrawals := [(''c1'', sample_coins)]\<rparr>, w_sent = [], w_attempts = 0\<rparr>"

theorem withdrawals_decided_witness:
  "\<exists>w' r'. executeWithdrawals sample_env (\<lambda>_ _. Sent ''h'' (Receipt True)) ''L'' sample_world = w' \<and>
    map_of (t_withdrawals (w_db w')) ''w1'' = Some r' \<and> wd_state r' \<noteq> W_UNPROCESSED \<and> length (w_sent w') \<le> 1"
proof -
  obtain w' where w': "executeWithdrawals sample_env (\<lambda>_ _. Sent ''h'' (Receipt True)) ''L'' sample_world = w'" by blast
  have ok: "arcadeMachine_tab.all_ok (w_db sample_world)"
    by (simp add: sample_world_def arcadeMachine_tab.all_ok_def sample_db_def sample_machine_def arcade_machine_ok_def)
  have ix: "slot_index.indexed (w_db sample_world)"
    by (auto simp: slot_index.indexed_def sample_world_def sample_db_def sample_machine_def slot_def split: if_splits)
  have di: "distinct (map fst (t_withdrawals (w_db sample_world)))" by (simp add: sample_world_def)
  have t: "t_withdrawals (w_db sample_world) = [(''w1'', sample_withdrawal)]" by (simp add: sample_world_def)
  have c: "count_rows (\<lambda>_ r. wd_state r = W_UNPROCESSED) [(''w1'', sample_withdrawal)] = 1"
    by (simp add: count_rows_def sample_withdrawal_def)
  have s: "w_sent sample_world = []" by (simp add: sample_world_def)
  have u: "wd_state sample_withdrawal = W_UNPROCESSED" by (simp add: sample_withdrawal_def)
  from withdrawals_decided [OF ok ix di w'] show ?thesis unfolding w' t c s using u by auto
qed

theorem currency_sent_twice_witness:
  "\<exists>w'. executeCurrencyWithdrawals (\<lambda>n _. if n = 0 then Sent ''h1'' WaitFailed else Sent ''h2'' (Receipt True)) 6
      (executeCurrencyWithdrawals (\<lambda>n _. if n = 0 then Sent ''h1'' WaitFailed else Sent ''h2'' (Receipt True)) 6 sample_world) = w' \<and>
    w_sent w' = [WithdrawCurrencyCall AKV ''0xAb'' 7, WithdrawCurrencyCall AKV ''0xAb'' 7]"
proof -
  let ?chain = "\<lambda>n (_ :: chain_call). if n = (0 :: nat) then Sent ''h1'' WaitFailed else Sent ''h2'' (Receipt True)"
  have f: "filter (\<lambda>(_, r). cw_state r = W_UNPROCESSED) (t_currencyWithdrawals (w_db sample_world)) = [(''c1'', sample_coins)]"
    by (simp add: sample_world_def sample_coins_def)
  have d: "distinct (map fst (t_currencyWithdrawals (w_db sample_world)))" by (simp add: sample_world_def)
  have w: "cw_walletAddress sample_coins \<noteq> []" by (simp add: sample_coins_def)
  have c: "WithdrawCurrencyCall AKV ''0xAb'' 7 = WithdrawCurrencyCall (cw_currencyType sample_coins)
      (cw_walletAddress sample_coins) (sent_amount 6 (cw_currencyType sample_coins) (cw_amount sample_coins))"
    by (simp add: sample_coins_def)
  have c0: "?chain (w_attempts sample_world) (WithdrawCurrencyCall AKV ''0xAb'' 7) = Sent ''h1'' WaitFailed"
    and c1: "?chain (w_attempts sample_world + 1) (WithdrawCurrencyCall AKV ''0xAb'' 7) = Sent ''h2'' (Receipt True)"
    by (simp_all add: sample_world_def)
  have s: "w_sent sample_world = []" by (simp add: sample_world_def)
  from currency_sent_twice [OF f d w c, where chain = ?chain, OF c0 c1] show ?thesis unfolding s by auto
qed

end
