(* ===== verification/Wallet_Address.thy ===== *)
theory Wallet_Address
  imports Confirmer_Transfers
begin

text \<open>
  Registering a wallet, \<open>src/use_cases/wallet_address_usecase.ts\<close>.  \<open>verified\<close> is what the
  verification of the signature and the session of the challenge give: the wallet, or an exception.  The
  user table has a unique index on the wallet; only this use case writes that column, so only its query
  carries the check.  The check of the quests is an entry of the call log, and the claims of the login
  token are not part of the database.
\<close>

definition check_user_wallet :: "user_id \<Rightarrow> user_row \<Rightarrow> (user_id, user_row) table \<Rightarrow> use_case_error option" where
  "check_user_wallet k r t =
     (case check_user k r t of
        Some e \<Rightarrow> Some e
      | None \<Rightarrow> if collides (wallet_key \<circ> u_walletAddress) k r t then Some (PrismaKnownRequestError ''P2002'') else None)"

interpretation wallet_index: unique_index t_users put_users check_user_wallet "wallet_key \<circ> u_walletAddress"
  by unfold_locales (auto simp: check_user_wallet_def split: option.splits if_splits)

definition give_user :: "env \<Rightarrow> user_id \<Rightarrow> 'a nft_scheme \<Rightarrow> 'a nft_scheme" where
  "give_user env u r = r\<lparr>nft_userId := Some u, nft_updatedAt := env_now env\<rparr>"

definition give_wallet :: "env \<Rightarrow> wallet \<Rightarrow> 'a nft_scheme \<Rightarrow> 'a nft_scheme" where
  "give_wallet env w r = r\<lparr>nft_ownerWallet := Some w, nft_updatedAt := env_now env\<rparr>"

definition unclaimed :: "wallet \<Rightarrow> 'a nft_scheme \<Rightarrow> bool" where
  "unclaimed w r \<longleftrightarrow> wallet_key (nft_ownerWallet r) = wallet_key (Some w) \<and> nft_userId r = None"

definition walletless :: "user_id \<Rightarrow> 'a nft_scheme \<Rightarrow> bool" where
  "walletless u r \<longleftrightarrow> nft_userId r = Some u \<and> nft_ownerWallet r = None"

definition register_queries :: "env \<Rightarrow> user_id \<Rightarrow> wallet \<Rightarrow> query list" where
  "register_queries env u w =
     [update_where t_users put_users check_user_wallet u (\<lambda>r. u_walletAddress r = None)
        (\<lambda>r. r\<lparr>u_walletAddress := Some w\<rparr>),
      update_arcadeMachines (\<lambda>_. unclaimed w) (give_user env u),
      update_arcadeParts (\<lambda>_. unclaimed w) (give_user env u),
      update_gameCenters (\<lambda>_. unclaimed w) (give_user env u),
      update_arcadeMachines (\<lambda>_. walletless u) (give_wallet env w),
      update_arcadeParts (\<lambda>_. walletless u) (give_wallet env w),
      update_gameCenters (\<lambda>_. walletless u) (give_wallet env w)]"

definition register_error :: "use_case_error \<Rightarrow> use_case_error" where
  "register_error e =
     (if e = PrismaKnownRequestError ''P2002'' \<or> e = PrismaKnownRequestError ''P2025''
      then ConflictUseCaseError ''update operation conflicted'' else e)"

text \<open>\<open>ctx.userId\<close> is set, since the operation needs a login; \<open>other\<close> is what happens between the reads and the transaction.\<close>

definition register :: "env \<Rightarrow> ctx \<Rightarrow> wallet res \<Rightarrow> (db \<Rightarrow> db) \<Rightarrow> db \<Rightarrow> user_row option res \<times> db" where
  "register env ctx verified other d =
     (case verified of
        Inl e \<Rightarrow> (Inl e, d)
      | Inr w \<Rightarrow>
          if truthy (ctx_walletAddress ctx)
          then (Inl (IllegalStateUseCaseError ''wallet address is already registered''), d)
          else if user_by_wallet d w \<noteq> None
          then (Inl (InvalidArgumentUseCaseError ''same wallet address user exist''), d)
          else
            let d0 = other d; u = the (ctx_userId ctx) in
            (case run_tx (register_queries env u w) d0 of
               Inl e \<Rightarrow> (Inl (register_error e), d0)
             | Inr d' \<Rightarrow> (Inr (map_of (t_users d') u), call (QuestCheckAndUpdate u) d')))"

end
