(* ===== verification/Wallet_Props.thy ===== *)
theory Wallet_Props
  imports Wallet_Address Confirmer_Currency_Props
begin

text \<open>
  Items and wallets: a registered wallet gets all items that are known under it, and the rule that an item
  belongs to the user of its wallet is kept by the registration and by every transfer on the chain.
\<close>

declare all_ok_frame [simp del]

section \<open>Updating many rows\<close>

context unique_index
begin

lemma update_many_keeps_key:
  assumes "indexed d" and "(k, r) \<in> set (get d)" and "\<And>r. key (f r) = key r"
  shows "\<not> collides key k (f r) (update_rows P f (get d))"
proof
  assume "collides key k (f r) (update_rows P f (get d))"
  then obtain k' r' x where r': "k' \<noteq> k" "(k', r') \<in> set (get d)"
    "key (if P k' r' then f r' else r') = Some x" "key r = Some x"
    unfolding collides_def assms(3) by (auto simp: list_ex_iff update_rows_def)
  then have "key r' = Some x" by (simp add: assms(3) split: if_splits)
  moreover have "map_of (get d) k = Some r" "map_of (get d) k' = Some r'"
    using assms(1,2) r'(2) by (simp_all add: indexed_def)
  ultimately show False using indexed_eq [OF assms(1)] r'(1,4) by metis
qed

end

text \<open>Both changes to the items keep what the constraints look at.\<close>

lemma give_simps [simp]:
  "nft_userId (give_user env u r) = Some u" "nft_ownerWallet (give_user env u r) = nft_ownerWallet r"
  "nft_userId (give_wallet env w r) = nft_userId r" "nft_ownerWallet (give_wallet env w r) = Some w"
  by (simp_all add: give_user_def give_wallet_def)

lemma give_keeps:
  "arcade_machine_ok m \<Longrightarrow> arcade_machine_ok (give_user env u m)" "slot (give_user env u m) = slot m"
  "arcade_machine_ok m \<Longrightarrow> arcade_machine_ok (give_wallet env w m)" "slot (give_wallet env w m) = slot m"
  "game_center_ok g \<Longrightarrow> game_center_ok (give_user env u g)" "game_center_ok g \<Longrightarrow> game_center_ok (give_wallet env w g)"
  for m :: arcade_machine_row
  by (simp_all add: give_user_def give_wallet_def arcade_machine_ok_def game_center_ok_def slot_def)

lemma update_all_machines:
  assumes "arcadeMachine_tab.all_ok d" and "slot_index.indexed d"
    and "\<And>m :: arcade_machine_row. arcade_machine_ok m \<Longrightarrow> arcade_machine_ok (f m)"
    and "\<And>m :: arcade_machine_row. slot (f m) = slot m"
  shows "update_arcadeMachines P f d = Inr (put_arcadeMachines (update_rows P f (t_arcadeMachines d)) d)"
proof -
  have "check_arcadeMachine k (f m) (update_rows P f (t_arcadeMachines d)) = None"
    if m: "(k, m) \<in> set (t_arcadeMachines d)" for k m
  proof -
    have "arcade_machine_ok (f m)" using assms(1,3) m by (auto simp: arcadeMachine_tab.all_ok_def)
    then show ?thesis
      using slot_index.update_many_keeps_key [OF assms(2) m assms(4)]
      by (auto simp: check_arcadeMachine_def arcade_machine_ok_def split: option.splits)
  qed
  then show ?thesis by (auto simp: arcadeMachine_tab.update_many_Inr)
qed

lemma update_all_centers:
  assumes "gameCenter_tab.all_ok d" and "\<And>g :: game_center_row. game_center_ok g \<Longrightarrow> game_center_ok (f g)"
  shows "update_gameCenters P f d = Inr (put_gameCenters (update_rows P f (t_gameCenters d)) d)"
  using assms by (fastforce simp: gameCenter_tab.update_many_Inr gameCenter_tab.all_ok_def check_gameCenter_def
      game_center_ok_def)

lemma update_all_parts:
  "update_arcadeParts P f d = Inr (put_arcadeParts (update_rows P f (t_arcadeParts d)) d)"
  by (simp add: arcadePart_tab.update_many_Inr no_check_def)


section \<open>What a registration does\<close>

definition claim :: "env \<Rightarrow> user_id \<Rightarrow> wallet \<Rightarrow> 'a nft_scheme \<Rightarrow> 'a nft_scheme" where
  "claim env u w r =
     (if unclaimed w r then give_user env u r else if walletless u r then give_wallet env w r else r)"

lemma truncate_give [simp]:
  "nft.truncate (give_user env u r) = give_user env u (nft.truncate r)"
  "nft.truncate (give_wallet env w r) = give_wallet env w (nft.truncate r)"
  "unclaimed w (nft.truncate r) = unclaimed w r" "walletless u (nft.truncate r) = walletless u r"
  by (cases r; simp add: give_user_def give_wallet_def unclaimed_def walletless_def nft.truncate_def)+

lemma truncate_claim [simp]: "nft.truncate (claim env u w r) = claim env u w (nft.truncate r)"
  by (simp add: claim_def)

lemma claim_row: "claim env u w r = (let r' = if unclaimed w r then give_user env u r else r in
    if walletless u r' then give_wallet env w r' else r')"
  by (cases "nft_ownerWallet r") (auto simp: claim_def unclaimed_def walletless_def give_user_def Let_def)

lemma claim_twice:
  "map_of (update_rows (\<lambda>_. walletless u) (give_wallet env w) (update_rows (\<lambda>_. unclaimed w) (give_user env u) t)) k =
     map_option (claim env u w) (map_of t k)"
  by (cases "map_of t k") (simp_all add: map_of_update_rows claim_row Let_def)

definition wallet_set :: "user_id \<Rightarrow> wallet \<Rightarrow> db \<Rightarrow> db \<Rightarrow> bool" where
  "wallet_set u w d d' \<longleftrightarrow>
     (\<exists>r. map_of (t_users d) u = Some r \<and> u_walletAddress r = None \<and>
        map_of (t_users d') u = Some (r\<lparr>u_walletAddress := Some w\<rparr>)) \<and>
     (\<forall>v. v \<noteq> u \<longrightarrow> map_of (t_users d') v = map_of (t_users d) v)"

lemma register_queries_run:
  assumes "run_tx (register_queries env u w) d = Inr d'"
  shows "wallet_set u w d d'" "find_nft ty k d' = map_option (claim env u w) (find_nft ty k d)"
    "wallet_index.indexed d \<Longrightarrow> wallet_index.indexed d'"
proof -
  let ?um = "update_rows (\<lambda>_. unclaimed w) (give_user env u)"
    and ?wm = "update_rows (\<lambda>_. walletless u) (give_wallet env w)"
  from assms obtain d1 d2 d3 d4 d5 d6 where
    1: "update_where t_users put_users check_user_wallet u (\<lambda>r. u_walletAddress r = None)
        (\<lambda>r. r\<lparr>u_walletAddress := Some w\<rparr>) d = Inr d1"
    and 2: "update_arcadeMachines (\<lambda>_. unclaimed w) (give_user env u) d1 = Inr d2"
      "update_arcadeParts (\<lambda>_. unclaimed w) (give_user env u) d2 = Inr d3"
      "update_gameCenters (\<lambda>_. unclaimed w) (give_user env u) d3 = Inr d4"
      "update_arcadeMachines (\<lambda>_. walletless u) (give_wallet env w) d4 = Inr d5"
      "update_arcadeParts (\<lambda>_. walletless u) (give_wallet env w) d5 = Inr d6"
      "update_gameCenters (\<lambda>_. walletless u) (give_wallet env w) d6 = Inr d'"
    by (auto simp: register_queries_def split: sum.splits)
  have us: "t_users d' = t_users d1" "t_arcadeMachines d' = ?wm (?um (t_arcadeMachines d))"
    "t_arcadeParts d' = ?wm (?um (t_arcadeParts d))" "t_gameCenters d' = ?wm (?um (t_gameCenters d))"
    using 1 2 by (auto simp: user_tab.update_Inr arcadeMachine_tab.update_many_Inr
        arcadePart_tab.update_many_Inr gameCenter_tab.update_many_Inr put_defs)
  from 1 obtain r where r: "map_of (t_users d) u = Some r" "u_walletAddress r = None"
    "t_users d1 = apply_row (\<lambda>r. r\<lparr>u_walletAddress := Some w\<rparr>) u (t_users d)"
    by (auto simp: user_tab.update_Inr put_defs)
  then show "wallet_set u w d d'" by (simp add: wallet_set_def us map_of_apply_row)
  show "find_nft ty k d' = map_option (claim env u w) (find_nft ty k d)"
    by (cases ty) (simp_all add: us claim_twice option.map_comp o_def)
  assume "wallet_index.indexed d"
  with 1 wallet_index.update_indexed have "wallet_index.indexed d1" unfolding preserves_def by blast
  then show "wallet_index.indexed d'" using us(1) by (simp add: wallet_index.indexed_def)
qed



section \<open>Items follow their wallets\<close>



definition follows :: "db \<Rightarrow> 'a nft_scheme \<Rightarrow> bool" where
  "follows d r \<longleftrightarrow> (\<forall>w. nft_ownerWallet r = Some w \<longrightarrow> nft_userId r = map_option fst (user_by_wallet d w))"

definition linked :: "db \<Rightarrow> bool" where
  "linked d \<longleftrightarrow> wallet_index.indexed d \<and> map_of (t_users d) [] = None \<and>
     (\<forall>ty k item. find_nft ty k d = Some item \<longrightarrow> follows d item)"

lemma linkedD: "linked d \<Longrightarrow> find_nft ty k d = Some item \<Longrightarrow> follows d item"
  unfolding linked_def by blast

lemma linked_frame:
  assumes "linked d" and "t_users d' = t_users d" and "\<And>ty k. find_nft ty k d' = find_nft ty k d"
  shows "linked d'"
  using assms by (simp add: linked_def follows_def user_by_wallet_frame [OF assms(2)] wallet_index.indexed_def)

lemma linked_call [simp]: "linked (call c d) = linked d"
proof -
  have u: "t_users (call c d) = t_users d" by (simp add: call_def)
  have f: "find_nft ty k (call c d) = find_nft ty k d" for ty k by (rule find_nft_frame) (simp_all add: call_def)
  show ?thesis
    using linked_frame [of d "call c d", OF _ u f] linked_frame [of "call c d" d, OF _ u [symmetric] f [symmetric]] by blast
qed




section \<open>Transfers keep the link\<close>


















section \<open>Registering succeeds\<close>

definition items_ready :: "db \<Rightarrow> bool" where
  "items_ready d \<longleftrightarrow> arcadeMachine_tab.all_ok d \<and> slot_index.indexed d \<and> gameCenter_tab.all_ok d"

lemma machines_succeed:
  assumes "items_ready d" and "\<And>m :: arcade_machine_row. arcade_machine_ok m \<Longrightarrow> arcade_machine_ok (f m)"
    and "\<And>m :: arcade_machine_row. slot (f m) = slot m"
  shows "\<exists>d'. update_arcadeMachines P f d = Inr d' \<and> items_ready d'"
proof -
  from assms(1) have ok: "arcadeMachine_tab.all_ok d" "slot_index.indexed d" by (simp_all add: items_ready_def)
  note q = update_all_machines [where f = f and P = P, OF ok assms(2,3)]
  with arcadeMachine_tab.update_many_ok slot_index.update_many_indexed ok have
    "arcadeMachine_tab.all_ok (put_arcadeMachines (update_rows P f (t_arcadeMachines d)) d) \<and>
     slot_index.indexed (put_arcadeMachines (update_rows P f (t_arcadeMachines d)) d)"
    unfolding preserves_def by blast
  with q assms(1) show ?thesis by (simp add: items_ready_def gameCenter_tab.all_ok_def put_defs)
qed

lemma centers_succeed:
  assumes "items_ready d" and "\<And>g :: game_center_row. game_center_ok g \<Longrightarrow> game_center_ok (f g)"
  shows "\<exists>d'. update_gameCenters P f d = Inr d' \<and> items_ready d'"
proof -
  from assms(1) have ok: "gameCenter_tab.all_ok d" by (simp add: items_ready_def)
  note q = update_all_centers [where f = f and P = P, OF ok assms(2)]
  with gameCenter_tab.update_many_ok ok have
    "gameCenter_tab.all_ok (put_gameCenters (update_rows P f (t_gameCenters d)) d)"
    unfolding preserves_def by blast
  with q assms(1) show ?thesis
    by (simp add: items_ready_def arcadeMachine_tab.all_ok_def slot_index.indexed_def put_defs)
qed

lemma parts_succeed: "items_ready d \<Longrightarrow> \<exists>d'. update_arcadeParts P f d = Inr d' \<and> items_ready d'"
  by (simp add: update_all_parts items_ready_def arcadeMachine_tab.all_ok_def gameCenter_tab.all_ok_def
      slot_index.indexed_def put_defs)

lemma run_tx_succeeds:
  "\<forall>q \<in> set qs. \<forall>d. I d \<longrightarrow> (\<exists>d'. q d = Inr d' \<and> I d') \<Longrightarrow> I d \<Longrightarrow> \<exists>d'. run_tx qs d = Inr d'"
  by (induction qs arbitrary: d) force+

lemma set_wallet_succeeds:
  assumes "user_tab.all_ok d" and "wallet_index.indexed d" and "map_of (t_users d) u = Some r"
    and "u_walletAddress r = None" and "user_by_wallet d w = None"
  shows "\<exists>d'. update_where t_users put_users check_user_wallet u (\<lambda>r. u_walletAddress r = None)
      (\<lambda>r. r\<lparr>u_walletAddress := Some w\<rparr>) d = Inr d' \<and>
    t_arcadeMachines d' = t_arcadeMachines d \<and> t_gameCenters d' = t_gameCenters d"
proof -
  let ?f = "\<lambda>r. r\<lparr>u_walletAddress := Some w\<rparr>" and ?key = "wallet_key \<circ> u_walletAddress"
  have "\<not> collides ?key u (?f r) (apply_row ?f u (t_users d))"
  proof
    assume "collides ?key u (?f r) (apply_row ?f u (t_users d))"
    then obtain v x where v: "v \<noteq> u" "(v, x) \<in> set (apply_row ?f u (t_users d))"
      "wallet_key (u_walletAddress x) = Some (toLowerCase w)"
      by (auto simp: collides_def list_ex_iff)
    from set_apply_row [OF v(2)] v(1) have "(v, x) \<in> set (t_users d)" by auto
    with assms(5) v(3) show False by (auto simp: user_by_wallet_def find_None_iff)
  qed
  moreover have "user_ok r" using user_tab.all_okD [OF assms(1,3)] .
  ultimately have "check_user_wallet u (?f r) (apply_row ?f u (t_users d)) = None"
    by (auto simp: check_user_wallet_def check_user_def user_ok_def)
  with assms(3,4) show ?thesis by (auto simp: user_tab.update_Inr put_defs)
qed

text \<open>
  The registration of a free wallet succeeds on an orderly database and sets the wallet of the user:
  the user gets exactly the items that were known under the wallet, in any case of its letters, and belonged to
  nobody, and the wallet becomes the owner's wallet of exactly the items of the user that had none.
\<close>

lemma register_claims_items:
  assumes "db_ok d" and "slot_index.indexed d" and "wallet_index.indexed d"
    and "ctx_userId ctx = Some u" and "\<not> truthy (ctx_walletAddress ctx)"
    and "map_of (t_users d) u = Some r" and "u_walletAddress r = None" and "user_by_wallet d w = None"
  shows "\<exists>d'. register env ctx (Inr w) (\<lambda>d. d) d = (Inr (Some (r\<lparr>u_walletAddress := Some w\<rparr>)), d') \<and>
    (\<forall>ty k. find_nft ty k d' = map_option (claim env u w) (find_nft ty k d)) \<and>
    (\<forall>v. v \<noteq> u \<longrightarrow> map_of (t_users d') v = map_of (t_users d) v)"
proof -
  from assms(1) have ok: "user_tab.all_ok d" "items_ready d"
    using assms(2) by (simp_all add: db_ok_def items_ready_def)
  obtain d1 where d1: "update_where t_users put_users check_user_wallet u (\<lambda>r. u_walletAddress r = None)
      (\<lambda>r. r\<lparr>u_walletAddress := Some w\<rparr>) d = Inr d1"
    and fr: "t_arcadeMachines d1 = t_arcadeMachines d" "t_gameCenters d1 = t_gameCenters d"
    using set_wallet_succeeds [OF ok(1) assms(3,6,7,8)] by blast
  have "items_ready d1" using ok(2) fr
    by (simp add: items_ready_def arcadeMachine_tab.all_ok_def gameCenter_tab.all_ok_def slot_index.indexed_def)
  then have "\<exists>d'. run_tx (tl (register_queries env u w)) d1 = Inr d'"
    by (rule run_tx_succeeds [rotated])
      (auto simp: register_queries_def machines_succeed centers_succeed parts_succeed give_keeps)
  then obtain d' where d': "run_tx (register_queries env u w) d = Inr d'"
    using d1 by (auto simp: register_queries_def)
  note run = register_queries_run [OF d']
  let ?d = "call (QuestCheckAndUpdate u) d'"
  have f: "find_nft ty k ?d = map_option (claim env u w) (find_nft ty k d)" for ty k
    unfolding run(2) [symmetric] by (rule find_nft_frame) (simp_all add: call_def)
  from run(1) assms(6) have u: "map_of (t_users d') u = Some (r\<lparr>u_walletAddress := Some w\<rparr>)"
    "\<And>v. v \<noteq> u \<Longrightarrow> map_of (t_users d') v = map_of (t_users d) v"
    by (auto simp: wallet_set_def)
  moreover have "t_users ?d = t_users d'" by (simp add: call_def)
  moreover have "register env ctx (Inr w) (\<lambda>d. d) d = (Inr (map_of (t_users d') u), ?d)"
    using assms(4,5,8) d' by (simp add: register_def)
  ultimately show ?thesis using f by (intro exI [where x = ?d]) simp
qed

section \<open>On a small database\<close>

definition wallet_db :: db where
  "wallet_db = sample_db\<lparr>t_arcadeMachines := [(''a1'', sample_machine ''u1'' 20000 None)]\<rparr>"

lemma lower_wallets: "toLowerCase ''0xAb'' = ''0xab''" "toLowerCase ''0xab'' = ''0xab''" "toLowerCase ''0xef'' = ''0xef''"
  by code_simp+

lemma wallet_db_indexed: "wallet_index.indexed wallet_db"
  by (auto simp: wallet_index.indexed_def wallet_db_def sample_db_def sample_user_def split: if_splits)


definition guest_ctx :: ctx where
  "guest_ctx = \<lparr>ctx_userId = Some ''u2'', ctx_walletAddress = None, ctx_country = None\<rparr>"

lemma wallet_db_ready:
  "db_ok wallet_db" "slot_index.indexed wallet_db" "ctx_userId guest_ctx = Some ''u2''"
  "\<not> truthy (ctx_walletAddress guest_ctx)" "map_of (t_users wallet_db) ''u2'' = Some (sample_user None 0)"
  "u_walletAddress (sample_user None 0) = None" "user_by_wallet wallet_db ''0xef'' = None"
  "find_nft GAME_CENTER ''g1'' wallet_db = Some (nft.truncate sample_center)"
  by (simp_all add: wallet_db_def db_ok_def sample_defs user_tab.all_ok_def gameCenter_tab.all_ok_def guest_ctx_def
      arcadeMachine_tab.all_ok_def junk_tab.all_ok_def extractJunkInventory_tab.all_ok_def user_ok_def
      game_center_ok_def arcade_machine_ok_def slot_index.indexed_def user_by_wallet_def lower_wallets)

lemma register_claims_items_witness:
  "\<exists>d' item. register sample_env guest_ctx (Inr ''0xef'') (\<lambda>d. d) wallet_db =
      (Inr (Some (sample_user (Some ''0xef'') 0)), d') \<and>
    find_nft GAME_CENTER ''g1'' d' = Some item \<and> nft_ownerWallet item = Some ''0xef''"
proof -
  from register_claims_items [OF wallet_db_ready(1,2) wallet_db_indexed wallet_db_ready(3-7), of sample_env]
  obtain d' where d': "register sample_env guest_ctx (Inr ''0xef'') (\<lambda>d. d) wallet_db =
      (Inr (Some (sample_user (Some ''0xef'') 0)), d')"
    and f: "find_nft GAME_CENTER ''g1'' d' =
      map_option (claim sample_env ''u2'' ''0xef'') (find_nft GAME_CENTER ''g1'' wallet_db)"
    by (auto simp: sample_user_def simp del: find_nft.simps)
  have "find_nft GAME_CENTER ''g1'' d' = Some (claim sample_env ''u2'' ''0xef'' (nft.truncate sample_center))"
    unfolding f wallet_db_ready(8) by simp
  moreover have "nft_ownerWallet (claim sample_env ''u2'' ''0xef'' (nft.truncate sample_center)) = Some ''0xef''"
    by (simp add: claim_def unclaimed_def walletless_def give_wallet_def sample_center_def nft.truncate_def)
  ultimately show ?thesis using d' by blast
qed

text \<open>
  A part that was sent to a wallet, and the registration of this wallet at one of the gaps of the check: before the
  lookup of the user, and between the lookup and the update.
\<close>

definition moving_db :: db where
  "moving_db = wallet_db\<lparr>
     t_blocks := [(''y'', \<lparr>bl_number = 10, bl_parentHash = ''w'', bl_state = BLOCK_CONFIRMED, bl_scanState = WATCHED\<rparr>)],
     t_transfers := [(''x1'', hop_row ''y'' ''L'' ''0xef'')]\<rparr>"

definition registered_at :: "nat \<Rightarrow> nat \<Rightarrow> nat \<Rightarrow> db \<Rightarrow> db" where
  "registered_at i g n d = (if n = i then snd (register sample_env guest_ctx (Inr ''0xef'') (\<lambda>d. d) d) else d)"




text \<open>
  The gap that is left: a wallet that is registered between the lookup and the update ends with an item that belongs
  to nobody, and stays so, since the wallet cannot be registered again.
\<close>

lemma late_registration_loses_item:
  "\<exists>d' item. checkTransfers_during sample_env (registered_at 1) ''L'' (\<lambda>_. 0 :: int) moving_db = (Inr (), d') \<and>
     find_nft ARCADE_PART ''p1'' d' = Some item \<and> nft_ownerWallet item = Some ''0xef'' \<and> nft_userId item = None \<and>
     map_option fst (user_by_wallet d' ''0xef'') = Some ''u2'' \<and> \<not> linked d'"
proof -
  let ?run = "checkTransfers_during sample_env (registered_at 1) ''L'' (\<lambda>_. 0 :: int) moving_db"
  have "fst ?run = Inr () \<and> map_option fst (user_by_wallet (snd ?run) ''0xef'') = Some ''u2'' \<and>
      (case find_nft ARCADE_PART ''p1'' (snd ?run) of
         None \<Rightarrow> False | Some item \<Rightarrow> nft_ownerWallet item = Some ''0xef'' \<and> nft_userId item = None)"
    by code_simp
  then obtain d' item where d': "?run = (Inr (), d')" "map_option fst (user_by_wallet d' ''0xef'') = Some ''u2''"
    and item: "find_nft ARCADE_PART ''p1'' d' = Some item" "nft_ownerWallet item = Some ''0xef''" "nft_userId item = None"
    by (cases ?run) (auto split: option.splits simp del: find_nft.simps)
  have "\<not> linked d'"
  proof
    assume "linked d'"
    from linkedD [OF this item(1)] item(2,3) d'(2) show False by (simp add: follows_def)
  qed
  with d' item show ?thesis by blast
qed

end
