(* ===== verification/Confirmer_Stops.thy ===== *)
theory Confirmer_Stops
  imports Confirmer_Owner_Props Confirmer_Currency "HOL-Library.Countable"
begin

text \<open>
  What goes wrong when a transaction was seen in a block that was dropped and stands at the same place in the
  block that replaced it: the transfers of both fall into one group, since the hash of the block is missing from
  the query, and the Confirmer ends in the state \<open>ERROR\<close> at every start.
\<close>

declare all_ok_frame [simp del]

section \<open>Groups of sorted rows\<close>

lemma groupBy_loop_groups: "groupBy_loop f xs (gs @ hs) k cur = gs @ groupBy_loop f xs hs k cur"
  by (induction f xs hs k cur rule: groupBy_loop.induct) auto

lemma groupBy_loop_before:
  "\<forall>x \<in> set pre. f x \<noteq> v \<Longrightarrow> cur = [] \<or> k \<noteq> Some v \<Longrightarrow>
     \<exists>gs' k' cur'. groupBy_loop f (pre @ ys) gs k cur = groupBy_loop f ys gs' k' cur' \<and> (cur' = [] \<or> k' \<noteq> Some v)"
proof (induction pre arbitrary: gs k cur)
  case Nil
  then show ?case by auto
next
  case (Cons x pre)
  then show ?case by simp
qed

lemma groupBy_loop_run:
  "\<forall>x \<in> set mid. f x = v \<Longrightarrow> cur \<noteq> [] \<Longrightarrow>
     groupBy_loop f (mid @ ys) gs (Some v) cur = groupBy_loop f ys gs (Some v) (cur @ mid)"
  by (induction mid arbitrary: cur) auto

lemma groupBy_loop_after:
  assumes "\<forall>x \<in> set post. f x \<noteq> v" and "cur \<noteq> []"
  shows "\<exists>hs. groupBy_loop f post gs (Some v) cur = gs @ cur # hs"
proof (cases post)
  case (Cons x xs)
  with assms have "groupBy_loop f post gs (Some v) cur = groupBy_loop f xs ((gs @ [cur]) @ []) (Some (f x)) [x]" by auto
  then show ?thesis unfolding groupBy_loop_groups by simp
qed (use assms in simp)

text \<open>Rows of one key that stand together, and nowhere else, are a group.\<close>

lemma groupBy_segment:
  assumes "\<forall>x \<in> set pre \<union> set post. f x \<noteq> v" and "\<forall>x \<in> set mid. f x = v" and "mid \<noteq> []"
  shows "\<exists>gs hs. groupBy (pre @ mid @ post) f = gs @ mid # hs \<and> (\<forall>x \<in> set (concat gs). f x \<noteq> v)"
proof -
  obtain m ms where mid: "mid = m # ms" using assms(3) by (cases mid) auto
  obtain gs' k' cur' where 1: "groupBy (pre @ mid @ post) f = groupBy_loop f (mid @ post) gs' k' cur'"
    "cur' = [] \<or> k' \<noteq> Some v"
    using groupBy_loop_before [of pre f v "[]" None "mid @ post" "[]"] assms(1) by (auto simp: groupBy_def)
  let ?gs = "if cur' \<noteq> [] then gs' @ [cur'] else gs'"
  have "groupBy_loop f (mid @ post) gs' k' cur' = groupBy_loop f (ms @ post) ?gs (Some v) [m]"
    using assms(2) 1(2) by (auto simp: mid)
  also have "\<dots> = groupBy_loop f post ?gs (Some v) mid"
    using groupBy_loop_run [of ms f v "[m]" post ?gs] assms(2) by (simp add: mid)
  finally obtain hs where gs: "groupBy (pre @ mid @ post) f = ?gs @ mid # hs"
    using groupBy_loop_after [of post f v mid ?gs] assms(1,3) 1(1) by auto
  have "filter (\<lambda>x. f x = v) (concat (?gs @ mid # hs)) = filter (\<lambda>x. f x = v) (pre @ mid @ post)"
    unfolding gs [symmetric] groupBy_concat ..
  also have "\<dots> = mid" using assms(1,2) by (simp add: filter_empty_conv)
  finally have "filter (\<lambda>x. f x = v) (concat ?gs) @ mid @ filter (\<lambda>x. f x = v) (concat hs) = mid"
    using assms(2) by simp
  from arg_cong [OF this, of length] have "filter (\<lambda>x. f x = v) (concat ?gs) = []"
    by (simp only: length_append) simp
  then have "\<forall>x \<in> set (concat ?gs). f x \<noteq> v" unfolding filter_empty_conv .
  with gs show ?thesis by blast
qed

text \<open>A stable sort keeps the rows of one value of the key together and in their order.\<close>

lemma sorted_split:
  "sorted (map f ys) \<Longrightarrow> ys = filter (\<lambda>x. f x < v) ys @ filter (\<lambda>x. f x = v) ys @ filter (\<lambda>x. v < f x) ys"
proof (induction ys)
  case (Cons y ys)
  then have le: "f y \<le> f x" if "x \<in> set ys" for x using that by simp
  note ys = Cons.IH [OF sorted_wrt.simps(2) [THEN iffD1, THEN conjunct2, OF Cons.prems [simplified list.map]]]
  consider "f y < v" | "f y = v" | "v < f y" by force
  then show ?case
  proof cases
    case 1
    then have "\<not> v < f y" "f y \<noteq> v" by auto
    with 1 ys show ?thesis by simp
  next
    case 2
    then have "filter (\<lambda>x. f x < v) ys = []" using le by (fastforce simp: filter_empty_conv)
    with 2 ys show ?thesis by simp
  next
    case 3
    then have "filter (\<lambda>x. f x < v) ys = []" "filter (\<lambda>x. f x = v) ys = []"
      using le by (fastforce simp: filter_empty_conv)+
    moreover have "\<not> f y < v" "f y \<noteq> v" using 3 by auto
    ultimately show ?thesis using 3 ys by simp
  qed
qed simp

lemma sort_key_segment:
  "\<exists>pre post. sort_key f xs = pre @ filter (\<lambda>x. f x = v) xs @ post \<and>
     (\<forall>x \<in> set pre \<union> set post. x \<in> set xs \<and> f x \<noteq> v)"
proof -
  let ?ys = "sort_key f xs"
  have "?ys = filter (\<lambda>x. f x < v) ?ys @ filter (\<lambda>x. f x = v) xs @ filter (\<lambda>x. v < f x) ?ys"
    using sorted_split [of f ?ys v] by (simp add: sort_key_stable)
  moreover have "\<forall>x \<in> set (filter (\<lambda>x. f x < v) ?ys) \<union> set (filter (\<lambda>x. v < f x) ?ys). x \<in> set xs \<and> f x \<noteq> v"
    by auto
  ultimately show ?thesis by blast
qed

definition segment :: "('a \<Rightarrow> bool) \<Rightarrow> 'a list \<Rightarrow> 'a list \<Rightarrow> bool" where
  "segment Q xs mid \<longleftrightarrow> (\<exists>pre post. xs = pre @ mid @ post \<and> (\<forall>x \<in> set pre \<union> set post. \<not> Q x))"

lemma segment_refl: "segment Q xs xs"
  unfolding segment_def by (intro exI [where x = "[]"]) simp

lemma segment_sort:
  assumes "\<And>x. x \<in> set xs \<Longrightarrow> Q x \<Longrightarrow> f x = v" and "segment Q (filter (\<lambda>x. f x = v) xs) mid"
  shows "segment Q (sort_key f xs) mid"
proof -
  from assms(2) obtain pre post where in1: "filter (\<lambda>x. f x = v) xs = pre @ mid @ post"
    "\<forall>x \<in> set pre \<union> set post. \<not> Q x" unfolding segment_def by blast
  obtain pre' post' where in2: "sort_key f xs = pre' @ filter (\<lambda>x. f x = v) xs @ post'"
    "\<forall>x \<in> set pre' \<union> set post'. x \<in> set xs \<and> f x \<noteq> v"
    using sort_key_segment [of f xs v] by blast
  have "sort_key f xs = (pre' @ pre) @ mid @ (post @ post')" by (simp add: in2(1) in1(1))
  moreover have "\<forall>x \<in> set (pre' @ pre) \<union> set (post @ post'). \<not> Q x" using in1(2) in2(2) assms(1) by auto
  ultimately show ?thesis unfolding segment_def by blast
qed

lemma nft_type_order_inj: "nft_type_order x = nft_type_order y \<longleftrightarrow> x = y"
  by (cases x; cases y) auto

text \<open>All undecided rows of a token at one place of a block stand together in the query's order.\<close>

lemma transfer_rows_segment:
  assumes "inj collate"
    and "\<And>r. r \<in> set (decided_transfers d) \<Longrightarrow> group_key r = key \<Longrightarrow> tf_blockNumber (fst (snd r)) = n"
  shows "segment (\<lambda>r. group_key r = key) (transfer_rows collate d)
    (filter (\<lambda>r. group_key r = key) (decided_transfers d))"
proof -
  let ?D = "decided_transfers d" and ?Q = "\<lambda>r. group_key r = key"
  obtain i ty tok where key: "key = (i, ty, tok)" by (cases key)
  let ?f1 = "\<lambda>r :: decided_transfer. case r of (_, t, _) \<Rightarrow> tf_blockNumber t"
  let ?f2 = "\<lambda>r :: decided_transfer. case r of (_, t, _) \<Rightarrow> tf_transactionIndex t"
  let ?f3 = "\<lambda>r :: decided_transfer. case r of (_, t, _) \<Rightarrow> nft_type_order (tf_nftType t)"
  let ?f4 = "\<lambda>r :: decided_transfer. case r of (_, t, _) \<Rightarrow> collate (tf_tokenId t)"
  let ?D' = "filter (\<lambda>r. ?f4 r = collate tok) (filter (\<lambda>r. ?f3 r = nft_type_order ty)
     (filter (\<lambda>r. ?f2 r = i) (filter (\<lambda>r. ?f1 r = n) ?D)))"
  have place: "?f1 r = n" "?f2 r = i" "?f3 r = nft_type_order ty" "?f4 r = collate tok"
    if "r \<in> set ?D" "?Q r" for r
    using that assms(2) [of r] by (auto simp: group_key_def key split: prod.splits)
  have "?D' = filter ?Q ?D"
    unfolding filter_filter
  proof (rule filter_cong [OF refl], goal_cases)
    case (1 r)
    show ?case
      using place [OF 1] assms(1) by (auto simp: group_key_def key nft_type_order_inj inj_eq split: prod.splits)
  qed
  moreover have "segment ?Q (transfer_rows collate d) ?D'"
    unfolding transfer_rows_def
    apply (rule segment_sort [where v = n], use place(1) in simp, unfold filter_sort)
    apply (rule segment_sort [where v = i], use place(2) in simp, unfold filter_sort)
    apply (rule segment_sort [where v = "nft_type_order ty"], use place(3) in simp, unfold filter_sort)
    apply (rule segment_sort [where v = "collate tok"], use place(4) in simp)
    apply (rule segment_refl)
    done
  ultimately show ?thesis by simp
qed

section \<open>A transaction that was seen twice\<close>

definition place_key :: "transfer_row \<Rightarrow> int \<times> NftType \<times> nft_id" where
  "place_key t = (tf_transactionIndex t, tf_nftType t, tf_tokenId t)"

definition waits_at :: "int \<times> NftType \<times> nft_id \<Rightarrow> string \<times> transfer_row \<Rightarrow> bool" where
  "waits_at key r \<longleftrightarrow> tf_state (snd r) = T_PENDING \<and> place_key (snd r) = key"

text \<open>
  The transfers \<open>path\<close> of a token in a transaction wait twice, from two decided blocks of the height \<open>n\<close>, and no
  other transfer of the token waits at the same index of a transaction.
\<close>

definition seen_twice :: "int \<Rightarrow> int \<times> NftType \<times> nft_id \<Rightarrow> hop list \<Rightarrow> db \<Rightarrow> bool" where
  "seen_twice n key path d \<longleftrightarrow> distinct (map fst (t_transfers d)) \<and>
     mset (map (\<lambda>(_, t). (tf_from t, tf_to t)) (filter (waits_at key) (t_transfers d))) = mset (path @ path) \<and>
     (\<forall>(k, t) \<in> set (filter (waits_at key) (t_transfers d)). tf_blockNumber t = n \<and>
        (\<exists>b. map_of (t_blocks d) (tf_blockHash t) = Some b \<and> bl_state b \<noteq> BLOCK_PENDING))"

lemma decided_from:
  "r \<in> set (decided_transfers d) \<Longrightarrow> (fst r, fst (snd r)) \<in> set (t_transfers d) \<and> tf_state (fst (snd r)) = T_PENDING"
  by (auto simp: decided_transfers_def split: option.splits if_splits)

lemma waiting_decided:
  assumes "\<And>k t. (k, t) \<in> set ts \<Longrightarrow> waits_at key (k, t) \<Longrightarrow>
      \<exists>b. map_of (t_blocks d) (tf_blockHash t) = Some b \<and> bl_state b \<noteq> BLOCK_PENDING"
  shows "hops (filter (\<lambda>r. group_key r = key) (concat (map (\<lambda>(k, t). case map_of (t_blocks d) (tf_blockHash t) of
       None \<Rightarrow> [] | Some b \<Rightarrow> if tf_state t = T_PENDING \<and> bl_state b \<noteq> BLOCK_PENDING then [(k, t, bl_state b)] else []) ts)))
     = map (\<lambda>(_, t). (tf_from t, tf_to t)) (filter (waits_at key) ts)"
  using assms
proof (induction ts)
  case (Cons r ts)
  obtain k t where r: "r = (k, t)" by (cases r)
  from Cons.prems [of k t] Cons.IH Cons.prems show ?case
    by (auto simp: r hops_def waits_at_def place_key_def group_key_def split: option.splits)
qed (simp add: hops_def)

lemma twice_group:
  assumes "inj collate" and "seen_twice n key path d" and "path \<noteq> []"
  shows "\<exists>gs g hs. groupBy (transfer_rows collate d) group_key = gs @ g # hs \<and>
    (\<forall>r \<in> set (concat gs). group_key r \<noteq> key) \<and> mset (hops g) = mset (path @ path)"
proof -
  let ?mid = "filter (\<lambda>r. group_key r = key) (decided_transfers d)"
  have h: "hops ?mid = map (\<lambda>(_, t). (tf_from t, tf_to t)) (filter (waits_at key) (t_transfers d))"
    unfolding decided_transfers_def by (rule waiting_decided) (use assms(2) in \<open>auto simp: seen_twice_def\<close>)
  then have m: "mset (hops ?mid) = mset (path @ path)" using assms(2) by (simp add: seen_twice_def)
  have ne: "?mid \<noteq> []"
  proof
    assume "?mid = []"
    with m have "mset (path @ path) = {#}" by (simp only: hops_def list.map mset.simps)
    with assms(3) show False by simp
  qed
  have "tf_blockNumber (fst (snd r)) = n" if "r \<in> set (decided_transfers d)" "group_key r = key" for r
    using decided_from [OF that(1)] that(2) assms(2)
    by (fastforce simp: seen_twice_def waits_at_def place_key_def group_key_def split: prod.splits)
  from transfer_rows_segment [OF assms(1) this] obtain pre post where
    rows: "transfer_rows collate d = pre @ ?mid @ post" "\<forall>r \<in> set pre \<union> set post. group_key r \<noteq> key"
    unfolding segment_def by blast
  from groupBy_segment [OF rows(2) _ ne] obtain gs hs where
    "groupBy (pre @ ?mid @ post) group_key = gs @ ?mid # hs" "\<forall>r \<in> set (concat gs). group_key r \<noteq> key" by auto
  with m rows(1) show ?thesis by metis
qed

lemma balance_append: "balance (hs @ hs') w = balance hs w + balance hs' w"
  by (simp add: balance_def)

lemma twice_no_path:
  assumes "walk a path b" and "a \<noteq> b" and "mset (hops g) = mset (path @ path)"
  shows "process_group env locker g d = (Inl (JsError ''Invalid transfer path.''), d)"
proof -
  have "balance (hops g) b = 2"
    using balance_mset [OF assms(3)] walk_balance [OF assms(1), of b] assms(2) by (simp add: balance_append)
  then have "getLastAddress (hops g) = Inl (JsError ''Invalid transfer path.'')"
    unfolding getLastAddress_def by (intro unbalanced_endpoint [of _ b]) simp
  then show ?thesis by (simp add: process_group_alone)
qed

section \<open>What the groups in front leave\<close>

text \<open>A group marks its own transfers at most, and touches no block.\<close>

definition marks :: "string set \<Rightarrow> db \<Rightarrow> db \<Rightarrow> bool" where
  "marks ids d d' \<longleftrightarrow> t_blocks d' = t_blocks d \<and> (t_transfers d' = t_transfers d \<or>
     (\<exists>s. t_transfers d' = update_rows (\<lambda>k _. k \<in> ids) (\<lambda>t. t\<lparr>tf_state := s\<rparr>) (t_transfers d)))"

lemma marks_cong: "t_blocks d1 = t_blocks d \<Longrightarrow> t_transfers d1 = t_transfers d \<Longrightarrow> marks ids d1 d' \<Longrightarrow> marks ids d d'"
  by (simp add: marks_def)

lemma marks_same: "t_blocks d' = t_blocks d \<Longrightarrow> t_transfers d' = t_transfers d \<Longrightarrow> marks ids d d'"
  by (simp add: marks_def)

lemma finish_group_marks: "finish_group g s d = (res, d') \<Longrightarrow> marks (set (map fst g)) d d'"
  by (auto simp: finish_group_def transfer_tab.update_many_Inr put_defs marks_def split: sum.splits)

lemma updateItemOwner_same:
  assumes "updateItemOwner env ty k w p s n i d = (res, d')"
  shows "t_blocks d' = t_blocks d" "t_transfers d' = t_transfers d"
proof -
  consider "d' = d" | u d1 where "update_nft_owner env ty k u w p s n i d = Inr d1" "d' = notify ty s k d1"
    using assms unfolding updateItemOwner_alone Let_def by (auto split: option.splits if_splits sum.splits)
  then have "t_blocks d' = t_blocks d \<and> t_transfers d' = t_transfers d"
  proof cases
    case 2
    with update_owner_frame [OF 2(1)] show ?thesis by simp
  qed simp
  then show "t_blocks d' = t_blocks d" "t_transfers d' = t_transfers d" by simp_all
qed

lemma confirm_group_marks:
  assumes "confirm_group env locker g sender receiver t d = (res, d')"
  shows "marks (set (map fst g)) d d'"
proof (cases "item_owner locker receiver (hops g)")
  case (Inl e)
  with assms show ?thesis by (simp add: confirm_group_alone Let_def marks_def)
next
  case (Inr w)
  let ?s = "if isWalletAddressEqual (Some receiver) (Some locker) then IN_AKIVERSE else IN_WALLET"
  obtain r d1 where u: "updateItemOwner env (tf_nftType t) (tf_tokenId t) w receiver ?s
      (tf_blockNumber t) (tf_transactionIndex t) d = (r, d1)" by fastforce
  note u = updateItemOwner_same [OF u] u
  from assms consider "d' = d1"
    | d2 where "settle_record env locker sender receiver t BLOCK_CONFIRMED d1 = Inr d2" "finish_group g BLOCK_CONFIRMED d2 = (res, d')"
    unfolding confirm_group_alone Inr Let_def sum.case u(3) prod.case by (auto split: sum.splits if_splits)
  then show ?thesis
  proof cases
    case 2
    note f = settle_record_frame(2,3) [OF 2(1)]
    show ?thesis by (rule marks_cong [OF _ _ finish_group_marks [OF 2(2)]]) (simp_all add: f u(1,2))
  qed (simp add: marks_same u(1,2))
qed

lemma process_group_marks:
  "process_group env locker g d = (res, d') \<Longrightarrow> marks (set (map fst g)) d d'"
  unfolding process_group_alone
  by (auto split: sum.splits option.splits if_splits list.splits simp del: list.map set_map
      dest!: finish_group_marks confirm_group_marks intro: marks_same)

definition apart :: "int \<times> NftType \<times> nft_id \<Rightarrow> string set \<Rightarrow> db \<Rightarrow> bool" where
  "apart key ids d \<longleftrightarrow> (\<forall>k t. (k, t) \<in> set (t_transfers d) \<longrightarrow> k \<in> ids \<longrightarrow> place_key t \<noteq> key)"

lemma place_key_state [simp]: "place_key (t\<lparr>tf_state := s\<rparr>) = place_key t"
  by (simp add: place_key_def)

lemma marks_apart: "marks ids d d' \<Longrightarrow> apart key ids' d \<Longrightarrow> apart key ids' d'"
  by (fastforce simp: marks_def apart_def update_rows_def split: if_splits)

lemma filter_marked:
  "\<forall>k t. (k, t) \<in> set ts \<longrightarrow> k \<in> ids \<longrightarrow> place_key t \<noteq> key \<Longrightarrow>
     filter (waits_at key) (update_rows (\<lambda>k _. k \<in> ids) (\<lambda>t. t\<lparr>tf_state := s\<rparr>) ts) = filter (waits_at key) ts"
  by (induction ts) (auto simp: update_rows_def waits_at_def split: if_splits)

lemma marks_seen_twice:
  assumes "marks ids d d'" and "apart key ids d" and "seen_twice n key path d"
  shows "seen_twice n key path d'"
proof -
  have b: "t_blocks d' = t_blocks d" using assms(1) by (simp add: marks_def)
  have f: "filter (waits_at key) (t_transfers d') = filter (waits_at key) (t_transfers d)"
    using assms(1,2) filter_marked [of "t_transfers d" ids key] by (auto simp: marks_def apart_def)
  have "map fst (t_transfers d') = map fst (t_transfers d)"
    using assms(1) by (auto simp: marks_def)
  then have i: "distinct (map fst (t_transfers d'))" using assms(3) by (simp add: seen_twice_def)
  from assms(3) show ?thesis using i unfolding seen_twice_def f b by blast
qed

lemma process_groups_stop:
  assumes "\<And>d. process_group env locker g d = (Inl e0, d)"
  shows "seen_twice n key path d \<Longrightarrow> \<forall>h \<in> set gs. apart key (set (map fst h)) d \<Longrightarrow>
     \<exists>e d'. process_groups env locker (gs @ g # hs) d = (Inl e, d') \<and> seen_twice n key path d'"
proof (induction gs arbitrary: d)
  case Nil
  with assms show ?case by simp
next
  case (Cons h gs)
  obtain r d1 where r: "process_group env locker h d = (r, d1)" by fastforce
  note m = process_group_marks [OF r]
  have s: "seen_twice n key path d1" using marks_seen_twice [OF m] Cons.prems by simp
  show ?case
  proof (cases r)
    case (Inl e)
    with r s show ?thesis by simp
  next
    case (Inr x)
    have "\<forall>h \<in> set gs. apart key (set (map fst h)) d1" using Cons.prems(2) marks_apart [OF m] by simp
    from Cons.IH [OF s this] Inr r show ?thesis by simp
  qed
qed

lemma apart_groups:
  assumes "set g \<subseteq> set (transfer_rows collate d)" and "\<forall>r \<in> set g. group_key r \<noteq> key" and "distinct (map fst (t_transfers d))"
  shows "apart key (set (map fst g)) d"
  unfolding apart_def
proof (intro allI impI notI)
  fix k t assume kt: "(k, t) \<in> set (t_transfers d)" and "k \<in> set (map fst g)" and key: "place_key t = key"
  then obtain r where r: "r \<in> set g" "fst r = k" by auto
  with assms(1) have "r \<in> set (decided_transfers d)" by (auto simp: transfer_rows_def)
  from decided_from [OF this] r(2) have "(k, fst (snd r)) \<in> set (t_transfers d)" by simp
  with kt assms(3) have "fst (snd r) = t" by (metis map_of_is_SomeI option.inject)
  then have "group_key r = key" using key by (cases r) (simp add: place_key_def group_key_def)
  with assms(2) r(1) show False by blast
qed

lemma checkTransfers_stops:
  assumes "inj collate" and "seen_twice n key path d" and "walk a path b" and "a \<noteq> b"
  shows "\<exists>e d'. checkTransfers env locker collate d = (Inl e, d') \<and> seen_twice n key path d'"
proof -
  have "path \<noteq> []" using assms(3,4) by auto
  from twice_group [OF assms(1,2) this] obtain gs g hs where gs: "groupBy (transfer_rows collate d) group_key = gs @ g # hs"
    and k: "\<forall>r \<in> set (concat gs). group_key r \<noteq> key" and g: "mset (hops g) = mset (path @ path)" by blast
  have sub: "set h \<subseteq> set (transfer_rows collate d)" if "h \<in> set gs" for h
    using that gs by (intro groupBy_set [where f = group_key]) simp
  have "apart key (set (map fst h)) d" if "h \<in> set gs" for h
    by (rule apart_groups [OF sub [OF that]]) (use that k assms(2) in \<open>auto simp: seen_twice_def\<close>)
  then show ?thesis
    unfolding checkTransfers_alone gs using process_groups_stop [OF twice_no_path [OF assms(3,4) g] assms(2)] by blast
qed

section \<open>Round after round\<close>

lemma decided_blocks:
  assumes "mark_blocks hashes s d = Inr d'" and "s \<noteq> BLOCK_PENDING" and "seen_twice n key path d"
  shows "seen_twice n key path d'"
proof -
  have t: "t_transfers d' = t_transfers d"
    and b: "t_blocks d' = update_rows (\<lambda>h _. h \<in> set hashes) (\<lambda>r. r\<lparr>bl_state := s\<rparr>) (t_blocks d)"
    using assms(1) by (auto simp: mark_blocks_def block_tab.update_many_Inr put_defs)
  have "\<exists>b. map_of (t_blocks d') h = Some b \<and> bl_state b \<noteq> BLOCK_PENDING"
    if "map_of (t_blocks d) h = Some b" "bl_state b \<noteq> BLOCK_PENDING" for h b
    using that assms(2) by (auto simp: b map_of_update_rows)
  with assms(3) show ?thesis unfolding seen_twice_def t by fastforce
qed

lemma round_stops:
  assumes "inj collate" and "seen_twice n key path d" and "walk a path b" and "a \<noteq> b"
  shows "\<exists>e d'. confirmer_round c collate env d = (Inl e, d') \<and> seen_twice n key path d'"
proof (cases "confirmBlocks d")
  case (Inl e)
  with assms(2) show ?thesis by (simp add: confirmer_round_def)
next
  case 1: (Inr d1)
  then have s1: "seen_twice n key path d1"
    using assms(2) by (auto simp: confirmBlocks_def bind_res_Inr_iff intro: decided_blocks)
  show ?thesis
  proof (cases "invalidateBlocks d1")
    case (Inl e)
    with 1 s1 show ?thesis by (simp add: confirmer_round_def)
  next
    case 2: (Inr d2)
    then have "seen_twice n key path d2" using s1 by (auto simp: invalidateBlocks_def intro: decided_blocks)
    from checkTransfers_stops [OF assms(1) this assms(3,4)] obtain e d3 where
      "checkTransfers env (akiverseLockerAddress c) collate d2 = (Inl e, d3)" "seen_twice n key path d3" by blast
    with 1 2 show ?thesis by (simp add: confirmer_round_def)
  qed
qed

text \<open>
  Starting the Confirmer again and again: every start comes with its rounds and with what the rest of the system
  does until the next start; the result lists the states in which the Confirmer ends.
\<close>

fun confirmer_starts ::
  "confirmer \<Rightarrow> (nft_id \<Rightarrow> 'o::linorder) \<Rightarrow> ((env \<times> (db \<Rightarrow> db)) list \<times> (db \<Rightarrow> db)) list \<Rightarrow> db \<Rightarrow> ConfirmerState list" where
  "confirmer_starts c collate [] d = []"
| "confirmer_starts c collate ((rs, other) # starts) d =
     (case confirmer_loop c collate rs d of
        (s, d') \<Rightarrow> s # confirmer_starts c collate starts (other d'))"

text \<open>
  (C21) The transfers \<open>path\<close> of a token in a transaction lead from \<open>a\<close> to another wallet \<open>b\<close> and wait twice, since the
  transaction was first seen in a block that was dropped and stands at the same place of the block that replaced it.  Then the
  Confirmer, whatever else waits in front of them or behind, ends in the state \<open>ERROR\<close> in its first round, and again at every
  further start, whatever the rest of the system does in between, as long as these two sets of transfers remain the only ones of
  the token that wait at this index of a transaction: the same rows are in one group every time, since the hash of the block is
  missing from the query, they are no path, and the Confirmer never gets behind them.
\<close>

theorem reorganised_transfer_stops:
  assumes "inj collate" and "seen_twice n key path d" and "walk a path b" and "a \<noteq> b"
    and "\<And>rs other. (rs, other) \<in> set starts \<Longrightarrow>
      rs \<noteq> [] \<and> (\<forall>e. seen_twice n key path e \<longrightarrow> seen_twice n key path (other e))"
  shows "confirmer_starts c collate starts d = replicate (length starts) CONFIRMER_ERROR"
  using assms(2,5)
proof (induction starts arbitrary: d)
  case (Cons st starts)
  obtain rs other where st: "st = (rs, other)" by (cases st)
  with Cons.prems(2) have ne: "rs \<noteq> []" and keep: "\<And>e. seen_twice n key path e \<Longrightarrow> seen_twice n key path (other e)" by auto
  then obtain env x rest where rs: "rs = (env, x) # rest" by (cases rs) auto
  from round_stops [OF assms(1) Cons.prems(1) assms(3,4)] obtain e d' where
    r: "confirmer_round c collate env d = (Inl e, d')" and s: "seen_twice n key path d'" by blast
  have "confirmer_starts c collate starts (other d') = replicate (length starts) CONFIRMER_ERROR"
    by (rule Cons.IH [OF keep [OF s]]) (use Cons.prems(2) in auto)
  with r show ?case by (simp add: st rs)
qed simp

text \<open>The sample: a dropped block and its replacement, both decided, with the same transfer of a part.\<close>

definition reorg_db :: db where
  "reorg_db = sample_db\<lparr>
     t_blocks := [(''x'', \<lparr>bl_number = 10, bl_parentHash = ''w'', bl_state = BLOCK_INVALIDATED, bl_scanState = WATCHED\<rparr>),
       (''y'', \<lparr>bl_number = 10, bl_parentHash = ''w'', bl_state = BLOCK_CONFIRMED, bl_scanState = WATCHED\<rparr>)],
     t_transfers := [(''k1'', hop_row ''x'' ''A'' ''B''), (''k2'', hop_row ''y'' ''A'' ''B'')]\<rparr>"

definition sample_confirmer :: confirmer where
  "sample_confirmer = \<lparr>akiverseLockerAddress = ''L'', usdcWalletAddress = ''U''\<rparr>"

theorem reorganised_transfer_stops_witness:
  "confirmer_starts sample_confirmer (to_nat :: nft_id \<Rightarrow> nat) [([(sample_env, \<lambda>d. d)], \<lambda>d. d), ([(sample_env, \<lambda>d. d)], \<lambda>d. d)] reorg_db =
     [CONFIRMER_ERROR, CONFIRMER_ERROR]"
proof -
  have "seen_twice 10 (0, ARCADE_PART, ''p1'') [(''A'', ''B'')] reorg_db"
    by (simp add: seen_twice_def reorg_db_def hop_row_def waits_at_def place_key_def)
  from reorganised_transfer_stops [where starts = "[([(sample_env, \<lambda>d. d)], \<lambda>d. d), ([(sample_env, \<lambda>d. d)], \<lambda>d. d)]" and c = sample_confirmer,
      OF inj_to_nat this, of "''A''" "''B''"]
  show ?thesis by simp
qed

end
