(* ===== verification/Item_Usecases.thy ===== *)
theory Item_Usecases
  imports Arcade_Machines
begin

text \<open>
  The other use cases about items: \<open>src/use_cases/game_center_usecase.ts\<close>,
  \<open>arcade_part_usecase.ts\<close>, \<open>junk_usecase.ts\<close> and \<open>processing_transfer_usecase.ts\<close>.  As for the
  machines, \<open>other\<close> is what other requests do between the reads and the writes.
\<close>

section \<open>Game centers\<close>

definition set_placement :: "env \<Rightarrow> bool \<Rightarrow> game_center_row \<Rightarrow> game_center_row" where
  "set_placement env b r = r\<lparr>gc_placementAllowed := b, nft_updatedAt := env_now env\<rparr>"

definition startRecruitmentForArcadeMachine ::
  "env \<Rightarrow> ctx \<Rightarrow> nft_id \<Rightarrow> (db \<Rightarrow> db) \<Rightarrow> db \<Rightarrow> game_center_row option res \<times> db" where
  "startRecruitmentForArcadeMachine env ctx k other d =
     (case map_of (t_gameCenters d) k of
        None \<Rightarrow> (Inl (NotFoundUseCaseError ''GameCenter not found'' ''GameCenter''), d)
      | Some gameCenter \<Rightarrow>
      if \<not> currentUserOwns ctx [nft_userId gameCenter] then (Inl PermissionDeniedUseCaseError, d)
      else if nft_state gameCenter \<noteq> IN_AKIVERSE then (Inl (IllegalStateUseCaseError ''not IN_AKIVERSE''), d)
      else if gc_placementAllowed gameCenter then (Inl (IllegalStateUseCaseError ''already recruiting''), d)
      else
      (case update_gameCenter k (\<lambda>_. True) (set_placement env True) (other d) of
         Inl e \<Rightarrow> (Inl e, other d)
       | Inr d' \<Rightarrow>
           (Inr (map_of (t_gameCenters d') k), call (NotifyStartRentOut (the (ctx_userId ctx)) k) d')))"

definition stopRecruitmentForArcadeMachine ::
  "env \<Rightarrow> ctx \<Rightarrow> nft_id \<Rightarrow> (db \<Rightarrow> db) \<Rightarrow> db \<Rightarrow> game_center_row option res \<times> db" where
  "stopRecruitmentForArcadeMachine env ctx k other d =
     (case map_of (t_gameCenters d) k of
        None \<Rightarrow> (Inl (NotFoundUseCaseError ''GameCenter not found'' ''GameCenter''), d)
      | Some gameCenter \<Rightarrow>
      if \<not> currentUserOwns ctx [nft_userId gameCenter] then (Inl PermissionDeniedUseCaseError, d)
      else if \<not> gc_placementAllowed gameCenter
      then (Inl (IllegalStateUseCaseError ''already stopped recruiting''), d)
      else
      (case update_gameCenter k (\<lambda>_. True) (set_placement env False) (other d) of
         Inl e \<Rightarrow> (Inl e, other d)
       | Inr d' \<Rightarrow>
           (Inr (map_of (t_gameCenters d') k), call (NotifyStopRentingReserve (the (ctx_userId ctx)) k) d')))"

definition listPlacementArcadeMachines ::
  "nft_id \<Rightarrow> db \<Rightarrow> (game_center_row \<times> (nft_id \<times> arcade_machine_row) list) res" where
  "listPlacementArcadeMachines k d =
     (case map_of (t_gameCenters d) k of
        None \<Rightarrow> Inl (PrismaKnownRequestError ''P2025'')
      | Some gameCenter \<Rightarrow>
          Inr (gameCenter, filter (\<lambda>(_, r). am_gameCenterId r = Some k) (t_arcadeMachines d)))"

definition find_centers :: "db \<Rightarrow> nft_id list \<Rightarrow> (nft_id \<times> game_center_row) list" where
  "find_centers d ids = filter (\<lambda>(k, r). k \<in> set ids) (t_gameCenters d)"

definition withdraw_centers ::
  "env \<Rightarrow> ctx \<Rightarrow> (nat \<Rightarrow> string) \<Rightarrow> nft_id list \<Rightarrow> (db \<Rightarrow> db) \<Rightarrow> db \<Rightarrow>
   (nft_id \<times> game_center_row) list res \<times> db" where
  "withdraw_centers env ctx newId ids other d =
     (let gameCenters = find_centers d ids in
      if length gameCenters \<noteq> length ids
      then (Inl (NotFoundUseCaseError ''GameCenter not found'' ''GameCenter''), d)
      else if \<not> currentUserOwns ctx (map (\<lambda>(k, r). nft_userId r) gameCenters)
      then (Inl PermissionDeniedUseCaseError, d)
      else
        (case withdrawGameCenters env newId (map (\<lambda>(k, r). (k, r, user_of d r)) gameCenters) (other d) of
           (Inl e, d') \<Rightarrow> (Inl e, d')
         | (Inr _, d') \<Rightarrow> (Inr (find_centers d' ids), d')))"

text \<open>
  \<open>Promise.all\<close> over the deposits of any type of item: each runs to its end whatever the others do; the first
  failure is the answer.
\<close>

fun deposit_items ::
  "env \<Rightarrow> (nat \<Rightarrow> string) \<Rightarrow> NftType \<Rightarrow> string \<Rightarrow> (nft_id \<times> 'a nft_scheme \<times> owner option) list \<Rightarrow> db \<Rightarrow>
   use_case_error option \<times> db" where
  "deposit_items env newId nftType hash [] d = (None, d)"
| "deposit_items env newId nftType hash ((k, r, user) # items) d =
     (case deposit_nft env (newId (length items)) nftType k r user hash d of
        (res, d') \<Rightarrow>
          (case deposit_items env newId nftType hash items d' of
             (err, d'') \<Rightarrow> (case res of Inl e \<Rightarrow> Some e | Inr _ \<Rightarrow> err, d'')))"

definition deposit_centers ::
  "env \<Rightarrow> ctx \<Rightarrow> (nat \<Rightarrow> string) \<Rightarrow> string \<Rightarrow> nft_id list \<Rightarrow> (db \<Rightarrow> db) \<Rightarrow> db \<Rightarrow>
   (nft_id \<times> game_center_row) list res \<times> db" where
  "deposit_centers env ctx newId hash ids other d =
     (let gameCenters = find_centers d ids in
      if length gameCenters \<noteq> length ids
      then (Inl (NotFoundUseCaseError ''GameCenter not found'' ''GameCenter''), d)
      else if \<not> currentUserOwns ctx (map (\<lambda>(k, r). nft_userId r) gameCenters)
      then (Inl PermissionDeniedUseCaseError, d)
      else
        (case deposit_items env newId GAME_CENTER hash (map (\<lambda>(k, r). (k, r, user_of d r)) gameCenters)
                (other d) of
           (Some e, d') \<Rightarrow> (Inl e, d')
         | (None, d') \<Rightarrow> (Inr (find_centers d' ids), d')))"

section \<open>Parts\<close>

definition find_parts :: "db \<Rightarrow> nft_id list \<Rightarrow> (nft_id \<times> arcade_part_row) list" where
  "find_parts d ids = filter (\<lambda>(k, r). k \<in> set ids) (t_arcadeParts d)"

text \<open>The games of the ROMs: the first one that is disabled, or unknown (then a \<open>TypeError\<close>).\<close>

fun first_rom_error :: "string list \<Rightarrow> use_case_error option" where
  "first_rom_error [] = None"
| "first_rom_error (g # gs) =
     (case games g of
        None \<Rightarrow> Some JsTypeError
      | Some gi \<Rightarrow>
          if \<not> enabled gi then Some (InvalidArgumentUseCaseError ''Invalid game titles cannot be withdrawn'')
          else first_rom_error gs)"

definition withdraw_parts ::
  "env \<Rightarrow> ctx \<Rightarrow> (nat \<Rightarrow> string) \<Rightarrow> nft_id list \<Rightarrow> (db \<Rightarrow> db) \<Rightarrow> db \<Rightarrow>
   (nft_id \<times> arcade_part_row) list res \<times> db" where
  "withdraw_parts env ctx newId ids other d =
     (let arcadeParts = find_parts d ids in
      if length arcadeParts \<noteq> length ids
      then (Inl (NotFoundUseCaseError ''ArcadePart not found'' ''ArcadePart''), d)
      else if \<not> currentUserOwns ctx (map (\<lambda>(k, r). nft_userId r) arcadeParts)
      then (Inl PermissionDeniedUseCaseError, d)
      else if find (\<lambda>(k, r). ap_destroyedAt r \<noteq> None) arcadeParts \<noteq> None
      then (Inl (IllegalStateUseCaseError ''already destroyed''), d)
      else
        (case first_rom_error (remdups (map (\<lambda>(k, r). ap_subCategory r)
                (filter (\<lambda>(k, r). ap_category r = ROM) arcadeParts))) of
           Some e \<Rightarrow> (Inl e, d)
         | None \<Rightarrow>
             (case withdrawArcadeParts env newId (map (\<lambda>(k, r). (k, r, user_of d r)) arcadeParts) (other d) of
                (Inl e, d') \<Rightarrow> (Inl e, d')
              | (Inr _, d') \<Rightarrow> (Inr (find_parts d' ids), d'))))"

definition deposit_parts ::
  "env \<Rightarrow> ctx \<Rightarrow> (nat \<Rightarrow> string) \<Rightarrow> string \<Rightarrow> nft_id list \<Rightarrow> (db \<Rightarrow> db) \<Rightarrow> db \<Rightarrow>
   (nft_id \<times> arcade_part_row) list res \<times> db" where
  "deposit_parts env ctx newId hash ids other d =
     (let arcadeParts = find_parts d ids in
      if length arcadeParts \<noteq> length ids
      then (Inl (NotFoundUseCaseError ''ArcadePart not found'' ''ArcadePart''), d)
      else if \<not> currentUserOwns ctx (map (\<lambda>(k, r). nft_userId r) arcadeParts)
      then (Inl PermissionDeniedUseCaseError, d)
      else
        (case deposit_items env newId ARCADE_PART hash (map (\<lambda>(k, r). (k, r, user_of d r)) arcadeParts)
                (other d) of
           (Some e, d') \<Rightarrow> (Inl e, d')
         | (None, d') \<Rightarrow> (Inr (find_parts d' ids), d')))"

section \<open>Junk\<close>

definition swapped_part :: "env \<Rightarrow> ctx \<Rightarrow> ArcadePartCategory \<Rightarrow> string \<Rightarrow> arcade_part_row" where
  "swapped_part env ctx c s = \<lparr>nft_userId = ctx_userId ctx, nft_ownerWallet = ctx_walletAddress ctx,
     nft_physicalWallet = None, nft_state = IN_AKIVERSE, nft_lastBlock = 0, nft_lastTransactionIndex = 0,
     nft_updatedAt = env_now env, ap_category = c, ap_subCategory = s,
     ap_destroyedAt = None, ap_craftId = None, ap_createDismantleId = None\<rparr>"

definition swap_queries ::
  "env \<Rightarrow> ctx \<Rightarrow> (nat \<Rightarrow> nft_id) \<Rightarrow> ArcadePartCategory \<Rightarrow> string \<Rightarrow> int \<Rightarrow> int \<Rightarrow> query list" where
  "swap_queries env ctx newId c s useJunkCount numArcadePartsToCreate =
     update_junk (the (ctx_userId ctx), c, s) (\<lambda>_. True) (\<lambda>amount. amount - useJunkCount)
     # map (\<lambda>i. create_arcadePart (newId i) (swapped_part env ctx c s)) [0..<nat numArcadePartsToCreate]"

definition swap_error :: "use_case_error \<Rightarrow> use_case_error" where
  "swap_error e =
     (if e = PrismaUnknownRequestError ''junks_amount_over_zero''
      then ConflictUseCaseError ''Insufficient amount of junk'' else UnhandledUseCaseError ''swap failed'')"

definition swap_junk ::
  "env \<Rightarrow> ctx \<Rightarrow> (nat \<Rightarrow> nft_id) \<Rightarrow> ArcadePartCategory \<Rightarrow> string \<Rightarrow> int \<Rightarrow> (db \<Rightarrow> db) \<Rightarrow> db \<Rightarrow>
   (nft_id \<times> arcade_part_row) list res \<times> db" where
  "swap_junk env ctx newId c s numArcadePartsToCreate other d =
     (case getJunkMetadata c s of
        Inl _ \<Rightarrow> (Inl (InvalidArgumentUseCaseError ''unknown junk part''), d)
      | Inr metadata \<Rightarrow>
      if c = ROM \<and> (case games s of None \<Rightarrow> False | Some g \<Rightarrow> \<not> enabled g)
      then (Inl (InvalidArgumentUseCaseError ''disabled game cannot swap''), d)
      else if c = ROM \<and> games s = None then (Inl JsTypeError, d)
      else
      let useJunkCount = jm_junksPerPart metadata * numArcadePartsToCreate in
      (case map_of (t_junks d) (the (ctx_userId ctx), c, s) of
         None \<Rightarrow> (Inl (IllegalStateUseCaseError ''junk are out of numArcadePartsToCreate.''), d)
       | Some amount \<Rightarrow>
       if amount < useJunkCount
       then (Inl (IllegalStateUseCaseError ''junk are out of numArcadePartsToCreate.''), d)
       else
       (case run_tx (swap_queries env ctx newId c s useJunkCount numArcadePartsToCreate) (other d) of
          Inl e \<Rightarrow> (Inl (swap_error e), other d)
        | Inr d' \<Rightarrow>
            (Inr (map (\<lambda>i. (newId i, swapped_part env ctx c s)) [0..<nat numArcadePartsToCreate]), d'))))"

section \<open>Transfers under way\<close>

record nft_transfers =
  nt_deposits :: "(nft_id \<times> string) list"
  nt_withdraws :: "(nft_id \<times> string) list"

record processing_transfers =
  pt_gameCenters :: nft_transfers
  pt_arcadeMachines :: nft_transfers
  pt_arcadeParts :: nft_transfers
  pt_akvDeposits :: "int list"
  pt_akvWithdraws :: "int list"
  pt_akirDeposits :: "int list"
  pt_akirWithdraws :: "int list"

definition moving_items :: "user_id \<Rightarrow> (nft_id, 'a nft_scheme) table \<Rightarrow> (nft_id \<times> 'a nft_scheme) list" where
  "moving_items u t = filter (\<lambda>(_, r). nft_userId r = Some u \<and>
     nft_state r \<in> {MOVING_TO_AKIVERSE, MOVING_TO_WALLET}) t"

text \<open>The loops over the items of a type; an item without metadata ends the whole list with its exception.\<close>

fun sort_items ::
  "('a nft_scheme \<Rightarrow> string res) \<Rightarrow> (nft_id \<times> 'a nft_scheme) list \<Rightarrow> nft_transfers \<Rightarrow> nft_transfers res" where
  "sort_items name [] t = Inr t"
| "sort_items name ((k, r) # items) t =
     (case name r of
        Inl e \<Rightarrow> Inl e
      | Inr n \<Rightarrow>
          if nft_state r = MOVING_TO_WALLET
          then sort_items name items (t\<lparr>nt_withdraws := nt_withdraws t @ [(k, n)]\<rparr>)
          else sort_items name items (t\<lparr>nt_deposits := nt_deposits t @ [(k, n)]\<rparr>))"

definition no_transfers :: nft_transfers where
  "no_transfers = \<lparr>nt_deposits = [], nt_withdraws = []\<rparr>"

text \<open>Amounts of AKV, and of everything else.\<close>

definition split_currency :: "(CurrencyType \<times> int) list \<Rightarrow> int list \<times> int list" where
  "split_currency rows =
     (map snd (filter (\<lambda>(c, _). c = AKV) rows), map snd (filter (\<lambda>(c, _). c \<noteq> AKV) rows))"

text \<open>
  \<open>name\<close> gives the name of a game center, a column that is not part of the model's table.
\<close>

definition list_processing ::
  "(game_center_row \<Rightarrow> string) \<Rightarrow> ctx \<Rightarrow> db \<Rightarrow> processing_transfers res" where
  "list_processing name ctx d =
     (if \<not> truthy (ctx_userId ctx) then Inl (InternalServerUseCaseError ''not authorized'')
      else
        let u = the (ctx_userId ctx) in
        bind_res (sort_items (\<lambda>r. Inr (name r)) (moving_items u (t_gameCenters d)) no_transfers) (\<lambda>gcs.
        bind_res (sort_items (\<lambda>r. bind_res (getArcadeMachineMetadata (am_game r)) (\<lambda>m. Inr (am_name m)))
                    (moving_items u (t_arcadeMachines d)) no_transfers) (\<lambda>ams.
        bind_res (sort_items (\<lambda>r. bind_res (getArcadePartMetadata (ap_category r) (ap_subCategory r))
                      (\<lambda>m. Inr (md_name m)))
                    (moving_items u (t_arcadeParts d)) no_transfers) (\<lambda>aps.
        let (akvDeposits, akirDeposits) = split_currency (map (\<lambda>(_, r). (cd_currencyType r, cd_amount r))
              (filter (\<lambda>(_, r). cd_userId r = u \<and> cd_state r \<in> {D_UNPROCESSED, D_PENDING})
                (t_currencyDeposits d)));
            (akvWithdraws, akirWithdraws) = split_currency (map (\<lambda>(_, r). (cw_currencyType r, cw_amount r))
              (filter (\<lambda>(_, r). cw_userId r = Some u \<and> cw_state r \<in> {W_UNPROCESSED, W_PENDING})
                (t_currencyWithdrawals d)))
        in Inr \<lparr>pt_gameCenters = gcs, pt_arcadeMachines = ams, pt_arcadeParts = aps,
                pt_akvDeposits = akvDeposits, pt_akvWithdraws = akvWithdraws,
                pt_akirDeposits = akirDeposits, pt_akirWithdraws = akirWithdraws\<rparr>))))"

end
