(* ===== verification/Item_Props.thy ===== *)
theory Item_Props
  imports Item_Usecases Sample
begin

text \<open>
  Properties of the use cases about items: what an exchange of junk takes and gives, which transfers
  are shown as under way, and what happens when a game center leaves while a machine is installed in it.
\<close>

declare all_ok_frame [simp del]

section \<open>Junk\<close>

lemma create_parts_run:
  "run_tx (map (\<lambda>i. create_arcadePart (newId i) r) is) d = Inr d' \<Longrightarrow>
   t_arcadeParts d' = t_arcadeParts d @ map (\<lambda>i. (newId i, r)) is \<and> t_junks d' = t_junks d"
proof (induction "is" arbitrary: d)
  case (Cons i "is")
  then obtain d1 where d1: "create_arcadePart (newId i) r d = Inr d1"
    "run_tx (map (\<lambda>i. create_arcadePart (newId i) r) is) d1 = Inr d'"
    by (auto split: sum.splits)
  from Cons.IH [OF d1(2)] d1(1) show ?case by (auto simp: arcadePart_tab.create_Inr put_defs)
qed simp

text \<open>
  An exchange of junk is all or nothing. A refused one changes nothing; an accepted one takes the price of
  each part from the junk of exactly this kind, which was there at the time of the transaction and not
  only at the time of the check, and gives the user exactly the requested number of new parts of this kind.
\<close>

lemma swap_exchanges_junk:
  assumes "swap_junk env ctx newId c s n other d = (res, d')" and "0 < n"
  shows "(\<exists>e. res = Inl e \<and> (d' = d \<or> d' = other d)) \<or>
    (\<exists>m amount. getJunkMetadata c s = Inr m \<and>
       map_of (t_junks (other d)) (the (ctx_userId ctx), c, s) = Some amount \<and> jm_junksPerPart m * n \<le> amount \<and>
       (\<forall>k. map_of (t_junks d') k = (if k = (the (ctx_userId ctx), c, s) then Some (amount - jm_junksPerPart m * n)
          else map_of (t_junks (other d)) k)) \<and>
       res = Inr (map (\<lambda>i. (newId i, swapped_part env ctx c s)) [0..<nat n]) \<and>
       t_arcadeParts d' = t_arcadeParts (other d) @ map (\<lambda>i. (newId i, swapped_part env ctx c s)) [0..<nat n])"
proof -
  let ?u = "the (ctx_userId ctx)" and ?parts = "map (\<lambda>i. create_arcadePart (newId i) (swapped_part env ctx c s)) [0..<nat n]"
  consider (err) e where "res = Inl e" "d' = d \<or> d' = other d"
    | (ok) m where "getJunkMetadata c s = Inr m"
        "run_tx (swap_queries env ctx newId c s (jm_junksPerPart m * n) n) (other d) = Inr d'"
        "res = Inr (map (\<lambda>i. (newId i, swapped_part env ctx c s)) [0..<nat n])"
    using assms(1) by (auto simp: swap_junk_def Let_def split: sum.splits option.splits if_splits)
  then show ?thesis
  proof cases
    case err
    then show ?thesis by blast
  next
    case ok
    then obtain d1 where d1: "update_junk (?u, c, s) (\<lambda>_. True) (\<lambda>amount. amount - jm_junksPerPart m * n) (other d) = Inr d1"
      "run_tx ?parts d1 = Inr d'"
      by (auto simp: swap_queries_def split: sum.splits)
    then obtain amount where a: "map_of (t_junks (other d)) (?u, c, s) = Some amount" "jm_junksPerPart m * n \<le> amount"
      "t_junks d1 = apply_row (\<lambda>amount. amount - jm_junksPerPart m * n) (?u, c, s) (t_junks (other d))"
      "t_arcadeParts d1 = t_arcadeParts (other d)"
      by (auto simp: junk_tab.update_Inr put_defs check_junk_def violated_def split: if_splits)
    from create_parts_run [OF d1(2)] a have "t_junks d' = t_junks d1"
      "t_arcadeParts d' = t_arcadeParts (other d) @ map (\<lambda>i. (newId i, swapped_part env ctx c s)) [0..<nat n]"
      by simp_all
    with ok(1,3) a show ?thesis by (intro disjI2) (auto simp: map_of_apply_row)
  qed
qed

section \<open>Transfers under way\<close>

lemma sort_items_Inr:
  "sort_items name items t = Inr t' \<Longrightarrow>
   map fst (nt_withdraws t') = map fst (nt_withdraws t) @ map fst (filter (\<lambda>(_, r). nft_state r = MOVING_TO_WALLET) items) \<and>
   map fst (nt_deposits t') = map fst (nt_deposits t) @ map fst (filter (\<lambda>(_, r). nft_state r \<noteq> MOVING_TO_WALLET) items)"
  by (induction name items t rule: sort_items.induct) (auto split: sum.splits if_splits)

definition items_in :: "user_id \<Rightarrow> NftState \<Rightarrow> (nft_id, 'a nft_scheme) table \<Rightarrow> nft_id list" where
  "items_in u s t = map fst (filter (\<lambda>(_, r). nft_userId r = Some u \<and> nft_state r = s) t)"

lemma sort_moving:
  assumes "sort_items name (moving_items u t) no_transfers = Inr x"
  shows "map fst (nt_withdraws x) = items_in u MOVING_TO_WALLET t"
    and "map fst (nt_deposits x) = items_in u MOVING_TO_AKIVERSE t"
proof -
  have "filter (\<lambda>(_, r). nft_state r = MOVING_TO_WALLET) (moving_items u t) =
      filter (\<lambda>(_, r). nft_userId r = Some u \<and> nft_state r = MOVING_TO_WALLET) t"
    "filter (\<lambda>(_, r). nft_state r \<noteq> MOVING_TO_WALLET) (moving_items u t) =
      filter (\<lambda>(_, r). nft_userId r = Some u \<and> nft_state r = MOVING_TO_AKIVERSE) t"
    unfolding moving_items_def filter_filter by (rule filter_cong [OF refl]; auto)+
  with sort_items_Inr [OF assms] show "map fst (nt_withdraws x) = items_in u MOVING_TO_WALLET t"
    "map fst (nt_deposits x) = items_in u MOVING_TO_AKIVERSE t"
    by (simp_all add: items_in_def no_transfers_def)
qed

text \<open>
  The list of the transfers under way shows exactly the items of the user that are on the way, in their
  direction and by their type, and every open withdrawal of currency. A withdrawal of USDC, which the prize of a
  tournament is, counts among those of AKIR.
\<close>

lemma processing_list_complete:
  assumes "list_processing name ctx d = Inr t" and "ctx_userId ctx = Some u"
  shows "map fst (nt_withdraws (pt_gameCenters t)) = items_in u MOVING_TO_WALLET (t_gameCenters d) \<and>
    map fst (nt_deposits (pt_gameCenters t)) = items_in u MOVING_TO_AKIVERSE (t_gameCenters d) \<and>
    map fst (nt_withdraws (pt_arcadeMachines t)) = items_in u MOVING_TO_WALLET (t_arcadeMachines d) \<and>
    map fst (nt_deposits (pt_arcadeMachines t)) = items_in u MOVING_TO_AKIVERSE (t_arcadeMachines d) \<and>
    map fst (nt_withdraws (pt_arcadeParts t)) = items_in u MOVING_TO_WALLET (t_arcadeParts d) \<and>
    map fst (nt_deposits (pt_arcadeParts t)) = items_in u MOVING_TO_AKIVERSE (t_arcadeParts d) \<and>
    (\<forall>(k, r) \<in> set (t_currencyWithdrawals d). cw_userId r = Some u \<longrightarrow> cw_state r \<in> {W_UNPROCESSED, W_PENDING} \<longrightarrow>
       cw_amount r \<in> set (if cw_currencyType r = AKV then pt_akvWithdraws t else pt_akirWithdraws t))"
proof -
  have u: "truthy (ctx_userId ctx)" "the (ctx_userId ctx) = u"
    using assms by (auto simp: list_processing_def split: if_splits)
  let ?ws = "map (\<lambda>(_, r). (cw_currencyType r, cw_amount r))
     (filter (\<lambda>(_, r). cw_userId r = Some u \<and> cw_state r \<in> {W_UNPROCESSED, W_PENDING}) (t_currencyWithdrawals d))"
  from assms(1) obtain nameM nameP where
    gc: "sort_items (\<lambda>r. Inr (name r)) (moving_items u (t_gameCenters d)) no_transfers = Inr (pt_gameCenters t)"
    and am: "sort_items nameM (moving_items u (t_arcadeMachines d)) no_transfers = Inr (pt_arcadeMachines t)"
    and ap: "sort_items nameP (moving_items u (t_arcadeParts d)) no_transfers = Inr (pt_arcadeParts t)"
    and ft: "pt_akvWithdraws t = fst (split_currency ?ws)" "pt_akirWithdraws t = snd (split_currency ?ws)"
    unfolding list_processing_def Let_def u(2) by (auto simp: u(1) bind_res_Inr_iff case_prod_beta)
  have "cw_amount r \<in> set (if cw_currencyType r = AKV then pt_akvWithdraws t else pt_akirWithdraws t)"
    if "(k, r) \<in> set (t_currencyWithdrawals d)" "cw_userId r = Some u" "cw_state r \<in> {W_UNPROCESSED, W_PENDING}" for k r
  proof -
    have "(cw_currencyType r, cw_amount r) \<in> set ?ws" using that by force
    then show ?thesis unfolding ft split_currency_def by force
  qed
  with sort_moving [OF gc] sort_moving [OF am] sort_moving [OF ap] show ?thesis by blast
qed

section \<open>A game center that leaves\<close>

text \<open>
  (C27) The transaction of an installation does not look at the game center again: whatever happens to it between
  the checks and the transaction, as long as the machines and the users stay the same, the machine is
  installed. In particular the owner can stop recruiting and withdraw the still empty center in between,
  and the machine ends in a center that is on its way to a wallet.
\<close>

theorem install_ignores_a_leaving_center:
  assumes "fst (installArcadeMachineToGameCenter env ctx a g autoRenewLease hour (\<lambda>d. d) d) = Inr r"
    and "t_users (other d) = t_users d" and "t_arcadeMachines (other d) = t_arcadeMachines d"
  shows "\<exists>d' m. installArcadeMachineToGameCenter env ctx a g autoRenewLease hour other d = (Inr (Some m), d') \<and>
    map_of (t_arcadeMachines d') a = Some m \<and> am_gameCenterId m = Some g \<and>
    t_gameCenters d' = t_gameCenters (other d)"
proof -
  from assms(1) obtain p where p: "install_read ctx a g hour d = Inr p"
    "fst (install_write env (the (ctx_userId ctx)) a g autoRenewLease p d) = Inr r"
    by (auto simp: installArcadeMachineToGameCenter_def split: sum.splits)
  then obtain owner d1 where o: "ip_centerOwner p = Some owner"
    "run_tx (install_queries env (the (ctx_userId ctx)) owner a g autoRenewLease p) d = Inr d1"
    by (auto simp: install_write_def split: option.splits sum.splits)
  then have "\<exists>d2. run_tx (install_queries env (the (ctx_userId ctx)) owner a g autoRenewLease p) (other d) = Inr d2 \<and>
      t_gameCenters d2 = t_gameCenters (other d) \<and>
      (\<exists>m. map_of (t_arcadeMachines d2) a = Some m \<and> am_gameCenterId m = Some g)"
    using assms(2,3)
    by (auto simp: install_queries_def run_tx_Inr_Cons place_machine_def add_teras_def sub_teras_def
        arcadeMachine_tab.update_Inr user_tab.update_Inr put_defs map_of_apply_row simp del: run_tx.simps(2))
  with p(1) o(1) show ?thesis
    by (auto simp: installArcadeMachineToGameCenter_def install_write_def call_def)
qed

section \<open>On small databases\<close>

definition junk_db :: db where
  "junk_db = sample_db\<lparr>t_junks := [((''u1'', ROM, ''BUBBLE_ATTACK''), 25)]\<rparr>"

definition junk_swapped where
  "junk_swapped = swap_junk sample_env sample_ctx (\<lambda>i. if i = 0 then ''n0'' else ''n1'') ROM ''BUBBLE_ATTACK'' 2 (\<lambda>d. d) junk_db"

lemma swap_exchanges_junk_witness:
  "map_of (t_junks (snd junk_swapped)) (''u1'', ROM, ''BUBBLE_ATTACK'') = Some 5 \<and> length (t_arcadeParts (snd junk_swapped)) = 4"
proof -
  have m: "getJunkMetadata ROM ''BUBBLE_ATTACK'' = Inr m \<Longrightarrow> jm_junksPerPart m = 10" for m
  proof -
    have "map_option jm_junksPerPart (case getJunkMetadata ROM ''BUBBLE_ATTACK'' of Inl _ \<Rightarrow> None | Inr m \<Rightarrow> Some m) = Some 10"
      by code_simp
    then show "getJunkMetadata ROM ''BUBBLE_ATTACK'' = Inr m \<Longrightarrow> jm_junksPerPart m = 10" by simp
  qed
  have "case fst junk_swapped of Inl _ \<Rightarrow> False | Inr _ \<Rightarrow> True" by code_simp
  moreover have u: "the (ctx_userId sample_ctx) = ''u1''" by (simp add: sample_ctx_def)
  moreover have "map_of (t_junks junk_db) (''u1'', ROM, ''BUBBLE_ATTACK'') = Some 25" "length (t_arcadeParts junk_db) = 2"
    by (simp_all add: junk_db_def sample_db_def)
  ultimately show ?thesis
    using swap_exchanges_junk [of sample_env sample_ctx "\<lambda>i. if i = 0 then ''n0'' else ''n1''" ROM "''BUBBLE_ATTACK''" 2
        "\<lambda>d. d" junk_db "fst junk_swapped" "snd junk_swapped"] m
    unfolding junk_swapped_def by (auto split: sum.splits)
qed

definition prize_db :: db where
  "prize_db = sample_db\<lparr>t_currencyWithdrawals := [(''c1'', \<lparr>cw_userId = Some ''u1'', cw_walletAddress = ''0xab'',
     cw_currencyType = USDC, cw_amount = 5, cw_state = W_UNPROCESSED, cw_type = None, cw_hash = None\<rparr>)]\<rparr>"

lemma processing_list_complete_witness:
  "\<exists>t. list_processing (\<lambda>_. ''center'') sample_ctx prize_db = Inr t \<and> 5 \<in> set (pt_akirWithdraws t)"
proof -
  have "case list_processing (\<lambda>_. ''center'') sample_ctx prize_db of Inl _ \<Rightarrow> False | Inr _ \<Rightarrow> True" by code_simp
  then obtain t where t: "list_processing (\<lambda>_. ''center'') sample_ctx prize_db = Inr t" by (auto split: sum.splits)
  have u: "ctx_userId sample_ctx = Some ''u1''" by (simp add: sample_ctx_def)
  from processing_list_complete [OF t u] t show ?thesis by (auto simp: prize_db_def)
qed

definition race_db :: db where
  "race_db = sample_db\<lparr>
     t_users := [(''u1'', sample_user (Some ''0xab'') 20000), (''u2'', sample_user (Some ''0xcd'') 0)],
     t_gameCenters := [(''g1'', sample_center\<lparr>nft_ownerWallet := Some ''0xcd''\<rparr>)],
     t_arcadeMachines := [(''a1'', sample_machine ''u1'' 20000 None)]\<rparr>"

definition owner_ctx :: ctx where
  "owner_ctx = \<lparr>ctx_userId = Some ''u2'', ctx_walletAddress = Some ''0xcd'', ctx_country = None\<rparr>"

definition leave :: "db \<Rightarrow> db" where
  "leave d = snd (withdraw_centers sample_env owner_ctx (\<lambda>_. ''w1'') [''g1''] (\<lambda>d. d)
     (snd (stopRecruitmentForArcadeMachine sample_env owner_ctx ''g1'' (\<lambda>d. d) d)))"

lemma leave_race:
  "t_users (leave race_db) = t_users race_db" "t_arcadeMachines (leave race_db) = t_arcadeMachines race_db"
  "map_option nft_state (map_of (t_gameCenters (leave race_db)) ''g1'') = Some MOVING_TO_WALLET"
  by code_simp+

theorem install_ignores_a_leaving_center_witness:
  "\<exists>d' m. installArcadeMachineToGameCenter sample_env sample_ctx ''a1'' ''g1'' True 17 leave race_db = (Inr (Some m), d') \<and>
    am_gameCenterId m = Some ''g1'' \<and>
    map_option nft_state (map_of (t_gameCenters d') ''g1'') = Some MOVING_TO_WALLET"
proof -
  let ?run = "fst (installArcadeMachineToGameCenter sample_env sample_ctx ''a1'' ''g1'' True 17 (\<lambda>d. d) race_db)"
  have "case ?run of Inl _ \<Rightarrow> False | Inr _ \<Rightarrow> True" by code_simp
  then obtain r where "?run = Inr r" by (auto split: sum.splits)
  from install_ignores_a_leaving_center [where other = leave, OF this leave_race(1,2)] leave_race(3) show ?thesis by metis
qed

end
