(* ===== verification/Campaign.thy ===== *)
theory Campaign
  imports Tables
begin

text \<open>
  \<open>src/helpers/campaign.ts\<close>: the rewards for the first plays and crafts of the campaign.  The two
  instants of the campaign are parameters, since the code has them from \<open>dayjs\<close>; \<open>now\<close> is the time of the
  call, \<open>rnd\<close> the draws of \<open>Math.random()\<close>, \<open>newId\<close> the ids of the new parts.
\<close>

section \<open>The rewards\<close>

type_synonym part_type = "ArcadePartCategory \<times> string"

record campaign_reward =
  rw_teras :: int
  rw_aps :: "(nat \<Rightarrow> rat) \<Rightarrow> part_type list"
  rw_junks :: "(part_type \<times> int) list"

record campaign =
  cp_start :: date
  cp_end :: date

definition teras_only :: "int \<Rightarrow> campaign_reward" where
  "teras_only n = \<lparr>rw_teras = n, rw_aps = (\<lambda>_. []), rw_junks = []\<rparr>"

definition playCount100RewardAPs :: "part_type list" where
  "playCount100RewardAPs = [
     (ROM, ''BUBBLE_ATTACK''), (ROM, ''CURVE_BALL_3D''), (ROM, ''STAR_GUARDIAN''), (ROM, ''YUMMY_JUMP''),
     (ACCUMULATOR, ''HOKUTO_100_LX''), (UPPER_CABINET, ''PLAIN''), (LOWER_CABINET, ''PLAIN'')]"

text \<open>The map, its first ten entries apart.\<close>

definition playCountRewards_1 :: "(nat \<times> campaign_reward) list" where
  "playCountRewards_1 = [
     (5, \<lparr>rw_teras = 0, rw_aps = (\<lambda>_. [(UPPER_CABINET, ''PLAIN'')]),
        rw_junks = []\<rparr>),
     (10, teras_only 100),
     (15, teras_only 150),
     (20, \<lparr>rw_teras = 0, rw_aps = (\<lambda>_. [(LOWER_CABINET, ''PLAIN'')]),
        rw_junks = []\<rparr>),
     (25, teras_only 250),
     (30, teras_only 300),
     (35, \<lparr>rw_teras = 0, rw_aps = (\<lambda>_. [(ACCUMULATOR, ''HOKUTO_100_LX'')]),
        rw_junks = []\<rparr>),
     (40, teras_only 400),
     (45, teras_only 450),
     (50, \<lparr>rw_teras = 3500, rw_aps = (\<lambda>rnd. [(ROM, the (choice (rnd 0) [''BUBBLE_ATTACK'', ''CURVE_BALL_3D'', ''STAR_GUARDIAN'']))]),
        rw_junks = []\<rparr>)]"

definition playCountRewards_2 :: "(nat \<times> campaign_reward) list" where
  "playCountRewards_2 = [
     (60, teras_only 600),
     (70, teras_only 700),
     (80, teras_only 800),
     (90, teras_only 900),
     (100, \<lparr>rw_teras = 1000, rw_aps = (\<lambda>rnd. [the (choice (rnd 0) playCount100RewardAPs), the (choice (rnd 1) playCount100RewardAPs)]),
        rw_junks = []\<rparr>),
     (150, \<lparr>rw_teras = 1500, rw_aps = (\<lambda>rnd. [the (choice (rnd 0) playCount100RewardAPs)]),
        rw_junks = []\<rparr>),
     (200, \<lparr>rw_teras = 2000, rw_aps = (\<lambda>rnd. [the (choice (rnd 0) playCount100RewardAPs)]),
        rw_junks = []\<rparr>),
     (250, \<lparr>rw_teras = 2500, rw_aps = (\<lambda>rnd. [the (choice (rnd 0) playCount100RewardAPs)]),
        rw_junks = []\<rparr>),
     (300, \<lparr>rw_teras = 3000, rw_aps = (\<lambda>rnd. [the (choice (rnd 0) playCount100RewardAPs), the (choice (rnd 1) playCount100RewardAPs)]),
        rw_junks = []\<rparr>),
     (400, \<lparr>rw_teras = 4000, rw_aps = (\<lambda>rnd. [the (choice (rnd 0) playCount100RewardAPs), the (choice (rnd 1) playCount100RewardAPs)]),
        rw_junks = []\<rparr>),
     (500, teras_only 5000),
     (5000, teras_only 50000)]"

definition playCountRewardMap :: "(nat \<times> campaign_reward) list" where
  "playCountRewardMap = playCountRewards_1 @ playCountRewards_2"

definition craftCountRewardMap :: "(nat \<times> campaign_reward) list" where
  "craftCountRewardMap = [
     (1, teras_only 1000),
     (2, teras_only 1000),
     (3, teras_only 1000),
     (4, teras_only 1000),
     (5, teras_only 1000),
     (6, teras_only 1000),
     (7, teras_only 1000),
     (8, teras_only 1000),
     (9, teras_only 1000),
     (10, teras_only 5000),
     (11, teras_only 1000),
     (12, teras_only 1000),
     (13, teras_only 1000),
     (14, teras_only 1000),
     (15, teras_only 1000),
     (16, teras_only 1000),
     (17, teras_only 1000),
     (18, teras_only 1000),
     (19, teras_only 1000),
     (20, teras_only 10000)]"

section \<open>The distribution\<close>

definition campaign_part :: "env \<Rightarrow> user_id \<Rightarrow> user_row \<Rightarrow> part_type \<Rightarrow> arcade_part_row" where
  "campaign_part env u user ap = \<lparr>nft_userId = Some u, nft_ownerWallet = u_walletAddress user,
     nft_physicalWallet = None, nft_state = IN_AKIVERSE, nft_lastBlock = 0, nft_lastTransactionIndex = 0,
     nft_updatedAt = env_now env, ap_category = fst ap, ap_subCategory = snd ap,
     ap_destroyedAt = None, ap_craftId = None, ap_createDismantleId = None\<rparr>"

definition campaign_queries ::
  "env \<Rightarrow> (nat \<Rightarrow> nft_id) \<Rightarrow> (nat \<Rightarrow> rat) \<Rightarrow> user_id \<Rightarrow> user_row \<Rightarrow> campaign_reward \<Rightarrow> query list" where
  "campaign_queries env newId rnd u user reward =
     (if rw_teras reward > 0
      then [update_user u (\<lambda>_. True) (\<lambda>r. r\<lparr>terasBalance := terasBalance r + rw_teras reward\<rparr>)] else []) @
     map (\<lambda>(i, ap). create_arcadePart (newId i) (campaign_part env u user ap))
       (enumerate 0 (rw_aps reward rnd)) @
     map (\<lambda>((c, s), amount). upsert_junk (u, c, s) (\<lambda>n. n + amount) amount) (rw_junks reward)"

definition distributionReward ::
  "env \<Rightarrow> (nat \<Rightarrow> nft_id) \<Rightarrow> (nat \<Rightarrow> rat) \<Rightarrow> user_id \<Rightarrow> campaign_reward \<Rightarrow> db \<Rightarrow> unit res \<times> db" where
  "distributionReward env newId rnd u reward d =
     (case map_of (t_users d) u of
        None \<Rightarrow> (Inl (PrismaKnownRequestError ''P2025''), d)
      | Some user \<Rightarrow>
          (case run_tx (campaign_queries env newId rnd u user reward) d of
             Inl e \<Rightarrow> (Inl e, d)
           | Inr d' \<Rightarrow> (Inr (), d')))"

definition in_campaign :: "campaign \<Rightarrow> date \<Rightarrow> bool" where
  "in_campaign cp t \<longleftrightarrow> cp_start cp \<le> t \<and> t \<le> cp_end cp"

definition campaign_plays :: "campaign \<Rightarrow> user_id \<Rightarrow> db \<Rightarrow> nat" where
  "campaign_plays cp u d = count_rows (\<lambda>_ p. in_campaign cp (pl_createdAt p) \<and>
     (case map_of (t_playSessions d) (pl_playSessionId p) of None \<Rightarrow> False | Some s \<Rightarrow> ps_playerId s = u))
     (t_plays d)"

definition distributionRewardPlayCount ::
  "env \<Rightarrow> campaign \<Rightarrow> date \<Rightarrow> (nat \<Rightarrow> nft_id) \<Rightarrow> (nat \<Rightarrow> rat) \<Rightarrow> user_id \<Rightarrow> db \<Rightarrow> unit res \<times> db" where
  "distributionRewardPlayCount env cp now newId rnd playerId d =
     (if now \<ge> cp_end cp then (Inr (), d)
      else
        (case map_of playCountRewardMap (campaign_plays cp playerId d) of
           None \<Rightarrow> (Inr (), d)
         | Some reward \<Rightarrow> distributionReward env newId rnd playerId reward d))"

definition distributionRewardSparkCount :: "user_id \<Rightarrow> db \<Rightarrow> unit res \<times> db" where
  "distributionRewardSparkCount playerId d = (Inr (), d)"

definition campaign_crafts :: "campaign \<Rightarrow> user_id \<Rightarrow> db \<Rightarrow> nat" where
  "campaign_crafts cp u d =
     count_rows (\<lambda>_ c. cr_userId c = u \<and> in_campaign cp (cr_createdAt c)) (t_crafts d)"

definition distributionRewardCraftCount ::
  "env \<Rightarrow> campaign \<Rightarrow> date \<Rightarrow> (nat \<Rightarrow> nft_id) \<Rightarrow> (nat \<Rightarrow> rat) \<Rightarrow> ctx \<Rightarrow> db \<Rightarrow> unit res \<times> db" where
  "distributionRewardCraftCount env cp now newId rnd ctx d =
     (let u = the (ctx_userId ctx) in
      if now \<ge> cp_end cp then (Inr (), d)
      else
        (case map_of craftCountRewardMap (campaign_crafts cp u d) of
           None \<Rightarrow> (Inr (), d)
         | Some reward \<Rightarrow> distributionReward env newId rnd u reward d))"

end
