(* ===== verification/Campaign_Props.thy ===== *)
theory Campaign_Props
  imports Campaign Sample
begin

text \<open>
  The campaign pays each reward once to a player whose plays are counted one after the other, and
  pays one twice and leaves one out when two crafts are counted together.
\<close>

declare all_ok_frame [simp del]

section \<open>One distribution\<close>

lemmas reward_maps = playCountRewardMap_def playCountRewards_1_def playCountRewards_2_def craftCountRewardMap_def

lemma disjoint_still: "A \<inter> B = {} \<Longrightarrow> A \<inter> C = {} \<Longrightarrow> X \<subseteq> B \<union> C \<Longrightarrow> A \<inter> X = {}"
  by blast

definition paid :: "(nat \<times> campaign_reward) list \<Rightarrow> nat \<Rightarrow> int" where
  "paid m n = (case map_of m n of None \<Rightarrow> 0 | Some r \<Rightarrow> rw_teras r)"

definition parts_won :: "(nat \<times> campaign_reward) list \<Rightarrow> nat \<Rightarrow> (nat \<Rightarrow> rat) \<Rightarrow> part_type list" where
  "parts_won m n rnd = (case map_of m n of None \<Rightarrow> [] | Some r \<Rightarrow> rw_aps r rnd)"

text \<open>The new rows for parts, with the ids from the \<open>k\<close>-th on.\<close>

definition new_parts :: "env \<Rightarrow> (nat \<Rightarrow> nft_id) \<Rightarrow> user_id \<Rightarrow> user_row \<Rightarrow> nat \<Rightarrow> part_type list \<Rightarrow> (nft_id, arcade_part_row) table" where
  "new_parts env newId u user k aps = map (\<lambda>(i, ap). (newId i, campaign_part env u user ap)) (enumerate k aps)"

lemma new_parts_user: "u_walletAddress r' = u_walletAddress r \<Longrightarrow> new_parts env newId u r' k aps = new_parts env newId u r k aps"
  by (simp add: new_parts_def campaign_part_def)

lemma new_parts_keys: "fst ` set (new_parts env newId u user k aps) \<subseteq> range newId"
  by (auto simp: new_parts_def)

definition plain :: "campaign_reward \<Rightarrow> bool" where
  "plain r \<longleftrightarrow> 0 \<le> rw_teras r \<and> rw_junks r = []"

lemma rewards_plain:
  "map_of playCountRewardMap n = Some r \<Longrightarrow> plain r" "map_of craftCountRewardMap n = Some r \<Longrightarrow> plain r"
  by (auto simp: reward_maps teras_only_def plain_def split: if_splits)

lemma create_campaign_parts:
  assumes "\<forall>i \<in> {k..<k + length aps}. newId i \<notin> fst ` set (t_arcadeParts d)" and "inj newId"
  shows "\<exists>d'. run_tx (map (\<lambda>(i, ap). create_arcadePart (newId i) (campaign_part env u user ap)) (enumerate k aps)) d = Inr d' \<and>
    t_users d' = t_users d \<and> t_plays d' = t_plays d \<and> t_playSessions d' = t_playSessions d \<and> t_crafts d' = t_crafts d \<and>
    t_arcadeParts d' = t_arcadeParts d @ new_parts env newId u user k aps"
  using assms(1)
proof (induction aps arbitrary: k d)
  case (Cons ap aps)
  let ?d = "put_arcadeParts (t_arcadeParts d @ [(newId k, campaign_part env u user ap)]) d"
  have "map_of (t_arcadeParts d) (newId k) = None" using Cons.prems by (simp add: map_of_eq_None_iff)
  then have c: "create_arcadePart (newId k) (campaign_part env u user ap) d = Inr ?d"
    by (simp add: arcadePart_tab.create_Inr no_check_def)
  have "\<forall>i \<in> {Suc k..<Suc k + length aps}. newId i \<notin> fst ` set (t_arcadeParts ?d)"
  proof
    fix i assume i: "i \<in> {Suc k..<Suc k + length aps}"
    then have "newId i \<noteq> newId k" using injD [OF assms(2), of i k] by auto
    moreover have "newId i \<notin> fst ` set (t_arcadeParts d)" using bspec [OF Cons.prems, of i] i by simp
    ultimately show "newId i \<notin> fst ` set (t_arcadeParts ?d)" by (simp add: put_defs)
  qed
  from Cons.IH [OF this] obtain d' where
    d': "run_tx (map (\<lambda>(i, ap). create_arcadePart (newId i) (campaign_part env u user ap)) (enumerate (Suc k) aps)) ?d = Inr d'"
      "t_users d' = t_users ?d" "t_plays d' = t_plays ?d" "t_playSessions d' = t_playSessions ?d" "t_crafts d' = t_crafts ?d"
      "t_arcadeParts d' = t_arcadeParts ?d @ new_parts env newId u user (Suc k) aps"
    by blast
  have "t_users ?d = t_users d" "t_plays ?d = t_plays d" "t_playSessions ?d = t_playSessions d" "t_crafts ?d = t_crafts d"
    "t_arcadeParts ?d = t_arcadeParts d @ [(newId k, campaign_part env u user ap)]"
    by (simp_all add: put_defs)
  with c d' show ?case by (intro exI [where x = d']) (simp add: new_parts_def)
qed (simp add: new_parts_def)

lemma distribution_succeeds:
  assumes "map_of (t_users d) u = Some r" and "user_ok r" and "plain reward"
    and "inj newId" and "range newId \<inter> fst ` set (t_arcadeParts d) = {}"
  shows "\<exists>d'. distributionReward env newId rnd u reward d = (Inr (), d') \<and>
    map_of (t_users d') u = Some (r\<lparr>terasBalance := terasBalance r + rw_teras reward\<rparr>) \<and>
    (\<forall>v. v \<noteq> u \<longrightarrow> map_of (t_users d') v = map_of (t_users d) v) \<and>
    t_plays d' = t_plays d \<and> t_playSessions d' = t_playSessions d \<and> t_crafts d' = t_crafts d \<and>
    t_arcadeParts d' = t_arcadeParts d @ new_parts env newId u r 0 (rw_aps reward rnd)"
proof -
  let ?f = "\<lambda>r. r\<lparr>terasBalance := terasBalance r + rw_teras reward\<rparr>"
  let ?q = "if rw_teras reward > 0 then [update_user u (\<lambda>_. True) ?f] else []"
  have pl: "0 \<le> rw_teras reward" "rw_junks reward = []" using assms(3) by (simp_all add: plain_def)
  obtain d1 where d1: "run_tx ?q d = Inr d1" "map_of (t_users d1) u = Some (?f r)"
    "\<forall>v. v \<noteq> u \<longrightarrow> map_of (t_users d1) v = map_of (t_users d) v"
    "t_plays d1 = t_plays d" "t_playSessions d1 = t_playSessions d" "t_crafts d1 = t_crafts d" "t_arcadeParts d1 = t_arcadeParts d"
  proof (cases "rw_teras reward > 0")
    case True
    then have "check_user u (?f r) (apply_row ?f u (t_users d)) = None"
      using assms(2) by (auto simp: check_user_def user_ok_def)
    then have "update_user u (\<lambda>_. True) ?f d = Inr (put_users (apply_row ?f u (t_users d)) d)"
      using assms(1) by (simp add: user_tab.update_Inr)
    with True assms(1) that [of "put_users (apply_row ?f u (t_users d)) d"] show ?thesis
      by (simp add: put_defs map_of_apply_row)
  next
    case False
    with pl(1) have "rw_teras reward = 0" by simp
    with assms(1) that [of d] show ?thesis by simp
  qed
  have "\<forall>i \<in> {0..<0 + length (rw_aps reward rnd)}. newId i \<notin> fst ` set (t_arcadeParts d1)"
    using assms(5) d1(7) by auto
  from create_campaign_parts [OF this assms(4), of env u r] obtain d2 where
    d2: "run_tx (map (\<lambda>(i, ap). create_arcadePart (newId i) (campaign_part env u r ap)) (enumerate 0 (rw_aps reward rnd))) d1 = Inr d2"
      "t_users d2 = t_users d1" "t_plays d2 = t_plays d1" "t_playSessions d2 = t_playSessions d1" "t_crafts d2 = t_crafts d1"
      "t_arcadeParts d2 = t_arcadeParts d1 @ new_parts env newId u r 0 (rw_aps reward rnd)"
    by blast
  have "distributionReward env newId rnd u reward d = (Inr (), d2)"
    using assms(1) d1(1) d2(1) pl(2) by (simp add: distributionReward_def campaign_queries_def run_tx_append)
  then show ?thesis using d1 d2 by (intro exI [where x = d2]) simp
qed

lemma new_keys: "t_arcadeParts d' = t_arcadeParts d @ new_parts env newId u r k aps \<Longrightarrow>
    fst ` set (t_arcadeParts d') \<subseteq> fst ` set (t_arcadeParts d) \<union> range newId"
  using new_parts_keys [of env newId u r k aps] by auto

section \<open>A player's way through the campaign\<close>

text \<open>
  Each play is recorded and then counted, one after the other.
\<close>

fun play_on ::
  "env \<Rightarrow> campaign \<Rightarrow> date \<Rightarrow> (string \<Rightarrow> nat \<Rightarrow> nft_id) \<Rightarrow> (string \<Rightarrow> nat \<Rightarrow> rat) \<Rightarrow> user_id \<Rightarrow> (string \<times> play_row) list \<Rightarrow> db \<Rightarrow>
   unit res \<times> db" where
  "play_on env cp now newId rnd u [] d = (Inr (), d)"
| "play_on env cp now newId rnd u ((k, p) # ps) d =
     (case distributionRewardPlayCount env cp now (newId k) (rnd k) u (put_plays (t_plays d @ [(k, p)]) d) of
        (Inl e, d1) \<Rightarrow> (Inl e, d1)
      | (Inr _, d1) \<Rightarrow> play_on env cp now newId rnd u ps d1)"

definition own_play :: "campaign \<Rightarrow> user_id \<Rightarrow> db \<Rightarrow> play_row \<Rightarrow> bool" where
  "own_play cp u d p \<longleftrightarrow> in_campaign cp (pl_createdAt p) \<and>
     (case map_of (t_playSessions d) (pl_playSessionId p) of None \<Rightarrow> False | Some s \<Rightarrow> ps_playerId s = u)"

lemma campaign_plays_frame:
  "t_plays d' = t_plays d \<Longrightarrow> t_playSessions d' = t_playSessions d \<Longrightarrow> campaign_plays cp u d' = campaign_plays cp u d"
  by (simp add: campaign_plays_def)

lemma campaign_plays_add:
  "own_play cp u d p \<Longrightarrow> campaign_plays cp u (put_plays (t_plays d @ [(k, p)]) d) = Suc (campaign_plays cp u d)"
  by (simp add: campaign_plays_def own_play_def count_rows_def put_defs)

lemma count_one_play:
  assumes "map_of (t_users d) u = Some r" and "user_ok r" and "now < cp_end cp"
    and "inj newId" and "range newId \<inter> fst ` set (t_arcadeParts d) = {}"
  shows "\<exists>d'. distributionRewardPlayCount env cp now newId rnd u d = (Inr (), d') \<and>
    map_of (t_users d') u = Some (r\<lparr>terasBalance := terasBalance r + paid playCountRewardMap (campaign_plays cp u d)\<rparr>) \<and>
    (\<forall>v. v \<noteq> u \<longrightarrow> map_of (t_users d') v = map_of (t_users d) v) \<and>
    t_plays d' = t_plays d \<and> t_playSessions d' = t_playSessions d \<and>
    t_arcadeParts d' = t_arcadeParts d @ new_parts env newId u r 0 (parts_won playCountRewardMap (campaign_plays cp u d) rnd)"
proof (cases "map_of playCountRewardMap (campaign_plays cp u d)")
  case None
  with assms show ?thesis by (simp add: distributionRewardPlayCount_def paid_def parts_won_def new_parts_def)
next
  case (Some reward)
  from distribution_succeeds [OF assms(1,2) rewards_plain(1) [OF Some] assms(4,5), of env rnd] show ?thesis
    using Some assms(3) by (auto simp: distributionRewardPlayCount_def paid_def parts_won_def)
qed

text \<open>The parts for all plays of a list, the first of which is the \<open>n\<close>-th that counts.\<close>

definition campaign_parts ::
  "env \<Rightarrow> (string \<Rightarrow> nat \<Rightarrow> nft_id) \<Rightarrow> (string \<Rightarrow> nat \<Rightarrow> rat) \<Rightarrow> user_id \<Rightarrow> user_row \<Rightarrow> nat \<Rightarrow> (string \<times> play_row) list \<Rightarrow>
   (nft_id, arcade_part_row) table" where
  "campaign_parts env newId rnd u user n ps =
     concat (map (\<lambda>(i, k, p). new_parts env (newId k) u user 0 (parts_won playCountRewardMap i (rnd k))) (enumerate n ps))"

lemma campaign_parts_user: "u_walletAddress r' = u_walletAddress r \<Longrightarrow> campaign_parts env newId rnd u r' n ps = campaign_parts env newId rnd u r n ps"
  unfolding campaign_parts_def by (simp add: new_parts_user [of r' r])

lemma user_ok_credit: "user_ok r \<Longrightarrow> 0 \<le> n \<Longrightarrow> user_ok (r\<lparr>terasBalance := terasBalance r + n\<rparr>)"
  by (simp add: user_ok_def)

lemma paid_nonneg: "0 \<le> paid playCountRewardMap n"
  using rewards_plain(1) by (auto simp: paid_def plain_def split: option.split)

lemma play_on_pays:
  assumes "now < cp_end cp" and "inj (\<lambda>(k, i). newId k i)"
  shows "map_of (t_users d) u = Some r \<Longrightarrow> user_ok r \<Longrightarrow> \<forall>(k, p) \<in> set ps. own_play cp u d p \<Longrightarrow> distinct (map fst ps) \<Longrightarrow>
    \<forall>(k, p) \<in> set ps. range (newId k) \<inter> fst ` set (t_arcadeParts d) = {} \<Longrightarrow>
    \<exists>d'. play_on env cp now newId rnd u ps d = (Inr (), d') \<and> map_of (t_users d') u = Some (r\<lparr>terasBalance :=
        terasBalance r + (\<Sum>i \<in> {campaign_plays cp u d<..campaign_plays cp u d + length ps}. paid playCountRewardMap i)\<rparr>) \<and>
      (\<forall>v. v \<noteq> u \<longrightarrow> map_of (t_users d') v = map_of (t_users d) v) \<and>
      t_arcadeParts d' = t_arcadeParts d @ campaign_parts env newId rnd u r (Suc (campaign_plays cp u d)) ps"
proof (induction ps arbitrary: d r)
  case Nil
  then show ?case by (simp add: campaign_parts_def)
next
  case (Cons kp ps)
  obtain k p where kp: "kp = (k, p)" by (cases kp)
  let ?d = "put_plays (t_plays d @ [(k, p)]) d" and ?c = "campaign_plays cp u d"
  have own: "own_play cp u d p" using Cons.prems(3) kp by simp
  have inj: "inj (newId k)" using assms(2) by (auto simp: inj_on_def)
  have c: "campaign_plays cp u ?d = Suc ?c" by (rule campaign_plays_add [OF own])
  have t: "t_users ?d = t_users d" "t_arcadeParts ?d = t_arcadeParts d" "t_playSessions ?d = t_playSessions d"
    by (simp_all add: put_defs)
  have u: "map_of (t_users ?d) u = Some r" using Cons.prems(1) by (simp add: t)
  have fr: "range (newId k) \<inter> fst ` set (t_arcadeParts ?d) = {}" using Cons.prems(5) kp by (simp add: t)
  let ?r = "r\<lparr>terasBalance := terasBalance r + paid playCountRewardMap (Suc ?c)\<rparr>"
  from count_one_play [where cp = cp and env = env and rnd = "rnd k", OF u Cons.prems(2) assms(1) inj fr] obtain d1 where d1:
    "distributionRewardPlayCount env cp now (newId k) (rnd k) u ?d = (Inr (), d1)"
    "map_of (t_users d1) u = Some ?r" "\<forall>v. v \<noteq> u \<longrightarrow> map_of (t_users d1) v = map_of (t_users ?d) v"
    "t_plays d1 = t_plays ?d" "t_playSessions d1 = t_playSessions ?d"
    "t_arcadeParts d1 = t_arcadeParts ?d @ new_parts env (newId k) u r 0 (parts_won playCountRewardMap (Suc ?c) (rnd k))"
    unfolding c by blast
  have c1: "campaign_plays cp u d1 = Suc ?c" using campaign_plays_frame [OF d1(4,5)] c by simp
  have "\<forall>(k', p') \<in> set ps. own_play cp u d1 p'"
    using Cons.prems(3) kp d1(5) by (auto simp: own_play_def t)
  moreover have "\<forall>(k', p') \<in> set ps. range (newId k') \<inter> fst ` set (t_arcadeParts d1) = {}"
  proof clarify
    fix k' p' assume m: "(k', p') \<in> set ps"
    then have "k' \<noteq> k" using Cons.prems(4) kp by force
    then have "range (newId k') \<inter> range (newId k) = {}" using assms(2) by (auto simp: inj_on_def)
    moreover have "range (newId k') \<inter> fst ` set (t_arcadeParts d) = {}"
      using bspec [OF Cons.prems(5), of "(k', p')"] m kp by simp
    ultimately show "range (newId k') \<inter> fst ` set (t_arcadeParts d1) = {}"
      using new_keys [OF d1(6)] disjoint_still unfolding t by metis
  qed
  ultimately obtain d' where d': "play_on env cp now newId rnd u ps d1 = (Inr (), d')"
    "map_of (t_users d') u = Some (?r\<lparr>terasBalance :=
       terasBalance ?r + (\<Sum>i \<in> {Suc ?c<..Suc ?c + length ps}. paid playCountRewardMap i)\<rparr>)"
    "\<forall>v. v \<noteq> u \<longrightarrow> map_of (t_users d') v = map_of (t_users d1) v"
    "t_arcadeParts d' = t_arcadeParts d1 @ campaign_parts env newId rnd u ?r (Suc (Suc ?c)) ps"
    using Cons.IH [OF d1(2) user_ok_credit [OF Cons.prems(2) paid_nonneg]] Cons.prems(4) kp unfolding c1 by auto
  have "{?c<..?c + length (kp # ps)} = insert (Suc ?c) {Suc ?c<..Suc ?c + length ps}" by auto
  moreover have "campaign_parts env newId rnd u ?r (Suc (Suc ?c)) ps = campaign_parts env newId rnd u r (Suc (Suc ?c)) ps"
    by (rule campaign_parts_user) simp
  ultimately show ?case
    using d' d1(1,3,6) kp by (intro exI [where x = d']) (simp add: t campaign_parts_def)
qed

lemma paid_bound:
  assumes "distinct (map fst m)" and "\<forall>(n, r) \<in> set m. 0 \<le> rw_teras r" and "finite A"
  shows "(\<Sum>i \<in> A. paid m i) \<le> sum_list (map (\<lambda>x. rw_teras (snd x)) m)"
  using assms(1,2)
proof (induction m)
  case (Cons x m)
  obtain n r where x: "x = (n, r)" by (cases x)
  have "paid (x # m) i \<le> (if i = n then rw_teras r else 0) + paid m i" for i
    using Cons.prems(2) x by (auto simp: paid_def split: option.splits dest!: map_of_SomeD)
  then have "(\<Sum>i \<in> A. paid (x # m) i) \<le> (\<Sum>i \<in> A. (if i = n then rw_teras r else 0) + paid m i)" by (rule sum_mono)
  also have "\<dots> = (if n \<in> A then rw_teras r else 0) + (\<Sum>i \<in> A. paid m i)"
    by (simp add: sum.distrib sum.delta assms(3))
  also have "\<dots> \<le> rw_teras r + sum_list (map (\<lambda>x. rw_teras (snd x)) m)" using Cons x by auto
  finally show ?case by (simp add: x)
qed (simp add: paid_def)

text \<open>
  (C31) When the plays of a player are counted one after the other, each before the next one is recorded, the
  campaign pays the reward of every number of plays that is passed, each exactly once.  The balance grows by the sum of the Teras of the
  passed numbers, never more than 77,150 in all; the parts of the passed numbers, in their order and of the kinds the rewards
  and the draws say, are added, usable and owned by the player; nobody else's balance changes and no other part is touched.
\<close>

theorem campaign_pays_every_threshold:
  assumes "now < cp_end cp" and "inj (\<lambda>(k, i). newId k i)"
    and "map_of (t_users d) u = Some r" and "user_ok r"
    and "\<forall>(k, p) \<in> set ps. own_play cp u d p" and "distinct (map fst ps)"
    and "\<forall>(k, p) \<in> set ps. range (newId k) \<inter> fst ` set (t_arcadeParts d) = {}"
  shows "\<exists>d' r'. play_on env cp now newId rnd u ps d = (Inr (), d') \<and> map_of (t_users d') u = Some r' \<and>
    terasBalance r' = terasBalance r + (\<Sum>i \<in> {campaign_plays cp u d<..campaign_plays cp u d + length ps}. paid playCountRewardMap i) \<and>
    terasBalance r' \<le> terasBalance r + 77150 \<and> r' = r\<lparr>terasBalance := terasBalance r'\<rparr> \<and>
    (\<forall>v. v \<noteq> u \<longrightarrow> map_of (t_users d') v = map_of (t_users d) v) \<and>
    t_arcadeParts d' = t_arcadeParts d @ concat (map (\<lambda>(n, k, p). map (\<lambda>(i, ap).
        (newId k i, \<lparr>nft_userId = Some u, nft_ownerWallet = u_walletAddress r, nft_physicalWallet = None,
          nft_state = IN_AKIVERSE, nft_lastBlock = 0, nft_lastTransactionIndex = 0, nft_updatedAt = env_now env,
          ap_category = fst ap, ap_subCategory = snd ap, ap_destroyedAt = None, ap_craftId = None,
          ap_createDismantleId = None\<rparr>))
      (enumerate 0 (parts_won playCountRewardMap n (rnd k)))) (enumerate (Suc (campaign_plays cp u d)) ps))"
proof -
  have m: "distinct (map fst playCountRewardMap)" "sum_list (map (\<lambda>x. rw_teras (snd x)) playCountRewardMap) = 77150"
    "\<forall>(n, r) \<in> set playCountRewardMap. 0 \<le> rw_teras r"
    by (simp_all add: reward_maps teras_only_def)
  define S where "S = (\<Sum>i \<in> {campaign_plays cp u d<..campaign_plays cp u d + length ps}. paid playCountRewardMap i)"
  have S: "S \<le> 77150" unfolding S_def using paid_bound [OF m(1,3)] m(2) by fastforce
  from play_on_pays [OF assms, of env rnd] obtain d' where d': "play_on env cp now newId rnd u ps d = (Inr (), d')"
    "map_of (t_users d') u = Some (r\<lparr>terasBalance := terasBalance r + S\<rparr>)"
    "\<forall>v. v \<noteq> u \<longrightarrow> map_of (t_users d') v = map_of (t_users d) v"
    "t_arcadeParts d' = t_arcadeParts d @ campaign_parts env newId rnd u r (Suc (campaign_plays cp u d)) ps"
    unfolding S_def by blast
  have r: "r\<lparr>terasBalance := terasBalance r + S\<rparr> = r\<lparr>terasBalance := terasBalance (r\<lparr>terasBalance := terasBalance r + S\<rparr>)\<rparr>"
    "terasBalance (r\<lparr>terasBalance := terasBalance r + S\<rparr>) = terasBalance r + S"
    "terasBalance (r\<lparr>terasBalance := terasBalance r + S\<rparr>) \<le> terasBalance r + 77150" using S by simp_all
  show ?thesis
    unfolding S_def [symmetric]
    by (rule exI, rule exI, intro conjI, rule d'(1), rule d'(2), rule r(2), rule r(3), rule r(1), rule d'(3))
      (rule d'(4) [unfolded campaign_parts_def new_parts_def campaign_part_def])
qed

section \<open>Two crafts at once\<close>

text \<open>
  When two crafts are committed before either is counted, both count the same number \<open>n\<close>: the
  reward for \<open>n\<close> is paid twice and the one for \<open>n - 1\<close> never, so that the ninth and tenth craft together pay
  10,000 Teras instead of 6,000.
\<close>

lemma crafts_counted_together:
  assumes "campaign_crafts cp u d = n" and "ctx_userId ctx = Some u" and "now < cp_end cp"
    and "map_of (t_users d) u = Some r" and "user_ok r"
    and "inj newId" and "range newId \<inter> fst ` set (t_arcadeParts d) = {}" and "inj newId'" 
    and "range newId' \<inter> fst ` set (t_arcadeParts d) = {}" and "range newId \<inter> range newId' = {}"
  shows "\<exists>d1 d2 r'. distributionRewardCraftCount env cp now newId rnd ctx d = (Inr (), d1) \<and>
    distributionRewardCraftCount env cp now newId' rnd' ctx d1 = (Inr (), d2) \<and>
    map_of (t_users d2) u = Some r' \<and> terasBalance r' = terasBalance r + 2 * paid craftCountRewardMap n"
proof (cases "map_of craftCountRewardMap n")
  case None
  with assms(1-4) show ?thesis by (simp add: distributionRewardCraftCount_def paid_def)
next
  case (Some reward)
  note pl = rewards_plain(2) [OF Some]
  let ?r = "r\<lparr>terasBalance := terasBalance r + rw_teras reward\<rparr>"
  from distribution_succeeds [OF assms(4,5) pl assms(6,7), of env rnd] obtain d1 where
    d1: "distributionReward env newId rnd u reward d = (Inr (), d1)" "map_of (t_users d1) u = Some ?r" "t_crafts d1 = t_crafts d"
      "t_arcadeParts d1 = t_arcadeParts d @ new_parts env newId u r 0 (rw_aps reward rnd)" by blast
  have ok: "user_ok ?r" using user_ok_credit [OF assms(5)] pl by (simp add: plain_def)
  have "range newId' \<inter> fst ` set (t_arcadeParts d1) = {}"
    by (rule disjoint_still [OF assms(9) _ new_keys [OF d1(4)]]) (use assms(10) in \<open>simp add: Int_commute\<close>)
  from distribution_succeeds [OF d1(2) ok pl assms(8) this, of env rnd'] obtain d2 where
    d2: "distributionReward env newId' rnd' u reward d1 = (Inr (), d2)"
      "map_of (t_users d2) u = Some (?r\<lparr>terasBalance := terasBalance ?r + rw_teras reward\<rparr>)" by blast
  have "campaign_crafts cp u d1 = n" using assms(1) d1(3) by (simp add: campaign_crafts_def)
  moreover have "distributionRewardCraftCount env cp now newId rnd ctx d = (Inr (), d1)"
    using assms(1-3) Some d1(1) by (simp add: distributionRewardCraftCount_def)
  ultimately show ?thesis
    using assms(2,3) Some d2
    by (intro exI [where x = d1] exI [where x = d2]) (simp add: distributionRewardCraftCount_def paid_def)
qed

section \<open>On the small database\<close>

definition sample_campaign :: campaign where
  "sample_campaign = \<lparr>cp_start = 0, cp_end = 100\<rparr>"

definition campaign_session :: play_session_row where
  "campaign_session = \<lparr>ps_playerId = ''u1'', ps_arcadeMachineId = ''a1'', ps_arcadeMachineOwnerId = ''u1'',
     ps_gameCenterId = None, ps_gameCenterOwnerId = None, ps_difficulty = None, ps_targetScore = None,
     ps_maxPlayCount = None, ps_authToken = ''t'', ps_state = PLAYING, ps_fever = False, ps_endedAt = None,
     ps_createdAt = 1, ps_updatedAt = 1\<rparr>"

definition campaign_play_row :: play_row where
  "campaign_play_row = \<lparr>pl_playSessionId = ''s1'', pl_endedAt = None, pl_score = None, pl_result = None,
     pl_ownerTerasReward = None, pl_playerTerasReward = None, pl_megaSpark = False, pl_terasBoosterRatio = None,
     pl_createdAt = 1, pl_updatedAt = 1\<rparr>"

text \<open>Nine plays are recorded.\<close>

definition campaign_db :: db where
  "campaign_db = sample_db\<lparr>t_playSessions := [(''s1'', campaign_session)],
     t_plays := map (\<lambda>i. (replicate i CHR ''o'', campaign_play_row)) [0..<9]\<rparr>"

definition long_id :: "string \<Rightarrow> nat \<Rightarrow> nft_id" where
  "long_id k i = ''new-'' @ replicate i CHR ''x'' @ CHR ''-'' # k"

lemma long_id_inj: "inj (\<lambda>(k, i). long_id k i)"
proof (rule injI, clarify)
  fix k i k' i' assume "long_id k i = long_id k' i'"
  then have e: "replicate i CHR ''x'' @ CHR ''-'' # k = replicate i' CHR ''x'' @ CHR ''-'' # k'" by (simp add: long_id_def)
  have t: "takeWhile (\<lambda>c. c = CHR ''x'') (replicate i CHR ''x'' @ CHR ''-'' # k) = replicate i CHR ''x''" for i k
    by (induction i) auto
  from arg_cong [OF e, of "takeWhile (\<lambda>c. c = CHR ''x'')"] have "i = i'" unfolding t by simp
  with e show "k = k' \<and> i = i'" by simp
qed

lemma long_id_fresh: "range (long_id k) \<inter> fst ` set (t_arcadeParts campaign_db) = {}"
  by (auto simp: long_id_def campaign_db_def sample_db_def)

lemma campaign_user:
  "map_of (t_users campaign_db) ''u1'' = Some (sample_user (Some ''0xab'') 20000)" "user_ok (sample_user (Some ''0xab'') 20000)"
  by (simp_all add: campaign_db_def sample_db_def sample_user_def user_ok_def)

text \<open>The tenth play brings 100 Teras; of twenty counted plays the last brings a lower cabinet.\<close>

definition twentieth_db :: db where
  "twentieth_db = campaign_db\<lparr>t_plays := map (\<lambda>i. (replicate i CHR ''o'', campaign_play_row)) [0..<19]\<rparr>"

theorem campaign_pays_every_threshold_witness:
  "\<exists>d' p. play_on sample_env sample_campaign 50 long_id (\<lambda>_ _. 0) ''u1'' [(''p'', campaign_play_row)] twentieth_db = (Inr (), d') \<and>
    t_arcadeParts d' = t_arcadeParts twentieth_db @ [(long_id ''p'' 0, p)] \<and>
    ap_category p = LOWER_CABINET \<and> ap_subCategory p = ''PLAIN'' \<and> nft_userId p = Some ''u1''"
proof -
  have n: "(50 :: int) < cp_end sample_campaign" by (simp add: sample_campaign_def)
  have o: "\<forall>(k, p) \<in> set [(''p'', campaign_play_row)]. own_play sample_campaign ''u1'' twentieth_db p"
    by (simp add: own_play_def in_campaign_def sample_campaign_def campaign_play_row_def campaign_db_def campaign_session_def
        twentieth_db_def)
  have f: "\<forall>(k, p) \<in> set [(''p'', campaign_play_row)]. range (long_id k) \<inter> fst ` set (t_arcadeParts twentieth_db) = {}"
    using long_id_fresh by (simp add: twentieth_db_def)
  have c: "campaign_plays sample_campaign ''u1'' twentieth_db = 19" by code_simp
  have u: "map_of (t_users twentieth_db) ''u1'' = Some (sample_user (Some ''0xab'') 20000)"
    using campaign_user(1) by (simp add: twentieth_db_def)
  have p: "parts_won playCountRewardMap 20 rnd = [(LOWER_CABINET, ''PLAIN'')]" for rnd
    by (simp add: parts_won_def reward_maps teras_only_def)
  have di: "distinct (map fst [(''p'', campaign_play_row)])" by simp
  from campaign_pays_every_threshold [OF n long_id_inj u campaign_user(2) o di f, of sample_env "\<lambda>_ _. 0"] show ?thesis
    unfolding c by (auto simp: p)
qed

definition craft_of :: "nft_id \<Rightarrow> craft_row" where
  "craft_of k = \<lparr>cr_userId = ''u1'', cr_craftedArcadeMachineId = k, cr_usedTerasBalance = 0, cr_usedAkvBalance = 0,
     cr_createdAt = 1\<rparr>"

text \<open>The ninth and the tenth craft are both committed.\<close>

definition crafts_db :: db where
  "crafts_db = campaign_db\<lparr>t_crafts := map (\<lambda>i. (replicate i CHR ''c'', craft_of (replicate i CHR ''m''))) [0..<10]\<rparr>"

lemma crafts_counted_together_witness:
  "\<exists>d1 d2 r'. distributionRewardCraftCount sample_env sample_campaign 50 (long_id ''a'') (\<lambda>_. 0) sample_ctx crafts_db = (Inr (), d1) \<and>
    distributionRewardCraftCount sample_env sample_campaign 50 (long_id ''b'') (\<lambda>_. 0) sample_ctx d1 = (Inr (), d2) \<and>
    map_of (t_users d2) ''u1'' = Some r' \<and> terasBalance r' = 30000"
proof -
  have n: "(50 :: int) < cp_end sample_campaign" by (simp add: sample_campaign_def)
  have c: "campaign_crafts sample_campaign ''u1'' crafts_db = 10" by code_simp
  have x: "ctx_userId sample_ctx = Some ''u1''" by (simp add: sample_ctx_def)
  have u: "map_of (t_users crafts_db) ''u1'' = Some (sample_user (Some ''0xab'') 20000)"
    using campaign_user(1) by (simp add: crafts_db_def)
  have f: "range (long_id k) \<inter> fst ` set (t_arcadeParts crafts_db) = {}" for k
    using long_id_fresh by (simp add: crafts_db_def)
  have i: "inj (long_id k)" for k by (rule injI) (use injD [OF long_id_inj, of "(k, _)" "(k, _)"] in auto)
  have d: "range (long_id ''a'') \<inter> range (long_id ''b'') = {}"
    using injD [OF long_id_inj] by fastforce
  have "paid craftCountRewardMap 10 = 5000" by (simp add: paid_def reward_maps teras_only_def)
  with crafts_counted_together [OF c x n u campaign_user(2) i f i f d, of sample_env "\<lambda>_. 0" "\<lambda>_. 0"] show ?thesis
    by (auto simp: sample_user_def)
qed

end
