(* ===== verification/Event_Message.thy ===== *)
theory Event_Message
  imports Js_Values
begin

text \<open>
  \<open>src/models/external/event_message.ts\<close>: the schemas of the messages that are stored with a
  notification and shown by the clients.  The schemas are values of \<open>zod\<close>, and \<open>conforms\<close> is what
  parsing with a schema accepts: an object may have more fields, a union is any of its members.
  \<open>datetime\<close> says which strings are dates in ISO form.
\<close>

datatype json = JStr string | JNum int | JList "json list" | JObj "(string \<times> json) list"

datatype zod = ZLiteral string | ZString | ZDatetime | ZNumber | ZObject "(string \<times> zod) list"
  | ZArray zod nat | ZUnion "zod list"

fun conforms :: "(string \<Rightarrow> bool) \<Rightarrow> zod \<Rightarrow> json \<Rightarrow> bool"
  and conforms_fields :: "(string \<Rightarrow> bool) \<Rightarrow> (string \<times> zod) list \<Rightarrow> (string \<times> json) list \<Rightarrow> bool"
  and conforms_any :: "(string \<Rightarrow> bool) \<Rightarrow> zod list \<Rightarrow> json \<Rightarrow> bool" where
  "conforms datetime (ZLiteral s) j = (j = JStr s)"
| "conforms datetime ZString j = (case j of JStr _ \<Rightarrow> True | _ \<Rightarrow> False)"
| "conforms datetime ZDatetime j = (case j of JStr s \<Rightarrow> datetime s | _ \<Rightarrow> False)"
| "conforms datetime ZNumber j = (case j of JNum _ \<Rightarrow> True | _ \<Rightarrow> False)"
| "conforms datetime (ZObject fields) j = (case j of JObj kvs \<Rightarrow> conforms_fields datetime fields kvs | _ \<Rightarrow> False)"
| "conforms datetime (ZArray z n) j =
     (case j of JList js \<Rightarrow> n \<le> length js \<and> list_all (\<lambda>x. conforms datetime z x) js | _ \<Rightarrow> False)"
| "conforms datetime (ZUnion zs) j = conforms_any datetime zs j"
| "conforms_fields datetime [] kvs = True"
| "conforms_fields datetime ((k, z) # fields) kvs =
     ((case map_of kvs k of None \<Rightarrow> False | Some j \<Rightarrow> conforms datetime z j) \<and> conforms_fields datetime fields kvs)"
| "conforms_any datetime [] j = False"
| "conforms_any datetime (z # zs) j = (conforms datetime z j \<or> conforms_any datetime zs j)"

section \<open>The messages\<close>

definition Information_GcDeposit :: zod where
  "Information_GcDeposit =
     ZObject [(''messageId'', ZLiteral ''I00001''), (''gameCenterId'', ZString)]"

definition Information_GcWithdraw :: zod where
  "Information_GcWithdraw =
     ZObject [(''messageId'', ZLiteral ''I00002''), (''gameCenterId'', ZString)]"

definition Information_GcRentOut :: zod where
  "Information_GcRentOut =
     ZObject [(''messageId'', ZLiteral ''I00003''), (''gameCenterId'', ZString)]"

definition Information_GcStopRentingReserveForGCO :: zod where
  "Information_GcStopRentingReserveForGCO =
     ZObject [(''messageId'', ZLiteral ''I00004''), (''gameCenterId'', ZString),
     (''stopRentingDate'', ZDatetime)]"

definition Information_GcStopRentingReserveForAMO :: zod where
  "Information_GcStopRentingReserveForAMO =
     ZObject [(''messageId'', ZLiteral ''I00005''), (''gameCenterId'', ZString),
     (''stopRentingDate'', ZDatetime)]"

definition Information_GcStopRentingExecute :: zod where
  "Information_GcStopRentingExecute =
     ZObject [(''messageId'', ZLiteral ''I00006''), (''gameCenterId'', ZString)]"

definition Information_AmDeposit :: zod where
  "Information_AmDeposit =
     ZObject [(''messageId'', ZLiteral ''I00008''), (''arcadeMachineId'', ZString)]"

definition Information_AmWithdraw :: zod where
  "Information_AmWithdraw =
     ZObject [(''messageId'', ZLiteral ''I00009''), (''arcadeMachineId'', ZString)]"

definition Information_AmInstallForAMO :: zod where
  "Information_AmInstallForAMO =
     ZObject [(''messageId'', ZLiteral ''I00010''), (''gameCenterId'', ZString),
     (''arcadeMachineId'', ZString)]"

definition Information_AmInstallForGCO :: zod where
  "Information_AmInstallForGCO =
     ZObject [(''messageId'', ZLiteral ''I00011''), (''gameCenterId'', ZString),
     (''arcadeMachineId'', ZString)]"

definition Information_AmUninstallForAMO :: zod where
  "Information_AmUninstallForAMO =
     ZObject [(''messageId'', ZLiteral ''I00012''), (''arcadeMachineId'', ZString),
     (''gameCenterId'', ZString)]"

definition Information_AmUninstallForGCO :: zod where
  "Information_AmUninstallForGCO =
     ZObject [(''messageId'', ZLiteral ''I00013''), (''arcadeMachineId'', ZString),
     (''gameCenterId'', ZString)]"

definition Information_AmUninstallBecauseAutoRenewDisabledForAMO :: zod where
  "Information_AmUninstallBecauseAutoRenewDisabledForAMO =
     ZObject [(''messageId'', ZLiteral ''I00014''), (''arcadeMachineId'', ZString),
     (''gameCenterId'', ZString)]"

definition Information_AmUninstallBecauseAutoRenewDisabledForGCO :: zod where
  "Information_AmUninstallBecauseAutoRenewDisabledForGCO =
     ZObject [(''messageId'', ZLiteral ''I00015''), (''arcadeMachineId'', ZString),
     (''gameCenterId'', ZString)]"

definition Information_AmUninstallBecauseStopRentingForAMO :: zod where
  "Information_AmUninstallBecauseStopRentingForAMO =
     ZObject [(''messageId'', ZLiteral ''I00016''), (''arcadeMachineId'', ZString),
     (''gameCenterId'', ZString)]"

definition Information_AmUninstallBecauseCouldNotPayTheRentalFeeForAMO :: zod where
  "Information_AmUninstallBecauseCouldNotPayTheRentalFeeForAMO =
     ZObject [(''messageId'', ZLiteral ''I00017''), (''arcadeMachineId'', ZString),
     (''gameCenterId'', ZString)]"

definition Information_AmUninstallBecauseCouldNotPayTheRentalFeeForGCO :: zod where
  "Information_AmUninstallBecauseCouldNotPayTheRentalFeeForGCO =
     ZObject [(''messageId'', ZLiteral ''I00018''), (''arcadeMachineId'', ZString),
     (''gameCenterId'', ZString)]"

definition Information_ApDeposit :: zod where
  "Information_ApDeposit =
     ZObject [(''messageId'', ZLiteral ''I00019''), (''name'', ZString)]"

definition Information_ApWithdraw :: zod where
  "Information_ApWithdraw =
     ZObject [(''messageId'', ZLiteral ''I00020''), (''name'', ZString)]"

definition Information_Craft :: zod where
  "Information_Craft =
     ZObject [(''messageId'', ZLiteral ''I00021''), (''arcadeMachineId'', ZString)]"

definition Information_PaymentRentalFee :: zod where
  "Information_PaymentRentalFee =
     ZObject [(''messageId'', ZLiteral ''I00022''), (''inOperationGcCount'', ZNumber),
     (''installedCount'', ZNumber), (''renewCount'', ZNumber),
     (''uninstallCount'', ZNumber)]"

definition Information_CollectRentalFee :: zod where
  "Information_CollectRentalFee =
     ZObject [(''messageId'', ZLiteral ''I00023''), (''installedCount'', ZNumber),
     (''renewCount'', ZNumber), (''uninstallCount'', ZNumber)]"

definition Information_Mega_Spark_Upcoming_Player :: zod where
  "Information_Mega_Spark_Upcoming_Player =
     ZObject [(''messageId'', ZLiteral ''I00024''), (''arcadeMachineId'', ZString)]"

definition Information_Mega_Spark_Upcoming_AMO :: zod where
  "Information_Mega_Spark_Upcoming_AMO =
     ZObject [(''messageId'', ZLiteral ''I00025''), (''arcadeMachineId'', ZString)]"

definition Information_Mega_Spark_Upcoming_GCO :: zod where
  "Information_Mega_Spark_Upcoming_GCO =
     ZObject [(''messageId'', ZLiteral ''I00026''), (''gameCenterId'', ZString)]"

definition Information_Mega_Spark_Player :: zod where
  "Information_Mega_Spark_Player =
     ZObject [(''messageId'', ZLiteral ''I00027''), (''arcadeMachineId'', ZString)]"

definition Information_Mega_Spark_AMO :: zod where
  "Information_Mega_Spark_AMO =
     ZObject [(''messageId'', ZLiteral ''I00028''), (''arcadeMachineId'', ZString)]"

definition Information_Mega_Spark_GCO :: zod where
  "Information_Mega_Spark_GCO =
     ZObject [(''messageId'', ZLiteral ''I00029''), (''gameCenterId'', ZString)]"

definition Information_Full_of_Energy :: zod where
  "Information_Full_of_Energy =
     ZObject [(''messageId'', ZLiteral ''I00030''), (''arcadeMachineId'', ZString)]"

definition Activity_Craft :: zod where
  "Activity_Craft =
     ZObject [(''messageId'', ZLiteral ''A00001''), (''id'', ZString)]"

definition Activity_Mega_Spark_Player :: zod where
  "Activity_Mega_Spark_Player =
     ZObject [(''messageId'', ZLiteral ''A00002''), (''totalMegaSpark'', ZNumber)]"

definition Activity_Mega_Spark_AMO :: zod where
  "Activity_Mega_Spark_AMO =
     ZObject [(''messageId'', ZLiteral ''A00003'')]"

definition Activity_Mega_Spark_GCO :: zod where
  "Activity_Mega_Spark_GCO =
     ZObject [(''messageId'', ZLiteral ''A00004'')]"

definition MessageSchema :: zod where
  "MessageSchema =
     ZUnion [Information_GcDeposit,
     Information_GcWithdraw,
     Information_GcRentOut,
     Information_GcStopRentingReserveForGCO,
     Information_GcStopRentingReserveForAMO,
     Information_GcStopRentingExecute,
     Information_AmDeposit,
     Information_AmWithdraw,
     Information_AmInstallForAMO,
     Information_AmInstallForGCO,
     Information_AmUninstallForAMO,
     Information_AmUninstallForGCO,
     Information_AmUninstallBecauseAutoRenewDisabledForAMO,
     Information_AmUninstallBecauseAutoRenewDisabledForGCO,
     Information_AmUninstallBecauseStopRentingForAMO,
     Information_AmUninstallBecauseCouldNotPayTheRentalFeeForAMO,
     Information_AmUninstallBecauseCouldNotPayTheRentalFeeForGCO,
     Information_ApDeposit,
     Information_ApWithdraw,
     Information_Craft,
     Information_PaymentRentalFee,
     Information_CollectRentalFee,
     Information_Mega_Spark_Upcoming_Player,
     Information_Mega_Spark_Upcoming_AMO,
     Information_Mega_Spark_Upcoming_GCO,
     Information_Mega_Spark_Player,
     Information_Mega_Spark_AMO,
     Information_Mega_Spark_GCO,
     Information_Full_of_Energy,
     Activity_Craft,
     Activity_Mega_Spark_Player,
     Activity_Mega_Spark_AMO,
     Activity_Mega_Spark_GCO]"

definition Information_Detail_PaymentRentalFee_Summary :: zod where
  "Information_Detail_PaymentRentalFee_Summary =
     ZObject [(''messageId'', ZLiteral ''I00022-summary''), (''installedCount'', ZNumber),
     (''renewCount'', ZNumber), (''uninstallCount'', ZNumber), (''sumFees'', ZString)]"

definition Information_Detail_PaymentRentalFee_Success :: zod where
  "Information_Detail_PaymentRentalFee_Success =
     ZObject [(''messageId'', ZLiteral ''I00022-success''), (''gameCenterId'', ZString),
     (''arcadeMachineId'', ZString), (''fee'', ZString)]"

definition Information_Detail_PaymentRentalFee_Fail :: zod where
  "Information_Detail_PaymentRentalFee_Fail =
     ZObject [(''messageId'', ZLiteral ''I00022-fail''), (''gameCenterId'', ZString),
     (''arcadeMachineId'', ZString)]"

definition PaymentRentalFee_Detail :: zod where
  "PaymentRentalFee_Detail =
     ZUnion [Information_Detail_PaymentRentalFee_Success,
     Information_Detail_PaymentRentalFee_Fail]"

definition Information_Detail_PaymentRentalFee :: zod where
  "Information_Detail_PaymentRentalFee =
     ZObject [(''detailId'', ZLiteral ''I00022''),
     (''summary'', Information_Detail_PaymentRentalFee_Summary),
     (''details'', ZArray PaymentRentalFee_Detail 1)]"

definition Information_Detail_CollectRentalFee_Summary :: zod where
  "Information_Detail_CollectRentalFee_Summary =
     ZObject [(''messageId'', ZLiteral ''I00023-summary''), (''installedCount'', ZNumber),
     (''renewCount'', ZNumber), (''uninstallCount'', ZNumber), (''sumFees'', ZString)]"

definition Information_Detail_CollectRentalFee_Success :: zod where
  "Information_Detail_CollectRentalFee_Success =
     ZObject [(''messageId'', ZLiteral ''I00023-success''), (''gameCenterId'', ZString),
     (''arcadeMachineId'', ZString), (''fee'', ZString)]"

definition Information_Detail_CollectRentalFee_Fail :: zod where
  "Information_Detail_CollectRentalFee_Fail =
     ZObject [(''messageId'', ZLiteral ''I00023-fail''), (''gameCenterId'', ZString),
     (''arcadeMachineId'', ZString)]"

definition CollectRentalFee_Detail :: zod where
  "CollectRentalFee_Detail =
     ZUnion [Information_Detail_CollectRentalFee_Success,
     Information_Detail_CollectRentalFee_Fail]"

definition Information_Detail_CollectRentalFee :: zod where
  "Information_Detail_CollectRentalFee =
     ZObject [(''detailId'', ZLiteral ''I00023''),
     (''summary'', Information_Detail_CollectRentalFee_Summary),
     (''details'', ZArray CollectRentalFee_Detail 1)]"

end
