(* ===== verification/Notifications.thy ===== *)
theory Notifications
  imports Event_Message Tables
begin

text \<open>
  \<open>src/helpers/event_notification.ts\<close>: the notifications the operations send.  They are rows of a table of
  their own that nothing else reads or writes, so the table is passed beside the database.  Every
  exception is caught and logged: a notification that cannot be stored is dropped.  The order of the
  rows of a query is that of the table.  \<open>deliver\<close> runs what an entry of the call log stands for; the
  entries about uninstalled machines carry only their ids, the rows are those of the database \<open>d0\<close> before the
  update.
\<close>

datatype NotificationType = ACTIVITY | INFORMATION

record notification_row =
  no_userId :: "user_id option"
  no_type :: NotificationType
  no_nftType :: NftType
  no_tokenId :: "nft_id option"
  no_message :: json
  no_detail :: "json option"

text \<open>All rows are stored, or none when one has no existing user.\<close>

definition create_notifications :: "db \<Rightarrow> notification_row list \<Rightarrow> notification_row list \<Rightarrow> notification_row list" where
  "create_notifications d rows ns =
     (if list_all (\<lambda>n. case no_userId n of None \<Rightarrow> False | Some u \<Rightarrow> map_of (t_users d) u \<noteq> None) rows
      then ns @ rows else ns)"

definition information :: "user_id option \<Rightarrow> NftType \<Rightarrow> nft_id option \<Rightarrow> json \<Rightarrow> notification_row" where
  "information u ty k m = \<lparr>no_userId = u, no_type = INFORMATION, no_nftType = ty, no_tokenId = k,
     no_message = m, no_detail = None\<rparr>"

definition activity :: "user_id option \<Rightarrow> NftType \<Rightarrow> nft_id option \<Rightarrow> json \<Rightarrow> notification_row" where
  "activity u ty k m = \<lparr>no_userId = u, no_type = ACTIVITY, no_nftType = ty, no_tokenId = k,
     no_message = m, no_detail = None\<rparr>"

definition gc_message :: "string \<Rightarrow> nft_id \<Rightarrow> json" where
  "gc_message i k = JObj [(''messageId'', JStr i), (''gameCenterId'', JStr k)]"

definition am_message :: "string \<Rightarrow> nft_id \<Rightarrow> json" where
  "am_message i k = JObj [(''messageId'', JStr i), (''arcadeMachineId'', JStr k)]"

definition gc_am_message :: "string \<Rightarrow> nft_id \<Rightarrow> nft_id \<Rightarrow> json" where
  "gc_am_message i g a = JObj [(''messageId'', JStr i), (''gameCenterId'', JStr g), (''arcadeMachineId'', JStr a)]"

section \<open>Deposits and withdrawals\<close>

definition notifyGcDeposit :: "nft_id \<Rightarrow> db \<Rightarrow> notification_row list \<Rightarrow> notification_row list" where
  "notifyGcDeposit tokenId d ns =
     (case map_of (t_gameCenters d) tokenId of
        None \<Rightarrow> ns
      | Some gc \<Rightarrow> if \<not> truthy (nft_userId gc) then ns
          else create_notifications d
            [information (nft_userId gc) GAME_CENTER (Some tokenId) (gc_message ''I00001'' tokenId)] ns)"

definition notifyGcWithdraw :: "nft_id \<Rightarrow> db \<Rightarrow> notification_row list \<Rightarrow> notification_row list" where
  "notifyGcWithdraw tokenId d ns =
     (case map_of (t_gameCenters d) tokenId of
        None \<Rightarrow> ns
      | Some gc \<Rightarrow> if \<not> truthy (nft_userId gc) then ns
          else create_notifications d
            [information (nft_userId gc) GAME_CENTER (Some tokenId) (gc_message ''I00002'' tokenId)] ns)"

definition notifyAmDeposit :: "nft_id \<Rightarrow> db \<Rightarrow> notification_row list \<Rightarrow> notification_row list" where
  "notifyAmDeposit tokenId d ns =
     (case map_of (t_arcadeMachines d) tokenId of
        None \<Rightarrow> ns
      | Some am \<Rightarrow> if \<not> truthy (nft_userId am) then ns
          else create_notifications d
            [information (nft_userId am) ARCADE_MACHINE (Some tokenId) (am_message ''I00008'' tokenId)] ns)"

definition notifyAmWithdraw :: "nft_id \<Rightarrow> db \<Rightarrow> notification_row list \<Rightarrow> notification_row list" where
  "notifyAmWithdraw tokenId d ns =
     (case map_of (t_arcadeMachines d) tokenId of
        None \<Rightarrow> ns
      | Some am \<Rightarrow> if \<not> truthy (nft_userId am) then ns
          else create_notifications d
            [information (nft_userId am) ARCADE_MACHINE (Some tokenId) (am_message ''I00009'' tokenId)] ns)"

definition ap_message :: "string \<Rightarrow> string \<Rightarrow> json" where
  "ap_message i n = JObj [(''messageId'', JStr i), (''name'', JStr n)]"

definition notifyApDeposit :: "nft_id \<Rightarrow> db \<Rightarrow> notification_row list \<Rightarrow> notification_row list" where
  "notifyApDeposit tokenId d ns =
     (case map_of (t_arcadeParts d) tokenId of
        None \<Rightarrow> ns
      | Some ap \<Rightarrow> if \<not> truthy (nft_userId ap) then ns
          else
            (case getArcadePartMetadata (ap_category ap) (ap_subCategory ap) of
               Inl _ \<Rightarrow> ns
             | Inr metadata \<Rightarrow> create_notifications d
                 [information (nft_userId ap) ARCADE_PART (Some tokenId) (ap_message ''I00019'' (md_name metadata))] ns))"

definition notifyApWithdraw :: "nft_id \<Rightarrow> db \<Rightarrow> notification_row list \<Rightarrow> notification_row list" where
  "notifyApWithdraw tokenId d ns =
     (case map_of (t_arcadeParts d) tokenId of
        None \<Rightarrow> ns
      | Some ap \<Rightarrow> if \<not> truthy (nft_userId ap) then ns
          else
            (case getArcadePartMetadata (ap_category ap) (ap_subCategory ap) of
               Inl _ \<Rightarrow> ns
             | Inr metadata \<Rightarrow> create_notifications d
                 [information (nft_userId ap) ARCADE_PART (Some tokenId) (ap_message ''I00020'' (md_name metadata))] ns))"

section \<open>Renting\<close>

definition notifyStartRentOut :: "user_id \<Rightarrow> nft_id \<Rightarrow> db \<Rightarrow> notification_row list \<Rightarrow> notification_row list" where
  "notifyStartRentOut u gameCenterId d =
     create_notifications d [information (Some u) GAME_CENTER (Some gameCenterId) (gc_message ''I00003'' gameCenterId)]"

definition stop_message :: "string \<Rightarrow> nft_id \<Rightarrow> string \<Rightarrow> json" where
  "stop_message i k date =
     JObj [(''messageId'', JStr i), (''gameCenterId'', JStr k), (''stopRentingDate'', JStr date)]"

text \<open>\<open>stopRentingDate\<close> is the start of the next day as \<open>dayjs\<close> writes it.\<close>

definition notifyStopRentingReserve ::
  "string \<Rightarrow> user_id \<Rightarrow> nft_id \<Rightarrow> db \<Rightarrow> notification_row list \<Rightarrow> notification_row list" where
  "notifyStopRentingReserve stopRentingDate u gameCenterId d =
     (let owners = remdups (map (\<lambda>(_, r). nft_userId r)
            (filter (\<lambda>(_, r). am_gameCenterId r = Some gameCenterId \<and> nft_userId r \<noteq> None) (t_arcadeMachines d)))
      in create_notifications d
           (information (Some u) GAME_CENTER (Some gameCenterId) (stop_message ''I00004'' gameCenterId stopRentingDate)
            # map (\<lambda>owner. information owner ARCADE_MACHINE None (stop_message ''I00005'' gameCenterId stopRentingDate)) owners))"

definition notifyAmInstall ::
  "user_id \<Rightarrow> user_id \<Rightarrow> nft_id \<Rightarrow> nft_id \<Rightarrow> db \<Rightarrow> notification_row list \<Rightarrow> notification_row list" where
  "notifyAmInstall amOwnerId gcOwnerId arcadeMachineId gameCenterId d =
     create_notifications d
       [information (Some amOwnerId) ARCADE_MACHINE (Some arcadeMachineId)
          (gc_am_message ''I00010'' gameCenterId arcadeMachineId),
        information (Some gcOwnerId) GAME_CENTER (Some gameCenterId)
          (gc_am_message ''I00011'' gameCenterId arcadeMachineId)]"

definition notifyAmUninstall ::
  "user_id \<Rightarrow> user_id \<Rightarrow> nft_id \<Rightarrow> nft_id \<Rightarrow> db \<Rightarrow> notification_row list \<Rightarrow> notification_row list" where
  "notifyAmUninstall amOwnerId gcOwnerId arcadeMachineId gameCenterId d =
     create_notifications d
       [information (Some amOwnerId) ARCADE_MACHINE (Some arcadeMachineId)
          (gc_am_message ''I00012'' gameCenterId arcadeMachineId),
        information (Some gcOwnerId) GAME_CENTER (Some gameCenterId)
          (gc_am_message ''I00013'' gameCenterId arcadeMachineId)]"

text \<open>A machine with its owner, and its game center with the owner of that.\<close>

type_synonym placed_machine = "nft_id \<times> user_id option \<times> (nft_id \<times> user_id option) option"

text \<open>The machines whose game center has an owner.\<close>

definition owned_center :: "placed_machine \<Rightarrow> (nft_id \<times> user_id option \<times> nft_id \<times> user_id option) list" where
  "owned_center item =
     (case item of
        (a, u, Some (g, w)) \<Rightarrow> if truthy w then [(a, u, g, w)] else []
      | _ \<Rightarrow> [])"

definition notifyAmUninstallBecauseAutoRenewDisabled ::
  "placed_machine list \<Rightarrow> db \<Rightarrow> notification_row list \<Rightarrow> notification_row list" where
  "notifyAmUninstallBecauseAutoRenewDisabled items d ns =
     (let notifications = concat (map (\<lambda>(a, u, g, w).
            [information u ARCADE_MACHINE (Some a) (gc_am_message ''I00014'' g a),
             information w GAME_CENTER (Some g) (gc_am_message ''I00015'' g a)])
            (concat (map owned_center items)))
      in if notifications \<noteq> [] then create_notifications d notifications ns else ns)"

text \<open>The map of the game centers keeps the order of insertion, so each stands where it came first.\<close>

fun centers_of :: "(nft_id \<times> user_id option \<times> nft_id \<times> user_id option) list \<Rightarrow> (nft_id \<times> user_id option) list \<Rightarrow>
    (nft_id \<times> user_id option) list" where
  "centers_of [] gcMap = gcMap"
| "centers_of ((a, u, g, w) # items) gcMap =
     centers_of items (if map_of gcMap g = None then gcMap @ [(g, w)] else gcMap)"

definition notifyAmUninstallBecauseStopRenting ::
  "placed_machine list \<Rightarrow> db \<Rightarrow> notification_row list \<Rightarrow> notification_row list" where
  "notifyAmUninstallBecauseStopRenting items d =
     (let owned = concat (map owned_center items) in
      create_notifications d
        (map (\<lambda>(a, u, g, w). information u ARCADE_MACHINE (Some a) (gc_am_message ''I00016'' g a)) owned @
         map (\<lambda>(g, w). information w GAME_CENTER (Some g) (gc_message ''I00006'' g)) (centers_of owned [])))"

section \<open>Crafts and sparks\<close>

definition notifyCraft :: "user_id \<Rightarrow> nft_id \<Rightarrow> db \<Rightarrow> notification_row list \<Rightarrow> notification_row list" where
  "notifyCraft u arcadeMachineId d =
     create_notifications d
       [information (Some u) ARCADE_MACHINE (Some arcadeMachineId) (am_message ''I00021'' arcadeMachineId),
        activity (Some u) ARCADE_MACHINE (Some arcadeMachineId)
          (JObj [(''messageId'', JStr ''A00001''), (''id'', JStr arcadeMachineId)])]"

definition notifyMegaSparkUpcomingQuery :: "nft_id \<Rightarrow> user_id \<Rightarrow> user_id \<Rightarrow> notification_row list" where
  "notifyMegaSparkUpcomingQuery arcadeMachineId playerId arcadeMachineOwnerId =
     [information (Some playerId) ARCADE_MACHINE (Some arcadeMachineId) (am_message ''I00024'' arcadeMachineId),
      information (Some arcadeMachineOwnerId) ARCADE_MACHINE (Some arcadeMachineId)
        (am_message ''I00025'' arcadeMachineId)]"

definition notifyMegaSparkQuery :: "nft_id \<Rightarrow> user_id \<Rightarrow> user_id \<Rightarrow> int \<Rightarrow> notification_row list" where
  "notifyMegaSparkQuery arcadeMachineId playerId arcadeMachineOwnerId totalMegaSpark =
     [information (Some playerId) ARCADE_MACHINE (Some arcadeMachineId) (am_message ''I00027'' arcadeMachineId),
      information (Some arcadeMachineOwnerId) ARCADE_MACHINE (Some arcadeMachineId)
        (am_message ''I00028'' arcadeMachineId),
      information (Some arcadeMachineOwnerId) ARCADE_MACHINE (Some arcadeMachineId)
        (am_message ''I00030'' arcadeMachineId),
      activity (Some playerId) ARCADE_MACHINE (Some arcadeMachineId)
        (JObj [(''messageId'', JStr ''A00002''), (''totalMegaSpark'', JNum totalMegaSpark)]),
      activity (Some arcadeMachineOwnerId) ARCADE_MACHINE (Some arcadeMachineId)
        (JObj [(''messageId'', JStr ''A00003'')])]"

section \<open>Rental fees\<close>

text \<open>
  The loop over the fees of a day: how many were settled, how many machines were taken out, the sum of
  the settled fees, the lines of the detail and the further notifications.  \<open>n\<close> is the number of the main message.
\<close>

record fee_notice =
  fn_success :: int
  fn_uninstall :: int
  fn_sum :: int
  fn_details :: "json list"
  fn_uninstalls :: "notification_row list"

definition no_notice :: fee_notice where
  "no_notice = \<lparr>fn_success = 0, fn_uninstall = 0, fn_sum = 0, fn_details = [], fn_uninstalls = []\<rparr>"

definition success_detail :: "string \<Rightarrow> nft_id \<Rightarrow> rental_fee_row \<Rightarrow> json" where
  "success_detail i a r = JObj [(''messageId'', JStr i), (''arcadeMachineId'', JStr a),
     (''gameCenterId'', JStr (rf_gameCenterId r)), (''fee'', JStr (int_string (rf_fee r)))]"

definition fail_detail :: "string \<Rightarrow> nft_id \<Rightarrow> rental_fee_row \<Rightarrow> json" where
  "fail_detail i a r = JObj [(''messageId'', JStr i), (''arcadeMachineId'', JStr a),
     (''gameCenterId'', JStr (rf_gameCenterId r))]"

fun collect_notice :: "user_id \<Rightarrow> (nft_id \<times> rental_fee_row) list \<Rightarrow> fee_notice \<Rightarrow> fee_notice" where
  "collect_notice u [] n = n"
| "collect_notice u ((a, r) # fees) n =
     collect_notice u fees
       (if rf_collectState r = C_COLLECTED
        then n\<lparr>fn_success := fn_success n + 1, fn_sum := fn_sum n + rf_fee r,
               fn_details := fn_details n @ [success_detail ''I00023-success'' a r]\<rparr>
        else if rf_collectState r = C_UNINSTALLED
        then n\<lparr>fn_uninstall := fn_uninstall n + 1,
               fn_details := fn_details n @ [fail_detail ''I00023-fail'' a r],
               fn_uninstalls := fn_uninstalls n @
                 [information (Some u) ARCADE_MACHINE (Some a) (gc_am_message ''I00017'' (rf_gameCenterId r) a)]\<rparr>
        else n)"

fun payment_notice :: "user_id \<Rightarrow> (nft_id \<times> rental_fee_row) list \<Rightarrow> fee_notice \<Rightarrow> fee_notice" where
  "payment_notice u [] n = n"
| "payment_notice u ((a, r) # fees) n =
     payment_notice u fees
       (if rf_paymentState r = PAY_PAID
        then n\<lparr>fn_success := fn_success n + 1, fn_sum := fn_sum n + rf_fee r,
               fn_details := fn_details n @ [success_detail ''I00022-success'' a r]\<rparr>
        else if rf_collectState r = C_UNINSTALLED
        then n\<lparr>fn_uninstall := fn_uninstall n + 1,
               fn_details := fn_details n @ [fail_detail ''I00022-fail'' a r],
               fn_uninstalls := fn_uninstalls n @
                 [information (Some u) GAME_CENTER (Some a) (gc_am_message ''I00018'' (rf_gameCenterId r) a)]\<rparr>
        else n)"

definition notice_detail :: "string \<Rightarrow> (string \<times> json) list \<Rightarrow> fee_notice \<Rightarrow> json" where
  "notice_detail i counts n =
     JObj [(''detailId'', JStr i),
           (''summary'', JObj (counts @ [(''messageId'', JStr (i @ ''-summary'')), (''sumFees'', JStr (int_string (fn_sum n)))])),
           (''details'', JList (fn_details n))]"

definition day_fees :: "string \<Rightarrow> (rental_fee_row \<Rightarrow> bool) \<Rightarrow> db \<Rightarrow> (nft_id \<times> rental_fee_row) list" where
  "day_fees date P d =
     map (\<lambda>((_, a), r). (a, r)) (filter (\<lambda>((dt, _), r). dt = date \<and> P r) (t_rentalFees d))"

definition notifyRentalFeeCollect ::
  "string \<Rightarrow> user_id \<Rightarrow> db \<Rightarrow> notification_row list \<Rightarrow> notification_row list" where
  "notifyRentalFeeCollect date u d =
     (let rentalFees = day_fees date (\<lambda>r. rf_arcadeMachineOwnerId r = u) d;
          n = collect_notice u rentalFees no_notice;
          counts = [(''installedCount'', JNum (int (length rentalFees))), (''renewCount'', JNum (fn_success n)),
                    (''uninstallCount'', JNum (fn_uninstall n))]
      in create_notifications d
           (\<lparr>no_userId = Some u, no_type = INFORMATION, no_nftType = ARCADE_MACHINE, no_tokenId = None,
              no_message = JObj ((''messageId'', JStr ''I00023'') # counts),
              no_detail = Some (notice_detail ''I00023'' counts n)\<rparr> # fn_uninstalls n))"

definition notifyRentalFeePayment ::
  "string \<Rightarrow> user_id \<Rightarrow> db \<Rightarrow> notification_row list \<Rightarrow> notification_row list" where
  "notifyRentalFeePayment date u d =
     (let rentalFees = day_fees date (\<lambda>r. rf_gameCenterOwnerId r = u) d;
          inOperationGcCount = count_rows (\<lambda>_ g. nft_userId g = Some u \<and> gc_placementAllowed g) (t_gameCenters d);
          n = payment_notice u rentalFees no_notice;
          counts = [(''inOperationGcCount'', JNum (int inOperationGcCount)),
                    (''installedCount'', JNum (int (length rentalFees))), (''renewCount'', JNum (fn_success n)),
                    (''uninstallCount'', JNum (fn_uninstall n))]
      in create_notifications d
           (\<lparr>no_userId = Some u, no_type = INFORMATION, no_nftType = GAME_CENTER, no_tokenId = None,
              no_message = JObj ((''messageId'', JStr ''I00022'') # counts),
              no_detail = Some (notice_detail ''I00022'' counts n)\<rparr> # fn_uninstalls n))"

section \<open>The entries of the call log\<close>

definition placed :: "db \<Rightarrow> nft_id list \<Rightarrow> placed_machine list" where
  "placed d0 ids = map (\<lambda>(k, r). (k, nft_userId r,
       Option.bind (am_gameCenterId r) (\<lambda>g. map_option (\<lambda>c. (g, nft_userId c)) (map_of (t_gameCenters d0) g))))
     (filter (\<lambda>(k, _). k \<in> set ids) (t_arcadeMachines d0))"

fun deliver :: "string \<Rightarrow> db \<Rightarrow> external_call \<Rightarrow> db \<Rightarrow> notification_row list \<Rightarrow> notification_row list" where
  "deliver stop d0 (NotifyAmInstall u v a g) d = notifyAmInstall u v a g d"
| "deliver stop d0 (NotifyAmUninstall u v a g) d = notifyAmUninstall u v a g d"
| "deliver stop d0 (NotifyMegaSpark a u v n) d = create_notifications d (notifyMegaSparkQuery a u v n)"
| "deliver stop d0 (NotifyMegaSparkUpcoming a u v) d = create_notifications d (notifyMegaSparkUpcomingQuery a u v)"
| "deliver stop d0 (NotifyDeposit GAME_CENTER k) d = notifyGcDeposit k d"
| "deliver stop d0 (NotifyDeposit ARCADE_MACHINE k) d = notifyAmDeposit k d"
| "deliver stop d0 (NotifyDeposit ARCADE_PART k) d = notifyApDeposit k d"
| "deliver stop d0 (NotifyWithdraw GAME_CENTER k) d = notifyGcWithdraw k d"
| "deliver stop d0 (NotifyWithdraw ARCADE_MACHINE k) d = notifyAmWithdraw k d"
| "deliver stop d0 (NotifyWithdraw ARCADE_PART k) d = notifyApWithdraw k d"
| "deliver stop d0 (NotifyStartRentOut u k) d = notifyStartRentOut u k d"
| "deliver stop d0 (NotifyStopRentingReserve u k) d = notifyStopRentingReserve stop u k d"
| "deliver stop d0 (NotifyCraft u k) d = notifyCraft u k d"
| "deliver stop d0 (NotifyAutoRenewDisabled ids) d = notifyAmUninstallBecauseAutoRenewDisabled (placed d0 ids) d"
| "deliver stop d0 (NotifyStopRenting ids) d = notifyAmUninstallBecauseStopRenting (placed d0 ids) d"
| "deliver stop d0 (NotifyRentalFeeCollect date u) d = notifyRentalFeeCollect date u d"
| "deliver stop d0 (NotifyRentalFeePayment date u) d = notifyRentalFeePayment date u d"
| "deliver stop d0 _ d = (\<lambda>ns. ns)"

end
