(* ===== verification/Notification_Props.thy ===== *)
theory Notification_Props
  imports Notifications Arcade_Machines Sample
begin

text \<open>
  Every stored message meets its schema, no message meets two of them, the notice of the rental
  fees shows what the fees of the day say, and who is told of an uninstallation.
\<close>

declare all_ok_frame [simp del]

section \<open>Schemas\<close>

lemmas schemas = MessageSchema_def Information_GcDeposit_def Information_GcWithdraw_def Information_GcRentOut_def
  Information_GcStopRentingReserveForGCO_def Information_GcStopRentingReserveForAMO_def
  Information_GcStopRentingExecute_def Information_AmDeposit_def Information_AmWithdraw_def
  Information_AmInstallForAMO_def Information_AmInstallForGCO_def Information_AmUninstallForAMO_def
  Information_AmUninstallForGCO_def Information_AmUninstallBecauseAutoRenewDisabledForAMO_def
  Information_AmUninstallBecauseAutoRenewDisabledForGCO_def Information_AmUninstallBecauseStopRentingForAMO_def
  Information_AmUninstallBecauseCouldNotPayTheRentalFeeForAMO_def
  Information_AmUninstallBecauseCouldNotPayTheRentalFeeForGCO_def Information_ApDeposit_def
  Information_ApWithdraw_def Information_Craft_def Information_PaymentRentalFee_def
  Information_CollectRentalFee_def Information_Mega_Spark_Upcoming_Player_def
  Information_Mega_Spark_Upcoming_AMO_def Information_Mega_Spark_Upcoming_GCO_def
  Information_Mega_Spark_Player_def Information_Mega_Spark_AMO_def Information_Mega_Spark_GCO_def
  Information_Full_of_Energy_def Activity_Craft_def Activity_Mega_Spark_Player_def
  Activity_Mega_Spark_AMO_def Activity_Mega_Spark_GCO_def

lemmas details = Information_Detail_PaymentRentalFee_def Information_Detail_PaymentRentalFee_Summary_def
  PaymentRentalFee_Detail_def Information_Detail_PaymentRentalFee_Success_def
  Information_Detail_PaymentRentalFee_Fail_def Information_Detail_CollectRentalFee_def
  Information_Detail_CollectRentalFee_Summary_def CollectRentalFee_Detail_def
  Information_Detail_CollectRentalFee_Success_def Information_Detail_CollectRentalFee_Fail_def

definition well_formed :: "(string \<Rightarrow> bool) \<Rightarrow> notification_row \<Rightarrow> bool" where
  "well_formed datetime n \<longleftrightarrow> conforms datetime MessageSchema (no_message n) \<and>
     (case no_detail n of None \<Rightarrow> True
      | Some j \<Rightarrow> conforms datetime Information_Detail_PaymentRentalFee j \<or>
                conforms datetime Information_Detail_CollectRentalFee j)"

lemma message_conforms:
  "i \<in> {''I00001'', ''I00002'', ''I00003'', ''I00006''} \<Longrightarrow> conforms datetime MessageSchema (gc_message i g)"
  "i \<in> {''I00008'', ''I00009'', ''I00021'', ''I00024'', ''I00025'', ''I00027'', ''I00028'', ''I00030''} \<Longrightarrow>
     conforms datetime MessageSchema (am_message i a)"
  "i \<in> {''I00010'', ''I00011'', ''I00012'', ''I00013'', ''I00014'', ''I00015'', ''I00016'', ''I00017'', ''I00018''} \<Longrightarrow>
     conforms datetime MessageSchema (gc_am_message i g a)"
  "i \<in> {''I00019'', ''I00020''} \<Longrightarrow> conforms datetime MessageSchema (ap_message i s)"
  "i \<in> {''I00004'', ''I00005''} \<Longrightarrow> datetime t \<Longrightarrow> conforms datetime MessageSchema (stop_message i g t)"
  "conforms datetime MessageSchema (JObj [(''messageId'', JStr ''A00001''), (''id'', JStr a)])"
  "conforms datetime MessageSchema (JObj [(''messageId'', JStr ''A00002''), (''totalMegaSpark'', JNum n)])"
  "conforms datetime MessageSchema (JObj [(''messageId'', JStr ''A00003'')])"
  unfolding gc_message_def am_message_def gc_am_message_def ap_message_def stop_message_def schemas
  by auto

lemma well_formed_simps [simp]:
  "well_formed datetime (information u ty k m) = conforms datetime MessageSchema m"
  "well_formed datetime (activity u ty k m) = conforms datetime MessageSchema m"
  by (simp_all add: well_formed_def information_def activity_def)

lemma created_well_formed:
  "list_all (well_formed datetime) rows \<Longrightarrow> list_all (well_formed datetime) ns \<Longrightarrow>
   list_all (well_formed datetime) (create_notifications d rows ns)"
  by (simp add: create_notifications_def)

section \<open>The notice of the rental fees\<close>

lemma collect_notice_sums:
  "fn_success (collect_notice u fees n) = fn_success n + int (length (filter (\<lambda>(_, r). rf_collectState r = C_COLLECTED) fees))"
  "fn_uninstall (collect_notice u fees n) = fn_uninstall n + int (length (filter (\<lambda>(_, r). rf_collectState r = C_UNINSTALLED) fees))"
  "fn_sum (collect_notice u fees n) = fn_sum n + sum_list (map (\<lambda>(_, r). rf_fee r) (filter (\<lambda>(_, r). rf_collectState r = C_COLLECTED) fees))"
  "length (fn_details (collect_notice u fees n)) = length (fn_details n) +
     length (filter (\<lambda>(_, r). rf_collectState r \<noteq> C_UNPROCESSED) fees)"
  by (induction u fees n rule: collect_notice.induct) (auto intro: CollectState.exhaust)

lemma payment_notice_details:
  "length (fn_details (payment_notice u fees n)) = length (fn_details n) +
     length (filter (\<lambda>(_, r). rf_paymentState r = PAY_PAID \<or> rf_collectState r = C_UNINSTALLED) fees)"
  by (induction u fees n rule: payment_notice.induct) auto

lemma notice_rows:
  "list_all (conforms datetime CollectRentalFee_Detail) (fn_details n) \<Longrightarrow>
     list_all (conforms datetime CollectRentalFee_Detail) (fn_details (collect_notice u fees n))"
  "list_all (conforms datetime PaymentRentalFee_Detail) (fn_details n) \<Longrightarrow>
     list_all (conforms datetime PaymentRentalFee_Detail) (fn_details (payment_notice u fees n))"
  "list_all (well_formed datetime) (fn_uninstalls n) \<Longrightarrow>
     list_all (well_formed datetime) (fn_uninstalls (collect_notice u fees n))"
  "list_all (well_formed datetime) (fn_uninstalls n) \<Longrightarrow>
     list_all (well_formed datetime) (fn_uninstalls (payment_notice u fees n))"
proof -
  have s: "conforms datetime CollectRentalFee_Detail (success_detail ''I00023-success'' a r)"
    "conforms datetime CollectRentalFee_Detail (fail_detail ''I00023-fail'' a r)"
    "conforms datetime PaymentRentalFee_Detail (success_detail ''I00022-success'' a r)"
    "conforms datetime PaymentRentalFee_Detail (fail_detail ''I00022-fail'' a r)" for a r
    by (simp_all add: details success_detail_def fail_detail_def)
  show "list_all (conforms datetime CollectRentalFee_Detail) (fn_details n) \<Longrightarrow>
      list_all (conforms datetime CollectRentalFee_Detail) (fn_details (collect_notice u fees n))"
    "list_all (well_formed datetime) (fn_uninstalls n) \<Longrightarrow>
      list_all (well_formed datetime) (fn_uninstalls (collect_notice u fees n))"
    by (induction u fees n rule: collect_notice.induct) (simp_all add: s message_conforms(3))
  show "list_all (conforms datetime PaymentRentalFee_Detail) (fn_details n) \<Longrightarrow>
      list_all (conforms datetime PaymentRentalFee_Detail) (fn_details (payment_notice u fees n))"
    "list_all (well_formed datetime) (fn_uninstalls n) \<Longrightarrow>
      list_all (well_formed datetime) (fn_uninstalls (payment_notice u fees n))"
    by (induction u fees n rule: payment_notice.induct) (simp_all add: s message_conforms(3))
qed

text \<open>A notice is sent when a fee of the day has been settled.\<close>

fun settled_call :: "external_call \<Rightarrow> db \<Rightarrow> bool" where
  "settled_call (NotifyRentalFeeCollect date u) d =
     (\<exists>x \<in> set (day_fees date (\<lambda>r. rf_arcadeMachineOwnerId r = u) d). rf_collectState (snd x) \<noteq> C_UNPROCESSED)"
| "settled_call (NotifyRentalFeePayment date u) d =
     (\<exists>x \<in> set (day_fees date (\<lambda>r. rf_gameCenterOwnerId r = u) d).
        rf_paymentState (snd x) = PAY_PAID \<or> rf_collectState (snd x) = C_UNINSTALLED)"
| "settled_call _ d = True"

lemma filter_nonempty: "x \<in> set xs \<Longrightarrow> P x \<Longrightarrow> Suc 0 \<le> length (filter P xs)"
  by (metis One_nat_def Suc_leI filter_empty_conv length_greater_0_conv)

lemma collect_well_formed:
  assumes "settled_call (NotifyRentalFeeCollect date u) d" and "list_all (well_formed datetime) ns"
  shows "list_all (well_formed datetime) (notifyRentalFeeCollect date u d ns)"
proof -
  let ?fees = "day_fees date (\<lambda>r. rf_arcadeMachineOwnerId r = u) d"
  let ?n = "collect_notice u ?fees no_notice"
  from assms(1) obtain x where x: "x \<in> set ?fees" "case x of (_, r) \<Rightarrow> rf_collectState r \<noteq> C_UNPROCESSED" by auto
  have l: "Suc 0 \<le> length (fn_details ?n)"
    using filter_nonempty [where P = "\<lambda>(_, r). rf_collectState r \<noteq> C_UNPROCESSED", OF x]
    by (simp add: collect_notice_sums no_notice_def)
  have "list_all (conforms datetime CollectRentalFee_Detail) (fn_details ?n)" "list_all (well_formed datetime) (fn_uninstalls ?n)"
    by (simp_all add: notice_rows no_notice_def)
  with l show ?thesis
    unfolding notifyRentalFeeCollect_def Let_def
    by (intro created_well_formed assms(2))
      (simp add: well_formed_def schemas notice_detail_def Information_Detail_CollectRentalFee_def
        Information_Detail_CollectRentalFee_Summary_def Information_Detail_PaymentRentalFee_def)
qed

lemma payment_well_formed:
  assumes "settled_call (NotifyRentalFeePayment date u) d" and "list_all (well_formed datetime) ns"
  shows "list_all (well_formed datetime) (notifyRentalFeePayment date u d ns)"
proof -
  let ?fees = "day_fees date (\<lambda>r. rf_gameCenterOwnerId r = u) d"
  let ?n = "payment_notice u ?fees no_notice"
  from assms(1) obtain x where x: "x \<in> set ?fees"
    "case x of (_, r) \<Rightarrow> rf_paymentState r = PAY_PAID \<or> rf_collectState r = C_UNINSTALLED" by auto
  have l: "Suc 0 \<le> length (fn_details ?n)"
    using filter_nonempty [where P = "\<lambda>(_, r). rf_paymentState r = PAY_PAID \<or> rf_collectState r = C_UNINSTALLED", OF x]
    by (simp add: payment_notice_details no_notice_def)
  have "list_all (conforms datetime PaymentRentalFee_Detail) (fn_details ?n)" "list_all (well_formed datetime) (fn_uninstalls ?n)"
    by (simp_all add: notice_rows no_notice_def)
  with l show ?thesis
    unfolding notifyRentalFeePayment_def Let_def
    by (intro created_well_formed assms(2))
      (simp add: well_formed_def schemas notice_detail_def Information_Detail_PaymentRentalFee_def
        Information_Detail_PaymentRentalFee_Summary_def Information_Detail_CollectRentalFee_def)
qed

text \<open>
  (C25) Every message that is stored with a notification meets the schema the clients parse it with, and so
  does its detail: whatever call is delivered on whatever database, provided that a notice of rental
  fees is sent on a day that has a settled fee, without which its list of details is empty and does not parse.
\<close>

theorem messages_conform:
  assumes "list_all (well_formed datetime) ns" and "datetime stop" and "settled_call c d"
  shows "list_all (well_formed datetime) (deliver stop d0 c d ns)"
  using assms
proof (induction stop d0 c d rule: deliver.induct)
  case (12 stop d0 u k d)
  then show ?case
    unfolding deliver.simps notifyStopRentingReserve_def Let_def
    by (intro created_well_formed) (simp_all add: message_conforms list_all_iff)
next
  case (14 stop d0 ids d)
  have "list_all (well_formed datetime) (concat (map (\<lambda>(a, u, g, w).
      [information u ARCADE_MACHINE (Some a) (gc_am_message ''I00014'' g a),
       information w GAME_CENTER (Some g) (gc_am_message ''I00015'' g a)]) xs))" for xs
    by (induction xs) (auto simp: message_conforms)
  from created_well_formed [OF this 14(1)] 14(1) show ?case
    unfolding deliver.simps notifyAmUninstallBecauseAutoRenewDisabled_def Let_def by (simp split: if_split)
next
  case (15 stop d0 ids d)
  then show ?case
    unfolding deliver.simps notifyAmUninstallBecauseStopRenting_def Let_def
    by (intro created_well_formed) (auto simp: message_conforms list_all_iff)
next
  case (16 stop d0 date u d)
  then show ?case using collect_well_formed by simp
next
  case (17 stop d0 date u d)
  then show ?case using payment_well_formed by simp
qed (auto simp: notifyAmInstall_def notifyAmUninstall_def notifyMegaSparkQuery_def notifyMegaSparkUpcomingQuery_def
    notifyGcDeposit_def notifyAmDeposit_def notifyApDeposit_def notifyGcWithdraw_def notifyAmWithdraw_def
    notifyApWithdraw_def notifyStartRentOut_def notifyCraft_def message_conforms
    intro!: created_well_formed split: option.split sum.split)

section \<open>One schema per message\<close>

definition message_schemas :: "zod list" where
  "message_schemas = (case MessageSchema of ZUnion zs \<Rightarrow> zs | _ \<Rightarrow> [])"

fun schema_id :: "zod \<Rightarrow> string option" where
  "schema_id (ZObject ((k, ZLiteral s) # zs)) = (if k = ''messageId'' then Some s else None)"
| "schema_id _ = None"

fun message_id :: "json \<Rightarrow> string option" where
  "message_id (JObj kvs) = (case map_of kvs ''messageId'' of Some (JStr s) \<Rightarrow> Some s | _ \<Rightarrow> None)"
| "message_id _ = None"

lemma conforms_id: "schema_id z = Some s \<Longrightarrow> conforms datetime z j \<Longrightarrow> message_id j = Some s"
  by (induction z rule: schema_id.induct) (auto split: json.splits option.splits if_splits)

lemma message_schemas_ids: "distinct (map schema_id message_schemas)" "None \<notin> schema_id ` set message_schemas"
  by (simp_all add: message_schemas_def schemas)

text \<open>
  A message meets at most one of the 33 schemas, the one with its number, so a client that tries them in any
  order reads it the same way.
\<close>

lemma schemas_unambiguous:
  assumes "z \<in> set message_schemas" and "z' \<in> set message_schemas"
    and "conforms datetime z j" and "conforms datetime z' j"
  shows "z = z'"
proof -
  obtain s s' where s: "schema_id z = Some s" "schema_id z' = Some s'"
    using assms(1,2) message_schemas_ids(2) by (metis image_eqI not_None_eq)
  have "s = s'" using conforms_id [OF s(1) assms(3)] conforms_id [OF s(2) assms(4)] by simp
  with s message_schemas_ids(1) assms(1,2) show ?thesis
    unfolding distinct_map by (metis inj_onD)
qed

section \<open>What the notice shows\<close>

definition in_state :: "CollectState \<Rightarrow> (nft_id \<times> rental_fee_row) list \<Rightarrow> (nft_id \<times> rental_fee_row) list" where
  "in_state s fees = filter (\<lambda>(_, r). rf_collectState r = s) fees"

lemma collect_uninstalls:
  "length (fn_uninstalls (collect_notice u fees n)) = length (fn_uninstalls n) + length (in_state C_UNINSTALLED fees)"
  "list_all (\<lambda>x. no_userId x = Some u) (fn_uninstalls n) \<Longrightarrow>
     list_all (\<lambda>x. no_userId x = Some u) (fn_uninstalls (collect_notice u fees n))"
  by (induction u fees n rule: collect_notice.induct) (simp_all add: in_state_def information_def)

lemma settled_split:
  "\<forall>(a, r) \<in> set fees. rf_collectState r \<noteq> C_UNPROCESSED \<Longrightarrow>
   length (in_state C_COLLECTED fees) + length (in_state C_UNINSTALLED fees) = length fees"
  by (induction fees) (auto simp: in_state_def intro: CollectState.exhaust)

text \<open>
  The notice of the rental fees to the owner of machines shows what the fees of the day say: how many
  machines were installed, how many fees were collected and how many machines taken out, the exact sum of
  the collected fees, and one further notification for each machine taken out; when all fees of the day are settled,
  the two numbers add up to the first.
\<close>

lemma rental_notice_adds_up:
  assumes "map_of (t_users d) u \<noteq> None"
  shows "let fees = day_fees date (\<lambda>r. rf_arcadeMachineOwnerId r = u) d;
             collected = in_state C_COLLECTED fees; gone = in_state C_UNINSTALLED fees;
             counts = [(''installedCount'', JNum (int (length fees))), (''renewCount'', JNum (int (length collected))),
                       (''uninstallCount'', JNum (int (length gone)))] in
    ((\<forall>(a, r) \<in> set fees. rf_collectState r \<noteq> C_UNPROCESSED) \<longrightarrow> length collected + length gone = length fees) \<and>
    (\<exists>n rows details. notifyRentalFeeCollect date u d ns = ns @ n # rows \<and> length rows = length gone \<and>
       no_userId n = Some u \<and> no_message n = JObj ((''messageId'', JStr ''I00023'') # counts) \<and>
       no_detail n = Some (JObj [(''detailId'', JStr ''I00023''),
         (''summary'', JObj (counts @ [(''messageId'', JStr ''I00023-summary''),
            (''sumFees'', JStr (int_string (sum_list (map (\<lambda>(_, r). rf_fee r) collected))))])),
         (''details'', JList details)]))"
proof -
  let ?fees = "day_fees date (\<lambda>r. rf_arcadeMachineOwnerId r = u) d"
  let ?n = "collect_notice u ?fees no_notice"
  have sums: "fn_success ?n = int (length (in_state C_COLLECTED ?fees))"
    "fn_uninstall ?n = int (length (in_state C_UNINSTALLED ?fees))"
    "fn_sum ?n = sum_list (map (\<lambda>(_, r). rf_fee r) (in_state C_COLLECTED ?fees))"
    by (simp_all add: collect_notice_sums in_state_def no_notice_def)
  have un: "length (fn_uninstalls ?n) = length (in_state C_UNINSTALLED ?fees)"
    "list_all (\<lambda>x. no_userId x = Some u) (fn_uninstalls ?n)"
    using collect_uninstalls [where u = u and fees = ?fees and n = no_notice] by (simp_all add: no_notice_def)
  then have "list_all (\<lambda>n. case no_userId n of None \<Rightarrow> False | Some u \<Rightarrow> map_of (t_users d) u \<noteq> None) (fn_uninstalls ?n)"
    using assms by (auto simp: list_all_iff)
  then show ?thesis
    using assms un(1) settled_split
    by (simp add: Let_def notifyRentalFeeCollect_def create_notifications_def sums notice_detail_def)
qed

section \<open>Who is told of an uninstallation\<close>

text \<open>
  When the owner of a game center takes out a machine of another user, the notification for the
  owner of the machine goes to the owner of the center, who gets both: no notification is for the owner of
  the machine.
\<close>

lemma machine_owner_not_told:
  assumes "uninstallArcadeMachineFromGameCenter env ctx a (\<lambda>d. d) d = (Inr r, d')"
    and "map_of (t_arcadeMachines d) a = Some m" and "am_gameCenterId m = Some g"
    and "map_of (t_gameCenters d) g = Some c" and "nft_userId c = ctx_userId ctx" and "ctx_userId ctx = Some w"
    and "nft_userId m = Some u" and "u \<noteq> w"
  shows "\<exists>x. t_calls d' = t_calls d @ [x] \<and>
    (\<forall>stop d0 ns n. n \<in> set (deliver stop d0 x d' ns) \<longrightarrow> n \<in> set ns \<or> no_userId n = Some w)"
proof -
  from assms obtain d1 where d1: "remove_machine env a d = Inr d1" "d' = call (NotifyAmUninstall w w a g) d1"
    by (auto simp: uninstallArcadeMachineFromGameCenter_def Let_def split: if_splits sum.splits)
  then have "t_calls d1 = t_calls d" by (auto simp: remove_machine_def arcadeMachine_tab.update_Inr put_defs)
  then show ?thesis
    by (intro exI [where x = "NotifyAmUninstall w w a g"])
      (auto simp: d1(2) call_def notifyAmUninstall_def create_notifications_def information_def split: if_splits)
qed

section \<open>On small databases\<close>

definition fee_of :: "CollectState \<Rightarrow> rental_fee_row" where
  "fee_of s = \<lparr>rf_arcadeMachineOwnerId = ''u1'', rf_gameCenterOwnerId = ''u2'', rf_gameCenterId = ''g1'', rf_fee = 35,
     rf_collectState = s, rf_collectDate = None, rf_paymentState = PAY_UNPROCESSED, rf_paymentDate = None\<rparr>"

definition fees_db :: db where
  "fees_db = sample_db\<lparr>t_rentalFees := [((''20240101'', ''a1''), fee_of C_COLLECTED),
     ((''20240101'', ''a3''), fee_of C_UNINSTALLED)]\<rparr>"

theorem messages_conform_witness:
  "list_all (well_formed (\<lambda>s. s = ''2024-01-02T00:00:00.000Z''))
     (deliver ''2024-01-02T00:00:00.000Z'' fees_db (NotifyRentalFeeCollect ''20240101'' ''u1'') fees_db [])"
  by (rule messages_conform) (simp_all add: fees_db_def fee_of_def day_fees_def)

lemma schemas_unambiguous_witness:
  "\<not> conforms (\<lambda>_. True) Information_GcWithdraw (gc_message ''I00001'' ''g1'')"
proof
  assume w: "conforms (\<lambda>_. True) Information_GcWithdraw (gc_message ''I00001'' ''g1'')"
  have m: "Information_GcDeposit \<in> set message_schemas" "Information_GcWithdraw \<in> set message_schemas"
    by (simp_all add: message_schemas_def MessageSchema_def)
  have d: "conforms (\<lambda>_. True) Information_GcDeposit (gc_message ''I00001'' ''g1'')"
    by (simp add: Information_GcDeposit_def gc_message_def)
  from schemas_unambiguous [OF m d w] show False by (simp add: Information_GcDeposit_def Information_GcWithdraw_def)
qed

lemma rental_notice_adds_up_witness:
  "\<exists>n rows. notifyRentalFeeCollect ''20240101'' ''u1'' fees_db [] = n # rows \<and> length rows = 1 \<and>
     no_message n = JObj [(''messageId'', JStr ''I00023''), (''installedCount'', JNum 2), (''renewCount'', JNum 1),
       (''uninstallCount'', JNum 1)]"
proof -
  have u: "map_of (t_users fees_db) ''u1'' \<noteq> None" by (simp add: fees_db_def sample_db_def)
  have f: "day_fees ''20240101'' (\<lambda>r. rf_arcadeMachineOwnerId r = ''u1'') fees_db =
      [(''a1'', fee_of C_COLLECTED), (''a3'', fee_of C_UNINSTALLED)]"
    by (simp add: day_fees_def fees_db_def fee_of_def)
  from rental_notice_adds_up [OF u, of "''20240101''" "[]"] show ?thesis
    unfolding f by (auto simp: Let_def in_state_def fee_of_def)
qed

definition center_ctx :: ctx where
  "center_ctx = \<lparr>ctx_userId = Some ''u2'', ctx_walletAddress = None, ctx_country = None\<rparr>"

definition placed_db :: db where
  "placed_db = sample_db\<lparr>t_arcadeMachines :=
     [(''a1'', (sample_machine ''u1'' 100 None)\<lparr>am_gameCenterId := Some ''g1'', am_position := Some 1\<rparr>)]\<rparr>"

lemma machine_owner_not_told_witness:
  "\<exists>r d' x. uninstallArcadeMachineFromGameCenter sample_env center_ctx ''a1'' (\<lambda>d. d) placed_db = (Inr r, d') \<and>
     t_calls d' = [x] \<and> list_all (\<lambda>n. no_userId n = Some ''u2'') (deliver ''s'' placed_db x d' [])"
proof -
  let ?run = "uninstallArcadeMachineFromGameCenter sample_env center_ctx ''a1'' (\<lambda>d. d) placed_db"
  have "case fst ?run of Inl _ \<Rightarrow> False | Inr _ \<Rightarrow> True" by code_simp
  then obtain r d' where run: "?run = (Inr r, d')" by (cases ?run) (auto split: sum.splits)
  have p: "map_of (t_arcadeMachines placed_db) ''a1'' =
      Some ((sample_machine ''u1'' 100 None)\<lparr>am_gameCenterId := Some ''g1'', am_position := Some 1\<rparr>)"
    "am_gameCenterId ((sample_machine ''u1'' 100 None)\<lparr>am_gameCenterId := Some ''g1'', am_position := Some 1\<rparr>) = Some ''g1''"
    "map_of (t_gameCenters placed_db) ''g1'' = Some sample_center" "nft_userId sample_center = ctx_userId center_ctx"
    "ctx_userId center_ctx = Some ''u2''"
    "nft_userId ((sample_machine ''u1'' 100 None)\<lparr>am_gameCenterId := Some ''g1'', am_position := Some 1\<rparr>) = Some ''u1''"
    "''u1'' \<noteq> ''u2''" "t_calls placed_db = []"
    by (simp_all add: placed_db_def sample_db_def sample_center_def center_ctx_def sample_machine_def)
  from machine_owner_not_told [OF run p(1-7)] run show ?thesis
    unfolding p(8) by (fastforce simp: list_all_iff)
qed

end
