(* ===== verification/Rovi_Tournaments.thy ===== *)
theory Rovi_Tournaments
  imports Queries
begin

text \<open>
  \<open>src/use_cases/rovi_tournament_manager_usecase.ts\<close>: the batch that copies the tournaments of a
  partner's service and their results.  The service is a parameter, the answers to the requests of one run: the
  pages of the list of contests, the contest and the pages of its activities by id.  \<open>fails\<close> says for which contests
  the database refuses the row.  The loops over pages end only when the service says so, so they have
  fuel; \<open>None\<close> is a run that has not ended.  The two tables of the batch are touched by nothing else.
\<close>

datatype 'a answer = Answer 'a | Refused | Broken

record contest =
  ct_referenceId :: string
  ct_startTime :: date
  ct_endTime :: date
  ct_status :: string
  ct_entryFee :: int
  ct_entryFeeType :: string
  ct_entryFeeAssetId :: int
  ct_type :: string
  ct_minPlayers :: int

record rovi_row =
  rv_updatedAt :: date
  rv_tournamentType :: string
  rv_startAt :: date
  rv_endAt :: date
  rv_winnerChecked :: bool
  rv_entryFee :: int
  rv_entryFeeType :: string
  rv_entryFeeAssetId :: int
  rv_minPlayerCount :: int
  rv_playerCount :: "int option"
  rv_winnerCount :: "int option"
  rv_prizeSummary :: "int option"
  rv_prizeType :: "string option"
  rv_invalid :: bool

text \<open>The row of the batch control and the tournaments by their id.\<close>

record rovi_db =
  ro_newest :: "string option"
  ro_rows :: "(string, rovi_row) table"

section \<open>Copying the list\<close>

definition new_rovi_row :: "env \<Rightarrow> contest \<Rightarrow> rovi_row" where
  "new_rovi_row env c = \<lparr>rv_updatedAt = env_now env, rv_tournamentType = ct_type c, rv_startAt = ct_startTime c,
     rv_endAt = ct_endTime c, rv_winnerChecked = False, rv_entryFee = ct_entryFee c,
     rv_entryFeeType = ct_entryFeeType c, rv_entryFeeAssetId = ct_entryFeeAssetId c,
     rv_minPlayerCount = ct_minPlayers c, rv_playerCount = None, rv_winnerCount = None,
     rv_prizeSummary = None, rv_prizeType = None, rv_invalid = False\<rparr>"

record scan =
  sc_current :: string
  sc_failed :: bool
  sc_rows :: "(string, rovi_row) table"

definition save_contest :: "env \<Rightarrow> (string \<Rightarrow> bool) \<Rightarrow> contest \<Rightarrow> scan \<Rightarrow> scan" where
  "save_contest env fails c s =
     (let k = ct_referenceId c in
      if fails k then s\<lparr>sc_failed := True\<rparr>
      else if map_of (sc_rows s) k = None
      then s\<lparr>sc_rows := sc_rows s @ [(k, new_rovi_row env c)]\<rparr>
      else s\<lparr>sc_rows := apply_row (\<lambda>r. r\<lparr>rv_updatedAt := env_now env\<rparr>) k (sc_rows s)\<rparr>)"

text \<open>The loop over a page; the first component is \<open>isBreak\<close>.\<close>

fun scan_contests :: "env \<Rightarrow> (string \<Rightarrow> bool) \<Rightarrow> string \<Rightarrow> contest list \<Rightarrow> scan \<Rightarrow> bool \<times> scan" where
  "scan_contests env fails newest [] s = (False, s)"
| "scan_contests env fails newest (c # cs) s =
     (let s1 = (if sc_current s = newest then s\<lparr>sc_current := ct_referenceId c\<rparr> else s) in
      if ct_referenceId c = newest then (True, s1)
      else scan_contests env fails newest cs (save_contest env fails c s1))"

text \<open>The second component says whether the list was read to its end.\<close>

fun scan_pages ::
  "nat \<Rightarrow> env \<Rightarrow> (string \<Rightarrow> bool) \<Rightarrow> (nat \<Rightarrow> contest list answer) \<Rightarrow> string \<Rightarrow> nat \<Rightarrow> scan \<Rightarrow> (scan \<times> bool) option" where
  "scan_pages 0 env fails pages newest offset s = None"
| "scan_pages (Suc fuel) env fails pages newest offset s =
     (case pages offset of
        Refused \<Rightarrow> Some (s, False)
      | Broken \<Rightarrow> Some (s, False)
      | Answer [] \<Rightarrow> Some (s, True)
      | Answer contests \<Rightarrow>
          (case scan_contests env fails newest contests s of
             (True, s') \<Rightarrow> Some (s', True)
           | (False, s') \<Rightarrow> scan_pages fuel env fails pages newest (Suc offset) s'))"

definition updateTournaments ::
  "nat \<Rightarrow> env \<Rightarrow> (string \<Rightarrow> bool) \<Rightarrow> (nat \<Rightarrow> contest list answer) \<Rightarrow> rovi_db \<Rightarrow> (unit res \<times> rovi_db) option" where
  "updateTournaments fuel env fails pages w =
     (case ro_newest w of
        None \<Rightarrow> Some (Inl (PrismaKnownRequestError ''P2025''), w)
      | Some newest \<Rightarrow>
          (case scan_pages fuel env fails pages newest 0
                  \<lparr>sc_current = newest, sc_failed = False, sc_rows = ro_rows w\<rparr> of
             None \<Rightarrow> None
           | Some (s, finished) \<Rightarrow>
               Some (Inr (),
                 if finished \<and> \<not> sc_failed s then \<lparr>ro_newest = Some (sc_current s), ro_rows = sc_rows s\<rparr>
                 else w\<lparr>ro_rows := sc_rows s\<rparr>)))"

section \<open>Recording the results\<close>

record activity_row =
  ac_prize :: "int option"
  ac_prizeType :: string

record tally =
  ta_players :: int
  ta_winners :: int
  ta_prize :: int
  ta_type :: string

fun tally_activities :: "activity_row list \<Rightarrow> tally \<Rightarrow> tally" where
  "tally_activities [] t = t"
| "tally_activities (a # as) t =
     (let t1 = (case ac_prize a of
                  Some p \<Rightarrow> if 0 < p then t\<lparr>ta_winners := ta_winners t + 1, ta_prize := ta_prize t + p,
                                          ta_type := ac_prizeType a\<rparr> else t
                | None \<Rightarrow> t)
      in tally_activities as (t1\<lparr>ta_players := ta_players t1 + 1\<rparr>))"

text \<open>An answer that is no list of activities is an exception in any case.\<close>

fun tally_pages :: "nat \<Rightarrow> (nat \<Rightarrow> activity_row list answer) \<Rightarrow> nat \<Rightarrow> tally \<Rightarrow> tally option option" where
  "tally_pages 0 pages offset t = None"
| "tally_pages (Suc fuel) pages offset t =
     (case pages offset of
        Answer [] \<Rightarrow> Some (Some t)
      | Answer as \<Rightarrow> tally_pages fuel pages (Suc offset) (tally_activities as t)
      | _ \<Rightarrow> Some None)"

definition check_row :: "contest \<Rightarrow> tally \<Rightarrow> env \<Rightarrow> rovi_row \<Rightarrow> rovi_row" where
  "check_row c t env r = r\<lparr>rv_winnerChecked := True, rv_playerCount := Some (ta_players t),
     rv_winnerCount := Some (ta_winners t), rv_prizeSummary := Some (ta_prize t), rv_prizeType := Some (ta_type t),
     rv_invalid := (ta_players t < ct_minPlayers c), rv_updatedAt := env_now env\<rparr>"

text \<open>A refused request for a contest ends the run; every other failure only skips the tournament.\<close>

fun check_targets ::
  "nat \<Rightarrow> env \<Rightarrow> (string \<Rightarrow> contest answer) \<Rightarrow> (string \<Rightarrow> nat \<Rightarrow> activity_row list answer) \<Rightarrow> string list \<Rightarrow>
   (string, rovi_row) table \<Rightarrow> (string, rovi_row) table option" where
  "check_targets fuel env contests activities [] rows = Some rows"
| "check_targets fuel env contests activities (k # ks) rows =
     (case contests k of
        Refused \<Rightarrow> Some rows
      | Broken \<Rightarrow> check_targets fuel env contests activities ks rows
      | Answer c \<Rightarrow>
          if ct_status c \<noteq> ''COMPLETED'' then check_targets fuel env contests activities ks rows
          else
            (case tally_pages fuel (activities k) 0 \<lparr>ta_players = 0, ta_winners = 0, ta_prize = 0, ta_type = []\<rparr> of
               None \<Rightarrow> None
             | Some None \<Rightarrow> check_targets fuel env contests activities ks rows
             | Some (Some t) \<Rightarrow>
                 check_targets fuel env contests activities ks (apply_row (check_row c t env) k rows)))"

definition exportFinishedTournamentInfo ::
  "nat \<Rightarrow> env \<Rightarrow> (string \<Rightarrow> contest answer) \<Rightarrow> (string \<Rightarrow> nat \<Rightarrow> activity_row list answer) \<Rightarrow> rovi_db \<Rightarrow> rovi_db option" where
  "exportFinishedTournamentInfo fuel env contests activities w =
     map_option (\<lambda>rows. w\<lparr>ro_rows := rows\<rparr>)
       (check_targets fuel env contests activities
         (map fst (filter (\<lambda>(_, r). \<not> rv_winnerChecked r \<and> rv_endAt r < env_now env - 3600000) (ro_rows w)))
         (ro_rows w))"

end
