(* ===== verification/Rovi_Props.thy ===== *)
theory Rovi_Props
  imports Rovi_Tournaments Sample
begin

text \<open>
  The batch reads the whole part of the list that is new, and each result is that of all pages, when
  the service answers with the pages of one list.
\<close>

section \<open>Reading pages\<close>

text \<open>What the service documents: page \<open>i\<close> holds the entries from \<open>n * i\<close> on, at most \<open>n\<close> of them.\<close>

definition chunk :: "nat \<Rightarrow> 'a list \<Rightarrow> nat \<Rightarrow> 'a list" where
  "chunk n xs i = take n (drop (n * i) xs)"

lemma chunk_step: "drop (n * i) xs = chunk n xs i @ drop (n * Suc i) xs"
proof -
  have "drop (n * Suc i) xs = drop n (drop (n * i) xs)" by (simp add: add.commute)
  then show ?thesis unfolding chunk_def by (metis append_take_drop_id)
qed

lemma chunk_Nil: "0 < n \<Longrightarrow> chunk n xs i = [] \<longleftrightarrow> drop (n * i) xs = []"
  by (auto simp: chunk_def)

lemma drop_Suc_shorter:
  assumes "chunk n xs i \<noteq> []"
  shows "length (drop (n * Suc i) xs) < length (drop (n * i) xs)"
proof -
  have "0 < length (chunk n xs i)" using assms by simp
  with arg_cong [OF chunk_step [of n i xs], of length] show ?thesis by simp
qed

lemma scan_contests_append:
  "scan_contests env fails newest (xs @ ys) s =
     (case scan_contests env fails newest xs s of
        (True, s') \<Rightarrow> (True, s') | (False, s') \<Rightarrow> scan_contests env fails newest ys s')"
  by (induction xs arbitrary: s) (auto simp: Let_def)

lemma scan_pages_chunks:
  assumes "\<And>i. pages i = Answer (chunk 10 cs i)"
  shows "length (drop (10 * i) cs) < fuel \<Longrightarrow>
    scan_pages fuel env fails pages newest i s = Some (snd (scan_contests env fails newest (drop (10 * i) cs) s), True)"
proof (induction fuel arbitrary: i s)
  case (Suc fuel)
  show ?case
  proof (cases "chunk 10 cs i")
    case Nil
    then have "drop (10 * i) cs = []" using chunk_Nil [of 10 cs i] by simp
    with Nil assms show ?thesis by simp
  next
    case (Cons x xs)
    then have "length (drop (10 * Suc i) cs) < fuel" using Suc.prems drop_Suc_shorter [of 10 cs i] by simp
    note ih = Suc.IH [OF this]
    have "scan_pages (Suc fuel) env fails pages newest i s =
        (case scan_contests env fails newest (chunk 10 cs i) s of
           (True, s') \<Rightarrow> Some (s', True) | (False, s') \<Rightarrow> scan_pages fuel env fails pages newest (Suc i) s')"
      using assms Cons by simp
    then show ?thesis
      unfolding chunk_step [of 10 i cs] scan_contests_append
      by (auto simp: ih split: prod.splits bool.splits)
  qed
qed simp

lemma tally_activities_append: "tally_activities (xs @ ys) t = tally_activities ys (tally_activities xs t)"
  by (induction xs arbitrary: t) (auto simp: Let_def)

lemma tally_pages_chunks:
  assumes "\<And>i. pages i = Answer (chunk 100 as i)"
  shows "length (drop (100 * i) as) < fuel \<Longrightarrow>
    tally_pages fuel pages i t = Some (Some (tally_activities (drop (100 * i) as) t))"
proof (induction fuel arbitrary: i t)
  case (Suc fuel)
  show ?case
  proof (cases "chunk 100 as i")
    case Nil
    then have "drop (100 * i) as = []" using chunk_Nil [of 100 as i] by simp
    with Nil assms show ?thesis by simp
  next
    case (Cons x xs)
    then have "length (drop (100 * Suc i) as) < fuel" using Suc.prems drop_Suc_shorter [of 100 as i] by simp
    from Suc.IH [OF this] Cons assms show ?thesis
      unfolding chunk_step [of 100 i as] tally_activities_append by simp
  qed
qed simp

section \<open>The list\<close>

definition unseen :: "string \<Rightarrow> contest list \<Rightarrow> contest list" where
  "unseen newest = takeWhile (\<lambda>c. ct_referenceId c \<noteq> newest)"

lemma save_contest_simps:
  "sc_current (save_contest env fails c s) = sc_current s"
  "sc_failed (save_contest env fails c s) = (sc_failed s \<or> fails (ct_referenceId c))"
  "map_of (sc_rows (save_contest env fails c s)) k =
     (if k = ct_referenceId c \<and> \<not> fails k
      then Some (case map_of (sc_rows s) k of None \<Rightarrow> new_rovi_row env c | Some r \<Rightarrow> r\<lparr>rv_updatedAt := env_now env\<rparr>)
      else map_of (sc_rows s) k)"
  by (auto simp: save_contest_def Let_def map_add_def map_of_apply_row split: option.split)

lemma scan_contests_kept:
  "sc_current s \<noteq> newest \<Longrightarrow> sc_current (snd (scan_contests env fails newest cs s)) = sc_current s"
  by (induction cs arbitrary: s) (auto simp: Let_def save_contest_simps)

lemma scan_contests_current:
  "sc_current s = newest \<Longrightarrow> sc_current (snd (scan_contests env fails newest cs s)) =
     (case cs of [] \<Rightarrow> newest | c # _ \<Rightarrow> ct_referenceId c)"
  by (cases cs) (auto simp: Let_def save_contest_simps scan_contests_kept)

lemma scan_contests_failed:
  "sc_failed (snd (scan_contests env fails newest cs s)) =
     (sc_failed s \<or> (\<exists>c \<in> set (unseen newest cs). fails (ct_referenceId c)))"
  by (induction cs arbitrary: s) (auto simp: Let_def save_contest_simps unseen_def)

lemma scan_contests_rows:
  "distinct (map ct_referenceId cs) \<Longrightarrow>
   map_of (sc_rows (snd (scan_contests env fails newest cs s))) k =
     (case find (\<lambda>c. ct_referenceId c = k \<and> \<not> fails k) (unseen newest cs) of
        None \<Rightarrow> map_of (sc_rows s) k
      | Some c \<Rightarrow> Some (case map_of (sc_rows s) k of None \<Rightarrow> new_rovi_row env c | Some r \<Rightarrow> r\<lparr>rv_updatedAt := env_now env\<rparr>))"
proof (induction cs arbitrary: s)
  case (Cons c cs)
  have no: "ct_referenceId c = k \<Longrightarrow> find (\<lambda>c. ct_referenceId c = k \<and> \<not> fails k) (unseen newest cs) = None"
  proof -
    assume k: "ct_referenceId c = k"
    have "ct_referenceId x \<in> ct_referenceId ` set cs" if "x \<in> set (unseen newest cs)" for x
      using that by (auto simp: unseen_def dest: set_takeWhileD)
    with Cons.prems k have "\<forall>x \<in> set (unseen newest cs). ct_referenceId x \<noteq> k"
      by (metis distinct.simps(2) list.simps(9) set_map)
    then show ?thesis by (auto simp: find_None_iff)
  qed
  show ?case
  proof (cases "ct_referenceId c = newest")
    case True
    then show ?thesis by (simp add: unseen_def Let_def)
  next
    case False
    then show ?thesis
      using Cons.IH Cons.prems no
      by (auto simp: unseen_def Let_def save_contest_simps split: option.split)
  qed
qed (simp add: unseen_def)

text \<open>
  (C30) When the service answers with the pages of one list of contests, newest first, a run ends and stores every contest in front
  of the one that was newest at the last run: those that are unknown as new rows, the others with a new time only,
  and no others.  The newest contest is remembered for the next run exactly when every row could be stored, so that what
  failed is read again.
\<close>

theorem new_contests_stored:
  assumes "\<And>i. pages i = Answer (chunk 10 cs i)" and "distinct (map ct_referenceId cs)"
    and "ro_newest w = Some newest" and "length cs < fuel"
  shows "\<exists>w'. updateTournaments fuel env fails pages w = Some (Inr (), w') \<and>
    (\<forall>k. map_of (ro_rows w') k =
       (case find (\<lambda>c. ct_referenceId c = k \<and> \<not> fails k) (unseen newest cs) of
          None \<Rightarrow> map_of (ro_rows w) k
        | Some c \<Rightarrow> Some (case map_of (ro_rows w) k of None \<Rightarrow> new_rovi_row env c | Some r \<Rightarrow> r\<lparr>rv_updatedAt := env_now env\<rparr>))) \<and>
    ro_newest w' = Some (if \<exists>c \<in> set (unseen newest cs). fails (ct_referenceId c) then newest
                         else case cs of [] \<Rightarrow> newest | c # _ \<Rightarrow> ct_referenceId c)"
proof -
  let ?s = "\<lparr>sc_current = newest, sc_failed = False, sc_rows = ro_rows w\<rparr>"
  have "scan_pages fuel env fails pages newest 0 ?s = Some (snd (scan_contests env fails newest cs ?s), True)"
    using scan_pages_chunks [of pages cs 0 fuel env fails newest ?s] assms(1,4) by simp
  then have run: "updateTournaments fuel env fails pages w = Some (Inr (),
      if \<not> sc_failed (snd (scan_contests env fails newest cs ?s))
      then \<lparr>ro_newest = Some (sc_current (snd (scan_contests env fails newest cs ?s))),
             ro_rows = sc_rows (snd (scan_contests env fails newest cs ?s))\<rparr>
      else w\<lparr>ro_rows := sc_rows (snd (scan_contests env fails newest cs ?s))\<rparr>)"
    using assms(3) by (simp add: updateTournaments_def)
  have c: "sc_current (snd (scan_contests env fails newest cs ?s)) = (case cs of [] \<Rightarrow> newest | c # _ \<Rightarrow> ct_referenceId c)"
    by (rule scan_contests_current) simp
  have f: "sc_failed (snd (scan_contests env fails newest cs ?s)) = (\<exists>c \<in> set (unseen newest cs). fails (ct_referenceId c))"
    by (simp add: scan_contests_failed)
  note rows = scan_contests_rows [OF assms(2), of env fails newest ?s, unfolded scan.simps]
  show ?thesis
    unfolding run c f using assms(3) rows by (auto simp del: not_None_eq)
qed

section \<open>The results\<close>

definition winners :: "activity_row list \<Rightarrow> activity_row list" where
  "winners = filter (\<lambda>a. case ac_prize a of Some p \<Rightarrow> 0 < p | None \<Rightarrow> False)"

lemma tally_activities_sums:
  "ta_players (tally_activities as t) = ta_players t + int (length as)"
  "ta_winners (tally_activities as t) = ta_winners t + int (length (winners as))"
  "ta_prize (tally_activities as t) = ta_prize t + sum_list (map (the \<circ> ac_prize) (winners as))"
  by (induction as arbitrary: t) (auto simp: Let_def winners_def split: option.split)

definition tally_of :: "activity_row list \<Rightarrow> tally" where
  "tally_of as = tally_activities as \<lparr>ta_players = 0, ta_winners = 0, ta_prize = 0, ta_type = []\<rparr>"

lemma check_targets_result:
  assumes "\<And>k. contests k = Answer (con k) \<and> ct_status (con k) = ''COMPLETED''"
    and "\<And>k i. activities k i = Answer (chunk 100 (acts k) i)"
  shows "distinct ks \<Longrightarrow> \<forall>k \<in> set ks. length (acts k) < fuel \<Longrightarrow>
    \<exists>rows'. check_targets fuel env contests activities ks rows = Some rows' \<and>
      (\<forall>k. map_of rows' k = (if k \<in> set ks then map_option (check_row (con k) (tally_of (acts k)) env) (map_of rows k)
         else map_of rows k))"
proof (induction ks arbitrary: rows)
  case (Cons k ks)
  let ?t = "\<lparr>ta_players = 0, ta_winners = 0, ta_prize = 0, ta_type = []\<rparr>"
  let ?rows = "apply_row (check_row (con k) (tally_of (acts k)) env) k rows"
  have "tally_pages fuel (activities k) 0 ?t = Some (Some (tally_of (acts k)))"
    using tally_pages_chunks [of "activities k" "acts k" 0 fuel ?t] assms(2) Cons.prems(2) by (simp add: tally_of_def)
  then have "check_targets fuel env contests activities (k # ks) rows = check_targets fuel env contests activities ks ?rows"
    using assms(1) by simp
  moreover obtain rows' where r: "check_targets fuel env contests activities ks ?rows = Some rows'"
    "\<And>k. map_of rows' k = (if k \<in> set ks then map_option (check_row (con k) (tally_of (acts k)) env) (map_of ?rows k)
         else map_of ?rows k)"
    using Cons.IH [of ?rows] Cons.prems by auto
  moreover have "k \<notin> set ks" using Cons.prems(1) by simp
  ultimately show ?case by (intro exI [where x = rows']) (auto simp: map_of_apply_row)
qed simp

definition is_due :: "env \<Rightarrow> rovi_row \<Rightarrow> bool" where
  "is_due env r \<longleftrightarrow> \<not> rv_winnerChecked r \<and> rv_endAt r < env_now env - 3600000"

text \<open>
  A run records every tournament that ended an hour ago and is not yet checked, when the service gives its
  results page by page: with the number of all its players, the number of its winners and the exact sum of
  their prizes, and as invalid exactly when fewer have played than it needs; no other row changes.
\<close>

lemma results_recorded:
  assumes "\<And>k. contests k = Answer (con k) \<and> ct_status (con k) = ''COMPLETED''"
    and "\<And>k i. activities k i = Answer (chunk 100 (acts k) i)"
    and "distinct (map fst (ro_rows w))" and "\<forall>k \<in> fst ` set (ro_rows w). length (acts k) < fuel"
  shows "\<exists>w'. exportFinishedTournamentInfo fuel env contests activities w = Some w' \<and> ro_newest w' = ro_newest w \<and>
    (\<forall>k r. map_of (ro_rows w) k = Some r \<longrightarrow>
       (if is_due env r
        then \<exists>r'. map_of (ro_rows w') k = Some r' \<and> rv_winnerChecked r' \<and> rv_playerCount r' = Some (int (length (acts k))) \<and>
          rv_winnerCount r' = Some (int (length (winners (acts k)))) \<and>
          rv_prizeSummary r' = Some (sum_list (map (the \<circ> ac_prize) (winners (acts k)))) \<and>
          (rv_invalid r' \<longleftrightarrow> int (length (acts k)) < ct_minPlayers (con k))
        else map_of (ro_rows w') k = Some r))"
proof -
  let ?ks = "map fst (filter (\<lambda>(_, r). \<not> rv_winnerChecked r \<and> rv_endAt r < env_now env - 3600000) (ro_rows w))"
  have d: "distinct ?ks" using assms(3) by (rule distinct_map_filter)
  have f: "\<forall>k \<in> set ?ks. length (acts k) < fuel" using assms(4) by fastforce
  have due: "k \<in> set ?ks \<longleftrightarrow> is_due env r" if "map_of (ro_rows w) k = Some r" for k r
  proof
    assume "k \<in> set ?ks"
    then obtain r' where "(k, r') \<in> set (ro_rows w)" "is_due env r'" by (auto simp: is_due_def)
    with assms(3) that show "is_due env r" by (metis map_of_is_SomeI option.inject)
  next
    assume "is_due env r"
    with map_of_SomeD [OF that] show "k \<in> set ?ks" by (force simp: is_due_def)
  qed
  from check_targets_result [where contests = contests and activities = activities, OF assms(1,2) d f, of env "ro_rows w"]
  obtain rows' where r: "check_targets fuel env contests activities ?ks (ro_rows w) = Some rows'"
    "\<And>k. map_of rows' k = (if k \<in> set ?ks then map_option (check_row (con k) (tally_of (acts k)) env) (map_of (ro_rows w) k)
         else map_of (ro_rows w) k)" by blast
  have run: "exportFinishedTournamentInfo fuel env contests activities w = Some (w\<lparr>ro_rows := rows'\<rparr>)"
    unfolding exportFinishedTournamentInfo_def r(1) by simp
  have "if is_due env x
      then \<exists>r'. map_of rows' k = Some r' \<and> rv_winnerChecked r' \<and> rv_playerCount r' = Some (int (length (acts k))) \<and>
        rv_winnerCount r' = Some (int (length (winners (acts k)))) \<and>
        rv_prizeSummary r' = Some (sum_list (map (the \<circ> ac_prize) (winners (acts k)))) \<and>
        (rv_invalid r' \<longleftrightarrow> int (length (acts k)) < ct_minPlayers (con k))
      else map_of rows' k = Some x" if "map_of (ro_rows w) k = Some x" for k x
    unfolding r(2) due [OF that]
    using that by (simp add: check_row_def tally_of_def tally_activities_sums)
  with run show ?thesis by simp
qed

section \<open>On a small list\<close>

definition contest_of :: "string \<Rightarrow> contest" where
  "contest_of k = \<lparr>ct_referenceId = k, ct_startTime = 0, ct_endTime = 10, ct_status = ''COMPLETED'', ct_entryFee = 1,
     ct_entryFeeType = ''COIN'', ct_entryFeeAssetId = 1, ct_type = ''T'', ct_minPlayers = 2\<rparr>"

definition rovi_sample :: rovi_db where
  "rovi_sample = \<lparr>ro_newest = Some ''c1'', ro_rows = [(''c1'', new_rovi_row sample_env (contest_of ''c1''))]\<rparr>"

theorem new_contests_stored_witness:
  "\<exists>w'. updateTournaments 4 sample_env (\<lambda>_. False) (\<lambda>i. Answer (chunk 10 [contest_of ''c2'', contest_of ''c1''] i)) rovi_sample =
      Some (Inr (), w') \<and> ro_newest w' = Some ''c2'' \<and>
    map_of (ro_rows w') ''c2'' = Some (new_rovi_row sample_env (contest_of ''c2''))"
proof -
  have d: "distinct (map ct_referenceId [contest_of ''c2'', contest_of ''c1''])" by (simp add: contest_of_def)
  have m: "ro_newest rovi_sample = Some ''c1''" by (simp add: rovi_sample_def)
  have l: "length [contest_of ''c2'', contest_of ''c1''] < 4" by simp
  from new_contests_stored [where pages = "\<lambda>i. Answer (chunk 10 [contest_of ''c2'', contest_of ''c1''] i)", OF refl d m l,
      of sample_env "\<lambda>_. False"]
  show ?thesis by (auto simp: unseen_def contest_of_def rovi_sample_def)
qed

definition late_env :: env where
  "late_env = \<lparr>env_now = 7200000, env_rnd = round\<rparr>"

lemma results_recorded_witness:
  "\<exists>w' r'. exportFinishedTournamentInfo 5 late_env (\<lambda>k. Answer (contest_of k))
      (\<lambda>_ i. Answer (chunk 100 [\<lparr>ac_prize = Some 7, ac_prizeType = ''COIN''\<rparr>, \<lparr>ac_prize = None, ac_prizeType = []\<rparr>] i)) rovi_sample =
      Some w' \<and> map_of (ro_rows w') ''c1'' = Some r' \<and> rv_prizeSummary r' = Some 7 \<and> \<not> rv_invalid r'"
proof -
  let ?as = "[\<lparr>ac_prize = Some 7, ac_prizeType = ''COIN''\<rparr>, \<lparr>ac_prize = None, ac_prizeType = []\<rparr>]"
  have c: "(Answer (contest_of k) = Answer (contest_of k)) \<and> ct_status (contest_of k) = ''COMPLETED''" for k
    by (simp add: contest_of_def)
  have d: "distinct (map fst (ro_rows rovi_sample))" by (simp add: rovi_sample_def)
  have l: "\<forall>k \<in> fst ` set (ro_rows rovi_sample). length ?as < 5" by simp
  have r: "map_of (ro_rows rovi_sample) ''c1'' = Some (new_rovi_row sample_env (contest_of ''c1''))"
    "is_due late_env (new_rovi_row sample_env (contest_of ''c1''))" "ct_minPlayers (contest_of ''c1'') = 2"
    by (simp_all add: rovi_sample_def is_due_def late_env_def new_rovi_row_def contest_of_def)
  from results_recorded [where contests = "\<lambda>k. Answer (contest_of k)" and con = contest_of
      and activities = "\<lambda>_ i. Answer (chunk 100 ?as i)" and acts = "\<lambda>_. ?as", OF c refl d l, of late_env] r
  show ?thesis by (fastforce simp: winners_def)
qed

end
