(* ===== verification/In_App_Purchases.thy ===== *)
theory In_App_Purchases
  imports Tournament
begin

text \<open>
  \<open>src/use_cases/in_app_purchases\<close>: tickets that are bought in the stores of Google and Apple.  What the
  stores answer to one request is an argument of it.  The two tables of purchases are touched by nothing
  else, so they stand beside the database.  A request creates its row first; \<open>other\<close> is what other requests
  do until its transaction begins.  The times and the detail texts of the rows, which nothing reads, are left out, and so are the
  product ids that name a property every JavaScript object inherits.
\<close>

section \<open>The items\<close>

datatype OperatingSystem = ANDROID | IOS

record purchase_item =
  pi_id :: string
  pi_title :: string
  pi_variant :: string
  pi_ticketCount :: int
  pi_bonusCount :: "int option"
  pi_enabledAndroid :: bool
  pi_enabledIos :: bool

definition makeTicketItem :: "string \<Rightarrow> int \<Rightarrow> int \<Rightarrow> bool \<Rightarrow> bool \<Rightarrow> purchase_item" where
  "makeTicketItem v ticketCount bonusCount enabledAndroid enabledIos =
     \<lparr>pi_id = ''io.akiverse.arcade.ticket.'' @ v, pi_title = ''AKIBA Ticket '' @ v, pi_variant = v,
      pi_ticketCount = (if bonusCount > 0 then ticketCount + bonusCount else ticketCount),
      pi_bonusCount = (if bonusCount > 0 then Some bonusCount else None),
      pi_enabledAndroid = enabledAndroid, pi_enabledIos = enabledIos\<rparr>"

definition PurchaseItems :: "(string \<times> purchase_item) list" where
  "PurchaseItems = [
     (''io.akiverse.arcade.ticket.test'', makeTicketItem ''test'' 1 0 False True),
     (''io.akiverse.arcade.ticket.x10'', makeTicketItem ''x10'' 10 0 False False),
     (''io.akiverse.arcade.ticket.x20'', makeTicketItem ''x20'' 20 0 True True),
     (''io.akiverse.arcade.ticket.x50'', makeTicketItem ''x50'' 50 3 True True),
     (''io.akiverse.arcade.ticket.x100'', makeTicketItem ''x100'' 100 10 True True),
     (''io.akiverse.arcade.ticket.x200'', makeTicketItem ''x200'' 200 30 True True),
     (''io.akiverse.arcade.ticket.x500'', makeTicketItem ''x500'' 500 100 True True)]"

text \<open>\<open>String.indexOf\<close>; \<open>None\<close> is -1.\<close>

fun text_index :: "string \<Rightarrow> string \<Rightarrow> nat option" where
  "text_index sub [] = (if sub = [] then Some 0 else None)"
| "text_index sub (c # cs) =
     (if prefix sub (c # cs) then Some 0 else map_option Suc (text_index sub cs))"

definition getPurchaseItem :: "string \<Rightarrow> purchase_item res" where
  "getPurchaseItem i =
     (let itemId = (case text_index ''.sale'' i of
                      None \<Rightarrow> i
                    | Some salePosition \<Rightarrow> if salePosition > 0 then take salePosition i else i)
      in (case map_of PurchaseItems itemId of
            None \<Rightarrow> Inl (InvalidArgumentUseCaseError ''unknown product id'')
          | Some item \<Rightarrow> Inr item))"

definition listPurchaseItems :: "OperatingSystem \<Rightarrow> purchase_item list" where
  "listPurchaseItems os =
     filter (\<lambda>item. if os = ANDROID then pi_enabledAndroid item else pi_enabledIos item) (map snd PurchaseItems)"

section \<open>The purchases\<close>

datatype PurchaseStatus = PU_UNPROCESSED | PU_GRANTED | PU_CANCELED | PU_INVALID

record purchase_row =
  pu_userId :: user_id
  pu_productId :: string
  pu_status :: PurchaseStatus
  pu_errorDetail :: "use_case_error option"

record google_row = purchase_row +
  pu_purchaseToken :: string

record apple_row = purchase_row +
  pu_receipt :: string
  pu_signedResponse :: "string option"

record shop =
  sh_db :: db
  sh_google :: "(string, google_row) table"
  sh_apple :: "(string, apple_row) table"

definition insert_purchase ::
  "db \<Rightarrow> ('a purchase_row_scheme \<Rightarrow> 'a purchase_row_scheme \<Rightarrow> bool) \<Rightarrow> string \<Rightarrow> 'a purchase_row_scheme \<Rightarrow>
   (string, 'a purchase_row_scheme) table \<Rightarrow> (string, 'a purchase_row_scheme) table res" where
  "insert_purchase d same k r t =
     (if map_of t k \<noteq> None \<or> list_ex (\<lambda>(_, r'). same r r') t then Inl (PrismaKnownRequestError ''P2002'')
      else if map_of (t_users d) (pu_userId r) = None then Inl (PrismaKnownRequestError ''P2003'')
      else Inr (t @ [(k, r)]))"

text \<open>The update of the purchase by its id and the status \<open>UNPROCESSED\<close>.\<close>

definition process_purchase ::
  "('a purchase_row_scheme \<Rightarrow> 'a purchase_row_scheme) \<Rightarrow> string \<Rightarrow>
   (string, 'a purchase_row_scheme) table \<Rightarrow> (string, 'a purchase_row_scheme) table res" where
  "process_purchase f k t =
     (case map_of t k of
        None \<Rightarrow> Inl (PrismaKnownRequestError ''P2025'')
      | Some r \<Rightarrow>
          if pu_status r \<noteq> PU_UNPROCESSED then Inl (PrismaKnownRequestError ''P2025'')
          else Inr (apply_row f k t))"

definition grant :: "'a purchase_row_scheme \<Rightarrow> 'a purchase_row_scheme" where
  "grant r = r\<lparr>pu_status := PU_GRANTED\<rparr>"

definition record_error ::
  "use_case_error \<Rightarrow> string \<Rightarrow> (string, 'a purchase_row_scheme) table \<Rightarrow> (string, 'a purchase_row_scheme) table res" where
  "record_error e k t =
     (if map_of t k = None then Inl (PrismaKnownRequestError ''P2025'')
      else Inr (apply_row (\<lambda>r. r\<lparr>pu_errorDetail := Some e\<rparr>) k t))"

text \<open>
  The transaction: the tickets, the status, the line of the history and the consumption in the store.  The
  line is written by the client of the request and not by that of the transaction, so it is stored at once and
  stays when the transaction is rolled back.
\<close>

definition grant_tickets ::
  "user_id \<Rightarrow> string \<Rightarrow> string \<Rightarrow> int \<Rightarrow> (shop \<Rightarrow> shop res) \<Rightarrow> unit res \<Rightarrow> shop \<Rightarrow> unit res \<times> shop" where
  "grant_tickets u lineId purchaseId ticketCount mark consumed w =
     (case update_user u (\<lambda>_. True) (\<lambda>r. r\<lparr>tickets := tickets r + ticketCount\<rparr>) (sh_db w) of
        Inl e \<Rightarrow> (Inl e, w)
      | Inr d1 \<Rightarrow>
      (case mark (w\<lparr>sh_db := d1\<rparr>) of
        Inl e \<Rightarrow> (Inl e, w)
      | Inr w2 \<Rightarrow>
      (case writePurchaseTicketTransaction u lineId (tickets (the (map_of (t_users d1) u))) ticketCount
              ''ANDROID'' purchaseId (sh_db w) of
        Inl e \<Rightarrow> (Inl e, w)
      | Inr d0 \<Rightarrow>
      (case consumed of
        Inl e \<Rightarrow> (Inl e, w\<lparr>sh_db := d0\<rparr>)
      | Inr _ \<Rightarrow> (Inr (), w2\<lparr>sh_db := put_ticketTransactions (t_ticketTransactions d0) d1\<rparr>)))))"

section \<open>Google\<close>

record google_answer =
  ga_status :: int
  ga_purchaseState :: "int option"
  ga_acknowledgementState :: "int option"

definition google_failed :: "string option \<Rightarrow> use_case_error \<Rightarrow> shop \<Rightarrow> unit res \<times> shop" where
  "google_failed purchaseRecordId e w =
     (if e = PrismaKnownRequestError ''P2002'' then (Inl (ConflictUseCaseError ''in app purchases conflict''), w)
      else
        (case purchaseRecordId of
           None \<Rightarrow> (Inl (JsError ''PrismaClientValidationError''), w)
         | Some k \<Rightarrow>
             (case record_error e k (sh_google w) of
                Inl e' \<Rightarrow> (Inl e', w)
              | Inr t \<Rightarrow> (Inl e, w\<lparr>sh_google := t\<rparr>))))"

definition consumption :: "int res \<Rightarrow> unit res" where
  "consumption consumed = (case consumed of
       Inl e \<Rightarrow> Inl e
     | Inr status \<Rightarrow> if status > 399 then Inl (InternalServerUseCaseError ''consume status code failed'') else Inr ())"

definition mark_google :: "string \<Rightarrow> shop \<Rightarrow> shop res" where
  "mark_google k w = (case process_purchase grant k (sh_google w) of
       Inl e \<Rightarrow> Inl e | Inr t \<Rightarrow> Inr (w\<lparr>sh_google := t\<rparr>))"

definition google_purchase ::
  "google_answer \<Rightarrow> int res \<Rightarrow> string \<Rightarrow> string \<Rightarrow> user_id \<Rightarrow> string \<Rightarrow> shop \<Rightarrow> unit res \<times> shop" where
  "google_purchase purchase consumed k lineId u productId w =
     (if ga_purchaseState purchase \<noteq> Some 0 \<or> ga_acknowledgementState purchase \<noteq> Some 0
      then (Inl (IllegalStateUseCaseError ''purchase status or acknowledgement state is invalid''), w)
      else
        (case getPurchaseItem productId of
           Inl e \<Rightarrow> (Inl e, w)
         | Inr item \<Rightarrow>
             grant_tickets u lineId k (pi_ticketCount item) (mark_google k) (consumption consumed) w))"

definition verify_google ::
  "google_answer res \<Rightarrow> int res \<Rightarrow> string \<Rightarrow> string \<Rightarrow> ctx \<Rightarrow> string \<Rightarrow> string \<Rightarrow> (shop \<Rightarrow> shop) \<Rightarrow> shop \<Rightarrow>
   unit res \<times> shop" where
  "verify_google answer consumed k lineId ctx productId token other w =
     (case answer of
        Inl e \<Rightarrow> google_failed None e w
      | Inr purchase \<Rightarrow>
      if ga_status purchase > 399
      then google_failed None (InternalServerUseCaseError ''store api response failed'') w
      else
      (let u = the (ctx_userId ctx);
           r = \<lparr>pu_userId = u, pu_productId = productId, pu_status = PU_UNPROCESSED, pu_errorDetail = None,
                pu_purchaseToken = token\<rparr>
       in
       (case insert_purchase (sh_db w) (\<lambda>r r'. pu_purchaseToken r = pu_purchaseToken r') k r (sh_google w) of
          Inl e \<Rightarrow> google_failed None e w
        | Inr t \<Rightarrow>
            (case google_purchase purchase consumed k lineId u productId (other (w\<lparr>sh_google := t\<rparr>)) of
               (Inl e, w') \<Rightarrow> google_failed (Some k) e w'
             | (Inr _, w') \<Rightarrow> (Inr (), w')))))"

section \<open>Apple\<close>

text \<open>The number of the transaction in the receipt, the signed information and the product it is about.\<close>

record apple_answer =
  aa_transactionId :: "string option res"
  aa_signedTransactionInfo :: "string option res"
  aa_productId :: "string option res"
  aa_consumed :: "unit res"

definition mark_apple :: "string \<Rightarrow> shop \<Rightarrow> shop res" where
  "mark_apple k w = (case process_purchase grant k (sh_apple w) of
       Inl e \<Rightarrow> Inl e | Inr t \<Rightarrow> Inr (w\<lparr>sh_apple := t\<rparr>))"

definition apple_purchase ::
  "apple_answer \<Rightarrow> string \<Rightarrow> string \<Rightarrow> user_id \<Rightarrow> string \<Rightarrow> shop \<Rightarrow> unit res \<times> shop" where
  "apple_purchase answer k lineId u productId w =
     (case aa_transactionId answer of
        Inl e \<Rightarrow> (Inl e, w)
      | Inr None \<Rightarrow> (Inr (), w)
      | Inr (Some transactionId) \<Rightarrow>
     (case aa_signedTransactionInfo answer of
        Inl e \<Rightarrow> (Inl e, w)
      | Inr info \<Rightarrow>
     if \<not> truthy info then (Inl (JsError ''Response missing signedTransactionInfo''), w)
     else
     (case aa_productId answer of
        Inl e \<Rightarrow> (Inl e, w)
      | Inr decoded \<Rightarrow>
     if decoded = Some productId then
       (case getPurchaseItem productId of
          Inl e \<Rightarrow> (Inl e, w)
        | Inr item \<Rightarrow> grant_tickets u lineId k (pi_ticketCount item) (mark_apple k) (aa_consumed answer) w)
     else
       (case process_purchase (\<lambda>r. r\<lparr>pu_status := PU_INVALID, pu_signedResponse := info\<rparr>) k (sh_apple w) of
          Inl e \<Rightarrow> (Inl e, w)
        | Inr t \<Rightarrow> (Inr (), w\<lparr>sh_apple := t\<rparr>)))))"

definition apple_failed :: "string \<Rightarrow> use_case_error \<Rightarrow> shop \<Rightarrow> unit res \<times> shop" where
  "apple_failed k e w =
     (if e = PrismaKnownRequestError ''P2002'' then (Inl (ConflictUseCaseError ''in app purchases conflict''), w)
      else
        (case record_error e k (sh_apple w) of
           Inl e' \<Rightarrow> (Inl e', w)
         | Inr t \<Rightarrow> (Inl e, w\<lparr>sh_apple := t\<rparr>)))"

definition verify_apple ::
  "apple_answer \<Rightarrow> string \<Rightarrow> string \<Rightarrow> ctx \<Rightarrow> string \<Rightarrow> string \<Rightarrow> (shop \<Rightarrow> shop) \<Rightarrow> shop \<Rightarrow> unit res \<times> shop" where
  "verify_apple answer k lineId ctx productId receipt other w =
     (let u = the (ctx_userId ctx);
          r = \<lparr>pu_userId = u, pu_productId = productId, pu_status = PU_UNPROCESSED, pu_errorDetail = None,
               pu_receipt = receipt, pu_signedResponse = None\<rparr>
      in
      (case insert_purchase (sh_db w) (\<lambda>_ _. False) k r (sh_apple w) of
         Inl e \<Rightarrow> (Inl e, w)
       | Inr t \<Rightarrow>
           (case apple_purchase answer k lineId u productId (other (w\<lparr>sh_apple := t\<rparr>)) of
              (Inl e, w') \<Rightarrow> apple_failed k e w'
            | (Inr _, w') \<Rightarrow> (Inr (), w'))))"

end
