(* ===== verification/Purchase_Props.thy ===== *)
theory Purchase_Props
  imports In_App_Purchases Sample
begin

text \<open>
  The tickets of the users and the granted purchases stay in step, a Google purchase that could not be
  finished once is lost, and an Apple receipt can be redeemed again.
\<close>

section \<open>Granted purchases\<close>

definition item_count :: "string \<Rightarrow> int" where
  "item_count p = (case getPurchaseItem p of Inl _ \<Rightarrow> 0 | Inr item \<Rightarrow> pi_ticketCount item)"

definition granted_count :: "user_id \<Rightarrow> 'a purchase_row_scheme \<Rightarrow> int" where
  "granted_count u r = (if pu_userId r = u \<and> pu_status r = PU_GRANTED then item_count (pu_productId r) else 0)"

definition granted_tickets :: "user_id \<Rightarrow> shop \<Rightarrow> int" where
  "granted_tickets u w = sum_list (map (granted_count u \<circ> snd) (sh_google w)) +
     sum_list (map (granted_count u \<circ> snd) (sh_apple w))"

text \<open>The tickets of a user that do not come from granted purchases.\<close>

definition other_tickets :: "shop \<Rightarrow> user_id \<Rightarrow> int option" where
  "other_tickets w u = map_option (\<lambda>r. tickets r - granted_tickets u w) (map_of (t_users (sh_db w)) u)"

definition tokens_distinct :: "shop \<Rightarrow> bool" where
  "tokens_distinct w \<longleftrightarrow> distinct (map fst (sh_google w)) \<and> distinct (map (pu_purchaseToken \<circ> snd) (sh_google w))"

definition in_step :: "shop \<Rightarrow> shop \<Rightarrow> bool" where
  "in_step w w' \<longleftrightarrow> other_tickets w' = other_tickets w \<and>
     map_of (sh_google w) \<subseteq>\<^sub>m map_of (sh_google w') \<and> map_of (sh_apple w) \<subseteq>\<^sub>m map_of (sh_apple w') \<and>
     (tokens_distinct w \<longrightarrow> tokens_distinct w')"

lemma in_step_refl [simp]: "in_step w w"
  by (simp add: in_step_def)

lemma in_step_trans: "in_step w1 w2 \<Longrightarrow> in_step w2 w3 \<Longrightarrow> in_step w1 w3"
  by (auto simp: in_step_def intro: map_le_trans)

lemma process_purchase_Inr: "process_purchase f k t = Inr t' \<longleftrightarrow>
    (\<exists>r. map_of t k = Some r \<and> pu_status r = PU_UNPROCESSED \<and> t' = apply_row f k t)"
  by (auto simp: process_purchase_def split: option.splits)

lemma record_error_Inr: "record_error e k t = Inr t' \<longleftrightarrow>
    map_of t k \<noteq> None \<and> t' = apply_row (\<lambda>r. r\<lparr>pu_errorDetail := Some e\<rparr>) k t"
  by (auto simp: record_error_def)

lemma insert_purchase_Inr: "insert_purchase d same k r t = Inr t' \<longleftrightarrow>
    map_of t k = None \<and> (\<forall>(_, r') \<in> set t. \<not> same r r') \<and> map_of (t_users d) (pu_userId r) \<noteq> None \<and> t' = t @ [(k, r)]"
  by (auto simp: insert_purchase_def list_ex_iff)

lemma insert_taken: "(k, r') \<in> set t \<Longrightarrow> same r r' \<Longrightarrow>
    insert_purchase d same k' r t = Inl (PrismaKnownRequestError ''P2002'')"
  by (auto simp: insert_purchase_def list_ex_iff)

text \<open>Changes of one row.\<close>

lemma apply_row_keeps_count:
  assumes "\<And>r. map_of t k = Some r \<Longrightarrow> granted_count u (f r) = granted_count u r"
  shows "sum_list (map (granted_count u \<circ> snd) (apply_row f k t)) = sum_list (map (granted_count u \<circ> snd) t)"
proof (cases "map_of t k")
  case None
  then show ?thesis by (induction f k t rule: apply_row.induct) (auto split: if_splits)
next
  case (Some r)
  with apply_row_sum [OF Some, of "granted_count u" f] assms show ?thesis by simp
qed

lemma apply_row_tokens:
  assumes "\<And>r. pu_purchaseToken (f r) = pu_purchaseToken r"
  shows "map (pu_purchaseToken \<circ> snd) (apply_row f k t) = map (pu_purchaseToken \<circ> snd) t"
  by (induction t) (auto simp: assms)

section \<open>One transaction\<close>

text \<open>What a transaction does: all of it, or at most a line in the history.\<close>

lemma grant_tickets_cases:
  assumes "grant_tickets u lineId k n mark consumed w = (res, w')"
  obtains (failed) e d0 where "res = Inl e" "w' = w\<lparr>sh_db := d0\<rparr>" "t_users d0 = t_users (sh_db w)"
  | (granted) r d' w2 where "res = Inr ()" "map_of (t_users (sh_db w)) u = Some r"
      "mark (w\<lparr>sh_db := put_users (apply_row (\<lambda>r. r\<lparr>tickets := tickets r + n\<rparr>) u (t_users (sh_db w))) (sh_db w)\<rparr>) = Inr w2"
      "w' = w2\<lparr>sh_db := d'\<rparr>"
      "t_users d' = apply_row (\<lambda>r. r\<lparr>tickets := tickets r + n\<rparr>) u (t_users (sh_db w))"
proof (cases "update_user u (\<lambda>_. True) (\<lambda>r. r\<lparr>tickets := tickets r + n\<rparr>) (sh_db w)")
  case (Inl e)
  with assms show thesis by (intro failed [of e "sh_db w"]) (simp_all add: grant_tickets_def)
next
  case (Inr d1)
  then obtain r where r: "map_of (t_users (sh_db w)) u = Some r"
    "d1 = put_users (apply_row (\<lambda>r. r\<lparr>tickets := tickets r + n\<rparr>) u (t_users (sh_db w))) (sh_db w)"
    by (auto simp: user_tab.update_Inr)
  note run = assms [unfolded grant_tickets_def Inr sum.case]
  show thesis
  proof (cases "mark (w\<lparr>sh_db := d1\<rparr>)")
    case (Inl e)
    with run show thesis by (intro failed [of e "sh_db w"]) simp_all
  next
    case (Inr w2)
    note run = run [unfolded Inr sum.case]
    show thesis
    proof (cases "writePurchaseTicketTransaction u lineId (tickets (the (map_of (t_users d1) u))) n ''ANDROID'' k (sh_db w)")
      case (Inl e)
      with run show thesis by (intro failed [of e "sh_db w"]) simp_all
    next
      case (Inr d0)
      then have d0: "t_users d0 = t_users (sh_db w)"
        by (auto simp: writePurchaseTicketTransaction_def ticketTransaction_tab.create_Inr put_defs)
      show thesis
      proof (cases consumed)
        case (Inl e)
        with run Inr d0 show thesis by (intro failed [of e d0]) simp_all
      next
        case (Inr _)
        with run \<open>writePurchaseTicketTransaction _ _ _ _ _ _ _ = Inr d0\<close> r \<open>mark _ = Inr w2\<close> show thesis
          by (intro granted [of r w2 "put_ticketTransactions (t_ticketTransactions d0) d1"]) (simp_all add: put_defs)
      qed
    qed
  qed
qed

section \<open>A request\<close>

text \<open>What a request does to its own row, once it has created it.\<close>

definition touches :: "string set \<Rightarrow> string set \<Rightarrow> shop \<Rightarrow> shop \<Rightarrow> bool" where
  "touches G A w w' \<longleftrightarrow> other_tickets w' = other_tickets w \<and>
     (\<forall>k. k \<notin> G \<longrightarrow> map_of (sh_google w') k = map_of (sh_google w) k) \<and>
     (\<forall>k. k \<notin> A \<longrightarrow> map_of (sh_apple w') k = map_of (sh_apple w) k) \<and>
     (tokens_distinct w \<longrightarrow> tokens_distinct w')"

lemma touches_refl [simp]: "touches G A w w"
  by (simp add: touches_def)

lemma touches_trans: "touches G A w1 w2 \<Longrightarrow> touches G A w2 w3 \<Longrightarrow> touches G A w1 w3"
  by (simp add: touches_def)

lemma in_step_touches:
  assumes "in_step w w1" and "touches G A w1 w2" and "G \<inter> dom (map_of (sh_google w)) = {}"
    and "A \<inter> dom (map_of (sh_apple w)) = {}"
  shows "in_step w w2"
  using assms unfolding in_step_def touches_def map_le_def
  by (metis (no_types, lifting) disjoint_iff)

lemma other_tickets_users: "t_users d = t_users (sh_db w) \<Longrightarrow> other_tickets (w\<lparr>sh_db := d\<rparr>) = other_tickets w"
  by (simp add: other_tickets_def granted_tickets_def fun_eq_iff)

lemma touches_users: "t_users d = t_users (sh_db w) \<Longrightarrow> touches G A w (w\<lparr>sh_db := d\<rparr>)"
  by (simp add: touches_def other_tickets_users tokens_distinct_def)

lemma touches_google_row:
  assumes "\<And>u r. map_of (sh_google w) k = Some r \<Longrightarrow> granted_count u (f r) = granted_count u r"
    and "\<And>r. pu_purchaseToken (f r) = pu_purchaseToken r"
  shows "touches {k} {} w (w\<lparr>sh_google := apply_row f k (sh_google w)\<rparr>)"
  unfolding touches_def
  by (simp add: other_tickets_def granted_tickets_def tokens_distinct_def map_of_apply_row
      apply_row_keeps_count assms apply_row_tokens fun_eq_iff)

lemma touches_apple_row:
  assumes "\<And>u r. map_of (sh_apple w) k = Some r \<Longrightarrow> granted_count u (f r) = granted_count u r"
  shows "touches {} {k} w (w\<lparr>sh_apple := apply_row f k (sh_apple w)\<rparr>)"
  unfolding touches_def
  by (simp add: other_tickets_def granted_tickets_def tokens_distinct_def map_of_apply_row
      apply_row_keeps_count assms fun_eq_iff)

lemma granted_count_simps [simp]:
  "granted_count v (r\<lparr>pu_errorDetail := e\<rparr>) = granted_count v r"
  "pu_status r = PU_UNPROCESSED \<Longrightarrow> granted_count v r = 0"
  "granted_count v (grant r) = (if pu_userId r = v then item_count (pu_productId r) else 0)"
  by (simp_all add: granted_count_def grant_def)

text \<open>A granted row and the tickets of its user move together.\<close>

lemma grant_moves_together:
  assumes "map_of t k = Some row" and "pu_status row = PU_UNPROCESSED" and "pu_userId row = u"
    and "item_count (pu_productId row) = n" and "map_of us u = Some r"
  shows "map_option (\<lambda>x. tickets x - (sum_list (map (granted_count v \<circ> snd) (apply_row grant k t)) + c))
       (map_of (apply_row (\<lambda>r. r\<lparr>tickets := tickets r + n\<rparr>) u us) v) =
     map_option (\<lambda>x. tickets x - (sum_list (map (granted_count v \<circ> snd) t) + c)) (map_of us v)"
  using assms by (simp add: apply_row_sum [OF assms(1)] map_of_apply_row)

text \<open>
  The two tables of purchases: granting a row of either moves the tickets of its user along and stays at
  its place.
\<close>

locale purchase_table =
  fixes rows :: "shop \<Rightarrow> (string, 'a purchase_row_scheme) table"
    and put_rows :: "(string, 'a purchase_row_scheme) table \<Rightarrow> shop \<Rightarrow> shop"
    and at_place :: "string \<Rightarrow> shop \<Rightarrow> shop \<Rightarrow> bool"
  assumes rows_db: "rows (w\<lparr>sh_db := d\<rparr>) = rows w"
    and put_db: "(put_rows t (w\<lparr>sh_db := d\<rparr>))\<lparr>sh_db := d'\<rparr> = (put_rows t w)\<lparr>sh_db := d'\<rparr>"
    and granted_put: "granted_tickets v ((put_rows t w)\<lparr>sh_db := d\<rparr>) =
      granted_tickets v w + (sum_list (map (granted_count v \<circ> snd) t) - sum_list (map (granted_count v \<circ> snd) (rows w)))"
    and users_at_place: "t_users d = t_users (sh_db w) \<Longrightarrow> at_place k w (w\<lparr>sh_db := d\<rparr>)"
    and grant_at_place: "w' = (put_rows (apply_row grant k (rows w)) w)\<lparr>sh_db := d\<rparr> \<Longrightarrow>
      other_tickets w' = other_tickets w \<Longrightarrow> at_place k w w'"
begin

definition mark :: "string \<Rightarrow> shop \<Rightarrow> shop res" where
  "mark k w = (case process_purchase grant k (rows w) of Inl e \<Rightarrow> Inl e | Inr t \<Rightarrow> Inr (put_rows t w))"

lemma granting_stays:
  assumes "grant_tickets u lineId k n (mark k) consumed w = (res, w')"
    and "map_of (rows w) k = Some row" and "pu_userId row = u" and "item_count (pu_productId row) = n"
  shows "at_place k w w'"
  using assms(1)
proof (cases rule: grant_tickets_cases)
  case (failed e d0)
  then show ?thesis by (simp add: users_at_place)
next
  case (granted r d' w2)
  then have row: "pu_status row = PU_UNPROCESSED"
    and w2: "w' = (put_rows (apply_row grant k (rows w)) w)\<lparr>sh_db := d'\<rparr>"
    using assms(2) by (auto simp: mark_def process_purchase_Inr rows_db put_db split: sum.splits)
  have "granted_tickets v w' = sum_list (map (granted_count v \<circ> snd) (apply_row grant k (rows w))) +
      (granted_tickets v w - sum_list (map (granted_count v \<circ> snd) (rows w)))" for v
    by (simp add: w2 granted_put)
  then have "other_tickets w' = other_tickets w"
    using grant_moves_together [OF assms(2) row assms(3,4) granted(2)]
    by (simp add: other_tickets_def w2 granted(5) fun_eq_iff)
  with w2 show ?thesis by (rule grant_at_place)
qed

end

interpretation google_table: purchase_table sh_google "\<lambda>t w. w\<lparr>sh_google := t\<rparr>" "\<lambda>k. touches {k} {}"
  rewrites "google_table.mark = mark_google"
proof -
  show "purchase_table sh_google (\<lambda>t w. w\<lparr>sh_google := t\<rparr>) (\<lambda>k. touches {k} {})"
    by unfold_locales
      (auto simp: granted_tickets_def other_tickets_users touches_def map_of_apply_row tokens_distinct_def apply_row_tokens grant_def)
  then show "purchase_table.mark sh_google (\<lambda>t w. w\<lparr>sh_google := t\<rparr>) = mark_google"
    by (simp add: fun_eq_iff purchase_table.mark_def mark_google_def)
qed

interpretation apple_table: purchase_table sh_apple "\<lambda>t w. w\<lparr>sh_apple := t\<rparr>" "\<lambda>k. touches {} {k}"
  rewrites "apple_table.mark = mark_apple"
proof -
  show "purchase_table sh_apple (\<lambda>t w. w\<lparr>sh_apple := t\<rparr>) (\<lambda>k. touches {} {k})"
    by unfold_locales
      (auto simp: granted_tickets_def other_tickets_users touches_def map_of_apply_row tokens_distinct_def)
  then show "purchase_table.mark sh_apple (\<lambda>t w. w\<lparr>sh_apple := t\<rparr>) = mark_apple"
    by (simp add: fun_eq_iff purchase_table.mark_def mark_apple_def)
qed

lemma google_purchase_touches:
  assumes "google_purchase purchase consumed k lineId u p w = (res, w')"
    and "map_of (sh_google w) k = Some row" and "pu_userId row = u" and "pu_productId row = p"
  shows "touches {k} {} w w'"
proof (cases "getPurchaseItem p")
  case (Inl e)
  with assms(1) show ?thesis by (auto simp: google_purchase_def split: if_splits)
next
  case (Inr item)
  then have "item_count (pu_productId row) = pi_ticketCount item" by (simp add: item_count_def assms(4))
  then show ?thesis
    using assms(1) google_table.granting_stays [OF _ assms(2,3)] Inr
    by (auto simp: google_purchase_def split: if_splits)
qed

lemma apple_purchase_outcomes:
  assumes "apple_purchase answer k lineId u p w = (res, w')"
  shows "w' = w \<or>
    (\<exists>info t. process_purchase (\<lambda>r. r\<lparr>pu_status := PU_INVALID, pu_signedResponse := info\<rparr>) k (sh_apple w) = Inr t \<and>
       w' = w\<lparr>sh_apple := t\<rparr>) \<or>
    (\<exists>item. getPurchaseItem p = Inr item \<and>
       grant_tickets u lineId k (pi_ticketCount item) (mark_apple k) (aa_consumed answer) w = (res, w'))"
proof (cases "\<exists>x info decoded. aa_transactionId answer = Inr (Some x) \<and> aa_signedTransactionInfo answer = Inr info \<and>
    truthy info \<and> aa_productId answer = Inr decoded")
  case True
  then obtain x info decoded where a: "aa_transactionId answer = Inr (Some x)" "aa_signedTransactionInfo answer = Inr info"
    "truthy info" "aa_productId answer = Inr decoded" by blast
  show ?thesis
  proof (cases "decoded = Some p")
    case True
    with assms a show ?thesis by (auto simp: apple_purchase_def split: sum.splits)
  next
    case False
    with assms a show ?thesis by (auto simp: apple_purchase_def split: sum.splits)
  qed
next
  case False
  with assms have "w' = w"
    by (cases "aa_transactionId answer"; cases "aa_signedTransactionInfo answer"; cases "aa_productId answer")
      (auto simp: apple_purchase_def split: option.splits if_splits)
  then show ?thesis ..
qed

lemma apple_purchase_touches:
  assumes "apple_purchase answer k lineId u p w = (res, w')"
    and "map_of (sh_apple w) k = Some row" and "pu_userId row = u" and "pu_productId row = p"
  shows "touches {} {k} w w'"
proof -
  consider (same) "w' = w" | (invalid) info t where "process_purchase (\<lambda>r. r\<lparr>pu_status := PU_INVALID, pu_signedResponse := info\<rparr>) k (sh_apple w) = Inr t"
      "w' = w\<lparr>sh_apple := t\<rparr>"
    | (grant) item where "getPurchaseItem p = Inr item"
      "grant_tickets u lineId k (pi_ticketCount item) (mark_apple k) (aa_consumed answer) w = (res, w')"
    using apple_purchase_outcomes [OF assms(1)] by blast
  then show ?thesis
  proof cases
    case (invalid info t)
    then show ?thesis
      by (auto simp: process_purchase_Inr granted_count_def intro!: touches_apple_row)
  next
      case (grant item)
    then have "item_count (pu_productId row) = pi_ticketCount item" by (simp add: item_count_def assms(4))
    then show ?thesis by (rule apple_table.granting_stays [OF grant(2) assms(2,3)])
  qed simp
qed

lemma failed_touches:
  "google_failed (Some k) e w = (res, w') \<Longrightarrow> touches {k} {} w w'"
  "apple_failed k e w = (res, w') \<Longrightarrow> touches {} {k} w w'"
  by (auto simp: google_failed_def apple_failed_def record_error_Inr touches_google_row touches_apple_row
      split: sum.splits if_splits)

lemma google_begun:
  assumes "verify_google answer consumed k lineId ctx p token other w = (res, w')" and "w' \<noteq> w"
    and "u = the (ctx_userId ctx)"
    and "r = \<lparr>pu_userId = u, pu_productId = p, pu_status = PU_UNPROCESSED, pu_errorDetail = None, pu_purchaseToken = token\<rparr>"
  shows "\<exists>purchase t res2 w2.
    insert_purchase (sh_db w) (\<lambda>r r'. pu_purchaseToken r = pu_purchaseToken r') k r (sh_google w) = Inr t \<and>
    google_purchase purchase consumed k lineId u p (other (w\<lparr>sh_google := t\<rparr>)) = (res2, w2) \<and>
    (w' = w2 \<or> (\<exists>e. google_failed (Some k) e w2 = (res, w')))"
proof -
  have no: "google_failed None e w \<noteq> (res, w')" for e using assms(2) by (auto simp: google_failed_def)
  from assms(1) no obtain purchase where a: "answer = Inr purchase" "\<not> ga_status purchase > 399"
    by (auto simp: verify_google_def split: sum.splits if_splits)
  note run = assms(1) [unfolded verify_google_def a(1) sum.case Let_def assms(3)[symmetric], folded assms(4)]
  from run no a(2) obtain t
    where t: "insert_purchase (sh_db w) (\<lambda>r r'. pu_purchaseToken r = pu_purchaseToken r') k r (sh_google w) = Inr t"
    by (auto split: sum.splits)
  obtain res2 w2 where b: "google_purchase purchase consumed k lineId u p (other (w\<lparr>sh_google := t\<rparr>)) = (res2, w2)"
    by force
  with run a(2) t have "w' = w2 \<or> (\<exists>e. google_failed (Some k) e w2 = (res, w'))"
    by (auto split: sum.splits)
  with t b show ?thesis by blast
qed

lemma apple_begun:
  assumes "verify_apple answer k lineId ctx p receipt other w = (res, w')" and "w' \<noteq> w"
    and "u = the (ctx_userId ctx)"
    and "r = \<lparr>pu_userId = u, pu_productId = p, pu_status = PU_UNPROCESSED, pu_errorDetail = None, pu_receipt = receipt,
      pu_signedResponse = None\<rparr>"
  shows "\<exists>t res2 w2. insert_purchase (sh_db w) (\<lambda>_ _. False) k r (sh_apple w) = Inr t \<and>
    apple_purchase answer k lineId u p (other (w\<lparr>sh_apple := t\<rparr>)) = (res2, w2) \<and>
    (w' = w2 \<or> (\<exists>e. apple_failed k e w2 = (res, w')))"
proof -
  note run = assms(1) [unfolded verify_apple_def Let_def assms(3)[symmetric], folded assms(4)]
  from run assms(2) obtain t where t: "insert_purchase (sh_db w) (\<lambda>_ _. False) k r (sh_apple w) = Inr t"
    by (auto split: sum.splits)
  obtain res2 w2 where b: "apple_purchase answer k lineId u p (other (w\<lparr>sh_apple := t\<rparr>)) = (res2, w2)" by force
  with run t have "w' = w2 \<or> (\<exists>e. apple_failed k e w2 = (res, w'))" by (auto split: sum.splits)
  with t b show ?thesis by blast
qed

lemma map_of_append_new: "map_of t k = None \<Longrightarrow> map_of t \<subseteq>\<^sub>m map_of (t @ [(k, r)])"
  by (auto simp: map_le_def map_add_def dom_def split: option.splits)

lemma inserted_in_step:
  assumes "map_of (sh_google w) k = None" and "\<forall>(_, r') \<in> set (sh_google w). pu_purchaseToken r \<noteq> pu_purchaseToken r'"
    and "pu_status r = PU_UNPROCESSED"
  shows "in_step w (w\<lparr>sh_google := sh_google w @ [(k, r)]\<rparr>)"
proof -
  have "other_tickets (w\<lparr>sh_google := sh_google w @ [(k, r)]\<rparr>) = other_tickets w"
    using assms(3) by (simp add: other_tickets_def granted_tickets_def fun_eq_iff)
  moreover have "pu_purchaseToken r \<notin> (pu_purchaseToken \<circ> snd) ` set (sh_google w)" using assms(2) by force
  ultimately show ?thesis
    using assms(1) map_of_append_new [OF assms(1)]
    by (simp add: in_step_def tokens_distinct_def map_of_eq_None_iff)
qed

lemma inserted_apple_in_step:
  assumes "map_of (sh_apple w) k = None" and "pu_status r = PU_UNPROCESSED"
  shows "in_step w (w\<lparr>sh_apple := sh_apple w @ [(k, r)]\<rparr>)"
proof -
  have "other_tickets (w\<lparr>sh_apple := sh_apple w @ [(k, r)]\<rparr>) = other_tickets w"
    using assms(2) by (simp add: other_tickets_def granted_tickets_def fun_eq_iff)
  then show ?thesis
    using map_of_append_new [OF assms(1)] by (simp add: in_step_def tokens_distinct_def)
qed

text \<open>A request keeps in step, whatever other requests that keep in step do in between.\<close>

lemma verify_google_in_step:
  assumes "verify_google answer consumed k lineId ctx p token other w = (res, w')" and "\<And>x. in_step x (other x)"
  shows "in_step w w'"
proof (cases "w' = w")
  case False
  let ?u = "the (ctx_userId ctx)"
  let ?r = "\<lparr>pu_userId = ?u, pu_productId = p, pu_status = PU_UNPROCESSED, pu_errorDetail = None, pu_purchaseToken = token\<rparr>"
  let ?w1 = "w\<lparr>sh_google := sh_google w @ [(k, ?r)]\<rparr>"
  from False assms(1) obtain purchase res2 w2 where ins: "map_of (sh_google w) k = None"
      "\<forall>(_, r') \<in> set (sh_google w). pu_purchaseToken ?r \<noteq> pu_purchaseToken r'"
    and buy: "google_purchase purchase consumed k lineId ?u p (other ?w1) = (res2, w2)"
    and fin: "w' = w2 \<or> (\<exists>e. google_failed (Some k) e w2 = (res, w'))"
    using google_begun [OF assms(1) False refl refl] unfolding insert_purchase_Inr by blast
  have s1: "in_step w ?w1" by (rule inserted_in_step [OF ins]) simp
  have s2: "in_step ?w1 (other ?w1)" by (rule assms(2))
  then have "map_of (sh_google (other ?w1)) k = Some ?r"
    using ins(1) by (auto simp: in_step_def map_le_def map_add_def dom_def split: option.splits)
  from google_purchase_touches [OF buy this] have "touches {k} {} (other ?w1) w2" by simp
  moreover from fin have "touches {k} {} w2 w'" using failed_touches(1) by auto
  ultimately have "touches {k} {} (other ?w1) w'" by (rule touches_trans)
  then show ?thesis
    by (rule in_step_touches [OF in_step_trans [OF s1 s2]]) (use ins(1) in auto)
qed simp

lemma verify_apple_in_step:
  assumes "verify_apple answer k lineId ctx p receipt other w = (res, w')" and "\<And>x. in_step x (other x)"
  shows "in_step w w'"
proof (cases "w' = w")
  case False
  let ?u = "the (ctx_userId ctx)"
  let ?r = "\<lparr>pu_userId = ?u, pu_productId = p, pu_status = PU_UNPROCESSED, pu_errorDetail = None, pu_receipt = receipt,
    pu_signedResponse = None\<rparr>"
  let ?w1 = "w\<lparr>sh_apple := sh_apple w @ [(k, ?r)]\<rparr>"
  from False assms(1) obtain res2 w2 where ins: "map_of (sh_apple w) k = None"
    and buy: "apple_purchase answer k lineId ?u p (other ?w1) = (res2, w2)"
    and fin: "w' = w2 \<or> (\<exists>e. apple_failed k e w2 = (res, w'))"
    using apple_begun [OF assms(1) False refl refl] unfolding insert_purchase_Inr by blast
  have s1: "in_step w ?w1" by (rule inserted_apple_in_step [OF ins]) simp
  have s2: "in_step ?w1 (other ?w1)" by (rule assms(2))
  then have "map_of (sh_apple (other ?w1)) k = Some ?r"
    using ins(1) by (auto simp: in_step_def map_le_def map_add_def dom_def split: option.splits)
  from apple_purchase_touches [OF buy this] have "touches {} {k} (other ?w1) w2" by simp
  moreover from fin have "touches {} {k} w2 w'" using failed_touches(2) by auto
  ultimately have "touches {} {k} (other ?w1) w'" by (rule touches_trans)
  then show ?thesis
    by (rule in_step_touches [OF in_step_trans [OF s1 s2]]) (use ins(1) in auto)
qed simp

section \<open>Runs\<close>

text \<open>
  Any sequence of requests, each overlapped by others, and of changes elsewhere that leave the tickets alone.
\<close>

inductive shop_run :: "shop \<Rightarrow> shop \<Rightarrow> bool" where
  shop_done: "shop_run w w"
| shop_google: "shop_run w w1 \<Longrightarrow> (\<And>x. shop_run x (other x)) \<Longrightarrow>
    verify_google answer consumed k lineId ctx p token other w1 = (res, w2) \<Longrightarrow> shop_run w w2"
| shop_apple: "shop_run w w1 \<Longrightarrow> (\<And>x. shop_run x (other x)) \<Longrightarrow>
    verify_apple answer' k lineId ctx p receipt other w1 = (res, w2) \<Longrightarrow> shop_run w w2"
| shop_elsewhere: "shop_run w w1 \<Longrightarrow>
    (\<And>u. map_option tickets (map_of (t_users d) u) = map_option tickets (map_of (t_users (sh_db w1)) u)) \<Longrightarrow>
    shop_run w (w1\<lparr>sh_db := d\<rparr>)"

lemma elsewhere_in_step:
  assumes "\<And>u. map_option tickets (map_of (t_users d) u) = map_option tickets (map_of (t_users (sh_db w)) u)"
  shows "in_step w (w\<lparr>sh_db := d\<rparr>)"
proof -
  have "map_option (\<lambda>r. tickets r - n) (map_of (t_users d) u) =
      map_option (\<lambda>r. tickets r - n) (map_of (t_users (sh_db w)) u)" for n u
    using assms [of u] by (cases "map_of (t_users d) u"; cases "map_of (t_users (sh_db w)) u") auto
  then show ?thesis
    by (simp add: in_step_def other_tickets_def granted_tickets_def tokens_distinct_def fun_eq_iff)
qed

lemma shop_run_in_step: "shop_run w w' \<Longrightarrow> in_step w w'"
proof (induction rule: shop_run.induct)
  case (shop_google w w1 other answer consumed k lineId ctx p token res w2)
  then show ?case using verify_google_in_step in_step_trans by meson
next
  case (shop_apple w w1 other answer' k lineId ctx p receipt res w2)
  then show ?case using verify_apple_in_step in_step_trans by meson
next
  case (shop_elsewhere w w1 d)
  then show ?case using elsewhere_in_step in_step_trans by meson
qed simp

text \<open>
  (C15) The tickets of a user change by exactly the tickets of the purchases that were granted, over any
  run of overlapping requests; a granted purchase stays granted, and no token of Google is ever granted twice.
\<close>

theorem tickets_match_purchases:
  assumes "shop_run w w'" and "tokens_distinct w" and "map_of (t_users (sh_db w)) u = Some r"
  shows "\<exists>r'. map_of (t_users (sh_db w')) u = Some r' \<and>
    tickets r' - tickets r = granted_tickets u w' - granted_tickets u w \<and>
    map_of (sh_google w) \<subseteq>\<^sub>m map_of (sh_google w') \<and> map_of (sh_apple w) \<subseteq>\<^sub>m map_of (sh_apple w') \<and>
    (\<forall>k k' p p'. map_of (sh_google w') k = Some p \<longrightarrow> map_of (sh_google w') k' = Some p' \<longrightarrow>
       pu_purchaseToken p = pu_purchaseToken p' \<longrightarrow> k = k')"
proof -
  have step: "in_step w w'" using assms(1) by (rule shop_run_in_step)
  then have "other_tickets w' u = other_tickets w u" by (simp add: in_step_def)
  then obtain r' where r': "map_of (t_users (sh_db w')) u = Some r'"
    "tickets r' - tickets r = granted_tickets u w' - granted_tickets u w"
    using assms(3) by (auto simp: other_tickets_def)
  have "tokens_distinct w'" using step assms(2) by (simp add: in_step_def)
  then have "inj_on (pu_purchaseToken \<circ> snd) (set (sh_google w'))"
    by (simp add: tokens_distinct_def distinct_map)
  then have "k = k'" if "map_of (sh_google w') k = Some p" "map_of (sh_google w') k' = Some p'"
    "pu_purchaseToken p = pu_purchaseToken p'" for k k' p p'
    using that(1,2) [THEN map_of_SomeD] that(3) unfolding inj_on_def by fastforce
  with r' step show ?thesis unfolding in_step_def by blast
qed

section \<open>Purchases that are lost and receipts that are not\<close>

lemma item_positive: "getPurchaseItem p = Inr item \<Longrightarrow> 0 < pi_ticketCount item"
  by (auto simp: getPurchaseItem_def PurchaseItems_def makeTicketItem_def Let_def split: option.splits if_splits)

lemma add_tickets_succeeds:
  assumes "map_of (t_users d) u = Some r" and "user_ok r" and "0 < n"
  shows "update_user u (\<lambda>_. True) (\<lambda>r. r\<lparr>tickets := tickets r + n\<rparr>) d =
    Inr (put_users (apply_row (\<lambda>r. r\<lparr>tickets := tickets r + n\<rparr>) u (t_users d)) d)"
  using assms by (auto simp: user_tab.update_Inr check_user_def user_ok_def)

lemma grant_tickets_runs:
  assumes "map_of (t_users (sh_db w)) u = Some r" and "user_ok r" and "0 < n"
    and "d1 = put_users (apply_row (\<lambda>r. r\<lparr>tickets := tickets r + n\<rparr>) u (t_users (sh_db w))) (sh_db w)"
    and "mark (w\<lparr>sh_db := d1\<rparr>) = Inr w2" and "map_of (t_ticketTransactions (sh_db w)) lineId = None"
    and "lines = t_ticketTransactions (sh_db w) @ [(lineId, ticket_transaction u n (tickets r + n) ''PURCHASE''
       [(''os'', Some ''ANDROID''), (''purchaseId'', Some k)])]"
  shows "grant_tickets u lineId k n mark consumed w =
    (case consumed of Inl e \<Rightarrow> (Inl e, w\<lparr>sh_db := put_ticketTransactions lines (sh_db w)\<rparr>)
     | Inr _ \<Rightarrow> (Inr (), w2\<lparr>sh_db := put_ticketTransactions lines d1\<rparr>))"
proof -
  have held: "tickets (the (map_of (t_users d1) u)) = tickets r + n"
    using assms(1) by (simp add: assms(4) map_of_apply_row put_defs)
  have line: "writePurchaseTicketTransaction u lineId (tickets r + n) n ''ANDROID'' k (sh_db w) =
      Inr (put_ticketTransactions lines (sh_db w))"
    using assms(6) by (simp add: writePurchaseTicketTransaction_def ticketTransaction_tab.create_Inr assms(7) no_check_def)
  have up: "update_user u (\<lambda>_. True) (\<lambda>r. r\<lparr>tickets := tickets r + n\<rparr>) (sh_db w) = Inr d1"
    unfolding assms(4) by (rule add_tickets_succeeds [OF assms(1-3)])
  show ?thesis
    unfolding grant_tickets_def up sum.case assms(5) held line
    by (simp add: put_defs split: sum.split)
qed

lemma used_token_refused:
  assumes "map_of (sh_google w') k = Some r" and "pu_purchaseToken r = token" and "shop_run w' w''" and "ga_status a \<le> 399"
  shows "verify_google (Inr a) consumed k' lineId ctx p token other w'' =
    (Inl (ConflictUseCaseError ''in app purchases conflict''), w'')"
proof -
  have "map_of (sh_google w'') k = Some r"
    using shop_run_in_step [OF assms(3)] assms(1) by (metis in_step_def map_le_def domI)
  then have "(k, r) \<in> set (sh_google w'')" by (rule map_of_SomeD)
  then show ?thesis
    using assms(2,4) insert_taken [of k _ "sh_google w''"] by (simp add: verify_google_def google_failed_def Let_def)
qed

text \<open>
  (C24) When the consumption of a Google purchase fails, the tickets are not given but the history says they were,
  and the purchase is lost: from then on every request with its token is refused as a conflict.
\<close>

theorem google_purchase_lost:
  assumes "map_of (t_users (sh_db w)) u = Some r" and "user_ok r" and "ctx_userId ctx = Some u"
    and "getPurchaseItem p = Inr item" and "map_of (sh_google w) k = None"
    and "\<forall>(_, r') \<in> set (sh_google w). pu_purchaseToken r' \<noteq> token"
    and "map_of (t_ticketTransactions (sh_db w)) lineId = None" and "a = \<lparr>ga_status = 200, ga_purchaseState = Some 0, ga_acknowledgementState = Some 0\<rparr>"
    and "consumption consumed = Inl e" and "e \<noteq> PrismaKnownRequestError ''P2002''"
  shows "\<exists>w'. verify_google (Inr a) consumed k lineId ctx p token (\<lambda>w. w) w = (Inl e, w') \<and>
    t_users (sh_db w') = t_users (sh_db w) \<and>
    (\<exists>line. map_of (t_ticketTransactions (sh_db w')) lineId = Some line \<and> tt_userId line = u \<and>
       tt_changeAmount line = pi_ticketCount item \<and> tt_balance line = tickets r + pi_ticketCount item) \<and>
    (\<forall>w'' a' c' k' l' ctx' p' other. shop_run w' w'' \<longrightarrow> ga_status a' \<le> 399 \<longrightarrow>
       verify_google (Inr a') c' k' l' ctx' p' token other w'' =
         (Inl (ConflictUseCaseError ''in app purchases conflict''), w''))"
proof -
  let ?n = "pi_ticketCount item"
  let ?r = "\<lparr>pu_userId = u, pu_productId = p, pu_status = PU_UNPROCESSED, pu_errorDetail = None, pu_purchaseToken = token\<rparr>"
  let ?w1 = "w\<lparr>sh_google := sh_google w @ [(k, ?r)]\<rparr>"
  let ?d1 = "put_users (apply_row (\<lambda>r. r\<lparr>tickets := tickets r + ?n\<rparr>) u (t_users (sh_db w))) (sh_db w)"
  let ?lines = "t_ticketTransactions (sh_db w) @ [(lineId, ticket_transaction u ?n (tickets r + ?n) ''PURCHASE''
       [(''os'', Some ''ANDROID''), (''purchaseId'', Some k)])]"
  have ins: "insert_purchase (sh_db w) (\<lambda>r r'. pu_purchaseToken r = pu_purchaseToken r') k ?r (sh_google w) =
      Inr (sh_google w @ [(k, ?r)])"
    using assms(1,5,6) by (auto simp: insert_purchase_Inr)
  have at: "map_of (sh_google ?w1) k = Some ?r" using assms(5) by (simp add: map_add_Some_iff)
  have "mark_google k (?w1\<lparr>sh_db := ?d1\<rparr>) = Inr (?w1\<lparr>sh_db := ?d1, sh_google := apply_row grant k (sh_google ?w1)\<rparr>)"
    using at by (simp add: mark_google_def process_purchase_def)
  from grant_tickets_runs [OF _ assms(2) item_positive [OF assms(4)] refl, of ?w1 u "mark_google k", OF _ _ _ refl, of _ lineId k]
  have "grant_tickets u lineId k ?n (mark_google k) (consumption consumed) ?w1 =
      (Inl e, ?w1\<lparr>sh_db := put_ticketTransactions ?lines (sh_db w)\<rparr>)"
    using assms(1,7,9) \<open>mark_google k _ = _\<close> by simp
  then have buy: "google_purchase a consumed k lineId u p ?w1 = (Inl e, ?w1\<lparr>sh_db := put_ticketTransactions ?lines (sh_db w)\<rparr>)"
    by (simp add: google_purchase_def assms(4,8))
  define w' where "w' = ?w1\<lparr>sh_db := put_ticketTransactions ?lines (sh_db w),
    sh_google := apply_row (\<lambda>r. r\<lparr>pu_errorDetail := Some e\<rparr>) k (sh_google ?w1)\<rparr>"
  have "google_failed (Some k) e (?w1\<lparr>sh_db := put_ticketTransactions ?lines (sh_db w)\<rparr>) = (Inl e, w')"
    using assms(10) at by (simp add: google_failed_def record_error_def w'_def)
  then have run: "verify_google (Inr a) consumed k lineId ctx p token (\<lambda>w. w) w = (Inl e, w')"
    using ins buy by (simp add: verify_google_def assms(3,8))
  have mine: "map_of (sh_google w') k = Some (?r\<lparr>pu_errorDetail := Some e\<rparr>)"
    using at by (simp add: w'_def map_of_apply_row)
  have refused: "verify_google (Inr a') c' k' l' ctx' p' token other w'' =
      (Inl (ConflictUseCaseError ''in app purchases conflict''), w'')"
    if "shop_run w' w''" "ga_status a' \<le> 399" for w'' a' c' k' l' ctx' p' other
    using used_token_refused [OF mine _ that] by simp
  have "map_of (t_ticketTransactions (sh_db w')) lineId = Some (ticket_transaction u ?n (tickets r + ?n) ''PURCHASE''
       [(''os'', Some ''ANDROID''), (''purchaseId'', Some k)])"
    using assms(7) by (simp add: w'_def put_defs map_add_Some_iff)
  with run refused show ?thesis
    by (intro exI [of _ w']) (auto simp: w'_def put_defs ticket_transaction_def)
qed

text \<open>A request that Apple confirms grants the tickets, whatever was granted for the receipt before.\<close>

lemma apple_grants:
  assumes "map_of (t_users (sh_db w)) u = Some r" and "user_ok r" and "ctx_userId ctx = Some u"
    and "getPurchaseItem p = Inr item" and "map_of (sh_apple w) k = None"
    and "map_of (t_ticketTransactions (sh_db w)) lineId = None"
    and "a = \<lparr>aa_transactionId = Inr (Some x), aa_signedTransactionInfo = Inr (Some info), aa_productId = Inr (Some p),
      aa_consumed = Inr ()\<rparr>" and "info \<noteq> []"
  shows "\<exists>w'. verify_apple a k lineId ctx p receipt (\<lambda>w. w) w = (Inr (), w') \<and>
    map_of (t_users (sh_db w')) u = Some (r\<lparr>tickets := tickets r + pi_ticketCount item\<rparr>) \<and>
    fst ` set (sh_apple w') = insert k (fst ` set (sh_apple w)) \<and>
    fst ` set (t_ticketTransactions (sh_db w')) = insert lineId (fst ` set (t_ticketTransactions (sh_db w)))"
proof -
  let ?n = "pi_ticketCount item"
  let ?r = "\<lparr>pu_userId = u, pu_productId = p, pu_status = PU_UNPROCESSED, pu_errorDetail = None, pu_receipt = receipt,
    pu_signedResponse = None\<rparr>"
  let ?w1 = "w\<lparr>sh_apple := sh_apple w @ [(k, ?r)]\<rparr>"
  let ?d1 = "put_users (apply_row (\<lambda>r. r\<lparr>tickets := tickets r + ?n\<rparr>) u (t_users (sh_db w))) (sh_db w)"
  let ?lines = "t_ticketTransactions (sh_db w) @ [(lineId, ticket_transaction u ?n (tickets r + ?n) ''PURCHASE''
       [(''os'', Some ''ANDROID''), (''purchaseId'', Some k)])]"
  let ?w2 = "?w1\<lparr>sh_db := put_ticketTransactions ?lines ?d1, sh_apple := apply_row grant k (sh_apple ?w1)\<rparr>"
  have ins: "insert_purchase (sh_db w) (\<lambda>_ _. False) k ?r (sh_apple w) = Inr (sh_apple w @ [(k, ?r)])"
    using assms(1,5) by (auto simp: insert_purchase_Inr)
  have "map_of (sh_apple ?w1) k = Some ?r" using assms(5) by (simp add: map_add_Some_iff)
  then have "mark_apple k (?w1\<lparr>sh_db := ?d1\<rparr>) = Inr (?w1\<lparr>sh_db := ?d1, sh_apple := apply_row grant k (sh_apple ?w1)\<rparr>)"
    by (simp add: mark_apple_def process_purchase_def)
  from grant_tickets_runs [OF _ assms(2) item_positive [OF assms(4)] refl, of ?w1 u "mark_apple k", OF _ _ _ refl, of _ lineId k]
  have "grant_tickets u lineId k ?n (mark_apple k) (Inr ()) ?w1 = (Inr (), ?w2)"
    using assms(1,6) \<open>mark_apple k _ = _\<close> by simp
  then have "verify_apple a k lineId ctx p receipt (\<lambda>w. w) w = (Inr (), ?w2)"
    using ins by (simp add: verify_apple_def apple_purchase_def assms(3,4,7,8))
  moreover have "fst ` set (apply_row grant k t) = fst ` set t" for t :: "(string, apple_row) table"
    by (metis keys_apply_row set_map)
  ultimately show ?thesis
    using assms(1) by (intro exI [of _ ?w2]) (simp add: put_defs map_of_apply_row)
qed

text \<open>
  (C23) Nothing notices that an Apple receipt was redeemed before: of two requests with the same receipt that
  Apple confirms both give the tickets of the product.
\<close>

theorem receipt_redeemed_again:
  assumes "map_of (t_users (sh_db w)) u = Some r" and "user_ok r" and "ctx_userId ctx = Some u"
    and "getPurchaseItem p = Inr item" and "{k1, k2} \<inter> fst ` set (sh_apple w) = {}" and "k1 \<noteq> k2"
    and "{l1, l2} \<inter> fst ` set (t_ticketTransactions (sh_db w)) = {}" and "l1 \<noteq> l2"
    and "a = \<lparr>aa_transactionId = Inr (Some x), aa_signedTransactionInfo = Inr (Some info), aa_productId = Inr (Some p),
      aa_consumed = Inr ()\<rparr>" and "info \<noteq> []"
  shows "\<exists>w1 w2. verify_apple a k1 l1 ctx p receipt (\<lambda>w. w) w = (Inr (), w1) \<and>
    verify_apple a k2 l2 ctx p receipt (\<lambda>w. w) w1 = (Inr (), w2) \<and>
    map_of (t_users (sh_db w2)) u = Some (r\<lparr>tickets := tickets r + 2 * pi_ticketCount item\<rparr>)"
proof -
  have k: "map_of (sh_apple w) k1 = None" "map_of (t_ticketTransactions (sh_db w)) l1 = None"
    using assms(5,7) by (auto simp: map_of_eq_None_iff)
  obtain w1 where w1: "verify_apple a k1 l1 ctx p receipt (\<lambda>w. w) w = (Inr (), w1)"
    "map_of (t_users (sh_db w1)) u = Some (r\<lparr>tickets := tickets r + pi_ticketCount item\<rparr>)"
    "fst ` set (sh_apple w1) = insert k1 (fst ` set (sh_apple w))"
    "fst ` set (t_ticketTransactions (sh_db w1)) = insert l1 (fst ` set (t_ticketTransactions (sh_db w)))"
    using apple_grants [OF assms(1-4) k assms(9,10), of receipt] by blast
  have k2: "map_of (sh_apple w1) k2 = None" "map_of (t_ticketTransactions (sh_db w1)) l2 = None"
    using assms(5-8) w1(3,4) by (auto simp: map_of_eq_None_iff)
  have "user_ok (r\<lparr>tickets := tickets r + pi_ticketCount item\<rparr>)"
    using assms(2) item_positive [OF assms(4)] by (simp add: user_ok_def)
  from apple_grants [OF w1(2) this assms(3,4) k2 assms(9,10), of receipt] w1(1) show ?thesis
    by (fastforce simp: algebra_simps)
qed

section \<open>Witnesses\<close>

definition sample_shop :: shop where
  "sample_shop = \<lparr>sh_db = sample_db, sh_google = [], sh_apple = []\<rparr>"

abbreviation x20 :: string where
  "x20 \<equiv> ''io.akiverse.arcade.ticket.x20''"

abbreviation buyer :: ctx where
  "buyer \<equiv> \<lparr>ctx_userId = Some ''u1'', ctx_walletAddress = None, ctx_country = None\<rparr>"

abbreviation paid_answer :: google_answer where
  "paid_answer \<equiv> \<lparr>ga_status = 200, ga_purchaseState = Some 0, ga_acknowledgementState = Some 0\<rparr>"

lemma x20_item: "getPurchaseItem x20 = Inr (makeTicketItem ''x20'' 20 0 True True)"
  by code_simp

lemma sample_shop_simps:
  "map_of (t_users (sh_db sample_shop)) ''u1'' = Some (sample_user (Some ''0xab'') 20000)"
  "sh_google sample_shop = []" "sh_apple sample_shop = []" "t_ticketTransactions (sh_db sample_shop) = []"
  by (simp_all add: sample_shop_def sample_db_def)

lemma sample_user_ok: "user_ok (sample_user (Some ''0xab'') 20000)"
  by (simp add: user_ok_def sample_user_def)

theorem tickets_match_purchases_witness:
  "\<exists>w' r'. verify_google (Inr paid_answer) (Inr 204) ''k1'' ''l1'' buyer x20 ''tok'' (\<lambda>w. w) sample_shop = (Inr (), w') \<and>
    map_of (t_users (sh_db w')) ''u1'' = Some r' \<and> tickets r' - 10 = 20"
proof -
  obtain res w' where w': "verify_google (Inr paid_answer) (Inr 204) ''k1'' ''l1'' buyer x20 ''tok'' (\<lambda>w. w) sample_shop = (res, w')"
    by force
  have res: "res = Inr ()" "granted_tickets ''u1'' w' - granted_tickets ''u1'' sample_shop = 20"
    using w' by (auto simp: Let_def verify_google_def insert_purchase_def google_purchase_def x20_item grant_tickets_def
        sample_shop_def sample_db_def sample_user_def update_where_def check_user_def put_defs mark_google_def
        process_purchase_def grant_def writePurchaseTicketTransaction_def create_row_def no_check_def consumption_def
        makeTicketItem_def granted_tickets_def granted_count_def item_count_def split: sum.splits)
  have "shop_run sample_shop w'" by (rule shop_google [OF shop_done _ w']) (rule shop_done)
  from tickets_match_purchases [OF this _ sample_shop_simps(1)] res w' show ?thesis
    by (auto simp: tokens_distinct_def sample_shop_simps sample_user_def)
qed

theorem google_purchase_lost_witness:
  "\<exists>w'. verify_google (Inr paid_answer) (Inr 503) ''k1'' ''l1'' buyer x20 ''tok'' (\<lambda>w. w) sample_shop =
      (Inl (InternalServerUseCaseError ''consume status code failed''), w') \<and>
    map_of (t_users (sh_db w')) ''u1'' = Some (sample_user (Some ''0xab'') 20000) \<and>
    verify_google (Inr paid_answer) (Inr 204) ''k2'' ''l2'' buyer x20 ''tok'' (\<lambda>w. w) w' =
      (Inl (ConflictUseCaseError ''in app purchases conflict''), w')"
proof -
  from google_purchase_lost [OF sample_shop_simps(1) sample_user_ok _ x20_item, of buyer "''k1''" "''tok''" "''l1''" paid_answer "Inr 503"
      "InternalServerUseCaseError ''consume status code failed''"]
  obtain w' where "verify_google (Inr paid_answer) (Inr 503) ''k1'' ''l1'' buyer x20 ''tok'' (\<lambda>w. w) sample_shop =
      (Inl (InternalServerUseCaseError ''consume status code failed''), w')"
    "t_users (sh_db w') = t_users (sh_db sample_shop)"
    "verify_google (Inr paid_answer) (Inr 204) ''k2'' ''l2'' buyer x20 ''tok'' (\<lambda>w. w) w' =
      (Inl (ConflictUseCaseError ''in app purchases conflict''), w')"
    using shop_done by (fastforce simp: sample_shop_simps consumption_def)
  then show ?thesis using sample_shop_simps(1) by metis
qed

theorem receipt_redeemed_again_witness:
  "\<exists>a w1 w2. verify_apple a ''k1'' ''l1'' buyer x20 ''receipt'' (\<lambda>w. w) sample_shop = (Inr (), w1) \<and>
    verify_apple a ''k2'' ''l2'' buyer x20 ''receipt'' (\<lambda>w. w) w1 = (Inr (), w2) \<and>
    map_of (t_users (sh_db w2)) ''u1'' = Some ((sample_user (Some ''0xab'') 20000)\<lparr>tickets := 50\<rparr>)"
proof -
  have "tickets (sample_user (Some ''0xab'') 20000) + 2 * pi_ticketCount (makeTicketItem ''x20'' 20 0 True True) = 50"
    by (simp add: sample_user_def makeTicketItem_def)
  with receipt_redeemed_again [OF sample_shop_simps(1) sample_user_ok _ x20_item, of buyer "''k1''" "''k2''" "''l1''" "''l2''" _
      "''tx''" "''info''" "''receipt''", OF _ _ _ _ _ refl]
  show ?thesis by (simp add: sample_shop_simps) blast
qed

end
