(* ===== verification/User_Profiles.thy ===== *)
theory User_Profiles
  imports Tables
begin

text \<open>
  \<open>src/use_cases/user_usecase.ts\<close> without the deprecated creation through Magic,
  \<open>src/use_cases/eth_nfts/profile_picture_nft_usecase.ts\<close> and \<open>profile_picture_checker_usecase.ts\<close>: names,
  icons, titles and frames of the users.  These columns of the users are read and written by nothing else, so they
  stand in a table of their own beside the database.  The list of bad words, the answers of Firebase and of the
  service that knows the owners of the pictures are arguments; \<open>other\<close> is what other requests do between the
  checks and the update.
\<close>

section \<open>Names\<close>

definition name_symbol :: "char \<Rightarrow> bool" where
  "name_symbol c \<longleftrightarrow> c \<in> {CHR ''.'', CHR ''-'', CHR ''_''}"

definition name_char :: "char \<Rightarrow> bool" where
  "name_char c \<longleftrightarrow> name_symbol c \<or>
     c \<in> set ''abcdefghijklmnopqrstuvwxyzABCDEFGHIJKLMNOPQRSTUVWXYZ0123456789''"

definition validNameRegex :: "string \<Rightarrow> bool" where
  "validNameRegex name \<longleftrightarrow> 1 \<le> length name \<and> length name \<le> 20 \<and> list_all name_char name"

definition split_name :: "string \<Rightarrow> string" where
  "split_name = map (\<lambda>c. if name_symbol c then CHR '' '' else c)"

definition isValidName :: "(string \<Rightarrow> bool) \<Rightarrow> string \<Rightarrow> bool \<times> string" where
  "isValidName profanity name =
     (if \<not> validNameRegex name then (False, ''Name is limited to 20 characters'')
      else if profanity (split_name name) then (False, ''include bad word.'')
      else (True, []))"

section \<open>Creating a user\<close>

datatype IconType = ICON_IN_WORLD | ICON_NFT

record account =
  ac_email :: string
  ac_name :: string
  ac_iconType :: IconType
  ac_iconSubCategory :: string
  ac_titleSubCategory :: string
  ac_frameSubCategory :: string

record user_base =
  ub_db :: db
  ub_accounts :: "(user_id, account) table"

definition new_account :: "string \<Rightarrow> string \<Rightarrow> account" where
  "new_account email name = \<lparr>ac_email = email, ac_name = name, ac_iconType = ICON_IN_WORLD,
     ac_iconSubCategory = ''DEFAULT'', ac_titleSubCategory = ''DEFAULT'', ac_frameSubCategory = ''DEFAULT''\<rparr>"

definition create_account :: "user_id \<Rightarrow> string \<Rightarrow> string \<Rightarrow> user_base \<Rightarrow> user_base res" where
  "create_account newId email name w =
     (if list_ex (\<lambda>(_, a). ac_email a = email) (ub_accounts w) \<or> map_of (ub_accounts w) newId \<noteq> None
      then Inl (PrismaKnownRequestError ''P2002'')
      else
        (case create_row t_users put_users check_user newId \<lparr>u_walletAddress = None, akirBalance = 0, akvBalance = 0, terasBalance = 0,
                tickets = 0, u_lockedAt = None\<rparr> (ub_db w) of
           Inl e \<Rightarrow> Inl e
         | Inr d \<Rightarrow> Inr (w\<lparr>ub_db := d, ub_accounts := ub_accounts w @ [(newId, new_account email name)]\<rparr>)))"

definition create_error :: "use_case_error \<Rightarrow> use_case_error" where
  "create_error e = (if e = PrismaKnownRequestError ''P2002''
     then IllegalStateUseCaseError ''same email address user is exist''
     else UnhandledUseCaseError ''create user failed'')"

text \<open>\<open>decoded\<close> is the email of the verified token, \<open>claims\<close> the outcome of \<open>setUserClaims\<close>.\<close>

definition createFromFirebase ::
  "(string \<Rightarrow> bool) \<Rightarrow> string option res \<Rightarrow> unit res \<Rightarrow> user_id \<Rightarrow> string \<Rightarrow> user_base \<Rightarrow> user_id res \<times> user_base" where
  "createFromFirebase profanity decoded claims newId name w =
     (case decoded of
        Inl e \<Rightarrow> (Inl (InvalidArgumentUseCaseError ''idToken is invalid''), w)
      | Inr email \<Rightarrow>
      (case isValidName profanity name of (valid, message) \<Rightarrow>
      if \<not> valid then (Inl (InvalidArgumentUseCaseError message), w)
      else if \<not> truthy email then (Inl (InvalidArgumentUseCaseError ''email required''), w)
      else
        (case create_account newId (the email) name w of
           Inl e \<Rightarrow> (Inl (create_error e), w)
         | Inr w' \<Rightarrow>
             (case claims of Inl e \<Rightarrow> (Inl (create_error e), w') | Inr _ \<Rightarrow> (Inr newId, w')))))"

section \<open>The profile\<close>

text \<open>The tokens of a wallet, as the service lists them with the total.\<close>

definition listProfileIconImages ::
  "ctx \<Rightarrow> (wallet \<Rightarrow> (int \<times> (string \<times> string) list) res) \<Rightarrow> (string \<times> string) list res" where
  "listProfileIconImages ctx owned =
     (if \<not> truthy (ctx_walletAddress ctx) then Inr []
      else
        (case owned (the (ctx_walletAddress ctx)) of
           Inl e \<Rightarrow> Inl e
         | Inr (totalCount, ownedNfts) \<Rightarrow> if totalCount = 0 then Inr [] else Inr ownedNfts))"

definition holds_item :: "db \<Rightarrow> user_id \<Rightarrow> string \<Rightarrow> string \<Rightarrow> bool" where
  "holds_item d u category subCategory \<longleftrightarrow>
     subCategory = ''DEFAULT'' \<or> map_of (t_collectibleItems d) (u, category, subCategory) \<noteq> None"

definition icon_error ::
  "ctx \<Rightarrow> (wallet \<Rightarrow> (int \<times> (string \<times> string) list) res) \<Rightarrow> IconType \<Rightarrow> string \<Rightarrow> db \<Rightarrow> use_case_error option" where
  "icon_error ctx owned iconType iconSubCategory d =
     (case iconType of
        ICON_IN_WORLD \<Rightarrow>
          if holds_item d (the (ctx_userId ctx)) ''ICON'' iconSubCategory then None
          else Some (InvalidArgumentUseCaseError ''Icons not held are specified'')
      | ICON_NFT \<Rightarrow>
          (case listProfileIconImages ctx owned of
             Inl e \<Rightarrow> Some e
           | Inr iconList \<Rightarrow>
               if list_ex (\<lambda>(_, tokenId). tokenId = iconSubCategory) iconList then None
               else Some (InvalidArgumentUseCaseError ''Icons not held are specified'')))"

definition set_profile :: "string \<Rightarrow> IconType \<Rightarrow> string \<Rightarrow> string \<Rightarrow> string \<Rightarrow> account \<Rightarrow> account" where
  "set_profile name iconType iconSubCategory titleSubCategory frameSubCategory a =
     a\<lparr>ac_name := name, ac_iconType := iconType, ac_iconSubCategory := iconSubCategory,
       ac_titleSubCategory := titleSubCategory, ac_frameSubCategory := frameSubCategory\<rparr>"

definition update_profile ::
  "(string \<Rightarrow> bool) \<Rightarrow> (wallet \<Rightarrow> (int \<times> (string \<times> string) list) res) \<Rightarrow> string \<Rightarrow> unit res \<Rightarrow> ctx \<Rightarrow>
   string \<Rightarrow> IconType \<Rightarrow> string \<Rightarrow> string \<Rightarrow> string \<Rightarrow> (user_base \<Rightarrow> user_base) \<Rightarrow> user_base \<Rightarrow>
   account option res \<times> user_base" where
  "update_profile profanity owned firebaseId claims ctx name iconType iconSubCategory titleSubCategory
       frameSubCategory other w =
     (case isValidName profanity name of (valid, message) \<Rightarrow>
      if \<not> valid then (Inl (InvalidArgumentUseCaseError message), w)
      else
      (case icon_error ctx owned iconType iconSubCategory (ub_db w) of
         Some e \<Rightarrow> (Inl e, w)
       | None \<Rightarrow>
      let u = the (ctx_userId ctx) in
      if \<not> holds_item (ub_db w) u ''TITLE'' titleSubCategory
      then (Inl (InvalidArgumentUseCaseError ''Title not held are specified''), w)
      else if \<not> holds_item (ub_db w) u ''FRAME'' frameSubCategory
      then (Inl (InvalidArgumentUseCaseError ''Frame not held are specified''), w)
      else
      (let w1 = other w;
           w2 = w1\<lparr>ub_accounts := apply_row
                 (set_profile name iconType iconSubCategory titleSubCategory frameSubCategory) u (ub_accounts w1)\<rparr>
       in
       if map_of (ub_accounts w1) u = None then (Inl (UnhandledUseCaseError ''user name update failed''), w1)
       else if firebaseId = [] then (Inr (map_of (ub_accounts w2) u), w2)
       else
         (case claims of
            Inl e \<Rightarrow> (Inl (UnhandledUseCaseError ''user name update failed''), w2)
          | Inr _ \<Rightarrow> (Inr (map_of (ub_accounts w2) u), w2)))))"

section \<open>Checking the pictures\<close>

text \<open>Address and tokens (as decimal texts) of each owner, in the answer of the service; a later entry of an address replaces an earlier one.\<close>

definition getOwners :: "(string \<times> string list) list \<Rightarrow> (string, string list) table" where
  "getOwners response = rev (map (\<lambda>(ownerAddress, tokenIds). (toLowerCase ownerAddress, tokenIds)) response)"

fun reset_users ::
  "(string, string list) table \<Rightarrow> db \<Rightarrow> (user_id \<times> account) list \<Rightarrow> user_id list res" where
  "reset_users owners d [] = Inr []"
| "reset_users owners d ((u, a) # users) =
     (case Option.bind (map_of (t_users d) u) u_walletAddress of
        None \<Rightarrow> Inl JsTypeError
      | Some wallet \<Rightarrow>
          (case reset_users owners d users of
             Inl e \<Rightarrow> Inl e
           | Inr ids \<Rightarrow>
               (case map_of owners (toLowerCase wallet) of
                  None \<Rightarrow> Inr (u # ids)
                | Some owner \<Rightarrow> if ac_iconSubCategory a \<notin> set owner then Inr (u # ids) else Inr ids)))"

definition reset_icon :: "account \<Rightarrow> account" where
  "reset_icon a = a\<lparr>ac_iconType := ICON_IN_WORLD, ac_iconSubCategory := ''DEFAULT''\<rparr>"

definition check_pictures ::
  "(string \<times> string list) list res \<Rightarrow> (user_base \<Rightarrow> user_base) \<Rightarrow> user_base \<Rightarrow> nat res \<times> user_base" where
  "check_pictures response other w =
     (case response of
        Inl e \<Rightarrow> (Inl e, w)
      | Inr owned \<Rightarrow>
      (case reset_users (getOwners owned) (ub_db w)
              (filter (\<lambda>(_, a). ac_iconType a = ICON_NFT) (ub_accounts w)) of
         Inl e \<Rightarrow> (Inl e, w)
       | Inr resetUserIds \<Rightarrow>
           let w1 = other w;
               hit = (\<lambda>u a. ac_iconType a = ICON_NFT \<and> u \<in> set resetUserIds)
           in (Inr (count_rows hit (ub_accounts w1)),
               w1\<lparr>ub_accounts := update_rows hit reset_icon (ub_accounts w1)\<rparr>)))"

end
