(* ===== verification/Profile_Props.thy ===== *)
theory Profile_Props
  imports User_Profiles Sample
begin

text \<open>
  Names stay valid and what a profile shows stays held over any run of creations, changes and checks, and
  the check of the pictures leaves exactly the pictures their users own.
\<close>

section \<open>Profiles stay valid\<close>

definition shown_held :: "db \<Rightarrow> user_id \<Rightarrow> account \<Rightarrow> bool" where
  "shown_held d u a \<longleftrightarrow> holds_item d u ''TITLE'' (ac_titleSubCategory a) \<and> holds_item d u ''FRAME'' (ac_frameSubCategory a) \<and>
     (ac_iconType a = ICON_IN_WORLD \<longrightarrow> holds_item d u ''ICON'' (ac_iconSubCategory a))"

definition profiles_ok :: "(string \<Rightarrow> bool) \<Rightarrow> user_base \<Rightarrow> bool" where
  "profiles_ok profanity w \<longleftrightarrow> distinct (map fst (ub_accounts w)) \<and> distinct (map (ac_email \<circ> snd) (ub_accounts w)) \<and>
     (\<forall>(u, a) \<in> set (ub_accounts w). fst (isValidName profanity (ac_name a)) \<and> shown_held (ub_db w) u a)"

text \<open>No item that a user collected is ever taken away.\<close>

definition items_grow :: "db \<Rightarrow> db \<Rightarrow> bool" where
  "items_grow d d' \<longleftrightarrow> dom (map_of (t_collectibleItems d)) \<subseteq> dom (map_of (t_collectibleItems d'))"

inductive profile_run :: "(string \<Rightarrow> bool) \<Rightarrow> user_base \<Rightarrow> user_base \<Rightarrow> bool" for profanity where
  profile_done: "profile_run profanity w w"
| profile_create: "profile_run profanity w w1 \<Longrightarrow>
    createFromFirebase profanity decoded claims newId name w1 = (res, w2) \<Longrightarrow> profile_run profanity w w2"
| profile_update: "profile_run profanity w w1 \<Longrightarrow> profile_run profanity w1 (other w1) \<Longrightarrow>
    update_profile profanity owned firebaseId claims ctx name it ic ti fr other w1 = (res', w2) \<Longrightarrow> profile_run profanity w w2"
| profile_check: "profile_run profanity w w1 \<Longrightarrow> profile_run profanity w1 (other w1) \<Longrightarrow>
    check_pictures response other w1 = (res'', w2) \<Longrightarrow> profile_run profanity w w2"
| profile_elsewhere: "profile_run profanity w w1 \<Longrightarrow> items_grow (ub_db w1) d \<Longrightarrow> profile_run profanity w (w1\<lparr>ub_db := d\<rparr>)"

lemma items_grow_refl [simp]: "items_grow d d"
  by (simp add: items_grow_def)

lemma items_grow_trans: "items_grow d1 d2 \<Longrightarrow> items_grow d2 d3 \<Longrightarrow> items_grow d1 d3"
  by (auto simp: items_grow_def)

lemma holds_item_grow: "items_grow d d' \<Longrightarrow> holds_item d u c s \<Longrightarrow> holds_item d' u c s"
  by (auto simp: items_grow_def holds_item_def dom_def)

lemma shown_held_grow: "items_grow d d' \<Longrightarrow> shown_held d u a \<Longrightarrow> shown_held d' u a"
  by (auto simp: shown_held_def holds_item_grow)

lemma profiles_ok_grow: "items_grow (ub_db w) d \<Longrightarrow> profiles_ok profanity w \<Longrightarrow> profiles_ok profanity (w\<lparr>ub_db := d\<rparr>)"
  by (fastforce simp: profiles_ok_def shown_held_grow)

lemma create_account_Inr:
  assumes "create_account newId email name w = Inr w'"
  shows "ub_accounts w' = ub_accounts w @ [(newId, new_account email name)]"
    "items_grow (ub_db w) (ub_db w')" "newId \<notin> fst ` set (ub_accounts w)"
    "email \<notin> (ac_email \<circ> snd) ` set (ub_accounts w)"
  using assms
  by (auto simp: create_account_def user_tab.create_Inr put_defs items_grow_def map_of_eq_None_iff list_ex_iff
      split: if_splits sum.splits)

lemma new_account_ok: "shown_held d u (new_account email name)" "ac_name (new_account email name) = name"
  "ac_email (new_account email name) = email"
  by (simp_all add: new_account_def shown_held_def holds_item_def)

lemma create_account_ok:
  assumes "create_account newId email name w = Inr w'" and "fst (isValidName profanity name)" and "profiles_ok profanity w"
  shows "profiles_ok profanity w'"
  using create_account_Inr [OF assms(1)] assms(2,3)
  by (fastforce simp: profiles_ok_def new_account_ok shown_held_grow)

lemma createFromFirebase_ok:
  assumes "createFromFirebase profanity decoded claims newId name w = (res, w')" and "profiles_ok profanity w"
  shows "profiles_ok profanity w' \<and> items_grow (ub_db w) (ub_db w')"
proof -
  have "w' = w \<or> (\<exists>email. fst (isValidName profanity name) \<and> create_account newId email name w = Inr w')"
    using assms(1) by (auto simp: createFromFirebase_def split: sum.splits if_splits prod.splits)
  then show ?thesis using assms(2) create_account_ok create_account_Inr(2) by auto
qed

lemma set_profile_emails: "map (ac_email \<circ> snd) (apply_row (set_profile n it ic ti fr) u t) = map (ac_email \<circ> snd) t"
  by (induction t) (auto simp: set_profile_def)

lemma update_profile_ok:
  assumes "update_profile profanity owned firebaseId claims ctx name it ic ti fr other w = (res, w')"
    and "profiles_ok profanity w" and "profiles_ok profanity (other w)" and "items_grow (ub_db w) (ub_db (other w))"
  shows "profiles_ok profanity w' \<and> items_grow (ub_db w) (ub_db w')"
proof -
  let ?u = "the (ctx_userId ctx)" and ?f = "set_profile name it ic ti fr"
  consider (same) "w' = w \<or> w' = other w"
    | (set) "fst (isValidName profanity name)" "icon_error ctx owned it ic (ub_db w) = None"
        "holds_item (ub_db w) ?u ''TITLE'' ti" "holds_item (ub_db w) ?u ''FRAME'' fr"
        "w' = (other w)\<lparr>ub_accounts := apply_row ?f ?u (ub_accounts (other w))\<rparr>"
    using assms(1) by (auto simp: update_profile_def Let_def split: sum.splits if_splits prod.splits option.splits)
  then show ?thesis
  proof cases
    case set
    have "shown_held (ub_db w) ?u (?f a)" for a
      using set(2-4) by (auto simp: shown_held_def set_profile_def icon_error_def split: if_splits IconType.splits)
    then have "shown_held (ub_db (other w)) ?u (?f a)" for a using assms(4) shown_held_grow by blast
    moreover have "ac_name (?f a) = name" for a by (simp add: set_profile_def)
    ultimately show ?thesis
      using assms(3,4) set(1)
      by (fastforce simp: profiles_ok_def set(5) set_profile_emails dest: set_apply_row)
  qed (use assms in auto)
qed

lemma reset_rows:
  "map fst (update_rows P f t) = map fst t" "(\<And>a. ac_email (f a) = ac_email a) \<Longrightarrow>
     map (ac_email \<circ> snd) (update_rows P f t) = map (ac_email \<circ> snd) t"
  by (auto simp: update_rows_def)

lemma check_pictures_ok:
  assumes "check_pictures response other w = (res, w')"
    and "profiles_ok profanity w" and "profiles_ok profanity (other w)" and "items_grow (ub_db w) (ub_db (other w))"
  shows "profiles_ok profanity w' \<and> items_grow (ub_db w) (ub_db w')"
proof -
  consider (same) "w' = w" | (reset) P where "w' = (other w)\<lparr>ub_accounts := update_rows P reset_icon (ub_accounts (other w))\<rparr>"
    using assms(1) by (auto simp: check_pictures_def Let_def split: sum.splits)
  then show ?thesis
  proof cases
    case (reset P)
    have "shown_held d u (reset_icon a)" if "shown_held d u a" for d u a
      using that by (simp add: shown_held_def reset_icon_def holds_item_def)
    moreover have "ac_name (reset_icon a) = ac_name a" "ac_email (reset_icon a) = ac_email a" for a
      by (simp_all add: reset_icon_def)
    ultimately show ?thesis
      using assms(3,4) by (auto simp: profiles_ok_def reset reset_rows) (auto simp: update_rows_def)
  qed (use assms in auto)
qed

text \<open>
  Over any run of creations, changes and checks, every name is valid, the emails are distinct, and what a
  profile shows is held by its user.
\<close>

lemma profiles_stay_valid:
  assumes "profile_run profanity w w'" and "profiles_ok profanity w"
  shows "profiles_ok profanity w'"
proof -
  have "profiles_ok profanity w \<Longrightarrow> profiles_ok profanity w' \<and> items_grow (ub_db w) (ub_db w')"
    using assms(1)
  proof (induction rule: profile_run.induct)
    case (profile_create w w1 decoded claims newId name res w2)
    then show ?case using createFromFirebase_ok items_grow_trans by blast
  next
    case (profile_update w w1 other owned firebaseId claims ctx name it ic ti fr res' w2)
    then show ?case using update_profile_ok items_grow_trans by meson
  next
    case (profile_check w w1 other response res'' w2)
    then show ?case using check_pictures_ok items_grow_trans by meson
  next
    case (profile_elsewhere w w1 d)
    then show ?case using profiles_ok_grow items_grow_trans by auto
  qed simp
  with assms(2) show ?thesis by simp
qed

section \<open>The check of the pictures\<close>

definition owns_picture :: "(string \<times> string list) list \<Rightarrow> db \<Rightarrow> user_id \<Rightarrow> account \<Rightarrow> bool" where
  "owns_picture owned d u a \<longleftrightarrow> (\<exists>wallet tokens. Option.bind (map_of (t_users d) u) u_walletAddress = Some wallet \<and>
     map_of (getOwners owned) (toLowerCase wallet) = Some tokens \<and> ac_iconSubCategory a \<in> set tokens)"

lemma reset_users_spec:
  assumes "reset_users (getOwners owned) d users = Inr ids"
  shows "ids = map fst (filter (\<lambda>(u, a). \<not> owns_picture owned d u a) users)"
  using assms
  by (induction users arbitrary: ids) (auto simp: owns_picture_def split: option.splits sum.splits if_splits)

text \<open>
  When every user who shows a picture has a wallet, the check ends normally and gives the default icon to exactly
  those whose wallet does not own the picture, and counts them.
\<close>

lemma pictures_checked:
  assumes "distinct (map fst (ub_accounts w))"
    and "\<forall>(u, a) \<in> set (ub_accounts w). ac_iconType a = ICON_NFT \<longrightarrow> Option.bind (map_of (t_users (ub_db w)) u) u_walletAddress \<noteq> None"
  shows "\<exists>n w'. check_pictures (Inr owned) (\<lambda>w. w) w = (Inr n, w') \<and> ub_db w' = ub_db w \<and>
    (\<forall>u. map_of (ub_accounts w') u = map_option (\<lambda>a. if ac_iconType a = ICON_NFT \<and> \<not> owns_picture owned (ub_db w) u a
       then reset_icon a else a) (map_of (ub_accounts w) u))"
proof -
  let ?nft = "filter (\<lambda>(_, a). ac_iconType a = ICON_NFT) (ub_accounts w)"
  have "\<exists>ids. reset_users owners (ub_db w) users = Inr ids"
    if "\<forall>(u, a) \<in> set users. Option.bind (map_of (t_users (ub_db w)) u) u_walletAddress \<noteq> None" for owners users
    using that by (induction users) (auto split: option.splits)
  from this [of ?nft "getOwners owned"] assms(2) obtain ids where ids: "reset_users (getOwners owned) (ub_db w) ?nft = Inr ids"
    by fastforce
  let ?hit = "\<lambda>u a. ac_iconType a = ICON_NFT \<and> u \<in> set ids"
  have hit: "?hit u a \<longleftrightarrow> ac_iconType a = ICON_NFT \<and> \<not> owns_picture owned (ub_db w) u a"
    if "map_of (ub_accounts w) u = Some a" for u a
  proof -
    have "u \<in> set ids \<longleftrightarrow> (\<exists>a'. (u, a') \<in> set (ub_accounts w) \<and> ac_iconType a' = ICON_NFT \<and> \<not> owns_picture owned (ub_db w) u a')"
      unfolding reset_users_spec [OF ids] by force
    with that show ?thesis unfolding map_of_eq_Some_iff [OF assms(1), symmetric] by auto
  qed
  have "map_of (update_rows ?hit reset_icon (ub_accounts w)) u =
      map_option (\<lambda>a. if ac_iconType a = ICON_NFT \<and> \<not> owns_picture owned (ub_db w) u a then reset_icon a else a)
        (map_of (ub_accounts w) u)" for u
    unfolding map_of_update_rows using hit [of u] by (cases "map_of (ub_accounts w) u") auto
  moreover have "check_pictures (Inr owned) (\<lambda>w. w) w = (Inr (count_rows ?hit (ub_accounts w)),
      w\<lparr>ub_accounts := update_rows ?hit reset_icon (ub_accounts w)\<rparr>)"
    by (simp add: check_pictures_def ids Let_def)
  ultimately show ?thesis by (intro exI) auto
qed

end
