(* ===== verification/Spec2Isabelle.thy ===== *)
theory Spec2Isabelle
  imports Extract_Props Transfer_Props Machine_Props Play_Rewards Craft_Props Session_End Ranking_Props Tournament_Props Booster_Props Quest_Payments Collect_Day Confirmer_Chain Confirmer_Currency_Props Watcher_Props Executor_Props Wallet_Props Confirmer_Stops Item_Props Campaign_Props Notification_Props Rovi_Props Purchase_Props Profile_Props
begin

text \<open>
  Akiverse is a game center kept in a PostgreSQL database that a TypeScript server reads and writes through
  Prisma: players own arcade machines, arcade parts and game centers (NFTs), place machines in centers, play on
  them and are paid in Teras, extract, dismantle and craft parts, enter tournaments, follow quests, and move items
  and currencies to and from a blockchain.  Daemons collect the rental fees, watch the chain, confirm what
  happened on it and send the transactions of withdrawals.  The development models the helpers and the use
  cases under \<open>src/\<close> and these daemons, and proves what they promise; all paths below are relative to
  \<open>src/\<close> of the repository's package.

  State and operations.  \<open>Database\<close> has the tables of \<open>prisma/schema.prisma\<close> as one record \<open>db\<close> of association
  lists in the order of the rows, with the columns the code computes with.  \<open>Queries\<close> has the queries of Prisma
  over any table (create, update, updateMany, upsert, count) and transactions, which have all effects of their
  queries or none; \<open>Tables\<close> has the check constraints and unique indexes of the migrations and interprets the
  locales \<open>table_store\<close>, \<open>checked_table\<close> and \<open>unique_index\<close>, which prove once what a query does on success and
  failure and that constraints are kept, for every table.  An operation takes the request (\<open>ctx\<close>), the clock and the
  rounding of the database (\<open>env\<close>), and gives a value or an error of \<open>use_case_error\<close> (\<open>use_cases/errors.ts\<close>,
  with the exceptions of Prisma and of JavaScript) and the database it leaves, also when it throws.  Other requests run at the same
  time: an operation of the users that reads first and writes later mostly takes a function \<open>other\<close> on the database, which stands for all they do
  between the two, and the theorems hold for every such function or name what it must keep.  The reads of one request
  are taken together, at the state in which it starts.  The Confirmer's pass over the transfers has such a gap between any two of its
  statements (\<open>checkTransfers_during\<close> and the operations below it in \<open>Confirmer_Transfers\<close>, of which \<open>checkTransfers\<close> is the
  run without interference); the operations of \<open>Nft_Transfers\<close> get the rows that were read before as arguments.  What has no such argument is taken as a
  whole, without interference: \<open>open_chains\<close>, where the check of the quests lists the open chains and creates the quests that
  follow, the rewards of a campaign, and the other daemons (the Watcher, the Confirmer's passes over blocks and
  currencies, the Executor).  Calls whose results are not
  used again are entries of the log \<open>t_calls\<close>, which \<open>Notifications\<close> runs.

  Values.  Decimals are exact rationals, rounded where they are written to an integer column (the code's have twenty
  significant digits); integer columns, of 32 bits in the database, are unbounded, so that its overflow errors do not occur; \<open>Js_Values\<close> and
  \<open>Doubles\<close> have the texts and the IEEE doubles of JavaScript where a result depends on them, machine words
  appear in the packed scores of \<open>Ranking\<close>.  \<open>Prelude\<close> has the shared vocabulary and lemmas, \<open>Utils\<close> the helpers of
  \<open>utils.ts\<close> with the locale \<open>comparator\<close>, \<open>Metadata\<close> the master data of \<open>metadata/\<close>, \<open>Sample\<close> the
  database on which the theorems are instantiated.
\<close>

text \<open>
  The parts, their theories and what is shown.

  Extraction (\<open>Extract_Table\<close>, \<open>Extract_Box\<close>, \<open>Extract_Draw\<close>, \<open>Extract_Usecase\<close>: \<open>models/extract_table.ts\<close>,
  \<open>use_cases/extract_usecase.ts\<close>).  Which items are drawn and that the answer keeps the best of the draw, what a successful
  extraction takes, gives and records, that energy is never spent twice, which errors are tried again
  (\<open>Extract_Correct\<close>, \<open>Extract_Props\<close>).

  Items on their way (\<open>Nft_Transfers\<close>: \<open>helpers/withdraw.ts\<close>, \<open>deposit.ts\<close>, \<open>burn.ts\<close>, \<open>validate_item_owner.ts\<close>;
  \<open>Item_Usecases\<close>: \<open>game_center_usecase.ts\<close>, \<open>arcade_part_usecase.ts\<close>, \<open>junk_usecase.ts\<close>,
  \<open>processing_transfer_usecase.ts\<close>).  Batches move as a whole or not at all, every change of state is a step of the
  abstract life of an item \<open>nft_step\<close>; what an exchange of junk takes and gives; what is shown as under way
  (\<open>Transfer_Props\<close>, \<open>Item_Props\<close>).

  Machines and centers (\<open>Arcade_Machines\<close>, \<open>Machine_Lists\<close>: \<open>arcade_machine_usecase.ts\<close>, with the fees of \<open>Fee\<close>:
  \<open>helpers/fee.ts\<close>, \<open>mega_spark.ts\<close>, \<open>decimal.ts\<close>).  Every machine of a center keeps a position of its own within the
  capacity, an installation moves exactly the fee, the list of playable machines (\<open>Machine_Props\<close>).

  Playing (\<open>Play_Game\<close>, \<open>Play_Finish\<close>: \<open>play_game_usecase.ts\<close>, \<open>play_manager_usecase.ts\<close>).  All operations follow the
  abstract life of sessions \<open>session_step\<close> (a refinement), quotas hold over any run, a play pays once and exactly, energy stays
  within the tank (\<open>Play_Props\<close>, \<open>Play_Rewards\<close>, \<open>Session_End\<close>).  Crafting (\<open>Craft\<close>, \<open>Craft_Props\<close>:
  \<open>craft_usecase.ts\<close>).  Rewards (\<open>Rewards\<close>, \<open>Reward_Props\<close>: \<open>helpers/rewards.ts\<close>, \<open>reward_usecase.ts\<close>).
  Campaigns (\<open>Campaign\<close>, \<open>Campaign_Props\<close>: \<open>helpers/campaign.ts\<close>): every threshold is paid once, with all of its rewards, when plays
  are counted one by one.

  Rankings and tournaments (\<open>Ranking\<close>, \<open>Tournament\<close>, \<open>Tournament_Manager\<close>, \<open>Boosters\<close>: \<open>helpers/ranking.ts\<close>,
  \<open>ranking_usecase.ts\<close>, \<open>paid_tournament_usecase.ts\<close>, \<open>paid_tournament_manager_usecase.ts\<close>, \<open>helpers/paid_tournament.ts\<close>,
  \<open>ticket_transaction.ts\<close>, \<open>booster_item_usecase.ts\<close>).  The packed scores are read back and ordered as meant, the prize money is never
  exceeded, a sent prize is not sent again, boosters cost their fee, a user has one ratio at a time over any history \<open>booster_run\<close> of
  overlapping purchases (\<open>Ranking_Props\<close>, \<open>Tournament_Props\<close>, \<open>Booster_Props\<close>).
  \<open>Rovi_Tournaments\<close>, \<open>Rovi_Props\<close>: the batch \<open>rovi_tournament_manager_usecase.ts\<close>, whose two tables are its own state.

  Quests (\<open>Quest_Progress\<close>, \<open>Quests\<close>: \<open>models/internal/quests/utils.ts\<close>, \<open>helpers/quests.ts\<close>, \<open>quest_usecase.ts\<close>).  Streaks count
  days, the check ends, quests open in order over any run \<open>quest_run\<close>, what accepting costs and finishing pays
  (\<open>Quest_Props\<close>, \<open>Quest_Payments\<close>).

  The daily fees (\<open>Collect_Fee\<close>: \<open>collect_fee_usecase.ts\<close>).  No Teras are made or lost, an owner pays as long as the balance lasts, every fee of
  an orderly day is settled (\<open>Collect_Ledger\<close>, \<open>Collect_Settle\<close>, \<open>Collect_Day\<close>).

  The chain.  The Watcher (\<open>Watcher\<close>, \<open>Watcher_Props\<close>: \<open>apps/watcher/watcher.ts\<close>, \<open>helpers/blockchain.ts\<close>) records blocks and transfers, each
  once for its key.  The Confirmer (\<open>Block_Cache\<close>, \<open>Confirmer_Blocks\<close>, \<open>Transfer_Paths\<close>, \<open>Confirmer_Transfers\<close>, \<open>Confirmer_Currency\<close>:
  \<open>apps/confirmer/confirmer.ts\<close>) decides the blocks and carries out the transfers of decided ones: the rule of confirmation without cache and order, one
  confirmed block for a height, items only move on, deposits are credited once, every currency transfer is decided (\<open>Confirmer_Chain\<close>,
  \<open>Confirmer_Owner_Props\<close>, \<open>Confirmer_Currency_Props\<close>); after a reorganisation of the chain it may stop for good (\<open>Confirmer_Stops\<close>).  The Executor (\<open>Executor\<close>, \<open>Executor_Props\<close>: \<open>helpers/executor.ts\<close>,
  \<open>helpers/executor/\<close>) sends the withdrawals and decides each.  \<open>Wallet_Address\<close>, \<open>Wallet_Props\<close> (\<open>wallet_address_usecase.ts\<close>): items belong to
  the user of their wallet, over any run \<open>wallet_run\<close> of overlapping registrations and Confirmer passes, with one gap excepted.

  Purchases (\<open>In_App_Purchases\<close>, \<open>Purchase_Props\<close>: \<open>use_cases/in_app_purchases/\<close>).  Tickets and granted purchases stay in step over any
  run \<open>shop_run\<close>; the locale \<open>purchase_table\<close> has what both stores share.  Notifications (\<open>Event_Message\<close>, \<open>Notifications\<close>,
  \<open>Notification_Props\<close>: \<open>models/external/event_message.ts\<close>, \<open>helpers/event_notification.ts\<close>).  Every stored message meets its schema.

  Users (\<open>User_Profiles\<close>, \<open>Profile_Props\<close>: \<open>user_usecase.ts\<close>, \<open>use_cases/eth_nfts/\<close>).  Names stay valid and what a profile shows is
  held, over any run \<open>profile_run\<close>; the check of the pictures resets exactly those that are not owned.

  Several theorems prove that the code does what it should not: \<open>chain_paid_twice\<close>, \<open>reorganised_transfer_stops\<close>,
  \<open>currency_sent_twice\<close>, \<open>receipt_redeemed_again\<close>, \<open>google_purchase_lost\<close>, \<open>install_ignores_a_leaving_center\<close>, and the
  lemmas \<open>same_token_number_lost\<close>, \<open>crafts_counted_together\<close>, \<open>machine_owner_not_told\<close>, \<open>small_prize_blocks_the_run\<close>,
  \<open>late_registration_loses_item\<close>, \<open>two_ratios_after_top_up\<close>, \<open>teras_and_tickets_sent\<close> and \<open>accepting_takes_the_price\<close>.
\<close>

text \<open>
  Parameters.  What the code takes from outside is an argument: ids generated by the database, draws of \<open>Math.random\<close>, hashes, the
  calendar of \<open>dayjs\<close> (dates are milliseconds and texts), the collation of the database, the answers of SPNPay, the
  stores, the Rovi service and the providers of the chain, the outcome of sending a transaction, what Moralis verified, the
  start and end of the campaign.

  Fuel.  \<open>checkAndUpdate\<close> starts itself again and has fuel; \<open>quest_check_ends\<close> shows that one pass more than there are
  closed quests about the wallet is enough.  \<open>scan_pages\<close> and \<open>tally_pages\<close> read pages until the service sends an empty one;
  \<open>new_contests_stored\<close> shows that more fuel than there are contests is enough when the service answers with the pages of a
  list, and \<open>None\<close> says that a run has not ended.  All other loops are structural recursions or end by a proved measure.

  Not modelled: the GraphQL and REST layer (\<open>apps/server/\<close>), which passes arguments on; logins, tokens and
  images, which call Firebase, Magic, Moralis and S3 around single rows (\<open>login_usecase.ts\<close>, \<open>helpers/token.ts\<close>,
  \<open>firebase_auth.ts\<close>, \<open>spnpay.ts\<close>), and the deprecated creation of a user through Magic; the entry points of the daemons, their waiting and stopping; logging; columns nothing computes with
  (descriptions, image addresses, nonces and responses of transactions); scripts, tests and generated code.
\<close>

end
